(* ===== verification/Prelude.thy ===== *)
theory Prelude
  imports Complex_Main "HOL-Library.AList" "HOL-Library.List_Lexorder"
    "HOL-Library.Char_ord" "HOL-Library.Product_Lexorder" "HOL-Library.Multiset"
begin

text \<open>
  Shared vocabulary of the development: Python dictionaries as association lists in
  insertion order, the result type of a call that may raise, and the generic list and
  dictionary lemmas the components use.
\<close>

section \<open>Collections of facts\<close>

named_theorems inv_defs \<open>definitions of the invariants\<close>
named_theorems op_defs \<open>definitions of the non-recursive operations\<close>

section \<open>Calls that may raise\<close>

text \<open>
  A call returns \<open>Inr v\<close>, or raises and is \<open>Inl e\<close>. \<open>res_bind\<close> is "the next
  statement": it runs only when the previous one did not raise.
\<close>

definition res_bind :: "'e + 'a \<Rightarrow> ('a \<Rightarrow> 'e + 'b) \<Rightarrow> 'e + 'b" where
  "res_bind r f = (case r of Inl e \<Rightarrow> Inl e | Inr v \<Rightarrow> f v)"

lemma res_bind_simps [simp]:
  "res_bind (Inl e) f = Inl e"
  "res_bind (Inr v) f = f v"
  by (simp_all add: res_bind_def)

lemma res_bind_Inr: "res_bind r f = Inr v \<longleftrightarrow> (\<exists>u. r = Inr u \<and> f u = Inr v)"
  by (cases r) auto

lemma res_bind_Inl:
  "res_bind r f = Inl e \<longleftrightarrow> r = Inl e \<or> (\<exists>u. r = Inr u \<and> f u = Inl e)"
  by (cases r) auto

text \<open>A loop of calls over a list, stopping at the first one that raises.\<close>

fun res_fold :: "('a \<Rightarrow> 's \<Rightarrow> 'e + 's) \<Rightarrow> 'a list \<Rightarrow> 's \<Rightarrow> 'e + 's" where
  "res_fold f [] s = Inr s"
| "res_fold f (x # xs) s = res_bind (f x s) (res_fold f xs)"

lemma res_fold_append:
  "res_fold f (xs @ ys) s = res_bind (res_fold f xs s) (res_fold f ys)"
  by (induction xs arbitrary: s) (auto simp: res_bind_def split: sum.splits)

lemma res_fold_inv:
  assumes "res_fold f xs s = Inr s'" and "P s"
    and "\<And>x s s'. x \<in> set xs \<Longrightarrow> P s \<Longrightarrow> f x s = Inr s' \<Longrightarrow> P s'"
  shows "P s'"
  using assms
proof (induction xs arbitrary: s)
  case Nil
  then show ?case by simp
next
  case (Cons x xs)
  from Cons.prems(1) obtain u where u: "f x s = Inr u" "res_fold f xs u = Inr s'"
    by (auto simp: res_bind_Inr)
  from Cons.prems(3)[OF _ Cons.prems(2) u(1)] have "P u" by simp
  then show ?case using Cons.IH[OF u(2)] Cons.prems(3) by auto
qed

text \<open>A comprehension whose element expression may raise.\<close>

fun res_map :: "('a \<Rightarrow> 'e + 'b) \<Rightarrow> 'a list \<Rightarrow> 'e + 'b list" where
  "res_map f [] = Inr []"
| "res_map f (x # xs) = res_bind (f x) (\<lambda>y. res_bind (res_map f xs) (\<lambda>ys. Inr (y # ys)))"

lemma res_map_pure: "(\<And>x. x \<in> set xs \<Longrightarrow> f x = Inr (g x)) \<Longrightarrow> res_map f xs = Inr (map g xs)"
  by (induction xs) simp_all

lemma res_map_Inl: "res_map f xs = Inl e \<Longrightarrow> \<exists>x \<in> set xs. f x = Inl e"
  by (induction xs) (auto simp: res_bind_Inl)

section \<open>Dictionaries\<close>

text \<open>
  A Python \<open>dict\<close> keeps insertion order: storing under a known key keeps its place,
  storing under a new one appends. \<^const>\<open>AList.update\<close>, \<^const>\<open>AList.delete\<close> and
  \<^const>\<open>map_of\<close> do exactly that.
\<close>

type_synonym ('k, 'v) dict = "('k \<times> 'v) list"

abbreviation dict_get :: "('k, 'v) dict \<Rightarrow> 'k \<Rightarrow> 'v option" where
  "dict_get d k \<equiv> map_of d k"

abbreviation dict_set :: "'k \<Rightarrow> 'v \<Rightarrow> ('k, 'v) dict \<Rightarrow> ('k, 'v) dict" where
  "dict_set \<equiv> AList.update"

abbreviation dict_del :: "'k \<Rightarrow> ('k, 'v) dict \<Rightarrow> ('k, 'v) dict" where
  "dict_del \<equiv> AList.delete"

abbreviation dict_keys :: "('k, 'v) dict \<Rightarrow> 'k list" where
  "dict_keys d \<equiv> map fst d"

abbreviation dict_values :: "('k, 'v) dict \<Rightarrow> 'v list" where
  "dict_values d \<equiv> map snd d"

definition dict_ok :: "('k, 'v) dict \<Rightarrow> bool" where
  [inv_defs]: "dict_ok d \<longleftrightarrow> distinct (dict_keys d)"

lemma dict_ok_Nil [simp]: "dict_ok []"
  by (simp add: dict_ok_def)

lemma dict_ok_set [simp]: "dict_ok d \<Longrightarrow> dict_ok (dict_set k v d)"
  by (simp add: dict_ok_def distinct_update)

lemma dict_ok_del [simp]: "dict_ok d \<Longrightarrow> dict_ok (dict_del k d)"
  by (simp add: dict_ok_def distinct_delete)

lemma dict_get_set [simp]: "dict_get (dict_set k v d) k' = (if k = k' then Some v else dict_get d k')"
  by (simp add: update_conv')

lemma dict_get_del [simp]: "dict_get (dict_del k d) k' = (if k = k' then None else dict_get d k')"
  by (simp add: delete_conv')

lemma dict_get_Some_iff: "dict_ok d \<Longrightarrow> dict_get d k = Some v \<longleftrightarrow> (k, v) \<in> set d"
  by (auto simp: dict_ok_def map_of_eq_Some_iff)

lemma dict_get_None_iff: "dict_get d k = None \<longleftrightarrow> k \<notin> set (dict_keys d)"
  by (simp add: map_of_eq_None_iff)

lemma dict_keys_set: "set (dict_keys (dict_set k v d)) = insert k (set (dict_keys d))"
  by (simp add: dom_update)

lemma dict_get_image: "dict_get d k = Some v \<Longrightarrow> v \<in> set (dict_values d)"
  by (metis image_eqI map_of_SomeD set_map snd_conv)

lemma dict_set_same:
  "dict_get d k = Some v \<Longrightarrow> dict_set k v d = d"
  by (rule update_triv)

lemma dict_set_new: "dict_get d k = None \<Longrightarrow> dict_set k v d = d @ [(k, v)]"
  by (induction d) auto

lemma set_dict_del: "set (dict_del k d) = {x \<in> set d. fst x \<noteq> k}"
  by (induction d) auto

lemma set_dict_set: "dict_ok d \<Longrightarrow> set (dict_set k v d) = insert (k, v) {x \<in> set d. fst x \<noteq> k}"
proof (induction d)
  case Nil
  then show ?case by simp
next
  case (Cons a d)
  then show ?case by (cases a) (auto simp: dict_ok_def rev_image_eqI)
qed

lemma dict_del_set_new: "dict_get d k = None \<Longrightarrow> dict_del k (dict_set k v d) = d"
  by (simp add: delete_update_same) (simp add: dict_get_None_iff)

section \<open>Lists\<close>

lemma zip_tl_nth:
  "(a, b) \<in> set (zip xs (tl xs)) \<longleftrightarrow> (\<exists>i. Suc i < length xs \<and> a = xs ! i \<and> b = xs ! Suc i)"
  by (force simp: set_zip nth_tl)

text \<open>The shape of every validator: a list of complaints gathered in a loop.\<close>

lemma concat_map_Nil: "concat (map f xs) = [] \<longleftrightarrow> (\<forall>x \<in> set xs. f x = [])"
  by simp

lemma if_single_Nil [simp]: "((if b then [x] else []) = []) = (\<not> b)"
  by simp

lemma successively_nth: "successively P xs \<longleftrightarrow> (\<forall>i. Suc i < length xs \<longrightarrow> P (xs ! i) (xs ! Suc i))"
proof (induction P xs rule: successively.induct)
  case (3 P x y xs)
  then show ?case by (auto simp: nth_Cons split: nat.splits)
qed auto

lemma ball_enumerate: "(\<forall>(i, x) \<in> set (enumerate n xs). P x) \<longleftrightarrow> (\<forall>x \<in> set xs. P x)"
proof -
  have "set xs = snd ` set (enumerate n xs)" by (metis list.set_map map_snd_enumerate)
  then show ?thesis by auto
qed

lemma ball_enumerate_nth: "(\<forall>x \<in> set (enumerate 0 xs). P x) \<longleftrightarrow> (\<forall>i < length xs. P (i, xs ! i))"
proof -
  have "x \<in> set (enumerate 0 xs) \<longleftrightarrow> (\<exists>i < length xs. x = (i, xs ! i))" for x
    by (cases x) (auto simp: in_set_enumerate_eq)
  then show ?thesis by auto
qed

lemma Max_map_le: "xs \<noteq> [] \<Longrightarrow> (\<And>x. x \<in> set xs \<Longrightarrow> f x \<le> n) \<Longrightarrow> Max (set (map f xs)) \<le> n"
  by simp

text \<open>Outcomes of calls as conditions: a result, or a result beside a state.\<close>

lemma case_res_ok: "(case r of Inl e \<Rightarrow> False | Inr x \<Rightarrow> P x) \<longleftrightarrow> (\<exists>x. r = Inr x \<and> P x)"
  by (cases r) auto

lemma case_run_ok: "(case p of (Inl e, s) \<Rightarrow> False | (Inr x, s) \<Rightarrow> P x s) \<longleftrightarrow> (\<exists>x s. p = (Inr x, s) \<and> P x s)"
  by (cases p; cases "fst p") auto

lemma dict_get_filter_value:
  "dict_ok d \<Longrightarrow> dict_get (filter (\<lambda>(k, v). v \<noteq> r) d) k = (if dict_get d k = Some r then None else dict_get d k)"
proof (induction d)
  case (Cons e d)
  obtain i v where e: "e = (i, v)" by (cases e)
  have "dict_get d i = None" using Cons.prems unfolding dict_get_None_iff by (simp add: e dict_ok_def)
  then show ?case using Cons by (auto simp: e dict_ok_def)
qed simp

section \<open>Strings\<close>

text \<open>Python's \<open>str\<close> of an integer, as an f-string inserts it.\<close>

fun str_nat :: "nat \<Rightarrow> string" where
  "str_nat n = (if n < 10 then [char_of (48 + n)] else str_nat (n div 10) @ [char_of (48 + n mod 10)])"

declare str_nat.simps [simp del]

definition str_int :: "int \<Rightarrow> string" where
  "str_int i = (if i < 0 then ''-'' @ str_nat (nat (- i)) else str_nat (nat i))"

end
