(* ===== verification/Py_Float.thy ===== *)
theory Py_Float
  imports Prelude "HOL-Library.Log_Nat"
begin

text \<open>
  Python's \<open>float\<close> as the rational it denotes. Every arithmetic operation of the source
  is followed by \<open>fl\<close>, IEEE double rounding: 53 significant bits, to the nearest, ties
  to even, subnormals included. Overflow to infinity and NaN are not modelled: the program
  only adds, subtracts and divides percentages, kilograms and step counts. Facts: \<open>fl\<close>
  is monotone, idempotent and exact on integers up to \<open>2^53\<close>.
\<close>

section \<open>Rounding to double precision\<close>

type_synonym pyfloat = rat

definition pow2 :: "int \<Rightarrow> rat" where
  "pow2 e = (if 0 \<le> e then 2 ^ nat e else 1 / 2 ^ nat (- e))"

definition ilog2 :: "rat \<Rightarrow> int" where
  "ilog2 x = (let (p, q) = quotient_of x; d = bitlen p - bitlen q
              in if pow2 d \<le> x then d else d - 1)"

definition fl_exp :: "rat \<Rightarrow> int" where
  "fl_exp x = max (- 1074) (ilog2 x - 52)"

definition round_even :: "rat \<Rightarrow> int" where
  "round_even x = (let f = \<lfloor>x\<rfloor>; r = x - of_int f
                   in if r < 1 / 2 then f else if 1 / 2 < r then f + 1
                      else if even f then f else f + 1)"

definition fl_pos :: "rat \<Rightarrow> rat" where
  "fl_pos x = of_int (round_even (x / pow2 (fl_exp x))) * pow2 (fl_exp x)"

definition fl :: "rat \<Rightarrow> rat" where
  "fl x = (if x = 0 then 0 else if 0 < x then fl_pos x else - fl_pos (- x))"

definition is_float :: "rat \<Rightarrow> bool" where
  "is_float x \<longleftrightarrow> fl x = x"

section \<open>Powers of two and the binary exponent\<close>

lemma pow2_pos [simp]: "0 < pow2 e"
  by (simp add: pow2_def)

lemma pow2_nz [simp]: "pow2 e \<noteq> 0"
  using pow2_pos [of e] by linarith

lemma pow2_powi: "pow2 e = 2 powi e"
  unfolding pow2_def power_int_def by (simp add: inverse_eq_divide power_one_over)

lemma pow2_add: "pow2 (a + b) = pow2 a * pow2 b"
  by (simp add: pow2_powi power_int_add)

lemma pow2_mono: "a \<le> b \<Longrightarrow> pow2 a \<le> pow2 b"
  by (simp add: pow2_powi power_int_increasing)

lemma pow2_less: "a < b \<Longrightarrow> pow2 a < pow2 b"
  by (simp add: pow2_powi power_int_strict_increasing)

lemma pow2_less_iff: "pow2 a < pow2 b \<longleftrightarrow> a < b"
  using pow2_less [of a b] pow2_mono [of b a] by (meson not_le)

lemma pow2_nat: "0 \<le> e \<Longrightarrow> pow2 e = of_int (2 ^ nat e)"
  by (simp add: pow2_def)

lemma ilog2_bounds:
  assumes "0 < x"
  shows "pow2 (ilog2 x) \<le> x \<and> x < pow2 (ilog2 x + 1)"
proof -
  obtain p q where pq: "quotient_of x = (p, q)" by force
  have q: "0 < q" using quotient_of_denom_pos [OF pq] .
  have x: "x = of_int p / of_int q" using quotient_of_div [OF pq] .
  have p: "0 < p" using assms q x by (simp add: zero_less_divide_iff)
  have bnd: "pow2 (bitlen k - 1) \<le> of_int k \<and> of_int k < pow2 (bitlen k)" if "0 < k" for k
  proof -
    have b: "1 \<le> bitlen k" using that bitlen_eq_zero_iff [of k] bitlen_nonneg [of k] by linarith
    have "2 ^ nat (bitlen k - 1) \<le> k \<and> k < 2 ^ nat (bitlen k)" using bitlen_bounds [OF that] .
    then show ?thesis using b
      by (simp add: pow2_nat del: of_int_power)
  qed
  define d where "d = bitlen p - bitlen q"
  have "x < pow2 (d + 1)"
  proof -
    have "of_int p < pow2 (d + 1) * pow2 (bitlen q - 1)"
      using bnd [OF p] by (simp add: d_def flip: pow2_add)
    also have "\<dots> \<le> pow2 (d + 1) * of_int q" using bnd [OF q] by simp
    finally show ?thesis using q by (simp add: x divide_less_eq)
  qed
  moreover have "pow2 (d - 1) \<le> x"
  proof -
    have "pow2 (d - 1) * of_int q \<le> pow2 (d - 1) * pow2 (bitlen q)" using bnd [OF q] by simp
    also have "\<dots> = pow2 (bitlen p - 1)" by (simp add: d_def flip: pow2_add)
    also have "\<dots> \<le> of_int p" using bnd [OF p] by simp
    finally show ?thesis using q by (simp add: x le_divide_eq)
  qed
  ultimately show ?thesis by (auto simp: ilog2_def pq d_def Let_def)
qed

lemma ilog2_unique:
  assumes "pow2 d \<le> x" "x < pow2 (d + 1)"
  shows "ilog2 x = d"
proof -
  have "0 < x" using assms pow2_pos [of d] by linarith
  from ilog2_bounds [OF this] assms
  have "pow2 d < pow2 (ilog2 x + 1)" "pow2 (ilog2 x) < pow2 (d + 1)" by linarith+
  then show ?thesis by (simp add: pow2_less_iff)
qed

lemma ilog2_mono: "0 < x \<Longrightarrow> x \<le> y \<Longrightarrow> ilog2 x \<le> ilog2 y"
proof -
  assume "0 < x" "x \<le> y"
  with ilog2_bounds [of x] ilog2_bounds [of y]
  have "pow2 (ilog2 x) < pow2 (ilog2 y + 1)" by linarith
  then show ?thesis by (simp add: pow2_less_iff)
qed

lemma fl_exp_mono: "0 < x \<Longrightarrow> x \<le> y \<Longrightarrow> fl_exp x \<le> fl_exp y"
  using ilog2_mono [of x y] by (simp add: fl_exp_def)

section \<open>Rounding\<close>

lemma round_even_of_int [simp]: "round_even (of_int k) = k"
  by (simp add: round_even_def Let_def)

lemma round_even_mono:
  assumes "x \<le> y"
  shows "round_even x \<le> round_even y"
proof (cases "\<lfloor>x\<rfloor> = \<lfloor>y\<rfloor>")
  case True
  then show ?thesis using assms by (auto simp: round_even_def Let_def)
next
  case False
  with assms have "\<lfloor>x\<rfloor> + 1 \<le> \<lfloor>y\<rfloor>" using floor_mono [OF assms] by linarith
  moreover have "round_even x \<le> \<lfloor>x\<rfloor> + 1" "\<lfloor>y\<rfloor> \<le> round_even y"
    by (simp_all add: round_even_def Let_def)
  ultimately show ?thesis by linarith
qed

lemma round_even_le: "x \<le> of_int k \<Longrightarrow> round_even x \<le> k"
  using round_even_mono [of x "of_int k"] by simp

lemma round_even_ge: "of_int k \<le> x \<Longrightarrow> k \<le> round_even x"
  using round_even_mono [of "of_int k" x] by simp

lemma fl_pos_nonneg: "0 < x \<Longrightarrow> 0 \<le> fl_pos x"
  using round_even_ge [of 0 "x / pow2 (fl_exp x)"] by (simp add: fl_pos_def less_imp_le)

lemma fl_pos_mono:
  assumes "0 < x" "x \<le> y"
  shows "fl_pos x \<le> fl_pos y"
proof (cases "fl_exp x = fl_exp y")
  case True
  have "x / pow2 (fl_exp y) \<le> y / pow2 (fl_exp y)" using assms by (simp add: divide_right_mono less_imp_le)
  then show ?thesis using round_even_mono by (simp add: fl_pos_def True)
next
  case False
  define a b where "a = fl_exp x" and "b = fl_exp y"
  have ab: "a < b" using fl_exp_mono [OF assms] False by (simp add: a_def b_def)
  have xlt: "x \<le> pow2 (53 + a)"
  proof -
    have "ilog2 x + 1 \<le> 53 + a" by (simp add: a_def fl_exp_def)
    then show ?thesis using ilog2_bounds [OF assms(1)] pow2_mono by fastforce
  qed
  have bl: "b + 52 = ilog2 y" using ab by (simp add: a_def b_def fl_exp_def max_def split: if_splits)
  have yge: "pow2 (52 + b) \<le> y"
    using ilog2_bounds [of y] assms bl by (simp add: add.commute)
  have "x / pow2 a \<le> of_int (2 ^ 53)"
    using xlt by (simp add: divide_le_eq pow2_add) (simp add: pow2_def)
  then have "fl_pos x \<le> of_int (2 ^ 53) * pow2 a"
    using round_even_le [of "x / pow2 a"] by (simp only: fl_pos_def flip: a_def) (simp add: mult_right_mono less_imp_le del: of_int_power of_int_numeral)
  also have "\<dots> = pow2 (53 + a)" by (simp add: pow2_add) (simp add: pow2_def)
  also have "\<dots> \<le> pow2 (52 + b)" using ab by (intro pow2_mono) simp
  also have "\<dots> = of_int (2 ^ 52) * pow2 b" by (simp add: pow2_add) (simp add: pow2_def)
  also have "\<dots> \<le> fl_pos y"
  proof -
    have "of_int (2 ^ 52) \<le> y / pow2 b"
      using yge by (simp add: le_divide_eq pow2_add) (simp add: pow2_def)
    from round_even_ge [OF this] show ?thesis
      by (simp only: fl_pos_def flip: b_def) (simp add: mult_right_mono less_imp_le del: of_int_power of_int_numeral)
  qed
  finally show ?thesis .
qed

lemma fl_0 [simp]: "fl 0 = 0"
  by (simp add: fl_def)

lemma fl_minus: "fl (- x) = - fl x"
  by (auto simp: fl_def)

lemma fl_nonneg [simp]: "0 \<le> x \<Longrightarrow> 0 \<le> fl x"
  using fl_pos_nonneg [of x] by (auto simp: fl_def)

lemma fl_mono: "x \<le> y \<Longrightarrow> fl x \<le> fl y"
proof -
  assume xy: "x \<le> y"
  consider "0 < x" | "x \<le> 0" "0 \<le> y" | "y < 0" by linarith
  then show ?thesis
  proof cases
    case 1
    with xy fl_pos_mono [of x y] show ?thesis by (simp add: fl_def)
  next
    case 2
    then have "0 \<le> fl (- x)" "0 \<le> fl y" by simp_all
    then show ?thesis by (simp add: fl_minus)
  next
    case 3
    with xy fl_pos_mono [of "- y" "- x"] show ?thesis by (simp add: fl_def)
  qed
qed

text \<open>A number whose scaled significand is an integer is not changed by rounding.\<close>

lemma fl_exact:
  assumes "0 < x" "x = of_int m * pow2 e" "e \<ge> fl_exp x"
  shows "fl x = x"
proof -
  let ?E = "fl_exp x"
  have "x / pow2 ?E = of_int m * pow2 (e - ?E)"
    using assms(2) pow2_add [of "e - ?E" ?E] by (simp add: field_simps)
  also have "\<dots> = of_int (m * 2 ^ nat (e - ?E))"
    using assms(3) by (simp add: pow2_def)
  finally have "fl_pos x = of_int (m * 2 ^ nat (e - ?E)) * pow2 ?E"
    unfolding fl_pos_def by (simp only: round_even_of_int)
  also have "\<dots> = x"
    using \<open>x / pow2 ?E = of_int m * pow2 (e - ?E)\<close> assms(3)
    by (simp add: field_simps pow2_def)
  finally show ?thesis using assms(1) by (simp add: fl_def)
qed

lemma fl_of_int:
  assumes "\<bar>k\<bar> < 2 ^ 53"
  shows "fl (of_int k) = of_int k"
proof -
  have pos: "fl (of_int n) = of_int n" if n: "0 < n" "n < 2 ^ 53" for n :: int
  proof -
    have "ilog2 (of_int n) \<le> 52"
    proof (rule ccontr)
      assume "\<not> ilog2 (of_int n) \<le> 52"
      then have "pow2 53 \<le> pow2 (ilog2 (of_int n))" by (intro pow2_mono) simp
      also have "\<dots> \<le> of_int n" using ilog2_bounds [of "of_int n"] n by simp
      finally have "(2::int) ^ 53 \<le> n" by (simp add: pow2_def)
      then show False using n by simp
    qed
    then have "fl_exp (of_int n) \<le> 0" by (simp add: fl_exp_def)
    then show ?thesis using n by (intro fl_exact [where m = n and e = 0]) (simp_all add: pow2_def)
  qed
  show ?thesis
  proof (cases "0 < k \<or> k = 0")
    case True
    then show ?thesis using pos assms by auto
  next
    case False
    then have "fl (of_int (- k)) = of_int (- k)" using assms by (intro pos) auto
    then show ?thesis by (simp add: fl_minus)
  qed
qed

lemma fl_pos_fl:
  assumes "0 < x"
  shows "fl (fl_pos x) = fl_pos x"
proof -
  define E m where "E = fl_exp x" and "m = round_even (x / pow2 E)"
  have y: "fl_pos x = of_int m * pow2 E" by (simp add: fl_pos_def E_def m_def)
  have "ilog2 x + 1 \<le> 53 + E" by (simp add: E_def fl_exp_def)
  then have "x \<le> pow2 (53 + E)" using ilog2_bounds [OF assms] pow2_mono by fastforce
  then have "x / pow2 E \<le> of_int (2 ^ 53)"
    by (simp add: divide_le_eq pow2_add) (simp add: pow2_def)
  then have mle: "m \<le> 2 ^ 53" unfolding m_def by (rule round_even_le)
  have E: "- 1074 \<le> E" by (simp add: E_def fl_exp_def)
  have "0 \<le> fl_pos x" using fl_pos_nonneg [OF assms] .
  then consider "fl_pos x = 0" | "0 < fl_pos x" "m < 2 ^ 53" | "0 < fl_pos x" "m = 2 ^ 53"
    using mle by fastforce
  then show ?thesis
  proof cases
    case 1
    then show ?thesis by simp
  next
    case 2
    have "of_int m * pow2 E < of_int (2 ^ 53) * pow2 E" using 2(2) by (simp del: of_int_power)
    also have "\<dots> = pow2 (53 + E)" by (simp add: pow2_add) (simp add: pow2_def)
    finally have "pow2 (ilog2 (fl_pos x)) < pow2 (53 + E)"
      using ilog2_bounds [OF 2(1)] y by simp
    then have "fl_exp (fl_pos x) \<le> E" using E by (simp add: pow2_less_iff fl_exp_def)
    then show ?thesis using 2(1) y by (intro fl_exact)
  next
    case 3
    then have z: "fl_pos x = of_int 1 * pow2 (E + 53)" using y
      by (simp add: pow2_add) (simp add: pow2_def)
    then have "ilog2 (fl_pos x) = E + 53" by (intro ilog2_unique) (simp_all add: pow2_less)
    then have "fl_exp (fl_pos x) \<le> E + 53" using E by (simp add: fl_exp_def)
    then show ?thesis using 3(1) z by (intro fl_exact)
  qed
qed

lemma fl_fl [simp]: "fl (fl x) = fl x"
  using fl_pos_fl [of x] fl_pos_fl [of "- x"] by (auto simp: fl_def [of x] fl_minus)

lemma fl_numeral: "(numeral n :: int) < 2 ^ 53 \<Longrightarrow> fl (numeral n) = numeral n"
  using fl_of_int [of "numeral n"] by simp

lemma fl_1 [simp]: "fl 1 = 1"
  using fl_of_int [of 1] by simp

end
