(* ===== verification/Position.thy ===== *)
theory Position
  imports Py_Float
begin

text \<open>
  Cells, directions and the exception classes (\<open>warehouse/grid.py\<close>,
  \<open>exceptions.py\<close>): a \<open>Position(row, col)\<close> with the dataclass' lexicographic order,
  the Manhattan distance and its metric laws, the four directions in declaration order,
  and adjacency as "one direction away".
\<close>

section \<open>Cells\<close>

datatype position = Position (row: int) (col: int)

definition MOVE_COST :: int where
  "MOVE_COST = 1"

definition manhattan_distance_to :: "position \<Rightarrow> position \<Rightarrow> int" where
  "manhattan_distance_to a b = \<bar>row a - row b\<bar> + \<bar>col a - col b\<bar>"

definition is_adjacent_to :: "position \<Rightarrow> position \<Rightarrow> bool" where
  "is_adjacent_to a b \<longleftrightarrow> manhattan_distance_to a b = 1"

text \<open>\<open>@dataclass(frozen=True, order=True)\<close>: cells compare as (row, col) tuples.\<close>

instantiation position :: linorder
begin

definition less_eq_position :: "position \<Rightarrow> position \<Rightarrow> bool" where
  "less_eq_position a b \<longleftrightarrow> row a < row b \<or> row a = row b \<and> col a \<le> col b"

definition less_position :: "position \<Rightarrow> position \<Rightarrow> bool" where
  "less_position a b \<longleftrightarrow> row a < row b \<or> row a = row b \<and> col a < col b"

instance
  by standard (auto simp: less_eq_position_def less_position_def position.expand)

end

section \<open>Directions\<close>

datatype direction = UP | DOWN | LEFT | RIGHT

fun row_delta :: "direction \<Rightarrow> int" where
  "row_delta UP = - 1"
| "row_delta DOWN = 1"
| "row_delta LEFT = 0"
| "row_delta RIGHT = 0"

fun col_delta :: "direction \<Rightarrow> int" where
  "col_delta UP = 0"
| "col_delta DOWN = 0"
| "col_delta LEFT = - 1"
| "col_delta RIGHT = 1"

definition directions :: "direction list" where
  "directions = [UP, DOWN, LEFT, RIGHT]"

definition apply_to :: "direction \<Rightarrow> position \<Rightarrow> position" where
  "apply_to d p = Position (row p + row_delta d) (col p + col_delta d)"

section \<open>Exceptions\<close>

text \<open>
  Why a single-cell move was refused: one constructor per message template of
  \<open>WarehouseSimulator.validate_move\<close> and \<open>Robot.move_to\<close>, with the values the message
  interpolates.
\<close>

datatype move_reason =
    Reason_Offline string
  | Reason_Outside position
  | Reason_NotAdjacent position position
  | Reason_Static position
  | Reason_Dynamic position
  | Reason_Occupied position string
  | Reason_Battery string pyfloat pyfloat
  | Reason_MoveNotAdjacent string position position
  | Reason_MoveBattery string pyfloat pyfloat

text \<open>
  The exception classes that the modelled code raises. \<open>Diverges\<close> is no exception: it is the
  outcome of a call that never returns, so that "the call returns" is a theorem and not an
  assumption.
\<close>

datatype py_error =
    InvalidPositionError
  | InvalidMoveError move_reason
  | TaskError
  | SimulationError
  | PathValidationError
  | CoordinationValidationError
  | ValueError
  | KeyError
  | IndexError
  | AttributeError
  | TypeError
  | Diverges

text \<open>The subclasses of \<open>RoboticsError\<close>: what \<open>except RoboticsError\<close> catches.\<close>

definition is_robotics_error :: "py_error \<Rightarrow> bool" where
  "is_robotics_error e \<longleftrightarrow> e \<in> {InvalidPositionError, TaskError, SimulationError, PathValidationError,
     CoordinationValidationError} \<or> (\<exists>r. e = InvalidMoveError r)"

lemma is_robotics_error_code [code]:
  "is_robotics_error e = (case e of InvalidPositionError \<Rightarrow> True | InvalidMoveError _ \<Rightarrow> True | TaskError \<Rightarrow> True
     | SimulationError \<Rightarrow> True | PathValidationError \<Rightarrow> True | CoordinationValidationError \<Rightarrow> True | _ \<Rightarrow> False)"
  by (auto simp: is_robotics_error_def split: py_error.split)

section \<open>Distance and adjacency\<close>

lemma manhattan_nonneg [simp]: "0 \<le> manhattan_distance_to a b"
  by (simp add: manhattan_distance_to_def)

lemma manhattan_0 [simp]: "manhattan_distance_to a b = 0 \<longleftrightarrow> a = b"
  by (cases a; cases b) (auto simp: manhattan_distance_to_def)

lemma manhattan_self [simp]: "manhattan_distance_to a a = 0"
  by simp

lemma manhattan_commute: "manhattan_distance_to a b = manhattan_distance_to b a"
  by (simp add: manhattan_distance_to_def abs_minus_commute)

lemma manhattan_triangle:
  "manhattan_distance_to a c \<le> manhattan_distance_to a b + manhattan_distance_to b c"
  by (simp add: manhattan_distance_to_def)

lemma is_adjacent_commute: "is_adjacent_to a b \<longleftrightarrow> is_adjacent_to b a"
  by (simp add: is_adjacent_to_def manhattan_commute)

lemma is_adjacent_irrefl [simp]: "\<not> is_adjacent_to a a"
  using manhattan_0 [of a a] by (simp add: is_adjacent_to_def del: manhattan_0)

lemma manhattan_adjacent:
  "is_adjacent_to a b \<Longrightarrow> manhattan_distance_to a c \<le> 1 + manhattan_distance_to b c"
  using manhattan_triangle [of a c b] by (simp add: is_adjacent_to_def)

lemma set_directions [simp]: "set directions = UNIV"
  using direction.exhaust by (auto simp: directions_def)

lemma distinct_directions [simp]: "distinct directions"
  by (simp add: directions_def)

lemma apply_to_inj: "apply_to d p = apply_to d' p \<longleftrightarrow> d = d'"
  by (cases d; cases d') (simp_all add: apply_to_def)

lemma apply_to_adjacent [simp]: "is_adjacent_to p (apply_to d p)"
  by (cases d) (simp_all add: apply_to_def is_adjacent_to_def manhattan_distance_to_def)

lemma adjacent_iff_direction: "is_adjacent_to a b \<longleftrightarrow> (\<exists>d. b = apply_to d a)"
proof
  assume "is_adjacent_to a b"
  then have "\<bar>row a - row b\<bar> + \<bar>col a - col b\<bar> = 1"
    by (simp add: is_adjacent_to_def manhattan_distance_to_def)
  then consider "row b = row a - 1" "col b = col a" | "row b = row a + 1" "col b = col a"
    | "row b = row a" "col b = col a - 1" | "row b = row a" "col b = col a + 1"
    by linarith
  then show "\<exists>d. b = apply_to d a"
  proof cases
    case 1 then show ?thesis by (intro exI [of _ UP]) (simp add: apply_to_def position.expand)
  next
    case 2 then show ?thesis by (intro exI [of _ DOWN]) (simp add: apply_to_def position.expand)
  next
    case 3 then show ?thesis by (intro exI [of _ LEFT]) (simp add: apply_to_def position.expand)
  next
    case 4 then show ?thesis by (intro exI [of _ RIGHT]) (simp add: apply_to_def position.expand)
  qed
qed auto

end
