(* ===== verification/Timed_Path.thy ===== *)
theory Timed_Path
  imports Position
begin

text \<open>
  Routes through space and time (\<open>coordination/timed_path.py\<close>). Reading a position in the
  middle of the route indexes the step list, so it raises \<open>IndexError\<close> on a route whose
  timesteps are not consecutive; \<open>timed_path_ok\<close> is the promise under which it never does.
\<close>

datatype timed_step = TimedStep (step_position: position) (step_timestep: int)

text \<open>The \<open>REASON_\<close> constants of the space-time planner.\<close>

datatype st_reason = Start_OOB | Goal_OOB | Start_Is_Blocked | Goal_Is_Blocked | Start_Reserved
  | Spatially_Unreachable | Goal_Held | Horizon_Exceeded

record timed_path =
  tp_robot_id :: string
  tp_steps :: "timed_step list"
  tp_success :: bool
  tp_failure_reason :: "st_reason option"

definition tp_found :: "string \<Rightarrow> timed_step list \<Rightarrow> timed_path" where
  "tp_found robot_id steps =
     \<lparr>tp_robot_id = robot_id, tp_steps = steps, tp_success = True, tp_failure_reason = None\<rparr>"

definition tp_failed :: "string \<Rightarrow> st_reason \<Rightarrow> timed_path" where
  "tp_failed robot_id reason =
     \<lparr>tp_robot_id = robot_id, tp_steps = [], tp_success = False, tp_failure_reason = Some reason\<rparr>"

definition tp_start :: "timed_path \<Rightarrow> position option" where
  "tp_start tp = (if tp_steps tp \<noteq> [] then Some (step_position (hd (tp_steps tp))) else None)"

definition tp_goal :: "timed_path \<Rightarrow> position option" where
  "tp_goal tp = (if tp_steps tp \<noteq> [] then Some (step_position (last (tp_steps tp))) else None)"

definition tp_start_time :: "timed_path \<Rightarrow> int" where
  "tp_start_time tp = (if tp_steps tp \<noteq> [] then step_timestep (hd (tp_steps tp)) else 0)"

definition tp_arrival_time :: "timed_path \<Rightarrow> int" where
  "tp_arrival_time tp = (if tp_steps tp \<noteq> [] then step_timestep (last (tp_steps tp)) else 0)"

definition step_pairs :: "timed_path \<Rightarrow> (timed_step \<times> timed_step) list" where
  "step_pairs tp = zip (tp_steps tp) (tl (tp_steps tp))"

definition tp_move_count :: "timed_path \<Rightarrow> int" where
  "tp_move_count tp = int (length (filter (\<lambda>(a, b). step_position a \<noteq> step_position b) (step_pairs tp)))"

definition tp_wait_count :: "timed_path \<Rightarrow> int" where
  "tp_wait_count tp = int (length (filter (\<lambda>(a, b). step_position a = step_position b) (step_pairs tp)))"

definition tp_makespan :: "timed_path \<Rightarrow> int" where
  "tp_makespan tp = tp_arrival_time tp - tp_start_time tp"

definition position_at :: "int \<Rightarrow> timed_path \<Rightarrow> py_error + position option" where
  "position_at timestep tp =
     (if tp_steps tp = [] then Inr None
      else if timestep \<le> tp_start_time tp then Inr (Some (step_position (hd (tp_steps tp))))
      else if tp_arrival_time tp \<le> timestep then Inr (Some (step_position (last (tp_steps tp))))
      else if nat (timestep - tp_start_time tp) < length (tp_steps tp)
           then Inr (Some (step_position (tp_steps tp ! nat (timestep - tp_start_time tp))))
           else Inl IndexError)"

definition is_wait_at :: "int \<Rightarrow> timed_path \<Rightarrow> bool" where
  "is_wait_at index tp =
     (if index \<le> 0 \<or> int (length (tp_steps tp)) \<le> index then False
      else step_position (tp_steps tp ! nat index) = step_position (tp_steps tp ! nat (index - 1)))"

definition tp_positions :: "timed_path \<Rightarrow> position list" where
  "tp_positions tp = map step_position (tp_steps tp)"

section \<open>Well-formed routes\<close>

text \<open>Steps are present and time-consecutive.\<close>

definition timed_path_ok :: "timed_path \<Rightarrow> bool" where
  [inv_defs]: "timed_path_ok tp \<longleftrightarrow> tp_steps tp \<noteq> [] \<and>
     (\<forall>i < length (tp_steps tp). step_timestep (tp_steps tp ! i) = tp_start_time tp + int i)"

text \<open>Where the robot is, for a well-formed route: the step of that time, clamped at both ends.\<close>

definition pos_at :: "timed_path \<Rightarrow> int \<Rightarrow> position" where
  "pos_at tp t = step_position (tp_steps tp ! (min (nat (t - tp_start_time tp)) (length (tp_steps tp) - 1)))"

lemma tp_found_sel [simp]:
  "tp_robot_id (tp_found r s) = r" "tp_steps (tp_found r s) = s" "tp_success (tp_found r s)"
  "tp_failure_reason (tp_found r s) = None"
  by (simp_all add: tp_found_def)

lemma tp_failed_sel [simp]:
  "tp_robot_id (tp_failed r c) = r" "tp_steps (tp_failed r c) = []" "\<not> tp_success (tp_failed r c)"
  "tp_failure_reason (tp_failed r c) = Some c"
  by (simp_all add: tp_failed_def)

lemma arrival_time_ok:
  "timed_path_ok tp \<Longrightarrow> tp_arrival_time tp = tp_start_time tp + int (length (tp_steps tp)) - 1"
  by (cases "tp_steps tp") (auto simp: timed_path_ok_def tp_arrival_time_def last_conv_nth)

lemma start_le_arrival: "timed_path_ok tp \<Longrightarrow> tp_start_time tp \<le> tp_arrival_time tp"
  by (simp add: arrival_time_ok) (simp add: timed_path_ok_def Suc_le_eq int_one_le_iff_zero_less)

lemma position_at_ok: "timed_path_ok tp \<Longrightarrow> position_at t tp = Inr (Some (pos_at tp t))"
proof -
  assume ok: "timed_path_ok tp"
  then have ne: "tp_steps tp \<noteq> []" by (simp add: timed_path_ok_def)
  note a = arrival_time_ok [OF ok]
  consider "t \<le> tp_start_time tp" | "tp_start_time tp < t" "tp_arrival_time tp \<le> t" | "tp_start_time tp < t" "t < tp_arrival_time tp"
    by linarith
  then show ?thesis
  proof cases
    case 1
    then show ?thesis using ne by (simp add: position_at_def pos_at_def hd_conv_nth)
  next
    case 2
    then have "min (nat (t - tp_start_time tp)) (length (tp_steps tp) - 1) = length (tp_steps tp) - 1"
      using a by linarith
    then show ?thesis using 2 ne by (simp add: position_at_def pos_at_def last_conv_nth)
  next
    case 3
    then have "min (nat (t - tp_start_time tp)) (length (tp_steps tp) - 1) = nat (t - tp_start_time tp)"
      "nat (t - tp_start_time tp) < length (tp_steps tp)"
      using a by linarith+
    then show ?thesis using 3 ne by (simp add: position_at_def pos_at_def)
  qed
qed

lemma pos_at_goal:
  "timed_path_ok tp \<Longrightarrow> tp_arrival_time tp \<le> t \<Longrightarrow> pos_at tp t = step_position (last (tp_steps tp))"
proof -
  assume ok: "timed_path_ok tp" "tp_arrival_time tp \<le> t"
  then have "min (nat (t - tp_start_time tp)) (length (tp_steps tp) - 1) = length (tp_steps tp) - 1"
    using arrival_time_ok [OF ok(1)] by linarith
  then show ?thesis using ok(1) by (simp add: pos_at_def last_conv_nth timed_path_ok_def)
qed

lemma pos_at_start: "timed_path_ok tp \<Longrightarrow> t \<le> tp_start_time tp \<Longrightarrow> pos_at tp t = step_position (hd (tp_steps tp))"
  by (simp add: pos_at_def hd_conv_nth timed_path_ok_def)

lemma pos_at_step: "i < length (tp_steps tp) \<Longrightarrow> pos_at tp (tp_start_time tp + int i) = step_position (tp_steps tp ! i)"
proof -
  assume "i < length (tp_steps tp)"
  then have "min (nat (tp_start_time tp + int i - tp_start_time tp)) (length (tp_steps tp) - 1) = i" by simp
  then show ?thesis by (simp only: pos_at_def)
qed

lemma nth_step:
  "timed_path_ok tp \<Longrightarrow> i < length (tp_steps tp) \<Longrightarrow>
     tp_steps tp ! i = TimedStep (pos_at tp (tp_start_time tp + int i)) (tp_start_time tp + int i)"
  by (cases "tp_steps tp ! i") (auto simp: timed_path_ok_def pos_at_step)

lemma steps_iff:
  assumes "timed_path_ok tp"
  shows "s \<in> set (tp_steps tp) \<longleftrightarrow> (\<exists>t. tp_start_time tp \<le> t \<and> t \<le> tp_arrival_time tp \<and> s = TimedStep (pos_at tp t) t)"
proof
  assume "s \<in> set (tp_steps tp)"
  then obtain i where i: "i < length (tp_steps tp)" "s = tp_steps tp ! i" by (auto simp: in_set_conv_nth)
  then show "\<exists>t. tp_start_time tp \<le> t \<and> t \<le> tp_arrival_time tp \<and> s = TimedStep (pos_at tp t) t"
    using nth_step [OF assms i(1)] arrival_time_ok [OF assms]
    by (intro exI [of _ "tp_start_time tp + int i"]) simp
next
  assume "\<exists>t. tp_start_time tp \<le> t \<and> t \<le> tp_arrival_time tp \<and> s = TimedStep (pos_at tp t) t"
  then obtain t where t: "tp_start_time tp \<le> t" "t \<le> tp_arrival_time tp" "s = TimedStep (pos_at tp t) t" by blast
  then have i: "nat (t - tp_start_time tp) < length (tp_steps tp)" using arrival_time_ok [OF assms] by linarith
  have "s = tp_steps tp ! nat (t - tp_start_time tp)" using nth_step [OF assms i] t by simp
  then show "s \<in> set (tp_steps tp)" using i by simp
qed

lemma step_pairs_iff:
  assumes "timed_path_ok tp"
  shows "(a, b) \<in> set (step_pairs tp) \<longleftrightarrow> (\<exists>t. tp_start_time tp \<le> t \<and> t < tp_arrival_time tp \<and>
    a = TimedStep (pos_at tp t) t \<and> b = TimedStep (pos_at tp (t + 1)) (t + 1))"
proof -
  have "(a, b) \<in> set (step_pairs tp) \<longleftrightarrow> (\<exists>i. Suc i < length (tp_steps tp) \<and> a = tp_steps tp ! i \<and> b = tp_steps tp ! Suc i)"
    by (simp add: step_pairs_def zip_tl_nth)
  also have "\<dots> \<longleftrightarrow> (\<exists>i. Suc i < length (tp_steps tp) \<and>
      a = TimedStep (pos_at tp (tp_start_time tp + int i)) (tp_start_time tp + int i) \<and>
      b = TimedStep (pos_at tp (tp_start_time tp + int i + 1)) (tp_start_time tp + int i + 1))"
    using nth_step [OF assms] by (auto simp: algebra_simps)
  also have "\<dots> \<longleftrightarrow> (\<exists>t. tp_start_time tp \<le> t \<and> t < tp_arrival_time tp \<and>
    a = TimedStep (pos_at tp t) t \<and> b = TimedStep (pos_at tp (t + 1)) (t + 1))" (is "?L = ?R")
  proof
    show "?L \<Longrightarrow> ?R" using arrival_time_ok [OF assms] by fastforce
  next
    assume ?R
    then obtain t where t: "tp_start_time tp \<le> t" "t < tp_arrival_time tp"
      "a = TimedStep (pos_at tp t) t" "b = TimedStep (pos_at tp (t + 1)) (t + 1)" by blast
    then show ?L using arrival_time_ok [OF assms] by (intro exI [of _ "nat (t - tp_start_time tp)"]) auto
  qed
  finally show ?thesis .
qed

text \<open>Moves and waits add up to the tp_makespan.\<close>

lemma moves_plus_waits:
  assumes "timed_path_ok tp"
  shows "tp_move_count tp + tp_wait_count tp = tp_makespan tp"
proof -
  have "length (filter (\<lambda>(a, b). step_position a \<noteq> step_position b) (step_pairs tp)) +
        length (filter (\<lambda>(a, b). step_position a = step_position b) (step_pairs tp)) = length (step_pairs tp)"
    using sum_length_filter_compl [of "\<lambda>(a, b). step_position a \<noteq> step_position b" "step_pairs tp"]
    by (simp add: split_def)
  moreover have "int (length (step_pairs tp)) = tp_makespan tp"
    using assms arrival_time_ok [OF assms]
    by (cases "tp_steps tp") (auto simp: step_pairs_def tp_makespan_def timed_path_ok_def)
  ultimately show ?thesis by (simp add: tp_move_count_def tp_wait_count_def)
qed

lemma sum_moves_waits:
  "\<forall>tp \<in> set tps. timed_path_ok tp \<Longrightarrow>
     sum_list (map tp_move_count tps) + sum_list (map tp_wait_count tps) = sum_list (map tp_makespan tps)"
  by (induction tps) (simp_all add: moves_plus_waits [symmetric])

end
