(* ===== verification/Reservation.thy ===== *)
theory Reservation
  imports Timed_Path
begin

text \<open>
  The space-time reservation table (\<open>coordination/reservation_table.py\<close>): who holds a cell
  at a timestep, and who crosses an edge during one. Reads count themselves, so they return
  the table too. Writing over another robot's reservation raises \<open>ValueError\<close>.
\<close>

section \<open>State and operations\<close>

record reservation_table =
  vertices :: "(position \<times> int, string) dict"
  edges :: "(position \<times> position \<times> int, string) dict"
  query_count :: nat

definition reservation_init :: reservation_table where
  "reservation_init = \<lparr>vertices = [], edges = [], query_count = 0\<rparr>"

definition reserve_vertex :: "position \<Rightarrow> int \<Rightarrow> string \<Rightarrow> reservation_table \<Rightarrow> py_error + reservation_table" where
  "reserve_vertex cell timestep robot_id rt =
     (case dict_get (vertices rt) (cell, timestep) of
        Some existing \<Rightarrow>
          if existing \<noteq> robot_id then Inl ValueError
          else Inr (rt\<lparr>vertices := dict_set (cell, timestep) robot_id (vertices rt)\<rparr>)
      | None \<Rightarrow> Inr (rt\<lparr>vertices := dict_set (cell, timestep) robot_id (vertices rt)\<rparr>))"

definition reserve_edge ::
  "position \<Rightarrow> position \<Rightarrow> int \<Rightarrow> string \<Rightarrow> reservation_table \<Rightarrow> py_error + reservation_table" where
  "reserve_edge from_cell to_cell timestep robot_id rt =
     (case dict_get (edges rt) (from_cell, to_cell, timestep) of
        Some existing \<Rightarrow>
          if existing \<noteq> robot_id then Inl ValueError
          else Inr (rt\<lparr>edges := dict_set (from_cell, to_cell, timestep) robot_id (edges rt)\<rparr>)
      | None \<Rightarrow> Inr (rt\<lparr>edges := dict_set (from_cell, to_cell, timestep) robot_id (edges rt)\<rparr>))"

definition reserve_timed_path :: "timed_path \<Rightarrow> int \<Rightarrow> reservation_table \<Rightarrow> py_error + reservation_table" where
  "reserve_timed_path tp horizon rt =
     (if \<not> tp_success tp then Inl ValueError
      else
        let robot_id = tp_robot_id tp; steps = tp_steps tp in
        res_bind (res_fold (\<lambda>s. reserve_vertex (step_position s) (step_timestep s) robot_id) steps rt) (\<lambda>rt1.
        res_bind (res_fold (\<lambda>(earlier, later) rt.
            if step_position earlier \<noteq> step_position later
            then reserve_edge (step_position earlier) (step_position later) (step_timestep earlier) robot_id rt
            else Inr rt) (zip steps (tl steps)) rt1) (\<lambda>rt2.
        if steps = [] then Inl IndexError
        else res_fold (\<lambda>timestep. reserve_vertex (step_position (last steps)) timestep robot_id)
               [tp_arrival_time tp + 1..horizon] rt2)))"

definition vertex_reserver :: "position \<Rightarrow> int \<Rightarrow> reservation_table \<Rightarrow> string option \<times> reservation_table" where
  "vertex_reserver cell timestep rt =
     (let rt' = rt\<lparr>query_count := query_count rt + 1\<rparr> in (dict_get (vertices rt') (cell, timestep), rt'))"

definition edge_reserver ::
  "position \<Rightarrow> position \<Rightarrow> int \<Rightarrow> reservation_table \<Rightarrow> string option \<times> reservation_table" where
  "edge_reserver from_cell to_cell timestep rt =
     (let rt' = rt\<lparr>query_count := query_count rt + 1\<rparr> in (dict_get (edges rt') (from_cell, to_cell, timestep), rt'))"

definition is_vertex_free ::
  "position \<Rightarrow> int \<Rightarrow> string option \<Rightarrow> reservation_table \<Rightarrow> bool \<times> reservation_table" where
  "is_vertex_free cell timestep for_robot rt =
     (let (reserver, rt') = vertex_reserver cell timestep rt in (reserver = None \<or> reserver = for_robot, rt'))"

definition is_swap_conflict ::
  "position \<Rightarrow> position \<Rightarrow> int \<Rightarrow> string option \<Rightarrow> reservation_table \<Rightarrow> bool \<times> reservation_table" where
  "is_swap_conflict from_cell to_cell timestep for_robot rt =
     (let (reverse_reserver, rt') = edge_reserver to_cell from_cell timestep rt in
      (reverse_reserver \<noteq> None \<and> reverse_reserver \<noteq> for_robot, rt'))"

definition is_move_allowed ::
  "position \<Rightarrow> position \<Rightarrow> int \<Rightarrow> string \<Rightarrow> reservation_table \<Rightarrow> bool \<times> reservation_table" where
  "is_move_allowed from_cell to_cell timestep for_robot rt =
     (if from_cell = to_cell then is_vertex_free to_cell (timestep + 1) (Some for_robot) rt
      else
        let (vfree, rt1) = is_vertex_free to_cell (timestep + 1) (Some for_robot) rt in
        if \<not> vfree then (False, rt1)
        else
          let (swap, rt2) = is_swap_conflict from_cell to_cell timestep (Some for_robot) rt1 in
          if swap then (False, rt2) else (True, rt2))"

definition reservations_owned_by :: "string \<Rightarrow> reservation_table \<Rightarrow> nat" where
  "reservations_owned_by robot_id rt =
     length (filter (\<lambda>owner. owner = robot_id) (dict_values (vertices rt))) +
     length (filter (\<lambda>owner. owner = robot_id) (dict_values (edges rt)))"

definition release_robot :: "string \<Rightarrow> reservation_table \<Rightarrow> nat \<times> reservation_table" where
  "release_robot robot_id rt =
     (reservations_owned_by robot_id rt,
      rt\<lparr>vertices := filter (\<lambda>(key, owner). owner \<noteq> robot_id) (vertices rt),
         edges := filter (\<lambda>(key, owner). owner \<noteq> robot_id) (edges rt)\<rparr>)"

definition block_cell ::
  "position \<Rightarrow> int \<Rightarrow> int \<Rightarrow> string \<Rightarrow> reservation_table \<Rightarrow> py_error + nat \<times> reservation_table" where
  "block_cell cell from_timestep to_timestep owner rt =
     res_fold (\<lambda>timestep (added, rt).
       res_bind (reserve_vertex cell timestep owner rt) (\<lambda>rt'. Inr (added + 1, rt')))
       [from_timestep..to_timestep] (0, rt)"

definition vertex_reservation_count :: "reservation_table \<Rightarrow> nat" where
  "vertex_reservation_count rt = length (vertices rt)"

definition edge_reservation_count :: "reservation_table \<Rightarrow> nat" where
  "edge_reservation_count rt = length (edges rt)"

section \<open>Reads do not change the reservations\<close>

text \<open>Same reservations; only the query counter may differ.\<close>

definition same_claims :: "reservation_table \<Rightarrow> reservation_table \<Rightarrow> bool" where
  "same_claims rt rt' \<longleftrightarrow> vertices rt = vertices rt' \<and> edges rt = edges rt'"

lemma same_claims_refl [simp]: "same_claims rt rt"
  by (simp add: same_claims_def)

lemma same_claims_trans: "same_claims a b \<Longrightarrow> same_claims b c \<Longrightarrow> same_claims a c"
  by (simp add: same_claims_def)

definition vertex_free :: "reservation_table \<Rightarrow> string \<Rightarrow> position \<Rightarrow> int \<Rightarrow> bool" where
  "vertex_free rt r c t \<longleftrightarrow> dict_get (vertices rt) (c, t) \<in> {None, Some r}"

definition edge_free :: "reservation_table \<Rightarrow> string \<Rightarrow> position \<Rightarrow> position \<Rightarrow> int \<Rightarrow> bool" where
  "edge_free rt r a b t \<longleftrightarrow> dict_get (edges rt) (a, b, t) \<in> {None, Some r}"

lemma same_claims_free:
  "same_claims rt rt' \<Longrightarrow> vertex_free rt r c t = vertex_free rt' r c t"
  "same_claims rt rt' \<Longrightarrow> edge_free rt r a b t = edge_free rt' r a b t"
  by (simp_all add: same_claims_def vertex_free_def edge_free_def)

lemma is_vertex_free_fst [simp]: "fst (is_vertex_free c t (Some r) rt) \<longleftrightarrow> vertex_free rt r c t"
  by (simp add: is_vertex_free_def vertex_reserver_def vertex_free_def Let_def)

lemma is_vertex_free_same [simp]: "same_claims rt (snd (is_vertex_free c t r rt))"
  by (simp add: is_vertex_free_def vertex_reserver_def same_claims_def Let_def)

lemma is_move_allowed_fst:
  "a \<noteq> b \<Longrightarrow> fst (is_move_allowed a b t r rt) \<longleftrightarrow> vertex_free rt r b (t + 1) \<and> edge_free rt r b a t"
  by (simp add: is_move_allowed_def is_swap_conflict_def edge_reserver_def is_vertex_free_def
      vertex_reserver_def vertex_free_def edge_free_def Let_def)

lemma is_move_allowed_same [simp]: "same_claims rt (snd (is_move_allowed a b t r rt))"
  by (simp add: is_move_allowed_def is_swap_conflict_def edge_reserver_def is_vertex_free_def
      vertex_reserver_def same_claims_def Let_def)

section \<open>Writing\<close>

lemma reserve_vertex_free:
  "vertex_free rt r c t \<Longrightarrow> reserve_vertex c t r rt = Inr (rt\<lparr>vertices := dict_set (c, t) r (vertices rt)\<rparr>)"
  by (auto simp: reserve_vertex_def vertex_free_def)

lemma reserve_edge_free:
  "edge_free rt r a b t \<Longrightarrow> reserve_edge a b t r rt = Inr (rt\<lparr>edges := dict_set (a, b, t) r (edges rt)\<rparr>)"
  by (auto simp: reserve_edge_def edge_free_def)

text \<open>A batch of vertex reservations for one robot.\<close>

lemma reserve_vertices:
  assumes "\<And>x. x \<in> set xs \<Longrightarrow> vertex_free rt r (fst (f x)) (snd (f x))"
  shows "\<exists>rt'. res_fold (\<lambda>x. reserve_vertex (fst (f x)) (snd (f x)) r) xs rt = Inr rt' \<and> edges rt' = edges rt \<and>
    (\<forall>k. dict_get (vertices rt') k = (if k \<in> f ` set xs then Some r else dict_get (vertices rt) k))"
  using assms
proof (induction xs arbitrary: rt)
  case Nil
  then show ?case by simp
next
  case (Cons x xs)
  let ?rt = "rt\<lparr>vertices := dict_set (f x) r (vertices rt)\<rparr>"
  have "reserve_vertex (fst (f x)) (snd (f x)) r rt = Inr ?rt" using Cons.prems reserve_vertex_free by simp
  moreover have "\<And>y. y \<in> set xs \<Longrightarrow> vertex_free ?rt r (fst (f y)) (snd (f y))"
    using Cons.prems by (simp add: vertex_free_def)
  ultimately show ?case using Cons.IH [of ?rt] by auto
qed

lemma reserve_edges:
  assumes "\<And>x. x \<in> set xs \<Longrightarrow> p x \<Longrightarrow> edge_free rt r (fst (f x)) (fst (snd (f x))) (snd (snd (f x)))"
  shows "\<exists>rt'. res_fold (\<lambda>x rt. if p x then reserve_edge (fst (f x)) (fst (snd (f x))) (snd (snd (f x))) r rt else Inr rt) xs rt
      = Inr rt' \<and> vertices rt' = vertices rt \<and>
    (\<forall>k. dict_get (edges rt') k = (if k \<in> f ` {x \<in> set xs. p x} then Some r else dict_get (edges rt) k))"
  using assms
proof (induction xs arbitrary: rt)
  case Nil
  then show ?case by simp
next
  case (Cons x xs)
  show ?case
  proof (cases "p x")
    case True
    let ?rt = "rt\<lparr>edges := dict_set (f x) r (edges rt)\<rparr>"
    have "reserve_edge (fst (f x)) (fst (snd (f x))) (snd (snd (f x))) r rt = Inr ?rt"
      using Cons.prems True reserve_edge_free by simp
    moreover have "\<And>y. y \<in> set xs \<Longrightarrow> p y \<Longrightarrow> edge_free ?rt r (fst (f y)) (fst (snd (f y))) (snd (snd (f y)))"
      using Cons.prems by (simp add: edge_free_def)
    moreover have "{y \<in> set (x # xs). p y} = insert x {y \<in> set xs. p y}" using True by auto
    ultimately show ?thesis using Cons.IH [of ?rt] True by fastforce
  next
    case False
    then show ?thesis using Cons.IH [of rt] Cons.prems by auto
  qed
qed

text \<open>
  A whole route: when every cell of it, and its goal up to the horizon, is free for the
  robot, reserving succeeds and adds exactly these claims.
\<close>

definition path_vertex :: "timed_path \<Rightarrow> int \<Rightarrow> position \<times> int \<Rightarrow> bool" where
  "path_vertex tp horizon k \<longleftrightarrow> tp_start_time tp \<le> snd k \<and> snd k \<le> horizon \<and> fst k = pos_at tp (snd k)"

definition path_edge :: "timed_path \<Rightarrow> position \<times> position \<times> int \<Rightarrow> bool" where
  "path_edge tp k \<longleftrightarrow> (case k of (a, b, t) \<Rightarrow> tp_start_time tp \<le> t \<and> t < tp_arrival_time tp \<and>
     a = pos_at tp t \<and> b = pos_at tp (t + 1) \<and> a \<noteq> b)"

lemma reserve_timed_path_ok:
  assumes ok: "timed_path_ok tp" "tp_success tp" "tp_arrival_time tp \<le> horizon"
    and vfree: "\<And>t. tp_start_time tp \<le> t \<Longrightarrow> t \<le> horizon \<Longrightarrow> vertex_free rt (tp_robot_id tp) (pos_at tp t) t"
    and efree: "\<And>a b t. path_edge tp (a, b, t) \<Longrightarrow> edge_free rt (tp_robot_id tp) a b t"
  shows "\<exists>rt'. reserve_timed_path tp horizon rt = Inr rt' \<and>
    (\<forall>k. dict_get (vertices rt') k = (if path_vertex tp horizon k then Some (tp_robot_id tp) else dict_get (vertices rt) k)) \<and>
    (\<forall>k. dict_get (edges rt') k = (if path_edge tp k then Some (tp_robot_id tp) else dict_get (edges rt) k))"
proof -
  let ?r = "tp_robot_id tp" and ?steps = "tp_steps tp"
  let ?goal = "step_position (last ?steps)"
  define fv where "fv = (\<lambda>s. (step_position s, step_timestep s))"
  define fe where "fe = (\<lambda>(a, b). (step_position a, step_position b, step_timestep a))"
  define pe where "pe = (\<lambda>(a, b). step_position a \<noteq> step_position b)"
  have ne: "?steps \<noteq> []" using ok(1) by (simp add: timed_path_ok_def)
  have imv: "k \<in> fv ` set ?steps \<longleftrightarrow> tp_start_time tp \<le> snd k \<and> snd k \<le> tp_arrival_time tp \<and> fst k = pos_at tp (snd k)" for k
  proof -
    have "k \<in> fv ` set ?steps \<longleftrightarrow> (\<exists>s. s \<in> set ?steps \<and> k = fv s)" by blast
    then show ?thesis unfolding steps_iff [OF ok(1)] by (cases k) (auto simp: fv_def)
  qed
  have ime: "k \<in> fe ` {x \<in> set (zip ?steps (tl ?steps)). pe x} \<longleftrightarrow> path_edge tp k" for k
  proof -
    obtain a b t where k: "k = (a, b, t)" by (cases k)
    have "k \<in> fe ` {x \<in> set (zip ?steps (tl ?steps)). pe x} \<longleftrightarrow>
        (\<exists>u v. (u, v) \<in> set (step_pairs tp) \<and> pe (u, v) \<and> k = fe (u, v))"
      by (auto simp: step_pairs_def image_iff)
    also have "\<dots> \<longleftrightarrow> (\<exists>u v t'. tp_start_time tp \<le> t' \<and> t' < tp_arrival_time tp \<and> u = TimedStep (pos_at tp t') t' \<and>
        v = TimedStep (pos_at tp (t' + 1)) (t' + 1) \<and> pe (u, v) \<and> k = fe (u, v))"
      unfolding step_pairs_iff [OF ok(1)] by blast
    also have "\<dots> \<longleftrightarrow> path_edge tp k"
      unfolding k pe_def fe_def path_edge_def by simp blast
    finally show ?thesis .
  qed
  have "vertex_free rt ?r (fst (fv x)) (snd (fv x))" if "x \<in> set ?steps" for x
    using vfree imv [of "fv x"] that ok(3) by auto
  from reserve_vertices [where xs = ?steps and f = fv, OF this] obtain rt1 where rt1:
    "res_fold (\<lambda>s. reserve_vertex (step_position s) (step_timestep s) ?r) ?steps rt = Inr rt1" "edges rt1 = edges rt"
    "\<And>k. dict_get (vertices rt1) k = (if k \<in> fv ` set ?steps then Some ?r else dict_get (vertices rt) k)"
    by (auto simp: fv_def)
  have "edge_free rt1 ?r (fst (fe x)) (fst (snd (fe x))) (snd (snd (fe x)))"
    if "x \<in> set (zip ?steps (tl ?steps))" "pe x" for x
  proof -
    have "path_edge tp (fe x)" using ime that by blast
    then show ?thesis using efree [of "fst (fe x)" "fst (snd (fe x))" "snd (snd (fe x))"] rt1(2)
      by (simp add: edge_free_def)
  qed
  from reserve_edges [where xs = "zip ?steps (tl ?steps)" and f = fe and p = pe, OF this] obtain rt2 where e2:
    "res_fold (\<lambda>x rt. if pe x then reserve_edge (fst (fe x)) (fst (snd (fe x))) (snd (snd (fe x))) ?r rt else Inr rt)
       (zip ?steps (tl ?steps)) rt1 = Inr rt2" "vertices rt2 = vertices rt1"
    "\<forall>k. dict_get (edges rt2) k = (if k \<in> fe ` {x \<in> set (zip ?steps (tl ?steps)). pe x} then Some ?r else dict_get (edges rt1) k)"
    by blast
  have "(\<lambda>x rt. if pe x then reserve_edge (fst (fe x)) (fst (snd (fe x))) (snd (snd (fe x))) ?r rt else Inr rt) =
      (\<lambda>(earlier, later) rt. if step_position earlier \<noteq> step_position later
            then reserve_edge (step_position earlier) (step_position later) (step_timestep earlier) ?r rt else Inr rt)"
    by (simp add: fun_eq_iff fe_def pe_def split_def)
  then have rt2: "res_fold (\<lambda>(earlier, later) rt.
            if step_position earlier \<noteq> step_position later
            then reserve_edge (step_position earlier) (step_position later) (step_timestep earlier) ?r rt
            else Inr rt) (zip ?steps (tl ?steps)) rt1 = Inr rt2"
    using e2(1) by simp
  have d2: "dict_get (edges rt2) k = (if path_edge tp k then Some ?r else dict_get (edges rt) k)" for k
    using spec [OF e2(3), of k] unfolding ime rt1(2) .
  have v2: "dict_get (vertices rt2) k = (if k \<in> fv ` set ?steps then Some ?r else dict_get (vertices rt) k)" for k
    using rt1(3) e2(2) by simp
  have goal: "?goal = pos_at tp t" if "tp_arrival_time tp \<le> t" for t
    using pos_at_goal [OF ok(1) that] by simp
  have "vertex_free rt2 ?r ?goal t" if "t \<in> set [tp_arrival_time tp + 1..horizon]" for t
    using vfree [of t] that goal [of t] v2 [of "(?goal, t)"] start_le_arrival [OF ok(1)]
    by (auto simp: vertex_free_def)
  from reserve_vertices [where xs = "[tp_arrival_time tp + 1..horizon]" and f = "\<lambda>t. (?goal, t)", simplified, OF this]
  obtain rt3 where rt3:
    "res_fold (\<lambda>t. reserve_vertex ?goal t ?r) [tp_arrival_time tp + 1..horizon] rt2 = Inr rt3" "edges rt3 = edges rt2"
    "\<And>k. dict_get (vertices rt3) k = (if k \<in> Pair ?goal ` {tp_arrival_time tp + 1..horizon} then Some ?r else dict_get (vertices rt2) k)"
    by auto
  have "dict_get (vertices rt3) k = (if path_vertex tp horizon k then Some ?r else dict_get (vertices rt) k)" for k
    using goal [of "snd k"] ok(3) start_le_arrival [OF ok(1)] imv [of k] unfolding rt3(3) v2
    by (cases k) (auto simp: path_vertex_def)
  moreover have "reserve_timed_path tp horizon rt = Inr rt3"
    using rt1(1) rt2 rt3(1) ne ok(2) by (simp add: reserve_timed_path_def Let_def)
  ultimately show ?thesis using d2 rt3(2) by auto
qed

section \<open>Reserving and releasing\<close>

definition table_ok :: "reservation_table \<Rightarrow> bool" where
  [inv_defs]: "table_ok rt \<longleftrightarrow> dict_ok (vertices rt) \<and> dict_ok (edges rt)"

lemma reserve_vertex_table: "table_ok rt \<Longrightarrow> reserve_vertex c t r rt = Inr rt' \<Longrightarrow> table_ok rt'"
  by (auto simp: reserve_vertex_def table_ok_def split: option.splits if_splits)

lemma reserve_edge_table: "table_ok rt \<Longrightarrow> reserve_edge a b t r rt = Inr rt' \<Longrightarrow> table_ok rt'"
  by (auto simp: reserve_edge_def table_ok_def split: option.splits if_splits)

lemma reserve_timed_path_table:
  assumes "reserve_timed_path tp horizon rt = Inr rt'" "table_ok rt"
  shows "table_ok rt'"
proof -
  obtain rt1 rt2 where f: "res_fold (\<lambda>s. reserve_vertex (step_position s) (step_timestep s) (tp_robot_id tp)) (tp_steps tp) rt = Inr rt1"
    "res_fold (\<lambda>(earlier, later) rt.
            if step_position earlier \<noteq> step_position later
            then reserve_edge (step_position earlier) (step_position later) (step_timestep earlier) (tp_robot_id tp) rt
            else Inr rt) (zip (tp_steps tp) (tl (tp_steps tp))) rt1 = Inr rt2"
    "res_fold (\<lambda>timestep. reserve_vertex (step_position (last (tp_steps tp))) timestep (tp_robot_id tp))
       [tp_arrival_time tp + 1..horizon] rt2 = Inr rt'"
    using assms(1) by (auto simp: reserve_timed_path_def Let_def res_bind_Inr split: if_splits)
  have "table_ok rt1" by (rule res_fold_inv [OF f(1), of table_ok]) (use assms(2) reserve_vertex_table in blast)+
  then have "table_ok rt2"
  proof (rule res_fold_inv [OF f(2), of table_ok])
    fix x s s' assume "table_ok s" "(case x of (earlier, later) \<Rightarrow> \<lambda>rt.
            if step_position earlier \<noteq> step_position later
            then reserve_edge (step_position earlier) (step_position later) (step_timestep earlier) (tp_robot_id tp) rt
            else Inr rt) s = Inr s'"
    then show "table_ok s'" using reserve_edge_table by (cases x) (auto split: if_splits)
  qed
  then show ?thesis by (rule res_fold_inv [OF f(3), of table_ok]) (use reserve_vertex_table in blast)+
qed

text \<open>
  C35: Reserving a route that is free for its robot succeeds and claims exactly what the route
  needs: every cell at its timestep, the goal from arrival to the horizon, every edge it
  crosses; all other claims stay. Releasing a robot that held nothing before gives back the
  table as it was and reports the number of claims dropped.
\<close>

theorem reserve_then_release:
  assumes rt: "table_ok rt" "\<And>k. dict_get (vertices rt) k \<noteq> Some (tp_robot_id tp)" "\<And>k. dict_get (edges rt) k \<noteq> Some (tp_robot_id tp)"
    and tp: "timed_path_ok tp" "tp_success tp" "tp_arrival_time tp \<le> horizon"
    and vfree: "\<And>t. tp_start_time tp \<le> t \<Longrightarrow> t \<le> horizon \<Longrightarrow> vertex_free rt (tp_robot_id tp) (pos_at tp t) t"
    and efree: "\<And>a b t. path_edge tp (a, b, t) \<Longrightarrow> edge_free rt (tp_robot_id tp) a b t"
  shows "\<exists>rt1 rt2. reserve_timed_path tp horizon rt = Inr rt1 \<and>
    (\<forall>k. dict_get (vertices rt1) k = (if path_vertex tp horizon k then Some (tp_robot_id tp) else dict_get (vertices rt) k)) \<and>
    (\<forall>k. dict_get (edges rt1) k = (if path_edge tp k then Some (tp_robot_id tp) else dict_get (edges rt) k)) \<and>
    release_robot (tp_robot_id tp) rt1 = (reservations_owned_by (tp_robot_id tp) rt1, rt2) \<and>
    (\<forall>k. dict_get (vertices rt2) k = dict_get (vertices rt) k) \<and> (\<forall>k. dict_get (edges rt2) k = dict_get (edges rt) k)"
proof -
  let ?r = "tp_robot_id tp"
  obtain rt1 where r: "reserve_timed_path tp horizon rt = Inr rt1"
    "\<And>k. dict_get (vertices rt1) k = (if path_vertex tp horizon k then Some ?r else dict_get (vertices rt) k)"
    "\<And>k. dict_get (edges rt1) k = (if path_edge tp k then Some ?r else dict_get (edges rt) k)"
    using reserve_timed_path_ok [OF tp vfree efree] by metis
  have ok: "dict_ok (vertices rt1)" "dict_ok (edges rt1)"
    using reserve_timed_path_table [OF r(1) rt(1)] by (simp_all add: table_ok_def)
  have v: "dict_get (vertices rt) k = None" if "path_vertex tp horizon k" for k
  proof -
    have "vertex_free rt ?r (fst k) (snd k)" using vfree that by (auto simp: path_vertex_def)
    then show ?thesis using rt(2) [of k] by (simp add: vertex_free_def)
  qed
  have e: "dict_get (edges rt) k = None" if "path_edge tp k" for k
  proof -
    have "edge_free rt ?r (fst k) (fst (snd k)) (snd (snd k))" using efree that by (cases k) simp
    then show ?thesis using rt(3) [of k] by (simp add: edge_free_def)
  qed
  define rt2 where "rt2 = snd (release_robot ?r rt1)"
  have "dict_get (vertices rt2) k = dict_get (vertices rt) k" for k
    using dict_get_filter_value [OF ok(1), of ?r k] r(2) [of k] v [of k] rt(2) [of k]
    by (auto simp: rt2_def release_robot_def)
  moreover have "dict_get (edges rt2) k = dict_get (edges rt) k" for k
    using dict_get_filter_value [OF ok(2), of ?r k] r(3) [of k] e [of k] rt(3) [of k]
    by (auto simp: rt2_def release_robot_def)
  ultimately show ?thesis using r by (intro exI [of _ rt1] exI [of _ rt2]) (simp add: rt2_def release_robot_def)
qed

lemma reserve_then_release_witness:
  "\<exists>rt1 rt2. reserve_timed_path (tp_found ''A'' [TimedStep (Position 0 0) 0, TimedStep (Position 0 1) 1]) 3 reservation_init = Inr rt1 \<and>
    release_robot ''A'' rt1 = (reservations_owned_by ''A'' rt1, rt2) \<and> (\<forall>k. dict_get (vertices rt2) k = None)"
proof -
  let ?tp = "tp_found ''A'' [TimedStep (Position 0 0) 0, TimedStep (Position 0 1) 1]"
  have "timed_path_ok ?tp" by (simp add: timed_path_ok_def tp_start_time_def less_Suc_eq nth_Cons split: nat.splits)
  moreover have "tp_arrival_time ?tp \<le> 3" by (simp add: tp_arrival_time_def)
  ultimately have "\<exists>rt1 rt2. reserve_timed_path ?tp 3 reservation_init = Inr rt1 \<and>
    (\<forall>k. dict_get (vertices rt1) k = (if path_vertex ?tp 3 k then Some (tp_robot_id ?tp) else dict_get (vertices reservation_init) k)) \<and>
    (\<forall>k. dict_get (edges rt1) k = (if path_edge ?tp k then Some (tp_robot_id ?tp) else dict_get (edges reservation_init) k)) \<and>
    release_robot (tp_robot_id ?tp) rt1 = (reservations_owned_by (tp_robot_id ?tp) rt1, rt2) \<and>
    (\<forall>k. dict_get (vertices rt2) k = dict_get (vertices reservation_init) k) \<and> (\<forall>k. dict_get (edges rt2) k = dict_get (edges reservation_init) k)"
    by (intro reserve_then_release) (simp_all add: reservation_init_def table_ok_def vertex_free_def edge_free_def)
  then show ?thesis by (elim exE conjE, intro exI conjI) (simp_all add: reservation_init_def)
qed

end
