(* ===== verification/Grid.thy ===== *)
theory Grid
  imports Position
begin

text \<open>
  The rectangular grid of \<open>warehouse/grid.py\<close>: geometry and traversability only. The
  blocked cells are a set, as in the source. \<open>grid_ok\<close> is the invariant of every \<open>Grid\<close>
  object (positive size, blocked cells inside); \<open>neighbors\<close> is shown to return exactly
  the traversable cells one step away, in direction order and without repetition.
\<close>

section \<open>State and operations\<close>

record grid =
  grid_width :: int
  grid_height :: int
  grid_blocked :: "position set"

definition grid_init :: "int \<Rightarrow> int \<Rightarrow> py_error + grid" where
  "grid_init width height =
     (if width \<le> 0 \<or> height \<le> 0 then Inl ValueError
      else Inr \<lparr>grid_width = width, grid_height = height, grid_blocked = {}\<rparr>)"

definition grid_in_bounds :: "grid \<Rightarrow> position \<Rightarrow> bool" where
  "grid_in_bounds g p \<longleftrightarrow> 0 \<le> row p \<and> row p < grid_height g \<and> 0 \<le> col p \<and> col p < grid_width g"

definition grid_is_blocked :: "grid \<Rightarrow> position \<Rightarrow> bool" where
  "grid_is_blocked g p \<longleftrightarrow> (if \<not> grid_in_bounds g p then True else p \<in> grid_blocked g)"

definition grid_is_traversable :: "grid \<Rightarrow> position \<Rightarrow> bool" where
  "grid_is_traversable g p \<longleftrightarrow> grid_in_bounds g p \<and> p \<notin> grid_blocked g"

definition grid_require_in_bounds :: "grid \<Rightarrow> position \<Rightarrow> py_error + unit" where
  "grid_require_in_bounds g p = (if \<not> grid_in_bounds g p then Inl InvalidPositionError else Inr ())"

definition grid_neighbors :: "grid \<Rightarrow> position \<Rightarrow> py_error + position list" where
  "grid_neighbors g p = res_bind (grid_require_in_bounds g p) (\<lambda>_.
     Inr (filter (grid_is_traversable g) (map (\<lambda>d. apply_to d p) directions)))"

definition grid_all_positions :: "grid \<Rightarrow> position list" where
  "grid_all_positions g =
     concat (map (\<lambda>r. map (\<lambda>c. Position r c) [0..grid_width g - 1]) [0..grid_height g - 1])"

definition grid_block :: "position \<Rightarrow> grid \<Rightarrow> py_error + grid" where
  "grid_block p g = res_bind (grid_require_in_bounds g p) (\<lambda>_.
     Inr (g\<lparr>grid_blocked := insert p (grid_blocked g)\<rparr>))"

definition grid_unblock :: "position \<Rightarrow> grid \<Rightarrow> py_error + grid" where
  "grid_unblock p g = res_bind (grid_require_in_bounds g p) (\<lambda>_.
     Inr (g\<lparr>grid_blocked := grid_blocked g - {p}\<rparr>))"

section \<open>Invariant\<close>

definition grid_ok :: "grid \<Rightarrow> bool" where
  [inv_defs]: "grid_ok g \<longleftrightarrow> 0 < grid_width g \<and> 0 < grid_height g \<and>
     (\<forall>p \<in> grid_blocked g. grid_in_bounds g p)"

lemma grid_in_bounds_update [simp]:
  "grid_in_bounds (g\<lparr>grid_blocked := B\<rparr>) p = grid_in_bounds g p"
  by (simp add: grid_in_bounds_def)

lemma grid_require_Inr [simp]: "grid_require_in_bounds g p = Inr u \<longleftrightarrow> grid_in_bounds g p"
  by (simp add: grid_require_in_bounds_def)

lemma grid_init_ok: "grid_init w h = Inr g \<Longrightarrow> grid_ok g"
  by (auto simp: grid_init_def grid_ok_def split: if_splits)

lemma grid_block_ok: "grid_ok g \<Longrightarrow> grid_block p g = Inr g' \<Longrightarrow> grid_ok g'"
  by (auto simp: grid_block_def grid_ok_def res_bind_Inr)

lemma grid_unblock_ok: "grid_ok g \<Longrightarrow> grid_unblock p g = Inr g' \<Longrightarrow> grid_ok g'"
  by (auto simp: grid_unblock_def grid_ok_def res_bind_Inr)

lemma grid_block_frame:
  "grid_block p g = Inr g' \<Longrightarrow> grid_width g' = grid_width g \<and> grid_height g' = grid_height g \<and>
     grid_blocked g' = insert p (grid_blocked g) \<and> grid_in_bounds g p"
  by (auto simp: grid_block_def res_bind_Inr)

lemma grid_unblock_frame:
  "grid_unblock p g = Inr g' \<Longrightarrow> grid_width g' = grid_width g \<and> grid_height g' = grid_height g \<and>
     grid_blocked g' = grid_blocked g - {p} \<and> grid_in_bounds g p"
  by (auto simp: grid_unblock_def res_bind_Inr)

section \<open>Cells and neighbours\<close>

lemma set_grid_all_positions [simp]: "set (grid_all_positions g) = {p. grid_in_bounds g p}"
proof (intro set_eqI iffI)
  fix p assume "p \<in> {p. grid_in_bounds g p}"
  then show "p \<in> set (grid_all_positions g)"
    by (cases p) (force simp: grid_all_positions_def grid_in_bounds_def)
qed (auto simp: grid_all_positions_def grid_in_bounds_def)

lemma finite_grid_in_bounds [simp]: "finite {p. grid_in_bounds g p}"
  using finite_set [of "grid_all_positions g"] by (simp del: finite_set)

lemma grid_neighbors_Inl: "grid_neighbors g p = Inl e \<longleftrightarrow> \<not> grid_in_bounds g p \<and> e = InvalidPositionError"
  by (auto simp: grid_neighbors_def grid_require_in_bounds_def)

lemma set_grid_neighbors:
  "grid_neighbors g p = Inr ns \<Longrightarrow>
     set ns = {q. is_adjacent_to p q \<and> grid_is_traversable g q}"
  by (auto simp: grid_neighbors_def res_bind_Inr adjacent_iff_direction)

lemma distinct_grid_neighbors: "grid_neighbors g p = Inr ns \<Longrightarrow> distinct ns"
  by (auto simp: grid_neighbors_def res_bind_Inr distinct_map inj_on_def apply_to_inj)

end
