(* ===== verification/Warehouse.thy ===== *)
theory Warehouse
  imports Grid
begin

text \<open>
  Obstacles and the warehouse (\<open>warehouse/obstacle.py\<close>, \<open>warehouse/warehouse.py\<close>): the
  grid plus the role of each cell and the two obstacle registries, keyed by obstacle id in
  insertion order. Static obstacles are pushed into the grid's blocked set, dynamic ones
  are kept apart. \<open>warehouse_ok\<close> is the invariant of every operation; \<open>static_exclusive\<close>
  is the extra discipline (one static obstacle per cell) under which the grid and the
  registry agree.
\<close>

section \<open>State\<close>

datatype obstacle_type = STATIC | DYNAMIC

record obstacle =
  obstacle_id :: string
  obstacle_position :: position
  obstacle_type :: obstacle_type
  obstacle_description :: string

definition obstacle_is_static :: "obstacle \<Rightarrow> bool" where
  "obstacle_is_static ob \<longleftrightarrow> obstacle_type ob = STATIC"

definition obstacle_is_dynamic :: "obstacle \<Rightarrow> bool" where
  "obstacle_is_dynamic ob \<longleftrightarrow> obstacle_type ob = DYNAMIC"

datatype location_type = AISLE | STORAGE | PICKUP | DROPOFF | CHARGING

definition functional_locations :: "location_type set" where
  "functional_locations = {STORAGE, PICKUP, DROPOFF, CHARGING}"

record warehouse =
  warehouse_name :: string
  warehouse_grid :: grid
  locations :: "(position, location_type) dict"
  static_registry :: "(string, obstacle) dict"
  dynamic_registry :: "(string, obstacle) dict"

definition warehouse_init :: "int \<Rightarrow> int \<Rightarrow> string \<Rightarrow> py_error + warehouse" where
  "warehouse_init width height name = res_bind (grid_init width height) (\<lambda>g.
     Inr \<lparr>warehouse_name = name, warehouse_grid = g, locations = [],
          static_registry = [], dynamic_registry = []\<rparr>)"

definition wh_width :: "warehouse \<Rightarrow> int" where
  "wh_width w = grid_width (warehouse_grid w)"

definition wh_height :: "warehouse \<Rightarrow> int" where
  "wh_height w = grid_height (warehouse_grid w)"

definition in_bounds :: "warehouse \<Rightarrow> position \<Rightarrow> bool" where
  "in_bounds w p = grid_in_bounds (warehouse_grid w) p"

definition wh_require_in_bounds :: "warehouse \<Rightarrow> position \<Rightarrow> py_error + unit" where
  "wh_require_in_bounds w p =
     (if \<not> grid_in_bounds (warehouse_grid w) p then Inl InvalidPositionError else Inr ())"

definition require_unused_obstacle_id :: "warehouse \<Rightarrow> string \<Rightarrow> py_error + unit" where
  "require_unused_obstacle_id w i =
     (if dict_get (static_registry w) i \<noteq> None \<or> dict_get (dynamic_registry w) i \<noteq> None
      then Inl SimulationError else Inr ())"

section \<open>Queries on obstacles and roles\<close>

definition is_blocked_by_static :: "warehouse \<Rightarrow> position \<Rightarrow> bool" where
  "is_blocked_by_static w p \<longleftrightarrow> list_ex (\<lambda>ob. obstacle_position ob = p) (dict_values (static_registry w))"

definition is_blocked_by_dynamic :: "warehouse \<Rightarrow> position \<Rightarrow> bool" where
  "is_blocked_by_dynamic w p \<longleftrightarrow> list_ex (\<lambda>ob. obstacle_position ob = p) (dict_values (dynamic_registry w))"

definition static_obstacles :: "warehouse \<Rightarrow> obstacle list" where
  "static_obstacles w = sort_key obstacle_id (dict_values (static_registry w))"

definition dynamic_obstacles :: "warehouse \<Rightarrow> obstacle list" where
  "dynamic_obstacles w = sort_key obstacle_id (dict_values (dynamic_registry w))"

definition obstacle_at :: "warehouse \<Rightarrow> position \<Rightarrow> obstacle option" where
  "obstacle_at w p =
     (case find (\<lambda>ob. obstacle_position ob = p) (dict_values (static_registry w)) of
        Some ob \<Rightarrow> Some ob
      | None \<Rightarrow> find (\<lambda>ob. obstacle_position ob = p) (dict_values (dynamic_registry w)))"

definition get_location_type :: "warehouse \<Rightarrow> position \<Rightarrow> py_error + location_type" where
  "get_location_type w p = res_bind (wh_require_in_bounds w p) (\<lambda>_.
     Inr (case dict_get (locations w) p of None \<Rightarrow> AISLE | Some r \<Rightarrow> r))"

definition positions_of_type :: "warehouse \<Rightarrow> location_type \<Rightarrow> position list" where
  "positions_of_type w r =
     (if r = AISLE
      then sort (filter (\<lambda>p. dict_get (locations w) p = None) (grid_all_positions (warehouse_grid w)))
      else sort (map fst (filter (\<lambda>(p, role). role = r) (locations w))))"

definition is_charging_station :: "warehouse \<Rightarrow> position \<Rightarrow> py_error + bool" where
  "is_charging_station w p = res_bind (get_location_type w p) (\<lambda>r. Inr (r = CHARGING))"

section \<open>Operations\<close>

definition mark_location :: "position \<Rightarrow> location_type \<Rightarrow> warehouse \<Rightarrow> py_error + warehouse" where
  "mark_location p r w = res_bind (wh_require_in_bounds w p) (\<lambda>_.
     if r \<in> functional_locations \<and> is_blocked_by_static w p then Inl InvalidPositionError
     else if r = AISLE then Inr (w\<lparr>locations := dict_del p (locations w)\<rparr>)
     else Inr (w\<lparr>locations := dict_set p r (locations w)\<rparr>))"

definition add_static_obstacle ::
  "string \<Rightarrow> position \<Rightarrow> string \<Rightarrow> warehouse \<Rightarrow> py_error + obstacle \<times> warehouse" where
  "add_static_obstacle i p desc w =
     res_bind (wh_require_in_bounds w p) (\<lambda>_.
     res_bind (require_unused_obstacle_id w i) (\<lambda>_.
     res_bind (get_location_type w p) (\<lambda>r.
     if r \<in> functional_locations then Inl InvalidPositionError
     else let ob = \<lparr>obstacle_id = i, obstacle_position = p, obstacle_type = STATIC,
                    obstacle_description = desc\<rparr>
       in res_bind (grid_block p (warehouse_grid w)) (\<lambda>g.
         Inr (ob, w\<lparr>static_registry := dict_set i ob (static_registry w), warehouse_grid := g\<rparr>)))))"

definition remove_static_obstacle :: "string \<Rightarrow> warehouse \<Rightarrow> py_error + obstacle \<times> warehouse" where
  "remove_static_obstacle i w =
     (case dict_get (static_registry w) i of
        None \<Rightarrow> Inl SimulationError
      | Some ob \<Rightarrow> res_bind (grid_unblock (obstacle_position ob) (warehouse_grid w)) (\<lambda>g.
          Inr (ob, w\<lparr>static_registry := dict_del i (static_registry w), warehouse_grid := g\<rparr>)))"

definition add_dynamic_obstacle ::
  "string \<Rightarrow> position \<Rightarrow> string \<Rightarrow> warehouse \<Rightarrow> py_error + obstacle \<times> warehouse" where
  "add_dynamic_obstacle i p desc w =
     res_bind (wh_require_in_bounds w p) (\<lambda>_.
     res_bind (require_unused_obstacle_id w i) (\<lambda>_.
     if is_blocked_by_static w p then Inl InvalidPositionError
     else let ob = \<lparr>obstacle_id = i, obstacle_position = p, obstacle_type = DYNAMIC,
                    obstacle_description = desc\<rparr>
       in Inr (ob, w\<lparr>dynamic_registry := dict_set i ob (dynamic_registry w)\<rparr>)))"

definition remove_dynamic_obstacle :: "string \<Rightarrow> warehouse \<Rightarrow> py_error + obstacle \<times> warehouse" where
  "remove_dynamic_obstacle i w =
     (case dict_get (dynamic_registry w) i of
        None \<Rightarrow> Inl SimulationError
      | Some ob \<Rightarrow> Inr (ob, w\<lparr>dynamic_registry := dict_del i (dynamic_registry w)\<rparr>))"

section \<open>Traversability\<close>

definition is_traversable :: "warehouse \<Rightarrow> position \<Rightarrow> bool" where
  "is_traversable w p \<longleftrightarrow> grid_is_traversable (warehouse_grid w) p \<and> \<not> is_blocked_by_dynamic w p"

definition neighbors :: "warehouse \<Rightarrow> position \<Rightarrow> py_error + position list" where
  "neighbors w p =
     res_bind (wh_require_in_bounds w p) (\<lambda>_.
     res_bind (grid_neighbors (warehouse_grid w) p) (\<lambda>ns.
       Inr (filter (\<lambda>q. \<not> is_blocked_by_dynamic w q) ns)))"

definition blocked_cells :: "warehouse \<Rightarrow> position set" where
  "blocked_cells w = grid_blocked (warehouse_grid w) \<union>
     set (map obstacle_position (dict_values (dynamic_registry w)))"

section \<open>Invariant\<close>

text \<open>
  Registries are keyed by the obstacles' own ids, ids are not shared, every obstacle lies
  inside, every blocked grid cell is explained by a static obstacle, and a cell with a
  role is never under a static obstacle.
\<close>

definition registry_ok :: "warehouse \<Rightarrow> obstacle_type \<Rightarrow> (string, obstacle) dict \<Rightarrow> bool" where
  [inv_defs]: "registry_ok w k d \<longleftrightarrow> dict_ok d \<and>
     (\<forall>(i, ob) \<in> set d. obstacle_id ob = i \<and> obstacle_type ob = k \<and> in_bounds w (obstacle_position ob))"

definition locations_ok :: "warehouse \<Rightarrow> (position, location_type) dict \<Rightarrow> bool" where
  [inv_defs]: "locations_ok w l \<longleftrightarrow> dict_ok l \<and>
     (\<forall>(p, r) \<in> set l. r \<noteq> AISLE \<and> in_bounds w p \<and> \<not> is_blocked_by_static w p)"

definition warehouse_ok :: "warehouse \<Rightarrow> bool" where
  [inv_defs]: "warehouse_ok w \<longleftrightarrow>
     grid_ok (warehouse_grid w) \<and> locations_ok w (locations w) \<and>
     registry_ok w STATIC (static_registry w) \<and> registry_ok w DYNAMIC (dynamic_registry w) \<and>
     (\<forall>i. dict_get (static_registry w) i = None \<or> dict_get (dynamic_registry w) i = None) \<and>
     (\<forall>p \<in> grid_blocked (warehouse_grid w). is_blocked_by_static w p)"

text \<open>At most one static obstacle per cell, and the grid knows all of them.\<close>

definition static_exclusive :: "warehouse \<Rightarrow> bool" where
  [inv_defs]: "static_exclusive w \<longleftrightarrow>
     distinct (map obstacle_position (dict_values (static_registry w))) \<and>
     (\<forall>p. is_blocked_by_static w p \<longrightarrow> p \<in> grid_blocked (warehouse_grid w))"

section \<open>Basic facts\<close>

lemma wh_require_Inr [simp]: "wh_require_in_bounds w p = Inr u \<longleftrightarrow> in_bounds w p"
  by (simp add: wh_require_in_bounds_def in_bounds_def)

lemma static_iff: "is_blocked_by_static w p \<longleftrightarrow> (\<exists>(i, ob) \<in> set (static_registry w). obstacle_position ob = p)"
  by (force simp: is_blocked_by_static_def list_ex_iff)

lemma dynamic_iff: "is_blocked_by_dynamic w p \<longleftrightarrow> (\<exists>(i, ob) \<in> set (dynamic_registry w). obstacle_position ob = p)"
  by (force simp: is_blocked_by_dynamic_def list_ex_iff)

lemma is_traversable_iff:
  "is_traversable w p \<longleftrightarrow> in_bounds w p \<and> p \<notin> grid_blocked (warehouse_grid w) \<and> \<not> is_blocked_by_dynamic w p"
  by (auto simp: is_traversable_def grid_is_traversable_def in_bounds_def)

lemma is_traversable_in_bounds: "is_traversable w p \<Longrightarrow> in_bounds w p"
  by (simp add: is_traversable_iff)

lemma not_static_traversable: "warehouse_ok w \<Longrightarrow> in_bounds w p \<Longrightarrow> \<not> is_blocked_by_static w p \<Longrightarrow>
    \<not> is_blocked_by_dynamic w p \<Longrightarrow> is_traversable w p"
  by (auto simp: is_traversable_iff warehouse_ok_def)

lemma finite_in_bounds [simp]: "finite {p. in_bounds w p}"
  by (simp add: in_bounds_def)

lemma neighbors_Inl: "neighbors w p = Inl e \<longleftrightarrow> \<not> in_bounds w p \<and> e = InvalidPositionError"
  by (auto simp: neighbors_def res_bind_Inl wh_require_in_bounds_def in_bounds_def grid_neighbors_Inl)

lemma neighbors_Inr_in_bounds: "neighbors w p = Inr ns \<Longrightarrow> in_bounds w p"
  by (auto simp: neighbors_def res_bind_Inr)

lemma neighbors_ex: "in_bounds w p \<Longrightarrow> \<exists>ns. neighbors w p = Inr ns"
  using neighbors_Inl [of w p] by (cases "neighbors w p") auto

lemma neighbors_Inr:
  "neighbors w p = Inr ns \<Longrightarrow> \<exists>ms. grid_neighbors (warehouse_grid w) p = Inr ms \<and>
     ns = filter (\<lambda>q. \<not> is_blocked_by_dynamic w q) ms"
  unfolding neighbors_def res_bind_Inr by blast

lemma set_neighbors: "neighbors w p = Inr ns \<Longrightarrow> set ns = {q. is_adjacent_to p q \<and> is_traversable w q}"
  by (drule neighbors_Inr) (auto simp: is_traversable_def set_grid_neighbors)

lemma distinct_neighbors: "neighbors w p = Inr ns \<Longrightarrow> distinct ns"
  by (drule neighbors_Inr) (auto simp: distinct_grid_neighbors)

section \<open>Every operation keeps the invariant\<close>

lemma in_bounds_cong:
  "grid_width (warehouse_grid w') = grid_width (warehouse_grid w) \<Longrightarrow>
   grid_height (warehouse_grid w') = grid_height (warehouse_grid w) \<Longrightarrow> in_bounds w' p = in_bounds w p"
  by (simp add: in_bounds_def grid_in_bounds_def)

lemma in_bounds_updates [simp]:
  "in_bounds (w\<lparr>locations := l\<rparr>) p = in_bounds w p"
  "in_bounds (w\<lparr>dynamic_registry := d\<rparr>) p = in_bounds w p"
  by (simp_all add: in_bounds_def)

lemma static_updates [simp]:
  "is_blocked_by_static (w\<lparr>locations := l\<rparr>) p = is_blocked_by_static w p"
  "is_blocked_by_static (w\<lparr>dynamic_registry := d\<rparr>) p = is_blocked_by_static w p"
  by (simp_all add: is_blocked_by_static_def)

lemma registry_ok_cong: "(\<And>p. in_bounds w' p = in_bounds w p) \<Longrightarrow> registry_ok w' k d = registry_ok w k d"
  by (simp add: registry_ok_def)

lemma registry_ok_add [intro]:
  assumes "registry_ok w k d" "obstacle_id ob = i" "obstacle_type ob = k" "in_bounds w (obstacle_position ob)"
  shows "registry_ok w k (dict_set i ob d)"
  using assms by (auto simp: registry_ok_def set_dict_set)

lemma registry_ok_del [intro]: "registry_ok w k d \<Longrightarrow> registry_ok w k (dict_del i d)"
  by (auto simp: registry_ok_def set_dict_del)

lemma registry_okD:
  "registry_ok w k d \<Longrightarrow> dict_get d i = Some ob \<Longrightarrow>
     obstacle_id ob = i \<and> obstacle_type ob = k \<and> in_bounds w (obstacle_position ob)"
  by (auto simp: registry_ok_def dest!: map_of_SomeD)

lemma locations_ok_cong:
  "(\<And>p. in_bounds w' p = in_bounds w p) \<Longrightarrow> (\<And>p. is_blocked_by_static w' p = is_blocked_by_static w p) \<Longrightarrow>
     locations_ok w' l = locations_ok w l"
  by (simp add: locations_ok_def)

lemma locations_ok_add:
  "locations_ok w l \<Longrightarrow> r \<noteq> AISLE \<Longrightarrow> in_bounds w p \<Longrightarrow> \<not> is_blocked_by_static w p \<Longrightarrow>
     locations_ok w (dict_set p r l)"
  by (auto simp: locations_ok_def set_dict_set)

lemma locations_ok_del: "locations_ok w l \<Longrightarrow> locations_ok w (dict_del p l)"
  by (auto simp: locations_ok_def set_dict_del)

lemma warehouse_init_ok: "warehouse_init wd ht nm = Inr w \<Longrightarrow> warehouse_ok w \<and> static_exclusive w"
  by (auto simp: warehouse_init_def res_bind_Inr inv_defs grid_init_def static_iff split: if_splits)

lemma mark_location_ok:
  assumes ok: "warehouse_ok w" and m: "mark_location p r w = Inr w'"
  shows "warehouse_ok w'"
proof -
  from m obtain l where w': "w' = w\<lparr>locations := l\<rparr>"
    and l: "l = dict_del p (locations w) \<or> (r \<noteq> AISLE \<and> in_bounds w p \<and> \<not> is_blocked_by_static w p \<and> l = dict_set p r (locations w))"
    by (cases r) (auto simp: mark_location_def res_bind_Inr functional_locations_def split: if_splits)
  have "locations_ok w l" using ok l locations_ok_add locations_ok_del by (auto simp: warehouse_ok_def)
  then show ?thesis using ok
    by (simp add: w' warehouse_ok_def registry_ok_cong [of w' w for w'] locations_ok_def registry_ok_def)
qed

lemma dynamic_update_ok:
  assumes "warehouse_ok w" "registry_ok w DYNAMIC d"
    and "\<forall>i. dict_get (static_registry w) i = None \<or> dict_get d i = None"
  shows "warehouse_ok (w\<lparr>dynamic_registry := d\<rparr>)"
  using assms by (simp add: warehouse_ok_def registry_ok_def locations_ok_def)

lemma add_dynamic_obstacle_facts:
  assumes "add_dynamic_obstacle i p desc w = Inr (ob, w')"
  shows "in_bounds w p" "dict_get (static_registry w) i = None" "dict_get (dynamic_registry w) i = None"
    "\<not> is_blocked_by_static w p" "obstacle_id ob = i" "obstacle_type ob = DYNAMIC" "obstacle_position ob = p"
    "w' = w\<lparr>dynamic_registry := dict_set i ob (dynamic_registry w)\<rparr>"
  using assms
  by (auto simp: add_dynamic_obstacle_def res_bind_Inr require_unused_obstacle_id_def Let_def split: if_splits)

lemma add_dynamic_obstacle_ok:
  assumes ok: "warehouse_ok w" and add: "add_dynamic_obstacle i p desc w = Inr (ob, w')"
  shows "warehouse_ok w'"
proof -
  note f = add_dynamic_obstacle_facts [OF add]
  have "registry_ok w DYNAMIC (dict_set i ob (dynamic_registry w))"
    using ok f by (intro registry_ok_add) (auto simp: warehouse_ok_def)
  then show ?thesis unfolding f(8) using ok f(2)
    by (intro dynamic_update_ok) (simp_all add: warehouse_ok_def)
qed

lemma remove_dynamic_obstacle_ok:
  assumes ok: "warehouse_ok w" and rm: "remove_dynamic_obstacle i w = Inr (ob, w')"
  shows "warehouse_ok w'"
proof -
  from rm have w': "w' = w\<lparr>dynamic_registry := dict_del i (dynamic_registry w)\<rparr>"
    by (auto simp: remove_dynamic_obstacle_def split: option.splits)
  show ?thesis unfolding w' using ok
    by (intro dynamic_update_ok registry_ok_del) (simp_all add: warehouse_ok_def)
qed

lemma add_static_obstacle_facts:
  assumes "add_static_obstacle i p desc w = Inr (ob, w')"
  shows "in_bounds w p" "dict_get (static_registry w) i = None" "dict_get (dynamic_registry w) i = None"
    "obstacle_id ob = i" "obstacle_type ob = STATIC" "obstacle_position ob = p"
    "static_registry w' = dict_set i ob (static_registry w)"
    "grid_block p (warehouse_grid w) = Inr (warehouse_grid w')"
    "locations w' = locations w" "dynamic_registry w' = dynamic_registry w"
    "get_location_type w p = Inr AISLE"
proof -
  from assms obtain r where r: "get_location_type w p = Inr r" "r \<notin> functional_locations"
    by (auto simp: add_static_obstacle_def res_bind_Inr split: if_splits)
  then have "r = AISLE" by (cases r) (auto simp: functional_locations_def)
  with r show "get_location_type w p = Inr AISLE" by simp
qed (use assms in \<open>auto simp: add_static_obstacle_def res_bind_Inr require_unused_obstacle_id_def Let_def split: if_splits\<close>)

lemma add_static_in_bounds [simp]:
  "add_static_obstacle i p desc w = Inr (ob, w') \<Longrightarrow> in_bounds w' q = in_bounds w q"
  by (rule in_bounds_cong) (auto dest!: add_static_obstacle_facts(8) grid_block_frame)

lemma add_static_blocked:
  assumes "add_static_obstacle i p desc w = Inr (ob, w')"
  shows "is_blocked_by_static w' q \<longleftrightarrow> q = p \<or> is_blocked_by_static w q"
  using add_static_obstacle_facts(2,6,7) [OF assms] by (auto simp: static_iff dict_set_new)

lemma add_static_obstacle_ok:
  assumes ok: "warehouse_ok w" and add: "add_static_obstacle i p desc w = Inr (ob, w')"
  shows "warehouse_ok w'"
proof -
  note f = add_static_obstacle_facts [OF add] and ib = add_static_in_bounds [OF add]
  have "registry_ok w STATIC (dict_set i ob (static_registry w))"
    using ok f by (intro registry_ok_add) (auto simp: warehouse_ok_def)
  moreover have "grid_ok (warehouse_grid w')" using ok grid_block_ok f(8) by (auto simp: warehouse_ok_def)
  moreover have "locations_ok w' (locations w)"
  proof -
    have "(p, r) \<notin> set (locations w)" for r
      using ok f(11) dict_get_Some_iff [of "locations w" p r]
      by (auto simp: warehouse_ok_def locations_ok_def get_location_type_def res_bind_Inr)
    then show ?thesis using ok by (auto simp: warehouse_ok_def locations_ok_def ib add_static_blocked [OF add])
  qed
  ultimately show ?thesis using ok f(3,8) grid_block_frame [OF f(8)]
    by (auto simp: warehouse_ok_def registry_ok_def ib add_static_blocked [OF add] f(7,9,10))
qed

lemma remove_static_obstacle_facts:
  assumes "remove_static_obstacle i w = Inr (ob, w')"
  shows "dict_get (static_registry w) i = Some ob"
    "static_registry w' = dict_del i (static_registry w)"
    "grid_unblock (obstacle_position ob) (warehouse_grid w) = Inr (warehouse_grid w')"
    "locations w' = locations w" "dynamic_registry w' = dynamic_registry w"
  using assms by (auto simp: remove_static_obstacle_def res_bind_Inr split: option.splits)

lemma remove_static_in_bounds [simp]:
  "remove_static_obstacle i w = Inr (ob, w') \<Longrightarrow> in_bounds w' q = in_bounds w q"
  by (rule in_bounds_cong) (auto dest!: remove_static_obstacle_facts(3) grid_unblock_frame)

lemma remove_static_blocked:
  assumes "warehouse_ok w" "remove_static_obstacle i w = Inr (ob, w')"
  shows "is_blocked_by_static w' q \<Longrightarrow> is_blocked_by_static w q"
    and "is_blocked_by_static w q \<Longrightarrow> q \<noteq> obstacle_position ob \<Longrightarrow> is_blocked_by_static w' q"
proof -
  note f = remove_static_obstacle_facts [OF assms(2)]
  show "is_blocked_by_static w' q \<Longrightarrow> is_blocked_by_static w q"
    by (auto simp: static_iff f(2) set_dict_del)
  have "dict_ok (static_registry w)" using assms(1) by (simp add: warehouse_ok_def registry_ok_def)
  then have "ob' = ob" if "(i, ob') \<in> set (static_registry w)" for ob'
    using that f(1) by (simp add: dict_get_Some_iff [symmetric])
  then show "is_blocked_by_static w q \<Longrightarrow> q \<noteq> obstacle_position ob \<Longrightarrow> is_blocked_by_static w' q"
    by (fastforce simp: static_iff f(2) set_dict_del)
qed

lemma remove_static_obstacle_ok:
  assumes ok: "warehouse_ok w" and rm: "remove_static_obstacle i w = Inr (ob, w')"
  shows "warehouse_ok w'"
proof -
  note f = remove_static_obstacle_facts [OF rm] and ib = remove_static_in_bounds [OF rm]
    and st = remove_static_blocked [OF ok rm]
  have "registry_ok w STATIC (dict_del i (static_registry w))"
    using ok by (intro registry_ok_del) (simp add: warehouse_ok_def)
  moreover have "grid_ok (warehouse_grid w')" using ok grid_unblock_ok f(3) by (auto simp: warehouse_ok_def)
  moreover have "locations_ok w' (locations w)"
    using ok st(1) by (auto simp: warehouse_ok_def locations_ok_def ib)
  ultimately show ?thesis using ok st(2) grid_unblock_frame [OF f(3)]
    by (auto simp: warehouse_ok_def registry_ok_def ib f(2,4,5))
qed

end
