(* ===== verification/Frontier.thy ===== *)
theory Frontier
  imports Position
begin

text \<open>
  What the three best-first searches of the program share: the priority queue (Python's
  \<open>heapq\<close>: \<open>heappop\<close> returns an entry with the least key), the relaxation of one edge,
  and the walk back along \<open>came_from\<close>. The locale \<open>priority_queue\<close> is the interface of
  the queue; the locale \<open>state_graph\<close> holds the search invariant for any successor function
  and any consistent heuristic, and the consequences of it that the planners use.
\<close>

section \<open>The queue\<close>

locale priority_queue =
  fixes push :: "('k::linorder \<times> 'a) \<Rightarrow> 'q \<Rightarrow> 'q"
    and pop :: "'q \<Rightarrow> (('k \<times> 'a) \<times> 'q) option"
    and elems :: "'q \<Rightarrow> ('k \<times> 'a) multiset"
  assumes elems_push: "elems (push x q) = add_mset x (elems q)"
    and pop_None: "pop q = None \<longleftrightarrow> elems q = {#}"
    and pop_Some: "pop q = Some (x, q') \<Longrightarrow> elems q = add_mset x (elems q')"
    and pop_least: "pop q = Some (x, q') \<Longrightarrow> y \<in># elems q \<Longrightarrow> fst x \<le> fst y"
begin

lemma pop_mem: "pop q = Some (x, q') \<Longrightarrow> x \<in># elems q"
  using pop_Some by simp

lemma pop_rest: "pop q = Some (x, q') \<Longrightarrow> set_mset (elems q) = insert x (set_mset (elems q'))"
  using pop_Some by simp

lemma pop_size: "pop q = Some (x, q') \<Longrightarrow> size (elems q) = Suc (size (elems q'))"
  using pop_Some by simp

lemma pop_ex: "elems q \<noteq> {#} \<Longrightarrow> \<exists>x q'. pop q = Some (x, q')"
  using pop_None by (cases "pop q") auto

end

definition heappush :: "('k \<times> 'a) \<Rightarrow> ('k \<times> 'a) list \<Rightarrow> ('k \<times> 'a) list" where
  "heappush x q = x # q"

fun heappop :: "('k::linorder \<times> 'a) list \<Rightarrow> (('k \<times> 'a) \<times> ('k \<times> 'a) list) option" where
  "heappop [] = None"
| "heappop (x # q) =
     (case heappop q of
        None \<Rightarrow> Some (x, [])
      | Some (y, r) \<Rightarrow> if fst x \<le> fst y then Some (x, q) else Some (y, x # r))"

lemma heappop_None: "heappop q = None \<longleftrightarrow> q = []"
  by (cases q) (auto split: option.splits if_splits)

lemma heappop_mset: "heappop q = Some (x, q') \<Longrightarrow> mset q = add_mset x (mset q')"
  by (induction q arbitrary: x q') (fastforce simp: heappop_None split: option.splits if_splits)+

lemma heappop_least: "heappop q = Some (x, q') \<Longrightarrow> y \<in> set q \<Longrightarrow> fst x \<le> fst y"
proof (induction q arbitrary: x q' y)
  case Nil
  then show ?case by simp
next
  case (Cons a q)
  show ?case
  proof (cases "heappop q")
    case None
    then show ?thesis using Cons.prems by (auto simp: heappop_None)
  next
    case (Some br)
    obtain b r where br: "br = (b, r)" by (cases br) simp
    have IH: "fst b \<le> fst z" if "z \<in> set q" for z using Cons.IH [of b r z] that Some br by simp
    show ?thesis
    proof (cases "fst a \<le> fst b")
      case True
      then have "x = a" using Cons.prems(1) Some br by simp
      then show ?thesis using Cons.prems(2) IH order_trans [OF True IH, of y] by auto
    next
      case False
      then have "x = b" using Cons.prems(1) Some br by simp
      moreover have "fst b \<le> fst a" using False by simp
      ultimately show ?thesis using Cons.prems(2) IH [of y] by auto
    qed
  qed
qed

interpretation heapq: priority_queue heappush heappop mset
proof unfold_locales
  show "fst x \<le> fst y" if "heappop q = Some (x, q')" "y \<in># mset q" for x y :: "'a \<times> 'b" and q q'
    using heappop_least [OF that(1)] that(2) by simp
qed (simp_all add: heappush_def heappop_None heappop_mset)

lemma heappop_set: "heappop q = Some (x, q') \<Longrightarrow> set q = insert x (set q')"
  using heapq.pop_rest [of q x q'] by simp

lemma heappop_length: "heappop q = Some (x, q') \<Longrightarrow> length q = Suc (length q')"
  using heapq.pop_size [of q x q'] by simp

section \<open>Search state and relaxation\<close>

text \<open>
  The local variables of a search: \<open>g_score\<close> or \<open>best_g\<close>, \<open>came_from\<close>, the closed set,
  the frontier of \<open>(f, h, insertion_order, node)\<close> entries and the tie-breaking counter.
\<close>

record 's search =
  best_g :: "'s \<rightharpoonup> int"
  came_from :: "'s \<rightharpoonup> 's"
  finalized :: "'s set"
  frontier :: "((int \<times> int \<times> nat) \<times> 's) list"
  tie_breaker :: nat
  expanded :: nat

definition search_init :: "'s \<Rightarrow> int \<Rightarrow> 's search" where
  "search_init start start_h = \<lparr>best_g = [start \<mapsto> 0], came_from = Map.empty, finalized = {},
     frontier = [((start_h, start_h, 0), start)], tie_breaker = 1, expanded = 0\<rparr>"

text \<open>Relaxation of one edge: \<open>if tentative_g < best_g.get(neighbour, inf): ...\<close>\<close>

definition improves :: "int \<Rightarrow> int option \<Rightarrow> bool" where
  "improves tentative old = (case old of None \<Rightarrow> True | Some g \<Rightarrow> tentative < g)"

definition relax :: "'s \<Rightarrow> 's \<Rightarrow> int \<Rightarrow> int \<Rightarrow> 's search \<Rightarrow> 's search" where
  "relax neighbour current tentative_g h_value st =
     (if improves tentative_g (best_g st neighbour)
      then st\<lparr>best_g := (best_g st)(neighbour \<mapsto> tentative_g),
              came_from := (came_from st)(neighbour \<mapsto> current),
              frontier := heappush ((tentative_g + h_value, h_value, tie_breaker st), neighbour) (frontier st),
              tie_breaker := tie_breaker st + 1\<rparr>
      else st)"

lemma relax_frame [simp]:
  "finalized (relax nb cur t hv st) = finalized st"
  "expanded (relax nb cur t hv st) = expanded st"
  by (simp_all add: relax_def)

lemma relax_keeps: "best_g st x = Some g \<Longrightarrow> g \<le> t \<Longrightarrow> best_g (relax nb cur t hv st) x = Some g"
  by (auto simp: relax_def improves_def split: option.splits)

section \<open>Walking back along the predecessors\<close>

text \<open>
  \<open>while current != start: current = came_from[current]; path.append(current)\<close>, then
  \<open>path.reverse()\<close>. \<open>None\<close> is a loop that never ends, \<open>Inl KeyError\<close> a missing entry.
\<close>

partial_function (option) walk_back :: "('s \<rightharpoonup> 's) \<Rightarrow> 's \<Rightarrow> 's \<Rightarrow> 's list \<Rightarrow> (py_error + 's list) option" where
  "walk_back cf start current path =
     (if current \<noteq> start
      then (case cf current of
              None \<Rightarrow> Some (Inl KeyError)
            | Some p \<Rightarrow> walk_back cf start p (path @ [p]))
      else Some (Inr (rev path)))"

declare walk_back.simps [code]

definition reconstruct_path :: "('s \<rightharpoonup> 's) \<Rightarrow> 's \<Rightarrow> 's \<Rightarrow> py_error + 's list" where
  "reconstruct_path cf start goal =
     (case walk_back cf start goal [goal] of None \<Rightarrow> Inl Diverges | Some r \<Rightarrow> r)"

section \<open>The search invariant\<close>

locale state_graph =
  fixes succ :: "'s \<Rightarrow> 's list" and h :: "'s \<Rightarrow> int" and start :: 's
  assumes consistent: "t \<in> set (succ s) \<Longrightarrow> h s \<le> 1 + h t"
begin

definition walk :: "'s list \<Rightarrow> 's \<Rightarrow> bool" where
  "walk xs t \<longleftrightarrow> xs \<noteq> [] \<and> hd xs = start \<and> last xs = t \<and> successively (\<lambda>a b. b \<in> set (succ a)) xs"

definition optimal :: "'s \<Rightarrow> int \<Rightarrow> bool" where
  "optimal t k \<longleftrightarrow> (\<forall>xs. walk xs t \<longrightarrow> k \<le> int (length xs) - 1)"

text \<open>Every known cost is the cost of a way through finalized nodes.\<close>

definition tree_inv :: "'s search \<Rightarrow> bool" where
  "tree_inv st \<longleftrightarrow> best_g st start = Some 0 \<and>
     (\<forall>x k. best_g st x = Some k \<longrightarrow> 0 \<le> k \<and> (x = start \<or>
        (\<exists>p. came_from st x = Some p \<and> p \<in> finalized st \<and> best_g st p = Some (k - 1) \<and> x \<in> set (succ p))))"

text \<open>Entries are never below the known cost, and every open node has its current entry.\<close>

definition frontier_inv :: "'s search \<Rightarrow> bool" where
  "frontier_inv st \<longleftrightarrow>
     (\<forall>f hv i x. ((f, hv, i), x) \<in> set (frontier st) \<longrightarrow>
        hv = h x \<and> (\<exists>k. best_g st x = Some k \<and> k + h x \<le> f)) \<and>
     (\<forall>x k. best_g st x = Some k \<longrightarrow> x \<notin> finalized st \<longrightarrow> (\<exists>i. ((k + h x, h x, i), x) \<in> set (frontier st)))"

text \<open>
  Finalized nodes have their final cost, and their successors have been relaxed, except
  those of \<open>cur\<close> that are still in \<open>todo\<close>.
\<close>

definition closed_inv :: "'s \<Rightarrow> 's set \<Rightarrow> 's search \<Rightarrow> bool" where
  "closed_inv cur todo st \<longleftrightarrow>
     (\<forall>p \<in> finalized st. \<exists>kp. best_g st p = Some kp \<and> optimal p kp \<and>
        (\<forall>x \<in> set (succ p). (p = cur \<and> x \<in> todo) \<or> (\<exists>k. best_g st x = Some k \<and> k \<le> kp + 1)))"

definition search_inv :: "'s search \<Rightarrow> bool" where
  "search_inv st \<longleftrightarrow> tree_inv st \<and> frontier_inv st \<and> closed_inv start {} st"

definition expand_inv :: "'s \<Rightarrow> 's set \<Rightarrow> 's search \<Rightarrow> bool" where
  "expand_inv cur todo st \<longleftrightarrow> tree_inv st \<and> frontier_inv st \<and> closed_inv cur todo st \<and> cur \<in> finalized st"

lemma walk_start: "walk [start] start"
  by (simp add: walk_def)

lemma walk_snoc: "walk xs p \<Longrightarrow> x \<in> set (succ p) \<Longrightarrow> walk (xs @ [x]) x"
  by (auto simp: walk_def successively_append_iff)

lemma search_inv_init: "search_inv (search_init start (h start))"
  by (simp add: search_inv_def tree_inv_def frontier_inv_def closed_inv_def search_init_def)

lemma closed_inv_empty: "closed_inv cur {} st = closed_inv start {} st"
  by (simp add: closed_inv_def)

lemma expand_inv_done: "expand_inv cur {} st \<Longrightarrow> search_inv st"
  by (simp add: expand_inv_def search_inv_def closed_inv_empty [of cur])

text \<open>Along a walk from the start, some node is open unless all of it is closed.\<close>

lemma walk_frontier:
  assumes "search_inv st" "walk xs t" "t \<notin> finalized st"
  shows "\<exists>x k. x \<notin> finalized st \<and> best_g st x = Some k \<and> k + h x \<le> int (length xs) - 1 + h t"
  using assms(2,3)
proof (induction xs arbitrary: t rule: rev_induct)
  case Nil
  then show ?case by (simp add: walk_def)
next
  case (snoc y xs)
  have y: "y = t" using snoc.prems(1) by (simp add: walk_def)
  show ?case
  proof (cases "xs = []")
    case True
    then have "t = start" using snoc.prems(1) y by (simp add: walk_def)
    then show ?thesis using assms(1) snoc.prems(2) True
      by (intro exI [of _ start] exI [of _ 0]) (simp add: search_inv_def tree_inv_def)
  next
    case False
    define p where "p = last xs"
    have w: "walk xs p" and e: "t \<in> set (succ p)"
      using snoc.prems(1) False y by (auto simp: walk_def p_def successively_append_iff)
    have hp: "h p \<le> 1 + h t" using consistent [OF e] .
    show ?thesis
    proof (cases "p \<in> finalized st")
      case True
      then obtain kp k where "best_g st p = Some kp" "optimal p kp" "best_g st t = Some k" "k \<le> kp + 1"
        using assms(1) e by (fastforce simp: search_inv_def closed_inv_def)
      moreover have "kp \<le> int (length xs) - 1" using \<open>optimal p kp\<close> w by (simp add: optimal_def)
      ultimately show ?thesis using snoc.prems(2) by (intro exI [of _ t] exI [of _ k]) simp
    next
      case False
      from snoc.IH [OF w False] hp show ?thesis by fastforce
    qed
  qed
qed

text \<open>A least entry bounds every walk to an open node from below.\<close>

lemma pop_lower_bound:
  assumes inv: "search_inv st" and pop: "heappop (frontier st) = Some (((f, hv, i), cur), q)"
    and w: "walk xs t" "t \<notin> finalized st"
  shows "f \<le> int (length xs) - 1 + h t"
proof -
  obtain x kx where x: "x \<notin> finalized st" "best_g st x = Some kx" "kx + h x \<le> int (length xs) - 1 + h t"
    using walk_frontier [OF inv w] by blast
  then obtain j where "((kx + h x, h x, j), x) \<in> set (frontier st)"
    using inv by (fastforce simp: search_inv_def frontier_inv_def)
  from heappop_least [OF pop this] have "f \<le> kx + h x" by auto
  then show ?thesis using x(3) by simp
qed

lemma pop_known:
  assumes inv: "search_inv st" and pop: "heappop (frontier st) = Some (((f, hv, i), cur), q)"
  shows "\<exists>k. best_g st cur = Some k \<and> k + h cur \<le> f"
  using assms heappop_set [OF pop] by (fastforce simp: search_inv_def frontier_inv_def)

text \<open>The node of a least entry, if it is still open, has its final cost.\<close>

lemma pop_optimal:
  assumes inv: "search_inv st" and pop: "heappop (frontier st) = Some (((f, hv, i), cur), q)"
    and opn: "cur \<notin> finalized st"
  shows "\<exists>k. best_g st cur = Some k \<and> optimal cur k"
proof -
  obtain k where k: "best_g st cur = Some k" "k + h cur \<le> f" using pop_known [OF inv pop] by blast
  have "k \<le> int (length xs) - 1" if "walk xs cur" for xs
    using pop_lower_bound [OF inv pop that opn] k(2) by simp
  then show ?thesis using k(1) by (auto simp: optimal_def)
qed

text \<open>A stale entry is dropped; a live one moves its node to the closed set.\<close>

lemma frontier_invI:
  assumes "frontier st = q" "best_g st = b" "finalized st = D"
    and "\<And>f hv i x. ((f, hv, i), x) \<in> set q \<Longrightarrow> hv = h x \<and> (\<exists>k. b x = Some k \<and> k + h x \<le> f)"
    and "\<And>x k. b x = Some k \<Longrightarrow> x \<notin> D \<Longrightarrow> \<exists>i. ((k + h x, h x, i), x) \<in> set q"
  shows "frontier_inv st"
  unfolding frontier_inv_def assms(1-3) using assms(4,5) by blast

lemma frontier_inv_entry:
  "frontier_inv st \<Longrightarrow> ((f, hv, i), x) \<in> set (frontier st) \<Longrightarrow>
     hv = h x \<and> (\<exists>k. best_g st x = Some k \<and> k + h x \<le> f)"
  unfolding frontier_inv_def by blast

lemma frontier_inv_open:
  "frontier_inv st \<Longrightarrow> best_g st x = Some k \<Longrightarrow> x \<notin> finalized st \<Longrightarrow>
     \<exists>i. ((k + h x, h x, i), x) \<in> set (frontier st)"
  by (simp add: frontier_inv_def)

lemma frontier_inv_pop:
  assumes "frontier_inv st" "set (frontier st) = insert (key, cur) (set q)" "cur \<in> D" "finalized st \<subseteq> D"
  shows "frontier_inv (st\<lparr>frontier := q, finalized := D, expanded := n\<rparr>)"
proof -
  have "hv = h x \<and> (\<exists>k. best_g st x = Some k \<and> k + h x \<le> f)"
    if "((f, hv, i), x) \<in> set q" for f hv i x
    using frontier_inv_entry [OF assms(1), of f hv i x] that assms(2) by blast
  moreover have "\<exists>i. ((k + h x, h x, i), x) \<in> set q" if "best_g st x = Some k" "x \<notin> D" for x k
  proof -
    have ne: "x \<noteq> cur" "x \<notin> finalized st" using that(2) assms(3,4) by auto
    from frontier_inv_open [OF assms(1) that(1) ne(2)] assms(2) ne(1) show ?thesis by auto
  qed
  moreover have "frontier (st\<lparr>frontier := q, finalized := D, expanded := n\<rparr>) = q"
    "best_g (st\<lparr>frontier := q, finalized := D, expanded := n\<rparr>) = best_g st"
    "finalized (st\<lparr>frontier := q, finalized := D, expanded := n\<rparr>) = D"
    by simp_all
  ultimately show ?thesis by (intro frontier_invI) blast+
qed

lemma closed_inv_at:
  "closed_inv cur todo st \<Longrightarrow> p \<in> finalized st \<Longrightarrow> \<exists>kp. best_g st p = Some kp \<and> optimal p kp \<and>
     (\<forall>x \<in> set (succ p). (p = cur \<and> x \<in> todo) \<or> (\<exists>k. best_g st x = Some k \<and> k \<le> kp + 1))"
  by (simp add: closed_inv_def)

lemma closed_inv_cong:
  "best_g st' = best_g st \<Longrightarrow> finalized st' = finalized st \<Longrightarrow> closed_inv cur todo st' = closed_inv cur todo st"
  by (simp add: closed_inv_def)

lemma tree_inv_cong:
  assumes "tree_inv st" "best_g st' = best_g st" "came_from st' = came_from st" "finalized st \<subseteq> finalized st'"
  shows "tree_inv st'"
  using assms(1) assms(4) unfolding tree_inv_def assms(2,3) by (meson subsetD)

lemma pop_stale:
  assumes "search_inv st" "heappop (frontier st) = Some ((key, cur), q)" "cur \<in> finalized st"
  shows "search_inv (st\<lparr>frontier := q\<rparr>)"
proof -
  have T: "tree_inv st" and F: "frontier_inv st" and C: "closed_inv start {} st"
    using assms(1) by (simp_all add: search_inv_def)
  have "frontier_inv (st\<lparr>frontier := q, finalized := finalized st, expanded := expanded st\<rparr>)"
    by (rule frontier_inv_pop [OF F heappop_set [OF assms(2)] assms(3)]) simp
  then have "frontier_inv (st\<lparr>frontier := q\<rparr>)" by simp
  moreover have "tree_inv (st\<lparr>frontier := q\<rparr>)" by (rule tree_inv_cong [OF T]) simp_all
  moreover have "closed_inv start {} (st\<lparr>frontier := q\<rparr>)" using C by (simp add: closed_inv_def)
  ultimately show ?thesis by (simp add: search_inv_def)
qed

lemma pop_expand:
  assumes "search_inv st" "heappop (frontier st) = Some ((key, cur), q)" "cur \<notin> finalized st"
  shows "expand_inv cur (set (succ cur)) (st\<lparr>frontier := q, finalized := insert cur (finalized st), expanded := n\<rparr>)"
proof -
  obtain f hv i where key: "key = (f, hv, i)" by (cases key) auto
  obtain k where k: "best_g st cur = Some k" "optimal cur k"
    using pop_optimal [OF assms(1) assms(2) [unfolded key] assms(3)] by blast
  let ?st = "st\<lparr>frontier := q, finalized := insert cur (finalized st), expanded := n\<rparr>"
  have T: "tree_inv st" and F: "frontier_inv st" and C: "closed_inv start {} st"
    using assms(1) by (simp_all add: search_inv_def)
  have "tree_inv ?st" by (rule tree_inv_cong [OF T]) auto
  moreover have "frontier_inv ?st"
    by (rule frontier_inv_pop [OF F heappop_set [OF assms(2)]]) auto
  moreover have "closed_inv cur (set (succ cur)) ?st"
    unfolding closed_inv_def using k closed_inv_at [OF C] by fastforce
  ultimately show ?thesis by (simp add: expand_inv_def)
qed

text \<open>Relaxing one successor takes it off the list; a finalized one needs nothing.\<close>

lemma walk_length_pos: "walk xs t \<Longrightarrow> 1 \<le> length xs"
  by (cases xs) (simp_all add: walk_def)

lemma optimal_le: "optimal t k \<Longrightarrow> walk xs t \<Longrightarrow> k \<le> int (length xs) - 1"
  by (simp add: optimal_def)

lemma tree_inv_cases:
  assumes "tree_inv st" "best_g st x = Some k"
  obtains "x = start" "k = 0"
  | p where "x \<noteq> start" "came_from st x = Some p" "p \<in> finalized st" "best_g st p = Some (k - 1)"
      "x \<in> set (succ p)" "0 \<le> k"
  using assms unfolding tree_inv_def by (metis option.inject)

lemma tree_walk:
  assumes "tree_inv st" "best_g st x = Some k"
  shows "\<exists>xs. walk xs x \<and> int (length xs) = k + 1"
  using assms(2)
proof (induction "nat k" arbitrary: x k rule: less_induct)
  case less
  from assms(1) less.prems show ?case
  proof (cases rule: tree_inv_cases)
    case 1
    then show ?thesis using walk_start by (intro exI [of _ "[start]"]) simp
  next
    case (2 p)
    have "0 \<le> k - 1" using assms(1) 2(4) unfolding tree_inv_def by blast
    then have "nat (k - 1) < nat k" by simp
    then obtain xs where "walk xs p" "int (length xs) = k" using less.hyps 2(4) by fastforce
    then show ?thesis using walk_snoc 2(5) by (intro exI [of _ "xs @ [x]"]) simp
  qed
qed

lemma finalized_improves:
  assumes "expand_inv cur todo st" "best_g st cur = Some g" "nb \<in> set (succ cur)" "nb \<in> finalized st"
  shows "\<exists>k. best_g st nb = Some k \<and> k \<le> g + 1"
proof -
  obtain xs where xs: "walk xs cur" "int (length xs) = g + 1"
    using tree_walk assms(1,2) unfolding expand_inv_def by blast
  obtain kn where "best_g st nb = Some kn" "optimal nb kn"
    using assms(1,4) closed_inv_at unfolding expand_inv_def by blast
  then show ?thesis using optimal_le walk_snoc [OF xs(1) assms(3)] xs(2) by fastforce
qed

lemma skip_step:
  assumes "expand_inv cur (insert nb todo) st" "best_g st cur = Some g" "nb \<in> set (succ cur)"
    and "\<exists>k. best_g st nb = Some k \<and> k \<le> g + 1"
  shows "expand_inv cur todo st"
proof -
  have C: "closed_inv cur (insert nb todo) st" using assms(1) by (simp add: expand_inv_def)
  have "\<exists>kp. best_g st p = Some kp \<and> optimal p kp \<and>
        (\<forall>x \<in> set (succ p). (p = cur \<and> x \<in> todo) \<or> (\<exists>k. best_g st x = Some k \<and> k \<le> kp + 1))"
    if "p \<in> finalized st" for p
  proof -
    obtain kp where kp: "best_g st p = Some kp" "optimal p kp"
      "\<forall>x \<in> set (succ p). (p = cur \<and> x \<in> insert nb todo) \<or> (\<exists>k. best_g st x = Some k \<and> k \<le> kp + 1)"
      using closed_inv_at [OF C \<open>p \<in> finalized st\<close>] by blast
    have "(p = cur \<and> x \<in> todo) \<or> (\<exists>k. best_g st x = Some k \<and> k \<le> kp + 1)" if "x \<in> set (succ p)" for x
    proof (cases "p = cur \<and> x = nb")
      case True
      then show ?thesis using assms(2,4) kp(1) by simp
    next
      case False
      then show ?thesis using kp(3) that by blast
    qed
    then show ?thesis using kp(1,2) by blast
  qed
  then show ?thesis using assms(1) unfolding expand_inv_def closed_inv_def by blast
qed

lemma not_improves: "\<not> improves t old \<Longrightarrow> \<exists>k. old = Some k \<and> k \<le> t"
  by (auto simp: improves_def split: option.splits)

lemma improves_less: "improves t old \<Longrightarrow> old = Some k \<Longrightarrow> t < k"
  by (simp add: improves_def)

lemma relax_tree_inv:
  assumes "tree_inv st" "improves (g + 1) (best_g st nb)" "nb \<notin> finalized st" "cur \<in> finalized st"
    and "best_g st cur = Some g" "nb \<in> set (succ cur)"
  shows "tree_inv (relax nb cur (g + 1) hv st)"
proof -
  have g: "0 \<le> g" using assms(1,5) by (simp add: tree_inv_def)
  have ns: "nb \<noteq> start" using improves_less [OF assms(2)] assms(1) g by (auto simp: tree_inv_def)
  have nc: "nb \<noteq> cur" using assms(3,4) by blast
  let ?b = "(best_g st)(nb \<mapsto> g + 1)" and ?c = "(came_from st)(nb \<mapsto> cur)"
  have "0 \<le> k \<and> (x = start \<or> (\<exists>p. ?c x = Some p \<and> p \<in> finalized st \<and> ?b p = Some (k - 1) \<and> x \<in> set (succ p)))"
    if "?b x = Some k" for x k
  proof (cases "x = nb")
    case True
    then show ?thesis using that g assms(4-6) nc by simp
  next
    case False
    then have b: "best_g st x = Some k" using that by simp
    have "0 \<le> k" using assms(1) b by (simp add: tree_inv_def)
    moreover have "x = start \<or> (\<exists>p. came_from st x = Some p \<and> p \<in> finalized st \<and> best_g st p = Some (k - 1) \<and> x \<in> set (succ p))"
      using assms(1) b by (simp add: tree_inv_def)
    moreover have "?c x = came_from st x" "\<And>p. p \<in> finalized st \<Longrightarrow> ?b p = best_g st p"
      using False assms(3) by auto
    ultimately show ?thesis by metis
  qed
  moreover have "?b start = Some 0" using assms(1) ns by (simp add: tree_inv_def)
  ultimately show ?thesis using assms(2) by (simp add: tree_inv_def relax_def)
qed

lemma relax_frontier_inv:
  assumes "frontier_inv st" "improves t (best_g st nb)"
  shows "frontier_inv (relax nb cur t (h nb) st)"
proof -
  let ?q = "((t + h nb, h nb, tie_breaker st), nb) # frontier st"
  have "hv = h x \<and> (\<exists>k. ((best_g st)(nb \<mapsto> t)) x = Some k \<and> k + h x \<le> f)"
    if "((f, hv, i), x) \<in> set ?q" for f hv i x
  proof (cases "((f, hv, i), x) \<in> set (frontier st)")
    case True
    from frontier_inv_entry [OF assms(1) this] show ?thesis
      using improves_less [OF assms(2)] by (cases "x = nb") auto
  next
    case False
    then show ?thesis using that by simp
  qed
  moreover have "\<exists>i. ((k + h x, h x, i), x) \<in> set ?q"
    if "((best_g st)(nb \<mapsto> t)) x = Some k" "x \<notin> finalized st" for x k
  proof (cases "x = nb")
    case True
    then show ?thesis using that by auto
  next
    case False
    then have "best_g st x = Some k" using that(1) by simp
    from frontier_inv_open [OF assms(1) this that(2)] show ?thesis by auto
  qed
  moreover have "frontier (relax nb cur t (h nb) st) = ?q"
    "best_g (relax nb cur t (h nb) st) = (best_g st)(nb \<mapsto> t)"
    "finalized (relax nb cur t (h nb) st) = finalized st"
    using assms(2) by (simp_all add: relax_def heappush_def)
  ultimately show ?thesis by (intro frontier_invI) blast+
qed

lemma relax_closed_inv:
  assumes "closed_inv cur (insert nb todo) st" "improves (g + 1) (best_g st nb)" "nb \<notin> finalized st"
    and "best_g st cur = Some g"
  shows "closed_inv cur todo (relax nb cur (g + 1) hv st)"
proof -
  let ?b = "(best_g st)(nb \<mapsto> g + 1)"
  have "\<exists>kp. ?b p = Some kp \<and> optimal p kp \<and>
        (\<forall>x \<in> set (succ p). (p = cur \<and> x \<in> todo) \<or> (\<exists>k. ?b x = Some k \<and> k \<le> kp + 1))"
    if "p \<in> finalized st" for p
  proof -
    obtain kp where kp: "best_g st p = Some kp" "optimal p kp"
      "\<forall>x \<in> set (succ p). (p = cur \<and> x \<in> insert nb todo) \<or> (\<exists>k. best_g st x = Some k \<and> k \<le> kp + 1)"
      using closed_inv_at [OF assms(1) \<open>p \<in> finalized st\<close>] by blast
    have "(p = cur \<and> x \<in> todo) \<or> (\<exists>k. ?b x = Some k \<and> k \<le> kp + 1)" if x: "x \<in> set (succ p)" for x
    proof (cases "x = nb")
      case True
      have "g + 1 \<le> kp + 1" if "best_g st nb = Some k" "k \<le> kp + 1" for k
        using improves_less [OF assms(2) that(1)] that(2) by simp
      moreover have "p = cur \<Longrightarrow> g = kp" using assms(4) kp(1) by simp
      ultimately show ?thesis using kp(3) x True by fastforce
    next
      case False
      then show ?thesis using kp(3) x by auto
    qed
    moreover have "p \<noteq> nb" using that assms(3) by blast
    ultimately show ?thesis using kp(1,2) by auto
  qed
  then show ?thesis using assms(2) by (simp add: closed_inv_def relax_def)
qed

lemma relax_step:
  assumes "expand_inv cur (insert nb todo) st" "best_g st cur = Some g" "nb \<in> set (succ cur)"
  shows "expand_inv cur todo (relax nb cur (g + 1) (h nb) st)"
proof (cases "improves (g + 1) (best_g st nb)")
  case False
  then have "relax nb cur (g + 1) (h nb) st = st" by (simp add: relax_def)
  then show ?thesis using skip_step [OF assms not_improves [OF False]] by simp
next
  case True
  have nf: "nb \<notin> finalized st"
  proof
    assume "nb \<in> finalized st"
    then obtain k where "best_g st nb = Some k" "k \<le> g + 1" using finalized_improves [OF assms] by blast
    then show False using improves_less [OF True] by fastforce
  qed
  have "finalized (relax nb cur (g + 1) (h nb) st) = finalized st" by (simp add: relax_def)
  then show ?thesis
    using assms relax_tree_inv relax_frontier_inv relax_closed_inv True nf
    unfolding expand_inv_def by auto
qed

lemma fold_relax:
  assumes "expand_inv cur (set nbs) st" "best_g st cur = Some g" "set nbs \<subseteq> set (succ cur)"
    and "\<And>nb st. nb \<in> set nbs \<Longrightarrow>
           f nb st = relax nb cur (g + 1) (h nb) st \<or> (nb \<in> finalized st \<and> f nb st = st)"
  shows "search_inv (fold f nbs st) \<and> finalized (fold f nbs st) = finalized st
    \<and> expanded (fold f nbs st) = expanded st"
  using assms
proof (induction nbs arbitrary: st)
  case Nil
  then show ?case using expand_inv_done by simp
next
  case (Cons nb nbs)
  have E: "expand_inv cur (insert nb (set nbs)) st" and nb: "nb \<in> set (succ cur)"
    using Cons.prems by simp_all
  have st: "expand_inv cur (set nbs) (f nb st) \<and> best_g (f nb st) cur = Some g
      \<and> finalized (f nb st) = finalized st \<and> expanded (f nb st) = expanded st"
  proof (cases "f nb st = relax nb cur (g + 1) (h nb) st")
    case True
    then show ?thesis using relax_step [OF E Cons.prems(2) nb] relax_keeps [OF Cons.prems(2)] by simp
  next
    case False
    then have "nb \<in> finalized st" "f nb st = st" using Cons.prems(4) [of nb st] by auto
    then show ?thesis
      using skip_step [OF E Cons.prems(2) nb finalized_improves [OF E Cons.prems(2) nb]] Cons.prems(2) by simp
  qed
  show ?case
    using Cons.IH [of "f nb st"] st Cons.prems(3,4) by simp
qed

text \<open>An empty frontier means that everything reachable is closed.\<close>

lemma exhausted:
  assumes "search_inv st" "frontier st = []" "walk xs t"
  shows "t \<in> finalized st"
proof (rule ccontr)
  assume "t \<notin> finalized st"
  then obtain x k where "x \<notin> finalized st" "best_g st x = Some k"
    using walk_frontier [OF assms(1,3)] by blast
  then show False using assms(1,2) frontier_inv_open unfolding search_inv_def by fastforce
qed

lemma search_inv_finalized:
  "search_inv st \<Longrightarrow> x \<in> finalized st \<Longrightarrow> \<exists>k. best_g st x = Some k \<and> optimal x k"
  using closed_inv_at unfolding search_inv_def by blast

text \<open>The walk back along \<open>came_from\<close> ends and gives a walk of the known cost.\<close>

lemma walk_back_ok:
  assumes "tree_inv st" "best_g st x = Some k"
  shows "\<exists>xs. walk (xs @ [x]) x \<and> int (length xs) = k
    \<and> (\<forall>i < length xs. best_g st (xs ! i) = Some (int i))
    \<and> walk_back (came_from st) start x acc = Some (Inr (xs @ rev acc))"
  using assms(2)
proof (induction "nat k" arbitrary: x k acc rule: less_induct)
  case less
  from assms(1) less.prems show ?case
  proof (cases rule: tree_inv_cases)
    case 1
    then show ?thesis using walk_start by (intro exI [of _ "[]"]) (simp add: walk_back.simps)
  next
    case (2 p)
    have "0 \<le> k - 1" using assms(1) 2(4) unfolding tree_inv_def by blast
    then have "nat (k - 1) < nat k" by simp
    from less.hyps [OF this 2(4), of "acc @ [p]"] obtain xs where xs:
      "walk (xs @ [p]) p" "int (length xs) = k - 1" "\<forall>i < length xs. best_g st (xs ! i) = Some (int i)"
      "walk_back (came_from st) start p (acc @ [p]) = Some (Inr (xs @ rev (acc @ [p])))" by blast
    have "walk_back (came_from st) start x acc = Some (Inr ((xs @ [p]) @ rev acc))"
      using xs(4) 2 by (simp add: walk_back.simps [of _ _ x])
    moreover have "walk ((xs @ [p]) @ [x]) x" using walk_snoc [OF xs(1) 2(5)] .
    moreover have "\<forall>i < length (xs @ [p]). best_g st ((xs @ [p]) ! i) = Some (int i)"
      using xs(2,3) 2(4) by (auto simp: nth_append less_Suc_eq)
    ultimately show ?thesis using xs(2) by (intro exI [of _ "xs @ [p]"]) simp
  qed
qed

lemma reconstruct_ok:
  assumes "tree_inv st" and k: "best_g st t = Some k" "optimal t k"
  shows "\<exists>p. reconstruct_path (came_from st) start t = Inr p \<and> walk p t \<and> distinct p
    \<and> (\<forall>xs. walk xs t \<longrightarrow> length p \<le> length xs)"
proof -
  from walk_back_ok [OF assms(1) k(1), of "[t]"] obtain xs where xs: "walk (xs @ [t]) t"
    "int (length xs) = k" "\<forall>i < length xs. best_g st (xs ! i) = Some (int i)"
    "walk_back (came_from st) start t [t] = Some (Inr (xs @ [t]))" by auto
  have "best_g st ((xs @ [t]) ! i) = Some (int i)" if "i < length (xs @ [t])" for i
    using xs(2,3) k(1) that by (cases "i = length xs") (auto simp: nth_append)
  then have "distinct (xs @ [t])"
    unfolding distinct_conv_nth by (metis of_nat_eq_iff option.inject)
  moreover have "length (xs @ [t]) \<le> length ys" if "walk ys t" for ys
    using optimal_le [OF k(2) that] xs(2) by simp
  ultimately show ?thesis using xs(1,4)
    by (intro exI [of _ "xs @ [t]"]) (auto simp: reconstruct_path_def)
qed

lemma reconstruct_reached:
  assumes "expand_inv t todo st"
  shows "\<exists>p. reconstruct_path (came_from st) start t = Inr p \<and> walk p t \<and> distinct p
    \<and> (\<forall>xs. walk xs t \<longrightarrow> length p \<le> length xs)"
proof -
  have "tree_inv st" "closed_inv t todo st" "t \<in> finalized st" using assms by (simp_all add: expand_inv_def)
  then show ?thesis using closed_inv_at reconstruct_ok by meson
qed

end

end
