(* ===== verification/Planning.thy ===== *)
theory Planning
  imports Warehouse Frontier
begin

text \<open>
  What both single-robot planners share (\<open>planning/heuristics.py\<close>,
  \<open>planning/path_result.py\<close>, \<open>planning/validation.py\<close>): the heuristics, the result type
  and its two constructors, the check of a request before the search, and the validator
  that re-checks an answer after it. Costs and heuristic values are floats holding whole
  numbers in the source; they are \<open>int\<close> here (exact below 2^53). The wall-clock field
  \<open>planning_time_ms\<close> is left out: nothing in the program decides on it.
\<close>

section \<open>Heuristics\<close>

definition manhattan_distance :: "position \<Rightarrow> position \<Rightarrow> int" where
  "manhattan_distance a b = manhattan_distance_to a b"

definition zero_heuristic :: "position \<Rightarrow> position \<Rightarrow> int" where
  "zero_heuristic a b = 0"

section \<open>The result of a planning request\<close>

text \<open>Why a request failed: one constructor per message of the planners.\<close>

datatype plan_reason = Start_Blocked position | Goal_Blocked position | No_Route position position

record path_result =
  pr_algorithm :: string
  pr_start :: position
  pr_goal :: position
  pr_success :: bool
  pr_path :: "position list"
  pr_total_cost :: "int option"
  pr_nodes_expanded :: nat
  pr_failure_reason :: "plan_reason option"

definition path_found :: "string \<Rightarrow> position \<Rightarrow> position \<Rightarrow> position list \<Rightarrow> nat \<Rightarrow> path_result" where
  "path_found algorithm start goal path nodes =
     \<lparr>pr_algorithm = algorithm, pr_start = start, pr_goal = goal, pr_success = True, pr_path = path,
      pr_total_cost = Some ((int (length path) - 1) * MOVE_COST), pr_nodes_expanded = nodes,
      pr_failure_reason = None\<rparr>"

definition path_not_found :: "string \<Rightarrow> position \<Rightarrow> position \<Rightarrow> plan_reason \<Rightarrow> nat \<Rightarrow> path_result" where
  "path_not_found algorithm start goal reason nodes =
     \<lparr>pr_algorithm = algorithm, pr_start = start, pr_goal = goal, pr_success = False, pr_path = [],
      pr_total_cost = None, pr_nodes_expanded = nodes, pr_failure_reason = Some reason\<rparr>"

definition cells_visited :: "path_result \<Rightarrow> nat" where
  "cells_visited r = length (pr_path r)"

lemma path_found_sel [simp]:
  "pr_algorithm (path_found a s g p n) = a" "pr_start (path_found a s g p n) = s"
  "pr_goal (path_found a s g p n) = g" "pr_success (path_found a s g p n)"
  "pr_path (path_found a s g p n) = p"
  "pr_total_cost (path_found a s g p n) = Some ((int (length p) - 1) * MOVE_COST)"
  "pr_nodes_expanded (path_found a s g p n) = n" "pr_failure_reason (path_found a s g p n) = None"
  by (simp_all add: path_found_def)

lemma path_not_found_sel [simp]:
  "pr_algorithm (path_not_found a s g r n) = a" "pr_start (path_not_found a s g r n) = s"
  "pr_goal (path_not_found a s g r n) = g" "\<not> pr_success (path_not_found a s g r n)"
  "pr_path (path_not_found a s g r n) = []" "pr_total_cost (path_not_found a s g r n) = None"
  "pr_nodes_expanded (path_not_found a s g r n) = n"
  "pr_failure_reason (path_not_found a s g r n) = Some r"
  by (simp_all add: path_not_found_def)

section \<open>Checking a request\<close>

definition check_planning_request ::
  "position \<Rightarrow> position \<Rightarrow> warehouse \<Rightarrow> py_error + plan_reason option" where
  "check_planning_request start goal w =
     (if \<not> in_bounds w start then Inl InvalidPositionError
      else if \<not> in_bounds w goal then Inl InvalidPositionError
      else if \<not> is_traversable w start then Inr (Some (Start_Blocked start))
      else if \<not> is_traversable w goal then Inr (Some (Goal_Blocked goal))
      else Inr None)"

lemma check_None: "check_planning_request start goal w = Inr None \<longleftrightarrow> is_traversable w start \<and> is_traversable w goal"
  using is_traversable_in_bounds by (auto simp: check_planning_request_def)

section \<open>Checking an answer\<close>

text \<open>One constructor per message of \<open>find_path_problems\<close>.\<close>

datatype path_problem =
    Unsuccessful_With_Path nat
  | Unsuccessful_With_Cost int
  | Unsuccessful_No_Reason
  | Empty_Path
  | Wrong_Start position position
  | Wrong_Goal position position
  | Cell_Outside nat position
  | Cell_Blocked nat position
  | Illegal_Move nat position position
  | Repeated_Cell
  | Wrong_Cost "int option" int

definition cell_problems :: "warehouse \<Rightarrow> position list \<Rightarrow> path_problem list" where
  "cell_problems w path = concat (map (\<lambda>(index, cell).
     if \<not> in_bounds w cell then [Cell_Outside index cell]
     else if \<not> is_traversable w cell then [Cell_Blocked index cell]
     else []) (enumerate 0 path))"

definition move_problems :: "position list \<Rightarrow> path_problem list" where
  "move_problems path = concat (map (\<lambda>index.
     if \<not> is_adjacent_to (path ! index) (path ! (index + 1))
     then [Illegal_Move index (path ! index) (path ! (index + 1))] else []) [0..<length path - 1])"

definition find_path_problems :: "path_result \<Rightarrow> warehouse \<Rightarrow> path_problem list" where
  "find_path_problems r w =
     (if \<not> pr_success r then
        (if pr_path r \<noteq> [] then [Unsuccessful_With_Path (length (pr_path r))] else []) @
        (case pr_total_cost r of Some c \<Rightarrow> [Unsuccessful_With_Cost c] | None \<Rightarrow> []) @
        (if pr_failure_reason r = None then [Unsuccessful_No_Reason] else [])
      else let path = pr_path r in
        if path = [] then [Empty_Path]
        else
          (if hd path \<noteq> pr_start r then [Wrong_Start (hd path) (pr_start r)] else []) @
          (if last path \<noteq> pr_goal r then [Wrong_Goal (last path) (pr_goal r)] else []) @
          cell_problems w path @
          move_problems path @
          (if card (set path) \<noteq> length path then [Repeated_Cell] else []) @
          (let expected_cost = (int (length path) - 1) * MOVE_COST in
           if pr_total_cost r \<noteq> Some expected_cost then [Wrong_Cost (pr_total_cost r) expected_cost] else []))"

definition is_valid_path :: "path_result \<Rightarrow> warehouse \<Rightarrow> bool" where
  "is_valid_path r w = (find_path_problems r w = [])"

definition assert_valid_path :: "path_result \<Rightarrow> warehouse \<Rightarrow> py_error + unit" where
  "assert_valid_path r w = (if find_path_problems r w \<noteq> [] then Inl PathValidationError else Inr ())"

section \<open>Routes\<close>

text \<open>The specification: a route is a sequence of adjacent traversable cells.\<close>

definition is_route :: "warehouse \<Rightarrow> position \<Rightarrow> position \<Rightarrow> position list \<Rightarrow> bool" where
  "is_route w start goal path \<longleftrightarrow> path \<noteq> [] \<and> hd path = start \<and> last path = goal \<and>
     (\<forall>c \<in> set path. is_traversable w c) \<and> successively is_adjacent_to path"

lemma cell_problems_Nil: "cell_problems w path = [] \<longleftrightarrow> (\<forall>c \<in> set path. is_traversable w c)"
proof -
  have "cell_problems w path = [] \<longleftrightarrow> (\<forall>(i, c) \<in> set (enumerate 0 path). is_traversable w c)"
    using is_traversable_in_bounds unfolding cell_problems_def concat_map_Nil by (auto split: if_splits)
  also have "\<dots> \<longleftrightarrow> (\<forall>c \<in> set path. is_traversable w c)"
    by (rule ball_enumerate)
  finally show ?thesis .
qed

lemma move_problems_Nil: "move_problems path = [] \<longleftrightarrow> successively is_adjacent_to path"
  unfolding move_problems_def concat_map_Nil successively_nth by (auto simp: less_diff_conv)

text \<open>The validator is exact: no complaint means a route with the right cost, and conversely.\<close>

lemma is_valid_path_success:
  assumes "pr_success r"
  shows "is_valid_path r w \<longleftrightarrow> is_route w (pr_start r) (pr_goal r) (pr_path r) \<and> distinct (pr_path r)
    \<and> pr_total_cost r = Some (int (length (pr_path r)) - 1)"
  using assms
  by (auto simp: is_valid_path_def find_path_problems_def is_route_def cell_problems_Nil move_problems_Nil
      Let_def MOVE_COST_def distinct_card card_distinct)

lemma is_valid_path_failure:
  assumes "\<not> pr_success r"
  shows "is_valid_path r w \<longleftrightarrow> pr_path r = [] \<and> pr_total_cost r = None \<and> pr_failure_reason r \<noteq> None"
  using assms by (auto simp: is_valid_path_def find_path_problems_def split: option.splits)

section \<open>The contract of a planner\<close>

text \<open>
  What \<open>plan(start, goal, warehouse)\<close> promises, whatever the algorithm: out-of-bounds cells
  raise, a blocked end is an unsuccessful result, otherwise the result is a shortest route
  without repetition if there is any route, and "unreachable" if there is none.
\<close>

definition plan_spec ::
  "string \<Rightarrow> warehouse \<Rightarrow> position \<Rightarrow> position \<Rightarrow> py_error + path_result \<Rightarrow> bool" where
  "plan_spec algorithm w start goal res \<longleftrightarrow>
     (if \<not> in_bounds w start \<or> \<not> in_bounds w goal then res = Inl InvalidPositionError
      else if \<not> is_traversable w start then
        res = Inr (path_not_found algorithm start goal (Start_Blocked start) 0)
      else if \<not> is_traversable w goal then
        res = Inr (path_not_found algorithm start goal (Goal_Blocked goal) 0)
      else if \<exists>path. is_route w start goal path then
        \<exists>path n. res = Inr (path_found algorithm start goal path n) \<and> is_route w start goal path \<and>
          distinct path \<and> (\<forall>other. is_route w start goal other \<longrightarrow> length path \<le> length other)
      else \<exists>n. res = Inr (path_not_found algorithm start goal (No_Route start goal) n))"

lemma is_route_ends: "is_route w a b p \<Longrightarrow> is_traversable w a \<and> is_traversable w b"
  by (auto simp: is_route_def)

lemma plan_spec_route:
  assumes "plan_spec algorithm w start goal res" "is_route w start goal path"
  obtains p n where "res = Inr (path_found algorithm start goal p n)" "is_route w start goal p" "distinct p"
    "\<And>other. is_route w start goal other \<Longrightarrow> length p \<le> length other"
  using assms is_route_ends [OF assms(2)] is_traversable_in_bounds
  by (auto simp: plan_spec_def split: if_splits)

lemma plan_spec_valid:
  assumes "plan_spec alg w start goal (Inr r)"
  shows "is_valid_path r w"
  using assms
  by (auto simp: plan_spec_def is_valid_path_success is_valid_path_failure MOVE_COST_def split: if_splits)

lemma plan_spec_returns:
  assumes "plan_spec alg w start goal res" "in_bounds w start" "in_bounds w goal"
  shows "\<exists>r. res = Inr r \<and> (pr_success r \<longleftrightarrow> (\<exists>path. is_route w start goal path))"
  using assms is_route_ends [of w start goal]
  by (auto simp: plan_spec_def split: if_splits)

lemma plan_spec_shortest:
  assumes "plan_spec alg w start goal (Inr r)" "is_route w start goal path"
  shows "pr_success r \<and> length (pr_path r) \<le> length path"
  using assms is_route_ends [OF assms(2)] is_traversable_in_bounds
  by (auto simp: plan_spec_def split: if_splits)

end
