(* ===== verification/Astar.thy ===== *)
theory Astar
  imports Planning
begin

text \<open>
  The A* planner of \<open>planning/astar.py\<close>. \<open>astar_loop\<close> is the \<open>while frontier\<close> loop; it is
  total, because each turn either drops a stale entry or closes one more cell of the
  warehouse. The locale \<open>grid_search\<close> instantiates the search invariant for the cells of a
  warehouse under any consistent heuristic, and is interpreted for the two heuristics of
  the program.
\<close>

section \<open>The planner\<close>

definition astar_relax ::
  "(position \<Rightarrow> position \<Rightarrow> int) \<Rightarrow> position \<Rightarrow> position \<Rightarrow> int \<Rightarrow> position \<Rightarrow> position search \<Rightarrow> position search" where
  "astar_relax heuristic goal current current_cost neighbour st =
     (if neighbour \<in> finalized st then st
      else relax neighbour current (current_cost + MOVE_COST) (heuristic neighbour goal) st)"

lemma res_bind_cong [fundef_cong]:
  "r = r' \<Longrightarrow> (\<And>v. r' = Inr v \<Longrightarrow> f v = f' v) \<Longrightarrow> res_bind r f = res_bind r' f'"
  by (cases r') auto

lemma fold_astar_relax_finalized [simp]:
  "finalized (fold (astar_relax heuristic goal current c) ns st) = finalized st"
  by (induction ns arbitrary: st) (simp_all add: astar_relax_def)

definition open_cells :: "warehouse \<Rightarrow> position set \<Rightarrow> nat" where
  "open_cells w D = card ({p. in_bounds w p} - D)"

lemma open_cells_less:
  assumes "neighbors w p = Inr ns" "p \<notin> D"
  shows "open_cells w (insert p D) < open_cells w D"
proof -
  have "p \<in> {p. in_bounds w p} - D" using assms neighbors_Inr_in_bounds by simp
  moreover have "{p. in_bounds w p} - insert p D = {p. in_bounds w p} - D - {p}" by auto
  ultimately show ?thesis unfolding open_cells_def
    by (metis card_Diff1_less finite_Diff finite_in_bounds)
qed

text \<open>The order that every turn of a grid search goes down in.\<close>

definition turn_order :: "warehouse \<Rightarrow> (position set \<times> nat) rel" where
  "turn_order w = inv_image (less_than <*lex*> less_than) (\<lambda>(D, n). (open_cells w D, n))"

lemma wf_turn_order [simp]: "wf (turn_order w)"
  by (simp add: turn_order_def wf_lex_prod)

lemma turn_order_pop [simp]: "((D, n), (D, m)) \<in> turn_order w \<longleftrightarrow> n < m"
  by (simp add: turn_order_def)

lemma turn_order_close:
  "neighbors w p = Inr ns \<Longrightarrow> p \<notin> D \<Longrightarrow> ((insert p D, n), (D, m)) \<in> turn_order w"
  by (simp add: turn_order_def open_cells_less)

function astar_loop ::
  "(position \<Rightarrow> position \<Rightarrow> int) \<Rightarrow> position \<Rightarrow> position \<Rightarrow> warehouse \<Rightarrow> position search \<Rightarrow> py_error + path_result" where
  "astar_loop heuristic start goal w st =
     (case heappop (frontier st) of
        None \<Rightarrow> Inr (path_not_found ''astar'' start goal (No_Route start goal) (expanded st))
      | Some ((key, current), rest) \<Rightarrow>
          if current \<in> finalized st then astar_loop heuristic start goal w (st\<lparr>frontier := rest\<rparr>)
          else
            let st1 = st\<lparr>frontier := rest, finalized := insert current (finalized st),
                         expanded := expanded st + 1\<rparr> in
            if current = goal then
              res_bind (reconstruct_path (came_from st1) start goal) (\<lambda>path.
                Inr (path_found ''astar'' start goal path (expanded st1)))
            else case best_g st1 current of
              None \<Rightarrow> Inl KeyError
            | Some current_cost \<Rightarrow>
                res_bind (neighbors w current) (\<lambda>ns.
                  astar_loop heuristic start goal w
                    (fold (astar_relax heuristic goal current current_cost) ns st1)))"
  by pat_completeness auto

termination
proof (relation "inv_image (less_than <*lex*> less_than)
    (\<lambda>(heuristic, start, goal, w, st). (open_cells w (finalized st), length (frontier st)))")
qed (auto simp: open_cells_less dest: heappop_length)

declare astar_loop.simps [simp del]

definition astar_plan ::
  "position \<Rightarrow> position \<Rightarrow> warehouse \<Rightarrow> (position \<Rightarrow> position \<Rightarrow> int) \<Rightarrow> py_error + path_result" where
  "astar_plan start goal w heuristic =
     res_bind (check_planning_request start goal w) (\<lambda>rejection.
       case rejection of
         Some reason \<Rightarrow> Inr (path_not_found ''astar'' start goal reason 0)
       | None \<Rightarrow>
           if start = goal then Inr (path_found ''astar'' start goal [start] 0)
           else astar_loop heuristic start goal w (search_init start (heuristic start goal)))"

section \<open>The search over the cells of a warehouse\<close>

definition grid_succ :: "warehouse \<Rightarrow> position \<Rightarrow> position list" where
  "grid_succ w p = (case neighbors w p of Inl e \<Rightarrow> [] | Inr ns \<Rightarrow> ns)"

lemma set_grid_succ: "set (grid_succ w p) = {q. in_bounds w p \<and> is_adjacent_to p q \<and> is_traversable w q}"
proof (cases "neighbors w p")
  case (Inl e)
  then show ?thesis using neighbors_Inl [of w p e] by (simp add: grid_succ_def)
next
  case (Inr ns)
  then show ?thesis using neighbors_Inr_in_bounds [OF Inr] set_neighbors [OF Inr] by (simp add: grid_succ_def)
qed

locale grid_search =
  fixes heuristic :: "position \<Rightarrow> position \<Rightarrow> int" and w :: warehouse and start goal :: position
  assumes heuristic_consistent: "is_adjacent_to a b \<Longrightarrow> heuristic a goal \<le> 1 + heuristic b goal"

sublocale grid_search \<subseteq> state_graph "grid_succ w" "\<lambda>p. heuristic p goal" start
  by unfold_locales (simp add: set_grid_succ heuristic_consistent)

context grid_search
begin

lemma walk_route:
  assumes "is_traversable w start"
  shows "walk xs t \<longleftrightarrow> is_route w start t xs"
proof
  assume W: "walk xs t"
  then have "successively (\<lambda>a b. is_adjacent_to a b \<and> is_traversable w b) xs"
    by (auto simp: walk_def set_grid_succ elim: successively_mono)
  moreover have "is_traversable w (xs ! i)" if "i < length xs" for i
    using that W assms calculation
    by (cases i) (auto simp: walk_def hd_conv_nth successively_nth)
  ultimately show "is_route w start t xs"
    using W by (auto simp: is_route_def walk_def in_set_conv_nth successively_nth)
next
  assume R: "is_route w start t xs"
  then show "walk xs t"
    using is_traversable_in_bounds by (auto simp: is_route_def walk_def set_grid_succ successively_nth)
qed

definition plan_ok :: "py_error + path_result \<Rightarrow> bool" where
  "plan_ok r \<longleftrightarrow>
     (\<exists>p n. r = Inr (path_found ''astar'' start goal p n) \<and> walk p goal \<and> distinct p
        \<and> (\<forall>xs. walk xs goal \<longrightarrow> length p \<le> length xs)) \<or>
     (\<exists>n. r = Inr (path_not_found ''astar'' start goal (No_Route start goal) n) \<and> (\<nexists>xs. walk xs goal))"

lemma fold_search_inv:
  assumes "expand_inv cur (set (grid_succ w cur)) st" "best_g st cur = Some g" "neighbors w cur = Inr ns"
  shows "search_inv (fold (astar_relax heuristic goal cur g) ns st)"
proof -
  have "grid_succ w cur = ns" using assms(3) by (simp add: grid_succ_def)
  then show ?thesis using assms(1,2)
    by (intro fold_relax [THEN conjunct1]) (auto simp: astar_relax_def MOVE_COST_def)
qed

lemma known_traversable:
  "tree_inv st \<Longrightarrow> best_g st x = Some k \<Longrightarrow> is_traversable w start \<Longrightarrow> is_traversable w x"
  by (erule (1) tree_inv_cases) (simp_all add: set_grid_succ)

lemma loop_ok:
  assumes "search_inv st" "goal \<notin> finalized st" "is_traversable w start"
  shows "plan_ok (astar_loop heuristic start goal w st)"
  using assms
proof (induction "(finalized st, length (frontier st))" arbitrary: st rule: wf_induct_rule [OF wf_turn_order [of w]])
  case (1 st)
  show ?case
  proof (cases "heappop (frontier st)")
    case None
    then have "\<nexists>xs. walk xs goal" using exhausted 1 heappop_None by blast
    then show ?thesis using None by (auto simp: astar_loop.simps [of _ _ _ _ st] plan_ok_def)
  next
    case (Some r)
    obtain key cur q where r: "r = ((key, cur), q)" by (cases r) auto
    note pop = Some [unfolded r]
    show ?thesis
    proof (cases "cur \<in> finalized st")
      case True
      let ?st = "st\<lparr>frontier := q\<rparr>"
      have "((finalized ?st, length (frontier ?st)), (finalized st, length (frontier st))) \<in> turn_order w"
        using heappop_length [OF pop] by simp
      from 1(1) [OF this] 1 pop_stale [OF 1(2) pop True]
      have "plan_ok (astar_loop heuristic start goal w ?st)" by simp
      then show ?thesis using pop True by (simp add: astar_loop.simps [of _ _ _ _ st])
    next
      case False
      let ?st = "st\<lparr>frontier := q, finalized := insert cur (finalized st), expanded := expanded st + 1\<rparr>"
      have E: "expand_inv cur (set (grid_succ w cur)) ?st" by (rule pop_expand [OF 1(2) pop False])
      then obtain g where g: "best_g ?st cur = Some g"
        using closed_inv_at unfolding expand_inv_def by blast
      show ?thesis
      proof (cases "cur = goal")
        case True
        obtain p where p: "reconstruct_path (came_from ?st) start goal = Inr p" "walk p goal" "distinct p"
          "\<forall>xs. walk xs goal \<longrightarrow> length p \<le> length xs"
          using reconstruct_reached [OF E] True by blast
        then show ?thesis using pop False True
          by (auto simp: astar_loop.simps [of _ _ _ _ st] plan_ok_def Let_def)
      next
        case ng: False
        have "is_traversable w cur" using E g 1(4) known_traversable unfolding expand_inv_def by blast
        then obtain ns where ns: "neighbors w cur = Inr ns" using neighbors_ex is_traversable_in_bounds by blast
        let ?st' = "fold (astar_relax heuristic goal cur g) ns ?st"
        have "((finalized ?st', length (frontier ?st')), (finalized st, length (frontier st))) \<in> turn_order w"
          using turn_order_close [OF ns False] by simp
        from 1(1) [OF this fold_search_inv [OF E g ns]] 1(3,4) ng
        have "plan_ok (astar_loop heuristic start goal w ?st')" by simp
        then show ?thesis using pop False ng ns g by (simp add: astar_loop.simps [of _ _ _ _ st])
      qed
    qed
  qed
qed

lemma plan_correct:
  assumes "is_traversable w start" "is_traversable w goal"
  shows "plan_ok (astar_plan start goal w heuristic)"
proof (cases "start = goal")
  case True
  have "walk [start] goal" using walk_start True by simp
  then have "plan_ok (Inr (path_found ''astar'' start goal [start] 0))"
    unfolding plan_ok_def using walk_length_pos
    by (intro disjI1 exI [of _ "[start]"] exI [of _ 0]) auto
  moreover have "astar_plan start goal w heuristic = Inr (path_found ''astar'' start goal [start] 0)"
    using assms check_None [of start goal w] True by (simp add: astar_plan_def)
  ultimately show ?thesis by simp
next
  case False
  have "goal \<notin> finalized (search_init start (heuristic start goal))" by (simp add: search_init_def)
  from loop_ok [OF search_inv_init this assms(1)] show ?thesis
    using assms check_None [of start goal w] False by (simp add: astar_plan_def)
qed

lemma plan_refines: "plan_spec ''astar'' w start goal (astar_plan start goal w heuristic)"
proof (cases "is_traversable w start \<and> is_traversable w goal")
  case True
  then show ?thesis
    using plan_correct is_traversable_in_bounds walk_route [where t = goal]
    by (auto simp: plan_spec_def plan_ok_def)
next
  case False
  then show ?thesis
    by (auto simp: plan_spec_def astar_plan_def check_planning_request_def)
qed

end

interpretation manhattan_search: grid_search manhattan_distance w start goal for w start goal
  by unfold_locales (simp add: manhattan_distance_def manhattan_adjacent)

interpretation zero_search: grid_search zero_heuristic w start goal for w start goal
  by unfold_locales (simp add: zero_heuristic_def)

end
