(* ===== verification/Fixtures.thy ===== *)
theory Fixtures
  imports Warehouse
begin

text \<open>
  Concrete warehouses for the witnesses: a two by two floor, and a floor of two rows and
  three columns with a rack in the middle of the first row.
\<close>

definition floor22 :: warehouse where
  "floor22 = \<lparr>warehouse_name = ''floor'', warehouse_grid = \<lparr>grid_width = 2, grid_height = 2, grid_blocked = {}\<rparr>,
     locations = [], static_registry = [], dynamic_registry = []\<rparr>"

definition rack_floor :: warehouse where
  "rack_floor = \<lparr>warehouse_name = ''racks'',
     warehouse_grid = \<lparr>grid_width = 3, grid_height = 2, grid_blocked = {Position 0 1}\<rparr>,
     locations = [(Position 1 2, CHARGING)],
     static_registry = [(''rack1'', \<lparr>obstacle_id = ''rack1'', obstacle_position = Position 0 1,
       obstacle_type = STATIC, obstacle_description = []\<rparr>)],
     dynamic_registry = []\<rparr>"

lemma floor22_init: "warehouse_init 2 2 ''floor'' = Inr floor22"
  by code_simp

lemma rack_floor_built:
  "res_bind (warehouse_init 3 2 ''racks'') (\<lambda>w.
     res_bind (mark_location (Position 1 2) CHARGING w) (\<lambda>w.
       map_sum id snd (add_static_obstacle ''rack1'' (Position 0 1) [] w))) = Inr rack_floor"
  by code_simp

end
