(* ===== verification/Space_Time.thy ===== *)
theory Space_Time
  imports Reservation Astar Fixtures
begin

text \<open>
  Space-time A* (\<open>coordination/space_time_planner.py\<close>): best-first search over (cell,
  timestep) states around a reservation table. The table is threaded through the search,
  because every lookup counts itself. The loop is total: a state before the horizon is
  closed once, and states at the horizon are never expanded.
\<close>

section \<open>The planner\<close>

type_synonym st_state = "position \<times> int"

fun hold_scan :: "position \<Rightarrow> string \<Rightarrow> int \<Rightarrow> int list \<Rightarrow> reservation_table \<Rightarrow> int \<times> reservation_table" where
  "hold_scan goal robot_id start_time [] rt = (start_time, rt)"
| "hold_scan goal robot_id start_time (t # ts) rt =
     (let (reserver, rt') = vertex_reserver goal t rt in
      if reserver \<noteq> None \<and> reserver \<noteq> Some robot_id then (t + 1, rt')
      else hold_scan goal robot_id start_time ts rt')"

definition earliest_goal_hold ::
  "position \<Rightarrow> reservation_table \<Rightarrow> string \<Rightarrow> int \<Rightarrow> int \<Rightarrow> int \<times> reservation_table" where
  "earliest_goal_hold goal rt robot_id start_time horizon =
     hold_scan goal robot_id start_time (rev [start_time..horizon]) rt"

definition try_wait ::
  "warehouse \<Rightarrow> string \<Rightarrow> position \<Rightarrow> int \<Rightarrow> int \<Rightarrow> int \<Rightarrow>
     st_state search \<times> reservation_table \<Rightarrow> st_state search \<times> reservation_table" where
  "try_wait w robot_id cell t g_next h_value srt =
     (let (vfree, rt) = is_vertex_free cell (t + 1) (Some robot_id) (snd srt) in
      if vfree \<and> is_traversable w cell
      then (relax (cell, t + 1) (cell, t) g_next h_value (fst srt), rt)
      else (fst srt, rt))"

definition try_move ::
  "(position \<Rightarrow> position \<Rightarrow> int) \<Rightarrow> position \<Rightarrow> string \<Rightarrow> position \<Rightarrow> int \<Rightarrow> int \<Rightarrow> position \<Rightarrow>
     st_state search \<times> reservation_table \<Rightarrow> st_state search \<times> reservation_table" where
  "try_move heuristic goal robot_id cell t g_next nb srt =
     (let (allowed, rt) = is_move_allowed cell nb t robot_id (snd srt) in
      if allowed then (relax (nb, t + 1) (cell, t) g_next (heuristic nb goal) (fst srt), rt)
      else (fst srt, rt))"

definition st_expand ::
  "(position \<Rightarrow> position \<Rightarrow> int) \<Rightarrow> warehouse \<Rightarrow> position \<Rightarrow> string \<Rightarrow> position \<Rightarrow> int \<Rightarrow> int \<Rightarrow>
     position list \<Rightarrow> st_state search \<times> reservation_table \<Rightarrow> st_state search \<times> reservation_table" where
  "st_expand heuristic w goal robot_id cell t g_next nbs srt =
     fold (try_move heuristic goal robot_id cell t g_next) nbs
       (try_wait w robot_id cell t g_next (heuristic cell goal) srt)"

definition st_reconstruct ::
  "(st_state \<rightharpoonup> st_state) \<Rightarrow> st_state \<Rightarrow> st_state \<Rightarrow> string \<Rightarrow> py_error + timed_path" where
  "st_reconstruct pred start_state goal_state robot_id =
     res_bind (reconstruct_path pred start_state goal_state) (\<lambda>chain.
       Inr (tp_found robot_id (map (\<lambda>(cell, t). TimedStep cell t) chain)))"

section \<open>Termination\<close>

text \<open>
  The states that can still be expanded: inside, before the horizon, not closed, and not
  earlier than the earliest entry of the frontier.
\<close>

definition frontier_from :: "int \<Rightarrow> st_state search \<Rightarrow> int" where
  "frontier_from horizon st = Min (insert horizon (set (map (\<lambda>e. snd (snd e)) (frontier st))))"

definition st_open :: "warehouse \<Rightarrow> int \<Rightarrow> st_state search \<Rightarrow> (position \<times> int) set" where
  "st_open w horizon st =
     ({p. in_bounds w p} \<times> {frontier_from horizon st..<horizon}) - finalized st"

lemma finite_st_open [simp]: "finite (st_open w horizon st)"
  by (simp add: st_open_def)

lemma frontier_from_mono:
  assumes "\<And>e. e \<in> set (frontier st') \<Longrightarrow> e \<in> set (frontier st) \<or> frontier_from horizon st \<le> snd (snd e)"
  shows "frontier_from horizon st \<le> frontier_from horizon st'"
proof -
  have "frontier_from horizon st \<le> x" if x: "x \<in> insert horizon (set (map (\<lambda>e. snd (snd e)) (frontier st')))" for x
  proof (cases "x = horizon")
    case True
    then show ?thesis by (simp add: frontier_from_def)
  next
    case False
    then obtain e where e: "e \<in> set (frontier st')" "x = snd (snd e)" using x by auto
    then show ?thesis using assms [of e] by (auto simp: frontier_from_def)
  qed
  then show ?thesis unfolding frontier_from_def [of _ st'] by (subst Min_ge_iff) auto
qed

lemma frontier_from_le: "e \<in> set (frontier st) \<Longrightarrow> frontier_from horizon st \<le> snd (snd e)"
  by (simp add: frontier_from_def)

lemma st_open_mono:
  assumes "frontier_from horizon st \<le> frontier_from horizon st'" "finalized st \<subseteq> finalized st'"
  shows "card (st_open w horizon st') \<le> card (st_open w horizon st)"
  using assms by (intro card_mono) (auto simp: st_open_def)

lemma st_open_less:
  assumes "frontier_from horizon st \<le> frontier_from horizon st'" "finalized st \<subseteq> finalized st'"
    and "x \<in> st_open w horizon st" "x \<in> finalized st'"
  shows "card (st_open w horizon st') < card (st_open w horizon st)"
  using assms by (intro psubset_card_mono psubsetI) (auto simp: st_open_def)

text \<open>An expansion only adds entries of the next timestep, and leaves the closed set alone.\<close>

definition next_entries :: "int \<Rightarrow> st_state search \<Rightarrow> st_state search \<Rightarrow> bool" where
  "next_entries t st st' \<longleftrightarrow> finalized st' = finalized st \<and>
     (\<forall>e \<in> set (frontier st'). e \<in> set (frontier st) \<or> snd (snd e) = t + 1)"

lemma next_entries_refl: "next_entries t st st"
  by (simp add: next_entries_def)

lemma next_entries_trans: "next_entries t a b \<Longrightarrow> next_entries t b c \<Longrightarrow> next_entries t a c"
  unfolding next_entries_def by metis

lemma next_entries_relax: "next_entries t st (relax (c, t + 1) cur g hv st)"
  by (simp add: next_entries_def relax_def heappush_def)

lemma next_entries_wait: "next_entries t (fst srt) (fst (try_wait w r c t g hv srt))"
  by (simp add: try_wait_def next_entries_relax next_entries_refl split: prod.splits)

lemma next_entries_move: "next_entries t (fst srt) (fst (try_move heuristic goal r c t g nb srt))"
  by (simp add: try_move_def next_entries_relax next_entries_refl split: prod.splits)

lemma next_entries_moves: "next_entries t (fst srt) (fst (fold (try_move heuristic goal r c t g) nbs srt))"
proof (induction nbs arbitrary: srt)
  case Nil
  then show ?case by (simp add: next_entries_refl)
next
  case (Cons nb nbs)
  show ?case using next_entries_trans [OF next_entries_move Cons.IH] by simp
qed

lemma next_entries_expand: "next_entries t (fst srt) (fst (st_expand heuristic w goal r c t g nbs srt))"
  unfolding st_expand_def by (rule next_entries_trans [OF next_entries_wait next_entries_moves])

text \<open>The order that every turn of the loop goes down in.\<close>

definition st_size :: "warehouse \<Rightarrow> int \<Rightarrow> st_state search \<Rightarrow> nat \<times> nat" where
  "st_size w horizon st = (card (st_open w horizon st), length (frontier st))"

abbreviation st_less :: "warehouse \<Rightarrow> int \<Rightarrow> st_state search \<Rightarrow> st_state search \<Rightarrow> bool" where
  "st_less w horizon st' st \<equiv> (st_size w horizon st', st_size w horizon st) \<in> less_than <*lex*> less_than"

lemma st_less_pop:
  assumes "heappop (frontier st) = Some (e, frontier st')" "finalized st \<subseteq> finalized st'"
  shows "st_less w horizon st' st"
proof -
  have "frontier_from horizon st \<le> frontier_from horizon st'"
    using heappop_set [OF assms(1)] by (intro frontier_from_mono) auto
  then have "card (st_open w horizon st') \<le> card (st_open w horizon st)"
    using assms(2) by (rule st_open_mono)
  then have "card (st_open w horizon st') < card (st_open w horizon st) \<or>
      card (st_open w horizon st') = card (st_open w horizon st)" by (simp add: le_less)
  then show ?thesis using heappop_length [OF assms(1)]
    unfolding st_size_def in_lex_prod less_than_iff by linarith
qed

lemma st_less_expand:
  assumes pop: "heappop (frontier st) = Some ((key, (c, t)), frontier st1)"
    and st1: "finalized st1 = insert (c, t) (finalized st)" "(c, t) \<notin> finalized st"
    and t: "t < horizon" "in_bounds w c" and nx: "next_entries t st1 st2"
  shows "st_less w horizon st2 st"
proof -
  have m: "frontier_from horizon st \<le> t"
    using frontier_from_le [of "(key, (c, t))" st horizon] heappop_set [OF pop] by simp
  have "frontier_from horizon st \<le> frontier_from horizon st2"
  proof (rule frontier_from_mono)
    fix e assume "e \<in> set (frontier st2)"
    then consider "e \<in> set (frontier st1)" | "snd (snd e) = t + 1" using nx unfolding next_entries_def by blast
    then show "e \<in> set (frontier st) \<or> frontier_from horizon st \<le> snd (snd e)"
    proof cases
      case 1
      then show ?thesis using heappop_set [OF pop] by blast
    next
      case 2
      then show ?thesis using m by linarith
    qed
  qed
  moreover have "(c, t) \<in> st_open w horizon st" using m t st1(2) by (simp add: st_open_def)
  ultimately have "card (st_open w horizon st2) < card (st_open w horizon st)"
    using nx st1(1) by (intro st_open_less) (auto simp: next_entries_def)
  then show ?thesis unfolding st_size_def in_lex_prod less_than_iff by blast
qed

function st_loop ::
  "(position \<Rightarrow> position \<Rightarrow> int) \<Rightarrow> warehouse \<Rightarrow> position \<Rightarrow> position \<Rightarrow> string \<Rightarrow> int \<Rightarrow> int \<Rightarrow> int \<Rightarrow>
     st_state search \<Rightarrow> reservation_table \<Rightarrow> py_error + timed_path \<times> reservation_table" where
  "st_loop heuristic w start goal robot_id start_time horizon earliest_hold st rt =
     (case heappop (frontier st) of
        None \<Rightarrow> Inr (tp_failed robot_id Horizon_Exceeded, rt)
      | Some ((key, (cell, t)), rest) \<Rightarrow>
          if (cell, t) \<in> finalized st then
            st_loop heuristic w start goal robot_id start_time horizon earliest_hold (st\<lparr>frontier := rest\<rparr>) rt
          else
            let st1 = st\<lparr>frontier := rest, finalized := insert (cell, t) (finalized st),
                         expanded := expanded st + 1\<rparr> in
            if cell = goal \<and> earliest_hold \<le> t then
              res_bind (st_reconstruct (came_from st1) (start, start_time) (cell, t) robot_id) (\<lambda>tp. Inr (tp, rt))
            else if horizon \<le> t then
              st_loop heuristic w start goal robot_id start_time horizon earliest_hold st1 rt
            else
              res_bind (neighbors w cell) (\<lambda>nbs.
                let (st2, rt2) = st_expand heuristic w goal robot_id cell t (t + 1 - start_time) nbs (st1, rt) in
                st_loop heuristic w start goal robot_id start_time horizon earliest_hold st2 rt2))"
  by pat_completeness auto

termination
proof (relation "inv_image (less_than <*lex*> less_than)
    (\<lambda>(heuristic, w, start, goal, robot_id, start_time, horizon, earliest_hold, st, rt). st_size w horizon st)", goal_cases)
  case 1
  show ?case by (auto intro!: wf_inv_image wf_lex_prod)
next
  case (2 heuristic w start goal robot_id start_time horizon earliest_hold st rt x2 x y key ya cell t)
  then have "heappop (frontier st) = Some ((key, cell, t), frontier (st\<lparr>frontier := y\<rparr>))" by simp
  from st_less_pop [OF this, of w horizon] show ?case unfolding in_inv_image prod.case by simp
next
  case (3 heuristic w start goal robot_id start_time horizon earliest_hold st rt x2 x y key ya cell t st1)
  then have "heappop (frontier st) = Some ((key, cell, t), frontier st1)" "finalized st \<subseteq> finalized st1" by auto
  from st_less_pop [OF this, of w horizon] show ?case unfolding in_inv_image prod.case .
next
  case prems: (4 heuristic w start goal robot_id start_time horizon earliest_hold st rt x2 x y key ya cell t st1 nbs x2a st2 rt2)
  then have "heappop (frontier st) = Some ((key, cell, t), frontier st1)"
    "finalized st1 = insert (cell, t) (finalized st)" "(cell, t) \<notin> finalized st" "t < horizon" by auto
  moreover have "in_bounds w cell" using prems neighbors_Inr_in_bounds by blast
  moreover have "next_entries t st1 st2"
    using next_entries_expand [of t "(st1, rt)"] prems by (metis fst_conv)
  ultimately show ?case using st_less_expand unfolding in_inv_image prod.case by blast
qed

declare st_loop.simps [simp del]

definition st_search ::
  "(position \<Rightarrow> position \<Rightarrow> int) \<Rightarrow> warehouse \<Rightarrow> position \<Rightarrow> position \<Rightarrow> reservation_table \<Rightarrow> string \<Rightarrow>
     int \<Rightarrow> int \<Rightarrow> int \<Rightarrow> py_error + timed_path \<times> reservation_table" where
  "st_search heuristic w start goal rt robot_id start_time horizon earliest_hold =
     st_loop heuristic w start goal robot_id start_time horizon earliest_hold
       (search_init (start, start_time) (heuristic start goal)) rt"

definition st_plan ::
  "(position \<Rightarrow> position \<Rightarrow> int) \<Rightarrow> warehouse \<Rightarrow> position \<Rightarrow> position \<Rightarrow> reservation_table \<Rightarrow> string \<Rightarrow>
     int \<Rightarrow> int option \<Rightarrow> py_error + timed_path \<times> reservation_table" where
  "st_plan heuristic w start goal rt robot_id start_time horizon_opt =
     (let horizon = (case horizon_opt of None \<Rightarrow> 4 * (wh_width w + wh_height w) | Some h \<Rightarrow> h) in
      if \<not> in_bounds w start then Inr (tp_failed robot_id Start_OOB, rt)
      else if \<not> in_bounds w goal then Inr (tp_failed robot_id Goal_OOB, rt)
      else if \<not> is_traversable w start then Inr (tp_failed robot_id Start_Is_Blocked, rt)
      else if \<not> is_traversable w goal then Inr (tp_failed robot_id Goal_Is_Blocked, rt)
      else
        let (start_free, rt1) = is_vertex_free start start_time (Some robot_id) rt in
        if \<not> start_free then Inr (tp_failed robot_id Start_Reserved, rt1)
        else
          res_bind (astar_plan start goal w manhattan_distance) (\<lambda>spatial.
            if \<not> pr_success spatial then Inr (tp_failed robot_id Spatially_Unreachable, rt1)
            else
              let (earliest_hold, rt2) = earliest_goal_hold goal rt1 robot_id start_time horizon in
              if horizon < earliest_hold then Inr (tp_failed robot_id Goal_Held, rt2)
              else st_search heuristic w start goal rt2 robot_id start_time horizon earliest_hold))"

section \<open>Timed routes\<close>

text \<open>One timestep that the robot may take, given the reservations of the others.\<close>

definition st_step_ok :: "warehouse \<Rightarrow> reservation_table \<Rightarrow> string \<Rightarrow> st_state \<Rightarrow> st_state \<Rightarrow> bool" where
  "st_step_ok w rt r x y \<longleftrightarrow> snd y = snd x + 1 \<and> is_traversable w (fst y) \<and>
     (fst x = fst y \<or> is_adjacent_to (fst x) (fst y) \<and> edge_free rt r (fst y) (fst x) (snd x)) \<and>
     vertex_free rt r (fst y) (snd y)"

text \<open>
  A feasible schedule: it starts where and when the robot is, takes allowed steps, arrives
  within the horizon and can then stay on the goal until the horizon.
\<close>

definition timed_route ::
  "warehouse \<Rightarrow> reservation_table \<Rightarrow> string \<Rightarrow> int \<Rightarrow> position \<Rightarrow> int \<Rightarrow> position \<Rightarrow> st_state list \<Rightarrow> bool" where
  "timed_route w rt r horizon start s goal xs \<longleftrightarrow> xs \<noteq> [] \<and> hd xs = (start, s) \<and>
     is_traversable w start \<and> vertex_free rt r start s \<and> successively (st_step_ok w rt r) xs \<and>
     fst (last xs) = goal \<and> snd (last xs) \<le> horizon \<and>
     (\<forall>t. snd (last xs) \<le> t \<longrightarrow> t \<le> horizon \<longrightarrow> vertex_free rt r goal t)"

text \<open>The scan for the earliest time from which the goal stays free.\<close>

lemma hold_scan_same: "same_claims rt (snd (hold_scan goal r s ts rt))"
proof (induction ts arbitrary: rt)
  case (Cons t ts)
  have "same_claims rt (snd (vertex_reserver goal t rt))"
    by (simp add: vertex_reserver_def same_claims_def Let_def)
  then show ?case using Cons.IH [of "snd (vertex_reserver goal t rt)"] same_claims_trans
    by (auto simp: split_def Let_def)
qed simp

lemma hold_scan_down:
  shows "s \<le> fst (hold_scan goal r s (rev [s..n]) rt) \<and>
    (\<forall>T. s \<le> T \<longrightarrow> (fst (hold_scan goal r s (rev [s..n]) rt) \<le> T \<longleftrightarrow> (\<forall>t. T \<le> t \<longrightarrow> t \<le> n \<longrightarrow> vertex_free rt r goal t)))"
proof (induction "nat (n + 1 - s)" arbitrary: n rt)
  case 0
  then have "[s..n] = []" by simp
  then show ?case using 0 by auto
next
  case (Suc k)
  then have sn: "s \<le> n" by linarith
  have up: "rev [s..n] = n # rev [s..n - 1]" using upto_rec2 [OF sn] by simp
  define rt' where "rt' = snd (vertex_reserver goal n rt)"
  have same: "same_claims rt rt'" and fst_eq: "fst (vertex_reserver goal n rt) = dict_get (vertices rt) (goal, n)"
    by (simp_all add: rt'_def vertex_reserver_def same_claims_def Let_def)
  show ?case
  proof (cases "vertex_free rt r goal n")
    case False
    then have "fst (hold_scan goal r s (rev [s..n]) rt) = n + 1"
      using fst_eq by (auto simp: up vertex_free_def split_def Let_def)
    moreover have "(n + 1 \<le> T) = (\<forall>t. T \<le> t \<longrightarrow> t \<le> n \<longrightarrow> vertex_free rt r goal t)" for T
      using False by (cases "T \<le> n") auto
    ultimately show ?thesis using sn by simp
  next
    case True
    then have e: "hold_scan goal r s (rev [s..n]) rt = hold_scan goal r s (rev [s..n - 1]) rt'"
      using fst_eq by (auto simp: up vertex_free_def split_def Let_def rt'_def)
    have "(\<forall>t. T \<le> t \<longrightarrow> t \<le> n \<longrightarrow> vertex_free rt r goal t) = (\<forall>t. T \<le> t \<longrightarrow> t \<le> n - 1 \<longrightarrow> vertex_free rt' r goal t)" for T
      unfolding same_claims_free(1) [OF same, symmetric] using True by (metis zle_diff1_eq le_less)
    then show ?thesis using Suc.hyps(1) [of "n - 1" rt'] Suc.hyps(2) sn unfolding e by simp
  qed
qed

lemma earliest_goal_hold_spec:
  assumes "earliest_goal_hold goal rt r s n = (e, rt')"
  shows "same_claims rt rt'" "s \<le> e"
    "s \<le> T \<Longrightarrow> e \<le> T \<longleftrightarrow> (\<forall>t. T \<le> t \<longrightarrow> t \<le> n \<longrightarrow> vertex_free rt r goal t)"
  using hold_scan_same [of rt goal r s "rev [s..n]"] hold_scan_down [of s goal r n rt] assms
  by (simp_all add: earliest_goal_hold_def)

text \<open>A feasible schedule, read as the timed path that the planner returns.\<close>

lemma timed_route_times:
  assumes "timed_route w rt r horizon start s goal xs" "i < length xs"
  shows "snd (xs ! i) = s + int i \<and> is_traversable w (fst (xs ! i)) \<and> vertex_free rt r (fst (xs ! i)) (s + int i)"
  using assms(2)
proof (induction i)
  case 0
  then show ?case using assms(1) by (simp add: timed_route_def hd_conv_nth)
next
  case (Suc i)
  then have "st_step_ok w rt r (xs ! i) (xs ! Suc i)" using assms(1) by (simp add: timed_route_def successively_nth)
  then show ?case using Suc by (auto simp: st_step_ok_def algebra_simps)
qed

lemma timed_route_path:
  assumes R: "timed_route w rt r horizon start s goal xs"
    and tp: "tp = tp_found r (map (\<lambda>(c, t). TimedStep c t) xs)"
  shows "timed_path_ok tp" "tp_start_time tp = s" "tp_arrival_time tp \<le> horizon"
    "pos_at tp s = start" "pos_at tp (tp_arrival_time tp) = goal"
    "\<And>t. s \<le> t \<Longrightarrow> t \<le> horizon \<Longrightarrow> vertex_free rt r (pos_at tp t) t"
    "\<And>t. s \<le> t \<Longrightarrow> is_traversable w (pos_at tp t)"
    "\<And>t. s \<le> t \<Longrightarrow> t < tp_arrival_time tp \<Longrightarrow> pos_at tp t = pos_at tp (t + 1) \<or>
       is_adjacent_to (pos_at tp t) (pos_at tp (t + 1)) \<and> edge_free rt r (pos_at tp (t + 1)) (pos_at tp t) t"
proof -
  have ne: "xs \<noteq> []" and steps: "tp_steps tp = map (\<lambda>(c, t). TimedStep c t) xs"
    using R by (simp_all add: timed_route_def tp)
  have nth: "tp_steps tp ! i = TimedStep (fst (xs ! i)) (s + int i)" if "i < length xs" for i
    using timed_route_times [OF R that] that by (simp add: steps split_beta)
  show st: "tp_start_time tp = s" using ne nth [of 0] by (simp add: tp_start_time_def hd_conv_nth steps)
  show ok: "timed_path_ok tp" using ne nth by (simp add: timed_path_ok_def st) (simp add: steps)
  have arr: "tp_arrival_time tp = s + int (length xs) - 1" using arrival_time_ok [OF ok] st by (simp add: steps)
  have last: "snd (last xs) = tp_arrival_time tp" "fst (last xs) = goal"
    using timed_route_times [OF R, of "length xs - 1"] ne R arr
    by (simp_all add: last_conv_nth of_nat_diff Suc_le_eq timed_route_def)
  show arrH: "tp_arrival_time tp \<le> horizon" using R last by (simp add: timed_route_def)
  have pos: "pos_at tp t = fst (xs ! nat (t - s))" if "s \<le> t" "t \<le> tp_arrival_time tp" for t
  proof -
    have i: "nat (t - s) < length xs" using that arr by linarith
    have "pos_at tp t = step_position (tp_steps tp ! nat (t - s))"
      using pos_at_step [of "nat (t - s)" tp] i that(1) st by (simp add: steps)
    then show ?thesis using nth [OF i] by simp
  qed
  have sa: "s \<le> tp_arrival_time tp" using start_le_arrival [OF ok] st by simp
  show "pos_at tp s = start" using pos [of s] sa R ne by (simp add: timed_route_def hd_conv_nth)
  have goal: "pos_at tp t = goal" if "tp_arrival_time tp \<le> t" for t
    using pos_at_goal [OF ok that] last(2) ne by (simp add: steps last_map split_beta)
  then show "pos_at tp (tp_arrival_time tp) = goal" by simp
  have at: "is_traversable w (pos_at tp t) \<and> vertex_free rt r (pos_at tp t) t"
    if "s \<le> t" "t \<le> tp_arrival_time tp" for t
  proof -
    have "nat (t - s) < length xs" using that arr by linarith
    from timed_route_times [OF R this] pos [OF that] that(1) show ?thesis by simp
  qed
  show "vertex_free rt r (pos_at tp t) t" if "s \<le> t" "t \<le> horizon" for t
  proof (cases "t \<le> tp_arrival_time tp")
    case True
    then show ?thesis using at that by blast
  next
    case False
    then show ?thesis using goal [of t] R last that by (simp add: timed_route_def)
  qed
  show "is_traversable w (pos_at tp t)" if "s \<le> t" for t
  proof (cases "t \<le> tp_arrival_time tp")
    case True
    then show ?thesis using at that by blast
  next
    case False
    then show ?thesis using goal [of t] goal [of "tp_arrival_time tp"] at [of "tp_arrival_time tp"] sa by simp
  qed
  show "pos_at tp t = pos_at tp (t + 1) \<or>
       is_adjacent_to (pos_at tp t) (pos_at tp (t + 1)) \<and> edge_free rt r (pos_at tp (t + 1)) (pos_at tp t) t"
    if "s \<le> t" "t < tp_arrival_time tp" for t
  proof -
    have i: "Suc (nat (t - s)) < length xs" "nat (t + 1 - s) = Suc (nat (t - s))" using that arr by linarith+
    have "st_step_ok w rt r (xs ! nat (t - s)) (xs ! Suc (nat (t - s)))"
      using R i(1) by (simp add: timed_route_def successively_nth)
    then show ?thesis using pos [of t] pos [of "t + 1"] that i timed_route_times [OF R, of "nat (t - s)"]
      by (auto simp: st_step_ok_def)
  qed
qed

section \<open>The search over (cell, timestep) states\<close>

definition st_succ :: "warehouse \<Rightarrow> reservation_table \<Rightarrow> string \<Rightarrow> int \<Rightarrow> st_state \<Rightarrow> st_state list" where
  "st_succ w rt r horizon x =
     (if horizon \<le> snd x then []
      else (if vertex_free rt r (fst x) (snd x + 1) \<and> is_traversable w (fst x) then [(fst x, snd x + 1)] else []) @
        map (\<lambda>nb. (nb, snd x + 1))
          (filter (\<lambda>nb. vertex_free rt r nb (snd x + 1) \<and> edge_free rt r nb (fst x) (snd x)) (grid_succ w (fst x))))"

lemma set_st_succ:
  assumes "in_bounds w (fst x)"
  shows "y \<in> set (st_succ w rt r horizon x) \<longleftrightarrow> snd x < horizon \<and> st_step_ok w rt r x y"
proof -
  obtain c t where x: "x = (c, t)" by fastforce
  obtain c' t' where y: "y = (c', t')" by fastforce
  show ?thesis unfolding x y using assms [unfolded x] by (auto simp: st_succ_def set_grid_succ st_step_ok_def)
qed

lemma st_succ_step:
  assumes "y \<in> set (st_succ w rt r horizon x)"
  shows "snd x < horizon \<and> st_step_ok w rt r x y"
proof (cases "horizon \<le> snd x")
  case True
  then show ?thesis using assms by (simp add: st_succ_def)
next
  case False
  obtain c t where x: "x = (c, t)" by fastforce
  obtain c' t' where y: "y = (c', t')" by fastforce
  show ?thesis using assms False unfolding x y
    by (cases "vertex_free rt r c (t + 1) \<and> is_traversable w c") (auto simp: st_succ_def set_grid_succ st_step_ok_def)
qed

lemma try_wait_claims: "same_claims rt (snd (try_wait w r c t g hv (st, rt)))"
  using is_vertex_free_same [of rt c "t + 1" "Some r"] by (simp add: try_wait_def split_def Let_def)

lemma try_move_claims: "same_claims rt (snd (try_move heuristic goal r c t g nb (st, rt)))"
  using is_move_allowed_same [of rt c nb t r] by (simp add: try_move_def split_def Let_def)

lemma try_wait_st:
  "fst (try_wait w r c t g hv (st, rt)) =
     (if vertex_free rt r c (t + 1) \<and> is_traversable w c then relax (c, t + 1) (c, t) g hv st else st)"
  using is_vertex_free_fst [of c "t + 1" r rt] by (simp add: try_wait_def split_def Let_def)

lemma try_move_st:
  "c \<noteq> nb \<Longrightarrow> fst (try_move heuristic goal r c t g nb (st, rt)) =
     (if vertex_free rt r nb (t + 1) \<and> edge_free rt r nb c t then relax (nb, t + 1) (c, t) g (heuristic nb goal) st else st)"
  using is_move_allowed_fst [of c nb t r rt] by (simp add: try_move_def split_def Let_def)

lemma fold_try_move:
  assumes "same_claims rt rt'" "c \<notin> set nbs"
  shows "fst (fold (try_move heuristic goal r c t g) nbs (st, rt')) =
    fold (\<lambda>x. relax x (c, t) g (heuristic (fst x) goal))
      (map (\<lambda>nb. (nb, t + 1)) (filter (\<lambda>nb. vertex_free rt r nb (t + 1) \<and> edge_free rt r nb c t) nbs)) st \<and>
    same_claims rt (snd (fold (try_move heuristic goal r c t g) nbs (st, rt')))"
  using assms
proof (induction nbs arbitrary: st rt')
  case Nil
  then show ?case by simp
next
  case (Cons nb nbs)
  obtain st2 rt2 where e: "try_move heuristic goal r c t g nb (st, rt') = (st2, rt2)" by fastforce
  have "same_claims rt rt2"
    using same_claims_trans [OF Cons.prems(1) try_move_claims [of rt' heuristic goal r c t g nb st]] e by simp
  moreover have "st2 = (if vertex_free rt r nb (t + 1) \<and> edge_free rt r nb c t
      then relax (nb, t + 1) (c, t) g (heuristic nb goal) st else st)"
    using try_move_st [of c nb heuristic goal r t g st rt'] Cons.prems e same_claims_free [OF Cons.prems(1)] by simp
  ultimately show ?case using Cons.IH [of rt2 st2] Cons.prems(2) e by simp
qed

lemma st_expand_succ:
  assumes "same_claims rt rt'" "neighbors w c = Inr nbs" "t < horizon"
  shows "fst (st_expand heuristic w goal r c t g nbs (st, rt')) =
      fold (\<lambda>x. relax x (c, t) g (heuristic (fst x) goal)) (st_succ w rt r horizon (c, t)) st \<and>
    same_claims rt (snd (st_expand heuristic w goal r c t g nbs (st, rt')))"
proof -
  obtain st1 rt1 where e: "try_wait w r c t g (heuristic c goal) (st, rt') = (st1, rt1)" by fastforce
  have same: "same_claims rt rt1"
    using same_claims_trans [OF assms(1) try_wait_claims [of rt' w r c t g "heuristic c goal" st]] e by simp
  have st1: "st1 = (if vertex_free rt r c (t + 1) \<and> is_traversable w c
      then relax (c, t + 1) (c, t) g (heuristic c goal) st else st)"
    using try_wait_st [of w r c t g "heuristic c goal" st rt'] e same_claims_free [OF assms(1)] by simp
  have "c \<notin> set nbs" using set_neighbors [OF assms(2)] by simp
  note F = fold_try_move [OF same this, of heuristic goal r t g st1]
  have gs: "grid_succ w c = nbs" using assms(2) by (simp add: grid_succ_def)
  have "fold (\<lambda>x. relax x (c, t) g (heuristic (fst x) goal)) (st_succ w rt r horizon (c, t)) st =
    fold (\<lambda>x. relax x (c, t) g (heuristic (fst x) goal))
      (map (\<lambda>nb. (nb, t + 1)) (filter (\<lambda>nb. vertex_free rt r nb (t + 1) \<and> edge_free rt r nb c t) nbs)) st1"
    using assms(3) by (simp add: st_succ_def gs st1)
  then show ?thesis using F by (simp add: st_expand_def e)
qed

locale st_space =
  fixes heuristic :: "position \<Rightarrow> position \<Rightarrow> int" and w :: warehouse and rt0 :: reservation_table
    and r :: string and start :: position and s :: int and goal :: position and horizon :: int
  assumes heuristic_consistent: "is_adjacent_to a b \<Longrightarrow> heuristic a goal \<le> 1 + heuristic b goal"
    and heuristic_goal: "heuristic goal goal = 0"

sublocale st_space \<subseteq> state_graph "st_succ w rt0 r horizon" "\<lambda>x. heuristic (fst x) goal" "(start, s)"
proof unfold_locales
  fix x y assume "y \<in> set (st_succ w rt0 r horizon x)"
  then have "fst x = fst y \<or> is_adjacent_to (fst x) (fst y)" using st_succ_step st_step_ok_def by blast
  then show "heuristic (fst x) goal \<le> 1 + heuristic (fst y) goal" using heuristic_consistent by auto
qed

context st_space
begin

lemma walk_facts:
  "walk xs x \<Longrightarrow> is_traversable w start \<Longrightarrow>
     snd x = s + int (length xs) - 1 \<and> is_traversable w (fst x) \<and> (snd x \<le> horizon \<or> xs = [(start, s)])"
proof (induction xs arbitrary: x rule: rev_induct)
  case Nil
  then show ?case by (simp add: walk_def)
next
  case (snoc y ys)
  have y: "y = x" using snoc.prems(1) by (simp add: walk_def)
  show ?case
  proof (cases "ys = []")
    case True
    then show ?thesis using snoc.prems y by (simp add: walk_def)
  next
    case False
    then have "walk ys (last ys)" and e: "x \<in> set (st_succ w rt0 r horizon (last ys))"
      using snoc.prems(1) y by (auto simp: walk_def successively_append_iff)
    then show ?thesis using snoc.IH [of "last ys"] snoc.prems(2) st_succ_step [OF e]
      by (auto simp: st_step_ok_def)
  qed
qed

definition st_ok :: "int \<Rightarrow> py_error + timed_path \<times> reservation_table \<Rightarrow> bool" where
  "st_ok hold res \<longleftrightarrow>
     (\<exists>xs T rt'. res = Inr (tp_found r (map (\<lambda>(c, t). TimedStep c t) xs), rt') \<and> same_claims rt0 rt' \<and>
        walk xs (goal, T) \<and> hold \<le> T \<and> (\<forall>ys T'. walk ys (goal, T') \<longrightarrow> hold \<le> T' \<longrightarrow> T \<le> T')) \<or>
     (\<exists>rt'. res = Inr (tp_failed r Horizon_Exceeded, rt') \<and> same_claims rt0 rt' \<and>
        (\<forall>ys T'. walk ys (goal, T') \<longrightarrow> T' < hold))"

lemma known_time: "tree_inv st \<Longrightarrow> best_g st x = Some k \<Longrightarrow> is_traversable w start \<Longrightarrow> snd x = s + k \<and> is_traversable w (fst x)"
  using tree_walk walk_facts by fastforce

lemma st_loop_ok:
  assumes "search_inv st" "\<And>t. (goal, t) \<in> finalized st \<Longrightarrow> t < hold" "is_traversable w start" "same_claims rt0 rt"
  shows "st_ok hold (st_loop heuristic w start goal r s horizon hold st rt)"
  using assms
proof (induction "st_size w horizon st" arbitrary: st rt rule: wf_induct_rule [OF wf_lex_prod [OF wf_less_than wf_less_than]])
  case (1 st rt)
  note unfold = st_loop.simps [of _ _ _ _ _ _ _ _ st]
  show ?case
  proof (cases "heappop (frontier st)")
    case None
    have "T' < hold" if "walk ys (goal, T')" for ys T'
      using exhausted [OF 1(2) _ that] None 1(3) by (simp add: heappop_None)
    then show ?thesis using None 1(5) by (simp add: unfold st_ok_def)
  next
    case (Some e)
    obtain f hv i c t q where e: "e = (((f, hv, i), (c, t)), q)" by (metis surj_pair)
    note pop = Some [unfolded e]
    show ?thesis
    proof (cases "(c, t) \<in> finalized st")
      case True
      let ?st = "st\<lparr>frontier := q\<rparr>"
      have "st_less w horizon ?st st" using pop by (intro st_less_pop) auto
      from 1(1) [OF this pop_stale [OF 1(2) pop True] _ 1(4,5)] 1(3)
      show ?thesis using pop True by (simp add: unfold)
    next
      case False
      let ?st = "st\<lparr>frontier := q, finalized := insert (c, t) (finalized st), expanded := expanded st + 1\<rparr>"
      have E: "expand_inv (c, t) (set (st_succ w rt0 r horizon (c, t))) ?st" by (rule pop_expand [OF 1(2) pop False])
      obtain k where k: "best_g st (c, t) = Some k" "k + heuristic c goal \<le> f" using pop_known [OF 1(2) pop] by auto
      have T: "tree_inv st" using 1(2) by (simp add: search_inv_def)
      note ct = known_time [OF T k(1) 1(4), simplified]
      show ?thesis
      proof (cases "c = goal \<and> hold \<le> t")
        case True
        obtain p where p: "reconstruct_path (came_from ?st) (start, s) (c, t) = Inr p" "walk p (c, t)"
          using reconstruct_reached [OF E] by blast
        have "t \<le> T'" if ys: "walk ys (goal, T')" "hold \<le> T'" for ys T'
        proof -
          have "(goal, T') \<notin> finalized st" using 1(3) ys(2) by force
          from pop_lower_bound [OF 1(2) pop ys(1) this] have "f \<le> int (length ys) - 1"
            by (simp add: heuristic_goal)
          then show ?thesis using walk_facts [OF ys(1) 1(4)] k(2) True ct heuristic_goal by simp
        qed
        then show ?thesis using pop False True p 1(5)
          by (auto simp: unfold st_ok_def st_reconstruct_def)
      next
        case ng: False
        have NG: "t' < hold" if "(goal, t') \<in> insert (c, t) (finalized st)" for t'
          using that 1(3) ng by auto
        show ?thesis
        proof (cases "horizon \<le> t")
          case True
          have "st_less w horizon ?st st" using pop by (intro st_less_pop) auto
          moreover have "search_inv ?st" using E True expand_inv_done by (simp add: st_succ_def)
          ultimately have "st_ok hold (st_loop heuristic w start goal r s horizon hold ?st rt)"
            using 1(1) [of ?st rt] 1(4,5) NG by simp
          then show ?thesis using pop False ng True by (auto simp: unfold Let_def)
        next
          case th: False
          obtain nbs where nbs: "neighbors w c = Inr nbs" using ct neighbors_ex is_traversable_in_bounds by blast
          obtain st2 rt2 where x: "st_expand heuristic w goal r c t (t + 1 - s) nbs (?st, rt) = (st2, rt2)" by fastforce
          have X: "st2 = fold (\<lambda>x. relax x (c, t) (t + 1 - s) (heuristic (fst x) goal)) (st_succ w rt0 r horizon (c, t)) ?st"
            "same_claims rt0 rt2"
            using st_expand_succ [OF 1(5) nbs, of t horizon heuristic goal r "t + 1 - s" ?st] th x by simp_all
          have g: "best_g ?st (c, t) = Some k" "t + 1 - s = k + 1" using k ct by simp_all
          from fold_relax [OF E g(1) subset_refl, of "\<lambda>x. relax x (c, t) (k + 1) (heuristic (fst x) goal)"]
          have S: "search_inv st2" "finalized st2 = insert (c, t) (finalized st)" using X(1) g(2) by auto
          have "st_less w horizon st2 st"
          proof (rule st_less_expand)
            show "next_entries t ?st st2"
              using next_entries_expand [of t "(?st, rt)" heuristic w goal r c "t + 1 - s" nbs] x by simp
          qed (use pop False th ct is_traversable_in_bounds in auto)
          from 1(1) [OF this S(1) _ 1(4) X(2)] S(2) NG
          have "st_ok hold (st_loop heuristic w start goal r s horizon hold st2 rt2)" by simp
          then show ?thesis using pop False ng th nbs x by (auto simp: unfold Let_def)
        qed
      qed
    qed
  qed
qed

lemma walk_spatial:
  "walk xs x \<Longrightarrow> is_traversable w start \<Longrightarrow> \<exists>p. is_route w start (fst x) p"
proof (induction xs arbitrary: x rule: rev_induct)
  case Nil
  then show ?case by (simp add: walk_def)
next
  case (snoc y ys)
  have y: "y = x" using snoc.prems(1) by (simp add: walk_def)
  show ?case
  proof (cases "ys = []")
    case True
    then have "x = (start, s)" using snoc.prems(1) by (auto simp: walk_def)
    then show ?thesis using snoc.prems(2) by (intro exI [of _ "[start]"]) (simp add: is_route_def)
  next
    case False
    then have "walk ys (last ys)" and e: "x \<in> set (st_succ w rt0 r horizon (last ys))"
      using snoc.prems(1) y by (auto simp: walk_def successively_append_iff)
    then obtain p where p: "is_route w start (fst (last ys)) p" using snoc by blast
    show ?thesis
    proof (cases "fst (last ys) = fst x")
      case True
      then show ?thesis using p by auto
    next
      case False
      then have "is_route w start (fst x) (p @ [fst x])"
        using p st_succ_step [OF e] by (auto simp: is_route_def st_step_ok_def successively_append_iff)
      then show ?thesis by blast
    qed
  qed
qed

lemma timed_route_walk:
  "timed_route w rt0 r horizon start s goal xs \<longleftrightarrow> is_traversable w start \<and> vertex_free rt0 r start s \<and>
     (\<exists>T. walk xs (goal, T) \<and> T \<le> horizon \<and> (\<forall>t. T \<le> t \<longrightarrow> t \<le> horizon \<longrightarrow> vertex_free rt0 r goal t))"
  (is "?L \<longleftrightarrow> ?R")
proof
  assume R: ?R
  then obtain T where T: "walk xs (goal, T)" "T \<le> horizon"
    "\<forall>t. T \<le> t \<longrightarrow> t \<le> horizon \<longrightarrow> vertex_free rt0 r goal t" by blast
  have "successively (st_step_ok w rt0 r) xs"
    using T(1) st_succ_step unfolding walk_def by (blast intro: successively_mono)
  then show ?L using R T by (simp add: timed_route_def walk_def)
next
  assume L: ?L
  then have su: "successively (st_step_ok w rt0 r) xs" and xs: "xs \<noteq> []" "hd xs = (start, s)"
    and tr: "is_traversable w start"
    by (simp_all add: timed_route_def)
  have P: "snd (xs ! i) = s + int i \<and> is_traversable w (fst (xs ! i))" if "i < length xs" for i
    using that
  proof (induction i)
    case 0
    then show ?case using xs tr by (simp add: hd_conv_nth)
  next
    case (Suc i)
    then have "st_step_ok w rt0 r (xs ! i) (xs ! Suc i)" using su by (simp add: successively_nth)
    then show ?case using Suc by (simp add: st_step_ok_def)
  qed
  have last: "snd (last xs) = s + int (length xs) - 1" using P [of "length xs - 1"] xs by (simp add: last_conv_nth of_nat_diff Suc_le_eq)
  have "xs ! Suc i \<in> set (st_succ w rt0 r horizon (xs ! i))" if i: "Suc i < length xs" for i
  proof -
    have "st_step_ok w rt0 r (xs ! i) (xs ! Suc i)" using su i by (simp add: successively_nth)
    moreover have "snd (xs ! i) < horizon" using P [of i] i last L by (simp add: timed_route_def)
    moreover have "in_bounds w (fst (xs ! i))" using P [of i] i is_traversable_in_bounds by simp
    ultimately show ?thesis using set_st_succ by blast
  qed
  then have "walk xs (last xs)" using xs by (simp add: walk_def successively_nth)
  moreover have "last xs = (goal, snd (last xs))" using L by (metis prod.collapse timed_route_def)
  ultimately show ?R using L by (intro conjI exI [of _ "snd (last xs)"]) (auto simp: timed_route_def)
qed

lemma st_plan_ok:
  "(\<exists>xs rt'. st_plan heuristic w start goal rt0 r s (Some horizon) =
        Inr (tp_found r (map (\<lambda>(c, t). TimedStep c t) xs), rt') \<and> same_claims rt0 rt' \<and>
        timed_route w rt0 r horizon start s goal xs \<and>
        (\<forall>ys. timed_route w rt0 r horizon start s goal ys \<longrightarrow> length xs \<le> length ys)) \<or>
   (\<exists>reason rt'. st_plan heuristic w start goal rt0 r s (Some horizon) = Inr (tp_failed r reason, rt') \<and>
        same_claims rt0 rt' \<and> (\<forall>ys. \<not> timed_route w rt0 r horizon start s goal ys))"
  (is "?F \<or> ?N")
proof (cases "is_traversable w start \<and> is_traversable w goal \<and> vertex_free rt0 r start s")
  case False
  then have none: "\<not> timed_route w rt0 r horizon start s goal ys" for ys
    using timed_route_walk walk_facts by fastforce
  have "\<exists>reason rt'. st_plan heuristic w start goal rt0 r s (Some horizon) = Inr (tp_failed r reason, rt') \<and>
      same_claims rt0 rt'"
    using False by (auto simp: st_plan_def split_def Let_def)
  then show ?thesis using none by blast
next
  case True
  obtain rt1 where free: "is_vertex_free start s (Some r) rt0 = (True, rt1)" and rt1: "same_claims rt0 rt1"
    using True is_vertex_free_fst [of start s r rt0] is_vertex_free_same [of rt0 start s "Some r"]
    by (cases "is_vertex_free start s (Some r) rt0") auto
  have ib: "in_bounds w start" "in_bounds w goal" using True is_traversable_in_bounds by auto
  obtain sp where sp: "astar_plan start goal w manhattan_distance = Inr sp"
    "pr_success sp \<longleftrightarrow> (\<exists>path. is_route w start goal path)"
    using plan_spec_returns [OF manhattan_search.plan_refines ib] by blast
  obtain e rt2 where e: "earliest_goal_hold goal rt1 r s horizon = (e, rt2)" by fastforce
  note E = earliest_goal_hold_spec [OF e]
  have rt2: "same_claims rt0 rt2" using same_claims_trans [OF rt1 E(1)] .
  have hold: "e \<le> T \<longleftrightarrow> (\<forall>t. T \<le> t \<longrightarrow> t \<le> horizon \<longrightarrow> vertex_free rt0 r goal t)" if "s \<le> T" for T
    using E(3) [OF that] same_claims_free(1) [OF rt1] by simp
  have tw: "timed_route w rt0 r horizon start s goal ys \<longleftrightarrow> (\<exists>T. walk ys (goal, T) \<and> T \<le> horizon \<and> e \<le> T)" for ys
  proof -
    have "s \<le> T" if "walk ys (goal, T)" for T
      using walk_facts [OF that] True walk_length_pos [OF that] unfolding snd_conv by linarith
    then show ?thesis unfolding timed_route_walk using True hold by blast
  qed
  show ?thesis
  proof (cases "pr_success sp \<and> e \<le> horizon")
    case False
    then have "\<not> timed_route w rt0 r horizon start s goal ys" for ys
      using tw walk_spatial sp(2) True by fastforce
    moreover have "\<exists>reason rt'. st_plan heuristic w start goal rt0 r s (Some horizon) = Inr (tp_failed r reason, rt') \<and>
      same_claims rt0 rt'"
      using False True ib free sp(1) e rt1 rt2 by (cases "pr_success sp") (auto simp: st_plan_def)
    ultimately show ?thesis by blast
  next
    case ok: True
    have "st_plan heuristic w start goal rt0 r s (Some horizon) =
        st_loop heuristic w start goal r s horizon e (search_init (start, s) (heuristic start goal)) rt2"
      using ok True ib free sp(1) e by (simp add: st_plan_def st_search_def)
    moreover have "st_ok e (st_loop heuristic w start goal r s horizon e (search_init (start, s) (heuristic start goal)) rt2)"
      using search_inv_init True rt2 by (intro st_loop_ok) (simp_all add: search_init_def)
    ultimately have ST: "st_ok e (st_plan heuristic w start goal rt0 r s (Some horizon))" by simp
    then show ?thesis unfolding st_ok_def
    proof (elim disjE exE conjE)
      fix xs T rt'
      assume a: "st_plan heuristic w start goal rt0 r s (Some horizon) = Inr (tp_found r (map (\<lambda>(c, t). TimedStep c t) xs), rt')"
        "same_claims rt0 rt'" "walk xs (goal, T)" "e \<le> T" "\<forall>ys T'. walk ys (goal, T') \<longrightarrow> e \<le> T' \<longrightarrow> T \<le> T'"
      have len: "int (length ys) = T' - s + 1" if "walk ys (goal, T')" for ys T'
        using walk_facts [OF that] True by simp
      have "T \<le> horizon"
        using walk_facts [OF a(3)] True a(3) ok E(2) by (auto simp: walk_def)
      then have "timed_route w rt0 r horizon start s goal xs" using tw a by blast
      moreover have "length xs \<le> length ys" if "timed_route w rt0 r horizon start s goal ys" for ys
        using that a(5) len [OF a(3)] len tw by fastforce
      ultimately show ?thesis using a(1,2) by blast
    next
      fix rt'
      assume a: "st_plan heuristic w start goal rt0 r s (Some horizon) = Inr (tp_failed r Horizon_Exceeded, rt')"
        "same_claims rt0 rt'" "\<forall>ys T'. walk ys (goal, T') \<longrightarrow> T' < e"
      have "\<not> timed_route w rt0 r horizon start s goal ys" for ys using tw a(3) by fastforce
      then show ?thesis using a(1,2) by blast
    qed
  qed
qed

end

interpretation manhattan_st: st_space manhattan_distance w rt r start s goal horizon for w rt r start s goal horizon
  by unfold_locales (simp_all add: manhattan_distance_def manhattan_adjacent)

interpretation zero_st: st_space zero_heuristic w rt r start s goal horizon for w rt r start s goal horizon
  by unfold_locales (simp_all add: zero_heuristic_def)

end
