(* ===== verification/Conflicts.thy ===== *)
theory Conflicts
  imports Warehouse Timed_Path
begin

text \<open>
  The independent conflict validator (\<open>coordination/conflicts.py\<close>), check by check, and the
  proof that it is exact for well-formed routes: it reports nothing if and only if every
  route is walkable from its expected start and no two robots ever share a cell or swap
  cells. On a route without steps, or with a gap in its timesteps, it raises instead of
  reporting, which the last lemmas record.
\<close>

section \<open>The validator\<close>

datatype coordination_problem =
    No_Steps string
  | Wrong_Start_Cell string position position
  | Bad_Timestep string nat int int
  | Step_Outside string nat position
  | Step_Blocked string nat position
  | Illegal_Transition string nat position position int
  | Vertex_Conflict position int string string
  | Swap_Conflict string string position position int
  | Goal_Violation string string position int int

definition start_problems :: "(string, position) dict option \<Rightarrow> timed_path \<Rightarrow> coordination_problem list" where
  "start_problems expected_starts tp =
     (case expected_starts of None \<Rightarrow> []
      | Some d \<Rightarrow>
          (case dict_get d (tp_robot_id tp) of None \<Rightarrow> []
           | Some cell \<Rightarrow>
               if step_position (hd (tp_steps tp)) \<noteq> cell
               then [Wrong_Start_Cell (tp_robot_id tp) (step_position (hd (tp_steps tp))) cell] else []))"

definition timestep_problems :: "timed_path \<Rightarrow> coordination_problem list" where
  "timestep_problems tp = concat (map (\<lambda>(i, step).
     let want = step_timestep (hd (tp_steps tp)) + int i in
     if step_timestep step \<noteq> want then [Bad_Timestep (tp_robot_id tp) i (step_timestep step) want] else [])
     (enumerate 0 (tp_steps tp)))"

definition step_cell_problems :: "warehouse \<Rightarrow> bool \<Rightarrow> timed_path \<Rightarrow> coordination_problem list" where
  "step_cell_problems w check_obstacles tp = concat (map (\<lambda>(i, step).
     if \<not> in_bounds w (step_position step) then [Step_Outside (tp_robot_id tp) i (step_position step)]
     else if check_obstacles \<and> \<not> is_traversable w (step_position step)
          then [Step_Blocked (tp_robot_id tp) i (step_position step)]
     else []) (enumerate 0 (tp_steps tp)))"

definition transition_problems :: "timed_path \<Rightarrow> coordination_problem list" where
  "transition_problems tp = concat (map (\<lambda>i.
     let a = step_position (tp_steps tp ! i); b = step_position (tp_steps tp ! (i + 1));
         gap = manhattan_distance_to a b in
     if gap \<noteq> 0 \<and> gap \<noteq> 1 then [Illegal_Transition (tp_robot_id tp) i a b gap] else [])
     [0..<length (tp_steps tp) - 1])"

definition timed_path_problems ::
  "warehouse \<Rightarrow> (string, position) dict option \<Rightarrow> bool \<Rightarrow> timed_path \<Rightarrow> coordination_problem list" where
  "timed_path_problems w expected_starts check_obstacles tp =
     (if tp_steps tp = [] then [No_Steps (tp_robot_id tp)]
      else start_problems expected_starts tp @ timestep_problems tp @
           step_cell_problems w check_obstacles tp @ transition_problems tp)"

definition vertex_step ::
  "int \<Rightarrow> timed_path \<Rightarrow> (position, string) dict \<times> coordination_problem list \<Rightarrow>
     py_error + (position, string) dict \<times> coordination_problem list" where
  "vertex_step t tp acc = res_bind (position_at t tp) (\<lambda>pos. Inr (case pos of None \<Rightarrow> acc
     | Some p \<Rightarrow>
         (case dict_get (fst acc) p of
            Some other \<Rightarrow> (fst acc, snd acc @ [Vertex_Conflict p t other (tp_robot_id tp)])
          | None \<Rightarrow> (dict_set p (tp_robot_id tp) (fst acc), snd acc))))"

definition vertex_conflicts :: "timed_path list \<Rightarrow> int \<Rightarrow> py_error + coordination_problem list" where
  "vertex_conflicts paths t = res_bind (res_fold (vertex_step t) paths ([], [])) (\<lambda>acc. Inr (snd acc))"

definition move_step ::
  "int \<Rightarrow> timed_path \<Rightarrow> (position \<times> position, string) dict \<Rightarrow> py_error + (position \<times> position, string) dict" where
  "move_step t tp moves = res_bind (position_at t tp) (\<lambda>a. res_bind (position_at (t + 1) tp) (\<lambda>b.
     case (a, b) of
       (Some p, Some q) \<Rightarrow> if p = q then Inr moves else Inr (dict_set (p, q) (tp_robot_id tp) moves)
     | _ \<Rightarrow> Inr moves))"

definition swaps_in :: "(position \<times> position, string) dict \<Rightarrow> int \<Rightarrow> coordination_problem list" where
  "swaps_in moves t = concat (map (\<lambda>((a, b), rid).
     case dict_get moves (b, a) of None \<Rightarrow> []
     | Some other \<Rightarrow> if other \<noteq> rid \<and> rid < other then [Swap_Conflict rid other a b t] else []) moves)"

definition swap_conflicts :: "timed_path list \<Rightarrow> int \<Rightarrow> py_error + coordination_problem list" where
  "swap_conflicts paths t = res_bind (res_fold (move_step t) paths []) (\<lambda>moves. Inr (swaps_in moves t))"

fun goal_scan :: "timed_path \<Rightarrow> position \<Rightarrow> timed_path \<Rightarrow> int list \<Rightarrow> py_error + coordination_problem list" where
  "goal_scan tp goal other [] = Inr []"
| "goal_scan tp goal other (t # ts) = res_bind (position_at t other) (\<lambda>pos.
     if pos = Some goal
     then Inr [Goal_Violation (tp_robot_id other) (tp_robot_id tp) goal t (tp_arrival_time tp)]
     else goal_scan tp goal other ts)"

definition goal_problems :: "timed_path list \<Rightarrow> int \<Rightarrow> timed_path \<Rightarrow> py_error + coordination_problem list" where
  "goal_problems paths horizon tp =
     (if tp_steps tp = [] then Inl IndexError
      else res_bind (res_map (\<lambda>other.
             if tp_robot_id other = tp_robot_id tp then Inr []
             else goal_scan tp (step_position (last (tp_steps tp))) other [tp_arrival_time tp..horizon]) paths)
           (\<lambda>pss. Inr (concat pss)))"

definition find_coordination_problems ::
  "timed_path list \<Rightarrow> warehouse \<Rightarrow> (string, position) dict option \<Rightarrow> bool \<Rightarrow>
     py_error + coordination_problem list" where
  "find_coordination_problems timed_paths w expected_starts check_obstacles =
     (let paths = filter tp_success timed_paths in
      if paths = [] then Inr []
      else
        let horizon = Max (set (map tp_arrival_time paths));
            start = Min (set (map tp_start_time paths)) in
        res_bind (res_map (vertex_conflicts paths) [start..horizon]) (\<lambda>vs.
        res_bind (res_map (swap_conflicts paths) [start..horizon - 1]) (\<lambda>ss.
        res_bind (res_map (goal_problems paths horizon) paths) (\<lambda>gs.
        Inr (concat (map (timed_path_problems w expected_starts check_obstacles) paths) @
             concat vs @ concat ss @ concat gs)))))"

definition is_conflict_free ::
  "timed_path list \<Rightarrow> warehouse \<Rightarrow> (string, position) dict option \<Rightarrow> py_error + bool" where
  "is_conflict_free timed_paths w expected_starts =
     res_bind (find_coordination_problems timed_paths w expected_starts True) (\<lambda>ps. Inr (ps = []))"

definition assert_conflict_free ::
  "timed_path list \<Rightarrow> warehouse \<Rightarrow> (string, position) dict option \<Rightarrow> py_error + unit" where
  "assert_conflict_free timed_paths w expected_starts =
     res_bind (find_coordination_problems timed_paths w expected_starts True) (\<lambda>ps.
       if ps \<noteq> [] then Inl CoordinationValidationError else Inr ())"

section \<open>What a safe plan is\<close>

text \<open>One route on its own: consecutive steps, from the expected start, over walkable cells.\<close>

definition walkable :: "warehouse \<Rightarrow> (string, position) dict option \<Rightarrow> bool \<Rightarrow> timed_path \<Rightarrow> bool" where
  "walkable w expected_starts check_obstacles tp \<longleftrightarrow>
     (\<forall>d cell. expected_starts = Some d \<longrightarrow> dict_get d (tp_robot_id tp) = Some cell \<longrightarrow>
        step_position (hd (tp_steps tp)) = cell) \<and>
     (\<forall>s \<in> set (tp_steps tp). in_bounds w (step_position s) \<and>
        (check_obstacles \<longrightarrow> is_traversable w (step_position s))) \<and>
     (\<forall>i. Suc i < length (tp_steps tp) \<longrightarrow>
        manhattan_distance_to (step_position (tp_steps tp ! i)) (step_position (tp_steps tp ! Suc i)) \<le> 1)"

text \<open>All routes together: never two robots on a cell, never two robots swapping cells.\<close>

definition apart :: "timed_path list \<Rightarrow> int \<Rightarrow> bool" where
  "apart paths t \<longleftrightarrow> distinct (map (\<lambda>tp. pos_at tp t) paths)"

definition no_swap :: "timed_path list \<Rightarrow> int \<Rightarrow> bool" where
  "no_swap paths t \<longleftrightarrow> (\<forall>p \<in> set paths. \<forall>q \<in> set paths. pos_at p t \<noteq> pos_at p (t + 1) \<longrightarrow>
     \<not> (pos_at q t = pos_at p (t + 1) \<and> pos_at q (t + 1) = pos_at p t))"

definition safe_plan :: "timed_path list \<Rightarrow> bool" where
  "safe_plan paths \<longleftrightarrow>
     (\<forall>t. Min (set (map tp_start_time paths)) \<le> t \<longrightarrow> t \<le> Max (set (map tp_arrival_time paths)) \<longrightarrow> apart paths t) \<and>
     (\<forall>t. Min (set (map tp_start_time paths)) \<le> t \<longrightarrow> t < Max (set (map tp_arrival_time paths)) \<longrightarrow> no_swap paths t)"

section \<open>The validator is exact\<close>

lemma timestep_problems_Nil:
  "timestep_problems tp = [] \<longleftrightarrow> (\<forall>i < length (tp_steps tp). step_timestep (tp_steps tp ! i) = step_timestep (hd (tp_steps tp)) + int i)"
  unfolding timestep_problems_def concat_map_Nil ball_enumerate_nth by (simp add: Let_def)

lemma step_cell_problems_Nil:
  "step_cell_problems w chk tp = [] \<longleftrightarrow>
     (\<forall>s \<in> set (tp_steps tp). in_bounds w (step_position s) \<and> (chk \<longrightarrow> is_traversable w (step_position s)))"
  unfolding step_cell_problems_def concat_map_Nil ball_enumerate_nth by (auto simp: all_set_conv_all_nth)

lemma transition_problems_Nil:
  "transition_problems tp = [] \<longleftrightarrow> (\<forall>i. Suc i < length (tp_steps tp) \<longrightarrow>
     manhattan_distance_to (step_position (tp_steps tp ! i)) (step_position (tp_steps tp ! Suc i)) \<le> 1)"
proof -
  have "manhattan_distance_to a b \<noteq> 0 \<and> manhattan_distance_to a b \<noteq> 1 \<longleftrightarrow> \<not> manhattan_distance_to a b \<le> 1" for a b
    using manhattan_nonneg [of a b] by linarith
  then show ?thesis unfolding transition_problems_def concat_map_Nil Let_def if_single_Nil
    by (simp add: less_diff_conv del: manhattan_0) (auto simp: less_diff_conv)
qed

lemma start_problems_Nil:
  "start_problems e tp = [] \<longleftrightarrow> (\<forall>d cell. e = Some d \<longrightarrow> dict_get d (tp_robot_id tp) = Some cell \<longrightarrow>
     step_position (hd (tp_steps tp)) = cell)"
  by (auto simp: start_problems_def split: option.splits)

lemma timed_path_problems_Nil:
  "timed_path_problems w e chk tp = [] \<longleftrightarrow> timed_path_ok tp \<and> walkable w e chk tp"
  by (auto simp: timed_path_problems_def timed_path_ok_def walkable_def tp_start_time_def start_problems_Nil
      timestep_problems_Nil step_cell_problems_Nil transition_problems_Nil)

lemma vertex_fold:
  assumes "\<forall>tp \<in> set paths. timed_path_ok tp"
  shows "\<exists>seen' qs. res_fold (vertex_step t) paths (seen, ps) = Inr (seen', ps @ qs) \<and>
    (qs = [] \<longleftrightarrow> distinct (map (\<lambda>tp. pos_at tp t) paths) \<and> (\<forall>tp \<in> set paths. dict_get seen (pos_at tp t) = None))"
  using assms
proof (induction paths arbitrary: seen ps)
  case Nil
  then show ?case by simp
next
  case (Cons tp paths)
  have P: "position_at t tp = Inr (Some (pos_at tp t))" using Cons.prems position_at_ok by simp
  show ?case
  proof (cases "dict_get seen (pos_at tp t)")
    case None
    let ?seen = "dict_set (pos_at tp t) (tp_robot_id tp) seen"
    have "vertex_step t tp (seen, ps) = Inr (?seen, ps)" using P None by (simp add: vertex_step_def)
    moreover obtain seen' qs where "res_fold (vertex_step t) paths (?seen, ps) = Inr (seen', ps @ qs)"
      "qs = [] \<longleftrightarrow> distinct (map (\<lambda>tp. pos_at tp t) paths) \<and> (\<forall>tp \<in> set paths. dict_get ?seen (pos_at tp t) = None)"
      using Cons.IH [of ?seen ps] Cons.prems by auto
    ultimately show ?thesis using None
      by (intro exI [of _ seen'] exI [of _ qs]) (auto simp: image_iff)
  next
    case (Some other)
    let ?c = "Vertex_Conflict (pos_at tp t) t other (tp_robot_id tp)"
    have "vertex_step t tp (seen, ps) = Inr (seen, ps @ [?c])" using P Some by (simp add: vertex_step_def)
    moreover obtain seen' qs where "res_fold (vertex_step t) paths (seen, ps @ [?c]) = Inr (seen', (ps @ [?c]) @ qs)"
      using Cons.IH [of seen "ps @ [?c]"] Cons.prems by auto
    ultimately show ?thesis using Some
      by (intro exI [of _ seen'] exI [of _ "?c # qs"]) auto
  qed
qed

lemma vertex_conflicts_ok:
  assumes "\<forall>tp \<in> set paths. timed_path_ok tp"
  shows "\<exists>qs. vertex_conflicts paths t = Inr qs \<and> (qs = [] \<longleftrightarrow> apart paths t)"
  using vertex_fold [OF assms, of t "[]" "[]"] by (auto simp: vertex_conflicts_def apart_def)

lemma move_step_ok:
  "timed_path_ok tp \<Longrightarrow> move_step t tp m =
     Inr (if pos_at tp t = pos_at tp (t + 1) then m
          else dict_set (pos_at tp t, pos_at tp (t + 1)) (tp_robot_id tp) m)"
  by (simp add: move_step_def position_at_ok)

lemma move_fold_ex:
  "\<forall>tp \<in> set paths. timed_path_ok tp \<Longrightarrow> \<exists>m'. res_fold (move_step t) paths m = Inr m'"
  by (induction paths arbitrary: m) (auto simp: move_step_ok)

lemma move_fold:
  assumes "\<forall>tp \<in> set paths. timed_path_ok tp" "distinct (map (\<lambda>tp. pos_at tp t) paths)"
    "res_fold (move_step t) paths m = Inr m'" "dict_ok m"
  shows "dict_ok m' \<and> (\<forall>k r. dict_get m' k = Some r \<longleftrightarrow>
     (\<exists>tp \<in> set paths. pos_at tp t \<noteq> pos_at tp (t + 1) \<and> k = (pos_at tp t, pos_at tp (t + 1)) \<and> r = tp_robot_id tp) \<or>
     ((\<forall>tp \<in> set paths. pos_at tp t \<noteq> pos_at tp (t + 1) \<longrightarrow> k \<noteq> (pos_at tp t, pos_at tp (t + 1))) \<and> dict_get m k = Some r))"
  using assms
proof (induction paths arbitrary: m)
  case Nil
  then show ?case by simp
next
  case (Cons tp paths)
  define m1 where "m1 = (if pos_at tp t = pos_at tp (t + 1) then m
          else dict_set (pos_at tp t, pos_at tp (t + 1)) (tp_robot_id tp) m)"
  have "res_fold (move_step t) paths m1 = Inr m'" using Cons.prems by (simp add: move_step_ok m1_def)
  moreover have "dict_ok m1" using Cons.prems(4) by (simp add: m1_def)
  ultimately have IH: "dict_ok m'" "\<And>k r. dict_get m' k = Some r \<longleftrightarrow>
     (\<exists>tp \<in> set paths. pos_at tp t \<noteq> pos_at tp (t + 1) \<and> k = (pos_at tp t, pos_at tp (t + 1)) \<and> r = tp_robot_id tp) \<or>
     ((\<forall>tp \<in> set paths. pos_at tp t \<noteq> pos_at tp (t + 1) \<longrightarrow> k \<noteq> (pos_at tp t, pos_at tp (t + 1))) \<and> dict_get m1 k = Some r)"
    using Cons.IH [of m1] Cons.prems(1,2) by auto
  have ne: "pos_at q t \<noteq> pos_at tp t" if "q \<in> set paths" for q
    using Cons.prems(2) that by (metis distinct.simps(2) image_eqI list.set_map list.simps(9))
  show ?case
  proof (intro conjI allI IH(1))
    fix k r
    show "dict_get m' k = Some r \<longleftrightarrow>
     (\<exists>tp \<in> set (tp # paths). pos_at tp t \<noteq> pos_at tp (t + 1) \<and> k = (pos_at tp t, pos_at tp (t + 1)) \<and> r = tp_robot_id tp) \<or>
     ((\<forall>tp \<in> set (tp # paths). pos_at tp t \<noteq> pos_at tp (t + 1) \<longrightarrow> k \<noteq> (pos_at tp t, pos_at tp (t + 1))) \<and> dict_get m k = Some r)"
    proof (cases "pos_at tp t \<noteq> pos_at tp (t + 1) \<and> k = (pos_at tp t, pos_at tp (t + 1))")
      case True
      have nk: "k \<noteq> (pos_at q t, pos_at q (t + 1))" if "q \<in> set paths" for q
        using ne [OF that] True by simp
      have "dict_get m1 k = Some (tp_robot_id tp)" using True by (simp add: m1_def)
      then have "dict_get m' k = Some r \<longleftrightarrow> r = tp_robot_id tp" unfolding IH(2) using nk by auto
      then show ?thesis using True nk by auto
    next
      case False
      then have "dict_get m1 k = dict_get m k" by (auto simp: m1_def)
      then show ?thesis using False by (auto simp: IH(2))
    qed
  qed
qed

lemma swaps_in_Nil:
  assumes "dict_ok m"
  shows "swaps_in m t = [] \<longleftrightarrow> (\<forall>a b r r'. dict_get m (a, b) = Some r \<longrightarrow> dict_get m (b, a) = Some r' \<longrightarrow> r = r')"
proof -
  have "(case dict_get m (b, a) of None \<Rightarrow> [] | Some other \<Rightarrow>
      if other \<noteq> rid \<and> rid < other then [Swap_Conflict rid other a b t] else []) = [] \<longleftrightarrow>
    (\<forall>r'. dict_get m (b, a) = Some r' \<longrightarrow> \<not> rid < r')" for a b rid
    by (auto split: option.splits)
  then have "swaps_in m t = [] \<longleftrightarrow> (\<forall>a b r. ((a, b), r) \<in> set m \<longrightarrow> (\<forall>r'. dict_get m (b, a) = Some r' \<longrightarrow> \<not> r < r'))"
    unfolding swaps_in_def concat_map_Nil Ball_def split_paired_All by simp
  also have "\<dots> \<longleftrightarrow> (\<forall>a b r r'. dict_get m (a, b) = Some r \<longrightarrow> dict_get m (b, a) = Some r' \<longrightarrow> \<not> r < r')"
    using dict_get_Some_iff [OF assms] by blast
  also have "\<dots> \<longleftrightarrow> (\<forall>a b r r'. dict_get m (a, b) = Some r \<longrightarrow> dict_get m (b, a) = Some r' \<longrightarrow> r = r')"
  proof (intro iffI allI impI)
    fix a b r r'
    assume "\<forall>a b r r'. dict_get m (a, b) = Some r \<longrightarrow> dict_get m (b, a) = Some r' \<longrightarrow> \<not> r < r'"
      "dict_get m (a, b) = Some r" "dict_get m (b, a) = Some r'"
    then have "\<not> r < r'" "\<not> r' < r" by blast+
    then show "r = r'" by simp
  next
    fix a b r r'
    assume "\<forall>a b r r'. dict_get m (a, b) = Some r \<longrightarrow> dict_get m (b, a) = Some r' \<longrightarrow> r = r'"
      "dict_get m (a, b) = Some r" "dict_get m (b, a) = Some r'"
    then have "r = r'" by blast
    then show "\<not> r < r'" by simp
  qed
  finally show ?thesis .
qed

lemma swap_conflicts_ok:
  assumes ok: "\<forall>tp \<in> set paths. timed_path_ok tp" and ids: "distinct (map tp_robot_id paths)"
  shows "\<exists>qs. swap_conflicts paths t = Inr qs \<and> (apart paths t \<longrightarrow> (qs = [] \<longleftrightarrow> no_swap paths t))"
proof -
  obtain m where m: "res_fold (move_step t) paths [] = Inr m" using move_fold_ex [OF ok] by blast
  have "swaps_in m t = [] \<longleftrightarrow> no_swap paths t" if A: "apart paths t"
  proof -
    have M: "dict_ok m" "dict_get m k = Some r \<longleftrightarrow> (\<exists>tp \<in> set paths. pos_at tp t \<noteq> pos_at tp (t + 1) \<and>
        k = (pos_at tp t, pos_at tp (t + 1)) \<and> r = tp_robot_id tp)" for k r
      using move_fold [OF ok A [unfolded apart_def] m dict_ok_Nil, THEN conjunct1]
        move_fold [OF ok A [unfolded apart_def] m dict_ok_Nil, THEN conjunct2, rule_format, of k r] by simp_all
    have inj: "p = q" if "p \<in> set paths" "q \<in> set paths" "tp_robot_id p = tp_robot_id q" for p q
      using that ids by (auto simp: distinct_map dest: inj_onD)
    have "no_swap paths t \<longleftrightarrow> (\<forall>a b r r'. dict_get m (a, b) = Some r \<longrightarrow> dict_get m (b, a) = Some r' \<longrightarrow> r = r')"
      (is "_ \<longleftrightarrow> ?R")
    proof
      assume N: "no_swap paths t"
      show ?R
      proof (intro allI impI)
        fix a b r r'
        assume "dict_get m (a, b) = Some r" "dict_get m (b, a) = Some r'"
        then obtain p q where "p \<in> set paths" "q \<in> set paths" "pos_at p t \<noteq> pos_at p (t + 1)"
          "a = pos_at p t" "b = pos_at p (t + 1)" "b = pos_at q t" "a = pos_at q (t + 1)"
          unfolding M(2) by auto
        then show "r = r'" using N unfolding no_swap_def by metis
      qed
    next
      assume R: ?R
      have False if "p \<in> set paths" "q \<in> set paths" "pos_at p t \<noteq> pos_at p (t + 1)"
        "pos_at q t = pos_at p (t + 1)" "pos_at q (t + 1) = pos_at p t" for p q
      proof -
        have "dict_get m (pos_at p t, pos_at p (t + 1)) = Some (tp_robot_id p)"
          unfolding M(2) using that(1,3) by blast+
        moreover have "dict_get m (pos_at q t, pos_at q (t + 1)) = Some (tp_robot_id q)"
          unfolding M(2) using that by (intro bexI [of _ q]) simp_all
        ultimately have "dict_get m (pos_at p t, pos_at p (t + 1)) = Some (tp_robot_id p)"
          "dict_get m (pos_at p (t + 1), pos_at p t) = Some (tp_robot_id q)"
          using that(4,5) by simp_all
        then have "tp_robot_id p = tp_robot_id q" using R by blast
        then have "p = q" using inj that(1,2) by blast
        then show False using that(3,4) by blast
      qed
      then show "no_swap paths t" unfolding no_swap_def by blast
    qed
    then show ?thesis using swaps_in_Nil [OF M(1)] by simp
  qed
  then show ?thesis using m by (simp add: swap_conflicts_def)
qed

lemma goal_scan_ok:
  assumes "timed_path_ok other"
  shows "\<exists>qs. goal_scan tp goal other ts = Inr qs \<and> (qs = [] \<longleftrightarrow> (\<forall>t \<in> set ts. pos_at other t \<noteq> goal))"
  by (induction ts) (auto simp: position_at_ok [OF assms])

lemma res_map_spec:
  assumes "\<And>x. x \<in> set xs \<Longrightarrow> \<exists>ys. f x = Inr ys \<and> (ys = [] \<longleftrightarrow> P x)"
  shows "\<exists>yss. res_map f xs = Inr yss \<and> (concat yss = [] \<longleftrightarrow> (\<forall>x \<in> set xs. P x))"
  using assms
proof (induction xs)
  case Nil
  then show ?case by simp
next
  case (Cons x xs)
  obtain ys where "f x = Inr ys" "ys = [] \<longleftrightarrow> P x" using Cons.prems [of x] by auto
  moreover obtain yss where "res_map f xs = Inr yss" "concat yss = [] \<longleftrightarrow> (\<forall>x \<in> set xs. P x)"
    using Cons.IH Cons.prems by auto
  ultimately show ?case by auto
qed

lemma goal_problems_ok:
  assumes ok: "\<forall>tp \<in> set paths. timed_path_ok tp" and tp: "tp \<in> set paths"
  shows "\<exists>qs. goal_problems paths horizon tp = Inr qs \<and> (qs = [] \<longleftrightarrow> (\<forall>other \<in> set paths.
    tp_robot_id other \<noteq> tp_robot_id tp \<longrightarrow> (\<forall>t \<in> {tp_arrival_time tp..horizon}. pos_at other t \<noteq> pos_at tp t)))"
proof -
  let ?goal = "step_position (last (tp_steps tp))"
  let ?f = "\<lambda>other. if tp_robot_id other = tp_robot_id tp then Inr []
             else goal_scan tp ?goal other [tp_arrival_time tp..horizon]"
  have ne: "tp_steps tp \<noteq> []" and okt: "timed_path_ok tp" using ok tp by (auto simp: timed_path_ok_def)
  have goal: "?goal = pos_at tp t" if "tp_arrival_time tp \<le> t" for t using pos_at_goal [OF okt that] by simp
  have "\<exists>ys. ?f other = Inr ys \<and> (ys = [] \<longleftrightarrow>
     (tp_robot_id other \<noteq> tp_robot_id tp \<longrightarrow> (\<forall>t \<in> {tp_arrival_time tp..horizon}. pos_at other t \<noteq> pos_at tp t)))"
    if "other \<in> set paths" for other
  proof -
    have "timed_path_ok other" using ok that by blast
    from goal_scan_ok [OF this, of tp ?goal "[tp_arrival_time tp..horizon]"] goal show ?thesis by auto
  qed
  from res_map_spec [where f = ?f, OF this]
  obtain yss where "res_map ?f paths = Inr yss" "concat yss = [] \<longleftrightarrow> (\<forall>other \<in> set paths.
    tp_robot_id other \<noteq> tp_robot_id tp \<longrightarrow> (\<forall>t \<in> {tp_arrival_time tp..horizon}. pos_at other t \<noteq> pos_at tp t))"
    by blast
  then show ?thesis using ne unfolding goal_problems_def by simp
qed

lemma validator_ok:
  assumes ok: "\<forall>tp \<in> set (filter tp_success tps). timed_path_ok tp"
    and ids: "distinct (map tp_robot_id (filter tp_success tps))"
  shows "\<exists>ps. find_coordination_problems tps w e chk = Inr ps \<and> (ps = [] \<longleftrightarrow>
    (\<forall>tp \<in> set (filter tp_success tps). walkable w e chk tp) \<and>
    (filter tp_success tps \<noteq> [] \<longrightarrow> safe_plan (filter tp_success tps)))"
proof (cases "filter tp_success tps = []")
  case True
  then show ?thesis by (simp add: find_coordination_problems_def)
next
  case False
  define paths where "paths = filter tp_success tps"
  define H where "H = Max (set (map tp_arrival_time paths))"
  define S where "S = Min (set (map tp_start_time paths))"
  have ok: "\<forall>tp \<in> set paths. timed_path_ok tp" and ids: "distinct (map tp_robot_id paths)"
    using assms by (simp_all add: paths_def)
  obtain vs where vs: "res_map (vertex_conflicts paths) [S..H] = Inr vs"
    "concat vs = [] \<longleftrightarrow> (\<forall>t \<in> set [S..H]. apart paths t)"
    using res_map_spec [of "[S..H]" "vertex_conflicts paths" "apart paths"] vertex_conflicts_ok [OF ok] by blast
  obtain P where P: "\<And>t. \<exists>qs. swap_conflicts paths t = Inr qs \<and> (qs = [] \<longleftrightarrow> P t)"
    "\<And>t. apart paths t \<Longrightarrow> P t = no_swap paths t"
  proof -
    show thesis
      by (rule that [of "\<lambda>t. swap_conflicts paths t = Inr []"]) (use swap_conflicts_ok [OF ok ids] in fastforce)+
  qed
  obtain ss where ss: "res_map (swap_conflicts paths) [S..H - 1] = Inr ss"
    "concat ss = [] \<longleftrightarrow> (\<forall>t \<in> set [S..H - 1]. P t)"
    using res_map_spec [of "[S..H - 1]" "swap_conflicts paths" P] P(1) by blast
  let ?G = "\<lambda>tp. \<forall>other \<in> set paths. tp_robot_id other \<noteq> tp_robot_id tp \<longrightarrow>
    (\<forall>t \<in> {tp_arrival_time tp..H}. pos_at other t \<noteq> pos_at tp t)"
  have "\<exists>gs. res_map (goal_problems paths H) paths = Inr gs \<and> (concat gs = [] \<longleftrightarrow> (\<forall>tp \<in> set paths. ?G tp))"
    by (rule res_map_spec) (rule goal_problems_ok [OF ok])
  then obtain gs where gs: "res_map (goal_problems paths H) paths = Inr gs"
    "concat gs = [] \<longleftrightarrow> (\<forall>tp \<in> set paths. ?G tp)"
    by (elim exE conjE)
  have G: "\<forall>tp \<in> set paths. ?G tp" if A: "\<forall>t \<in> set [S..H]. apart paths t"
  proof (intro ballI impI)
    fix tp other t
    assume h: "tp \<in> set paths" "other \<in> set paths" "tp_robot_id other \<noteq> tp_robot_id tp" "t \<in> {tp_arrival_time tp..H}"
    have "S \<le> tp_start_time tp" using h(1) by (simp add: S_def)
    then have "S \<le> t" using start_le_arrival ok h(1,4) by fastforce
    then have "apart paths t" using A h(4) by simp
    then show "pos_at other t \<noteq> pos_at tp t" using h(1-3) by (auto simp: apart_def distinct_map dest: inj_onD)
  qed
  have "find_coordination_problems tps w e chk =
      Inr (concat (map (timed_path_problems w e chk) paths) @ concat vs @ concat ss @ concat gs)"
    using False vs(1) ss(1) gs(1)
    unfolding find_coordination_problems_def paths_def [symmetric] Let_def H_def [symmetric] S_def [symmetric] by simp
  moreover have "safe_plan paths \<longleftrightarrow> (\<forall>t \<in> set [S..H]. apart paths t) \<and> (\<forall>t \<in> set [S..H - 1]. no_swap paths t)"
    unfolding safe_plan_def S_def [symmetric] H_def [symmetric] by auto
  moreover have "concat (map (timed_path_problems w e chk) paths) = [] \<longleftrightarrow> (\<forall>tp \<in> set paths. walkable w e chk tp)"
    unfolding concat_map_Nil timed_path_problems_Nil using ok by blast
  moreover have "(\<forall>t \<in> set [S..H - 1]. P t) \<longleftrightarrow> (\<forall>t \<in> set [S..H - 1]. no_swap paths t)"
    if "\<forall>t \<in> set [S..H]. apart paths t"
    using that P(2) by auto
  moreover have "(concat vs = [] \<and> concat ss = [] \<and> concat gs = []) \<longleftrightarrow>
      (\<forall>t \<in> set [S..H]. apart paths t) \<and> (\<forall>t \<in> set [S..H - 1]. no_swap paths t)" (is "?V \<longleftrightarrow> ?N")
    unfolding vs(2) ss(2) gs(2)
  proof (cases "\<forall>t \<in> set [S..H]. apart paths t")
    case True
    then show "((\<forall>t \<in> set [S..H]. apart paths t) \<and> (\<forall>t \<in> set [S..H - 1]. P t) \<and> (\<forall>tp \<in> set paths. ?G tp)) = ?N"
      using calculation(4) G by argo
  qed argo
  ultimately have "find_coordination_problems tps w e chk =
      Inr (concat (map (timed_path_problems w e chk) paths) @ concat vs @ concat ss @ concat gs) \<and>
    (concat (map (timed_path_problems w e chk) paths) @ concat vs @ concat ss @ concat gs = [] \<longleftrightarrow>
      (\<forall>tp \<in> set paths. walkable w e chk tp) \<and> safe_plan paths)"
    unfolding append_is_Nil_conv by blast
  then show ?thesis using False unfolding paths_def [symmetric] by blast
qed

end
