(* ===== verification/Robot.thy ===== *)
theory Robot
  imports Position
begin

text \<open>
  The robot (\<open>robots/robot_state.py\<close>, \<open>robots/robot.py\<close>): its state, the construction-time
  checks and the operations that change it. Battery, payload and odometer are Python floats,
  so every arithmetic step is rounded by \<^const>\<open>fl\<close>. \<open>robot_ok\<close> is what
  \<open>__post_init__\<close> establishes; the lemmas show which operations keep it.
\<close>

section \<open>State\<close>

datatype robot_status = R_IDLE | R_ASSIGNED | R_MOVING | R_PICKING | R_DROPPING | R_CHARGING
  | R_BLOCKED | R_OFFLINE

definition available_statuses :: "robot_status set" where
  "available_statuses = {R_IDLE}"

definition unhealthy_statuses :: "robot_status set" where
  "unhealthy_statuses = {R_BLOCKED, R_OFFLINE}"

definition MIN_BATTERY :: pyfloat where
  "MIN_BATTERY = 0"

definition MAX_BATTERY :: pyfloat where
  "MAX_BATTERY = 100"

definition DEFAULT_BATTERY_DRAIN_PER_MOVE :: pyfloat where
  "DEFAULT_BATTERY_DRAIN_PER_MOVE = 1"

record robot =
  robot_id :: string
  robot_position :: position
  battery_level :: pyfloat
  payload_capacity :: pyfloat
  current_payload :: pyfloat
  robot_status :: robot_status
  assigned_task_id :: "string option"
  distance_travelled :: pyfloat
  steps_taken :: int
  battery_drain_per_move :: pyfloat
  last_error :: "move_reason option"

definition robot_post_init :: "robot \<Rightarrow> py_error + robot" where
  "robot_post_init r =
     (if robot_id r = [] then Inl ValueError
      else if payload_capacity r < 0 then Inl ValueError
      else if \<not> (0 \<le> current_payload r \<and> current_payload r \<le> payload_capacity r) then Inl ValueError
      else if battery_drain_per_move r < 0 then Inl ValueError
      else if \<not> (MIN_BATTERY \<le> battery_level r \<and> battery_level r \<le> MAX_BATTERY) then Inl ValueError
      else Inr r)"

text \<open>\<open>Robot(robot_id=..., position=...)\<close>, every other field at its default.\<close>

definition robot_default :: "string \<Rightarrow> position \<Rightarrow> robot" where
  "robot_default i p = \<lparr>robot_id = i, robot_position = p, battery_level = MAX_BATTERY,
     payload_capacity = 10, current_payload = 0, robot_status = R_IDLE, assigned_task_id = None,
     distance_travelled = 0, steps_taken = 0,
     battery_drain_per_move = DEFAULT_BATTERY_DRAIN_PER_MOVE, last_error = None\<rparr>"

section \<open>Queries\<close>

definition is_available :: "robot \<Rightarrow> bool" where
  "is_available r \<longleftrightarrow> robot_status r \<in> available_statuses \<and> assigned_task_id r = None"

definition remaining_capacity :: "robot \<Rightarrow> pyfloat" where
  "remaining_capacity r = fl (payload_capacity r - current_payload r)"

definition has_battery_for_move :: "robot \<Rightarrow> bool" where
  "has_battery_for_move r \<longleftrightarrow> battery_drain_per_move r \<le> battery_level r"

definition can_carry :: "robot \<Rightarrow> pyfloat \<Rightarrow> bool" where
  "can_carry r weight \<longleftrightarrow> weight \<le> remaining_capacity r"

section \<open>Operations\<close>

definition drain_battery :: "pyfloat \<Rightarrow> robot \<Rightarrow> robot" where
  "drain_battery amount r = r\<lparr>battery_level := max MIN_BATTERY (fl (battery_level r - amount))\<rparr>"

definition move_to :: "position \<Rightarrow> robot \<Rightarrow> py_error + robot" where
  "move_to dest r =
     (if \<not> is_adjacent_to (robot_position r) dest
      then Inl (InvalidMoveError (Reason_MoveNotAdjacent (robot_id r) (robot_position r) dest))
      else if \<not> has_battery_for_move r
      then Inl (InvalidMoveError (Reason_MoveBattery (robot_id r) (battery_level r) (battery_drain_per_move r)))
      else let r1 = r\<lparr>robot_position := dest, steps_taken := steps_taken r + 1,
                      distance_travelled := fl (distance_travelled r + of_int MOVE_COST)\<rparr>;
               r2 = drain_battery (battery_drain_per_move r1) r1
           in Inr (r2\<lparr>robot_status := R_MOVING, last_error := None\<rparr>))"

definition recharge :: "pyfloat \<Rightarrow> robot \<Rightarrow> py_error + pyfloat \<times> robot" where
  "recharge amount r =
     (if amount < 0 then Inl ValueError
      else let before = battery_level r;
               after = min MAX_BATTERY (fl (battery_level r + amount))
           in Inr (fl (after - before), r\<lparr>battery_level := after\<rparr>))"

definition load :: "pyfloat \<Rightarrow> robot \<Rightarrow> py_error + robot" where
  "load weight r =
     (if weight < 0 then Inl ValueError
      else if \<not> can_carry r weight then Inl SimulationError
      else Inr (r\<lparr>current_payload := fl (current_payload r + weight)\<rparr>))"

definition unload :: "robot \<Rightarrow> pyfloat \<times> robot" where
  "unload r = (current_payload r, r\<lparr>current_payload := 0\<rparr>)"

definition set_status :: "robot_status \<Rightarrow> robot \<Rightarrow> robot" where
  "set_status s r = r\<lparr>robot_status := s\<rparr>"

definition robot_assign_task :: "string \<Rightarrow> robot \<Rightarrow> py_error + robot" where
  "robot_assign_task tid r =
     (if \<not> is_available r then Inl SimulationError
      else Inr (r\<lparr>assigned_task_id := Some tid, robot_status := R_ASSIGNED\<rparr>))"

definition clear_task :: "robot \<Rightarrow> robot" where
  "clear_task r = r\<lparr>assigned_task_id := None, robot_status := R_IDLE\<rparr>"

section \<open>Invariant\<close>

text \<open>
  What \<open>__post_init__\<close> checks, and that the numbers are doubles. The payload bound is kept
  apart: \<open>load\<close> can break it by a rounding step (\<open>Fleet_Properties\<close> has the case).
\<close>

definition robot_core_ok :: "robot \<Rightarrow> bool" where
  [inv_defs]: "robot_core_ok r \<longleftrightarrow> robot_id r \<noteq> [] \<and> 0 \<le> payload_capacity r \<and> 0 \<le> current_payload r \<and>
     0 \<le> battery_drain_per_move r \<and> MIN_BATTERY \<le> battery_level r \<and> battery_level r \<le> MAX_BATTERY \<and>
     is_float (battery_level r) \<and> is_float (payload_capacity r) \<and> is_float (current_payload r) \<and>
     is_float (battery_drain_per_move r) \<and> is_float (distance_travelled r)"

definition payload_ok :: "robot \<Rightarrow> bool" where
  [inv_defs]: "payload_ok r \<longleftrightarrow> current_payload r \<le> payload_capacity r"

definition robot_ok :: "robot \<Rightarrow> bool" where
  [inv_defs]: "robot_ok r \<longleftrightarrow> robot_core_ok r \<and> payload_ok r"

lemma is_float_fl [simp]: "is_float (fl x)"
  by (simp add: is_float_def)

lemma is_float_0 [simp]: "is_float 0"
  by (simp add: is_float_def)

lemma is_float_1 [simp]: "is_float 1"
  by (simp add: is_float_def)

lemma is_float_numeral: "(numeral n :: int) < 2 ^ 53 \<Longrightarrow> is_float (numeral n)"
  by (simp add: is_float_def fl_numeral)

lemma is_float_max_battery [simp]: "is_float MAX_BATTERY" "is_float MIN_BATTERY"
  by (simp_all add: MAX_BATTERY_def MIN_BATTERY_def is_float_numeral)

lemma fl_le_float: "is_float b \<Longrightarrow> a \<le> b \<Longrightarrow> fl a \<le> b"
  using fl_mono [of a b] by (simp add: is_float_def)

lemma float_le_fl: "is_float a \<Longrightarrow> a \<le> b \<Longrightarrow> a \<le> fl b"
  using fl_mono [of a b] by (simp add: is_float_def)

lemma robot_default_ok: "i \<noteq> [] \<Longrightarrow> robot_ok (robot_default i p) \<and> is_available (robot_default i p)"
  by (simp add: robot_default_def inv_defs MAX_BATTERY_def MIN_BATTERY_def is_float_numeral
      DEFAULT_BATTERY_DRAIN_PER_MOVE_def is_available_def available_statuses_def)

lemma robot_post_init_Inr:
  "robot_post_init r = Inr r' \<longleftrightarrow> r' = r \<and> robot_id r \<noteq> [] \<and> 0 \<le> payload_capacity r \<and>
     0 \<le> current_payload r \<and> current_payload r \<le> payload_capacity r \<and> 0 \<le> battery_drain_per_move r \<and>
     0 \<le> battery_level r \<and> battery_level r \<le> 100"
  by (auto simp: robot_post_init_def MIN_BATTERY_def MAX_BATTERY_def)

lemma drain_battery_bounds:
  assumes "0 \<le> amount" "is_float (battery_level r)" "battery_level r \<le> MAX_BATTERY"
  shows "MIN_BATTERY \<le> battery_level (drain_battery amount r)"
    and "battery_level (drain_battery amount r) \<le> MAX_BATTERY"
    and "is_float (battery_level (drain_battery amount r))"
proof -
  have "fl (battery_level r - amount) \<le> battery_level r" using assms by (intro fl_le_float) auto
  then show "battery_level (drain_battery amount r) \<le> MAX_BATTERY"
    using assms(3) by (simp add: drain_battery_def MIN_BATTERY_def MAX_BATTERY_def)
qed (simp_all add: drain_battery_def max_def)

section \<open>Moving\<close>

text \<open>The clamp never bites: the guard leaves enough charge for the move.\<close>

lemma move_to_Inr:
  assumes "robot_core_ok r" "move_to dest r = Inr r'"
  shows "is_adjacent_to (robot_position r) dest" "battery_drain_per_move r \<le> battery_level r"
    "r' = r\<lparr>robot_position := dest, steps_taken := steps_taken r + 1,
            distance_travelled := fl (distance_travelled r + 1),
            battery_level := fl (battery_level r - battery_drain_per_move r),
            robot_status := R_MOVING, last_error := None\<rparr>"
proof -
  from assms(2) show "is_adjacent_to (robot_position r) dest"
    and b: "battery_drain_per_move r \<le> battery_level r"
    by (auto simp: move_to_def has_battery_for_move_def split: if_splits)
  have "0 \<le> fl (battery_level r - battery_drain_per_move r)" using b by simp
  then show "r' = r\<lparr>robot_position := dest, steps_taken := steps_taken r + 1,
            distance_travelled := fl (distance_travelled r + 1),
            battery_level := fl (battery_level r - battery_drain_per_move r),
            robot_status := R_MOVING, last_error := None\<rparr>"
    using assms(2) by (auto simp: move_to_def Let_def drain_battery_def MIN_BATTERY_def MOVE_COST_def max_def split: if_splits)
qed

lemma move_to_ex: "is_adjacent_to (robot_position r) dest \<Longrightarrow> has_battery_for_move r \<Longrightarrow> \<exists>r'. move_to dest r = Inr r'"
  by (simp add: move_to_def Let_def)

lemma move_to_frame:
  assumes "move_to dest r = Inr r'"
  shows "robot_id r' = robot_id r" "robot_position r' = dest" "payload_capacity r' = payload_capacity r"
    "current_payload r' = current_payload r" "assigned_task_id r' = assigned_task_id r"
    "battery_drain_per_move r' = battery_drain_per_move r" "robot_status r' = R_MOVING"
    "steps_taken r' = steps_taken r + 1" "distance_travelled r' = fl (distance_travelled r + 1)"
  using assms by (auto simp: move_to_def Let_def drain_battery_def MOVE_COST_def split: if_splits)

lemma move_to_ok:
  assumes "robot_core_ok r" "move_to dest r = Inr r'"
  shows "robot_core_ok r'"
proof -
  note m = move_to_Inr [OF assms]
  have "fl (battery_level r - battery_drain_per_move r) \<le> battery_level r"
    using assms(1) by (intro fl_le_float) (auto simp: robot_core_ok_def)
  then show ?thesis using assms(1) m(2) unfolding m(3)
    by (auto simp: robot_core_ok_def MIN_BATTERY_def)
qed

section \<open>Battery and payload\<close>

lemma recharge_Inr:
  assumes "robot_core_ok r" "recharge amount r = Inr (added, r')"
  shows "robot_core_ok r'" "battery_level r \<le> battery_level r'" "0 \<le> added"
    "battery_level r' = min MAX_BATTERY (fl (battery_level r + amount))"
    "r' = r\<lparr>battery_level := battery_level r'\<rparr>"
proof -
  from assms(2) have a: "0 \<le> amount"
    and r': "r' = r\<lparr>battery_level := min MAX_BATTERY (fl (battery_level r + amount))\<rparr>"
    and added: "added = fl (battery_level r' - battery_level r)"
    by (auto simp: recharge_def Let_def split: if_splits)
  have "battery_level r \<le> fl (battery_level r + amount)"
    using assms(1) a by (intro float_le_fl) (auto simp: robot_core_ok_def)
  then show le: "battery_level r \<le> battery_level r'" using assms(1) r' by (simp add: robot_core_ok_def)
  show "0 \<le> added" using le added by simp
  show "robot_core_ok r'" using assms(1) le unfolding r'
    by (auto simp: robot_core_ok_def min_def)
qed (use assms(2) in \<open>auto simp: recharge_def Let_def split: if_splits\<close>)

lemma load_ok: "robot_core_ok r \<Longrightarrow> load wt r = Inr r' \<Longrightarrow> robot_core_ok r'"
  by (auto simp: load_def robot_core_ok_def split: if_splits)

text \<open>Where the free capacity is computed without rounding, a load never exceeds the capacity.\<close>

lemma load_payload_ok:
  assumes "robot_ok r" "load wt r = Inr r'"
    and "is_float (payload_capacity r - current_payload r)"
  shows "payload_ok r'"
proof -
  have "wt \<le> payload_capacity r - current_payload r"
    using assms(2,3) by (auto simp: load_def can_carry_def remaining_capacity_def is_float_def split: if_splits)
  then have "fl (current_payload r + wt) \<le> payload_capacity r"
    using assms(1) by (intro fl_le_float) (auto simp: inv_defs)
  then show ?thesis using assms(2) by (auto simp: load_def payload_ok_def split: if_splits)
qed

lemma unload_ok: "robot_core_ok r \<Longrightarrow> robot_ok (snd (unload r)) \<and> fst (unload r) = current_payload r"
  by (auto simp: unload_def inv_defs)

lemma set_status_ok [simp]: "robot_core_ok (set_status s r) = robot_core_ok r"
  by (simp add: set_status_def robot_core_ok_def)

lemma clear_task_ok [simp]: "robot_core_ok (clear_task r) = robot_core_ok r"
  by (simp add: clear_task_def robot_core_ok_def)

lemma robot_core_ok_updates [simp]:
  "robot_core_ok (r\<lparr>last_error := x\<rparr>) = robot_core_ok r"
  "robot_core_ok (r\<lparr>robot_status := st\<rparr>) = robot_core_ok r"
  "robot_core_ok (r\<lparr>assigned_task_id := a\<rparr>) = robot_core_ok r"
  by (simp_all add: robot_core_ok_def)

lemma robot_assign_task_Inr:
  "robot_assign_task tid r = Inr r' \<longleftrightarrow> is_available r \<and> r' = r\<lparr>assigned_task_id := Some tid, robot_status := R_ASSIGNED\<rparr>"
  by (auto simp: robot_assign_task_def)

lemma robot_assign_task_ok: "robot_core_ok r \<Longrightarrow> robot_assign_task tid r = Inr r' \<Longrightarrow> robot_core_ok r'"
  by (auto simp: robot_assign_task_Inr robot_core_ok_def)

end
