(* ===== verification/Simulator.thy ===== *)
theory Simulator
  imports Warehouse Robot Task
begin

text \<open>
  The simulator (\<open>simulation/simulator.py\<close>): the registries of robots and tasks over one
  warehouse, and every operation that changes them. An operation that can change the state
  and still raise (\<open>move_robot\<close> records \<open>last_error\<close>, \<open>charge_robot\<close> sets the status before
  it checks the amount) returns its outcome together with the state. \<open>sim_ok\<close> is the
  invariant: no two robots on a cell, no robot on a blocked cell; \<open>links_ok\<close> is the
  agreement between a robot's task and the task's robot.
\<close>

section \<open>State\<close>

record simulator =
  sim_warehouse :: warehouse
  sim_robots :: "(string, robot) dict"
  sim_tasks :: "(string, task) dict"

definition sim_init :: "warehouse \<Rightarrow> simulator" where
  "sim_init w = \<lparr>sim_warehouse = w, sim_robots = [], sim_tasks = []\<rparr>"

definition get_robot :: "simulator \<Rightarrow> string \<Rightarrow> py_error + robot" where
  "get_robot s rid = (case dict_get (sim_robots s) rid of None \<Rightarrow> Inl SimulationError | Some r \<Rightarrow> Inr r)"

definition get_task :: "simulator \<Rightarrow> string \<Rightarrow> py_error + task" where
  "get_task s tid = (case dict_get (sim_tasks s) tid of None \<Rightarrow> Inl SimulationError | Some t \<Rightarrow> Inr t)"

text \<open>A change of a robot or task object is a change of the registry entry under its key.\<close>

definition put_robot :: "string \<Rightarrow> robot \<Rightarrow> simulator \<Rightarrow> simulator" where
  "put_robot rid r s = s\<lparr>sim_robots := dict_set rid r (sim_robots s)\<rparr>"

definition put_task :: "string \<Rightarrow> task \<Rightarrow> simulator \<Rightarrow> simulator" where
  "put_task tid t s = s\<lparr>sim_tasks := dict_set tid t (sim_tasks s)\<rparr>"

section \<open>Robots\<close>

definition robot_at :: "simulator \<Rightarrow> position \<Rightarrow> robot option" where
  "robot_at s p = find (\<lambda>r. robot_position r = p) (dict_values (sim_robots s))"

definition occupied_cells :: "simulator \<Rightarrow> position set" where
  "occupied_cells s = set (map robot_position (dict_values (sim_robots s)))"

definition add_robot :: "robot \<Rightarrow> simulator \<Rightarrow> py_error + simulator" where
  "add_robot r s =
     (if dict_get (sim_robots s) (robot_id r) \<noteq> None then Inl SimulationError
      else if \<not> in_bounds (sim_warehouse s) (robot_position r) then Inl InvalidPositionError
      else if \<not> is_traversable (sim_warehouse s) (robot_position r) then Inl InvalidPositionError
      else if robot_at s (robot_position r) \<noteq> None then Inl SimulationError
      else Inr (put_robot (robot_id r) r s))"

definition release_task :: "string \<Rightarrow> task \<Rightarrow> py_error + task" where
  "release_task rid t =
     (if task_status t = T_IN_PROGRESS then fail_task (Fail_Removed rid) t else unassign t)"

definition remove_robot :: "string \<Rightarrow> simulator \<Rightarrow> py_error + robot \<times> simulator" where
  "remove_robot rid s = res_bind (get_robot s rid) (\<lambda>r.
     case assigned_task_id r of
       None \<Rightarrow> Inr (r, s\<lparr>sim_robots := dict_del rid (sim_robots s)\<rparr>)
     | Some tid \<Rightarrow>
         res_bind (case dict_get (sim_tasks s) tid of
             None \<Rightarrow> Inr s
           | Some t \<Rightarrow> if is_open t then res_bind (release_task rid t) (\<lambda>t'. Inr (put_task tid t' s)) else Inr s)
         (\<lambda>s'. Inr (clear_task r, s'\<lparr>sim_robots := dict_del rid (sim_robots s')\<rparr>)))"

section \<open>Movement\<close>

definition validate_move :: "string \<Rightarrow> position \<Rightarrow> simulator \<Rightarrow> py_error + move_reason option" where
  "validate_move rid dest s = res_bind (get_robot s rid) (\<lambda>r.
     if robot_status r = R_OFFLINE then Inr (Some (Reason_Offline rid))
     else if \<not> in_bounds (sim_warehouse s) dest then Inr (Some (Reason_Outside dest))
     else if \<not> is_adjacent_to (robot_position r) dest then Inr (Some (Reason_NotAdjacent dest (robot_position r)))
     else if is_blocked_by_static (sim_warehouse s) dest then Inr (Some (Reason_Static dest))
     else if is_blocked_by_dynamic (sim_warehouse s) dest then Inr (Some (Reason_Dynamic dest))
     else case robot_at s dest of
       Some occupant \<Rightarrow> Inr (Some (Reason_Occupied dest (robot_id occupant)))
     | None \<Rightarrow>
         if \<not> has_battery_for_move r
         then Inr (Some (Reason_Battery rid (battery_level r) (battery_drain_per_move r)))
         else Inr None)"

definition move_robot :: "string \<Rightarrow> position \<Rightarrow> simulator \<Rightarrow> (py_error + robot) \<times> simulator" where
  "move_robot rid dest s =
     (case get_robot s rid of
        Inl e \<Rightarrow> (Inl e, s)
      | Inr r \<Rightarrow>
         (case validate_move rid dest s of
            Inl e \<Rightarrow> (Inl e, s)
          | Inr (Some reason) \<Rightarrow>
              (Inl (InvalidMoveError reason), put_robot rid (r\<lparr>last_error := Some reason\<rparr>) s)
          | Inr None \<Rightarrow>
              (case move_to dest r of
                 Inl e \<Rightarrow> (Inl e, s)
               | Inr r' \<Rightarrow> (Inr r', put_robot rid r' s))))"

section \<open>Battery\<close>

definition charge_robot :: "string \<Rightarrow> pyfloat \<Rightarrow> simulator \<Rightarrow> (py_error + pyfloat) \<times> simulator" where
  "charge_robot rid amount s =
     (case get_robot s rid of
        Inl e \<Rightarrow> (Inl e, s)
      | Inr r \<Rightarrow>
         (case is_charging_station (sim_warehouse s) (robot_position r) of
            Inl e \<Rightarrow> (Inl e, s)
          | Inr False \<Rightarrow> (Inl SimulationError, s)
          | Inr True \<Rightarrow>
              let r1 = set_status R_CHARGING r
              in (case recharge amount r1 of
                    Inl e \<Rightarrow> (Inl e, put_robot rid r1 s)
                  | Inr (added, r2) \<Rightarrow> (Inr added, put_robot rid r2 s))))"

section \<open>Tasks\<close>

fun check_endpoints :: "warehouse \<Rightarrow> position list \<Rightarrow> py_error + unit" where
  "check_endpoints w [] = Inr ()"
| "check_endpoints w (p # ps) =
     (if \<not> in_bounds w p then Inl InvalidPositionError
      else if is_blocked_by_static w p then Inl InvalidPositionError
      else check_endpoints w ps)"

definition add_task :: "task \<Rightarrow> simulator \<Rightarrow> py_error + simulator" where
  "add_task t s =
     (if dict_get (sim_tasks s) (task_id t) \<noteq> None then Inl SimulationError
      else res_bind (check_endpoints (sim_warehouse s) [pickup_location t, dropoff_location t]) (\<lambda>_.
        Inr (put_task (task_id t) t s)))"

definition assign_task_manually :: "string \<Rightarrow> string \<Rightarrow> simulator \<Rightarrow> py_error + simulator" where
  "assign_task_manually tid rid s =
     res_bind (get_task s tid) (\<lambda>t.
     res_bind (get_robot s rid) (\<lambda>r.
     if task_status t \<noteq> T_PENDING then Inl SimulationError
     else if \<not> is_available r then Inl SimulationError
     else if \<not> can_carry r (payload_weight t) then Inl SimulationError
     else res_bind (robot_assign_task (task_id t) r) (\<lambda>r'.
          res_bind (assign_to (robot_id r) t) (\<lambda>t'.
            Inr (put_task tid t' (put_robot rid r' s))))))"

definition sim_pending_tasks :: "simulator \<Rightarrow> task list" where
  "sim_pending_tasks s =
     sort_key (\<lambda>t. (- priority_value (priority t), task_id t))
       (filter (\<lambda>t. task_status t = T_PENDING) (dict_values (sim_tasks s)))"

section \<open>Obstacles\<close>

definition sim_add_dynamic_obstacle ::
  "string \<Rightarrow> position \<Rightarrow> string \<Rightarrow> simulator \<Rightarrow> py_error + obstacle \<times> simulator" where
  "sim_add_dynamic_obstacle i p desc s =
     (if robot_at s p \<noteq> None then Inl SimulationError
      else res_bind (add_dynamic_obstacle i p desc (sim_warehouse s)) (\<lambda>(ob, w).
        Inr (ob, s\<lparr>sim_warehouse := w\<rparr>)))"

definition sim_remove_dynamic_obstacle :: "string \<Rightarrow> simulator \<Rightarrow> py_error + obstacle \<times> simulator" where
  "sim_remove_dynamic_obstacle i s =
     res_bind (remove_dynamic_obstacle i (sim_warehouse s)) (\<lambda>(ob, w). Inr (ob, s\<lparr>sim_warehouse := w\<rparr>))"

section \<open>Invariant\<close>

definition robots_ok :: "warehouse \<Rightarrow> (string, robot) dict \<Rightarrow> bool" where
  [inv_defs]: "robots_ok w d \<longleftrightarrow> dict_ok d \<and>
     (\<forall>i r. dict_get d i = Some r \<longrightarrow> robot_id r = i \<and> robot_core_ok r \<and> is_traversable w (robot_position r)) \<and>
     (\<forall>i j r q. dict_get d i = Some r \<longrightarrow> dict_get d j = Some q \<longrightarrow> robot_position r = robot_position q \<longrightarrow> i = j)"

definition tasks_ok :: "(string, task) dict \<Rightarrow> bool" where
  [inv_defs]: "tasks_ok d \<longleftrightarrow> dict_ok d \<and> (\<forall>i t. dict_get d i = Some t \<longrightarrow> task_id t = i \<and> task_ok t)"

definition sim_ok :: "simulator \<Rightarrow> bool" where
  [inv_defs]: "sim_ok s \<longleftrightarrow> warehouse_ok (sim_warehouse s) \<and> robots_ok (sim_warehouse s) (sim_robots s) \<and>
     tasks_ok (sim_tasks s)"

text \<open>A robot's task is a live task of that robot, and a live task's robot holds it.\<close>

definition links_ok :: "simulator \<Rightarrow> bool" where
  [inv_defs]: "links_ok s \<longleftrightarrow>
     (\<forall>i r tid. dict_get (sim_robots s) i = Some r \<longrightarrow> assigned_task_id r = Some tid \<longrightarrow>
        (\<exists>t. dict_get (sim_tasks s) tid = Some t \<and> assigned_robot_id t = Some i \<and>
             task_status t \<in> {T_ASSIGNED, T_IN_PROGRESS})) \<and>
     (\<forall>tid t. dict_get (sim_tasks s) tid = Some t \<longrightarrow> task_status t \<in> {T_ASSIGNED, T_IN_PROGRESS} \<longrightarrow>
        (\<exists>i r. assigned_robot_id t = Some i \<and> dict_get (sim_robots s) i = Some r \<and> assigned_task_id r = Some tid))"

lemma sim_init_ok: "warehouse_ok w \<Longrightarrow> sim_ok (sim_init w) \<and> links_ok (sim_init w)"
  by (simp add: sim_init_def sim_ok_def robots_ok_def tasks_ok_def links_ok_def)

section \<open>Registry facts\<close>

lemma get_robot_Inr [simp]: "get_robot s i = Inr r \<longleftrightarrow> dict_get (sim_robots s) i = Some r"
  by (simp add: get_robot_def split: option.splits)

lemma get_task_Inr [simp]: "get_task s i = Inr t \<longleftrightarrow> dict_get (sim_tasks s) i = Some t"
  by (simp add: get_task_def split: option.splits)

lemma get_robot_eq [simp]: "dict_get (sim_robots s) i = Some r \<Longrightarrow> get_robot s i = Inr r"
  by simp

lemma get_task_eq [simp]: "dict_get (sim_tasks s) i = Some t \<Longrightarrow> get_task s i = Inr t"
  by simp

lemma put_robot_simps [simp]:
  "sim_warehouse (put_robot i r s) = sim_warehouse s"
  "sim_tasks (put_robot i r s) = sim_tasks s"
  "sim_robots (put_robot i r s) = dict_set i r (sim_robots s)"
  by (simp_all add: put_robot_def)

lemma put_task_simps [simp]:
  "sim_warehouse (put_task i t s) = sim_warehouse s"
  "sim_robots (put_task i t s) = sim_robots s"
  "sim_tasks (put_task i t s) = dict_set i t (sim_tasks s)"
  by (simp_all add: put_task_def)

lemma robot_at_None:
  assumes "dict_ok (sim_robots s)"
  shows "robot_at s p = None \<longleftrightarrow> (\<forall>i r. dict_get (sim_robots s) i = Some r \<longrightarrow> robot_position r \<noteq> p)"
  using assms by (force simp: robot_at_def find_None_iff dict_get_Some_iff)

lemma robot_at_Some: "robot_at s p = Some r \<Longrightarrow> robot_position r = p \<and> r \<in> set (dict_values (sim_robots s))"
  by (auto simp: robot_at_def find_Some_iff)

lemma robots_ok_dict [simp]: "robots_ok w d \<Longrightarrow> dict_ok d"
  by (simp add: robots_ok_def)

lemma robots_okD:
  "robots_ok w d \<Longrightarrow> dict_get d i = Some r \<Longrightarrow> robot_id r = i \<and> robot_core_ok r \<and> is_traversable w (robot_position r)"
  by (simp add: robots_ok_def)

lemma robots_ok_inj:
  "robots_ok w d \<Longrightarrow> dict_get d i = Some r \<Longrightarrow> dict_get d j = Some q \<Longrightarrow> robot_position r = robot_position q \<Longrightarrow> i = j"
  by (simp add: robots_ok_def)

lemma robots_ok_put:
  assumes "robots_ok w d" "robot_id r = i" "robot_core_ok r" "is_traversable w (robot_position r)"
    and "\<And>j q. dict_get d j = Some q \<Longrightarrow> j \<noteq> i \<Longrightarrow> robot_position q \<noteq> robot_position r"
  shows "robots_ok w (dict_set i r d)"
  unfolding robots_ok_def
proof (intro conjI allI impI)
  fix j k q q'
  assume a: "dict_get (dict_set i r d) j = Some q" "dict_get (dict_set i r d) k = Some q'"
    "robot_position q = robot_position q'"
  show "j = k"
    using a assms(5) [of j q] assms(5) [of k q'] robots_ok_inj [OF assms(1), of j q k q']
    by (auto split: if_splits)
qed (use assms robots_okD [OF assms(1)] in \<open>simp_all split: if_splits\<close>)

lemma robots_ok_update:
  assumes "robots_ok w d" "dict_get d i = Some r" "robot_id r' = robot_id r"
    "robot_position r' = robot_position r" "robot_core_ok r'"
  shows "robots_ok w (dict_set i r' d)"
proof (rule robots_ok_put [OF assms(1)])
  show "robot_id r' = i" "robot_core_ok r'" "is_traversable w (robot_position r')"
    using robots_okD [OF assms(1,2)] assms(3-5) by simp_all
  show "robot_position q \<noteq> robot_position r'" if "dict_get d j = Some q" "j \<noteq> i" for j q
    using robots_ok_inj [OF assms(1,2) that(1)] that(2) assms(4) by metis
qed

lemma robots_ok_del: "robots_ok w d \<Longrightarrow> robots_ok w (dict_del i d)"
  unfolding robots_ok_def by (auto split: if_splits)

lemma robots_ok_warehouse:
  "robots_ok w d \<Longrightarrow> (\<And>i r. dict_get d i = Some r \<Longrightarrow> is_traversable w' (robot_position r)) \<Longrightarrow> robots_ok w' d"
  unfolding robots_ok_def by blast

lemma tasks_okD: "tasks_ok d \<Longrightarrow> dict_get d i = Some t \<Longrightarrow> task_id t = i \<and> task_ok t"
  by (simp add: tasks_ok_def)

lemma tasks_ok_put: "tasks_ok d \<Longrightarrow> task_id t = i \<Longrightarrow> task_ok t \<Longrightarrow> tasks_ok (dict_set i t d)"
  by (auto simp: tasks_ok_def)

section \<open>What each operation does when it succeeds\<close>

lemma add_robot_Inr:
  "add_robot r s = Inr s' \<longleftrightarrow> dict_get (sim_robots s) (robot_id r) = None \<and>
     is_traversable (sim_warehouse s) (robot_position r) \<and> robot_at s (robot_position r) = None \<and>
     s' = put_robot (robot_id r) r s"
  by (auto simp: add_robot_def is_traversable_in_bounds)

lemma check_endpoints_Inr:
  "check_endpoints w ps = Inr u \<longleftrightarrow> (\<forall>p \<in> set ps. in_bounds w p \<and> \<not> is_blocked_by_static w p)"
  by (induction ps) auto

lemma add_task_Inr:
  "add_task t s = Inr s' \<longleftrightarrow> dict_get (sim_tasks s) (task_id t) = None \<and>
     (\<forall>p \<in> {pickup_location t, dropoff_location t}. in_bounds (sim_warehouse s) p \<and> \<not> is_blocked_by_static (sim_warehouse s) p) \<and>
     s' = put_task (task_id t) t s"
  by (auto simp: add_task_def res_bind_Inr check_endpoints_Inr simp del: check_endpoints.simps)

lemma validate_move_None:
  assumes "dict_ok (sim_robots s)" "dict_get (sim_robots s) rid = Some r"
  shows "validate_move rid dest s = Inr None \<longleftrightarrow> robot_status r \<noteq> R_OFFLINE \<and> in_bounds (sim_warehouse s) dest \<and>
     is_adjacent_to (robot_position r) dest \<and> \<not> is_blocked_by_static (sim_warehouse s) dest \<and>
     \<not> is_blocked_by_dynamic (sim_warehouse s) dest \<and> robot_at s dest = None \<and> has_battery_for_move r"
  using assms by (simp add: validate_move_def split: option.splits)

lemma validate_move_total:
  "dict_get (sim_robots s) rid = Some r \<Longrightarrow> \<exists>x. validate_move rid dest s = Inr x"
  by (simp add: validate_move_def split: option.splits)

text \<open>After a successful validation the robot's own checks cannot fail.\<close>

lemma move_robot_cases:
  assumes "dict_ok (sim_robots s)" "dict_get (sim_robots s) rid = Some r"
  obtains (ok) r' where "validate_move rid dest s = Inr None" "move_to dest r = Inr r'"
      "move_robot rid dest s = (Inr r', put_robot rid r' s)"
  | (refused) reason where "validate_move rid dest s = Inr (Some reason)"
      "move_robot rid dest s = (Inl (InvalidMoveError reason), put_robot rid (r\<lparr>last_error := Some reason\<rparr>) s)"
proof -
  from validate_move_total [OF assms(2)] obtain x where x: "validate_move rid dest s = Inr x" by blast
  show ?thesis
  proof (cases x)
    case None
    then obtain r' where "move_to dest r = Inr r'"
      using move_to_ex x validate_move_None [OF assms, of dest] by blast
    then have "move_robot rid dest s = (Inr r', put_robot rid r' s)"
      using x None assms(2) by (simp add: move_robot_def)
    with ok x None \<open>move_to dest r = Inr r'\<close> show ?thesis by blast
  next
    case (Some reason)
    then have "move_robot rid dest s = (Inl (InvalidMoveError reason), put_robot rid (r\<lparr>last_error := Some reason\<rparr>) s)"
      using x assms(2) by (simp add: move_robot_def)
    with refused x Some show ?thesis by blast
  qed
qed

lemma assign_task_manually_Inr:
  assumes "assign_task_manually tid rid s = Inr s'"
  obtains t r where "dict_get (sim_tasks s) tid = Some t" "dict_get (sim_robots s) rid = Some r"
    "task_status t = T_PENDING" "is_available r" "can_carry r (payload_weight t)"
    "s' = put_task tid (t\<lparr>task_status := T_ASSIGNED, assigned_robot_id := Some (robot_id r)\<rparr>)
          (put_robot rid (r\<lparr>assigned_task_id := Some (task_id t), robot_status := R_ASSIGNED\<rparr>) s)"
  using assms
  by (auto simp: assign_task_manually_def res_bind_Inr robot_assign_task_Inr lifecycle_defs split: if_splits)

text \<open>The three checks are all that can refuse an assignment of known ids.\<close>

lemma assign_task_manually_ex:
  assumes "dict_get (sim_tasks s) tid = Some t" "dict_get (sim_robots s) rid = Some r"
    "task_status t = T_PENDING" "is_available r" "can_carry r (payload_weight t)"
  shows "\<exists>s'. assign_task_manually tid rid s = Inr s'"
  using assms by (simp add: assign_task_manually_def robot_assign_task_def assign_to_def transition_to_def)

section \<open>Every operation keeps the invariant\<close>

lemma add_robot_ok:
  assumes "sim_ok s" "add_robot r s = Inr s'" "robot_core_ok r"
  shows "sim_ok s'"
proof -
  from assms(2) have a: "is_traversable (sim_warehouse s) (robot_position r)" "robot_at s (robot_position r) = None"
    and s': "s' = put_robot (robot_id r) r s" by (auto simp: add_robot_Inr)
  have R: "robots_ok (sim_warehouse s) (sim_robots s)" using assms(1) by (simp add: sim_ok_def)
  have "robots_ok (sim_warehouse s) (dict_set (robot_id r) r (sim_robots s))"
    using R assms(3) a robot_at_None [OF robots_ok_dict [OF R], of "robot_position r"]
    by (intro robots_ok_put) blast+
  then show ?thesis using assms(1) by (simp add: sim_ok_def s')
qed

lemma put_robot_ok:
  assumes "sim_ok s" "dict_get (sim_robots s) i = Some r" "robot_id r' = robot_id r"
    "robot_position r' = robot_position r" "robot_core_ok r'"
  shows "sim_ok (put_robot i r' s)"
  using assms robots_ok_update [OF _ assms(2-5)] by (simp add: sim_ok_def)

lemma put_task_ok:
  assumes "sim_ok s" "task_id t = i" "task_ok t"
  shows "sim_ok (put_task i t s)"
  using assms by (simp add: sim_ok_def tasks_ok_put)

lemma sim_ok_robots: "sim_ok s \<Longrightarrow> robots_ok (sim_warehouse s) (sim_robots s)"
  by (simp add: sim_ok_def)

lemma sim_ok_dicts [simp]: "sim_ok s \<Longrightarrow> dict_ok (sim_robots s)" "sim_ok s \<Longrightarrow> dict_ok (sim_tasks s)"
  by (simp_all add: sim_ok_def robots_ok_def tasks_ok_def)

lemma sim_ok_robotD:
  "sim_ok s \<Longrightarrow> dict_get (sim_robots s) i = Some r \<Longrightarrow>
     robot_id r = i \<and> robot_core_ok r \<and> is_traversable (sim_warehouse s) (robot_position r)"
  using robots_okD [OF sim_ok_robots] by blast

lemma sim_ok_taskD: "sim_ok s \<Longrightarrow> dict_get (sim_tasks s) i = Some t \<Longrightarrow> task_id t = i \<and> task_ok t"
  by (auto simp: sim_ok_def dest: tasks_okD)

lemma move_commit_ok:
  assumes "sim_ok s" "dict_get (sim_robots s) rid = Some r" "move_to dest r = Inr r'"
    "is_traversable (sim_warehouse s) dest"
    "\<And>j q. dict_get (sim_robots s) j = Some q \<Longrightarrow> j \<noteq> rid \<Longrightarrow> robot_position q \<noteq> dest"
  shows "sim_ok (put_robot rid r' s)"
proof -
  note m = move_to_frame [OF assms(3)] and d = sim_ok_robotD [OF assms(1,2)]
  have "robots_ok (sim_warehouse s) (dict_set rid r' (sim_robots s))"
    using sim_ok_robots [OF assms(1)] move_to_ok [OF _ assms(3)] d assms(4,5)
    by (intro robots_ok_put) (simp_all add: m)
  then show ?thesis using assms(1) by (simp add: sim_ok_def)
qed

lemma move_robot_ok:
  assumes "sim_ok s"
  shows "sim_ok (snd (move_robot rid dest s))"
proof (cases "dict_get (sim_robots s) rid")
  case None
  then show ?thesis using assms by (simp add: move_robot_def get_robot_def)
next
  case (Some r)
  note d = sim_ok_dicts(1) [OF assms]
  from d Some show ?thesis
  proof (cases rule: move_robot_cases [of s rid r dest])
    case (ok r')
    note v = validate_move_None [OF d Some, THEN iffD1, OF ok(1)]
    have "sim_ok (put_robot rid r' s)"
      using v assms robot_at_None [OF d, of dest]
      by (intro move_commit_ok [OF assms Some ok(2)] not_static_traversable) (auto simp: sim_ok_def)
    then show ?thesis by (simp add: ok(3))
  next
    case (refused reason)
    have "sim_ok (put_robot rid (r\<lparr>last_error := Some reason\<rparr>) s)"
      using sim_ok_robotD [OF assms Some] by (intro put_robot_ok [OF assms Some]) simp_all
    then show ?thesis by (simp add: refused(2))
  qed
qed

lemma charge_robot_ok:
  assumes "sim_ok s"
  shows "sim_ok (snd (charge_robot rid amount s))"
proof (cases "dict_get (sim_robots s) rid")
  case None
  then show ?thesis using assms by (simp add: charge_robot_def get_robot_def)
next
  case (Some r)
  note d = sim_ok_robotD [OF assms Some]
  have c: "robot_core_ok (set_status R_CHARGING r)" using d by simp
  have 1: "sim_ok (put_robot rid (set_status R_CHARGING r) s)"
    using c by (intro put_robot_ok [OF assms Some]) (simp_all add: set_status_def)
  have 2: "sim_ok (put_robot rid r2 s)" if "recharge amount (set_status R_CHARGING r) = Inr (added, r2)" for added r2
  proof (rule put_robot_ok [OF assms Some])
    note rc = recharge_Inr [OF c that]
    show "robot_core_ok r2" by (fact rc(1))
    show "robot_id r2 = robot_id r" "robot_position r2 = robot_position r"
      by (subst rc(5), simp add: set_status_def)+
  qed
  show ?thesis using assms Some 1 2
    by (auto simp: charge_robot_def Let_def split: sum.splits bool.splits)
qed

lemma add_task_ok: "sim_ok s \<Longrightarrow> task_ok t \<Longrightarrow> add_task t s = Inr s' \<Longrightarrow> sim_ok s'"
  by (auto simp: add_task_Inr intro: put_task_ok)

lemma assign_task_manually_ok:
  assumes "sim_ok s" "assign_task_manually tid rid s = Inr s'"
  shows "sim_ok s'"
proof -
  from assms(2) obtain t r where a: "dict_get (sim_tasks s) tid = Some t" "dict_get (sim_robots s) rid = Some r"
    "task_status t = T_PENDING"
    and s': "s' = put_task tid (t\<lparr>task_status := T_ASSIGNED, assigned_robot_id := Some (robot_id r)\<rparr>)
          (put_robot rid (r\<lparr>assigned_task_id := Some (task_id t), robot_status := R_ASSIGNED\<rparr>) s)"
    by (rule assign_task_manually_Inr)
  have "sim_ok (put_robot rid (r\<lparr>assigned_task_id := Some (task_id t), robot_status := R_ASSIGNED\<rparr>) s)"
    using sim_ok_robotD [OF assms(1) a(2)] by (intro put_robot_ok [OF assms(1) a(2)]) simp_all
  then show ?thesis unfolding s'
    using sim_ok_taskD [OF assms(1) a(1)] a(3) by (intro put_task_ok) (auto simp: task_ok_def)
qed

lemma del_robot_ok: "sim_ok s \<Longrightarrow> sim_ok (s\<lparr>sim_robots := dict_del rid (sim_robots s)\<rparr>)"
  by (simp add: sim_ok_def robots_ok_del)

lemma release_task_step: "release_task rid t = Inr t' \<Longrightarrow> task_step t t'"
  unfolding release_task_def by (auto intro: step_unassign step_fail split: if_splits)

lemma release_task_ok: "task_ok t \<Longrightarrow> release_task rid t = Inr t' \<Longrightarrow> task_ok t' \<and> task_id t' = task_id t"
  using task_step_ok task_step_frame release_task_step by blast

text \<open>What \<open>remove_robot\<close> does to the tasks: nothing, or one open task is released.\<close>

lemma remove_robot_Inr:
  assumes "remove_robot rid s = Inr (r', s')"
  obtains (no_task) r where "dict_get (sim_robots s) rid = Some r"
      "s' = s\<lparr>sim_robots := dict_del rid (sim_robots s)\<rparr>"
      "\<And>tid t. assigned_task_id r = Some tid \<Longrightarrow> dict_get (sim_tasks s) tid = Some t \<Longrightarrow> \<not> is_open t"
  | (release) r tid t t' where "dict_get (sim_robots s) rid = Some r" "assigned_task_id r = Some tid"
      "dict_get (sim_tasks s) tid = Some t" "release_task rid t = Inr t'"
      "s' = put_task tid t' (s\<lparr>sim_robots := dict_del rid (sim_robots s)\<rparr>)"
proof -
  from assms obtain r where r: "dict_get (sim_robots s) rid = Some r"
    by (auto simp: remove_robot_def res_bind_Inr)
  show ?thesis
  proof (cases "assigned_task_id r")
    case None
    then show ?thesis using assms r no_task [OF r] by (auto simp: remove_robot_def)
  next
    case (Some tid)
    show ?thesis
    proof (cases "dict_get (sim_tasks s) tid")
      case None
      then show ?thesis using assms r Some by (intro no_task [OF r]) (auto simp: remove_robot_def)
    next
      case t: (Some t)
      show ?thesis
      proof (cases "is_open t")
        case True
        with assms r Some t obtain t' where "release_task rid t = Inr t'"
          "s' = put_task tid t' (s\<lparr>sim_robots := dict_del rid (sim_robots s)\<rparr>)"
          by (auto simp: remove_robot_def res_bind_Inr put_task_def)
        then show ?thesis using release r Some t by blast
      next
        case False
        then show ?thesis using assms r Some t by (intro no_task [OF r]) (auto simp: remove_robot_def)
      qed
    qed
  qed
qed

lemma remove_robot_ok:
  assumes "sim_ok s" "remove_robot rid s = Inr (r, s')"
  shows "sim_ok s'"
  using assms(2)
proof (cases rule: remove_robot_Inr)
  case no_task
  then show ?thesis using del_robot_ok assms(1) by simp
next
  case (release r tid t t')
  then show ?thesis using release_task_ok sim_ok_taskD [OF assms(1)] del_robot_ok [OF assms(1)]
    by (metis put_task_ok)
qed

lemma sim_warehouse_change_ok:
  assumes "sim_ok s" "warehouse_ok w"
    "\<And>i r. dict_get (sim_robots s) i = Some r \<Longrightarrow> is_traversable w (robot_position r)"
  shows "sim_ok (s\<lparr>sim_warehouse := w\<rparr>)"
  using assms robots_ok_warehouse by (auto simp: sim_ok_def)

lemma add_dynamic_traversable:
  assumes "add_dynamic_obstacle i p desc w = Inr (ob, w')"
  shows "is_traversable w' q \<longleftrightarrow> is_traversable w q \<and> q \<noteq> p"
  using add_dynamic_obstacle_facts [OF assms] by (auto simp: is_traversable_iff dynamic_iff dict_set_new)

lemma remove_dynamic_traversable:
  assumes "remove_dynamic_obstacle i w = Inr (ob, w')" "is_traversable w q"
  shows "is_traversable w' q"
  using assms by (auto simp: remove_dynamic_obstacle_def is_traversable_iff dynamic_iff set_dict_del split: option.splits)

lemma sim_add_dynamic_obstacle_ok:
  assumes "sim_ok s" "sim_add_dynamic_obstacle i p desc s = Inr (ob, s')"
  shows "sim_ok s'"
proof -
  from assms(2) obtain w where free: "robot_at s p = None"
    and add: "add_dynamic_obstacle i p desc (sim_warehouse s) = Inr (ob, w)" and s': "s' = s\<lparr>sim_warehouse := w\<rparr>"
    by (auto simp: sim_add_dynamic_obstacle_def res_bind_Inr split: if_splits)
  show ?thesis unfolding s'
    using assms(1) add_dynamic_obstacle_ok [OF _ add] sim_ok_robotD [OF assms(1)] free
      robot_at_None [OF sim_ok_dicts(1) [OF assms(1)], of p]
    by (intro sim_warehouse_change_ok) (auto simp: sim_ok_def add_dynamic_traversable [OF add])
qed

lemma sim_remove_dynamic_obstacle_ok:
  assumes "sim_ok s" "sim_remove_dynamic_obstacle i s = Inr (ob, s')"
  shows "sim_ok s'"
proof -
  from assms(2) obtain w where rm: "remove_dynamic_obstacle i (sim_warehouse s) = Inr (ob, w)"
    and s': "s' = s\<lparr>sim_warehouse := w\<rparr>"
    by (auto simp: sim_remove_dynamic_obstacle_def res_bind_Inr)
  show ?thesis unfolding s'
    using assms(1) remove_dynamic_obstacle_ok [OF _ rm] sim_ok_robotD [OF assms(1)] remove_dynamic_traversable [OF rm]
    by (intro sim_warehouse_change_ok) (auto simp: sim_ok_def)
qed

section \<open>The agreement of robots and tasks\<close>

lemma links_ok_robotD:
  "links_ok s \<Longrightarrow> dict_get (sim_robots s) i = Some r \<Longrightarrow> assigned_task_id r = Some tid \<Longrightarrow>
     \<exists>t. dict_get (sim_tasks s) tid = Some t \<and> assigned_robot_id t = Some i \<and> task_status t \<in> {T_ASSIGNED, T_IN_PROGRESS}"
  unfolding links_ok_def by blast

lemma links_ok_taskD:
  "links_ok s \<Longrightarrow> dict_get (sim_tasks s) tid = Some t \<Longrightarrow> task_status t \<in> {T_ASSIGNED, T_IN_PROGRESS} \<Longrightarrow>
     \<exists>i r. assigned_robot_id t = Some i \<and> dict_get (sim_robots s) i = Some r \<and> assigned_task_id r = Some tid"
  unfolding links_ok_def by blast

lemma links_okI:
  assumes "\<And>i r tid. dict_get (sim_robots s) i = Some r \<Longrightarrow> assigned_task_id r = Some tid \<Longrightarrow>
     \<exists>t. dict_get (sim_tasks s) tid = Some t \<and> assigned_robot_id t = Some i \<and> task_status t \<in> {T_ASSIGNED, T_IN_PROGRESS}"
    and "\<And>tid t. dict_get (sim_tasks s) tid = Some t \<Longrightarrow> task_status t \<in> {T_ASSIGNED, T_IN_PROGRESS} \<Longrightarrow>
     \<exists>i r. assigned_robot_id t = Some i \<and> dict_get (sim_robots s) i = Some r \<and> assigned_task_id r = Some tid"
  shows "links_ok s"
  using assms unfolding links_ok_def by blast

lemma links_ok_put_robot:
  assumes "links_ok s" "dict_get (sim_robots s) i = Some r" "assigned_task_id r' = assigned_task_id r"
  shows "links_ok (put_robot i r' s)"
proof (rule links_okI)
  fix j q u assume "dict_get (sim_robots (put_robot i r' s)) j = Some q" "assigned_task_id q = Some u"
  then show "\<exists>t. dict_get (sim_tasks (put_robot i r' s)) u = Some t \<and> assigned_robot_id t = Some j \<and>
      task_status t \<in> {T_ASSIGNED, T_IN_PROGRESS}"
    using links_ok_robotD [OF assms(1), of j _ u] assms(2,3) by (cases "j = i") auto
next
  fix u v assume "dict_get (sim_tasks (put_robot i r' s)) u = Some v" "task_status v \<in> {T_ASSIGNED, T_IN_PROGRESS}"
  then obtain j q where "assigned_robot_id v = Some j" "dict_get (sim_robots s) j = Some q" "assigned_task_id q = Some u"
    using links_ok_taskD [OF assms(1)] by fastforce
  then show "\<exists>j q. assigned_robot_id v = Some j \<and> dict_get (sim_robots (put_robot i r' s)) j = Some q \<and> assigned_task_id q = Some u"
    using assms(2,3) by (cases "j = i") auto
qed

lemma links_ok_new_robot:
  assumes "links_ok s" "dict_get (sim_robots s) i = None" "assigned_task_id r = None"
  shows "links_ok (put_robot i r s)"
proof (rule links_okI)
  fix j q u assume "dict_get (sim_robots (put_robot i r s)) j = Some q" "assigned_task_id q = Some u"
  then show "\<exists>t. dict_get (sim_tasks (put_robot i r s)) u = Some t \<and> assigned_robot_id t = Some j \<and>
      task_status t \<in> {T_ASSIGNED, T_IN_PROGRESS}"
    using links_ok_robotD [OF assms(1), of j q u] assms(3) by (cases "j = i") auto
next
  fix u v assume "dict_get (sim_tasks (put_robot i r s)) u = Some v" "task_status v \<in> {T_ASSIGNED, T_IN_PROGRESS}"
  then obtain j q where "assigned_robot_id v = Some j" "dict_get (sim_robots s) j = Some q" "assigned_task_id q = Some u"
    using links_ok_taskD [OF assms(1)] by fastforce
  then show "\<exists>j q. assigned_robot_id v = Some j \<and> dict_get (sim_robots (put_robot i r s)) j = Some q \<and> assigned_task_id q = Some u"
    using assms(2) by (cases "j = i") auto
qed

lemma links_ok_new_task:
  assumes "links_ok s" "dict_get (sim_tasks s) i = None" "task_status t \<notin> {T_ASSIGNED, T_IN_PROGRESS}"
  shows "links_ok (put_task i t s)"
proof (rule links_okI)
  fix j q u assume a: "dict_get (sim_robots (put_task i t s)) j = Some q" "assigned_task_id q = Some u"
  then obtain v where "dict_get (sim_tasks s) u = Some v" "assigned_robot_id v = Some j"
      "task_status v \<in> {T_ASSIGNED, T_IN_PROGRESS}"
    using links_ok_robotD [OF assms(1), of j q u] by auto
  then show "\<exists>v. dict_get (sim_tasks (put_task i t s)) u = Some v \<and> assigned_robot_id v = Some j \<and>
      task_status v \<in> {T_ASSIGNED, T_IN_PROGRESS}"
    using assms(2) by (cases "u = i") auto
next
  fix u v assume "dict_get (sim_tasks (put_task i t s)) u = Some v" "task_status v \<in> {T_ASSIGNED, T_IN_PROGRESS}"
  then show "\<exists>j q. assigned_robot_id v = Some j \<and> dict_get (sim_robots (put_task i t s)) j = Some q \<and> assigned_task_id q = Some u"
    using links_ok_taskD [OF assms(1), of u v] assms(3) by (cases "u = i") auto
qed

lemma move_robot_links:
  assumes "sim_ok s" "links_ok s"
  shows "links_ok (snd (move_robot rid dest s))"
proof (cases "dict_get (sim_robots s) rid")
  case None
  then show ?thesis using assms by (simp add: move_robot_def get_robot_def)
next
  case (Some r)
  from sim_ok_dicts(1) [OF assms(1)] Some show ?thesis
  proof (cases rule: move_robot_cases [of s rid r dest])
    case (ok r')
    then show ?thesis using links_ok_put_robot [OF assms(2) Some] move_to_frame(5) by simp
  next
    case (refused reason)
    then show ?thesis using links_ok_put_robot [OF assms(2) Some] by simp
  qed
qed

lemma recharge_frame: "recharge amount r = Inr (a, r') \<Longrightarrow> assigned_task_id r' = assigned_task_id r"
  by (auto simp: recharge_def Let_def split: if_splits)

lemma charge_robot_links:
  assumes "links_ok s"
  shows "links_ok (snd (charge_robot rid amount s))"
proof (cases "dict_get (sim_robots s) rid")
  case None
  then show ?thesis using assms by (simp add: charge_robot_def get_robot_def)
next
  case (Some r)
  have "links_ok (put_robot rid (set_status R_CHARGING r) s)"
    by (rule links_ok_put_robot [OF assms Some]) (simp add: set_status_def)
  moreover have "links_ok (put_robot rid r2 s)" if "recharge amount (set_status R_CHARGING r) = Inr (a, r2)" for a r2
    using recharge_frame [OF that] by (intro links_ok_put_robot [OF assms Some]) (simp add: set_status_def)
  ultimately show ?thesis using assms Some
    by (auto simp: charge_robot_def Let_def split: sum.splits bool.splits)
qed

lemma assign_task_manually_links:
  assumes "sim_ok s" "links_ok s" "assign_task_manually tid rid s = Inr s'"
  shows "links_ok s'"
proof -
  from assms(3) obtain t r where a: "dict_get (sim_tasks s) tid = Some t" "dict_get (sim_robots s) rid = Some r"
    "task_status t = T_PENDING" "is_available r"
    and s': "s' = put_task tid (t\<lparr>task_status := T_ASSIGNED, assigned_robot_id := Some (robot_id r)\<rparr>)
          (put_robot rid (r\<lparr>assigned_task_id := Some (task_id t), robot_status := R_ASSIGNED\<rparr>) s)"
    by (rule assign_task_manually_Inr)
  have ids: "robot_id r = rid" "task_id t = tid"
    using sim_ok_robotD [OF assms(1) a(2)] sim_ok_taskD [OF assms(1) a(1)] by simp_all
  have free: "assigned_task_id r = None" using a(4) by (simp add: is_available_def)
  have other: "assigned_task_id q \<noteq> Some tid" if "dict_get (sim_robots s) i = Some q" for i q
    using links_ok_robotD [OF assms(2) that, of tid] a(1,3) by auto
  show ?thesis
  proof (rule links_okI)
    fix i q u
    assume "dict_get (sim_robots s') i = Some q" "assigned_task_id q = Some u"
    then show "\<exists>t. dict_get (sim_tasks s') u = Some t \<and> assigned_robot_id t = Some i \<and> task_status t \<in> {T_ASSIGNED, T_IN_PROGRESS}"
      using other [of i q] links_ok_robotD [OF assms(2), of i q u] ids by (cases "i = rid") (auto simp: s')
  next
    fix u v
    assume u: "dict_get (sim_tasks s') u = Some v" "task_status v \<in> {T_ASSIGNED, T_IN_PROGRESS}"
    show "\<exists>i r. assigned_robot_id v = Some i \<and> dict_get (sim_robots s') i = Some r \<and> assigned_task_id r = Some u"
    proof (cases "u = tid")
      case True
      then show ?thesis using u ids by (auto simp: s')
    next
      case False
      then obtain j q where j: "assigned_robot_id v = Some j" "dict_get (sim_robots s) j = Some q" "assigned_task_id q = Some u"
        using u links_ok_taskD [OF assms(2), of u v] by (auto simp: s')
      then have "j \<noteq> rid" using a(2) free by auto
      with j show ?thesis by (auto simp: s')
    qed
  qed
qed

lemma remove_robot_links:
  assumes "sim_ok s" "links_ok s" "remove_robot rid s = Inr (r', s')"
  shows "links_ok s'"
  using assms(3)
proof (cases rule: remove_robot_Inr)
  case (no_task r)
  have free: "assigned_task_id r \<noteq> Some u" for u
    using links_ok_robotD [OF assms(2) no_task(1), of u] no_task(3) [of u] by (force simp: is_open_def)
  show ?thesis
  proof (rule links_okI)
    fix i q u assume "dict_get (sim_robots s') i = Some q" "assigned_task_id q = Some u"
    then show "\<exists>t. dict_get (sim_tasks s') u = Some t \<and> assigned_robot_id t = Some i \<and> task_status t \<in> {T_ASSIGNED, T_IN_PROGRESS}"
      using links_ok_robotD [OF assms(2), of i q u] by (cases "i = rid") (auto simp: no_task(2))
  next
    fix u v assume "dict_get (sim_tasks s') u = Some v" "task_status v \<in> {T_ASSIGNED, T_IN_PROGRESS}"
    then obtain j q where "assigned_robot_id v = Some j" "dict_get (sim_robots s) j = Some q" "assigned_task_id q = Some u"
      using links_ok_taskD [OF assms(2), of u v] by (auto simp: no_task(2))
    then show "\<exists>i r. assigned_robot_id v = Some i \<and> dict_get (sim_robots s') i = Some r \<and> assigned_task_id r = Some u"
      using free no_task(1) by (cases "j = rid") (auto simp: no_task(2))
  qed
next
  case (release r tid t t')
  have t': "task_status t' \<notin> {T_ASSIGNED, T_IN_PROGRESS}"
    using release(4) by (auto simp: release_task_def lifecycle_defs split: if_splits)
  have own: "assigned_robot_id t = Some rid" using links_ok_robotD [OF assms(2) release(1,2)] release(3) by auto
  show ?thesis
  proof (rule links_okI)
    fix i q u
    assume i: "dict_get (sim_robots s') i = Some q" "assigned_task_id q = Some u"
    then have "dict_get (sim_robots s) i = Some q" "i \<noteq> rid" by (auto simp: release(5) split: if_splits)
    then show "\<exists>t. dict_get (sim_tasks s') u = Some t \<and> assigned_robot_id t = Some i \<and> task_status t \<in> {T_ASSIGNED, T_IN_PROGRESS}"
      using links_ok_robotD [OF assms(2) _ i(2)] own release(3) by (auto simp: release(5))
  next
    fix u v
    assume u: "dict_get (sim_tasks s') u = Some v" "task_status v \<in> {T_ASSIGNED, T_IN_PROGRESS}"
    then have "u \<noteq> tid" "dict_get (sim_tasks s) u = Some v" using t' by (auto simp: release(5) split: if_splits)
    then obtain j q where j: "assigned_robot_id v = Some j" "dict_get (sim_robots s) j = Some q" "assigned_task_id q = Some u"
      using links_ok_taskD [OF assms(2) _ u(2)] by blast
    then have "j \<noteq> rid" using release(1,2) \<open>u \<noteq> tid\<close> by auto
    with j show "\<exists>i r. assigned_robot_id v = Some i \<and> dict_get (sim_robots s') i = Some r \<and> assigned_task_id r = Some u"
      by (auto simp: release(5))
  qed
qed

text \<open>A registered task is started by its owner.\<close>

lemma start_task_ok:
  assumes "sim_ok s" "dict_get (sim_tasks s) tid = Some t" "start_task t = Inr t'"
  shows "sim_ok (put_task tid t' s)"
proof -
  have "task_step t t'" by (rule step_start [OF assms(3)])
  then show ?thesis using assms(1,2) task_step_frame [of t t'] task_step_ok [of t t'] sim_ok_taskD [OF assms(1,2)]
    by (simp add: sim_ok_def tasks_ok_put)
qed

lemma start_task_links:
  assumes "links_ok s" "dict_get (sim_tasks s) tid = Some t" "start_task t = Inr t'"
  shows "links_ok (put_task tid t' s)"
proof -
  have t: "task_status t = T_ASSIGNED" "t' = t\<lparr>task_status := T_IN_PROGRESS\<rparr>"
    using assms(3) by (cases "task_status t"; auto simp: lifecycle_defs split: if_splits)+
  show ?thesis
  proof (rule links_okI)
    fix j q u assume "dict_get (sim_robots (put_task tid t' s)) j = Some q" "assigned_task_id q = Some u"
    then obtain v where "dict_get (sim_tasks s) u = Some v" "assigned_robot_id v = Some j" "task_status v \<in> {T_ASSIGNED, T_IN_PROGRESS}"
      using links_ok_robotD [OF assms(1), of j q u] by auto
    then show "\<exists>v. dict_get (sim_tasks (put_task tid t' s)) u = Some v \<and> assigned_robot_id v = Some j \<and> task_status v \<in> {T_ASSIGNED, T_IN_PROGRESS}"
      using assms(2) t(2) by (cases "u = tid") auto
  next
    fix u v assume u: "dict_get (sim_tasks (put_task tid t' s)) u = Some v" "task_status v \<in> {T_ASSIGNED, T_IN_PROGRESS}"
    show "\<exists>j q. assigned_robot_id v = Some j \<and> dict_get (sim_robots (put_task tid t' s)) j = Some q \<and> assigned_task_id q = Some u"
      using u links_ok_taskD [OF assms(1), of u] assms(2) t by (cases "u = tid") auto
  qed
qed

text \<open>A task is completed or fails, and its robot is cleared of it.\<close>

definition closes :: "task \<Rightarrow> task \<Rightarrow> bool" where
  "closes t t' \<longleftrightarrow> complete_task t = Inr t' \<or> (\<exists>why. fail_task why t = Inr t')"

lemma closes_step: "closes t t' \<Longrightarrow> task_step t t' \<and> task_status t' \<in> {T_COMPLETED, T_FAILED} \<and> is_open t"
  by (cases "task_status t") (auto simp: closes_def lifecycle_defs is_open_def intro: task_step.intros)

lemma close_task_ok:
  assumes "sim_ok s" "dict_get (sim_tasks s) tid = Some t" "closes t t'" "dict_get (sim_robots s) rid = Some r"
  shows "sim_ok (put_task tid t' (put_robot rid (clear_task r) s))"
proof -
  have "robot_core_ok r" using sim_ok_robotD [OF assms(1,4)] by simp
  then have "robots_ok (sim_warehouse s) (dict_set rid (clear_task r) (sim_robots s))"
    using assms(1,4) by (intro robots_ok_update) (simp_all add: sim_ok_def clear_task_def robot_core_ok_def)
  moreover have "tasks_ok (dict_set tid t' (sim_tasks s))"
    using assms(1) closes_step [OF assms(3)] task_step_frame [of t t'] task_step_ok [of t t'] sim_ok_taskD [OF assms(1,2)]
    by (intro tasks_ok_put) (simp_all add: sim_ok_def)
  ultimately show ?thesis using assms(1) by (simp add: sim_ok_def)
qed

lemma close_task_links:
  assumes "sim_ok s" "links_ok s" "dict_get (sim_tasks s) tid = Some t" "closes t t'" "assigned_robot_id t = Some rid"
    "dict_get (sim_robots s) rid = Some r"
  shows "links_ok (put_task tid t' (put_robot rid (clear_task r) s))"
proof -
  have "task_status t \<in> {T_ASSIGNED, T_IN_PROGRESS}"
    using closes_step [OF assms(4)] assms(5) sim_ok_taskD [OF assms(1,3)] by (cases "task_status t") (auto simp: task_ok_def is_open_def)
  then have own: "assigned_task_id r = Some tid" using links_ok_taskD [OF assms(2,3)] assms(5,6) by auto
  show ?thesis
  proof (rule links_okI)
    fix j q u assume j: "dict_get (sim_robots (put_task tid t' (put_robot rid (clear_task r) s))) j = Some q" "assigned_task_id q = Some u"
    then have "j \<noteq> rid" by (auto simp: clear_task_def)
    with j have old: "dict_get (sim_robots s) j = Some q" by simp
    then show "\<exists>v. dict_get (sim_tasks (put_task tid t' (put_robot rid (clear_task r) s))) u = Some v \<and> assigned_robot_id v = Some j \<and>
        task_status v \<in> {T_ASSIGNED, T_IN_PROGRESS}"
      using links_ok_robotD [OF assms(2) old j(2)] assms(3,5) \<open>j \<noteq> rid\<close> by (cases "u = tid") auto
  next
    fix u v assume u: "dict_get (sim_tasks (put_task tid t' (put_robot rid (clear_task r) s))) u = Some v" "task_status v \<in> {T_ASSIGNED, T_IN_PROGRESS}"
    then have "u \<noteq> tid" using closes_step [OF assms(4)] by auto
    then obtain j q where j: "assigned_robot_id v = Some j" "dict_get (sim_robots s) j = Some q" "assigned_task_id q = Some u"
      using u links_ok_taskD [OF assms(2), of u v] by auto
    then have "j \<noteq> rid" using assms(6) own \<open>u \<noteq> tid\<close> by auto
    with j show "\<exists>j q. assigned_robot_id v = Some j \<and> dict_get (sim_robots (put_task tid t' (put_robot rid (clear_task r) s))) j = Some q \<and>
        assigned_task_id q = Some u" by auto
  qed
qed

section \<open>Reachable simulations\<close>

text \<open>
  One rule per operation of the simulator that changes its state, refused calls included, and one
  each for starting and closing a registered task. Robots and tasks enter without an assignment:
  \<open>add_robot\<close> and \<open>add_task\<close> do not look at the links, so an object that comes with one breaks them
  (\<open>entering_assigned_breaks_links\<close>).
\<close>

inductive sim_step :: "simulator \<Rightarrow> simulator \<Rightarrow> bool" where
  step_add_robot: "robot_core_ok r \<Longrightarrow> assigned_task_id r = None \<Longrightarrow> add_robot r s = Inr s' \<Longrightarrow> sim_step s s'"
| step_remove_robot: "remove_robot rid s = Inr (r, s') \<Longrightarrow> sim_step s s'"
| step_move_robot: "sim_step s (snd (move_robot rid dest s))"
| step_charge_robot: "sim_step s (snd (charge_robot rid amount s))"
| step_add_task: "task_ok t \<Longrightarrow> task_status t \<notin> {T_ASSIGNED, T_IN_PROGRESS} \<Longrightarrow> add_task t s = Inr s' \<Longrightarrow> sim_step s s'"
| step_start_task: "dict_get (sim_tasks s) tid = Some t \<Longrightarrow> start_task t = Inr t' \<Longrightarrow> sim_step s (put_task tid t' s)"
| step_close_task: "dict_get (sim_tasks s) tid = Some t \<Longrightarrow> closes t t' \<Longrightarrow> assigned_robot_id t = Some rid \<Longrightarrow>
    dict_get (sim_robots s) rid = Some r \<Longrightarrow> sim_step s (put_task tid t' (put_robot rid (clear_task r) s))"
| step_assign_task: "assign_task_manually tid rid s = Inr s' \<Longrightarrow> sim_step s s'"
| step_add_obstacle: "sim_add_dynamic_obstacle i p desc s = Inr (ob, s') \<Longrightarrow> sim_step s s'"
| step_remove_obstacle: "sim_remove_dynamic_obstacle i s = Inr (ob, s') \<Longrightarrow> sim_step s s'"

inductive sim_reachable :: "warehouse \<Rightarrow> simulator \<Rightarrow> bool" for w where
  reach_init: "sim_reachable w (sim_init w)"
| reach_step: "sim_reachable w s \<Longrightarrow> sim_step s s' \<Longrightarrow> sim_reachable w s'"

lemma sim_step_ok: "sim_step s s' \<Longrightarrow> sim_ok s \<Longrightarrow> sim_ok s'"
  by (induction rule: sim_step.induct)
    (auto intro: add_robot_ok remove_robot_ok move_robot_ok charge_robot_ok add_task_ok start_task_ok close_task_ok
      assign_task_manually_ok sim_add_dynamic_obstacle_ok sim_remove_dynamic_obstacle_ok)

lemma links_ok_warehouse [simp]: "links_ok (s\<lparr>sim_warehouse := w\<rparr>) = links_ok s"
  by (simp add: links_ok_def)

lemma sim_step_links:
  assumes "sim_step s s'" "sim_ok s" "links_ok s"
  shows "links_ok s'"
  using assms
proof (induction rule: sim_step.induct)
  case (step_add_robot r s s')
  then show ?case by (auto simp: add_robot_Inr intro: links_ok_new_robot)
next
  case (step_add_task t s s')
  then show ?case by (auto simp: add_task_Inr intro: links_ok_new_task)
next
  case (step_close_task s tid t t' rid r)
  then show ?case by (blast intro: close_task_links)
qed (auto intro: remove_robot_links move_robot_links charge_robot_links assign_task_manually_links start_task_links
    simp: sim_add_dynamic_obstacle_def sim_remove_dynamic_obstacle_def res_bind_Inr split: if_splits)

lemma sim_reachable_ok: "sim_reachable w s \<Longrightarrow> warehouse_ok w \<Longrightarrow> sim_ok s \<and> links_ok s"
  by (induction rule: sim_reachable.induct) (auto simp: sim_init_ok intro: sim_step_ok sim_step_links)

lemma entering_assigned_breaks_links:
  assumes "links_ok s" "assigned_task_id r = Some tid" "dict_get (sim_tasks s) tid = None" "add_robot r s = Inr s'"
  shows "\<not> links_ok s'"
  using assms by (auto simp: add_robot_Inr links_ok_def)

end
