(* ===== verification/Coordinator.thy ===== *)
theory Coordinator
  imports Space_Time Conflicts Simulator
begin

text \<open>
  Prioritised multi-robot coordination (\<open>coordination/coordinator.py\<close>,
  \<open>coordination/coordination_result.py\<close>): the request check, the loop that plans and
  reserves one robot after the other, and the summary. The invariant \<open>coord_inv\<close> says that
  the reservation table holds exactly the claims of the routes found so far; from it the
  reservations never clash and the finished plan is safe.
\<close>

section \<open>The coordinator\<close>

datatype coordination_failure =
    No_Robots
  | Ids_Disagree "string list"
  | Shared_Start string string position
  | Bad_Priority_Order "string list"
  | Duplicate_Priority "string list"
  | Robots_Failed "(string \<times> st_reason option) list"

record coordination_result =
  cr_success :: bool
  cr_timed_paths :: "(string, timed_path) dict"
  cr_robot_order :: "string list"
  cr_planned_robot_count :: nat
  cr_failed_robot_ids :: "string list"
  cr_total_move_steps :: int
  cr_total_wait_steps :: int
  cr_makespan :: int
  cr_total_space_time_cost :: int
  cr_conflict_checks :: nat
  cr_horizon :: int
  cr_failure_reason :: "coordination_failure option"

definition successful_paths :: "coordination_result \<Rightarrow> (string, timed_path) dict" where
  "successful_paths cr = filter (\<lambda>(rid, tp). tp_success tp) (cr_timed_paths cr)"

definition default_horizon :: "warehouse \<Rightarrow> nat \<Rightarrow> int" where
  "default_horizon w fleet_size = 2 * (wh_width w + wh_height w) + 4 * max 1 (int fleet_size)"

fun shared_start :: "(string, position) dict \<Rightarrow> string list \<Rightarrow> (position, string) dict \<Rightarrow> coordination_failure option" where
  "shared_start starts [] seen = None"
| "shared_start starts (rid # ids) seen =
     (case dict_get starts rid of
        None \<Rightarrow> None
      | Some cell \<Rightarrow>
          (case dict_get seen cell of
             Some other \<Rightarrow> Some (Shared_Start other rid cell)
           | None \<Rightarrow> shared_start starts ids (dict_set cell rid seen)))"

definition validate_request ::
  "(string, position) dict \<Rightarrow> (string, position) dict \<Rightarrow> string list option \<Rightarrow> coordination_failure option" where
  "validate_request starts goals priority_order =
     (if starts = [] then Some No_Robots
      else if set (dict_keys starts) \<noteq> set (dict_keys goals) then
        Some (Ids_Disagree (sort (filter (\<lambda>k. k \<notin> set (dict_keys goals)) (dict_keys starts) @
                                  filter (\<lambda>k. k \<notin> set (dict_keys starts)) (dict_keys goals))))
      else case shared_start starts (sort (dict_keys starts)) [] of
        Some failure \<Rightarrow> Some failure
      | None \<Rightarrow>
          (case priority_order of
             None \<Rightarrow> None
           | Some order \<Rightarrow>
               if sort order \<noteq> sort (dict_keys starts) then Some (Bad_Priority_Order order)
               else if length order \<noteq> card (set order) then Some (Duplicate_Priority order)
               else None))"

definition summarise ::
  "(string, timed_path) dict \<Rightarrow> string list \<Rightarrow> string list \<Rightarrow> nat \<Rightarrow> int \<Rightarrow> py_error + coordination_result" where
  "summarise timed_paths robot_order failed conflict_checks horizon =
     (let successful = filter tp_success (dict_values timed_paths) in
      res_bind (res_map (\<lambda>rid. case dict_get timed_paths rid of
          None \<Rightarrow> Inl KeyError | Some tp \<Rightarrow> Inr (rid, tp_failure_reason tp)) failed) (\<lambda>parts.
      Inr \<lparr>cr_success = (failed = []), cr_timed_paths = timed_paths, cr_robot_order = robot_order,
           cr_planned_robot_count = length successful, cr_failed_robot_ids = failed,
           cr_total_move_steps = sum_list (map tp_move_count successful),
           cr_total_wait_steps = sum_list (map tp_wait_count successful),
           cr_makespan = (if successful = [] then 0 else Max (set (map tp_arrival_time successful))),
           cr_total_space_time_cost = sum_list (map tp_makespan successful),
           cr_conflict_checks = conflict_checks, cr_horizon = horizon,
           cr_failure_reason = (if failed = [] then None else Some (Robots_Failed parts))\<rparr>))"

definition rejected :: "string list \<Rightarrow> coordination_failure \<Rightarrow> int \<Rightarrow> coordination_result" where
  "rejected order failure horizon =
     \<lparr>cr_success = False, cr_timed_paths = [], cr_robot_order = order, cr_planned_robot_count = 0,
      cr_failed_robot_ids = [], cr_total_move_steps = 0, cr_total_wait_steps = 0, cr_makespan = 0,
      cr_total_space_time_cost = 0, cr_conflict_checks = 0, cr_horizon = horizon,
      cr_failure_reason = Some failure\<rparr>"

text \<open>The local variables of the loop: the routes so far, the failed robots, the table.\<close>

type_synonym coord_state = "(string, timed_path) dict \<times> string list \<times> reservation_table"

definition plan_robot ::
  "(position \<Rightarrow> position \<Rightarrow> int) \<Rightarrow> warehouse \<Rightarrow> (string, position) dict \<Rightarrow> (string, position) dict \<Rightarrow> int \<Rightarrow>
     string \<Rightarrow> coord_state \<Rightarrow> py_error + coord_state" where
  "plan_robot heuristic w starts goals horizon rid cs =
     (case cs of (timed_paths, failed, rt) \<Rightarrow>
        (case (dict_get starts rid, dict_get goals rid) of
           (Some start, Some goal) \<Rightarrow>
             res_bind (st_plan heuristic w start goal rt rid 0 (Some horizon)) (\<lambda>(tp, rt1).
               let timed_paths1 = dict_set rid tp timed_paths in
               if tp_success tp
               then res_bind (reserve_timed_path tp horizon rt1) (\<lambda>rt2. Inr (timed_paths1, failed, rt2))
               else Inr (timed_paths1, failed @ [rid], rt1))
         | _ \<Rightarrow> Inl KeyError))"

definition priority_list :: "(string, position) dict \<Rightarrow> string list option \<Rightarrow> string list" where
  "priority_list starts priority_order =
     (case priority_order of Some order \<Rightarrow> if order \<noteq> [] then order else sort (dict_keys starts)
      | None \<Rightarrow> sort (dict_keys starts))"

definition coordinate ::
  "(position \<Rightarrow> position \<Rightarrow> int) \<Rightarrow> warehouse \<Rightarrow> (string, position) dict \<Rightarrow> (string, position) dict \<Rightarrow>
     string list option \<Rightarrow> int option \<Rightarrow> py_error + coordination_result" where
  "coordinate heuristic w starts goals priority_order horizon_opt =
     (case validate_request starts goals priority_order of
        Some failure \<Rightarrow>
          Inr (rejected (priority_list starts priority_order) failure
                 (case horizon_opt of None \<Rightarrow> 0 | Some h \<Rightarrow> h))
      | None \<Rightarrow>
          let order = priority_list starts priority_order;
              horizon = (case horizon_opt of None \<Rightarrow> default_horizon w (length starts) | Some h \<Rightarrow> h) in
          res_bind (res_fold (plan_robot heuristic w starts goals horizon) order ([], [], reservation_init))
            (\<lambda>(timed_paths, failed, rt). summarise timed_paths order failed (query_count rt) horizon))"

definition coordinate_for ::
  "(position \<Rightarrow> position \<Rightarrow> int) \<Rightarrow> warehouse \<Rightarrow> simulator \<Rightarrow> (string, position) dict \<Rightarrow>
     string list option \<Rightarrow> int option \<Rightarrow> py_error + coordination_result" where
  "coordinate_for heuristic w sim goals priority_order horizon_opt =
     res_bind (res_map (\<lambda>rid. res_bind (get_robot sim rid) (\<lambda>r. Inr (rid, robot_position r))) (dict_keys goals))
       (\<lambda>starts. coordinate heuristic w starts goals priority_order horizon_opt)"

section \<open>The request check\<close>

lemma shared_start_None:
  assumes "shared_start starts ids seen = None" "distinct ids" "set ids \<subseteq> set (dict_keys starts)"
    "i \<in> set ids" "dict_get starts i = Some c"
  shows "dict_get seen c = None \<and> (\<forall>j \<in> set ids. j \<noteq> i \<longrightarrow> dict_get starts j \<noteq> Some c)"
  using assms
proof (induction ids arbitrary: seen i c)
  case Nil
  then show ?case by simp
next
  case (Cons a ids)
  obtain ca where ca: "dict_get starts a = Some ca"
    using Cons.prems(3) dict_get_None_iff [of starts a] by (cases "dict_get starts a") auto
  have fresh: "dict_get seen ca = None" and rest: "shared_start starts ids (dict_set ca a seen) = None"
    using Cons.prems(1) ca by (auto split: option.splits)
  have IH: "dict_get (dict_set ca a seen) c = None \<and> (\<forall>j \<in> set ids. j \<noteq> i \<longrightarrow> dict_get starts j \<noteq> Some c)"
    if "i \<in> set ids" "dict_get starts i = Some c" for i c
    using Cons.IH [OF rest _ _ that] Cons.prems(2,3) by simp
  show ?case
  proof (cases "i = a")
    case True
    have "dict_get starts j \<noteq> Some ca" if "j \<in> set ids" for j
      using IH [OF that, of ca] by auto
    then show ?thesis using True fresh ca Cons.prems(5) by auto
  next
    case False
    then have i: "i \<in> set ids" using Cons.prems(4) by simp
    from IH [OF i Cons.prems(5)] show ?thesis using ca by (auto split: if_splits)
  qed
qed

lemma validate_request_None:
  assumes "validate_request starts goals priority_order = None" "dict_ok starts"
  shows "set (dict_keys goals) = set (dict_keys starts)"
    and "set (priority_list starts priority_order) = set (dict_keys starts)"
    and "distinct (priority_list starts priority_order)"
    and "dict_get starts i = Some c \<Longrightarrow> dict_get starts j = Some c \<Longrightarrow> i = j"
proof -
  have k: "set (dict_keys goals) = set (dict_keys starts)"
    and s: "shared_start starts (sort (dict_keys starts)) [] = None"
    and p: "\<And>order. priority_order = Some order \<Longrightarrow> sort order = sort (dict_keys starts)"
    using assms(1) by (auto simp: validate_request_def split: if_splits option.splits)
  show "set (dict_keys goals) = set (dict_keys starts)" by (rule k)
  have d: "distinct (dict_keys starts)" using assms(2) by (simp add: dict_ok_def)
  have "set order = set (dict_keys starts) \<and> distinct order" if "priority_order = Some order" for order
    using p [OF that] d by (metis distinct_sort set_sort)
  then show "set (priority_list starts priority_order) = set (dict_keys starts)"
    "distinct (priority_list starts priority_order)"
    using d by (auto simp: priority_list_def split: option.splits)
  show "i = j" if ij: "dict_get starts i = Some c" "dict_get starts j = Some c"
  proof (rule ccontr)
    assume "i \<noteq> j"
    moreover have "i \<in> set (dict_keys starts)" "j \<in> set (dict_keys starts)"
      using ij by (metis dict_get_None_iff option.distinct(1))+
    ultimately show False using shared_start_None [OF s, of i c] d ij by auto
  qed
qed

section \<open>The loop keeps the table and the routes in step\<close>

text \<open>A finished route of one robot.\<close>

definition route_of :: "warehouse \<Rightarrow> position \<Rightarrow> position \<Rightarrow> int \<Rightarrow> timed_path \<Rightarrow> bool" where
  "route_of w start goal horizon tp \<longleftrightarrow> timed_path_ok tp \<and> tp_start_time tp = 0 \<and> tp_arrival_time tp \<le> horizon \<and>
     pos_at tp 0 = start \<and> pos_at tp (tp_arrival_time tp) = goal \<and>
     (\<forall>t. 0 \<le> t \<longrightarrow> is_traversable w (pos_at tp t)) \<and>
     (\<forall>t. 0 \<le> t \<longrightarrow> t < tp_arrival_time tp \<longrightarrow>
        pos_at tp t = pos_at tp (t + 1) \<or> is_adjacent_to (pos_at tp t) (pos_at tp (t + 1)))"

definition swap_at :: "timed_path \<Rightarrow> timed_path \<Rightarrow> int \<Rightarrow> bool" where
  "swap_at p q t \<longleftrightarrow> pos_at p t \<noteq> pos_at p (t + 1) \<and> pos_at q t = pos_at p (t + 1) \<and> pos_at q (t + 1) = pos_at p t"

lemma swap_at_sym: "swap_at p q t \<Longrightarrow> swap_at q p t"
  unfolding swap_at_def by metis

definition holds_claims :: "int \<Rightarrow> (string, timed_path) dict \<Rightarrow> reservation_table \<Rightarrow> bool" where
  "holds_claims horizon tps rt \<longleftrightarrow>
     (\<forall>k r. dict_get (vertices rt) k = Some r \<longleftrightarrow> (\<exists>tp. (r, tp) \<in> set tps \<and> tp_success tp \<and> path_vertex tp horizon k)) \<and>
     (\<forall>k r. dict_get (edges rt) k = Some r \<longleftrightarrow> (\<exists>tp. (r, tp) \<in> set tps \<and> tp_success tp \<and> path_edge tp k))"

definition coord_inv ::
  "warehouse \<Rightarrow> (string, position) dict \<Rightarrow> (string, position) dict \<Rightarrow> int \<Rightarrow> string list \<Rightarrow> coord_state \<Rightarrow> bool" where
  "coord_inv w starts goals horizon planned cs \<longleftrightarrow> (case cs of (tps, failed, rt) \<Rightarrow>
     dict_keys tps = planned \<and> distinct planned \<and>
     failed = map fst (filter (\<lambda>(r, tp). \<not> tp_success tp) tps) \<and>
     (\<forall>(r, tp) \<in> set tps. tp_robot_id tp = r \<and> (tp_success tp \<longrightarrow> (\<exists>s g. dict_get starts r = Some s \<and>
        dict_get goals r = Some g \<and> route_of w s g horizon tp))) \<and>
     holds_claims horizon tps rt \<and>
     (\<forall>(r, p) \<in> set tps. \<forall>(r', q) \<in> set tps. tp_success p \<longrightarrow> tp_success q \<longrightarrow> (\<forall>t. 0 \<le> t \<longrightarrow> \<not> swap_at p q t)))"

lemma coord_inv_init: "coord_inv w starts goals horizon [] ([], [], reservation_init)"
  by (simp add: coord_inv_def holds_claims_def reservation_init_def)

lemma holds_claims_same: "same_claims rt rt' \<Longrightarrow> holds_claims horizon tps rt \<Longrightarrow> holds_claims horizon tps rt'"
  by (simp add: holds_claims_def same_claims_def)

lemma claims_iff:
  assumes "holds_claims horizon tps rt"
  shows "dict_get (vertices rt) k = Some r \<longleftrightarrow> (\<exists>tp. (r, tp) \<in> set tps \<and> tp_success tp \<and> path_vertex tp horizon k)"
    and "dict_get (edges rt) k' = Some r \<longleftrightarrow> (\<exists>tp. (r, tp) \<in> set tps \<and> tp_success tp \<and> path_edge tp k')"
  using assms unfolding holds_claims_def by blast+

lemma claim_vertex:
  "holds_claims horizon tps rt \<Longrightarrow> (r', q) \<in> set tps \<Longrightarrow> tp_success q \<Longrightarrow> path_vertex q horizon k \<Longrightarrow>
     dict_get (vertices rt) k = Some r'"
  unfolding holds_claims_def by blast

lemma claim_edge:
  "holds_claims horizon tps rt \<Longrightarrow> (r', q) \<in> set tps \<Longrightarrow> tp_success q \<Longrightarrow> path_edge q k \<Longrightarrow>
     dict_get (edges rt) k = Some r'"
  unfolding holds_claims_def by blast

text \<open>A robot that is not yet planned, and a new route of it that the table allows.\<close>

lemma edges_free:
  assumes C: "holds_claims horizon tps rt" and r: "r \<notin> set (dict_keys tps)"
    and R: "timed_path_ok tp" "tp_start_time tp = 0" "tp_arrival_time tp \<le> horizon"
    and V: "\<And>t. 0 \<le> t \<Longrightarrow> t \<le> horizon \<Longrightarrow> vertex_free rt r (pos_at tp t) t"
    and others: "\<forall>(r', q) \<in> set tps. tp_success q \<longrightarrow> (\<exists>s g. route_of w s g horizon q)"
    and e: "path_edge tp (a, b, t)"
  shows "edge_free rt r a b t"
proof (rule ccontr)
  assume "\<not> edge_free rt r a b t"
  then obtain r' where r': "dict_get (edges rt) (a, b, t) = Some r'" "r' \<noteq> r"
    by (auto simp: edge_free_def)
  then obtain q where q: "(r', q) \<in> set tps" "tp_success q" "path_edge q (a, b, t)"
    using C unfolding holds_claims_def by blast
  then obtain s g where ro: "route_of w s g horizon q" using others by blast
  have t: "0 \<le> t" "t < tp_arrival_time tp" and b: "b = pos_at tp (t + 1)"
    using e R(2) by (simp_all add: path_edge_def)
  have "path_vertex q horizon (b, t + 1)"
    using q(3) ro by (auto simp: path_edge_def path_vertex_def route_of_def)
  from claim_vertex [OF C q(1,2) this] have "dict_get (vertices rt) (b, t + 1) = Some r'" .
  moreover have "vertex_free rt r b (t + 1)" using V [of "t + 1"] t b R(3) by simp
  ultimately show False using r'(2) by (simp add: vertex_free_def)
qed

lemma no_new_swap:
  assumes C: "holds_claims horizon tps rt" and q: "(r', q) \<in> set tps" "tp_success q" "route_of w s g horizon q"
    and r: "r' \<noteq> r" and R: "timed_path_ok tp" "tp_start_time tp = 0"
    and E: "\<And>t. 0 \<le> t \<Longrightarrow> t < tp_arrival_time tp \<Longrightarrow> pos_at tp t = pos_at tp (t + 1) \<or>
       edge_free rt r (pos_at tp (t + 1)) (pos_at tp t) t"
    and t: "0 \<le> t"
  shows "\<not> swap_at tp q t"
proof
  assume S: "swap_at tp q t"
  have mv: "t < tp_arrival_time p" if "timed_path_ok p" "pos_at p t \<noteq> pos_at p (t + 1)" for p
    using pos_at_goal [OF that(1), of t] pos_at_goal [OF that(1), of "t + 1"] that(2) by fastforce
  have "pos_at q t \<noteq> pos_at q (t + 1)" using S unfolding swap_at_def by metis
  then have "path_edge q (pos_at tp (t + 1), pos_at tp t, t)"
    using S t q(3) mv [of q] by (auto simp: swap_at_def path_edge_def route_of_def)
  from claim_edge [OF C q(1,2) this]
  have "dict_get (edges rt) (pos_at tp (t + 1), pos_at tp t, t) = Some r'" .
  then show False using E [OF t] mv [OF R(1)] S r by (auto simp: swap_at_def edge_free_def)
qed

lemma dict_append_get: "k \<notin> set (dict_keys d) \<Longrightarrow> dict_set k v d = d @ [(k, v)]"
  by (simp add: dict_set_new dict_get_None_iff)

lemma holds_claims_failed:
  "holds_claims horizon tps rt \<Longrightarrow> \<not> tp_success tp \<Longrightarrow> holds_claims horizon (tps @ [(r, tp)]) rt"
  unfolding holds_claims_def by auto

lemma holds_claims_found:
  assumes C: "holds_claims horizon tps rt" and ok: "tp_success tp"
    and V: "\<And>k. path_vertex tp horizon k \<Longrightarrow> vertex_free rt r (fst k) (snd k)"
    and E: "\<And>a b t. path_edge tp (a, b, t) \<Longrightarrow> edge_free rt r a b t"
    and v: "\<And>k. dict_get (vertices rt') k = (if path_vertex tp horizon k then Some r else dict_get (vertices rt) k)"
    and e: "\<And>k. dict_get (edges rt') k = (if path_edge tp k then Some r else dict_get (edges rt) k)"
  shows "holds_claims horizon (tps @ [(r, tp)]) rt'"
proof -
  have "dict_get (vertices rt') k = Some r' \<longleftrightarrow>
      (\<exists>q. (r', q) \<in> set (tps @ [(r, tp)]) \<and> tp_success q \<and> path_vertex q horizon k)" for k r'
  proof (cases "path_vertex tp horizon k")
    case True
    have "r'' = r" if "(r'', q) \<in> set tps" "tp_success q" "path_vertex q horizon k" for r'' q
      using claim_vertex [OF C that] V [OF True] by (simp add: vertex_free_def)
    then show ?thesis using True ok by (auto simp: v)
  next
    case False
    then show ?thesis using claims_iff(1) [OF C, of k r'] by (auto simp: v)
  qed
  moreover have "dict_get (edges rt') k = Some r' \<longleftrightarrow>
      (\<exists>q. (r', q) \<in> set (tps @ [(r, tp)]) \<and> tp_success q \<and> path_edge q k)" for k r'
  proof (cases "path_edge tp k")
    case True
    obtain a b t where k: "k = (a, b, t)" by (cases k)
    have "r'' = r" if "(r'', q) \<in> set tps" "tp_success q" "path_edge q k" for r'' q
      using claim_edge [OF C that] E [of a b t] True k by (auto simp: edge_free_def)
    then show ?thesis using True ok by (auto simp: e)
  next
    case False
    then show ?thesis using claims_iff(2) [OF C, of k r'] by (auto simp: e)
  qed
  ultimately show ?thesis unfolding holds_claims_def by blast
qed

lemma coord_inv_add:
  assumes I: "coord_inv w starts goals horizon planned (tps, failed, rt)" and r: "r \<notin> set planned"
    and tp: "tp_robot_id tp = r" "tp_success tp \<Longrightarrow> \<exists>s g. dict_get starts r = Some s \<and>
        dict_get goals r = Some g \<and> route_of w s g horizon tp"
    and C: "holds_claims horizon (tps @ [(r, tp)]) rt'"
    and S: "\<And>r' q t. (r', q) \<in> set tps \<Longrightarrow> tp_success q \<Longrightarrow> tp_success tp \<Longrightarrow> 0 \<le> t \<Longrightarrow> \<not> swap_at tp q t"
    and f: "failed' = (if tp_success tp then failed else failed @ [r])"
  shows "coord_inv w starts goals horizon (planned @ [r]) (tps @ [(r, tp)], failed', rt')"
proof -
  have self: "\<not> swap_at tp tp t" for t unfolding swap_at_def by metis
  have sw: "\<not> swap_at p q t" if h: "(r1, p) \<in> set (tps @ [(r, tp)])" "(r2, q) \<in> set (tps @ [(r, tp)])"
    "tp_success p" "tp_success q" "0 \<le> t" for r1 r2 p q t
  proof -
    consider "(r1, p) \<in> set tps" "(r2, q) \<in> set tps" | "p = tp" "(r2, q) \<in> set tps"
      | "(r1, p) \<in> set tps" "q = tp" | "p = tp" "q = tp" using h(1,2) by auto
    then show ?thesis
    proof cases
      case 1
      then show ?thesis using I h by (fastforce simp: coord_inv_def)
    next
      case 2
      then show ?thesis using S h by blast
    next
      case 3
      then show ?thesis using S swap_at_sym h by blast
    qed (use self in simp)
  qed
  have W: "\<forall>(r1, p) \<in> set (tps @ [(r, tp)]). \<forall>(r2, q) \<in> set (tps @ [(r, tp)]).
      tp_success p \<longrightarrow> tp_success q \<longrightarrow> (\<forall>t. 0 \<le> t \<longrightarrow> \<not> swap_at p q t)"
    using sw by blast
  show ?thesis using I unfolding coord_inv_def prod.case
  proof (intro conjI; (elim conjE)?)
    show "holds_claims horizon (tps @ [(r, tp)]) rt'" by (rule C)
  qed (use W r tp f in auto)
qed

lemma coord_inv_routes:
  "coord_inv w starts goals horizon planned (tps, failed, rt) \<Longrightarrow> (r, q) \<in> set tps \<Longrightarrow> tp_success q \<Longrightarrow>
     \<exists>s g. dict_get starts r = Some s \<and> dict_get goals r = Some g \<and> route_of w s g horizon q"
  by (auto simp: coord_inv_def)

lemma plan_robot_inv:
  assumes I: "coord_inv w starts goals horizon planned cs" and r: "r \<notin> set planned"
    and s: "dict_get starts r = Some s" and g: "dict_get goals r = Some g"
  shows "\<exists>cs'. plan_robot manhattan_distance w starts goals horizon r cs = Inr cs' \<and>
    coord_inv w starts goals horizon (planned @ [r]) cs'"
proof -
  obtain tps failed rt where cs: "cs = (tps, failed, rt)" by (cases cs)
  note I = I [unfolded cs]
  have C: "holds_claims horizon tps rt" and keys: "dict_keys tps = planned" using I by (simp_all add: coord_inv_def)
  have app: "dict_set r tp tps = tps @ [(r, tp)]" for tp using dict_append_get r keys by fastforce
  from manhattan_st.st_plan_ok [of w s g rt r 0 horizon] show ?thesis
  proof (elim disjE exE conjE)
    fix reason rt'
    assume a: "st_plan manhattan_distance w s g rt r 0 (Some horizon) = Inr (tp_failed r reason, rt')" "same_claims rt rt'"
    have "coord_inv w starts goals horizon (planned @ [r]) (tps @ [(r, tp_failed r reason)], failed @ [r], rt')"
      using holds_claims_failed [OF holds_claims_same [OF a(2) C]] by (intro coord_inv_add [OF I r]) simp_all
    then show ?thesis using a(1) s g app by (simp add: cs plan_robot_def)
  next
    fix xs rt'
    assume a: "st_plan manhattan_distance w s g rt r 0 (Some horizon) =
        Inr (tp_found r (map (\<lambda>(c, t). TimedStep c t) xs), rt')" "same_claims rt rt'"
      "timed_route w rt r horizon s 0 g xs"
    define tp where "tp = tp_found r (map (\<lambda>(c, t). TimedStep c t) xs)"
    note R = timed_route_path [OF a(3) tp_def]
    have sel: "tp_robot_id tp = r" "tp_success tp" by (simp_all add: tp_def)
    have C': "holds_claims horizon tps rt'" using holds_claims_same [OF a(2) C] .
    have V: "vertex_free rt' r (pos_at tp t) t" if "0 \<le> t" "t \<le> horizon" for t
      using R(6) [OF that] same_claims_free(1) [OF a(2)] by simp
    have others: "\<forall>(r', q) \<in> set tps. tp_success q \<longrightarrow> (\<exists>s g. route_of w s g horizon q)"
      using coord_inv_routes [OF I] by blast
    have E: "edge_free rt' r a b t" if "path_edge tp (a, b, t)" for a b t
      using edges_free [OF C' _ R(1-3) V others that] r keys by simp
    obtain rt2 where rt2: "reserve_timed_path tp horizon rt' = Inr rt2"
      "\<And>k. dict_get (vertices rt2) k = (if path_vertex tp horizon k then Some r else dict_get (vertices rt') k)"
      "\<And>k. dict_get (edges rt2) k = (if path_edge tp k then Some r else dict_get (edges rt') k)"
      using reserve_timed_path_ok [OF R(1) sel(2) R(3), of rt'] V E R(2) sel(1) by metis
    have "holds_claims horizon (tps @ [(r, tp)]) rt2"
    proof (rule holds_claims_found [OF C' sel(2) _ E rt2(2,3)])
      fix k assume "path_vertex tp horizon k"
      then show "vertex_free rt' r (fst k) (snd k)" using V [of "snd k"] R(2) by (simp add: path_vertex_def)
    qed
    moreover have "route_of w s g horizon tp"
      using R(1-5) R(7) R(8) unfolding route_of_def by blast
    moreover have "\<not> swap_at tp q t" if h: "(r', q) \<in> set tps" "tp_success q" "0 \<le> t" for r' q t
    proof -
      obtain s' g' where "route_of w s' g' horizon q" using others h by blast
      moreover have "r' \<noteq> r" using h(1) r keys by force
      moreover have "pos_at tp t = pos_at tp (t + 1) \<or> edge_free rt' r (pos_at tp (t + 1)) (pos_at tp t) t"
        if "0 \<le> t" "t < tp_arrival_time tp" for t
        using R(8) [OF that] same_claims_free(2) [OF a(2)] by blast
      ultimately show ?thesis using no_new_swap [OF C' h(1,2) _ _ R(1,2) _ h(3)] by blast
    qed
    ultimately have "coord_inv w starts goals horizon (planned @ [r]) (tps @ [(r, tp)], failed, rt2)"
      using sel s g by (intro coord_inv_add [OF I r]) auto
    then show ?thesis using a(1) s g app rt2(1) sel unfolding tp_def [symmetric] by (simp add: cs plan_robot_def Let_def)
  qed
qed

lemma plan_robots_inv:
  assumes "coord_inv w starts goals horizon planned cs" "distinct (planned @ order)"
    and "\<And>r. r \<in> set order \<Longrightarrow> \<exists>s g. dict_get starts r = Some s \<and> dict_get goals r = Some g"
  shows "\<exists>cs'. res_fold (plan_robot manhattan_distance w starts goals horizon) order cs = Inr cs' \<and>
    coord_inv w starts goals horizon (planned @ order) cs'"
  using assms
proof (induction order arbitrary: planned cs)
  case Nil
  then show ?case by simp
next
  case (Cons r order)
  obtain s g where sg: "dict_get starts r = Some s" "dict_get goals r = Some g" using Cons.prems(3) [of r] by auto
  obtain cs1 where cs1: "plan_robot manhattan_distance w starts goals horizon r cs = Inr cs1"
    "coord_inv w starts goals horizon (planned @ [r]) cs1"
    using plan_robot_inv [OF Cons.prems(1) _ sg] Cons.prems(2) by auto
  show ?case using Cons.IH [OF cs1(2)] Cons.prems(2,3) cs1(1) by auto
qed

section \<open>A coordinated plan is safe\<close>

lemma coord_inv_ids:
  assumes "coord_inv w starts goals horizon planned (tps, failed, rt)"
  shows "distinct (map tp_robot_id (filter tp_success (dict_values tps)))"
proof -
  have id: "tp_robot_id (snd x) = fst x" if "x \<in> set tps" for x
    using assms that by (cases x) (auto simp: coord_inv_def)
  have "map tp_robot_id (dict_values tps) = dict_keys tps" using id by simp
  moreover have "distinct (dict_keys tps)" using assms by (auto simp: coord_inv_def)
  ultimately have "distinct (map tp_robot_id (dict_values tps))" by (simp only:)
  then show ?thesis using distinct_map_filter by blast
qed

lemma coord_inv_mem:
  assumes "coord_inv w starts goals horizon planned (tps, failed, rt)" "tp \<in> set (filter tp_success (dict_values tps))"
  shows "(tp_robot_id tp, tp) \<in> set tps \<and> tp_success tp \<and> (\<exists>s g. dict_get starts (tp_robot_id tp) = Some s \<and>
    dict_get goals (tp_robot_id tp) = Some g \<and> route_of w s g horizon tp)"
proof -
  obtain r where r: "(r, tp) \<in> set tps" "tp_success tp" using assms(2) by auto
  then have "tp_robot_id tp = r" using assms(1) by (auto simp: coord_inv_def)
  then show ?thesis using r coord_inv_routes [OF assms(1) r] by simp
qed

lemma coord_inv_safe:
  assumes I: "coord_inv w starts goals horizon planned (tps, failed, rt)"
    and ne: "filter tp_success (dict_values tps) \<noteq> []"
  shows "safe_plan (filter tp_success (dict_values tps))"
proof -
  define paths where "paths = filter tp_success (dict_values tps)"
  note mem = coord_inv_mem [OF I, folded paths_def]
  have C: "holds_claims horizon tps rt" using I by (simp add: coord_inv_def)
  have fin: "finite (set (map tp_start_time paths))" "set (map tp_start_time paths) \<noteq> {}"
    "set (map tp_arrival_time paths) \<noteq> {}" using ne unfolding paths_def [symmetric] by simp_all
  have S: "0 \<le> Min (set (map tp_start_time paths))"
    using mem fin by (subst Min_ge_iff) (auto simp: route_of_def)
  have H: "Max (set (map tp_arrival_time paths)) \<le> horizon"
    using mem fin by (subst Max_le_iff) (auto simp: route_of_def)
  have "apart paths t" if t: "0 \<le> t" "t \<le> horizon" for t
  proof -
    have "p = q" if h: "p \<in> set paths" "q \<in> set paths" "pos_at p t = pos_at q t" for p q
    proof -
      have "path_vertex p horizon (pos_at p t, t)" "path_vertex q horizon (pos_at p t, t)"
        using mem [OF h(1)] mem [OF h(2)] h(3) t by (auto simp: path_vertex_def route_of_def)
      then have "dict_get (vertices rt) (pos_at p t, t) = Some (tp_robot_id p)"
        "dict_get (vertices rt) (pos_at p t, t) = Some (tp_robot_id q)"
        using claim_vertex [OF C] mem [OF h(1)] mem [OF h(2)] by blast+
      then have "tp_robot_id p = tp_robot_id q" by simp
      then show ?thesis using coord_inv_ids [OF I, folded paths_def] h(1,2)
        by (auto simp: distinct_map dest: inj_onD)
    qed
    moreover have "distinct paths" using coord_inv_ids [OF I, folded paths_def] by (simp add: distinct_map)
    ultimately show ?thesis by (auto simp: apart_def distinct_map inj_on_def)
  qed
  moreover have "no_swap paths t" if t: "0 \<le> t" for t
  proof -
    have "\<not> swap_at p q t" if "p \<in> set paths" "q \<in> set paths" for p q
      using mem [OF that(1)] mem [OF that(2)] I t by (fastforce simp: coord_inv_def)
    then show ?thesis unfolding no_swap_def swap_at_def by blast
  qed
  ultimately show ?thesis using S H unfolding safe_plan_def paths_def [symmetric]
    by (meson order_trans less_imp_le)
qed

lemma route_of_walkable:
  assumes R: "route_of w s g horizon tp" and e: "dict_get starts (tp_robot_id tp) = Some s"
  shows "walkable w (Some starts) True tp"
proof -
  have ok: "timed_path_ok tp" and st: "tp_start_time tp = 0" using R by (simp_all add: route_of_def)
  have "step_position (hd (tp_steps tp)) = s" using pos_at_start [OF ok, of 0] R st by (simp add: route_of_def)
  moreover have "is_traversable w (step_position x)" if "x \<in> set (tp_steps tp)" for x
    using that R st unfolding steps_iff [OF ok] route_of_def by fastforce
  moreover have "manhattan_distance_to (step_position (tp_steps tp ! i)) (step_position (tp_steps tp ! Suc i)) \<le> 1"
    if i: "Suc i < length (tp_steps tp)" for i
  proof -
    have "int i < tp_arrival_time tp" using arrival_time_ok [OF ok] st i by simp
    then have "pos_at tp (int i) = pos_at tp (int i + 1) \<or> is_adjacent_to (pos_at tp (int i)) (pos_at tp (int i + 1))"
      using R by (simp add: route_of_def)
    moreover have "step_position (tp_steps tp ! i) = pos_at tp (int i)"
      "step_position (tp_steps tp ! Suc i) = pos_at tp (int i + 1)"
      using pos_at_step [of i tp] pos_at_step [of "Suc i" tp] st i by (simp_all add: add.commute)
    ultimately show ?thesis by (auto simp: is_adjacent_to_def)
  qed
  ultimately show ?thesis using e is_traversable_in_bounds by (auto simp: walkable_def)
qed

lemma coord_inv_validates:
  assumes I: "coord_inv w starts goals horizon planned (tps, failed, rt)"
  shows "find_coordination_problems (dict_values tps) w (Some starts) True = Inr []"
proof -
  note mem = coord_inv_mem [OF I]
  have "\<forall>tp \<in> set (filter tp_success (dict_values tps)). timed_path_ok tp"
    using mem unfolding route_of_def by blast
  from validator_ok [OF this coord_inv_ids [OF I], of w "Some starts" True] obtain ps where
    ps: "find_coordination_problems (dict_values tps) w (Some starts) True = Inr ps"
    "ps = [] \<longleftrightarrow> (\<forall>tp \<in> set (filter tp_success (dict_values tps)). walkable w (Some starts) True tp) \<and>
      (filter tp_success (dict_values tps) \<noteq> [] \<longrightarrow> safe_plan (filter tp_success (dict_values tps)))"
    by blast
  moreover have "\<forall>tp \<in> set (filter tp_success (dict_values tps)). walkable w (Some starts) True tp"
    using mem route_of_walkable by blast
  ultimately show ?thesis using coord_inv_safe [OF I] by blast
qed

lemma summarise_ok:
  assumes I: "coord_inv w starts goals horizon planned (tps, failed, rt)"
  shows "\<exists>cr. summarise tps order failed checks horizon = Inr cr \<and> cr_timed_paths cr = tps \<and>
    cr_robot_order cr = order \<and> cr_horizon cr = horizon \<and> cr_failed_robot_ids cr = failed \<and>
    (cr_success cr \<longleftrightarrow> failed = []) \<and> cr_makespan cr \<le> max 0 horizon \<and>
    cr_total_move_steps cr + cr_total_wait_steps cr = cr_total_space_time_cost cr"
proof -
  let ?ok = "filter tp_success (dict_values tps)"
  have f: "failed = map fst (filter (\<lambda>(r, tp). \<not> tp_success tp) tps)" using I by (simp add: coord_inv_def)
  have "\<exists>tp. dict_get tps rid = Some tp" if "rid \<in> set failed" for rid
  proof -
    have "rid \<in> fst ` set tps" using that unfolding f by force
    then show ?thesis using dict_get_None_iff [of tps rid] by (cases "dict_get tps rid") auto
  qed
  then have "res_map (\<lambda>rid. case dict_get tps rid of None \<Rightarrow> Inl KeyError | Some tp \<Rightarrow> Inr (rid, tp_failure_reason tp)) failed
      = Inr (map (\<lambda>rid. (rid, tp_failure_reason (the (dict_get tps rid)))) failed)"
    by (intro res_map_pure) fastforce
  moreover have "(if ?ok = [] then 0 else Max (set (map tp_arrival_time ?ok))) \<le> max 0 horizon"
  proof (cases "?ok = []")
    case False
    have "tp_arrival_time tp \<le> horizon" if "tp \<in> set ?ok" for tp
      using coord_inv_mem [OF I that] by (auto simp: route_of_def)
    then have "Max (set (map tp_arrival_time ?ok)) \<le> horizon" by (rule Max_map_le [OF False])
    then show ?thesis using False by simp
  qed simp
  moreover have "sum_list (map tp_move_count ?ok) + sum_list (map tp_wait_count ?ok) = sum_list (map tp_makespan ?ok)"
  proof -
    have "\<forall>tp \<in> set ?ok. timed_path_ok tp" using coord_inv_mem [OF I] unfolding route_of_def by blast
    then show ?thesis by (rule sum_moves_waits)
  qed
  ultimately show ?thesis by (simp add: summarise_def Let_def)
qed

text \<open>The coordinator as a whole, on a request that passes its check.\<close>

lemma coordinate_inv:
  assumes ok: "dict_ok starts" "dict_ok goals" and v: "validate_request starts goals order = None"
    and H: "horizon = (case horizon_opt of None \<Rightarrow> default_horizon w (length starts) | Some h \<Rightarrow> h)"
  shows "\<exists>cr failed rt. coordinate manhattan_distance w starts goals order horizon_opt = Inr cr \<and>
    coord_inv w starts goals horizon (priority_list starts order) (cr_timed_paths cr, failed, rt) \<and>
    cr_robot_order cr = priority_list starts order \<and> cr_horizon cr = horizon \<and>
    cr_failed_robot_ids cr = failed \<and> (cr_success cr \<longleftrightarrow> failed = []) \<and> cr_makespan cr \<le> max 0 horizon \<and>
    cr_total_move_steps cr + cr_total_wait_steps cr = cr_total_space_time_cost cr"
proof -
  note V = validate_request_None [OF v ok(1)]
  have "\<exists>s g. dict_get starts r = Some s \<and> dict_get goals r = Some g" if "r \<in> set (priority_list starts order)" for r
    using that V(1,2) dict_get_None_iff [of starts r] dict_get_None_iff [of goals r]
    by (cases "dict_get starts r"; cases "dict_get goals r") auto
  then obtain tps failed rt where L: "res_fold (plan_robot manhattan_distance w starts goals horizon)
      (priority_list starts order) ([], [], reservation_init) = Inr (tps, failed, rt)"
    and I: "coord_inv w starts goals horizon (priority_list starts order) (tps, failed, rt)"
    using plan_robots_inv [OF coord_inv_init, of "priority_list starts order" starts goals w horizon] V(3)
    by auto
  obtain cr where cr: "summarise tps (priority_list starts order) failed (query_count rt) horizon = Inr cr"
    "cr_timed_paths cr = tps" "cr_robot_order cr = priority_list starts order" "cr_horizon cr = horizon"
    "cr_failed_robot_ids cr = failed" "cr_success cr \<longleftrightarrow> failed = []" "cr_makespan cr \<le> max 0 horizon"
    "cr_total_move_steps cr + cr_total_wait_steps cr = cr_total_space_time_cost cr"
    using summarise_ok [OF I] by blast
  have "coordinate manhattan_distance w starts goals order horizon_opt = Inr cr"
    using v L cr(1) H by (simp add: coordinate_def Let_def)
  then show ?thesis using I cr by blast
qed

end
