(* ===== verification/Coordinated_Executor.thy ===== *)
theory Coordinated_Executor
  imports Coordinator
begin

text \<open>
  Driving a fleet in lock-step (\<open>coordination/coordinated_executor.py\<close>): at every timestep
  the joint move is validated as a whole (phase 1) and only then committed robot by robot
  (phase 2). The commit loop can raise in the middle, and its model returns the state it
  has reached then; the theorems show that after a successful phase 1 it never does.
\<close>

section \<open>Results\<close>

datatype joint_reason =
    J_Offline string
  | J_Elsewhere string position "position option"
  | J_Wait_Blocked string position
  | J_Out_Of_Bounds string position
  | J_Blocked string position
  | J_Not_One_Step string position position
  | J_No_Battery string pyfloat
  | J_Vertex string string "position option"
  | J_Swap string string "position option" "position option"

datatype preflight_reason =
    Unknown_Robot string
  | Offline_Robot string
  | Not_At_Start string position "position option"

datatype coordinated_failure =
    Plan_Invalid
  | Preflight_Failed preflight_reason
  | Stopped_Before int joint_reason
  | Trace_Invalid

record robot_summary =
  rs_robot_id :: string
  rs_start :: "position option"
  rs_goal :: "position option"
  rs_final_position :: position
  rs_reached_goal :: bool
  rs_moves :: int
  rs_waits :: int
  rs_distance_travelled :: pyfloat
  rs_battery_before :: pyfloat
  rs_battery_after :: pyfloat

record coordinated_result =
  cx_success :: bool
  cx_executed_robot_ids :: "string list"
  cx_not_executed_robot_ids :: "string list"
  cx_per_robot :: "(string, robot_summary) dict"
  cx_robots_reached_goal :: nat
  cx_total_move_steps :: int
  cx_total_wait_steps :: int
  cx_makespan_executed :: int
  cx_total_distance :: pyfloat
  cx_total_battery_consumed :: pyfloat
  cx_vertex_conflicts :: nat
  cx_edge_conflicts :: nat
  cx_validation_problems :: "coordination_problem list"
  cx_failure_reason :: "coordinated_failure option"

definition cx_default :: "bool \<Rightarrow> string list \<Rightarrow> coordinated_failure option \<Rightarrow> coordinated_result" where
  "cx_default success not_executed reason =
     \<lparr>cx_success = success, cx_executed_robot_ids = [], cx_not_executed_robot_ids = not_executed,
      cx_per_robot = [], cx_robots_reached_goal = 0, cx_total_move_steps = 0, cx_total_wait_steps = 0,
      cx_makespan_executed = 0, cx_total_distance = 0, cx_total_battery_consumed = 0,
      cx_vertex_conflicts = 0, cx_edge_conflicts = 0, cx_validation_problems = [],
      cx_failure_reason = reason\<rparr>"

section \<open>Phase 1: validating the joint step\<close>

type_synonym intents = "(string, position option \<times> position option) dict"

definition intents_at ::
  "(string, timed_path) dict \<Rightarrow> string list \<Rightarrow> int \<Rightarrow> py_error + intents" where
  "intents_at paths order t = res_map (\<lambda>rid.
     case dict_get paths rid of None \<Rightarrow> Inl KeyError
     | Some tp \<Rightarrow> res_bind (position_at (t - 1) tp) (\<lambda>frm.
         res_bind (position_at t tp) (\<lambda>dest. Inr (rid, (frm, dest))))) order"

definition check_robot ::
  "simulator \<Rightarrow> string \<times> position option \<times> position option \<Rightarrow> py_error + joint_reason option" where
  "check_robot s intent = (case intent of (rid, frm, dest) \<Rightarrow>
     res_bind (get_robot s rid) (\<lambda>r.
       if robot_status r = R_OFFLINE then Inr (Some (J_Offline rid))
       else if Some (robot_position r) \<noteq> frm then Inr (Some (J_Elsewhere rid (robot_position r) frm))
       else (case dest of
          None \<Rightarrow> Inl AttributeError
        | Some to \<Rightarrow>
            if robot_position r = to then
              (if \<not> is_traversable (sim_warehouse s) to then Inr (Some (J_Wait_Blocked rid to)) else Inr None)
            else if \<not> in_bounds (sim_warehouse s) to then Inr (Some (J_Out_Of_Bounds rid to))
            else if \<not> is_traversable (sim_warehouse s) to then Inr (Some (J_Blocked rid to))
            else if \<not> is_adjacent_to (robot_position r) to then Inr (Some (J_Not_One_Step rid (robot_position r) to))
            else if \<not> has_battery_for_move r then Inr (Some (J_No_Battery rid (battery_level r)))
            else Inr None)))"

fun check_robots :: "simulator \<Rightarrow> intents \<Rightarrow> py_error + joint_reason option" where
  "check_robots s [] = Inr None"
| "check_robots s (intent # rest) = res_bind (check_robot s intent) (\<lambda>x.
     case x of Some reason \<Rightarrow> Inr (Some reason) | None \<Rightarrow> check_robots s rest)"

fun dest_conflict :: "intents \<Rightarrow> (position option, string) dict \<Rightarrow> joint_reason option" where
  "dest_conflict [] destinations = None"
| "dest_conflict ((rid, frm, to) # rest) destinations =
     (case dict_get destinations to of
        Some other \<Rightarrow> Some (J_Vertex other rid to)
      | None \<Rightarrow> dest_conflict rest (dict_set to rid destinations))"

definition swap_conflict :: "intents \<Rightarrow> joint_reason option" where
  "swap_conflict intents =
     (let moves = filter (\<lambda>(rid, frm, to). frm \<noteq> to) intents in
      case concat (map (\<lambda>(rid, frm, to). map (\<lambda>(other, _, _). J_Swap rid other frm to)
             (filter (\<lambda>(other, o_frm, o_to). \<not> other \<le> rid \<and> frm = o_to \<and> to = o_frm) moves)) moves) of
        [] \<Rightarrow> None | reason # _ \<Rightarrow> Some reason)"

definition validate_joint_step ::
  "simulator \<Rightarrow> intents \<Rightarrow> py_error + joint_reason option \<times> nat \<times> nat" where
  "validate_joint_step s intents = res_bind (check_robots s intents) (\<lambda>x.
     case x of
       Some reason \<Rightarrow> Inr (Some reason, 0, 0)
     | None \<Rightarrow>
         (case dest_conflict intents [] of
            Some reason \<Rightarrow> Inr (Some reason, 1, 0)
          | None \<Rightarrow>
              (case swap_conflict intents of
                 Some reason \<Rightarrow> Inr (Some reason, 0, 1)
               | None \<Rightarrow> Inr (None, 0, 0))))"

section \<open>Phase 2: committing it\<close>

record run_state =
  xs_sim :: simulator
  xs_waits :: "(string, int) dict"
  xs_moves :: "(string, int) dict"
  xs_trace :: "(string, timed_step list) dict"

definition dict_bump :: "string \<Rightarrow> (string, int) dict \<Rightarrow> (string, int) dict" where
  "dict_bump k d = (case dict_get d k of None \<Rightarrow> d | Some n \<Rightarrow> dict_set k (n + 1) d)"

definition trace_append :: "string \<Rightarrow> timed_step \<Rightarrow> (string, timed_step list) dict \<Rightarrow> (string, timed_step list) dict" where
  "trace_append k x d = (case dict_get d k of None \<Rightarrow> d | Some xs \<Rightarrow> dict_set k (xs @ [x]) d)"

definition commit_one ::
  "(string, timed_path) dict \<Rightarrow> int \<Rightarrow> string \<times> position option \<times> position option \<Rightarrow> run_state \<Rightarrow>
     py_error + run_state" where
  "commit_one paths t intent xs = (case intent of (rid, frm, dest) \<Rightarrow>
     (case (dict_get paths rid, dest) of
        (Some tp, Some to) \<Rightarrow>
          res_bind
            (if frm = dest then
               Inr (if t \<le> tp_arrival_time tp then xs\<lparr>xs_waits := dict_bump rid (xs_waits xs)\<rparr> else xs)
             else
               res_bind (get_robot (xs_sim xs) rid) (\<lambda>r. res_bind (move_to to r) (\<lambda>r'.
                 Inr (xs\<lparr>xs_sim := put_robot rid r' (xs_sim xs), xs_moves := dict_bump rid (xs_moves xs)\<rparr>))))
            (\<lambda>xs'. Inr (xs'\<lparr>xs_trace := trace_append rid (TimedStep to t) (xs_trace xs')\<rparr>))
      | (None, _) \<Rightarrow> Inl KeyError
      | (_, None) \<Rightarrow> Inl AttributeError))"

fun commit_all ::
  "(string, timed_path) dict \<Rightarrow> int \<Rightarrow> intents \<Rightarrow> run_state \<Rightarrow> (py_error + unit) \<times> run_state" where
  "commit_all paths t [] xs = (Inr (), xs)"
| "commit_all paths t (intent # rest) xs =
     (case commit_one paths t intent xs of
        Inl e \<Rightarrow> (Inl e, xs)
      | Inr xs' \<Rightarrow> commit_all paths t rest xs')"

section \<open>The run\<close>

text \<open>
  The loop over timesteps: it returns why it stopped, if it did, with the conflict counters,
  the last executed timestep and the state.
\<close>

fun run_steps ::
  "(string, timed_path) dict \<Rightarrow> string list \<Rightarrow> int list \<Rightarrow> nat \<Rightarrow> nat \<Rightarrow> int \<Rightarrow> run_state \<Rightarrow>
     (py_error + coordinated_failure option \<times> nat \<times> nat \<times> int) \<times> run_state" where
  "run_steps paths order [] vc ec executed xs = (Inr (None, vc, ec, executed), xs)"
| "run_steps paths order (t # ts) vc ec executed xs =
     (case intents_at paths order t of
        Inl e \<Rightarrow> (Inl e, xs)
      | Inr intents \<Rightarrow>
          (case validate_joint_step (xs_sim xs) intents of
             Inl e \<Rightarrow> (Inl e, xs)
           | Inr (Some reason, v, e) \<Rightarrow> (Inr (Some (Stopped_Before t reason), vc + v, ec + e, executed), xs)
           | Inr (None, v, e) \<Rightarrow>
               (case commit_all paths t intents xs of
                  (Inl err, xs') \<Rightarrow> (Inl err, xs')
                | (Inr _, xs') \<Rightarrow> run_steps paths order ts (vc + v) (ec + e) t xs')))"

definition summary_of ::
  "(string, timed_path) dict \<Rightarrow> (string, robot) dict \<Rightarrow> run_state \<Rightarrow> string \<Rightarrow> py_error + string \<times> robot_summary" where
  "summary_of paths before xs rid =
     res_bind (get_robot (xs_sim xs) rid) (\<lambda>r.
       (case (dict_get paths rid, dict_get before rid, dict_get (xs_moves xs) rid, dict_get (xs_waits xs) rid) of
          (Some tp, Some r0, Some moves, Some waits) \<Rightarrow>
            Inr (rid, \<lparr>rs_robot_id = rid, rs_start = tp_start tp, rs_goal = tp_goal tp,
               rs_final_position = robot_position r, rs_reached_goal = (Some (robot_position r) = tp_goal tp),
               rs_moves = moves, rs_waits = waits,
               rs_distance_travelled = fl (distance_travelled r - distance_travelled r0),
               rs_battery_before = battery_level r0, rs_battery_after = battery_level r\<rparr>)
        | _ \<Rightarrow> Inl KeyError))"

definition float_sum :: "pyfloat list \<Rightarrow> pyfloat" where
  "float_sum xs = foldl (\<lambda>acc x. fl (acc + x)) 0 xs"

text \<open>
  \<open>_run\<close>. Battery and odometer before the run are read from the robots as they are then
  (\<open>before\<close> keeps those robots).
\<close>

definition run_paths ::
  "(string, timed_path) dict \<Rightarrow> string list \<Rightarrow> simulator \<Rightarrow> (py_error + coordinated_result) \<times> simulator" where
  "run_paths paths not_executed s =
     (let order = sort (dict_keys paths);
          makespan = Max (set (map tp_arrival_time (dict_values paths))) in
      case res_map (\<lambda>rid. res_bind (get_robot s rid) (\<lambda>r.
             case dict_get paths rid of None \<Rightarrow> Inl KeyError
             | Some tp \<Rightarrow> (case tp_start tp of None \<Rightarrow> Inl AttributeError | Some c \<Rightarrow> Inr (rid, r, c)))) order of
        Inl e \<Rightarrow> (Inl e, s)
      | Inr inits \<Rightarrow>
          let before = map (\<lambda>(rid, r, c). (rid, r)) inits;
              xs = \<lparr>xs_sim = s, xs_waits = map (\<lambda>rid. (rid, 0)) order, xs_moves = map (\<lambda>rid. (rid, 0)) order,
                    xs_trace = map (\<lambda>(rid, r, c). (rid, [TimedStep c 0])) inits\<rparr> in
          (case run_steps paths order [1..makespan] 0 0 0 xs of
             (Inl e, xs') \<Rightarrow> (Inl e, xs_sim xs')
           | (Inr (stop, vc, ec, executed), xs') \<Rightarrow>
               (res_bind (res_map (summary_of paths before xs') order) (\<lambda>per_robot.
                res_bind (find_coordination_problems (map (\<lambda>(rid, steps). tp_found rid steps) (xs_trace xs'))
                            (sim_warehouse (xs_sim xs')) None True) (\<lambda>problems.
                Inr \<lparr>cx_success = (stop = None \<and> problems = []), cx_executed_robot_ids = order,
                     cx_not_executed_robot_ids = not_executed, cx_per_robot = per_robot,
                     cx_robots_reached_goal = length (filter (\<lambda>(rid, x). rs_reached_goal x) per_robot),
                     cx_total_move_steps = sum_list (dict_values (xs_moves xs')),
                     cx_total_wait_steps = sum_list (dict_values (xs_waits xs')),
                     cx_makespan_executed = executed,
                     cx_total_distance = float_sum (map (rs_distance_travelled \<circ> snd) per_robot),
                     cx_total_battery_consumed =
                       float_sum (map (\<lambda>(rid, x). fl (rs_battery_before x - rs_battery_after x)) per_robot),
                     cx_vertex_conflicts = vc, cx_edge_conflicts = ec, cx_validation_problems = problems,
                     cx_failure_reason = (case stop of Some reason \<Rightarrow> Some reason
                        | None \<Rightarrow> if problems \<noteq> [] then Some Trace_Invalid else None)\<rparr>)), xs_sim xs')))"

fun preflight_robots :: "simulator \<Rightarrow> (string \<times> timed_path) list \<Rightarrow> preflight_reason option" where
  "preflight_robots s [] = None"
| "preflight_robots s ((rid, tp) # rest) =
     (case get_robot s rid of
        Inl e \<Rightarrow> Some (Unknown_Robot rid)
      | Inr r \<Rightarrow>
          if robot_status r = R_OFFLINE then Some (Offline_Robot rid)
          else if Some (robot_position r) \<noteq> tp_start tp then Some (Not_At_Start rid (robot_position r) (tp_start tp))
          else preflight_robots s rest)"

definition execute_coordinated ::
  "coordination_result \<Rightarrow> simulator \<Rightarrow> (py_error + coordinated_result) \<times> simulator" where
  "execute_coordinated coordination s =
     (let paths = successful_paths coordination; not_executed = cr_failed_robot_ids coordination in
      case find_coordination_problems (dict_values paths) (sim_warehouse s) None False of
        Inl e \<Rightarrow> (Inl e, s)
      | Inr problems \<Rightarrow>
          if problems \<noteq> [] then
            (Inr ((cx_default False (not_executed @ sort (dict_keys paths)) (Some Plan_Invalid))
                    \<lparr>cx_validation_problems := problems\<rparr>), s)
          else
            (case preflight_robots s (sort_key fst paths) of
               Some reason \<Rightarrow>
                 (Inr (cx_default False (not_executed @ sort (dict_keys paths)) (Some (Preflight_Failed reason))), s)
             | None \<Rightarrow>
                 if paths = [] then (Inr (cx_default True not_executed None), s)
                 else run_paths paths not_executed s))"

section \<open>A validated joint step commits\<close>

text \<open>What phase 1 establishes about one robot.\<close>

definition may_step :: "simulator \<Rightarrow> string \<times> position option \<times> position option \<Rightarrow> bool" where
  "may_step s intent \<longleftrightarrow> (case intent of (rid, frm, dest) \<Rightarrow>
     \<exists>r to. dict_get (sim_robots s) rid = Some r \<and> frm = Some (robot_position r) \<and> dest = Some to \<and>
       robot_status r \<noteq> R_OFFLINE \<and> is_traversable (sim_warehouse s) to \<and>
       (robot_position r = to \<or> is_adjacent_to (robot_position r) to \<and> has_battery_for_move r))"

lemma check_robot_None: "check_robot s intent = Inr None \<longleftrightarrow> may_step s intent"
proof -
  obtain rid frm dest where i: "intent = (rid, frm, dest)" by (cases intent)
  show ?thesis
  proof (cases "dict_get (sim_robots s) rid")
    case None
    then show ?thesis by (simp add: i check_robot_def may_step_def get_robot_def)
  next
    case (Some r)
    then show ?thesis using is_traversable_in_bounds
      by (auto simp: i check_robot_def may_step_def split: option.splits)
  qed
qed

lemma check_robots_None: "check_robots s intents = Inr None \<longleftrightarrow> (\<forall>i \<in> set intents. may_step s i)"
  by (induction intents) (auto simp: res_bind_Inr check_robot_None [symmetric] split: option.splits)

lemma dest_conflict_None:
  "dest_conflict intents seen = None \<longleftrightarrow> distinct (map (\<lambda>(rid, frm, to). to) intents) \<and>
     (\<forall>(rid, frm, to) \<in> set intents. dict_get seen to = None)"
proof (induction intents seen rule: dest_conflict.induct)
  case (2 rid frm to rest seen)
  show ?case
  proof (cases "dict_get seen to")
    case None
    then show ?thesis using 2 by (auto simp: split_beta image_iff)
  qed simp
qed simp

lemma validated_step:
  assumes "validate_joint_step s intents = Inr (None, v, e)"
  shows "\<forall>i \<in> set intents. may_step s i" "distinct (map (\<lambda>(rid, frm, to). to) intents)"
    "swap_conflict intents = None"
  using assms
  by (auto simp: validate_joint_step_def res_bind_Inr check_robots_None dest_conflict_None split: option.splits)

text \<open>What phase 2 does: each planned robot is on its target, all else is as before.\<close>

definition robot_stepped :: "simulator \<Rightarrow> simulator \<Rightarrow> string \<times> position option \<times> position option \<Rightarrow> bool" where
  "robot_stepped s s' intent \<longleftrightarrow> (case intent of (rid, frm, dest) \<Rightarrow>
     \<exists>r r' to. dict_get (sim_robots s) rid = Some r \<and> dict_get (sim_robots s') rid = Some r' \<and>
       dest = Some to \<and> robot_position r' = to \<and> (if robot_position r = to then r' = r else move_to to r = Inr r'))"

definition stepped :: "intents \<Rightarrow> simulator \<Rightarrow> simulator \<Rightarrow> bool" where
  "stepped intents s s' \<longleftrightarrow> sim_warehouse s' = sim_warehouse s \<and> sim_tasks s' = sim_tasks s \<and>
     dict_keys (sim_robots s') = dict_keys (sim_robots s) \<and>
     (\<forall>i. i \<notin> set (dict_keys intents) \<longrightarrow> dict_get (sim_robots s') i = dict_get (sim_robots s) i) \<and>
     (\<forall>i \<in> set intents. robot_stepped s s' i)"

definition trace_stepped :: "int \<Rightarrow> run_state \<Rightarrow> run_state \<Rightarrow> string \<times> position option \<times> position option \<Rightarrow> bool" where
  "trace_stepped t xs xs' intent \<longleftrightarrow> (case intent of (rid, frm, dest) \<Rightarrow>
     dict_get (xs_trace xs') rid =
       map_option (\<lambda>steps. steps @ [TimedStep (the dest) t]) (dict_get (xs_trace xs) rid))"

definition traced :: "intents \<Rightarrow> int \<Rightarrow> run_state \<Rightarrow> run_state \<Rightarrow> bool" where
  "traced intents t xs xs' \<longleftrightarrow> dict_keys (xs_trace xs') = dict_keys (xs_trace xs) \<and>
     dict_keys (xs_waits xs') = dict_keys (xs_waits xs) \<and> dict_keys (xs_moves xs') = dict_keys (xs_moves xs) \<and>
     (\<forall>i. i \<notin> set (dict_keys intents) \<longrightarrow> dict_get (xs_trace xs') i = dict_get (xs_trace xs) i) \<and>
     (\<forall>i \<in> set intents. trace_stepped t xs xs' i)"

lemma robot_stepped_cong:
  assumes "dict_get (sim_robots a) (fst i) = dict_get (sim_robots s) (fst i)"
    "dict_get (sim_robots b) (fst i) = dict_get (sim_robots s') (fst i)"
  shows "robot_stepped a b i = robot_stepped s s' i"
  using assms by (cases i) (simp add: robot_stepped_def)

lemma trace_stepped_cong:
  assumes "dict_get (xs_trace a) (fst i) = dict_get (xs_trace s) (fst i)"
    "dict_get (xs_trace b) (fst i) = dict_get (xs_trace s') (fst i)"
  shows "trace_stepped t a b i = trace_stepped t s s' i"
  using assms by (cases i) (simp add: trace_stepped_def)

lemma keys_update_known: "dict_get d k = Some v \<Longrightarrow> dict_keys (dict_set k v' d) = dict_keys d"
  by (induction d) (auto split: if_splits)

lemma trace_append_keys [simp]: "dict_keys (trace_append k x d) = dict_keys d"
  by (simp add: trace_append_def keys_update_known split: option.splits)

lemma dict_bump_keys [simp]: "dict_keys (dict_bump k d) = dict_keys d"
  by (simp add: dict_bump_def keys_update_known split: option.splits)

lemma trace_append_get:
  "dict_get (trace_append k x d) j = (if j = k then map_option (\<lambda>xs. xs @ [x]) (dict_get d k) else dict_get d j)"
  by (simp add: trace_append_def split: option.splits)

lemma commit_one_ok:
  assumes "may_step (xs_sim xs) (rid, frm, dest)" "dict_get paths rid = Some tp"
  shows "\<exists>xs'. commit_one paths t (rid, frm, dest) xs = Inr xs' \<and>
    stepped [(rid, frm, dest)] (xs_sim xs) (xs_sim xs') \<and> traced [(rid, frm, dest)] t xs xs'"
proof -
  obtain r to where r: "dict_get (sim_robots (xs_sim xs)) rid = Some r" "frm = Some (robot_position r)"
    "dest = Some to" "robot_position r = to \<or> is_adjacent_to (robot_position r) to \<and> has_battery_for_move r"
    using assms(1) by (auto simp: may_step_def)
  show ?thesis
  proof (cases "robot_position r = to")
    case True
    then show ?thesis using r assms(2)
      by (simp add: commit_one_def stepped_def traced_def trace_append_get robot_stepped_def trace_stepped_def
          keys_update_known)
  next
    case False
    then obtain r' where r': "move_to to r = Inr r'" using r(4) move_to_ex by blast
    then show ?thesis using r assms(2) False move_to_frame(2) [OF r']
      by (simp add: commit_one_def stepped_def traced_def trace_append_get robot_stepped_def trace_stepped_def
          keys_update_known)
  qed
qed

lemma may_step_other:
  assumes "stepped [e] s s'" "fst i \<noteq> fst e"
  shows "may_step s' i = may_step s i"
  using assms by (cases i) (simp add: stepped_def may_step_def)

lemma dict_keys_fst_ne: "distinct (dict_keys (e # d)) \<Longrightarrow> x \<in> set d \<Longrightarrow> fst x \<noteq> fst e"
  by (metis distinct.simps(2) image_eqI list.set_map list.simps(9))

lemma stepped_Cons:
  assumes A: "stepped [e] s s1" and B: "stepped rest s1 s2" and d: "distinct (dict_keys (e # rest))"
  shows "stepped (e # rest) s s2"
proof -
  have other: "dict_get (sim_robots s1) k = dict_get (sim_robots s) k" if "k \<noteq> fst e" for k
    using A that by (simp add: stepped_def)
  have later: "dict_get (sim_robots s2) k = dict_get (sim_robots s1) k" if "k \<notin> set (dict_keys rest)" for k
    using B that by (simp add: stepped_def)
  have "robot_stepped s s2 e"
    using A robot_stepped_cong [of s e s s2 s1] later [of "fst e"] d by (simp add: stepped_def)
  moreover have "robot_stepped s s2 i" if "i \<in> set rest" for i
  proof -
    have "fst i \<noteq> fst e" using dict_keys_fst_ne [OF d that] .
    then show ?thesis using B that robot_stepped_cong [of s i s1 s2 s2] other by (simp add: stepped_def)
  qed
  moreover have "dict_get (sim_robots s2) k = dict_get (sim_robots s) k" if "k \<notin> set (dict_keys (e # rest))" for k
    using other [of k] later [of k] that by simp
  ultimately show ?thesis using A B by (simp add: stepped_def)
qed

lemma traced_Cons:
  assumes A: "traced [e] t s s1" and B: "traced rest t s1 s2" and d: "distinct (dict_keys (e # rest))"
  shows "traced (e # rest) t s s2"
proof -
  have other: "dict_get (xs_trace s1) k = dict_get (xs_trace s) k" if "k \<noteq> fst e" for k
    using A that by (simp add: traced_def)
  have later: "dict_get (xs_trace s2) k = dict_get (xs_trace s1) k" if "k \<notin> set (dict_keys rest)" for k
    using B that by (simp add: traced_def)
  have "trace_stepped t s s2 e"
    using A trace_stepped_cong [of s e s s2 s1 t] later [of "fst e"] d by (simp add: traced_def)
  moreover have "trace_stepped t s s2 i" if "i \<in> set rest" for i
  proof -
    have "fst i \<noteq> fst e" using dict_keys_fst_ne [OF d that] .
    then show ?thesis using B that trace_stepped_cong [of s i s1 s2 s2 t] other by (simp add: traced_def)
  qed
  moreover have "dict_get (xs_trace s2) k = dict_get (xs_trace s) k" if "k \<notin> set (dict_keys (e # rest))" for k
    using other [of k] later [of k] that by simp
  ultimately show ?thesis using A B by (simp add: traced_def)
qed

lemma commit_all_ok:
  assumes "\<forall>i \<in> set intents. may_step (xs_sim xs) i" "distinct (dict_keys intents)"
    "\<forall>rid \<in> set (dict_keys intents). dict_get paths rid \<noteq> None"
  shows "\<exists>xs'. commit_all paths t intents xs = (Inr (), xs') \<and>
    stepped intents (xs_sim xs) (xs_sim xs') \<and> traced intents t xs xs'"
  using assms
proof (induction intents arbitrary: xs)
  case Nil
  then show ?case by (simp add: stepped_def traced_def)
next
  case (Cons i rest)
  obtain rid frm dest where i: "i = (rid, frm, dest)" by (cases i)
  obtain tp where tp: "dict_get paths rid = Some tp" using Cons.prems(3) i by auto
  have "may_step (xs_sim xs) (rid, frm, dest)" using Cons.prems(1) i by simp
  from commit_one_ok [OF this tp, of t] obtain xs1 where one: "commit_one paths t i xs = Inr xs1"
    "stepped [i] (xs_sim xs) (xs_sim xs1)" "traced [i] t xs xs1" using i by auto
  have ne: "fst j \<noteq> fst i" if "j \<in> set rest" for j
    using dict_keys_fst_ne [OF Cons.prems(2) that] .
  have "\<forall>j \<in> set rest. may_step (xs_sim xs1) j"
    using Cons.prems(1) may_step_other [OF one(2) ne] by simp
  then obtain xs2 where two: "commit_all paths t rest xs1 = (Inr (), xs2)"
    "stepped rest (xs_sim xs1) (xs_sim xs2)" "traced rest t xs1 xs2"
    using Cons.IH [of xs1] Cons.prems(2,3) by auto
  show ?case using one(1) two(1) stepped_Cons [OF one(2) two(2) Cons.prems(2)]
      traced_Cons [OF one(3) two(3) Cons.prems(2)] by auto
qed

section \<open>The run follows the plan\<close>

definition plan_pos :: "(string, timed_path) dict \<Rightarrow> string \<Rightarrow> int \<Rightarrow> position" where
  "plan_pos paths rid t = pos_at (the (dict_get paths rid)) t"

text \<open>A plan that may be run: a dictionary of well-formed routes from time 0, keyed by their robots.\<close>

definition plan_ok :: "(string, timed_path) dict \<Rightarrow> bool" where
  "plan_ok paths \<longleftrightarrow> dict_ok paths \<and> (\<forall>(rid, tp) \<in> set paths.
     tp_robot_id tp = rid \<and> tp_success tp \<and> timed_path_ok tp \<and> tp_start_time tp = 0)"

definition plan_intents :: "(string, timed_path) dict \<Rightarrow> string list \<Rightarrow> int \<Rightarrow> intents" where
  "plan_intents paths order t = map (\<lambda>rid. (rid, Some (plan_pos paths rid (t - 1)), Some (plan_pos paths rid t))) order"

lemma plan_okD:
  assumes "plan_ok paths" "rid \<in> set (dict_keys paths)"
  obtains tp where "dict_get paths rid = Some tp" "tp_robot_id tp = rid" "tp_success tp" "timed_path_ok tp"
    "tp_start_time tp = 0" "tp \<in> set (dict_values paths)"
proof -
  obtain tp where tp: "dict_get paths rid = Some tp"
    using assms(2) dict_get_None_iff [of paths rid] by (cases "dict_get paths rid") auto
  then have "(rid, tp) \<in> set paths" by (rule map_of_SomeD)
  then show thesis using that [OF tp] assms(1) dict_get_image [OF tp] by (auto simp: plan_ok_def)
qed

lemma intents_at_plan:
  assumes "plan_ok paths" "set order \<subseteq> set (dict_keys paths)"
  shows "intents_at paths order t = Inr (plan_intents paths order t)"
  unfolding intents_at_def plan_intents_def
proof (rule res_map_pure)
  fix rid assume "rid \<in> set order"
  then have "rid \<in> set (dict_keys paths)" using assms(2) by blast
  then obtain tp where "dict_get paths rid = Some tp" "timed_path_ok tp" by (rule plan_okD [OF assms(1)]) blast
  then show "(case dict_get paths rid of None \<Rightarrow> Inl KeyError
     | Some tp \<Rightarrow> res_bind (position_at (t - 1) tp) (\<lambda>frm. res_bind (position_at t tp) (\<lambda>dest. Inr (rid, (frm, dest)))))
     = Inr (rid, Some (plan_pos paths rid (t - 1)), Some (plan_pos paths rid t))"
    by (simp add: position_at_ok plan_pos_def)
qed

lemma plan_intents_keys [simp]: "dict_keys (plan_intents paths order t) = order"
  by (simp add: plan_intents_def comp_def)

lemma plan_intents_mem:
  "i \<in> set (plan_intents paths order t) \<longleftrightarrow>
     (\<exists>rid \<in> set order. i = (rid, Some (plan_pos paths rid (t - 1)), Some (plan_pos paths rid t)))"
  by (auto simp: plan_intents_def)

text \<open>Phase 1 cannot raise for registered robots, and reports no conflict for a safe plan.\<close>

lemma check_robots_total:
  assumes "\<forall>(rid, frm, dest) \<in> set intents. dict_get (sim_robots s) rid \<noteq> None \<and> dest \<noteq> None"
  shows "\<exists>x. check_robots s intents = Inr x"
  using assms
proof (induction intents)
  case Nil
  then show ?case by simp
next
  case (Cons i rest)
  obtain rid frm dest where i: "i = (rid, frm, dest)" by (cases i)
  obtain r to where r: "dict_get (sim_robots s) rid = Some r" "dest = Some to" using Cons.prems i by auto
  have "\<exists>x. check_robot s i = Inr x" using r by (simp add: i check_robot_def)
  then obtain x where "check_robot s i = Inr x" by blast
  then show ?case using Cons by (cases x) auto
qed

lemma swap_conflict_None:
  assumes "\<And>rid frm to other o_frm o_to. (rid, frm, to) \<in> set intents \<Longrightarrow> (other, o_frm, o_to) \<in> set intents \<Longrightarrow>
      frm \<noteq> to \<Longrightarrow> \<not> (frm = o_to \<and> to = o_frm)"
  shows "swap_conflict intents = None"
proof -
  define moves where "moves = filter (\<lambda>(rid, frm, to). frm \<noteq> to) intents"
  have "concat (map (\<lambda>(rid, frm, to). map (\<lambda>(other, _, _). J_Swap rid other frm to)
             (filter (\<lambda>(other, o_frm, o_to). \<not> other \<le> rid \<and> frm = o_to \<and> to = o_frm) moves)) moves) = []"
    unfolding concat_map_Nil by (auto simp: moves_def filter_empty_conv) (metis assms)
  then show ?thesis unfolding swap_conflict_def moves_def [symmetric] Let_def by (simp only: list.case)
qed

definition safe_at :: "(string, timed_path) dict \<Rightarrow> string list \<Rightarrow> int \<Rightarrow> bool" where
  "safe_at paths order t \<longleftrightarrow> distinct (map (\<lambda>rid. plan_pos paths rid t) order) \<and>
     (\<forall>i \<in> set order. \<forall>j \<in> set order. plan_pos paths i (t - 1) \<noteq> plan_pos paths i t \<longrightarrow>
        \<not> (plan_pos paths i (t - 1) = plan_pos paths j t \<and> plan_pos paths i t = plan_pos paths j (t - 1)))"

lemma validate_plan_step:
  assumes "\<forall>rid \<in> set order. dict_get (sim_robots s) rid \<noteq> None" "safe_at paths order t"
  shows "\<exists>x. validate_joint_step s (plan_intents paths order t) = Inr (x, 0, 0) \<and>
    (x = None \<longleftrightarrow> (\<forall>i \<in> set (plan_intents paths order t). may_step s i))"
proof -
  let ?I = "plan_intents paths order t"
  have "\<forall>(rid, frm, dest) \<in> set ?I. dict_get (sim_robots s) rid \<noteq> None \<and> dest \<noteq> None"
    using assms(1) by (auto simp: plan_intents_def)
  then obtain x where x: "check_robots s ?I = Inr x" using check_robots_total by blast
  have "map (\<lambda>(rid, frm, to). to) ?I = map Some (map (\<lambda>rid. plan_pos paths rid t) order)"
    by (simp add: plan_intents_def)
  moreover have "distinct (map Some (map (\<lambda>rid. plan_pos paths rid t) order))"
    using assms(2) unfolding safe_at_def by (subst distinct_map) simp
  ultimately have "dest_conflict ?I [] = None" unfolding dest_conflict_None by simp
  moreover have "swap_conflict ?I = None"
    using assms(2) by (intro swap_conflict_None) (auto simp: plan_intents_mem safe_at_def)
  ultimately show ?thesis using x check_robots_None [of s ?I]
    by (cases x) (auto simp: validate_joint_step_def)
qed

text \<open>The state after \<open>k\<close> joint steps.\<close>

definition run_inv :: "(string, timed_path) dict \<Rightarrow> string list \<Rightarrow> simulator \<Rightarrow> int \<Rightarrow> run_state \<Rightarrow> bool" where
  "run_inv paths order s0 k xs \<longleftrightarrow>
     sim_warehouse (xs_sim xs) = sim_warehouse s0 \<and> sim_tasks (xs_sim xs) = sim_tasks s0 \<and>
     dict_keys (sim_robots (xs_sim xs)) = dict_keys (sim_robots s0) \<and>
     (\<forall>i. i \<notin> set order \<longrightarrow> dict_get (sim_robots (xs_sim xs)) i = dict_get (sim_robots s0) i) \<and>
     (\<forall>rid \<in> set order. \<exists>r. dict_get (sim_robots (xs_sim xs)) rid = Some r \<and> robot_id r = rid \<and> robot_core_ok r \<and>
        robot_position r = plan_pos paths rid k) \<and>
     dict_keys (xs_trace xs) = order \<and> dict_keys (xs_waits xs) = order \<and> dict_keys (xs_moves xs) = order \<and>
     (\<forall>rid \<in> set order. dict_get (xs_trace xs) rid = Some (map (\<lambda>i. TimedStep (plan_pos paths rid i) i) [0..k])) \<and>
     (\<forall>rid \<in> set order. \<forall>i. 0 \<le> i \<longrightarrow> i \<le> k \<longrightarrow> is_traversable (sim_warehouse s0) (plan_pos paths rid i)) \<and>
     (\<forall>rid \<in> set order. \<forall>i. 0 \<le> i \<longrightarrow> i < k \<longrightarrow> plan_pos paths rid i = plan_pos paths rid (i + 1) \<or>
        is_adjacent_to (plan_pos paths rid i) (plan_pos paths rid (i + 1)))"

lemma run_inv_step:
  assumes I: "run_inv paths order s0 k xs" and k: "0 \<le> k"
    and ok: "\<forall>i \<in> set (plan_intents paths order (k + 1)). may_step (xs_sim xs) i"
    and S: "stepped (plan_intents paths order (k + 1)) (xs_sim xs) (xs_sim xs')"
    and T: "traced (plan_intents paths order (k + 1)) (k + 1) xs xs'"
  shows "run_inv paths order s0 (k + 1) xs'"
proof -
  have up: "[0..k + 1] = [0..k] @ [k + 1]" using upto_rec2 [of 0 "k + 1"] k by simp
  have robot: "\<exists>r. dict_get (sim_robots (xs_sim xs')) rid = Some r \<and> robot_id r = rid \<and> robot_core_ok r \<and>
      robot_position r = plan_pos paths rid (k + 1)" if rid: "rid \<in> set order" for rid
  proof -
    have "robot_stepped (xs_sim xs) (xs_sim xs') (rid, Some (plan_pos paths rid k), Some (plan_pos paths rid (k + 1)))"
      using S rid unfolding stepped_def by (auto simp: plan_intents_mem)
    then obtain r r' where r: "dict_get (sim_robots (xs_sim xs)) rid = Some r"
      "dict_get (sim_robots (xs_sim xs')) rid = Some r'" "robot_position r' = plan_pos paths rid (k + 1)"
      "r' = r \<or> move_to (plan_pos paths rid (k + 1)) r = Inr r'"
      by (auto simp: robot_stepped_def split: if_splits)
    moreover have "robot_id r = rid" "robot_core_ok r" using I rid r(1) by (auto simp: run_inv_def)
    ultimately show ?thesis using move_to_frame(1) move_to_ok by auto
  qed
  have may: "may_step (xs_sim xs) (rid, Some (plan_pos paths rid k), Some (plan_pos paths rid (k + 1)))"
    if "rid \<in> set order" for rid
    using ok that by (auto simp: plan_intents_mem)
  have trav: "is_traversable (sim_warehouse s0) (plan_pos paths rid (k + 1))" if "rid \<in> set order" for rid
    using may [OF that] I by (auto simp: may_step_def run_inv_def)
  have adj: "plan_pos paths rid k = plan_pos paths rid (k + 1) \<or>
      is_adjacent_to (plan_pos paths rid k) (plan_pos paths rid (k + 1))" if "rid \<in> set order" for rid
    using may [OF that] by (auto simp: may_step_def)
  have trace: "dict_get (xs_trace xs') rid = Some (map (\<lambda>i. TimedStep (plan_pos paths rid i) i) [0..k + 1])"
    if "rid \<in> set order" for rid
  proof -
    have "trace_stepped (k + 1) xs xs' (rid, Some (plan_pos paths rid k), Some (plan_pos paths rid (k + 1)))"
      using T that unfolding traced_def by (auto simp: plan_intents_mem)
    moreover have "dict_get (xs_trace xs) rid = Some (map (\<lambda>i. TimedStep (plan_pos paths rid i) i) [0..k])"
      using I that by (simp add: run_inv_def)
    ultimately show ?thesis by (simp add: trace_stepped_def up)
  qed
  show ?thesis unfolding run_inv_def
  proof (intro conjI ballI allI impI robot trace)
    fix rid i assume r: "rid \<in> set order" and i: "0 \<le> i" "i \<le> k + 1"
    show "is_traversable (sim_warehouse s0) (plan_pos paths rid i)"
      using I r i trav [OF r] by (cases "i = k + 1") (auto simp: run_inv_def)
  next
    fix rid i assume r: "rid \<in> set order" and i: "0 \<le> i" "i < k + 1"
    show "plan_pos paths rid i = plan_pos paths rid (i + 1) \<or> is_adjacent_to (plan_pos paths rid i) (plan_pos paths rid (i + 1))"
      using I r i adj [OF r] by (cases "i = k") (auto simp: run_inv_def)
  qed (use I S T in \<open>auto simp: run_inv_def stepped_def traced_def\<close>)
qed

lemma run_steps_ok:
  assumes "run_inv paths order s0 k xs" "0 \<le> k" "plan_ok paths" "distinct order" "set order \<subseteq> set (dict_keys paths)"
    "\<And>t. k < t \<Longrightarrow> t \<le> m \<Longrightarrow> safe_at paths order t" "k \<le> m"
  shows "\<exists>stop n xs'. run_steps paths order [k + 1..m] vc ec k xs = (Inr (stop, vc, ec, n), xs') \<and>
    run_inv paths order s0 n xs' \<and> k \<le> n \<and> n \<le> m \<and> (stop = None \<longleftrightarrow> n = m)"
  using assms
proof (induction "nat (m - k)" arbitrary: k xs)
  case 0
  then have "[k + 1..m] = []" "k = m" by simp_all
  then show ?case using 0 by auto
next
  case (Suc j)
  then have km: "k < m" by linarith
  then have up: "[k + 1..m] = (k + 1) # [k + 1 + 1..m]" using upto_rec1 [of "k + 1" m] by simp
  have reg: "\<forall>rid \<in> set order. dict_get (sim_robots (xs_sim xs)) rid \<noteq> None"
    using Suc.prems(1) by (auto simp: run_inv_def)
  have "safe_at paths order (k + 1)" using Suc.prems(6) km by simp
  then obtain x where x: "validate_joint_step (xs_sim xs) (plan_intents paths order (k + 1)) = Inr (x, 0, 0)"
    "x = None \<longleftrightarrow> (\<forall>i \<in> set (plan_intents paths order (k + 1)). may_step (xs_sim xs) i)"
    using validate_plan_step [OF reg] by blast
  have ia: "intents_at paths order (k + 1) = Inr (plan_intents paths order (k + 1))"
    by (rule intents_at_plan [OF Suc.prems(3,5)])
  show ?case
  proof (cases x)
    case (Some reason)
    then show ?thesis using x(1) ia up km Suc.prems(1)
      by (intro exI [of _ "Some (Stopped_Before (k + 1) reason)"] exI [of _ k] exI [of _ xs]) simp
  next
    case None
    then have may: "\<forall>i \<in> set (plan_intents paths order (k + 1)). may_step (xs_sim xs) i" using x(2) by simp
    have "\<forall>rid \<in> set order. dict_get paths rid \<noteq> None" using Suc.prems(5) unfolding dict_get_None_iff by blast
    then obtain xs1 where c: "commit_all paths (k + 1) (plan_intents paths order (k + 1)) xs = (Inr (), xs1)"
      "stepped (plan_intents paths order (k + 1)) (xs_sim xs) (xs_sim xs1)"
      "traced (plan_intents paths order (k + 1)) (k + 1) xs xs1"
      using commit_all_ok [OF may, of paths "k + 1"] Suc.prems(4) by auto
    have "run_inv paths order s0 (k + 1) xs1" by (rule run_inv_step [OF Suc.prems(1,2) may c(2,3)])
    moreover have "j = nat (m - (k + 1))" using Suc.hyps(2) by linarith
    ultimately obtain stop n xs' where R: "run_steps paths order [k + 1 + 1..m] vc ec (k + 1) xs1 = (Inr (stop, vc, ec, n), xs')"
      "run_inv paths order s0 n xs'" "k + 1 \<le> n" "n \<le> m" "stop = None \<longleftrightarrow> n = m"
      using Suc.hyps(1) [of "k + 1" xs1] Suc.prems km by auto
    have "run_steps paths order [k + 1..m] vc ec k xs = (Inr (stop, vc, ec, n), xs')"
      unfolding up using R(1) x(1) None ia c(1) by simp
    then show ?thesis using R by (intro exI [of _ stop] exI [of _ n] exI [of _ xs']) simp
  qed
qed

section \<open>The executed trace passes the validator\<close>

lemma dict_as_map: "dict_ok d \<Longrightarrow> map (\<lambda>k. (k, the (dict_get d k))) (dict_keys d) = d"
proof -
  assume d: "dict_ok d"
  have "map (\<lambda>e. (fst e, the (dict_get d (fst e)))) d = map (\<lambda>e. e) d"
    using d by (intro map_cong) (auto simp: dict_ok_def)
  then show ?thesis by (simp add: comp_def)
qed

text \<open>The executed trace of one robot, as the run rebuilds it.\<close>

definition executed_path :: "(string, timed_path) dict \<Rightarrow> int \<Rightarrow> string \<Rightarrow> timed_path" where
  "executed_path paths n rid = tp_found rid (map (\<lambda>i. TimedStep (plan_pos paths rid i) i) [0..n])"

lemma executed_path_steps:
  "k < nat (n + 1) \<Longrightarrow> tp_steps (executed_path paths n rid) ! k = TimedStep (plan_pos paths rid (int k)) (int k)"
  by (simp add: executed_path_def nth_upto)

lemma executed_path_sel [simp]:
  "tp_success (executed_path paths n rid)" "tp_robot_id (executed_path paths n rid) = rid"
  "length (tp_steps (executed_path paths n rid)) = nat (n + 1)"
  by (simp_all add: executed_path_def)

lemma executed_path_ok:
  assumes "0 \<le> n"
  shows "timed_path_ok (executed_path paths n rid)" "tp_start_time (executed_path paths n rid) = 0"
    "tp_arrival_time (executed_path paths n rid) = n"
    "0 \<le> t \<Longrightarrow> t \<le> n \<Longrightarrow> pos_at (executed_path paths n rid) t = plan_pos paths rid t"
proof -
  let ?e = "executed_path paths n rid"
  have ne: "tp_steps ?e \<noteq> []" using assms by (simp add: executed_path_def)
  then show st: "tp_start_time ?e = 0"
    using executed_path_steps [of 0 n paths rid] assms by (simp add: tp_start_time_def hd_conv_nth)
  show ok: "timed_path_ok ?e" using ne st by (auto simp: timed_path_ok_def executed_path_steps)
  show "tp_arrival_time ?e = n" using arrival_time_ok [OF ok] st assms by simp
  show "pos_at ?e t = plan_pos paths rid t" if "0 \<le> t" "t \<le> n"
    using pos_at_step [of "nat t" ?e] st that assms by (simp add: executed_path_steps nat_less_iff)
qed

lemma executed_trace:
  assumes "dict_keys tr = order" "distinct order"
    "\<forall>rid \<in> set order. dict_get tr rid = Some (map (\<lambda>i. TimedStep (plan_pos paths rid i) i) [0..n])"
  shows "map (\<lambda>(rid, steps). tp_found rid steps) tr = map (executed_path paths n) order"
proof -
  have "dict_ok tr" using assms(1,2) by (simp add: dict_ok_def)
  from dict_as_map [OF this] have "tr = map (\<lambda>k. (k, map (\<lambda>i. TimedStep (plan_pos paths k i) i) [0..n])) order"
    using assms by (metis (no_types, lifting) map_cong option.sel)
  then show ?thesis by (simp add: executed_path_def)
qed

lemma plan_ok_validator:
  assumes P: "plan_ok paths"
  shows "filter tp_success (dict_values paths) = dict_values paths"
    "map tp_robot_id (dict_values paths) = dict_keys paths" "\<forall>tp \<in> set (dict_values paths). timed_path_ok tp"
    "\<forall>tp \<in> set (dict_values paths). tp_start_time tp = 0"
proof -
  have a: "tp_success tp \<and> tp_robot_id tp = rid \<and> timed_path_ok tp \<and> tp_start_time tp = 0"
    if "(rid, tp) \<in> set paths" for rid tp
    using P that by (auto simp: plan_ok_def)
  show "filter tp_success (dict_values paths) = dict_values paths" "map tp_robot_id (dict_values paths) = dict_keys paths"
    "\<forall>tp \<in> set (dict_values paths). timed_path_ok tp" "\<forall>tp \<in> set (dict_values paths). tp_start_time tp = 0"
    using a by (auto intro!: filter_True map_cong)
qed

lemma plan_pos_map:
  "dict_ok paths \<Longrightarrow> map (\<lambda>tp. pos_at tp t) (dict_values paths) = map (\<lambda>rid. plan_pos paths rid t) (dict_keys paths)"
  using dict_as_map [of paths] by (auto simp: plan_pos_def comp_def dict_ok_def intro!: map_cong)

lemma distinct_map_sort: "distinct (map f (sort xs)) = distinct (map f xs)"
  by (metis mset_map mset_sort mset_eq_imp_distinct_iff)

lemma safe_plan_safe_at:
  assumes P: "plan_ok paths" and ne: "paths \<noteq> []" and S: "safe_plan (dict_values paths)"
    and t: "0 < t" "t \<le> Max (set (map tp_arrival_time (dict_values paths)))"
  shows "safe_at paths (sort (dict_keys paths)) t"
proof -
  note V = plan_ok_validator [OF P]
  have D: "dict_ok paths" using P by (simp add: plan_ok_def)
  have "map tp_start_time (dict_values paths) = replicate (length paths) 0" using V(4) by (intro replicate_eqI) auto
  then have mn: "Min (set (map tp_start_time (dict_values paths))) = 0" using ne by simp
  have "apart (dict_values paths) t" using S t unfolding safe_plan_def mn by simp
  then have d: "distinct (map (\<lambda>rid. plan_pos paths rid t) (dict_keys paths))"
    unfolding apart_def plan_pos_map [OF D] .
  have n: "no_swap (dict_values paths) (t - 1)" using S t unfolding safe_plan_def mn by simp
  have "\<not> (plan_pos paths i (t - 1) = plan_pos paths j t \<and> plan_pos paths i t = plan_pos paths j (t - 1))"
    if i: "i \<in> set (dict_keys paths)" and j: "j \<in> set (dict_keys paths)" and mv: "plan_pos paths i (t - 1) \<noteq> plan_pos paths i t" for i j
  proof -
    obtain p q where "dict_get paths i = Some p" "p \<in> set (dict_values paths)"
      "dict_get paths j = Some q" "q \<in> set (dict_values paths)"
      using plan_okD [OF P i] plan_okD [OF P j] by metis
    then show ?thesis using n mv unfolding no_swap_def plan_pos_def by force
  qed
  then show ?thesis unfolding safe_at_def distinct_map_sort set_sort using d by blast
qed

text \<open>Where a run leaves the simulation after \<open>n\<close> joint steps.\<close>

definition followed :: "(string, timed_path) dict \<Rightarrow> int \<Rightarrow> simulator \<Rightarrow> simulator \<Rightarrow> bool" where
  "followed paths n s s' \<longleftrightarrow> sim_warehouse s' = sim_warehouse s \<and> sim_tasks s' = sim_tasks s \<and>
     dict_keys (sim_robots s') = dict_keys (sim_robots s) \<and>
     (\<forall>i. i \<notin> set (dict_keys paths) \<longrightarrow> dict_get (sim_robots s') i = dict_get (sim_robots s) i) \<and>
     (\<forall>i \<in> set (dict_keys paths). \<exists>r. dict_get (sim_robots s') i = Some r \<and> robot_id r = i \<and> robot_core_ok r \<and>
        robot_position r = plan_pos paths i n \<and> is_traversable (sim_warehouse s) (robot_position r))"

definition plan_end :: "(string, timed_path) dict \<Rightarrow> int" where
  "plan_end paths = Max (set (map tp_arrival_time (dict_values paths)))"

definition at_starts :: "(string, timed_path) dict \<Rightarrow> simulator \<Rightarrow> bool" where
  "at_starts paths s \<longleftrightarrow> (\<forall>i \<in> set (dict_keys paths). \<exists>r. dict_get (sim_robots s) i = Some r \<and>
     robot_position r = plan_pos paths i 0)"

lemma plan_ok_get:
  "plan_ok paths \<Longrightarrow> dict_get paths i = Some tp \<Longrightarrow> timed_path_ok tp \<and> tp_start_time tp = 0"
  by (drule map_of_SomeD) (auto simp: plan_ok_def)

lemma tp_start_plan:
  assumes "plan_ok paths" "dict_get paths i = Some tp"
  shows "tp_start tp = Some (plan_pos paths i 0)"
  using plan_ok_get [OF assms] pos_at_start [of tp 0] assms(2)
  by (simp add: tp_start_def plan_pos_def timed_path_ok_def)

lemma tp_goal_plan:
  assumes "plan_ok paths" "dict_get paths i = Some tp" "tp_arrival_time tp \<le> t"
  shows "tp_goal tp = Some (plan_pos paths i t)"
  using plan_ok_get [OF assms(1,2)] pos_at_goal [of tp t] assms(2,3)
  by (simp add: tp_goal_def plan_pos_def timed_path_ok_def)

lemma arrival_le_end: "dict_get paths i = Some tp \<Longrightarrow> tp_arrival_time tp \<le> plan_end paths"
  unfolding plan_end_def by (rule Max_ge) (force dest!: map_of_SomeD)+

lemma executed_walkable:
  assumes n: "0 \<le> n"
    and trav: "\<And>i. 0 \<le> i \<Longrightarrow> i \<le> n \<Longrightarrow> is_traversable w (plan_pos paths rid i)"
    and adj: "\<And>i. 0 \<le> i \<Longrightarrow> i < n \<Longrightarrow> plan_pos paths rid i = plan_pos paths rid (i + 1) \<or>
       is_adjacent_to (plan_pos paths rid i) (plan_pos paths rid (i + 1))"
  shows "walkable w None True (executed_path paths n rid)"
proof -
  let ?e = "executed_path paths n rid"
  have "is_traversable w (step_position s)" if "s \<in> set (tp_steps ?e)" for s
    using that trav by (auto simp: executed_path_def)
  moreover have "manhattan_distance_to (step_position (tp_steps ?e ! i)) (step_position (tp_steps ?e ! Suc i)) \<le> 1"
    if "Suc i < length (tp_steps ?e)" for i
  proof -
    have i: "i < nat (n + 1)" "Suc i < nat (n + 1)" "0 \<le> int i" "int i < n" using that by simp_all
    have "int (Suc i) = int i + 1" by simp
    then show ?thesis using adj [OF i(3,4)] unfolding executed_path_steps [OF i(1)] executed_path_steps [OF i(2)]
      by (elim disjE) (simp_all only: timed_step.sel is_adjacent_to_def, simp_all)
  qed
  ultimately show ?thesis using is_traversable_in_bounds unfolding walkable_def by blast
qed

lemma executed_safe:
  assumes n: "0 \<le> n" and ne: "order \<noteq> []"
    and init: "distinct (map (\<lambda>rid. plan_pos paths rid 0) order)"
    and S: "\<And>t. 0 < t \<Longrightarrow> t \<le> n \<Longrightarrow> safe_at paths order t"
  shows "safe_plan (map (executed_path paths n) order)"
proof -
  let ?es = "map (executed_path paths n) order"
  have "map tp_start_time ?es = replicate (length order) 0" "map tp_arrival_time ?es = replicate (length order) n"
    using executed_path_ok(2,3) [OF n] by (auto intro!: replicate_eqI)
  then have mm: "Min (set (map tp_start_time ?es)) = 0" "Max (set (map tp_arrival_time ?es)) = n" using ne by simp_all
  have "apart ?es t" if t: "0 \<le> t" "t \<le> n" for t
  proof -
    have "map (\<lambda>tp. pos_at tp t) ?es = map (\<lambda>rid. plan_pos paths rid t) order"
      using executed_path_ok(4) [OF n t] by simp
    moreover have "distinct (map (\<lambda>rid. plan_pos paths rid t) order)"
      using init S [of t] t unfolding safe_at_def by (cases "t = 0") simp_all
    ultimately show ?thesis unfolding apart_def by metis
  qed
  moreover have "no_swap ?es t" if t: "0 \<le> t" "t < n" for t
  proof -
    have p: "pos_at (executed_path paths n i) t = plan_pos paths i t"
      "pos_at (executed_path paths n i) (t + 1) = plan_pos paths i (t + 1)" for i
      using executed_path_ok(4) [OF n] t by simp_all
    have "safe_at paths order (t + 1)" using S t by simp
    then have "\<not> (plan_pos paths j t = plan_pos paths i (t + 1) \<and> plan_pos paths j (t + 1) = plan_pos paths i t)"
      if "i \<in> set order" "j \<in> set order" "plan_pos paths i t \<noteq> plan_pos paths i (t + 1)" for i j
      using that unfolding safe_at_def by (metis add_diff_cancel_right')
    then show ?thesis unfolding no_swap_def by (auto simp: p)
  qed
  ultimately show ?thesis unfolding safe_plan_def mm by blast
qed

lemma run_inv_validates:
  assumes I: "run_inv paths order s0 n xs" and n: "0 \<le> n" and ne: "order \<noteq> []" and d: "distinct order"
    and init: "distinct (map (\<lambda>rid. plan_pos paths rid 0) order)"
    and S: "\<And>t. 0 < t \<Longrightarrow> t \<le> n \<Longrightarrow> safe_at paths order t"
  shows "find_coordination_problems (map (\<lambda>(rid, steps). tp_found rid steps) (xs_trace xs)) (sim_warehouse (xs_sim xs)) None True = Inr []"
proof -
  have W: "sim_warehouse (xs_sim xs) = sim_warehouse s0" and tr: "map (\<lambda>(rid, steps). tp_found rid steps) (xs_trace xs) = map (executed_path paths n) order"
    using I executed_trace [of "xs_trace xs" order paths n] d by (simp_all add: run_inv_def)
  let ?es = "map (executed_path paths n) order"
  have f: "filter tp_success ?es = ?es" by (simp add: filter_map comp_def)
  have "\<forall>tp \<in> set ?es. timed_path_ok tp" using executed_path_ok(1) [OF n] by simp
  moreover have "distinct (map tp_robot_id ?es)" using d by (simp add: comp_def)
  moreover have "\<forall>tp \<in> set ?es. walkable (sim_warehouse s0) None True tp"
    using I executed_walkable [OF n] by (auto simp: run_inv_def)
  moreover have "safe_plan ?es" using executed_safe [OF n ne init S] .
  ultimately have "\<exists>ps. find_coordination_problems ?es (sim_warehouse s0) None True = Inr ps \<and> ps = []"
    using validator_ok [of ?es "sim_warehouse s0" None True] unfolding f by blast
  then show ?thesis unfolding W tr by blast
qed

section \<open>The whole run\<close>

definition ready :: "(string, timed_path) dict \<Rightarrow> simulator \<Rightarrow> bool" where
  "ready paths s \<longleftrightarrow> (\<forall>i \<in> set (dict_keys paths). \<exists>r. dict_get (sim_robots s) i = Some r \<and> robot_id r = i \<and>
     robot_core_ok r \<and> robot_position r = plan_pos paths i 0 \<and> is_traversable (sim_warehouse s) (robot_position r))"

definition run_start :: "(string, timed_path) dict \<Rightarrow> simulator \<Rightarrow> run_state" where
  "run_start paths s = (let order = sort (dict_keys paths) in
     \<lparr>xs_sim = s, xs_waits = map (\<lambda>rid. (rid, 0)) order, xs_moves = map (\<lambda>rid. (rid, 0)) order,
      xs_trace = map (\<lambda>rid. (rid, [TimedStep (plan_pos paths rid 0) 0])) order\<rparr>)"

lemma dict_get_map_fst: "dict_get (map (\<lambda>k. (k, f k)) ks) k = (if k \<in> set ks then Some (f k) else None)"
  by (induction ks) auto

lemma run_start_inv:
  assumes "ready paths s"
  shows "run_inv paths (sort (dict_keys paths)) s 0 (run_start paths s)"
  using assms unfolding run_inv_def run_start_def ready_def
  by (force simp: Let_def comp_def dict_get_map_fst)

lemma run_inits:
  assumes P: "plan_ok paths" and R: "ready paths s"
  shows "res_map (\<lambda>rid. res_bind (get_robot s rid) (\<lambda>r.
             case dict_get paths rid of None \<Rightarrow> Inl KeyError
             | Some tp \<Rightarrow> (case tp_start tp of None \<Rightarrow> Inl AttributeError | Some c \<Rightarrow> Inr (rid, r, c)))) (sort (dict_keys paths))
     = Inr (map (\<lambda>rid. (rid, the (dict_get (sim_robots s) rid), plan_pos paths rid 0)) (sort (dict_keys paths)))"
proof (rule res_map_pure)
  fix rid assume "rid \<in> set (sort (dict_keys paths))"
  then have k: "rid \<in> set (dict_keys paths)" by simp
  then obtain r where "dict_get (sim_robots s) rid = Some r" using R by (auto simp: ready_def)
  moreover obtain tp where "dict_get paths rid = Some tp" by (rule plan_okD [OF P k]) blast
  ultimately show "res_bind (get_robot s rid) (\<lambda>r. case dict_get paths rid of None \<Rightarrow> Inl KeyError
      | Some tp \<Rightarrow> (case tp_start tp of None \<Rightarrow> Inl AttributeError | Some c \<Rightarrow> Inr (rid, r, c)))
    = Inr (rid, the (dict_get (sim_robots s) rid), plan_pos paths rid 0)"
    using tp_start_plan [OF P] by simp
qed

lemma run_inv_followed:
  assumes "run_inv paths (sort (dict_keys paths)) s n xs" "0 \<le> n"
  shows "followed paths n s (xs_sim xs)"
  using assms unfolding run_inv_def followed_def by (simp; metis order_refl)

lemma run_summaries:
  assumes P: "plan_ok paths" and I: "run_inv paths order s n xs" and k: "set order \<subseteq> set (dict_keys paths)"
    and b: "dict_keys before = order"
  shows "\<exists>per. res_map (summary_of paths before xs) order = Inr per \<and> dict_keys per = order \<and>
    (\<forall>(rid, x) \<in> set per. rs_final_position x = plan_pos paths rid n \<and>
       (plan_end paths \<le> n \<longrightarrow> rs_reached_goal x))"
proof -
  have one: "\<exists>x. summary_of paths before xs rid = Inr (rid, x) \<and> rs_final_position x = plan_pos paths rid n \<and>
      (plan_end paths \<le> n \<longrightarrow> rs_reached_goal x)" if r: "rid \<in> set order" for rid
  proof -
    obtain q where q: "dict_get (sim_robots (xs_sim xs)) rid = Some q" "robot_position q = plan_pos paths rid n"
      using I r by (auto simp: run_inv_def)
    obtain tp where tp: "dict_get paths rid = Some tp" using plan_okD [OF P] r k by blast
    have "dict_get before rid \<noteq> None" "dict_get (xs_moves xs) rid \<noteq> None" "dict_get (xs_waits xs) rid \<noteq> None"
      using r b I unfolding dict_get_None_iff by (auto simp: run_inv_def)
    then obtain r0 mv wt where "dict_get before rid = Some r0" "dict_get (xs_moves xs) rid = Some mv"
      "dict_get (xs_waits xs) rid = Some wt" by blast
    then show ?thesis using q tp tp_goal_plan [OF P tp, of n] arrival_le_end [OF tp]
      by (auto simp: summary_of_def)
  qed
  have "\<forall>rid \<in> set order. \<exists>x. summary_of paths before xs rid = Inr (rid, x) \<and> rs_final_position x = plan_pos paths rid n \<and>
      (plan_end paths \<le> n \<longrightarrow> rs_reached_goal x)" using one by blast
  then obtain f where f: "\<And>rid. rid \<in> set order \<Longrightarrow> summary_of paths before xs rid = Inr (rid, f rid) \<and>
      rs_final_position (f rid) = plan_pos paths rid n \<and> (plan_end paths \<le> n \<longrightarrow> rs_reached_goal (f rid))"
    by metis
  have "res_map (summary_of paths before xs) order = Inr (map (\<lambda>rid. (rid, f rid)) order)"
    using f by (intro res_map_pure) blast
  then show ?thesis using f by (auto simp: comp_def)
qed

lemma plan_end_nonneg: "plan_ok paths \<Longrightarrow> paths \<noteq> [] \<Longrightarrow> 0 \<le> plan_end paths"
proof -
  assume P: "plan_ok paths" and "paths \<noteq> []"
  then obtain rid where "rid \<in> set (dict_keys paths)" by (cases paths) auto
  then obtain tp where tp: "dict_get paths rid = Some tp" "timed_path_ok tp" "tp_start_time tp = 0"
    by (rule plan_okD [OF P]) blast
  then show ?thesis using start_le_arrival [of tp] arrival_le_end [OF tp(1)] by simp
qed

lemma safe_plan_starts:
  assumes P: "plan_ok paths" and ne: "paths \<noteq> []" and S: "safe_plan (dict_values paths)"
  shows "distinct (map (\<lambda>rid. plan_pos paths rid 0) (sort (dict_keys paths)))"
proof -
  note V = plan_ok_validator [OF P]
  have D: "dict_ok paths" using P by (simp add: plan_ok_def)
  have "map tp_start_time (dict_values paths) = replicate (length paths) 0" using V(4) by (intro replicate_eqI) auto
  then have mn: "Min (set (map tp_start_time (dict_values paths))) = 0" using ne by simp
  have "apart (dict_values paths) 0"
    using S plan_end_nonneg [OF P ne] unfolding safe_plan_def mn plan_end_def by simp
  then show ?thesis unfolding apart_def plan_pos_map [OF D] distinct_map_sort .
qed

lemma all_reached: "\<forall>(rid, x) \<in> set per. rs_reached_goal x \<Longrightarrow> length (filter (\<lambda>(rid, x). rs_reached_goal x) per) = length per"
  by (induction per) auto

lemma run_paths_ok:
  assumes P: "plan_ok paths" and ne: "paths \<noteq> []" and S: "safe_plan (dict_values paths)" and R: "ready paths s"
  shows "\<exists>res s'. run_paths paths skipped s = (Inr res, s') \<and> cx_executed_robot_ids res = sort (dict_keys paths) \<and>
    cx_not_executed_robot_ids res = skipped \<and>
    cx_vertex_conflicts res = 0 \<and> cx_edge_conflicts res = 0 \<and> cx_validation_problems res = [] \<and>
    0 \<le> cx_makespan_executed res \<and> cx_makespan_executed res \<le> plan_end paths \<and>
    (cx_success res \<longleftrightarrow> cx_makespan_executed res = plan_end paths) \<and>
    (cx_success res \<longrightarrow> cx_robots_reached_goal res = length paths) \<and>
    followed paths (cx_makespan_executed res) s s'"
proof -
  let ?o = "sort (dict_keys paths)"
  have d: "distinct ?o" using P by (simp add: plan_ok_def dict_ok_def)
  have no: "?o \<noteq> []" using ne by (metis length_0_conv length_map length_sort)
  have M: "0 \<le> plan_end paths" by (rule plan_end_nonneg [OF P ne])
  have sa: "safe_at paths ?o t" if "0 < t" "t \<le> plan_end paths" for t
    using safe_plan_safe_at [OF P ne S that(1)] that(2) by (simp add: plan_end_def)
  obtain stop n xs where X: "run_steps paths ?o [0 + 1..plan_end paths] 0 0 0 (run_start paths s) = (Inr (stop, 0, 0, n), xs)"
    "run_inv paths ?o s n xs" "0 \<le> n" "n \<le> plan_end paths" "stop = None \<longleftrightarrow> n = plan_end paths"
    using run_steps_ok [OF run_start_inv [OF R] order_refl P d, of "plan_end paths" 0 0] sa M by auto
  have V: "find_coordination_problems (map (\<lambda>(rid, steps). tp_found rid steps) (xs_trace xs)) (sim_warehouse (xs_sim xs)) None True = Inr []"
    using run_inv_validates [OF X(2,3) no d safe_plan_starts [OF P ne S]] sa X(4) by simp
  define before where "before = map (\<lambda>rid. (rid, the (dict_get (sim_robots s) rid))) ?o"
  have kb: "dict_keys before = ?o" by (simp add: before_def comp_def)
  obtain per where per: "res_map (summary_of paths before xs) ?o = Inr per" "dict_keys per = ?o"
    "\<forall>(rid, x) \<in> set per. rs_final_position x = plan_pos paths rid n \<and> (plan_end paths \<le> n \<longrightarrow> rs_reached_goal x)"
    using run_summaries [OF P X(2) _ kb] by auto
  have len: "length per = length paths" using per(2) by (metis length_map length_sort)
  have st: "\<lparr>xs_sim = s, xs_waits = map (\<lambda>rid. (rid, 0)) ?o, xs_moves = map (\<lambda>rid. (rid, 0)) ?o,
      xs_trace = map ((\<lambda>(rid, r, c). (rid, [TimedStep c 0])) \<circ> (\<lambda>rid. (rid, the (dict_get (sim_robots s) rid), plan_pos paths rid 0))) ?o\<rparr>
      = run_start paths s"
    by (simp add: run_start_def comp_def Let_def)
  have bf: "map ((\<lambda>(rid, r, c). (rid, r)) \<circ> (\<lambda>rid. (rid, the (dict_get (sim_robots s) rid), plan_pos paths rid 0))) ?o = before"
    by (simp add: before_def comp_def)
  have reach: "stop = None \<Longrightarrow> length (filter (\<lambda>(rid, x). rs_reached_goal x) per) = length paths"
    using per(3) X(5) len all_reached [of per] by fastforce
  have pe: "Max (set (map tp_arrival_time (dict_values paths))) = plan_end paths" by (simp add: plan_end_def)
  have X1: "run_steps paths ?o [1..plan_end paths] 0 0 0 (run_start paths s) = (Inr (stop, 0, 0, n), xs)"
    using X(1) by simp
  show ?thesis unfolding run_paths_def Let_def pe
    unfolding run_inits [OF P R] sum.case map_map st bf X1 prod.case
    using X(3-5) V per(1) reach run_inv_followed [OF X(2,3)] by (auto split: option.splits)
qed

section \<open>Running the coordinator's plan\<close>

lemma preflight_ready:
  assumes "preflight_robots s ps = None" "sim_ok s" "(rid, tp) \<in> set ps"
  shows "\<exists>r. dict_get (sim_robots s) rid = Some r \<and> robot_id r = rid \<and> robot_core_ok r \<and>
    Some (robot_position r) = tp_start tp \<and> is_traversable (sim_warehouse s) (robot_position r)"
proof -
  have "\<exists>r. dict_get (sim_robots s) rid = Some r \<and> Some (robot_position r) = tp_start tp"
    using assms(1,3) by (induction ps) (auto simp: get_robot_def split: option.splits if_splits)
  then show ?thesis using sim_ok_robotD [OF assms(2)] by blast
qed

lemma successful_paths_values:
  "dict_values (successful_paths cr) = filter tp_success (dict_values (cr_timed_paths cr))"
  by (simp add: successful_paths_def filter_map comp_def split_def)

lemma coord_inv_plan_ok:
  assumes I: "coord_inv w starts goals horizon planned (cr_timed_paths cr, failed, rt)"
  shows "plan_ok (successful_paths cr)"
proof -
  have "distinct (dict_keys (cr_timed_paths cr))" using I by (auto simp: coord_inv_def)
  then have "dict_ok (successful_paths cr)"
    unfolding dict_ok_def successful_paths_def by (rule distinct_map_filter)
  moreover have "tp_robot_id tp = r \<and> tp_success tp \<and> timed_path_ok tp \<and> tp_start_time tp = 0"
    if "(r, tp) \<in> set (successful_paths cr)" for r tp
  proof -
    have m: "(r, tp) \<in> set (cr_timed_paths cr)" "tp_success tp" using that by (auto simp: successful_paths_def)
    then show ?thesis using coord_inv_routes [OF I m] I by (auto simp: route_of_def coord_inv_def)
  qed
  ultimately show ?thesis unfolding plan_ok_def by blast
qed

text \<open>The pre-flight check of a plan made on the same floor finds nothing: obstacles are not looked at.\<close>

lemma preflight_validates:
  assumes I: "coord_inv w starts goals horizon planned (cr_timed_paths cr, failed, rt)"
    and b: "\<And>p. in_bounds w p \<Longrightarrow> in_bounds w' p"
  shows "find_coordination_problems (dict_values (successful_paths cr)) w' None False = Inr []"
proof -
  let ?ps = "filter tp_success (dict_values (cr_timed_paths cr))"
  note mem = coord_inv_mem [OF I]
  have f: "filter tp_success ?ps = ?ps" by simp
  have "\<forall>tp \<in> set ?ps. timed_path_ok tp" using mem unfolding route_of_def by blast
  moreover have "walkable w' None False tp" if h: "tp \<in> set ?ps" for tp
  proof -
    obtain s g where "dict_get starts (tp_robot_id tp) = Some s" "route_of w s g horizon tp" using mem [OF h] by blast
    then have "walkable w (Some starts) True tp" using route_of_walkable by blast
    then show ?thesis using b is_traversable_in_bounds unfolding walkable_def by blast
  qed
  ultimately have "\<exists>ps. find_coordination_problems ?ps w' None False = Inr ps \<and> ps = []"
    using validator_ok [of ?ps w' None False] coord_inv_ids [OF I] coord_inv_safe [OF I] unfolding f by blast
  then show ?thesis unfolding successful_paths_values by blast
qed

lemma execute_plan_ok:
  assumes I: "coord_inv w starts goals horizon planned (cr_timed_paths cr, failed, rt)" and s: "sim_ok s"
    and b: "\<And>p. in_bounds w p \<Longrightarrow> in_bounds (sim_warehouse s) p"
  shows "\<exists>res s'. execute_coordinated cr s = (Inr res, s') \<and> cx_not_executed_robot_ids res = 
      cr_failed_robot_ids cr @ (if cx_executed_robot_ids res = [] then sort (dict_keys (successful_paths cr)) else []) \<and>
    cx_vertex_conflicts res = 0 \<and> cx_edge_conflicts res = 0 \<and> cx_validation_problems res = [] \<and>
    (if cx_executed_robot_ids res = [] then s' = s \<and> (cx_success res \<longrightarrow> successful_paths cr = [])
     else cx_executed_robot_ids res = sort (dict_keys (successful_paths cr)) \<and>
       safe_plan (dict_values (successful_paths cr)) \<and>
       0 \<le> cx_makespan_executed res \<and> cx_makespan_executed res \<le> plan_end (successful_paths cr) \<and>
       followed (successful_paths cr) (cx_makespan_executed res) s s' \<and>
       (cx_success res \<longleftrightarrow> cx_makespan_executed res = plan_end (successful_paths cr)) \<and>
       (cx_success res \<longrightarrow> cx_robots_reached_goal res = length (successful_paths cr)))"
proof -
  let ?p = "successful_paths cr"
  have P: "plan_ok ?p" by (rule coord_inv_plan_ok [OF I])
  have V: "find_coordination_problems (dict_values ?p) (sim_warehouse s) None False = Inr []"
    by (rule preflight_validates [OF I b])
  show ?thesis
  proof (cases "preflight_robots s (sort_key fst ?p)")
    case (Some reason)
    then show ?thesis using V by (simp add: execute_coordinated_def cx_default_def Let_def)
  next
    case pre: None
    show ?thesis
    proof (cases "?p = []")
      case True
      then show ?thesis using V pre by (simp add: execute_coordinated_def cx_default_def Let_def)
    next
      case ne: False
      have "ready ?p s" unfolding ready_def
      proof
        fix i assume i: "i \<in> set (dict_keys ?p)"
        then obtain tp where tp: "dict_get ?p i = Some tp" by (rule plan_okD [OF P]) blast
        then have "(i, tp) \<in> set (sort_key fst ?p)" by (simp add: map_of_SomeD)
        from preflight_ready [OF pre s this] show "\<exists>r. dict_get (sim_robots s) i = Some r \<and> robot_id r = i \<and>
            robot_core_ok r \<and> robot_position r = plan_pos ?p i 0 \<and> is_traversable (sim_warehouse s) (robot_position r)"
          using tp_start_plan [OF P tp] by auto
      qed
      moreover have safe: "safe_plan (dict_values ?p)"
        using coord_inv_safe [OF I] ne unfolding successful_paths_values [symmetric] by simp
      ultimately obtain res s' where "run_paths ?p (cr_failed_robot_ids cr) s = (Inr res, s')"
        "cx_executed_robot_ids res = sort (dict_keys ?p)" "cx_not_executed_robot_ids res = cr_failed_robot_ids cr"
        "cx_vertex_conflicts res = 0" "cx_edge_conflicts res = 0" "cx_validation_problems res = []"
        "0 \<le> cx_makespan_executed res" "cx_makespan_executed res \<le> plan_end ?p"
        "cx_success res \<longleftrightarrow> cx_makespan_executed res = plan_end ?p"
        "cx_success res \<longrightarrow> cx_robots_reached_goal res = length ?p" "followed ?p (cx_makespan_executed res) s s'"
        using run_paths_ok [OF P ne] by blast
      moreover have "sort (dict_keys ?p) \<noteq> []" using ne by (metis length_0_conv length_map length_sort)
      ultimately show ?thesis using V pre ne safe by (simp add: execute_coordinated_def Let_def)
    qed
  qed
qed

lemma plan_positions_apart:
  assumes P: "plan_ok paths" and S: "safe_plan (dict_values paths)" and t: "0 \<le> t" "t \<le> plan_end paths"
    and ij: "i \<in> set (dict_keys paths)" "j \<in> set (dict_keys paths)" "plan_pos paths i t = plan_pos paths j t"
  shows "i = j"
proof -
  have ne: "paths \<noteq> []" using ij(1) by auto
  have "distinct (map (\<lambda>rid. plan_pos paths rid t) (sort (dict_keys paths)))"
    using safe_plan_starts [OF P ne S] safe_plan_safe_at [OF P ne S, of t] t
    unfolding safe_at_def plan_end_def [symmetric] by (cases "t = 0") simp_all
  then show ?thesis using ij by (auto simp: distinct_map dest: inj_onD)
qed

lemma followed_goal:
  assumes P: "plan_ok paths" and F: "followed paths n s s'" "plan_end paths \<le> n" and tp: "dict_get paths i = Some tp"
  shows "\<exists>r. dict_get (sim_robots s') i = Some r \<and> tp_goal tp = Some (robot_position r)"
proof -
  have "i \<in> set (dict_keys paths)" using dict_get_image [OF tp] tp dict_get_None_iff [of paths i] by auto
  then obtain r where "dict_get (sim_robots s') i = Some r" "robot_position r = plan_pos paths i n"
    using F(1) unfolding followed_def by blast
  then show ?thesis using tp_goal_plan [OF P tp, of n] arrival_le_end [OF tp] F(2) by auto
qed

text \<open>When every registered robot takes part, the run keeps the simulation's invariant.\<close>

lemma followed_sim_ok:
  assumes s: "sim_ok s" and F: "followed paths n s s'" and all: "set (dict_keys (sim_robots s)) \<subseteq> set (dict_keys paths)"
    and inj: "\<And>i j. i \<in> set (dict_keys paths) \<Longrightarrow> j \<in> set (dict_keys paths) \<Longrightarrow> plan_pos paths i n = plan_pos paths j n \<Longrightarrow> i = j"
  shows "sim_ok s'"
proof -
  have k: "dict_keys (sim_robots s') = dict_keys (sim_robots s)" and w: "sim_warehouse s' = sim_warehouse s"
    "sim_tasks s' = sim_tasks s" using F by (simp_all add: followed_def)
  have rob: "robot_id r = i \<and> robot_core_ok r \<and> robot_position r = plan_pos paths i n \<and>
      is_traversable (sim_warehouse s) (robot_position r) \<and> i \<in> set (dict_keys paths)"
    if "dict_get (sim_robots s') i = Some r" for i r
  proof -
    have "i \<in> set (dict_keys (sim_robots s'))" using that dict_get_None_iff [of "sim_robots s'" i] by auto
    then have i: "i \<in> set (dict_keys paths)" using all unfolding k by blast
    then show ?thesis using F that unfolding followed_def by (metis option.inject)
  qed
  have "dict_ok (sim_robots s')" using sim_ok_dicts(1) [OF s] unfolding dict_ok_def k .
  moreover have "i = j" if h: "dict_get (sim_robots s') i = Some r" "dict_get (sim_robots s') j = Some q"
    "robot_position r = robot_position q" for i j r q
    using rob [OF h(1)] rob [OF h(2)] h(3) inj by metis
  ultimately have "robots_ok (sim_warehouse s) (sim_robots s')" unfolding robots_ok_def using rob by blast
  then show ?thesis using s by (simp add: sim_ok_def w)
qed

end
