(* ===== verification/Coordination_Properties.thy ===== *)
theory Coordination_Properties
  imports Coordinated_Executor Fixtures
begin

text \<open>
  What the multi-robot stack promises: the space-time planner returns an earliest route or a
  proof that there is none, the prioritised coordinator returns a plan that its independent
  validator accepts, and the coordinated executor carries such a plan out without a conflict
  between the robots of the plan. The last theorem shows that robots outside the plan are not
  looked at.
\<close>

section \<open>Fixtures\<close>

definition crossing_starts :: "(string, position) dict" where
  "crossing_starts = [(''A'', Position 0 0), (''B'', Position 0 1)]"

definition crossing_goals :: "(string, position) dict" where
  "crossing_goals = [(''A'', Position 0 1), (''B'', Position 0 0)]"

definition two_robots :: simulator where
  "two_robots = put_robot ''B'' (robot_default ''B'' (Position 0 1))
     (put_robot ''A'' (robot_default ''A'' (Position 0 0)) (sim_init floor22))"

lemma floor22_ok: "warehouse_ok floor22"
  using warehouse_init_ok [OF floor22_init] by simp

lemma robot_default_core: "i \<noteq> [] \<Longrightarrow> robot_core_ok (robot_default i p) \<and> assigned_task_id (robot_default i p) = None"
  using robot_default_ok [of i p] by (simp add: robot_ok_def robot_default_def)

lemma two_robots_reachable: "sim_reachable floor22 two_robots"
proof -
  let ?s = "put_robot ''A'' (robot_default ''A'' (Position 0 0)) (sim_init floor22)"
  have "add_robot (robot_default ''A'' (Position 0 0)) (sim_init floor22) = Inr ?s" by code_simp
  then have "sim_reachable floor22 ?s"
    by (intro reach_step [OF reach_init] step_add_robot) (simp_all add: robot_default_core)
  moreover have "add_robot (robot_default ''B'' (Position 0 1)) ?s = Inr two_robots" by code_simp
  ultimately show ?thesis by (rule_tac reach_step [OF _ step_add_robot]) (simp_all add: robot_default_core)
qed

lemma two_robots_ok: "sim_ok two_robots"
  using sim_reachable_ok [OF two_robots_reachable floor22_ok] by simp

section \<open>Properties\<close>

lemma coordinate_for_starts:
  assumes "dict_ok goals" "coordinate_for heuristic w s goals order horizon = Inr cr"
  shows "\<exists>starts. dict_ok starts \<and> coordinate heuristic w starts goals order horizon = Inr cr"
proof -
  let ?f = "\<lambda>rid. res_bind (get_robot s rid) (\<lambda>r. Inr (rid, robot_position r))"
  obtain starts where st: "res_map ?f (dict_keys goals) = Inr starts" "coordinate heuristic w starts goals order horizon = Inr cr"
    using assms(2) by (auto simp: coordinate_for_def res_bind_Inr)
  have "dict_keys starts = ks" if "res_map ?f ks = Inr starts" for ks starts
    using that by (induction ks arbitrary: starts) (auto simp: res_bind_Inr)
  from this [OF st(1)] have "dict_ok starts" using assms(1) by (simp add: dict_ok_def)
  then show ?thesis using st(2) by blast
qed

lemma coordinate_for_registered:
  assumes "dict_ok goals" "set (dict_keys goals) \<subseteq> set (dict_keys (sim_robots s))"
  shows "\<exists>starts. dict_ok starts \<and>
    coordinate_for heuristic w s goals order horizon = coordinate heuristic w starts goals order horizon"
proof -
  define g where "g = (\<lambda>i. (i, robot_position (the (dict_get (sim_robots s) i))))"
  have "res_map (\<lambda>i. res_bind (get_robot s i) (\<lambda>r. Inr (i, robot_position r))) (dict_keys goals) = Inr (map g (dict_keys goals))"
  proof (rule res_map_pure)
    fix i assume "i \<in> set (dict_keys goals)"
    then obtain r where "dict_get (sim_robots s) i = Some r"
      using assms(2) dict_get_None_iff [of "sim_robots s" i] by (cases "dict_get (sim_robots s) i") auto
    then show "res_bind (get_robot s i) (\<lambda>r. Inr (i, robot_position r)) = Inr (g i)" by (simp add: g_def)
  qed
  moreover have "dict_ok (map g (dict_keys goals))" using assms(1) by (simp add: dict_ok_def g_def comp_def)
  ultimately show ?thesis unfolding coordinate_for_def by (intro exI [of _ "map g (dict_keys goals)"]) simp
qed

lemma coordinate_for_unregistered:
  assumes "\<not> set (dict_keys goals) \<subseteq> set (dict_keys (sim_robots s))"
  shows "coordinate_for heuristic w s goals order horizon = Inl SimulationError"
proof -
  let ?f = "\<lambda>i. res_bind (get_robot s i) (\<lambda>r. Inr (i, robot_position r))"
  obtain i where i: "i \<in> set (dict_keys goals)" "dict_get (sim_robots s) i = None"
    using assms dict_get_None_iff [of "sim_robots s"] by blast
  have bad: "?f j = Inl SimulationError" if "?f j = Inl e" for j e
    using that by (auto simp: get_robot_def split: option.splits)
  have "res_map ?f ks = Inl SimulationError" if "i \<in> set ks" for ks
    using that
  proof (induction ks)
    case (Cons k ks)
    show ?case
    proof (cases "dict_get (sim_robots s) k")
      case None
      then show ?thesis by (simp add: get_robot_def)
    next
      case (Some r)
      then have "i \<in> set ks" using Cons.prems i(2) by auto
      then show ?thesis using Cons.IH Some by simp
    qed
  qed simp
  then show ?thesis using i(1) by (simp add: coordinate_for_def)
qed

lemma execute_plan_world:
  assumes I: "coord_inv (sim_warehouse s) starts goals horizon planned (cr_timed_paths cr, failed, rt)" and s: "sim_ok s"
  shows "\<exists>res s'. execute_coordinated cr s = (Inr res, s') \<and>
    cx_vertex_conflicts res = 0 \<and> cx_edge_conflicts res = 0 \<and> cx_validation_problems res = [] \<and>
    sim_warehouse s' = sim_warehouse s \<and> sim_tasks s' = sim_tasks s \<and>
    (\<forall>i. i \<notin> set (dict_keys (successful_paths cr)) \<longrightarrow> dict_get (sim_robots s') i = dict_get (sim_robots s) i) \<and>
    (cx_success res \<longrightarrow> (\<forall>i \<in> set (dict_keys (successful_paths cr)). \<exists>r. dict_get (sim_robots s') i = Some r \<and>
       dict_get goals i = Some (robot_position r))) \<and>
    (set (dict_keys (sim_robots s)) \<subseteq> set (dict_keys (successful_paths cr)) \<longrightarrow> sim_ok s')"
proof -
  let ?p = "successful_paths cr"
  have P: "plan_ok ?p" by (rule coord_inv_plan_ok [OF I])
  obtain res s' where X: "execute_coordinated cr s = (Inr res, s')" "cx_vertex_conflicts res = 0"
      "cx_edge_conflicts res = 0" "cx_validation_problems res = []"
    and R: "if cx_executed_robot_ids res = [] then s' = s \<and> (cx_success res \<longrightarrow> ?p = [])
      else cx_executed_robot_ids res = sort (dict_keys ?p) \<and> safe_plan (dict_values ?p) \<and>
       0 \<le> cx_makespan_executed res \<and> cx_makespan_executed res \<le> plan_end ?p \<and>
       followed ?p (cx_makespan_executed res) s s' \<and>
       (cx_success res \<longleftrightarrow> cx_makespan_executed res = plan_end ?p) \<and>
       (cx_success res \<longrightarrow> cx_robots_reached_goal res = length ?p)"
    using execute_plan_ok [OF I s] by blast
  show ?thesis
  proof (cases "cx_executed_robot_ids res = []")
    case True
    then show ?thesis using X R s by auto
  next
    case False
    let ?n = "cx_makespan_executed res"
    have F: "followed ?p ?n s s'" and S: "safe_plan (dict_values ?p)" and n: "0 \<le> ?n" "?n \<le> plan_end ?p" and suc: "cx_success res \<Longrightarrow> plan_end ?p \<le> ?n"
      using R False by simp_all
    have "\<exists>r. dict_get (sim_robots s') i = Some r \<and> dict_get goals i = Some (robot_position r)"
      if h: "cx_success res" "i \<in> set (dict_keys ?p)" for i
    proof -
      obtain tp where tp: "dict_get ?p i = Some tp" "timed_path_ok tp" using plan_okD [OF P h(2)] by metis
      then have "(i, tp) \<in> set (cr_timed_paths cr)" "tp_success tp"
        by (auto simp: successful_paths_def dest!: map_of_SomeD)
      then obtain g where "dict_get goals i = Some g" "pos_at tp (tp_arrival_time tp) = g"
        using coord_inv_routes [OF I] unfolding route_of_def by blast
      moreover have "tp_goal tp = Some (pos_at tp (tp_arrival_time tp))"
        using tp_goal_plan [OF P tp(1) order_refl] tp(1) by (simp add: plan_pos_def)
      ultimately show ?thesis using followed_goal [OF P F suc [OF h(1)] tp(1)] by auto
    qed
    moreover have "sim_ok s'" if all: "set (dict_keys (sim_robots s)) \<subseteq> set (dict_keys ?p)"
      by (rule followed_sim_ok [OF s F all]) (rule plan_positions_apart [OF P S n])
    ultimately show ?thesis using X F by (auto simp: followed_def)
  qed
qed

lemma coord_inv_keys:
  assumes "coord_inv w starts goals horizon planned (tps, failed, rt)"
  shows "dict_keys tps = planned" "failed = [] \<longleftrightarrow> (\<forall>tp \<in> set (dict_values tps). tp_success tp)"
    "set failed \<subseteq> set (dict_keys tps)"
proof -
  have k: "dict_keys tps = planned" and f: "failed = map fst (filter (\<lambda>(r, tp). \<not> tp_success tp) tps)"
    using assms unfolding coord_inv_def by simp_all
  show "dict_keys tps = planned" by (rule k)
  show "failed = [] \<longleftrightarrow> (\<forall>tp \<in> set (dict_values tps). tp_success tp)" unfolding f by (auto simp: filter_empty_conv)
  show "set failed \<subseteq> set (dict_keys tps)" unfolding f by force
qed

text \<open>
  C10: The space-time planner always returns. Either it found a route that starts where and
  when the robot is, takes only steps that the floor and the reservations of the others
  allow, reaches the goal within the horizon and may stay there, and no such route is
  shorter; or it failed, and then no such route exists. The reservations are never changed.
\<close>

theorem space_time_planner_complete:
  "(\<exists>xs rt'. st_plan manhattan_distance w start goal rt r s (Some horizon) =
        Inr (tp_found r (map (\<lambda>(c, t). TimedStep c t) xs), rt') \<and> same_claims rt rt' \<and>
        timed_route w rt r horizon start s goal xs \<and>
        (\<forall>ys. timed_route w rt r horizon start s goal ys \<longrightarrow> length xs \<le> length ys)) \<or>
   (\<exists>reason rt'. st_plan manhattan_distance w start goal rt r s (Some horizon) = Inr (tp_failed r reason, rt') \<and>
        same_claims rt rt' \<and> \<not> (\<exists>ys. timed_route w rt r horizon start s goal ys))"
  using manhattan_st.st_plan_ok [of w start goal rt r s horizon] by blast

lemma space_time_planner_complete_witness:
  "\<exists>xs rt'. st_plan manhattan_distance floor22 (Position 0 0) (Position 0 1) reservation_init ''A'' 0 (Some 5) =
        Inr (tp_found ''A'' (map (\<lambda>(c, t). TimedStep c t) xs), rt') \<and>
      timed_route floor22 reservation_init ''A'' 5 (Position 0 0) 0 (Position 0 1) xs"
proof -
  have "case st_plan manhattan_distance floor22 (Position 0 0) (Position 0 1) reservation_init ''A'' 0 (Some 5) of
      Inl e \<Rightarrow> False | Inr (tp, rt') \<Rightarrow> tp_success tp"
    by code_simp
  then have "\<nexists>reason rt'. st_plan manhattan_distance floor22 (Position 0 0) (Position 0 1) reservation_init ''A'' 0 (Some 5) =
      Inr (tp_failed ''A'' reason, rt')"
    by auto
  with space_time_planner_complete [of floor22 "Position 0 0" "Position 0 1" reservation_init "''A''" 0 5]
  show ?thesis by blast
qed

lemma coordinate_validates:
  assumes "dict_ok starts" "dict_ok goals"
  shows "\<exists>cr. coordinate manhattan_distance w starts goals order horizon = Inr cr \<and>
    find_coordination_problems (dict_values (cr_timed_paths cr)) w (Some starts) True = Inr []"
proof (cases "validate_request starts goals order")
  case None
  then show ?thesis using coordinate_inv [OF assms None refl] coord_inv_validates by blast
next
  case (Some failure)
  then show ?thesis by (simp add: coordinate_def rejected_def find_coordination_problems_def)
qed

text \<open>
  C1: The coordinator never raises, whatever the request, and every plan that it returns
  passes the independent conflict validator: right starts, consecutive timesteps, walkable
  cells, no two robots on a cell, no swaps, no parked robot run over.
\<close>

theorem coordinated_plan_validates:
  assumes "dict_ok starts" "dict_ok goals"
  shows "\<exists>cr. coordinate manhattan_distance w starts goals order horizon = Inr cr \<and>
    find_coordination_problems (dict_values (cr_timed_paths cr)) w (Some starts) True = Inr []"
  by (rule coordinate_validates [OF assms])

lemma coordinated_plan_validates_witness:
  "\<exists>cr. coordinate manhattan_distance floor22 crossing_starts crossing_goals None None = Inr cr \<and>
    find_coordination_problems (dict_values (cr_timed_paths cr)) floor22 (Some crossing_starts) True = Inr []"
  by (rule coordinated_plan_validates) (simp_all add: crossing_starts_def crossing_goals_def dict_ok_def)

text \<open>
  C13: A plan has one timed path per requested robot, in priority order. A successful one
  leads from the robot's start at time 0 to its goal within the horizon, one step or wait at
  a time over free cells, and stays there; the plan is successful exactly if all paths are.
\<close>

theorem coordinated_routes_reach_goals:
  assumes "dict_ok starts" "dict_ok goals" "validate_request starts goals order = None"
  shows "\<exists>cr. coordinate manhattan_distance w starts goals order horizon = Inr cr \<and>
    dict_keys (cr_timed_paths cr) = priority_list starts order \<and>
    set (dict_keys (cr_timed_paths cr)) = set (dict_keys starts) \<and>
    (cr_success cr \<longleftrightarrow> (\<forall>tp \<in> set (dict_values (cr_timed_paths cr)). tp_success tp)) \<and>
    (\<forall>(r, tp) \<in> set (cr_timed_paths cr). tp_success tp \<longrightarrow> (\<exists>s g. dict_get starts r = Some s \<and>
       dict_get goals r = Some g \<and> route_of w s g (cr_horizon cr) tp))"
proof -
  obtain cr failed rt where c: "coordinate manhattan_distance w starts goals order horizon = Inr cr"
    and I: "coord_inv w starts goals (cr_horizon cr) (priority_list starts order) (cr_timed_paths cr, failed, rt)"
    and f: "cr_success cr \<longleftrightarrow> failed = []"
    using coordinate_inv [OF assms refl, of w horizon] by metis
  note K = coord_inv_keys [OF I] and V = validate_request_None(2) [OF assms(3,1)]
  have "\<exists>s g. dict_get starts r = Some s \<and> dict_get goals r = Some g \<and> route_of w s g (cr_horizon cr) tp"
    if "(r, tp) \<in> set (cr_timed_paths cr)" "tp_success tp" for r tp
    by (rule coord_inv_routes [OF I that])
  moreover have "set (dict_keys (cr_timed_paths cr)) = set (dict_keys starts)" unfolding K(1) V ..
  ultimately show ?thesis using c K f by (intro exI [of _ cr] conjI) auto
qed

lemma coordinated_routes_reach_goals_witness:
  "validate_request crossing_starts crossing_goals None = None \<and>
   (\<exists>cr. coordinate manhattan_distance floor22 crossing_starts crossing_goals None None = Inr cr \<and>
      dict_keys (cr_timed_paths cr) = [''A'', ''B''])"
proof (intro conjI)
  show v: "validate_request crossing_starts crossing_goals None = None" by code_simp
  have p: "priority_list crossing_starts None = [''A'', ''B'']" by code_simp
  have "dict_ok crossing_starts" "dict_ok crossing_goals"
    by (simp_all add: crossing_starts_def crossing_goals_def dict_ok_def)
  from coordinated_routes_reach_goals [OF this v, of floor22 None]
  show "\<exists>cr. coordinate manhattan_distance floor22 crossing_starts crossing_goals None None = Inr cr \<and>
      dict_keys (cr_timed_paths cr) = [''A'', ''B'']"
    unfolding p by (elim exE conjE, intro exI conjI)
qed

text \<open>
  The totals of a plan agree with its paths: moves and waits add up to the space-time
  cost, the makespan does not exceed the horizon, and the counts are those of the paths.
\<close>

theorem coordination_totals:
  assumes "dict_ok starts" "dict_ok goals" "validate_request starts goals order = None"
    "coordinate manhattan_distance w starts goals order horizon = Inr cr"
  shows "cr_total_move_steps cr + cr_total_wait_steps cr = cr_total_space_time_cost cr \<and>
    cr_makespan cr \<le> max 0 (cr_horizon cr) \<and>
    cr_horizon cr = (case horizon of None \<Rightarrow> default_horizon w (length starts) | Some h \<Rightarrow> h) \<and>
    set (cr_failed_robot_ids cr) \<subseteq> set (dict_keys starts)"
proof -
  obtain failed rt where I: "coord_inv w starts goals (cr_horizon cr) (priority_list starts order) (cr_timed_paths cr, failed, rt)"
    and f: "cr_failed_robot_ids cr = failed"
    and t: "cr_total_move_steps cr + cr_total_wait_steps cr = cr_total_space_time_cost cr" "cr_makespan cr \<le> max 0 (cr_horizon cr)"
      "cr_horizon cr = (case horizon of None \<Rightarrow> default_horizon w (length starts) | Some h \<Rightarrow> h)"
    using coordinate_inv [OF assms(1-3) refl, of w horizon] unfolding assms(4) by (metis sum.inject(2))
  have "set (cr_failed_robot_ids cr) \<subseteq> set (dict_keys starts)"
    using coord_inv_keys(1,3) [OF I] unfolding f validate_request_None(2) [OF assms(3,1), symmetric] by simp
  then show ?thesis using t by blast
qed

lemma coordination_totals_witness:
  "\<exists>cr. coordinate manhattan_distance floor22 crossing_starts crossing_goals None None = Inr cr \<and>
    cr_total_move_steps cr + cr_total_wait_steps cr = cr_total_space_time_cost cr"
proof -
  have v: "validate_request crossing_starts crossing_goals None = None" by code_simp
  have d: "dict_ok crossing_starts" "dict_ok crossing_goals"
    by (simp_all add: crossing_starts_def crossing_goals_def dict_ok_def)
  obtain cr where "coordinate manhattan_distance floor22 crossing_starts crossing_goals None None = Inr cr"
    using coordinate_inv [OF d v refl, of floor22 None] by (elim exE conjE)
  with coordination_totals [OF d v this] show ?thesis by blast
qed

text \<open>The routes of a plan, rejected requests included.\<close>

lemma coordinate_routes:
  assumes "dict_ok starts" "dict_ok goals" "coordinate manhattan_distance w starts goals order horizon = Inr cr"
  shows "dict_get (cr_timed_paths cr) i = Some tp \<Longrightarrow> tp_success tp \<Longrightarrow>
      \<exists>a b. dict_get starts i = Some a \<and> dict_get goals i = Some b \<and> route_of w a b (cr_horizon cr) tp"
    "cr_success cr \<Longrightarrow> i \<in> set (dict_keys starts) \<Longrightarrow> \<exists>tp. dict_get (cr_timed_paths cr) i = Some tp \<and> tp_success tp"
proof -
  have "(dict_get (cr_timed_paths cr) i = Some tp \<longrightarrow> tp_success tp \<longrightarrow>
      (\<exists>a b. dict_get starts i = Some a \<and> dict_get goals i = Some b \<and> route_of w a b (cr_horizon cr) tp)) \<and>
    (cr_success cr \<longrightarrow> i \<in> set (dict_keys starts) \<longrightarrow> (\<exists>tp. dict_get (cr_timed_paths cr) i = Some tp \<and> tp_success tp))" for tp
  proof (cases "validate_request starts goals order")
    case (Some failure)
    then show ?thesis using assms(3) by (auto simp: coordinate_def rejected_def)
  next
    case None
    obtain failed rt where I: "coord_inv w starts goals (cr_horizon cr) (priority_list starts order) (cr_timed_paths cr, failed, rt)"
      and f: "cr_success cr \<longleftrightarrow> failed = []"
      using coordinate_inv [OF assms(1,2) None refl, of w horizon] unfolding assms(3) by (metis sum.inject(2))
    note K = coord_inv_keys [OF I] and V = validate_request_None(2) [OF None assms(1)]
    have "\<exists>tp. dict_get (cr_timed_paths cr) i = Some tp \<and> tp_success tp" if "cr_success cr" "i \<in> set (dict_keys starts)"
    proof -
      have "i \<in> set (dict_keys (cr_timed_paths cr))" using that(2) unfolding K(1) V .
      then obtain tp where tp: "dict_get (cr_timed_paths cr) i = Some tp"
        using dict_get_None_iff [of "cr_timed_paths cr" i] by (cases "dict_get (cr_timed_paths cr) i") auto
      moreover have "tp_success tp" using that(1) f K map_of_SomeD [OF tp] by auto
      ultimately show ?thesis by blast
    qed
    then show ?thesis using coord_inv_routes [OF I] map_of_SomeD [of "cr_timed_paths cr" i] by blast
  qed
  then show "dict_get (cr_timed_paths cr) i = Some tp \<Longrightarrow> tp_success tp \<Longrightarrow>
      \<exists>a b. dict_get starts i = Some a \<and> dict_get goals i = Some b \<and> route_of w a b (cr_horizon cr) tp"
    "cr_success cr \<Longrightarrow> i \<in> set (dict_keys starts) \<Longrightarrow> \<exists>tp. dict_get (cr_timed_paths cr) i = Some tp \<and> tp_success tp"
    by blast+
qed

text \<open>
  C3: From a consistent simulation, planning for robots that are registered and running the plan
  never raises, whatever the goals, the priority order and the horizon; with a goal for a robot that
  is not registered, planning raises \<open>SimulationError\<close>. During the run no two planned robots meet on a cell or swap cells, the executed
  trace passes the independent validator, and nothing else of the simulation changes. A
  successful run leaves every planned robot on its goal; and if every registered robot is
  planned, the simulation is consistent afterwards, whether or not the run was stopped.
\<close>

theorem plan_and_execute:
  assumes s: "sim_ok s" and g: "dict_ok goals"
  shows "if \<not> set (dict_keys goals) \<subseteq> set (dict_keys (sim_robots s))
    then coordinate_for manhattan_distance (sim_warehouse s) s goals order horizon = Inl SimulationError
    else \<exists>cr res s'. coordinate_for manhattan_distance (sim_warehouse s) s goals order horizon = Inr cr \<and>
    execute_coordinated cr s = (Inr res, s') \<and>
    cx_vertex_conflicts res = 0 \<and> cx_edge_conflicts res = 0 \<and> cx_validation_problems res = [] \<and>
    sim_warehouse s' = sim_warehouse s \<and> sim_tasks s' = sim_tasks s \<and>
    (\<forall>i. i \<notin> set (dict_keys (successful_paths cr)) \<longrightarrow> dict_get (sim_robots s') i = dict_get (sim_robots s) i) \<and>
    (cx_success res \<longrightarrow> (\<forall>i \<in> set (dict_keys (successful_paths cr)). \<exists>r. dict_get (sim_robots s') i = Some r \<and>
       dict_get goals i = Some (robot_position r))) \<and>
    (set (dict_keys (sim_robots s)) \<subseteq> set (dict_keys (successful_paths cr)) \<longrightarrow> sim_ok s')"
proof (cases "set (dict_keys goals) \<subseteq> set (dict_keys (sim_robots s))")
  case False
  then show ?thesis by (simp add: coordinate_for_unregistered)
next
  case True
  obtain starts where st0: "dict_ok starts" "coordinate_for manhattan_distance (sim_warehouse s) s goals order horizon =
      coordinate manhattan_distance (sim_warehouse s) starts goals order horizon"
    using coordinate_for_registered [OF g True] by blast
  obtain cr where c: "coordinate manhattan_distance (sim_warehouse s) starts goals order horizon = Inr cr"
    using coordinate_validates [OF st0(1) g] by blast
  let ?p = "successful_paths cr"
  note st = st0(1) c
  have "\<exists>res s'. execute_coordinated cr s = (Inr res, s') \<and>
    cx_vertex_conflicts res = 0 \<and> cx_edge_conflicts res = 0 \<and> cx_validation_problems res = [] \<and>
    sim_warehouse s' = sim_warehouse s \<and> sim_tasks s' = sim_tasks s \<and>
    (\<forall>i. i \<notin> set (dict_keys ?p) \<longrightarrow> dict_get (sim_robots s') i = dict_get (sim_robots s) i) \<and>
    (cx_success res \<longrightarrow> (\<forall>i \<in> set (dict_keys ?p). \<exists>r. dict_get (sim_robots s') i = Some r \<and>
       dict_get goals i = Some (robot_position r))) \<and>
    (set (dict_keys (sim_robots s)) \<subseteq> set (dict_keys ?p) \<longrightarrow> sim_ok s')"
  proof (cases "validate_request starts goals order")
    case (Some failure)
    then have "?p = []" "cr_failed_robot_ids cr = []" using st(2) by (auto simp: coordinate_def rejected_def successful_paths_def)
    then show ?thesis using s
      by (simp add: execute_coordinated_def cx_default_def find_coordination_problems_def)
  next
    case None
    obtain failed rt where I: "coord_inv (sim_warehouse s) starts goals (cr_horizon cr) (priority_list starts order) (cr_timed_paths cr, failed, rt)"
      using coordinate_inv [OF st(1) g None refl, of "sim_warehouse s" horizon] unfolding st(2) by (metis sum.inject(2))
    show ?thesis by (rule execute_plan_world [OF I s])
  qed
  then show ?thesis using True st0(2) c by auto
qed

lemma plan_and_execute_witness:
  "\<exists>cr res s'. coordinate_for manhattan_distance floor22 two_robots crossing_goals None None = Inr cr \<and>
    execute_coordinated cr two_robots = (Inr res, s') \<and> cx_vertex_conflicts res = 0 \<and> sim_warehouse s' = floor22"
proof -
  have w: "sim_warehouse two_robots = floor22" by code_simp
  have g: "dict_ok crossing_goals" by (simp add: crossing_goals_def dict_ok_def)
  have k: "set (dict_keys crossing_goals) \<subseteq> set (dict_keys (sim_robots two_robots))" by code_simp
  from plan_and_execute [OF two_robots_ok g, where order = None and horizon = None, unfolded w] k show ?thesis by auto
qed

text \<open>
  The executor looks only at the robots of the plan. Here \<open>A\<close> is planned onto the cell
  where \<open>B\<close> stands idle, outside the plan: the run reports success without a conflict, and
  afterwards both robots are on that cell, which no other operation of the simulator allows.
\<close>

theorem executor_ignores_unplanned_robots:
  "sim_reachable floor22 two_robots \<and>
   (case coordinate_for manhattan_distance floor22 two_robots [(''A'', Position 0 1)] None None of
      Inl e \<Rightarrow> False
    | Inr cr \<Rightarrow>
        (case execute_coordinated cr two_robots of
           (Inl e, s') \<Rightarrow> False
         | (Inr res, s') \<Rightarrow> cx_success res \<and> cx_validation_problems res = [] \<and>
             map_option robot_position (dict_get (sim_robots s') ''A'') = Some (Position 0 1) \<and>
             map_option robot_position (dict_get (sim_robots s') ''B'') = Some (Position 0 1) \<and> \<not> sim_ok s'))"
proof -
  obtain cr res s' where c: "coordinate_for manhattan_distance floor22 two_robots [(''A'', Position 0 1)] None None = Inr cr"
    "execute_coordinated cr two_robots = (Inr res, s')"
    and r: "cx_success res" "cx_validation_problems res = []"
      "map_option robot_position (dict_get (sim_robots s') ''A'') = Some (Position 0 1)"
      "map_option robot_position (dict_get (sim_robots s') ''B'') = Some (Position 0 1)"
  proof -
    have "case coordinate_for manhattan_distance floor22 two_robots [(''A'', Position 0 1)] None None of
        Inl e \<Rightarrow> False
      | Inr cr \<Rightarrow> (case execute_coordinated cr two_robots of (Inl e, s') \<Rightarrow> False
         | (Inr res, s') \<Rightarrow> cx_success res \<and> cx_validation_problems res = [] \<and>
             map_option robot_position (dict_get (sim_robots s') ''A'') = Some (Position 0 1) \<and>
             map_option robot_position (dict_get (sim_robots s') ''B'') = Some (Position 0 1))"
      by code_simp
    then show thesis unfolding case_res_ok case_run_ok using that by blast
  qed
  obtain a b where ab: "dict_get (sim_robots s') ''A'' = Some a" "dict_get (sim_robots s') ''B'' = Some b"
    "robot_position a = robot_position b" using r(3,4) by auto
  have "\<not> sim_ok s'"
  proof
    assume "sim_ok s'"
    from robots_ok_inj [OF sim_ok_robots [OF this] ab] show False by simp
  qed
  then show ?thesis using c r two_robots_reachable by simp
qed

section \<open>What the validator accepts\<close>

text \<open>
  C33: The conflict validator is exact on well-formed routes of different robots. It returns,
  and it reports no problem if and only if every successful route starts where expected, stays
  on the floor (and off obstacles, if asked), moves at most one cell per step, and all routes
  together never have two robots on a cell or swapping cells, parked robots included.
\<close>

theorem conflict_validator_exact:
  assumes "\<forall>tp \<in> set (filter tp_success tps). timed_path_ok tp" "distinct (map tp_robot_id (filter tp_success tps))"
  shows "\<exists>ps. find_coordination_problems tps w starts check_obstacles = Inr ps \<and> (ps = [] \<longleftrightarrow>
    (\<forall>tp \<in> set (filter tp_success tps). walkable w starts check_obstacles tp) \<and>
    (filter tp_success tps \<noteq> [] \<longrightarrow> safe_plan (filter tp_success tps)))"
  by (rule validator_ok [OF assms])

lemma conflict_validator_exact_witness:
  "\<exists>ps. find_coordination_problems [tp_found ''A'' [TimedStep (Position 0 0) 0], tp_found ''B'' [TimedStep (Position 0 0) 0]]
     floor22 None True = Inr ps \<and> ps \<noteq> []"
proof -
  let ?tps = "[tp_found ''A'' [TimedStep (Position 0 0) 0], tp_found ''B'' [TimedStep (Position 0 0) 0]]"
  have "\<forall>tp \<in> set (filter tp_success ?tps). timed_path_ok tp" by (simp add: timed_path_ok_def tp_start_time_def)
  moreover have "distinct (map tp_robot_id (filter tp_success ?tps))" by simp
  ultimately obtain ps where ps: "find_coordination_problems ?tps floor22 None True = Inr ps"
    "ps = [] \<longleftrightarrow> (\<forall>tp \<in> set (filter tp_success ?tps). walkable floor22 None True tp) \<and>
      (filter tp_success ?tps \<noteq> [] \<longrightarrow> safe_plan (filter tp_success ?tps))"
    using conflict_validator_exact by blast
  have "\<not> apart ?tps 0" by (simp add: apart_def pos_at_def tp_start_time_def)
  then have "\<not> safe_plan ?tps" by (auto simp: safe_plan_def tp_start_time_def tp_arrival_time_def)
  then show ?thesis using ps by auto
qed

lemma only_index_errors:
  "position_at t tp = Inl e \<Longrightarrow> e = IndexError"
  "vertex_conflicts paths t = Inl e \<Longrightarrow> e = IndexError"
  "swap_conflicts paths t = Inl e \<Longrightarrow> e = IndexError"
  "goal_problems paths h tp = Inl e \<Longrightarrow> e = IndexError"
proof -
  have pos: "e = IndexError" if "position_at t tp = Inl e" for t tp e
    using that by (auto simp: position_at_def split: if_splits)
  show "position_at t tp = Inl e \<Longrightarrow> e = IndexError" by (rule pos)
  have fold: "e = IndexError" if "res_fold f xs s = Inl e" "\<And>x s e. f x s = Inl e \<Longrightarrow> e = IndexError"
    for f :: "timed_path \<Rightarrow> 's \<Rightarrow> py_error + 's" and xs s e
    using that by (induction xs arbitrary: s) (auto simp: res_bind_Inl)
  have step: "e = IndexError" if "vertex_step t tp acc = Inl e" for t tp acc e
    using that pos by (auto simp: vertex_step_def res_bind_Inl)
  show "vertex_conflicts paths t = Inl e \<Longrightarrow> e = IndexError"
    using fold [of "vertex_step t", OF _ step] by (auto simp: vertex_conflicts_def res_bind_Inl)
  have move: "e = IndexError" if "move_step t tp acc = Inl e" for t tp acc e
    using that pos by (auto simp: move_step_def res_bind_Inl split: option.splits if_splits)
  show "swap_conflicts paths t = Inl e \<Longrightarrow> e = IndexError"
    using fold [of "move_step t", OF _ move] by (auto simp: swap_conflicts_def res_bind_Inl)
  have scan: "e = IndexError" if "goal_scan tp g q ts = Inl e" for tp g q ts e
    using that pos by (induction ts) (auto simp: res_bind_Inl split: if_splits)
  show "e = IndexError" if h: "goal_problems paths h tp = Inl e"
  proof (cases "tp_steps tp = []")
    case True
    then show ?thesis using h by (simp add: goal_problems_def)
  next
    case False
    then obtain q where "(if tp_robot_id q = tp_robot_id tp then Inr []
        else goal_scan tp (step_position (last (tp_steps tp))) q [tp_arrival_time tp..h]) = Inl e"
      using h res_map_Inl by (fastforce simp: goal_problems_def res_bind_Inl)
    then show ?thesis using scan by (auto split: if_splits)
  qed
qed

lemma res_map_fails:
  assumes "x \<in> set xs" "f x = Inl e" "\<And>y d. f y = Inl d \<Longrightarrow> d = (c :: py_error)"
  shows "res_map f xs = Inl c"
  using assms(1)
proof (induction xs)
  case (Cons y ys)
  show ?case
  proof (cases "f y")
    case (Inl d)
    then show ?thesis using assms(3) [OF Inl] by simp
  next
    case (Inr v)
    then have "x \<in> set ys" using Cons.prems assms(2) by auto
    then show ?thesis using Cons.IH Inr by simp
  qed
qed simp

text \<open>
  The validator has a message for a successful route without steps, but no caller sees it:
  on any plan with such a route it raises \<open>IndexError\<close> instead of returning its list.
\<close>

theorem validator_raises_on_empty_route:
  assumes "tp \<in> set tps" "tp_success tp" "tp_steps tp = []"
  shows "find_coordination_problems tps w starts check_obstacles = Inl IndexError"
proof -
  define paths where "paths = filter tp_success tps"
  define H where "H = Max (set (map tp_arrival_time paths))"
  define S where "S = Min (set (map tp_start_time paths))"
  have tp: "tp \<in> set paths" using assms(1,2) by (simp add: paths_def)
  then have ne: "paths \<noteq> []" by auto
  have g: "res_map (goal_problems paths H) paths = Inl IndexError"
    by (rule res_map_fails [OF tp, of _ IndexError]) (simp add: goal_problems_def assms(3), rule only_index_errors)
  have m: "res_map f xs = Inl IndexError \<or> (\<exists>ys. res_map f xs = Inr ys)"
    if "\<And>x e. f x = Inl e \<Longrightarrow> e = IndexError" for f :: "int \<Rightarrow> py_error + coordination_problem list" and xs
    using that by (induction xs) (auto simp: res_bind_def split: sum.splits)
  have "find_coordination_problems tps w starts check_obstacles =
    res_bind (res_map (vertex_conflicts paths) [S..H]) (\<lambda>vs.
        res_bind (res_map (swap_conflicts paths) [S..H - 1]) (\<lambda>ss.
        res_bind (res_map (goal_problems paths H) paths) (\<lambda>gs.
        Inr (concat (map (timed_path_problems w starts check_obstacles) paths) @
             concat vs @ concat ss @ concat gs))))"
    using ne by (simp add: find_coordination_problems_def paths_def [symmetric] H_def S_def Let_def)
  moreover have "res_map (vertex_conflicts paths) [S..H] = Inl IndexError \<or> (\<exists>ys. res_map (vertex_conflicts paths) [S..H] = Inr ys)"
    by (rule m) (rule only_index_errors(2))
  moreover have "res_map (swap_conflicts paths) [S..H - 1] = Inl IndexError \<or> (\<exists>ys. res_map (swap_conflicts paths) [S..H - 1] = Inr ys)"
    by (rule m) (rule only_index_errors(3))
  ultimately show ?thesis using g by auto
qed

lemma validator_raises_on_empty_route_witness:
  "find_coordination_problems [tp_found ''A'' []] floor22 None True = Inl IndexError"
  by (rule validator_raises_on_empty_route [of "tp_found ''A'' []"]) simp_all

end
