(* ===== verification/Route_Executor.thy ===== *)
theory Route_Executor
  imports Planning Simulator
begin

text \<open>
  Driving one robot along one route (\<open>execution/route_executor.py\<close>,
  \<open>execution/execution_result.py\<close>). Every step goes through the simulator's validated move;
  the run stops at the first refusal and reports the prefix that was driven. What
  \<open>isinstance\<close> and \<open>TypeError\<close> checks reject is excluded by the types here.
\<close>

section \<open>The executor\<close>

datatype route = Route_Result path_result | Route_Cells "position list"

datatype execution_reason =
    Planner_Failed "plan_reason option"
  | Route_Empty
  | Route_Not_Walkable nat position position
  | Route_Repeats
  | Robot_Is_Offline string
  | Route_Starts_Elsewhere position string position
  | Stopped_After nat position move_reason

record execution_result =
  er_success :: bool
  er_robot_id :: string
  er_start :: position
  er_goal :: position
  er_final_position :: position
  er_planned_steps :: nat
  er_executed_steps :: nat
  er_distance_travelled :: pyfloat
  er_battery_before :: pyfloat
  er_battery_after :: pyfloat
  er_completed_path :: "position list"
  er_failure_reason :: "execution_reason option"

definition er_completed ::
  "string \<Rightarrow> position \<Rightarrow> position \<Rightarrow> nat \<Rightarrow> nat \<Rightarrow> pyfloat \<Rightarrow> pyfloat \<Rightarrow> pyfloat \<Rightarrow> position list \<Rightarrow> execution_result" where
  "er_completed rid start goal planned executed distance before after path =
     \<lparr>er_success = True, er_robot_id = rid, er_start = start, er_goal = goal, er_final_position = goal,
      er_planned_steps = planned, er_executed_steps = executed, er_distance_travelled = distance,
      er_battery_before = before, er_battery_after = after, er_completed_path = path,
      er_failure_reason = None\<rparr>"

definition er_failed ::
  "string \<Rightarrow> position \<Rightarrow> position \<Rightarrow> position \<Rightarrow> nat \<Rightarrow> nat \<Rightarrow> pyfloat \<Rightarrow> pyfloat \<Rightarrow> pyfloat \<Rightarrow> position list \<Rightarrow>
     execution_reason \<Rightarrow> execution_result" where
  "er_failed rid start goal final planned executed distance before after path reason =
     \<lparr>er_success = False, er_robot_id = rid, er_start = start, er_goal = goal, er_final_position = final,
      er_planned_steps = planned, er_executed_steps = executed, er_distance_travelled = distance,
      er_battery_before = before, er_battery_after = after, er_completed_path = path,
      er_failure_reason = Some reason\<rparr>"

definition battery_consumed :: "execution_result \<Rightarrow> pyfloat" where
  "battery_consumed er = fl (er_battery_before er - er_battery_after er)"

definition reached_goal :: "execution_result \<Rightarrow> bool" where
  "reached_goal er \<longleftrightarrow> er_final_position er = er_goal er"

definition first_gap :: "position list \<Rightarrow> nat option" where
  "first_gap path = find (\<lambda>i. \<not> is_adjacent_to (path ! i) (path ! (i + 1))) [0..<length path - 1]"

definition resolve_path :: "route \<Rightarrow> execution_reason + position list" where
  "resolve_path route =
     (case (case route of
              Route_Result r \<Rightarrow> if \<not> pr_success r then Inl (Planner_Failed (pr_failure_reason r)) else Inr (pr_path r)
            | Route_Cells cells \<Rightarrow> Inr cells) of
        Inl reason \<Rightarrow> Inl reason
      | Inr path \<Rightarrow>
          if path = [] then Inl Route_Empty
          else case first_gap path of
            Some i \<Rightarrow> Inl (Route_Not_Walkable i (path ! i) (path ! (i + 1)))
          | None \<Rightarrow> if card (set path) \<noteq> length path then Inl Route_Repeats else Inr path)"

definition preflight :: "robot \<Rightarrow> position list \<Rightarrow> execution_reason option" where
  "preflight r path =
     (if robot_status r = R_OFFLINE then Some (Robot_Is_Offline (robot_id r))
      else if hd path \<noteq> robot_position r then Some (Route_Starts_Elsewhere (hd path) (robot_id r) (robot_position r))
      else None)"

text \<open>
  The stepping loop: the cells still to enter, the completed path and the simulator. It
  ends with the reason of the refused step, if any; an exception other than
  \<open>InvalidMoveError\<close> propagates.
\<close>

fun drive :: "string \<Rightarrow> position list \<Rightarrow> position list \<Rightarrow> simulator \<Rightarrow>
    (py_error + move_reason option) \<times> position list \<times> simulator" where
  "drive rid [] completed s = (Inr None, completed, s)"
| "drive rid (next_cell # cells) completed s =
     (case move_robot rid next_cell s of
        (Inl (InvalidMoveError reason), s') \<Rightarrow> (Inr (Some reason), completed, s')
      | (Inl e, s') \<Rightarrow> (Inl e, completed, s')
      | (Inr r, s') \<Rightarrow> drive rid cells (completed @ [robot_position r]) s')"

definition execute_route :: "string \<Rightarrow> route \<Rightarrow> simulator \<Rightarrow> (py_error + execution_result) \<times> simulator" where
  "execute_route rid route s =
     (case get_robot s rid of
        Inl e \<Rightarrow> (Inl e, s)
      | Inr r \<Rightarrow>
         (case resolve_path route of
            Inl reason \<Rightarrow>
              (Inr (er_failed rid (robot_position r) (robot_position r) (robot_position r) 0 0 0
                 (battery_level r) (battery_level r) [robot_position r] reason), s)
          | Inr path \<Rightarrow>
              let start = hd path; goal = last path; planned = length path - 1 in
              (case preflight r path of
                 Some reason \<Rightarrow>
                   (Inr (er_failed rid start goal (robot_position r) planned 0 0
                      (battery_level r) (battery_level r) [robot_position r] reason), s)
               | None \<Rightarrow>
                   if planned = 0
                   then (Inr (er_completed rid start goal 0 0 0 (battery_level r) (battery_level r) [start]), s)
                   else
                     (case drive rid (tl path) [start] s of
                        (Inl e, completed, s') \<Rightarrow> (Inl e, s')
                      | (Inr stop, completed, s') \<Rightarrow>
                          (case get_robot s' rid of
                             Inl e \<Rightarrow> (Inl e, s')
                           | Inr r' \<Rightarrow>
                              let distance = fl (distance_travelled r' - distance_travelled r);
                                  executed = length completed - 1 in
                              (case stop of
                                 Some reason \<Rightarrow>
                                   (Inr (er_failed rid start goal (robot_position r') planned executed distance
                                      (battery_level r) (battery_level r') completed
                                      (Stopped_After executed (robot_position r') reason)), s')
                               | None \<Rightarrow>
                                   (Inr (er_completed rid start goal planned executed distance
                                      (battery_level r) (battery_level r') completed), s')))))))"

section \<open>Resolving a route\<close>

lemma first_gap_None: "first_gap path = None \<longleftrightarrow> successively is_adjacent_to path"
  by (auto simp: first_gap_def find_None_iff successively_nth less_diff_conv)

lemma resolve_path_Inr:
  "resolve_path route = Inr path \<Longrightarrow> path \<noteq> [] \<and> successively is_adjacent_to path \<and> distinct path"
  by (auto simp: resolve_path_def first_gap_None card_distinct split: route.splits sum.splits if_splits option.splits)

lemma resolve_path_ok:
  "path \<noteq> [] \<Longrightarrow> successively is_adjacent_to path \<Longrightarrow> distinct path \<Longrightarrow> resolve_path (Route_Cells path) = Inr path"
  using first_gap_None [of path] by (simp add: resolve_path_def distinct_card)

section \<open>Driving\<close>

text \<open>
  The loop never raises for a registered robot. The robot ends on the last cell that it
  entered, nothing else of the world changes, and it stops early only at a refusal.
\<close>

definition only_robot :: "string \<Rightarrow> simulator \<Rightarrow> simulator \<Rightarrow> bool" where
  "only_robot rid s s' \<longleftrightarrow> sim_warehouse s' = sim_warehouse s \<and> sim_tasks s' = sim_tasks s \<and>
     (\<forall>i. i \<noteq> rid \<longrightarrow> dict_get (sim_robots s') i = dict_get (sim_robots s) i)"

lemma only_robot_refl [simp]: "only_robot rid s s"
  by (simp add: only_robot_def)

lemma only_robot_put [simp]: "only_robot rid s (put_robot rid r s)"
  by (simp add: only_robot_def)

lemma only_robot_trans: "only_robot rid a b \<Longrightarrow> only_robot rid b c \<Longrightarrow> only_robot rid a c"
  by (simp add: only_robot_def)

lemma drive_ok:
  assumes "sim_ok s" "dict_get (sim_robots s) rid = Some r"
  shows "\<exists>stop n s' r'. drive rid cells completed s = (Inr stop, completed @ take n cells, s') \<and>
    sim_ok s' \<and> only_robot rid s s' \<and> n \<le> length cells \<and> (stop = None \<longleftrightarrow> n = length cells) \<and>
    dict_get (sim_robots s') rid = Some r' \<and>
    robot_position r' = last (robot_position r # take n cells) \<and> steps_taken r' = steps_taken r + int n"
  using assms
proof (induction cells arbitrary: completed s r)
  case Nil
  then show ?case by (intro exI [of _ None] exI [of _ 0] exI [of _ s] exI [of _ r]) simp
next
  case (Cons c cells)
  have d: "dict_ok (sim_robots s)" using Cons.prems(1) by simp
  from d Cons.prems(2) show ?case
  proof (cases rule: move_robot_cases [of s rid r c])
    case (ok r1)
    let ?s = "put_robot rid r1 s"
    have s1: "sim_ok ?s" using move_robot_ok [OF Cons.prems(1), of rid c] ok(3) by simp
    have r1: "dict_get (sim_robots ?s) rid = Some r1" by simp
    note f = move_to_frame [OF ok(2)]
    obtain stop n s' r' where IH: "drive rid cells (completed @ [c]) ?s = (Inr stop, (completed @ [c]) @ take n cells, s')"
      "sim_ok s'" "only_robot rid ?s s'" "n \<le> length cells" "stop = None \<longleftrightarrow> n = length cells"
      "dict_get (sim_robots s') rid = Some r'" "robot_position r' = last (robot_position r1 # take n cells)"
      "steps_taken r' = steps_taken r1 + int n"
      using Cons.IH [OF s1 r1, of "completed @ [c]"] by blast
    have "only_robot rid s s'" using only_robot_trans [OF only_robot_put IH(3)] .
    then show ?thesis using IH ok(3) f
      by (intro exI [of _ stop] exI [of _ "Suc n"] exI [of _ s'] exI [of _ r']) simp
  next
    case (refused reason)
    let ?s = "put_robot rid (r\<lparr>last_error := Some reason\<rparr>) s"
    have "sim_ok ?s" using move_robot_ok [OF Cons.prems(1), of rid c] refused(2) by simp
    then show ?thesis using refused(2)
      by (intro exI [of _ "Some reason"] exI [of _ 0] exI [of _ ?s] exI [of _ "r\<lparr>last_error := Some reason\<rparr>"]) simp
  qed
qed

lemma drive_links:
  "sim_ok s \<Longrightarrow> links_ok s \<Longrightarrow> links_ok (snd (snd (drive rid cells completed s)))"
proof (induction cells arbitrary: completed s)
  case Nil
  then show ?case by simp
next
  case (Cons c cells)
  obtain res s1 where m: "move_robot rid c s = (res, s1)" by fastforce
  have "links_ok s1" "sim_ok s1"
    using move_robot_links [of s rid c] move_robot_ok [of s rid c] Cons.prems m by simp_all
  then show ?case using Cons.IH m by (auto split: sum.splits py_error.splits)
qed

section \<open>Executing a route\<close>

text \<open>What a run of \<open>execute\<close> did, in terms of the number of steps taken.\<close>

definition run_ok :: "string \<Rightarrow> simulator \<Rightarrow> simulator \<Rightarrow> position list \<Rightarrow> execution_result \<Rightarrow> bool" where
  "run_ok rid s s' path er \<longleftrightarrow>
     er_planned_steps er = length path - 1 \<and> er_executed_steps er \<le> er_planned_steps er \<and>
     er_completed_path er = take (er_executed_steps er + 1) path \<and>
     er_final_position er = path ! er_executed_steps er \<and>
     (er_success er \<longleftrightarrow> er_executed_steps er = er_planned_steps er) \<and>
     (\<exists>r'. dict_get (sim_robots s') rid = Some r' \<and> robot_position r' = er_final_position er)"

lemma execute_route_ok:
  assumes ok: "sim_ok s" and r: "dict_get (sim_robots s) rid = Some r"
  shows "\<exists>er s'. execute_route rid route s = (Inr er, s') \<and> sim_ok s' \<and> only_robot rid s s' \<and>
    (case resolve_path route of
       Inl reason \<Rightarrow> s' = s \<and> \<not> er_success er \<and> er_failure_reason er = Some reason
     | Inr path \<Rightarrow>
         (case preflight r path of
            Some reason \<Rightarrow> s' = s \<and> \<not> er_success er \<and> er_failure_reason er = Some reason
          | None \<Rightarrow> run_ok rid s s' path er))"
proof (cases "resolve_path route")
  case (Inl reason)
  then show ?thesis using r ok by (simp add: execute_route_def er_failed_def)
next
  case (Inr path)
  note P = resolve_path_Inr [OF Inr]
  show ?thesis
  proof (cases "preflight r path")
    case (Some reason)
    then show ?thesis using r ok Inr by (simp add: execute_route_def er_failed_def Let_def)
  next
    case None
    then have hd: "hd path = robot_position r" by (auto simp: preflight_def split: if_splits)
    have path: "path = robot_position r # tl path" using P hd by (cases path) auto
    show ?thesis
    proof (cases "length path - 1 = 0")
      case True
      then have "path = [robot_position r]" using path by (cases "tl path") auto
      then show ?thesis using r ok Inr None
        by (simp add: execute_route_def er_completed_def run_ok_def Let_def)
    next
      case False
      obtain stop n s' r' where D: "drive rid (tl path) [hd path] s = (Inr stop, [hd path] @ take n (tl path), s')"
        "sim_ok s'" "only_robot rid s s'" "n \<le> length (tl path)" "stop = None \<longleftrightarrow> n = length (tl path)"
        "dict_get (sim_robots s') rid = Some r'" "robot_position r' = last (robot_position r # take n (tl path))"
        using drive_ok [OF ok r, of "tl path" "[hd path]"] by blast
      have n: "n \<le> length path - 1" "stop = None \<longleftrightarrow> n = length path - 1" using D(4,5) by simp_all
      have tk: "[hd path] @ take n (tl path) = take (n + 1) path" using path by (metis append_Cons append_Nil hd take_Suc_Cons Suc_eq_plus1)
      have "n < length path" using P n(1) by (cases path) auto
      then have lt: "last (take (n + 1) path) = path ! n" by (simp add: take_Suc_conv_app_nth)
      have "robot_position r' = last ([hd path] @ take n (tl path))" using D(7) hd by simp
      then have pos: "robot_position r' = path ! n" unfolding tk lt .
      have len: "length (take (n + 1) path) - 1 = n" using n(1) by simp
      have goal: "last path = path ! (length path - 1)" using P by (simp add: last_conv_nth)
      show ?thesis
      proof (cases stop)
        case None': None
        have "execute_route rid route s = (Inr (er_completed rid (hd path) (last path) (length path - 1) n
            (fl (distance_travelled r' - distance_travelled r)) (battery_level r) (battery_level r') (take (n + 1) path)), s')"
          using r Inr None None' False D(1,6) tk len by (simp add: execute_route_def Let_def)
        then show ?thesis using D(2,3,6) Inr None n None' pos goal
          by (simp add: er_completed_def run_ok_def)
      next
        case (Some reason)
        have "execute_route rid route s = (Inr (er_failed rid (hd path) (last path) (robot_position r') (length path - 1) n
            (fl (distance_travelled r' - distance_travelled r)) (battery_level r) (battery_level r') (take (n + 1) path)
            (Stopped_After n (robot_position r') reason)), s')"
          using r Inr None Some False D(1,6) tk len by (simp add: execute_route_def Let_def)
        then show ?thesis using D(2,3,6) Inr None n Some pos
          by (simp add: er_failed_def run_ok_def)
      qed
    qed
  qed
qed

text \<open>
  When nothing stands in the way and the charge suffices, the whole route is driven. The
  battery and its drain are whole numbers here, as the defaults are, so that the arithmetic
  is exact.
\<close>

definition clear_cell :: "string \<Rightarrow> simulator \<Rightarrow> position \<Rightarrow> bool" where
  "clear_cell rid s c \<longleftrightarrow> in_bounds (sim_warehouse s) c \<and> \<not> is_blocked_by_static (sim_warehouse s) c \<and>
     \<not> is_blocked_by_dynamic (sim_warehouse s) c \<and>
     (\<forall>i q. dict_get (sim_robots s) i = Some q \<longrightarrow> i \<noteq> rid \<longrightarrow> robot_position q \<noteq> c)"

lemma clear_cell_only: "only_robot rid s s' \<Longrightarrow> clear_cell rid s' c = clear_cell rid s c"
  unfolding clear_cell_def only_robot_def by metis

lemma drive_full:
  assumes "sim_ok s" "dict_get (sim_robots s) rid = Some r" "robot_status r \<noteq> R_OFFLINE"
    and "successively is_adjacent_to (robot_position r # cells)" "\<forall>c \<in> set cells. clear_cell rid s c"
    and "battery_level r = of_int b" "battery_drain_per_move r = of_int d" "int (length cells) * d \<le> b"
  shows "\<exists>s'. drive rid cells completed s = (Inr None, completed @ cells, s')"
  using assms
proof (induction cells arbitrary: completed s r b)
  case Nil
  then show ?case by simp
next
  case (Cons c cells)
  have core: "robot_core_ok r" using sim_ok_robotD [OF Cons.prems(1,2)] by blast
  have "0 \<le> (of_int d :: rat)" "(of_int b :: rat) \<le> 100"
    using core Cons.prems(6,7) by (simp_all add: robot_core_ok_def MAX_BATTERY_def)
  then have d: "0 \<le> d" and b: "b \<le> 100" by linarith+
  have bd: "d + int (length cells) * d \<le> b" using Cons.prems(8) by (simp add: algebra_simps)
  moreover have "0 \<le> int (length cells) * d" using d by simp
  ultimately have db: "d \<le> b" by linarith
  have clr: "clear_cell rid s c" and adj: "is_adjacent_to (robot_position r) c"
    using Cons.prems(4,5) by (cases cells; simp)+
  have "robot_at s c = None"
    unfolding robot_at_None [OF sim_ok_dicts(1) [OF Cons.prems(1)]]
  proof (intro allI impI)
    fix i q assume q: "dict_get (sim_robots s) i = Some q"
    show "robot_position q \<noteq> c"
      using q clr adj Cons.prems(2) by (cases "i = rid") (auto simp: clear_cell_def)
  qed
  then have v: "validate_move rid c s = Inr None"
    unfolding validate_move_None [OF sim_ok_dicts(1) [OF Cons.prems(1)] Cons.prems(2)]
    using Cons.prems(3,6,7) clr adj db by (simp add: clear_cell_def has_battery_for_move_def)
  from sim_ok_dicts(1) [OF Cons.prems(1)] Cons.prems(2) show ?case
  proof (cases rule: move_robot_cases [of s rid r c])
    case (ok r1)
    let ?s = "put_robot rid r1 s"
    note m = move_to_Inr [OF core ok(2)]
    have "fl (of_int b - of_int d) = (of_int (b - d) :: rat)"
      using fl_of_int [of "b - d"] d b db by simp
    then have bat: "battery_level r1 = of_int (b - d)" "battery_drain_per_move r1 = of_int d"
      using m(3) Cons.prems(6,7) by simp_all
    have "sim_ok ?s" using move_robot_ok [OF Cons.prems(1), of rid c] ok(3) by simp
    moreover have "robot_status r1 \<noteq> R_OFFLINE" "robot_position r1 = c" using move_to_frame [OF ok(2)] by simp_all
    moreover have "\<forall>c \<in> set cells. clear_cell rid ?s c"
      using Cons.prems(5) clear_cell_only [OF only_robot_put] by simp
    moreover have "int (length cells) * d \<le> b - d" using bd by simp
    moreover have "successively is_adjacent_to (c # cells)" using Cons.prems(4) by simp
    ultimately obtain s' where "drive rid cells (completed @ [c]) ?s = (Inr None, (completed @ [c]) @ cells, s')"
      using Cons.IH [of ?s r1 "b - d" "completed @ [c]"] bat by auto
    then show ?thesis using ok(3) \<open>robot_position r1 = c\<close> by simp
  next
    case (refused reason)
    then show ?thesis using v by simp
  qed
qed

end
