(* ===== verification/Dijkstra.thy ===== *)
theory Dijkstra
  imports Astar Fixtures
begin

text \<open>
  The Dijkstra planner of \<open>planning/dijkstra.py\<close>, with its own \<open>(cost, insertion_order,
  node)\<close> frontier, and the simulation that shows it to be A* under the zero heuristic:
  adding a zero second component to every key turns one run into the other, step by step.
\<close>

section \<open>The planner\<close>

record dijkstra_search =
  best_cost :: "position \<rightharpoonup> int"
  dj_came_from :: "position \<rightharpoonup> position"
  dj_finalized :: "position set"
  dj_frontier :: "((int \<times> nat) \<times> position) list"
  dj_tie_breaker :: nat
  dj_expanded :: nat

definition dijkstra_init :: "position \<Rightarrow> dijkstra_search" where
  "dijkstra_init start = \<lparr>best_cost = [start \<mapsto> 0], dj_came_from = Map.empty, dj_finalized = {},
     dj_frontier = [((0, 0), start)], dj_tie_breaker = 1, dj_expanded = 0\<rparr>"

definition dijkstra_relax :: "position \<Rightarrow> int \<Rightarrow> position \<Rightarrow> dijkstra_search \<Rightarrow> dijkstra_search" where
  "dijkstra_relax current current_cost neighbour st =
     (if neighbour \<in> dj_finalized st then st
      else let new_cost = current_cost + MOVE_COST in
        if improves new_cost (best_cost st neighbour)
        then st\<lparr>best_cost := (best_cost st)(neighbour \<mapsto> new_cost),
                dj_came_from := (dj_came_from st)(neighbour \<mapsto> current),
                dj_frontier := heappush ((new_cost, dj_tie_breaker st), neighbour) (dj_frontier st),
                dj_tie_breaker := dj_tie_breaker st + 1\<rparr>
        else st)"

lemma dijkstra_relax_finalized [simp]: "dj_finalized (dijkstra_relax current c nb st) = dj_finalized st"
  by (simp add: dijkstra_relax_def Let_def)

lemma fold_dijkstra_relax_finalized [simp]:
  "dj_finalized (fold (dijkstra_relax current c) ns st) = dj_finalized st"
  by (induction ns arbitrary: st) simp_all

function dijkstra_loop ::
  "position \<Rightarrow> position \<Rightarrow> warehouse \<Rightarrow> dijkstra_search \<Rightarrow> py_error + path_result" where
  "dijkstra_loop start goal w st =
     (case heappop (dj_frontier st) of
        None \<Rightarrow> Inr (path_not_found ''dijkstra'' start goal (No_Route start goal) (dj_expanded st))
      | Some ((key, current), rest) \<Rightarrow>
          if current \<in> dj_finalized st then dijkstra_loop start goal w (st\<lparr>dj_frontier := rest\<rparr>)
          else
            let st1 = st\<lparr>dj_finalized := insert current (dj_finalized st), dj_frontier := rest,
                         dj_expanded := dj_expanded st + 1\<rparr> in
            if current = goal then
              res_bind (reconstruct_path (dj_came_from st1) start goal) (\<lambda>path.
                Inr (path_found ''dijkstra'' start goal path (dj_expanded st1)))
            else case best_cost st1 current of
              None \<Rightarrow> Inl KeyError
            | Some current_cost \<Rightarrow>
                res_bind (neighbors w current) (\<lambda>ns.
                  dijkstra_loop start goal w (fold (dijkstra_relax current current_cost) ns st1)))"
  by pat_completeness auto

termination
proof (relation "inv_image (less_than <*lex*> less_than)
    (\<lambda>(start, goal, w, st). (open_cells w (dj_finalized st), length (dj_frontier st)))")
qed (auto simp: open_cells_less dest: heappop_length)

declare dijkstra_loop.simps [simp del]

definition dijkstra_plan :: "position \<Rightarrow> position \<Rightarrow> warehouse \<Rightarrow> py_error + path_result" where
  "dijkstra_plan start goal w =
     res_bind (check_planning_request start goal w) (\<lambda>rejection.
       case rejection of
         Some reason \<Rightarrow> Inr (path_not_found ''dijkstra'' start goal reason 0)
       | None \<Rightarrow>
           if start = goal then Inr (path_found ''dijkstra'' start goal [start] 0)
           else dijkstra_loop start goal w (dijkstra_init start))"

section \<open>Dijkstra is A* with the zero heuristic\<close>

definition add_zero_key :: "(int \<times> nat) \<times> position \<Rightarrow> (int \<times> int \<times> nat) \<times> position" where
  "add_zero_key e = ((fst (fst e), 0, snd (fst e)), snd e)"

definition as_astar :: "dijkstra_search \<Rightarrow> position search" where
  "as_astar st = \<lparr>best_g = best_cost st, came_from = dj_came_from st, finalized = dj_finalized st,
     frontier = map add_zero_key (dj_frontier st), tie_breaker = dj_tie_breaker st,
     expanded = dj_expanded st\<rparr>"

lemma add_zero_key_le: "fst (add_zero_key a) \<le> fst (add_zero_key b) \<longleftrightarrow> fst a \<le> fst b"
  by (simp add: add_zero_key_def less_eq_prod_def)

lemma heappop_add_zero_key:
  "heappop (map add_zero_key q) = map_option (map_prod add_zero_key (map add_zero_key)) (heappop q)"
  by (induction q) (auto simp: add_zero_key_le split: option.splits)

lemma as_astar_sel [simp]:
  "best_g (as_astar st) = best_cost st" "came_from (as_astar st) = dj_came_from st"
  "finalized (as_astar st) = dj_finalized st" "expanded (as_astar st) = dj_expanded st"
  "frontier (as_astar st) = map add_zero_key (dj_frontier st)"
  by (simp_all add: as_astar_def)

lemma as_astar_pop:
  "as_astar (st\<lparr>dj_frontier := q\<rparr>) = as_astar st\<lparr>frontier := map add_zero_key q\<rparr>"
  by (simp add: as_astar_def)

lemma as_astar_close:
  "as_astar (st\<lparr>dj_finalized := D, dj_frontier := q, dj_expanded := n\<rparr>) =
     as_astar st\<lparr>frontier := map add_zero_key q, finalized := D, expanded := n\<rparr>"
  by (simp add: as_astar_def)

lemma as_astar_init: "as_astar (dijkstra_init start) = search_init start (zero_heuristic start goal)"
  by (simp add: as_astar_def dijkstra_init_def search_init_def add_zero_key_def zero_heuristic_def)

lemma as_astar_relax:
  "as_astar (dijkstra_relax current c nb st) = astar_relax zero_heuristic goal current c nb (as_astar st)"
  by (simp add: dijkstra_relax_def astar_relax_def relax_def as_astar_def heappush_def add_zero_key_def
      zero_heuristic_def Let_def)

lemma as_astar_fold:
  "as_astar (fold (dijkstra_relax current c) ns st) =
     fold (astar_relax zero_heuristic goal current c) ns (as_astar st)"
  by (induction ns arbitrary: st) (simp_all add: as_astar_relax [where goal = goal])

definition rename_algorithm :: "string \<Rightarrow> path_result \<Rightarrow> path_result" where
  "rename_algorithm a r = r\<lparr>pr_algorithm := a\<rparr>"

lemma rename_algorithm_simps [simp]:
  "rename_algorithm a (path_found b s g p n) = path_found a s g p n"
  "rename_algorithm a (path_not_found b s g r n) = path_not_found a s g r n"
  by (simp_all add: rename_algorithm_def path_found_def path_not_found_def)

lemma map_sum_res_bind: "map_sum id f (res_bind r g) = res_bind r (\<lambda>v. map_sum id f (g v))"
  by (cases r) simp_all

lemmas map_sum_bind = map_sum_res_bind [unfolded id_def]

lemma dijkstra_loop_astar:
  "dijkstra_loop start goal w st =
     map_sum id (rename_algorithm ''dijkstra'') (astar_loop zero_heuristic start goal w (as_astar st))"
proof (induction start goal w st rule: dijkstra_loop.induct)
  case (1 start goal w st)
  note unfold = astar_loop.simps [of _ _ _ _ "as_astar st"] dijkstra_loop.simps [of _ _ _ st]
  show ?case
  proof (cases "heappop (dj_frontier st)")
    case None
    then show ?thesis by (simp add: unfold heappop_add_zero_key)
  next
    case (Some r)
    obtain c i current rest where r: "r = (((c, i), current), rest)" by (cases r) auto
    note pop = Some [unfolded r]
    have pop': "heappop (map add_zero_key (dj_frontier st)) = Some (((c, 0, i), current), map add_zero_key rest)"
      using pop by (simp add: heappop_add_zero_key) (simp add: add_zero_key_def)
    show ?thesis
    proof (cases "current \<in> dj_finalized st")
      case True
      show ?thesis using 1(1) [OF pop refl refl True] pop pop' True by (simp add: unfold as_astar_pop)
    next
      case False
      note IH = 1(2) [OF pop refl refl False refl]
      show ?thesis
      proof (cases "current = goal")
        case True
        then show ?thesis using pop pop' False
          by (simp add: unfold Let_def map_sum_bind id_def)
      next
        case ng: False
        show ?thesis
        proof (cases "best_cost st current")
          case None
          then show ?thesis using pop pop' False ng by (simp add: unfold Let_def)
        next
          case (Some g)
          show ?thesis
          proof (cases "neighbors w current")
            case (Inl e)
            then show ?thesis using pop pop' False ng Some by (simp add: unfold Let_def)
          next
            case (Inr ns)
            from IH [OF ng _ Inr, of g] Some
            show ?thesis using pop pop' False ng Inr
              by (simp add: unfold Let_def as_astar_fold [where goal = goal] as_astar_close)
          qed
        qed
      qed
    qed
  qed
qed

lemma dijkstra_plan_astar:
  "dijkstra_plan start goal w = map_sum id (rename_algorithm ''dijkstra'') (astar_plan start goal w zero_heuristic)"
  by (simp add: dijkstra_plan_def astar_plan_def dijkstra_loop_astar as_astar_init [where goal = goal] res_bind_def
      split: sum.splits option.splits)

lemma plan_spec_rename:
  assumes "plan_spec a w start goal r"
  shows "plan_spec b w start goal (map_sum id (rename_algorithm b) r)"
proof (cases "is_traversable w start \<and> is_traversable w goal \<and> (\<exists>path. is_route w start goal path)")
  case True
  then obtain path n where "r = Inr (path_found a start goal path n)" "is_route w start goal path"
    "distinct path" "\<forall>other. is_route w start goal other \<longrightarrow> length path \<le> length other"
    using assms is_traversable_in_bounds by (auto simp: plan_spec_def split: if_splits)
  then show ?thesis using True is_traversable_in_bounds by (fastforce simp: plan_spec_def)
next
  case False
  then show ?thesis using assms by (auto simp: plan_spec_def split: if_splits)
qed

lemma dijkstra_plan_refines: "plan_spec ''dijkstra'' w start goal (dijkstra_plan start goal w)"
  unfolding dijkstra_plan_astar by (rule plan_spec_rename) (rule zero_search.plan_refines)

lemma plan_spec_unique:
  assumes "plan_spec a w start goal r" "plan_spec b w start goal s"
  shows "map_sum id (\<lambda>r. (pr_success r, pr_total_cost r, pr_failure_reason r)) r =
         map_sum id (\<lambda>r. (pr_success r, pr_total_cost r, pr_failure_reason r)) s"
proof (cases "\<exists>path. is_route w start goal path")
  case True
  then obtain path where path: "is_route w start goal path" by blast
  obtain p n where p: "r = Inr (path_found a start goal p n)" "is_route w start goal p"
    "\<And>other. is_route w start goal other \<Longrightarrow> length p \<le> length other"
    by (rule plan_spec_route [OF assms(1) path]) blast
  obtain q m where q: "s = Inr (path_found b start goal q m)" "is_route w start goal q"
    "\<And>other. is_route w start goal other \<Longrightarrow> length q \<le> length other"
    by (rule plan_spec_route [OF assms(2) path]) blast
  have "length p = length q" using p(3) [OF q(2)] q(3) [OF p(2)] by simp
  then show ?thesis using p(1) q(1) by simp
next
  case False
  then show ?thesis using assms by (auto simp: plan_spec_def split: if_splits)
qed

section \<open>Properties of the two planners\<close>

text \<open>
  C2: A* with its default heuristic meets the contract of a planner on every request: it
  always returns; it raises exactly for cells outside the warehouse, reports a blocked end
  as such, and otherwise returns a shortest route without repeated cells when a route
  exists and "unreachable" when none does.
\<close>

theorem astar_meets_contract: "plan_spec ''astar'' w start goal (astar_plan start goal w manhattan_distance)"
  by (rule manhattan_search.plan_refines)

text \<open>
  C31: Dijkstra, with its own frontier of (cost, insertion order) keys, meets the same contract.
\<close>

theorem dijkstra_meets_contract: "plan_spec ''dijkstra'' w start goal (dijkstra_plan start goal w)"
  by (rule dijkstra_plan_refines)

text \<open>
  C32: Dijkstra is A* with the zero heuristic: the same exceptions, the same path cell for
  cell, the same cost, the same number of expanded nodes; only the algorithm's name differs.
\<close>

theorem dijkstra_is_astar_zero:
  "dijkstra_plan start goal w =
     map_sum id (\<lambda>r. r\<lparr>pr_algorithm := ''dijkstra''\<rparr>) (astar_plan start goal w zero_heuristic)"
  using dijkstra_plan_astar [of start goal w] by (simp add: rename_algorithm_def [abs_def])

text \<open>
  The two planners agree on every request on whether it succeeds, on the cost, and on
  the reason when it fails.
\<close>

theorem planners_agree:
  "map_sum id (\<lambda>r. (pr_success r, pr_total_cost r, pr_failure_reason r)) (astar_plan start goal w manhattan_distance) =
   map_sum id (\<lambda>r. (pr_success r, pr_total_cost r, pr_failure_reason r)) (dijkstra_plan start goal w)"
  by (rule plan_spec_unique) (rule manhattan_search.plan_refines dijkstra_plan_refines)+

text \<open>
  The independent path validator accepts every result of both planners, successful or not.
\<close>

theorem planner_results_validate:
  assumes "astar_plan start goal w manhattan_distance = Inr r \<or> dijkstra_plan start goal w = Inr r"
  shows "is_valid_path r w \<and> assert_valid_path r w = Inr ()"
proof -
  have "is_valid_path r w"
    using assms manhattan_search.plan_refines [of w start goal] dijkstra_plan_refines [of w start goal]
      plan_spec_valid by metis
  then show ?thesis by (simp add: is_valid_path_def assert_valid_path_def)
qed

lemma planner_results_validate_witness:
  "is_valid_path (path_found ''dijkstra'' (Position 0 0) (Position 0 2)
     [Position 0 0, Position 1 0, Position 1 1, Position 1 2, Position 0 2] 5) rack_floor"
proof -
  have "dijkstra_plan (Position 0 0) (Position 0 2) rack_floor =
    Inr (path_found ''dijkstra'' (Position 0 0) (Position 0 2)
     [Position 0 0, Position 1 0, Position 1 1, Position 1 2, Position 0 2] 5)"
    by code_simp
  then show ?thesis using planner_results_validate [of "Position 0 0" "Position 0 2" rack_floor] by blast
qed

text \<open>
  The validator is exact. It accepts a result if and only if it is either a successful
  one whose path is a route of adjacent traversable cells from the requested start to the
  requested goal, without repetition and with the cost of its moves, or an unsuccessful one
  with no path, no cost and a reason.
\<close>

theorem validator_exact:
  "is_valid_path r w \<longleftrightarrow>
     (if pr_success r
      then is_route w (pr_start r) (pr_goal r) (pr_path r) \<and> distinct (pr_path r)
        \<and> pr_total_cost r = Some (int (length (pr_path r)) - 1)
      else pr_path r = [] \<and> pr_total_cost r = None \<and> pr_failure_reason r \<noteq> None)"
  using is_valid_path_success is_valid_path_failure by simp

end
