(* ===== verification/Fleet_Properties.thy ===== *)
theory Fleet_Properties
  imports Route_Executor Dijkstra Fixtures
begin

text \<open>
  What the single-robot part of the program promises: the simulator's state stays consistent
  whatever is called, tasks follow their lifecycle, moves keep battery and odometer within
  bounds, a planned route can be driven, and the cases where the code falls short of that.
\<close>

section \<open>Fixtures\<close>

lemma rack_floor_facts: "warehouse_ok rack_floor" "static_exclusive rack_floor"
proof -
  show "static_exclusive rack_floor"
    by (auto simp: static_exclusive_def rack_floor_def is_blocked_by_static_def)
  show "warehouse_ok rack_floor"
    by (auto simp: inv_defs rack_floor_def is_blocked_by_static_def in_bounds_def grid_in_bounds_def dict_ok_def)
qed

definition rack_sim :: simulator where
  "rack_sim = put_robot ''R1'' (robot_default ''R1'' (Position 0 0)) (sim_init rack_floor)"

lemma rack_sim_reachable: "sim_reachable rack_floor rack_sim"
proof -
  have "add_robot (robot_default ''R1'' (Position 0 0)) (sim_init rack_floor) = Inr rack_sim" by code_simp
  moreover have "robot_core_ok (robot_default ''R1'' (Position 0 0))"
    "assigned_task_id (robot_default ''R1'' (Position 0 0)) = None"
    using robot_default_ok [of "''R1''" "Position 0 0"] by (simp_all add: robot_ok_def robot_default_def)
  ultimately show ?thesis by (intro reach_step [OF reach_init step_add_robot])
qed

lemma rack_sim_ok: "sim_ok rack_sim" "links_ok rack_sim"
  using sim_reachable_ok [OF rack_sim_reachable rack_floor_facts(1)] by simp_all

lemma rack_sim_sel [simp]: "sim_warehouse rack_sim = rack_floor"
  "dict_get (sim_robots rack_sim) i = (if i = ''R1'' then Some (robot_default ''R1'' (Position 0 0)) else None)"
  by (simp_all add: rack_sim_def sim_init_def)

section \<open>The simulator\<close>

text \<open>When a robot may move to a cell, said without the order of the checks.\<close>

definition move_allowed :: "simulator \<Rightarrow> robot \<Rightarrow> position \<Rightarrow> bool" where
  "move_allowed s r dest \<longleftrightarrow> robot_status r \<noteq> R_OFFLINE \<and> in_bounds (sim_warehouse s) dest \<and>
     is_adjacent_to (robot_position r) dest \<and> \<not> is_blocked_by_static (sim_warehouse s) dest \<and>
     \<not> is_blocked_by_dynamic (sim_warehouse s) dest \<and> robot_at s dest = None \<and> has_battery_for_move r"

text \<open>
  C9: In every simulation that can be reached through the simulator's operations, refused
  calls included, two robots never share a cell, no robot stands on a blocked cell or outside
  the floor, every battery is between 0 and 100 percent, and every entry is filed under its
  own id.
\<close>

theorem simulator_never_collides:
  assumes "sim_reachable w s" "warehouse_ok w"
  shows "(\<forall>i j r q. dict_get (sim_robots s) i = Some r \<longrightarrow> dict_get (sim_robots s) j = Some q \<longrightarrow>
      robot_position r = robot_position q \<longrightarrow> i = j) \<and>
    (\<forall>i r. dict_get (sim_robots s) i = Some r \<longrightarrow> robot_id r = i \<and>
      is_traversable (sim_warehouse s) (robot_position r) \<and> 0 \<le> battery_level r \<and> battery_level r \<le> 100) \<and>
    (\<forall>i t. dict_get (sim_tasks s) i = Some t \<longrightarrow> task_id t = i)"
proof -
  have s: "sim_ok s" using sim_reachable_ok [OF assms] by simp
  show ?thesis
    using robots_ok_inj [OF sim_ok_robots [OF s]] sim_ok_robotD [OF s] sim_ok_taskD [OF s]
    unfolding robot_core_ok_def MIN_BATTERY_def MAX_BATTERY_def by blast
qed

lemma simulator_never_collides_witness:
  "is_traversable (sim_warehouse rack_sim) (Position 0 0)"
proof -
  note all = simulator_never_collides [OF rack_sim_reachable rack_floor_facts(1)]
  have "dict_get (sim_robots rack_sim) ''R1'' = Some (robot_default ''R1'' (Position 0 0))" by simp
  with all [THEN conjunct2, THEN conjunct1] have "is_traversable (sim_warehouse rack_sim)
      (robot_position (robot_default ''R1'' (Position 0 0)))" by blast
  then show ?thesis by (simp add: robot_default_def)
qed

text \<open>
  C34: In every simulation that robots and tasks have entered without an assignment, and in which
  tasks have since been assigned, started and closed, robots moved, charged and removed, and
  obstacles come and gone, the assignment links agree in both directions: a robot's
  task is registered, live and assigned to that robot, and a live task's robot is registered
  and holds that task.
\<close>

theorem assignments_agree:
  assumes "sim_reachable w s" "warehouse_ok w"
  shows "(\<forall>i r tid. dict_get (sim_robots s) i = Some r \<longrightarrow> assigned_task_id r = Some tid \<longrightarrow>
      (\<exists>t. dict_get (sim_tasks s) tid = Some t \<and> assigned_robot_id t = Some i \<and>
           task_status t \<in> {T_ASSIGNED, T_IN_PROGRESS})) \<and>
    (\<forall>tid t. dict_get (sim_tasks s) tid = Some t \<longrightarrow> task_status t \<in> {T_ASSIGNED, T_IN_PROGRESS} \<longrightarrow>
      (\<exists>i r. assigned_robot_id t = Some i \<and> dict_get (sim_robots s) i = Some r \<and> assigned_task_id r = Some tid))"
  using sim_reachable_ok [OF assms] unfolding links_ok_def by blast

text \<open>The robot on the rack floor, with a task it has been given and has started.\<close>

definition errand :: task where
  "errand = \<lparr>task_id = ''T1'', pickup_location = Position 1 1, dropoff_location = Position 0 2, priority = P_NORMAL,
     payload_weight = 2, task_status = T_PENDING, assigned_robot_id = None, failure_reason = None\<rparr>"

definition busy_sim :: simulator where
  "busy_sim = put_task ''T1'' (errand\<lparr>task_status := T_IN_PROGRESS, assigned_robot_id := Some ''R1''\<rparr>)
     (put_robot ''R1'' ((robot_default ''R1'' (Position 0 0))\<lparr>assigned_task_id := Some ''T1'', robot_status := R_ASSIGNED\<rparr>) rack_sim)"

lemma busy_sim_reachable: "sim_reachable rack_floor busy_sim"
proof -
  let ?given = "errand\<lparr>task_status := T_ASSIGNED, assigned_robot_id := Some ''R1''\<rparr>"
  let ?s1 = "put_task ''T1'' errand rack_sim"
  let ?s2 = "put_task ''T1'' ?given
     (put_robot ''R1'' ((robot_default ''R1'' (Position 0 0))\<lparr>assigned_task_id := Some ''T1'', robot_status := R_ASSIGNED\<rparr>) ?s1)"
  have "add_task errand rack_sim = Inr ?s1" by code_simp
  then have "sim_reachable rack_floor ?s1"
    by (intro reach_step [OF rack_sim_reachable step_add_task]) (simp_all add: errand_def task_ok_def)
  moreover have "assign_task_manually ''T1'' ''R1'' ?s1 = Inr ?s2" by code_simp
  ultimately have "sim_reachable rack_floor ?s2" by (rule reach_step [OF _ step_assign_task])
  moreover have "dict_get (sim_tasks ?s2) ''T1'' = Some ?given" by simp
  moreover have "start_task ?given = Inr (errand\<lparr>task_status := T_IN_PROGRESS, assigned_robot_id := Some ''R1''\<rparr>)" by code_simp
  ultimately have "sim_reachable rack_floor (put_task ''T1'' (errand\<lparr>task_status := T_IN_PROGRESS, assigned_robot_id := Some ''R1''\<rparr>) ?s2)"
    by (rule reach_step [OF _ step_start_task])
  moreover have "put_task ''T1'' (errand\<lparr>task_status := T_IN_PROGRESS, assigned_robot_id := Some ''R1''\<rparr>) ?s2 = busy_sim" by code_simp
  ultimately show ?thesis by simp
qed

lemma assignments_agree_witness:
  "\<exists>t r. dict_get (sim_tasks busy_sim) ''T1'' = Some t \<and> task_status t = T_IN_PROGRESS \<and> assigned_robot_id t = Some ''R1'' \<and>
     dict_get (sim_robots busy_sim) ''R1'' = Some r \<and> assigned_task_id r = Some ''T1''"
proof -
  obtain t where t: "dict_get (sim_tasks busy_sim) ''T1'' = Some t" "task_status t = T_IN_PROGRESS" "assigned_robot_id t = Some ''R1''"
    by (simp add: busy_sim_def)
  with assignments_agree [OF busy_sim_reachable rack_floor_facts(1), THEN conjunct2]
  obtain i r where "assigned_robot_id t = Some i" "dict_get (sim_robots busy_sim) i = Some r" "assigned_task_id r = Some ''T1''" by blast
  with t show ?thesis by simp
qed

text \<open>
  A move either commits or is refused. It is refused exactly when the robot is offline,
  the cell is outside, not one step away, blocked or occupied, or the charge does not
  suffice; then only the robot's \<open>last_error\<close> changes. Otherwise the robot is on the cell,
  one step and one unit of distance further, with the drain taken from a battery that stays
  between zero and its old level.
\<close>

theorem move_robot_outcome:
  assumes "sim_ok s" "dict_get (sim_robots s) rid = Some r"
  shows "if move_allowed s r dest
    then \<exists>r'. move_robot rid dest s = (Inr r', put_robot rid r' s) \<and> robot_position r' = dest \<and>
        steps_taken r' = steps_taken r + 1 \<and> distance_travelled r' = fl (distance_travelled r + 1) \<and>
        battery_level r' = fl (battery_level r - battery_drain_per_move r) \<and>
        0 \<le> battery_level r' \<and> battery_level r' \<le> battery_level r
    else \<exists>reason. move_robot rid dest s =
        (Inl (InvalidMoveError reason), put_robot rid (r\<lparr>last_error := Some reason\<rparr>) s)"
proof -
  have d: "dict_ok (sim_robots s)" and core: "robot_core_ok r" using assms sim_ok_robotD by auto
  have v: "validate_move rid dest s = Inr None \<longleftrightarrow> move_allowed s r dest"
    unfolding validate_move_None [OF d assms(2)] move_allowed_def ..
  from d assms(2) show ?thesis
  proof (cases rule: move_robot_cases [of s rid r dest])
    case (ok r')
    note m = move_to_Inr [OF core ok(2)] and f = move_to_frame [OF ok(2)]
    have "battery_level r' = fl (battery_level r - battery_drain_per_move r)" unfolding m(3) by simp
    moreover have "0 \<le> battery_level r'" using m(2) unfolding m(3) by simp
    moreover have "battery_level r' \<le> battery_level r"
      using core unfolding m(3) by (auto simp: robot_core_ok_def intro!: fl_le_float)
    ultimately show ?thesis using ok f(2,8,9) v by simp
  next
    case (refused reason)
    then show ?thesis using v by simp
  qed
qed

lemma move_robot_outcome_witness:
  "\<exists>r'. move_robot ''R1'' (Position 1 0) rack_sim = (Inr r', put_robot ''R1'' r' rack_sim) \<and>
    robot_position r' = Position 1 0"
proof -
  have a: "move_allowed rack_sim (robot_default ''R1'' (Position 0 0)) (Position 1 0)" by code_simp
  have r: "dict_get (sim_robots rack_sim) ''R1'' = Some (robot_default ''R1'' (Position 0 0))" by simp
  from move_robot_outcome [OF rack_sim_ok(1) r, of "Position 1 0"] a show ?thesis by auto
qed

section \<open>Driving a route\<close>

lemma execute_route_links:
  assumes "sim_ok s" "links_ok s"
  shows "links_ok (snd (execute_route rid route s))"
proof -
  have "links_ok s'" if "drive rid cells completed s = (x, c, s')" for cells completed x c s'
    using drive_links [OF assms, of rid cells completed] that by simp
  then show ?thesis using assms(2) unfolding execute_route_def Let_def
    by (auto split: sum.split option.split prod.split)
qed

text \<open>
  C12: Executing a route never raises for a registered robot and keeps the simulation
  consistent; no other robot, no task and no obstacle changes. A route that is malformed, or
  that the robot is not at the start of, moves nothing and is reported; otherwise the robot
  drives a prefix of it, cell by cell, ends on the last cell it entered, and the result says
  success exactly when the prefix is the whole route.
\<close>

theorem execute_route_outcome:
  assumes "sim_ok s" "links_ok s" "dict_get (sim_robots s) rid = Some r"
  shows "\<exists>er s'. execute_route rid route s = (Inr er, s') \<and> sim_ok s' \<and> links_ok s' \<and> only_robot rid s s' \<and>
    (case resolve_path route of
       Inl reason \<Rightarrow> s' = s \<and> \<not> er_success er \<and> er_failure_reason er = Some reason
     | Inr path \<Rightarrow>
         (case preflight r path of
            Some reason \<Rightarrow> s' = s \<and> \<not> er_success er \<and> er_failure_reason er = Some reason
          | None \<Rightarrow> er_planned_steps er = length path - 1 \<and> er_executed_steps er \<le> er_planned_steps er \<and>
              er_completed_path er = take (er_executed_steps er + 1) path \<and>
              er_final_position er = path ! er_executed_steps er \<and>
              (er_success er \<longleftrightarrow> er_executed_steps er = er_planned_steps er) \<and>
              map_option robot_position (dict_get (sim_robots s') rid) = Some (er_final_position er)))"
proof -
  obtain er s' where e: "execute_route rid route s = (Inr er, s')" "sim_ok s'" "only_robot rid s s'"
    and c: "case resolve_path route of
       Inl reason \<Rightarrow> s' = s \<and> \<not> er_success er \<and> er_failure_reason er = Some reason
     | Inr path \<Rightarrow>
         (case preflight r path of
            Some reason \<Rightarrow> s' = s \<and> \<not> er_success er \<and> er_failure_reason er = Some reason
          | None \<Rightarrow> run_ok rid s s' path er)"
    using execute_route_ok [OF assms(1,3), of route] by blast
  have "links_ok s'" using execute_route_links [OF assms(1,2)] e(1) by (metis snd_conv)
  then show ?thesis using e c by (intro exI [of _ er] exI [of _ s'])
    (auto simp: run_ok_def split: sum.split option.split sum.split_asm option.split_asm)
qed

lemma execute_route_outcome_witness:
  "\<exists>er s'. execute_route ''R1'' (Route_Cells [Position 0 0, Position 1 0]) rack_sim = (Inr er, s') \<and> sim_ok s' \<and> links_ok s'"
proof -
  have "dict_get (sim_robots rack_sim) ''R1'' = Some (robot_default ''R1'' (Position 0 0))" by simp
  from execute_route_outcome [OF rack_sim_ok this, of "Route_Cells [Position 0 0, Position 1 0]"] show ?thesis
    by (elim exE conjE, intro exI conjI)
qed

text \<open>
  C11: Planning and driving compose. On a floor where no two static obstacles share a cell, a
  robot that is online and plans with A* to a reachable goal, with no other robot on the
  route and a whole-number battery that covers the drain of the route, drives the whole
  route: the run succeeds, in as many steps as the planner's cost, and ends on the goal.
\<close>

theorem planned_route_is_driven:
  assumes s: "sim_ok s" "static_exclusive (sim_warehouse s)"
    and r: "dict_get (sim_robots s) rid = Some r" "robot_status r \<noteq> R_OFFLINE"
    and p: "astar_plan (robot_position r) goal (sim_warehouse s) manhattan_distance = Inr res" "pr_success res"
    and free: "\<And>i q. dict_get (sim_robots s) i = Some q \<Longrightarrow> i \<noteq> rid \<Longrightarrow> robot_position q \<notin> set (pr_path res)"
    and bat: "battery_level r = of_int b" "battery_drain_per_move r = of_int d" "int (length (pr_path res) - 1) * d \<le> b"
  shows "\<exists>er s'. execute_route rid (Route_Result res) s = (Inr er, s') \<and> er_success er \<and>
    er_final_position er = goal \<and> pr_total_cost res = Some (int (er_executed_steps er)) \<and>
    map_option robot_position (dict_get (sim_robots s') rid) = Some goal"
proof -
  let ?w = "sim_warehouse s" and ?path = "pr_path res"
  have v: "is_valid_path res ?w" and st: "pr_start res = robot_position r" "pr_goal res = goal"
    using manhattan_search.plan_refines [of ?w "robot_position r" goal] p plan_spec_valid
    by (auto simp: plan_spec_def split: if_splits)
  then have P: "is_route ?w (robot_position r) goal ?path" "distinct ?path" "pr_total_cost res = Some (int (length ?path) - 1)"
    using is_valid_path_success [OF p(2)] by simp_all
  have path: "?path = robot_position r # tl ?path" using P(1) by (cases ?path) (auto simp: is_route_def)
  have clr: "\<forall>c \<in> set (tl ?path). clear_cell rid s c"
  proof
    fix c assume "c \<in> set (tl ?path)"
    then have c: "c \<in> set ?path" by (metis list.set_sel(2) tl_Nil)
    then have "is_traversable ?w c" using P(1) by (simp add: is_route_def)
    then show "clear_cell rid s c"
      using s(2) free c by (auto simp: clear_cell_def is_traversable_iff static_exclusive_def)
  qed
  have adj: "successively is_adjacent_to (robot_position r # tl ?path)"
    using P(1) path by (metis is_route_def)
  obtain s1 where D: "drive rid (tl ?path) [robot_position r] s = (Inr None, [robot_position r] @ tl ?path, s1)"
    using drive_full [OF s(1) r adj clr bat(1,2), of "[robot_position r]"] bat(3) by auto
  have res: "resolve_path (Route_Result res) = Inr ?path" "preflight r ?path = None"
  proof -
    have "first_gap ?path = None" using first_gap_None P(1) by (simp add: is_route_def)
    then show "resolve_path (Route_Result res) = Inr ?path"
      using p(2) P(1,2) by (simp add: resolve_path_def is_route_def distinct_card)
    show "preflight r ?path = None" using r(2) P(1) by (simp add: preflight_def is_route_def)
  qed
  obtain er s' where e: "execute_route rid (Route_Result res) s = (Inr er, s')" and ro: "run_ok rid s s' ?path er"
    using execute_route_ok [OF s(1) r(1), of "Route_Result res"] res by auto
  have "er_success er"
  proof (cases "length ?path - 1 = 0")
    case True
    then show ?thesis using ro by (simp add: run_ok_def)
  next
    case False
    have hd: "hd ?path = robot_position r" using P(1) by (simp add: is_route_def)
    obtain r' where r': "dict_get (sim_robots s1) rid = Some r'"
      using drive_ok [OF s(1) r(1), of "tl ?path" "[robot_position r]"] D by auto
    have "\<exists>a b c. execute_route rid (Route_Result res) s =
        (Inr (er_completed rid (robot_position r) (last ?path) (length ?path - 1) a b (battery_level r) (battery_level r') c), s1)"
      unfolding execute_route_def get_robot_eq [OF r(1)] get_robot_eq [OF r'] sum.case res option.case Let_def hd D prod.case
      using False by (simp, blast)
    then show ?thesis using e by (auto simp: er_completed_def)
  qed
  then have n: "er_executed_steps er = length ?path - 1" using ro by (simp add: run_ok_def)
  moreover have "?path \<noteq> []" "last ?path = goal" using P(1) by (simp_all add: is_route_def)
  ultimately have "er_final_position er = goal" "int (length ?path) - 1 = int (er_executed_steps er)"
    using ro by (simp_all add: run_ok_def last_conv_nth of_nat_diff Suc_leI)
  moreover have "map_option robot_position (dict_get (sim_robots s') rid) = Some (er_final_position er)"
    using ro by (auto simp: run_ok_def)
  ultimately show ?thesis using e \<open>er_success er\<close> P(3) by simp
qed

lemma planned_route_is_driven_witness:
  "\<exists>res er s'. astar_plan (Position 0 0) (Position 0 2) rack_floor manhattan_distance = Inr res \<and>
    execute_route ''R1'' (Route_Result res) rack_sim = (Inr er, s') \<and> er_success er \<and> er_final_position er = Position 0 2"
proof -
  let ?r = "robot_default ''R1'' (Position 0 0)"
  have "case astar_plan (Position 0 0) (Position 0 2) rack_floor manhattan_distance of Inl e \<Rightarrow> False
      | Inr res \<Rightarrow> pr_success res \<and> length (pr_path res) = 5" by code_simp
  then obtain res where p: "astar_plan (Position 0 0) (Position 0 2) rack_floor manhattan_distance = Inr res"
    "pr_success res" "length (pr_path res) = 5" unfolding case_res_ok by blast
  have "\<exists>er s'. execute_route ''R1'' (Route_Result res) rack_sim = (Inr er, s') \<and> er_success er \<and>
    er_final_position er = Position 0 2 \<and> pr_total_cost res = Some (int (er_executed_steps er)) \<and>
    map_option robot_position (dict_get (sim_robots s') ''R1'') = Some (Position 0 2)"
    by (rule planned_route_is_driven [where r = ?r and b = 100 and d = 1])
      (use p rack_sim_ok rack_floor_facts in \<open>simp_all add: robot_default_def MAX_BATTERY_def
        DEFAULT_BATTERY_DRAIN_PER_MOVE_def split: if_splits\<close>)
  then show ?thesis using p(1) by blast
qed

section \<open>Obstacles\<close>

text \<open>
  A temporary obstacle can be placed only inside, off static obstacles, off robots and
  under a fresh id; while it is there exactly its cell is lost to traffic, and removing it
  gives back the simulation as it was before, object for object.
\<close>

theorem dynamic_obstacle_roundtrip:
  assumes "sim_add_dynamic_obstacle i p desc s = Inr (ob, s')"
  shows "sim_remove_dynamic_obstacle i s' = Inr (ob, s) \<and>
    (\<forall>q. is_traversable (sim_warehouse s') q \<longleftrightarrow> is_traversable (sim_warehouse s) q \<and> q \<noteq> p) \<and>
    in_bounds (sim_warehouse s) p \<and> \<not> is_blocked_by_static (sim_warehouse s) p \<and> robot_at s p = None"
proof -
  obtain w' where a: "add_dynamic_obstacle i p desc (sim_warehouse s) = Inr (ob, w')"
    and s': "s' = s\<lparr>sim_warehouse := w'\<rparr>" and free: "robot_at s p = None"
    using assms by (auto simp: sim_add_dynamic_obstacle_def res_bind_Inr split: if_splits)
  note f = add_dynamic_obstacle_facts [OF a]
  have new: "dict_get (dynamic_registry (sim_warehouse s)) i = None"
    and w': "w' = (sim_warehouse s)\<lparr>dynamic_registry := dict_set i ob (dynamic_registry (sim_warehouse s))\<rparr>"
    using a by (auto simp: add_dynamic_obstacle_def res_bind_Inr require_unused_obstacle_id_def Let_def split: if_splits)
  show ?thesis
  proof (intro conjI allI)
    show "sim_remove_dynamic_obstacle i s' = Inr (ob, s)"
      using new by (simp add: sim_remove_dynamic_obstacle_def remove_dynamic_obstacle_def s' w' dict_del_set_new)
    show "is_traversable (sim_warehouse s') q \<longleftrightarrow> is_traversable (sim_warehouse s) q \<and> q \<noteq> p" for q
      using add_dynamic_traversable [OF a] by (simp add: s')
    show "in_bounds (sim_warehouse s) p" "\<not> is_blocked_by_static (sim_warehouse s) p" "robot_at s p = None"
      using a free by (auto simp: add_dynamic_obstacle_def res_bind_Inr split: if_splits)
  qed
qed

lemma dynamic_obstacle_roundtrip_witness:
  "\<exists>ob s'. sim_add_dynamic_obstacle ''d'' (Position 1 1) [] rack_sim = Inr (ob, s') \<and>
    sim_remove_dynamic_obstacle ''d'' s' = Inr (ob, rack_sim)"
proof -
  have "case sim_add_dynamic_obstacle ''d'' (Position 1 1) [] rack_sim of Inl e \<Rightarrow> False | Inr x \<Rightarrow> True" by code_simp
  then obtain ob s' where "sim_add_dynamic_obstacle ''d'' (Position 1 1) [] rack_sim = Inr (ob, s')"
    unfolding case_res_ok by auto
  with dynamic_obstacle_roundtrip [OF this] show ?thesis by blast
qed

text \<open>The floors that the warehouse's own operations can build.\<close>

inductive wh_reachable :: "warehouse \<Rightarrow> bool" where
  wh_init: "warehouse_init width height nm = Inr w \<Longrightarrow> wh_reachable w"
| wh_mark: "wh_reachable w \<Longrightarrow> mark_location p role w = Inr w' \<Longrightarrow> wh_reachable w'"
| wh_add_static: "wh_reachable w \<Longrightarrow> add_static_obstacle i p desc w = Inr (ob, w') \<Longrightarrow> wh_reachable w'"
| wh_remove_static: "wh_reachable w \<Longrightarrow> remove_static_obstacle i w = Inr (ob, w') \<Longrightarrow> wh_reachable w'"
| wh_add_dynamic: "wh_reachable w \<Longrightarrow> add_dynamic_obstacle i p desc w = Inr (ob, w') \<Longrightarrow> wh_reachable w'"
| wh_remove_dynamic: "wh_reachable w \<Longrightarrow> remove_dynamic_obstacle i w = Inr (ob, w') \<Longrightarrow> wh_reachable w'"

lemma wh_reachable_ok: "wh_reachable w \<Longrightarrow> warehouse_ok w"
proof (induction rule: wh_reachable.induct)
  case wh_init
  then show ?case using warehouse_init_ok by blast
next
  case wh_mark
  then show ?case by (metis mark_location_ok)
next
  case wh_add_static
  then show ?case by (metis add_static_obstacle_ok)
next
  case wh_remove_static
  then show ?case by (metis remove_static_obstacle_ok)
next
  case wh_add_dynamic
  then show ?case by (metis add_dynamic_obstacle_ok)
next
  case wh_remove_dynamic
  then show ?case by (metis remove_dynamic_obstacle_ok)
qed

text \<open>
  C36: Every floor that can be built is consistent: a cell that the grid blocks has a static
  obstacle, so a cell inside without any obstacle is free for the planners; a cell with a role is
  inside and never under a static obstacle, and the same id never names both a static and a
  dynamic obstacle.
\<close>

theorem floors_are_consistent:
  assumes "wh_reachable w"
  shows "(\<forall>p. p \<in> grid_blocked (warehouse_grid w) \<longrightarrow> is_blocked_by_static w p) \<and>
    (\<forall>p. in_bounds w p \<and> \<not> is_blocked_by_static w p \<and> \<not> is_blocked_by_dynamic w p \<longrightarrow> is_traversable w p) \<and>
    (\<forall>p role. dict_get (locations w) p = Some role \<longrightarrow> in_bounds w p \<and> \<not> is_blocked_by_static w p \<and> role \<noteq> AISLE) \<and>
    (\<forall>i. dict_get (static_registry w) i = None \<or> dict_get (dynamic_registry w) i = None)"
proof -
  have ok: "warehouse_ok w" by (rule wh_reachable_ok [OF assms])
  show ?thesis
  proof (intro conjI allI impI)
    fix p assume "p \<in> grid_blocked (warehouse_grid w)"
    then show "is_blocked_by_static w p" using ok by (simp add: warehouse_ok_def)
  next
    fix p assume "in_bounds w p \<and> \<not> is_blocked_by_static w p \<and> \<not> is_blocked_by_dynamic w p"
    then show "is_traversable w p" using not_static_traversable [OF ok] by blast
  next
    fix p role assume "dict_get (locations w) p = Some role"
    then have "(p, role) \<in> set (locations w)" by (rule map_of_SomeD)
    then show "in_bounds w p" "\<not> is_blocked_by_static w p" "role \<noteq> AISLE"
      using ok by (auto simp: warehouse_ok_def locations_ok_def)
  next
    fix i show "dict_get (static_registry w) i = None \<or> dict_get (dynamic_registry w) i = None"
      using ok unfolding warehouse_ok_def by simp
  qed
qed

text \<open>A floor with a rack, a charging station and a box on the station.\<close>

definition boxed_floor :: warehouse where
  "boxed_floor = rack_floor\<lparr>dynamic_registry := [(''box'', \<lparr>obstacle_id = ''box'', obstacle_position = Position 1 2,
     obstacle_type = DYNAMIC, obstacle_description = []\<rparr>)]\<rparr>"

lemma boxed_floor_reachable: "wh_reachable boxed_floor"
proof -
  obtain w1 w2 where w: "warehouse_init 3 2 ''racks'' = Inr w1" "mark_location (Position 1 2) CHARGING w1 = Inr w2"
    "map_sum id snd (add_static_obstacle ''rack1'' (Position 0 1) [] w2) = Inr rack_floor"
    using rack_floor_built by (auto simp: res_bind_Inr)
  then obtain ob where "add_static_obstacle ''rack1'' (Position 0 1) [] w2 = Inr (ob, rack_floor)"
    by (cases "add_static_obstacle ''rack1'' (Position 0 1) [] w2") auto
  with w have "wh_reachable rack_floor" by (blast intro: wh_init wh_mark wh_add_static)
  moreover have "map_sum id snd (add_dynamic_obstacle ''box'' (Position 1 2) [] rack_floor) = Inr boxed_floor" by code_simp
  then obtain ob' where "add_dynamic_obstacle ''box'' (Position 1 2) [] rack_floor = Inr (ob', boxed_floor)"
    by (cases "add_dynamic_obstacle ''box'' (Position 1 2) [] rack_floor") auto
  ultimately show ?thesis by (rule wh_add_dynamic)
qed

lemma floors_are_consistent_witness:
  "is_blocked_by_static boxed_floor (Position 0 1) \<and> \<not> is_blocked_by_static boxed_floor (Position 1 2) \<and>
   is_traversable boxed_floor (Position 1 1) \<and> dict_get (static_registry boxed_floor) ''box'' = None"
proof -
  note all = floors_are_consistent [OF boxed_floor_reachable]
  have "Position 0 1 \<in> grid_blocked (warehouse_grid boxed_floor)" by code_simp
  then have "is_blocked_by_static boxed_floor (Position 0 1)" using all by blast
  moreover have "dict_get (locations boxed_floor) (Position 1 2) = Some CHARGING" by code_simp
  then have "\<not> is_blocked_by_static boxed_floor (Position 1 2)" using all by blast
  moreover have "in_bounds boxed_floor (Position 1 1)" "\<not> is_blocked_by_static boxed_floor (Position 1 1)"
    "\<not> is_blocked_by_dynamic boxed_floor (Position 1 1)" by code_simp+
  then have "is_traversable boxed_floor (Position 1 1)" using all by blast
  moreover have "dict_get (dynamic_registry boxed_floor) ''box'' \<noteq> None" by code_simp
  then have "dict_get (static_registry boxed_floor) ''box'' = None" using all [THEN conjunct2, THEN conjunct2, THEN conjunct2, rule_format, of "''box''"] by auto
  ultimately show ?thesis by blast
qed

definition doubled_floor :: "py_error + warehouse" where
  "doubled_floor = res_bind (add_static_obstacle ''a'' (Position 0 1) [] floor22) (\<lambda>(oa, w1).
     res_bind (add_static_obstacle ''b'' (Position 0 1) [] w1) (\<lambda>(ob, w2).
       res_bind (remove_static_obstacle ''a'' w2) (\<lambda>(oc, w3). Inr w3)))"

text \<open>
  Two static obstacles may be registered on one cell. Removing one of them then frees the
  cell for the grid, and so for the planners, while the simulator still refuses to enter it
  because of the other: the two halves of the program disagree about the same cell, and the
  route that A* returns cannot be driven.
\<close>

theorem planner_and_simulator_disagree:
  "case doubled_floor of Inl e \<Rightarrow> False | Inr w \<Rightarrow>
     is_traversable w (Position 0 1) \<and> is_blocked_by_static w (Position 0 1) \<and>
     astar_plan (Position 0 0) (Position 0 1) w manhattan_distance =
       Inr (path_found ''astar'' (Position 0 0) (Position 0 1) [Position 0 0, Position 0 1] 2) \<and>
     fst (move_robot ''R'' (Position 0 1) (put_robot ''R'' (robot_default ''R'' (Position 0 0)) (sim_init w))) =
       Inl (InvalidMoveError (Reason_Static (Position 0 1)))"
  by code_simp

section \<open>Robots and tasks\<close>

text \<open>
  Recharging adds a non-negative amount, never beyond 100 percent, and touches nothing but
  the battery; a negative amount is refused.
\<close>

theorem recharge_bounds:
  assumes "robot_core_ok r"
  shows "case recharge amount r of
      Inl e \<Rightarrow> amount < 0 \<and> e = ValueError
    | Inr (added, r') \<Rightarrow> 0 \<le> amount \<and> 0 \<le> added \<and> battery_level r \<le> battery_level r' \<and> battery_level r' \<le> 100 \<and>
        r' = r\<lparr>battery_level := battery_level r'\<rparr>"
proof (cases "recharge amount r")
  case (Inl e)
  then show ?thesis by (auto simp: recharge_def Let_def split: if_splits)
next
  case (Inr x)
  obtain added r' where x: "x = (added, r')" by (cases x)
  note R = recharge_Inr [OF assms Inr [unfolded x]]
  have "0 \<le> amount" using Inr by (auto simp: recharge_def Let_def split: if_splits)
  moreover have "battery_level r' \<le> 100" using R(4) by (simp add: MAX_BATTERY_def)
  ultimately show ?thesis using Inr x R by simp
qed

lemma recharge_bounds_witness:
  "case recharge 30 (robot_default ''R'' (Position 0 0)) of Inl e \<Rightarrow> False | Inr (added, r') \<Rightarrow> battery_level r' \<le> 100"
proof -
  have "robot_core_ok (robot_default ''R'' (Position 0 0))" using robot_default_ok by (simp add: robot_ok_def)
  from recharge_bounds [OF this, of 30] show ?thesis by (auto split: sum.splits)
qed

text \<open>
  The simulator's \<open>charge_robot\<close> sets the status before it asks the robot to recharge:
  after a refused negative charge the exception is raised and the robot is left CHARGING.
\<close>

theorem refused_charge_leaves_charging:
  "case charge_robot ''R'' (- 1) (put_robot ''R'' (robot_default ''R'' (Position 1 2)) (sim_init rack_floor)) of
     (Inr a, s') \<Rightarrow> False
   | (Inl e, s') \<Rightarrow> e = ValueError \<and> map_option robot_status (dict_get (sim_robots s') ''R'') = Some R_CHARGING"
  by code_simp

text \<open>
  C37: A load that the robot accepts keeps the payload within the capacity, whenever the free
  capacity is a double (as for whole kilograms), and unloading empties the robot.
\<close>

theorem load_within_capacity:
  assumes "robot_ok r" "is_float (payload_capacity r - current_payload r)"
  shows "case load wt r of
      Inl e \<Rightarrow> wt < 0 \<or> payload_capacity r - current_payload r < wt
    | Inr r' \<Rightarrow> robot_ok r' \<and> current_payload r' = fl (current_payload r + wt) \<and> snd (unload r') = r'\<lparr>current_payload := 0\<rparr>"
proof (cases "load wt r")
  case (Inl e)
  then show ?thesis
    using assms(2) by (auto simp: load_def can_carry_def remaining_capacity_def is_float_def split: if_splits)
next
  case (Inr r')
  have "robot_core_ok r'" using assms(1) load_ok [OF _ Inr] by (simp add: robot_ok_def)
  moreover have "payload_ok r'" by (rule load_payload_ok [OF assms(1) Inr assms(2)])
  moreover have "current_payload r' = fl (current_payload r + wt)" using Inr by (auto simp: load_def split: if_splits)
  ultimately show ?thesis using Inr by (simp add: robot_ok_def unload_def)
qed

lemma load_within_capacity_witness:
  "case load 4 (robot_default ''R'' (Position 0 0)) of Inl e \<Rightarrow> False | Inr r' \<Rightarrow> robot_ok r'"
proof -
  have ok: "robot_ok (robot_default ''R'' (Position 0 0))" using robot_default_ok by simp
  have f: "is_float (payload_capacity (robot_default ''R'' (Position 0 0)) - current_payload (robot_default ''R'' (Position 0 0)))"
    by (simp add: robot_default_def is_float_numeral)
  from load_within_capacity [OF ok f, of 4] show ?thesis
    by (simp add: robot_default_def split: sum.split_asm sum.split)
qed

text \<open>
  Without that condition rounding breaks the bound: a robot of capacity \<open>2^52 + 3\<close> that
  carries 1.5 accepts a load of \<open>2^52 + 2\<close> and then carries more than its capacity.
\<close>

theorem load_rounding_overload:
  "let r = (robot_default ''R'' (Position 0 0))\<lparr>payload_capacity := 4503599627370499, current_payload := 3 / 2\<rparr>
   in robot_post_init r = Inr r \<and> can_carry r 4503599627370498 \<and>
     (case load 4503599627370498 r of Inl e \<Rightarrow> False | Inr r' \<Rightarrow> payload_capacity r' < current_payload r')"
  by code_simp

text \<open>
  Every change of a task that succeeds is one of the allowed transitions, leaves its id,
  endpoints, priority and weight alone and keeps it well-formed (an assigned or running task
  has a robot, a pending one has none); a completed or failed task never changes again.
\<close>

theorem task_lifecycle:
  assumes "task_step t t'" "task_ok t"
  shows "task_status t' \<in> allowed_transitions (task_status t) \<and> is_open t \<and> task_ok t' \<and>
    task_id t' = task_id t \<and> pickup_location t' = pickup_location t \<and> dropoff_location t' = dropoff_location t \<and>
    priority t' = priority t \<and> payload_weight t' = payload_weight t"
  using task_step_allowed [OF assms(1)] task_step_ok [OF assms] task_step_frame [OF assms(1)]
    closed_task_stuck [of t t'] assms(1) by blast

definition sample_task :: task where
  "sample_task = \<lparr>task_id = ''T1'', pickup_location = Position 0 0, dropoff_location = Position 1 1,
     priority = P_NORMAL, payload_weight = 2, task_status = T_PENDING, assigned_robot_id = None,
     failure_reason = None\<rparr>"

lemma task_lifecycle_witness: "\<exists>t'. assign_to ''R1'' sample_task = Inr t' \<and> task_ok t' \<and> task_id t' = ''T1''"
proof -
  have ok: "task_ok sample_task" by (simp add: sample_task_def task_ok_def)
  have a: "assign_to ''R1'' sample_task = Inr (sample_task\<lparr>task_status := T_ASSIGNED, assigned_robot_id := Some ''R1''\<rparr>)"
    by (simp add: assign_to_def transition_to_def sample_task_def)
  from task_lifecycle [OF step_assign [OF a] ok] a show ?thesis by (auto simp: sample_task_def)
qed

end
