(* ===== verification/Replanner.thy ===== *)
theory Replanner
  imports Coordinator
begin

text \<open>
  Disruptions and the repair of one route (\<open>recovery/disruption.py\<close>,
  \<open>recovery/dynamic_replanner.py\<close>): scheduled events, the reservations that the other robots
  still hold, the check of what is left of a route, and the splice of what was driven with what
  was replanned.
\<close>

section \<open>Disruptions\<close>

datatype disruption_type = DYNAMIC_OBSTACLE | ROBOT_OFFLINE

datatype recovery_trigger = Trigger_Dynamic_Obstacle | Trigger_Robot_Offline
  | Trigger_Route_Invalidated | Trigger_Reservation_Invalidated

text \<open>The two event classes.\<close>

datatype disruption =
    Obstacle_Event (event_timestep: int) (event_position: position) (event_obstacle_id: string)
  | Failure_Event (event_timestep: int) (event_robot_id: string)

fun event_kind :: "disruption \<Rightarrow> disruption_type" where
  "event_kind (Obstacle_Event _ _ _) = DYNAMIC_OBSTACLE"
| "event_kind (Failure_Event _ _) = ROBOT_OFFLINE"

definition resolved_obstacle_id :: "int \<Rightarrow> position \<Rightarrow> string \<Rightarrow> string" where
  "resolved_obstacle_id timestep p i =
     (if i \<noteq> [] then i
      else ''disruption-'' @ str_int (row p) @ ''-'' @ str_int (col p) @ ''-t'' @ str_int timestep)"

text \<open>
  The sort key of a schedule. Its third part is the robot id or the cell; two keys with the same
  second part have third parts of the same kind, so both can be kept side by side.
\<close>

fun event_key :: "disruption \<Rightarrow> int \<times> nat \<times> string \<times> int \<times> int" where
  "event_key (Failure_Event t rid) = (t, 0, rid, 0, 0)"
| "event_key (Obstacle_Event t p _) = (t, 1, [], row p, col p)"

type_synonym schedule = "disruption list"

definition schedule_of :: "disruption list \<Rightarrow> schedule" where
  "schedule_of events = sort_key event_key events"

definition schedule_add :: "disruption \<Rightarrow> schedule \<Rightarrow> schedule" where
  "schedule_add e events = sort_key event_key (events @ [e])"

definition events_at :: "schedule \<Rightarrow> int \<Rightarrow> disruption list" where
  "events_at events timestep = filter (\<lambda>e. event_timestep e = timestep) events"

definition last_timestep :: "schedule \<Rightarrow> int" where
  "last_timestep events = (if events = [] then 0 else Max (set (map event_timestep events)))"

definition event_counts :: "schedule \<Rightarrow> nat \<times> nat \<times> nat" where
  "event_counts events =
     (length (filter (\<lambda>e. event_kind e = DYNAMIC_OBSTACLE) events),
      length (filter (\<lambda>e. event_kind e = ROBOT_OFFLINE) events), length events)"

section \<open>What the other robots still hold\<close>

definition steps_from :: "int \<Rightarrow> timed_path \<Rightarrow> timed_step list" where
  "steps_from from_timestep tp = filter (\<lambda>s. from_timestep \<le> step_timestep s) (tp_steps tp)"

definition reserve_remaining ::
  "int \<Rightarrow> int \<Rightarrow> string \<times> timed_path \<Rightarrow> reservation_table \<Rightarrow> py_error + reservation_table" where
  "reserve_remaining from_timestep horizon entry rt =
     (case entry of (rid, tp) \<Rightarrow>
      let remaining = steps_from from_timestep tp in
      if remaining = [] then
        res_bind (position_at from_timestep tp) (\<lambda>pos. case pos of
            None \<Rightarrow> Inr rt
          | Some parked \<Rightarrow> res_fold (\<lambda>t. reserve_vertex parked t rid) [from_timestep..horizon] rt)
      else
        res_bind (res_fold (\<lambda>s. reserve_vertex (step_position s) (step_timestep s) rid) remaining rt) (\<lambda>rt1.
        res_bind (res_fold (\<lambda>(earlier, later) rt.
            if step_position earlier \<noteq> step_position later
            then reserve_edge (step_position earlier) (step_position later) (step_timestep earlier) rid rt
            else Inr rt) (zip remaining (tl remaining)) rt1) (\<lambda>rt2.
        res_fold (\<lambda>t. reserve_vertex (step_position (last remaining)) t rid)
          [step_timestep (last remaining) + 1..horizon] rt2)))"

definition build_future_reservations ::
  "(string, timed_path) dict \<Rightarrow> int \<Rightarrow> int \<Rightarrow> string set \<Rightarrow> py_error + reservation_table" where
  "build_future_reservations timed_paths from_timestep horizon excluded =
     res_fold (\<lambda>(rid, tp) rt. if rid \<in> excluded \<or> \<not> tp_success tp then Inr rt
                else reserve_remaining from_timestep horizon (rid, tp) rt)
       (sort_key fst timed_paths) reservation_init"

section \<open>What is left of a route\<close>

datatype remaining_reason =
    Never_Successful
  | Remaining_Outside timed_step
  | Remaining_Blocked position int
  | Remaining_Reserved position int string
  | Remaining_Swaps position position int

fun remaining_reserved ::
  "string \<Rightarrow> timed_step list \<Rightarrow> reservation_table \<Rightarrow> remaining_reason option \<times> reservation_table" where
  "remaining_reserved rid [] rt = (None, rt)"
| "remaining_reserved rid (s # ss) rt =
     (case vertex_reserver (step_position s) (step_timestep s) rt of
        (None, rt1) \<Rightarrow> remaining_reserved rid ss rt1
      | (Some reserver, rt1) \<Rightarrow>
          if reserver \<noteq> rid then (Some (Remaining_Reserved (step_position s) (step_timestep s) reserver), rt1)
          else remaining_reserved rid ss rt1)"

fun remaining_swaps ::
  "string \<Rightarrow> (timed_step \<times> timed_step) list \<Rightarrow> reservation_table \<Rightarrow> remaining_reason option \<times> reservation_table" where
  "remaining_swaps rid [] rt = (None, rt)"
| "remaining_swaps rid ((earlier, later) # rest) rt =
     (if step_position earlier \<noteq> step_position later then
        (case is_swap_conflict (step_position earlier) (step_position later) (step_timestep earlier) (Some rid) rt of
           (True, rt1) \<Rightarrow>
             (Some (Remaining_Swaps (step_position earlier) (step_position later) (step_timestep earlier)), rt1)
         | (False, rt1) \<Rightarrow> remaining_swaps rid rest rt1)
      else remaining_swaps rid rest rt)"

definition remaining_cells :: "warehouse \<Rightarrow> timed_step list \<Rightarrow> remaining_reason option" where
  "remaining_cells w remaining =
     (case concat (map (\<lambda>s.
        if \<not> in_bounds w (step_position s) then [Remaining_Outside s]
        else if \<not> is_traversable w (step_position s) then [Remaining_Blocked (step_position s) (step_timestep s)]
        else []) remaining) of
        [] \<Rightarrow> None | reason # _ \<Rightarrow> Some reason)"

definition remaining_path_problem ::
  "timed_path \<Rightarrow> int \<Rightarrow> warehouse \<Rightarrow> reservation_table option \<Rightarrow> remaining_reason option \<times> reservation_table option" where
  "remaining_path_problem tp from_timestep w reservations =
     (if \<not> tp_success tp then (Some Never_Successful, reservations)
      else let remaining = steps_from from_timestep tp in
        if length remaining \<le> 1 then (None, reservations)
        else (case remaining_cells w remaining of
          Some reason \<Rightarrow> (Some reason, reservations)
        | None \<Rightarrow>
            (case reservations of
               None \<Rightarrow> (None, None)
             | Some rt \<Rightarrow>
                 (case remaining_reserved (tp_robot_id tp) remaining rt of
                    (Some reason, rt1) \<Rightarrow> (Some reason, Some rt1)
                  | (None, rt1) \<Rightarrow>
                      (case remaining_swaps (tp_robot_id tp) (zip remaining (tl remaining)) rt1 of
                         (reason, rt2) \<Rightarrow> (reason, Some rt2))))))"

definition route_touches_cell :: "timed_path \<Rightarrow> position \<Rightarrow> int \<Rightarrow> bool" where
  "route_touches_cell tp cell from_timestep =
     list_ex (\<lambda>s. step_position s = cell \<and> from_timestep \<le> step_timestep s) (tp_steps tp)"

section \<open>Repairing a route\<close>

definition splice_route :: "timed_step list \<Rightarrow> timed_path \<Rightarrow> timed_path" where
  "splice_route history future =
     (let fut = tp_steps future in
      tp_found (tp_robot_id future)
        (history @ (if history \<noteq> [] \<and> fut \<noteq> [] \<and> last history = hd fut then tl fut else fut)))"

text \<open>\<open>DynamicReplanner.replan\<close>, with the planner's default heuristic; \<open>timed_replan\<close> only adds the time.\<close>

definition replan ::
  "warehouse \<Rightarrow> string \<Rightarrow> position \<Rightarrow> position \<Rightarrow> int \<Rightarrow> reservation_table \<Rightarrow> int \<Rightarrow>
     py_error + timed_path \<times> reservation_table" where
  "replan w rid current_position goal current_timestep reservations horizon =
     st_plan manhattan_distance w current_position goal reservations rid current_timestep (Some horizon)"

end
