(* ===== verification/Allocation.thy ===== *)
theory Allocation
  imports Dijkstra Robot Task
begin

text \<open>
  Pricing and pairing (\<open>allocation/allocation_result.py\<close>, \<open>cost_estimator.py\<close>,
  \<open>feasibility.py\<close>). The estimator keeps its cache and its call counter as state, so its
  operations return the estimator beside their outcome, an exception included. The lemmas show
  that the cache is transparent: every answer is the planner's answer, so the candidate pairs
  are the ones that the feasibility rules describe, with their shortest-route costs.
\<close>

section \<open>The result of an allocation cycle\<close>

record assignment =
  as_robot_id :: string
  as_task_id :: string
  as_robot_to_pickup :: int
  as_pickup_to_dropoff :: int

definition as_total :: "assignment \<Rightarrow> int" where
  "as_total a = as_robot_to_pickup a + as_pickup_to_dropoff a"

record allocation_result =
  al_algorithm :: string
  al_success :: bool
  al_solver_status :: string
  al_assignments :: "assignment list"
  al_unassigned_task_ids :: "string list"
  al_total_estimated_cost :: int
  al_eligible_pair_count :: nat
  al_infeasible_pair_count :: nat

definition assigned_task_count :: "allocation_result \<Rightarrow> nat" where
  "assigned_task_count r = length (al_assignments r)"

definition unassigned_task_count :: "allocation_result \<Rightarrow> nat" where
  "unassigned_task_count r = length (al_unassigned_task_ids r)"

definition build_result ::
  "string \<Rightarrow> string \<Rightarrow> bool \<Rightarrow> assignment list \<Rightarrow> string list \<Rightarrow> nat \<Rightarrow> nat \<Rightarrow> allocation_result" where
  "build_result algorithm solver_status success chosen candidates eligible infeasible =
     (let assigned = set (map as_task_id chosen) in
      \<lparr>al_algorithm = algorithm, al_success = success, al_solver_status = solver_status,
       al_assignments = sort_key (\<lambda>a. (as_robot_id a, as_task_id a)) chosen,
       al_unassigned_task_ids = filter (\<lambda>tid. tid \<notin> assigned) candidates,
       al_total_estimated_cost = sum_list (map as_total chosen),
       al_eligible_pair_count = eligible, al_infeasible_pair_count = infeasible\<rparr>)"

section \<open>The cost estimator\<close>

record assignment_cost =
  robot_to_pickup :: int
  pickup_to_dropoff :: int

definition ac_total :: "assignment_cost \<Rightarrow> int" where
  "ac_total c = robot_to_pickup c + pickup_to_dropoff c"

type_synonym planner = "position \<Rightarrow> position \<Rightarrow> warehouse \<Rightarrow> py_error + path_result"

record estimator =
  est_warehouse :: warehouse
  est_planner :: planner
  est_cache :: "(position \<times> position, int option) dict"
  est_calls :: nat

definition estimator_init :: "warehouse \<Rightarrow> planner \<Rightarrow> estimator" where
  "estimator_init w planner = \<lparr>est_warehouse = w, est_planner = planner, est_cache = [], est_calls = 0\<rparr>"

text \<open>\<open>int(result.total_cost) if result.success else None\<close>\<close>

definition result_cost :: "path_result \<Rightarrow> py_error + int option" where
  "result_cost r =
     (if pr_success r then (case pr_total_cost r of None \<Rightarrow> Inl TypeError | Some c \<Rightarrow> Inr (Some c))
      else Inr None)"

definition path_cost :: "position \<Rightarrow> position \<Rightarrow> estimator \<Rightarrow> (py_error + int option) \<times> estimator" where
  "path_cost start goal est =
     (case dict_get (est_cache est) (start, goal) of
        Some v \<Rightarrow> (Inr v, est)
      | None \<Rightarrow>
          let est1 = est\<lparr>est_calls := est_calls est + 1\<rparr> in
          (case res_bind (est_planner est start goal (est_warehouse est)) result_cost of
             Inl e \<Rightarrow> (Inl e, est1)
           | Inr v \<Rightarrow> (Inr v, est1\<lparr>est_cache := dict_set (start, goal) v (est_cache est1)\<rparr>)))"

definition estimate :: "robot \<Rightarrow> task \<Rightarrow> estimator \<Rightarrow> (py_error + assignment_cost option) \<times> estimator" where
  "estimate r t est =
     (case path_cost (robot_position r) (pickup_location t) est of
        (Inl e, est1) \<Rightarrow> (Inl e, est1)
      | (Inr None, est1) \<Rightarrow> (Inr None, est1)
      | (Inr (Some to_pickup), est1) \<Rightarrow>
          (case path_cost (pickup_location t) (dropoff_location t) est1 of
             (Inl e, est2) \<Rightarrow> (Inl e, est2)
           | (Inr None, est2) \<Rightarrow> (Inr None, est2)
           | (Inr (Some to_dropoff), est2) \<Rightarrow>
               (Inr (Some \<lparr>robot_to_pickup = to_pickup, pickup_to_dropoff = to_dropoff\<rparr>), est2)))"

definition cache_size :: "estimator \<Rightarrow> nat" where
  "cache_size est = length (est_cache est)"

section \<open>Feasible pairs\<close>

record candidate_pair =
  cp_robot_id :: string
  cp_task_id :: string
  cp_cost :: assignment_cost

definition cp_total :: "candidate_pair \<Rightarrow> int" where
  "cp_total p = ac_total (cp_cost p)"

definition eligible_robots :: "robot list \<Rightarrow> robot list" where
  "eligible_robots robots = sort_key robot_id (filter is_available robots)"

definition pending_tasks :: "task list \<Rightarrow> task list" where
  "pending_tasks tasks =
     sort_key (\<lambda>t. (- priority_value (priority t), task_id t)) (filter (\<lambda>t. task_status t = T_PENDING) tasks)"

text \<open>\<open>None\<close> is \<open>float("inf")\<close>.\<close>

definition battery_moves_affordable :: "robot \<Rightarrow> pyfloat option" where
  "battery_moves_affordable r =
     (if battery_drain_per_move r \<le> 0 then None else Some (fl (battery_level r / battery_drain_per_move r)))"

definition is_battery_feasible :: "robot \<Rightarrow> int \<Rightarrow> bool" where
  "is_battery_feasible r route_moves =
     (case battery_moves_affordable r of None \<Rightarrow> True | Some n \<Rightarrow> of_int route_moves \<le> n)"

text \<open>The two nested loops, over the pairs in their order.\<close>

fun pair_loop ::
  "(robot \<times> task) list \<Rightarrow> candidate_pair list \<Rightarrow> nat \<Rightarrow> estimator \<Rightarrow>
     (py_error + candidate_pair list \<times> nat) \<times> estimator" where
  "pair_loop [] feasible infeasible est = (Inr (feasible, infeasible), est)"
| "pair_loop ((r, t) # rest) feasible infeasible est =
     (if \<not> can_carry r (payload_weight t) then pair_loop rest feasible (infeasible + 1) est
      else case estimate r t est of
        (Inl e, est1) \<Rightarrow> (Inl e, est1)
      | (Inr None, est1) \<Rightarrow> pair_loop rest feasible (infeasible + 1) est1
      | (Inr (Some cost), est1) \<Rightarrow>
          if \<not> is_battery_feasible r (ac_total cost) then pair_loop rest feasible (infeasible + 1) est1
          else pair_loop rest
            (feasible @ [\<lparr>cp_robot_id = robot_id r, cp_task_id = task_id t, cp_cost = cost\<rparr>]) infeasible est1)"

definition build_candidate_pairs ::
  "robot list \<Rightarrow> task list \<Rightarrow> estimator \<Rightarrow> (py_error + candidate_pair list \<times> nat) \<times> estimator" where
  "build_candidate_pairs robots tasks est =
     pair_loop (concat (map (\<lambda>r. map (\<lambda>t. (r, t)) (pending_tasks tasks)) (eligible_robots robots))) [] 0 est"

section \<open>The cache is transparent\<close>

text \<open>What a leg and a pair cost, straight from the planner.\<close>

definition leg :: "planner \<Rightarrow> warehouse \<Rightarrow> position \<Rightarrow> position \<Rightarrow> py_error + int option" where
  "leg planner w a b = res_bind (planner a b w) result_cost"

definition pair_cost :: "planner \<Rightarrow> warehouse \<Rightarrow> robot \<Rightarrow> task \<Rightarrow> py_error + assignment_cost option" where
  "pair_cost planner w r t =
     res_bind (leg planner w (robot_position r) (pickup_location t)) (\<lambda>a.
       case a of None \<Rightarrow> Inr None
       | Some to_pickup \<Rightarrow> res_bind (leg planner w (pickup_location t) (dropoff_location t)) (\<lambda>b.
           Inr (map_option (\<lambda>to_dropoff. \<lparr>robot_to_pickup = to_pickup, pickup_to_dropoff = to_dropoff\<rparr>) b)))"

definition est_ok :: "estimator \<Rightarrow> bool" where
  [inv_defs]: "est_ok est \<longleftrightarrow> (\<forall>a b v. dict_get (est_cache est) (a, b) = Some v \<longrightarrow>
     leg (est_planner est) (est_warehouse est) a b = Inr v)"

definition same_floor :: "estimator \<Rightarrow> estimator \<Rightarrow> bool" where
  "same_floor est est' \<longleftrightarrow> est_warehouse est' = est_warehouse est \<and> est_planner est' = est_planner est"

lemma same_floor_refl [simp]: "same_floor est est"
  by (simp add: same_floor_def)

lemma same_floor_trans: "same_floor a b \<Longrightarrow> same_floor b c \<Longrightarrow> same_floor a c"
  by (simp add: same_floor_def)

lemma estimator_init_ok [simp]: "est_ok (estimator_init w planner)"
  by (simp add: est_ok_def estimator_init_def)

lemma path_cost_ok:
  assumes "est_ok est"
  shows "fst (path_cost a b est) = leg (est_planner est) (est_warehouse est) a b"
    "est_ok (snd (path_cost a b est))" "same_floor est (snd (path_cost a b est))"
proof -
  show "fst (path_cost a b est) = leg (est_planner est) (est_warehouse est) a b"
    using assms by (auto simp: path_cost_def est_ok_def leg_def Let_def split: option.splits sum.splits)
  show "same_floor est (snd (path_cost a b est))"
    by (simp add: path_cost_def same_floor_def Let_def split: option.splits sum.splits)
  show "est_ok (snd (path_cost a b est))"
    using assms by (auto simp: path_cost_def est_ok_def leg_def Let_def split: option.splits sum.splits)
qed

lemma estimate_ok:
  assumes "est_ok est"
  shows "fst (estimate r t est) = pair_cost (est_planner est) (est_warehouse est) r t"
    "est_ok (snd (estimate r t est))" "same_floor est (snd (estimate r t est))"
proof -
  obtain x est1 where p1: "path_cost (robot_position r) (pickup_location t) est = (x, est1)" by fastforce
  note P1 = path_cost_ok [OF assms, of "robot_position r" "pickup_location t", unfolded p1 fst_conv snd_conv]
  obtain y est2 where p2: "path_cost (pickup_location t) (dropoff_location t) est1 = (y, est2)" by fastforce
  note P2 = path_cost_ok [OF P1(2), of "pickup_location t" "dropoff_location t", unfolded p2 fst_conv snd_conv]
  have y: "y = leg (est_planner est) (est_warehouse est) (pickup_location t) (dropoff_location t)"
    using P2(1) P1(3) by (simp add: same_floor_def)
  show "fst (estimate r t est) = pair_cost (est_planner est) (est_warehouse est) r t"
    unfolding estimate_def pair_cost_def p1 P1(1) [symmetric]
    using p2 y [symmetric] by (auto split: sum.split option.split)
  show "est_ok (snd (estimate r t est))" "same_floor est (snd (estimate r t est))"
    unfolding estimate_def p1 using p2 P1 P2 same_floor_trans by (auto split: sum.split option.split)
qed

text \<open>The candidates as the feasibility rules describe them.\<close>

definition feasible_pair :: "planner \<Rightarrow> warehouse \<Rightarrow> robot \<Rightarrow> task \<Rightarrow> assignment_cost \<Rightarrow> bool" where
  "feasible_pair planner w r t c \<longleftrightarrow> can_carry r (payload_weight t) \<and>
     pair_cost planner w r t = Inr (Some c) \<and> is_battery_feasible r (ac_total c)"

definition candidate :: "planner \<Rightarrow> warehouse \<Rightarrow> robot \<times> task \<Rightarrow> candidate_pair option" where
  "candidate planner w rt = (case rt of (r, t) \<Rightarrow>
     if \<not> can_carry r (payload_weight t) then None
     else case pair_cost planner w r t of
       Inr (Some c) \<Rightarrow> if is_battery_feasible r (ac_total c)
         then Some \<lparr>cp_robot_id = robot_id r, cp_task_id = task_id t, cp_cost = c\<rparr> else None
     | _ \<Rightarrow> None)"

lemma candidate_Some:
  "candidate planner w (r, t) = Some p \<longleftrightarrow> (\<exists>c. feasible_pair planner w r t c \<and>
     p = \<lparr>cp_robot_id = robot_id r, cp_task_id = task_id t, cp_cost = c\<rparr>)"
  by (auto simp: candidate_def feasible_pair_def split: sum.splits option.splits if_splits)

lemma pair_loop_ok:
  assumes "est_ok est"
    and "\<And>r t. (r, t) \<in> set rts \<Longrightarrow> can_carry r (payload_weight t) \<Longrightarrow>
      \<exists>c. pair_cost (est_planner est) (est_warehouse est) r t = Inr c"
  shows "\<exists>n est'. pair_loop rts feasible k est =
      (Inr (feasible @ List.map_filter (candidate (est_planner est) (est_warehouse est)) rts, n), est') \<and>
    est_ok est' \<and> same_floor est est' \<and>
    n + length (List.map_filter (candidate (est_planner est) (est_warehouse est)) rts) = k + length rts"
  using assms
proof (induction rts arbitrary: feasible k est)
  case Nil
  then show ?case by (simp add: List.map_filter_def)
next
  case (Cons x rts)
  obtain r t where x: "x = (r, t)" by (cases x)
  show ?case
  proof (cases "can_carry r (payload_weight t)")
    case False
    then have "candidate (est_planner est) (est_warehouse est) x = None" by (simp add: candidate_def x)
    then show ?thesis using Cons.IH [of est feasible "k + 1"] Cons.prems False
      by (auto simp: x map_filter_simps)
  next
    case True
    obtain c where c: "pair_cost (est_planner est) (est_warehouse est) r t = Inr c"
      using Cons.prems(2) [of r t] True x by auto
    obtain est1 where e: "estimate r t est = (Inr c, est1)" and E: "est_ok est1" "same_floor est est1"
      using estimate_ok [OF Cons.prems(1), of r t] c by (metis prod.collapse)
    have f: "est_planner est1 = est_planner est" "est_warehouse est1 = est_warehouse est"
      using E(2) by (simp_all add: same_floor_def)
    have IH: "\<exists>n est'. pair_loop rts feasible k est1 =
        (Inr (feasible @ List.map_filter (candidate (est_planner est) (est_warehouse est)) rts, n), est') \<and>
      est_ok est' \<and> same_floor est est' \<and>
      n + length (List.map_filter (candidate (est_planner est) (est_warehouse est)) rts) = k + length rts" for feasible k
      using Cons.IH [OF E(1), of feasible k] Cons.prems(2) E(2) same_floor_trans unfolding f by fastforce
    show ?thesis
    proof (cases "\<exists>cost. c = Some cost \<and> is_battery_feasible r (ac_total cost)")
      case True: True
      then obtain cost where cost: "c = Some cost" "is_battery_feasible r (ac_total cost)" by blast
      then have "candidate (est_planner est) (est_warehouse est) x =
          Some \<lparr>cp_robot_id = robot_id r, cp_task_id = task_id t, cp_cost = cost\<rparr>"
        using c \<open>can_carry r (payload_weight t)\<close> by (simp add: candidate_def x)
      then show ?thesis
        using IH [of "feasible @ [\<lparr>cp_robot_id = robot_id r, cp_task_id = task_id t, cp_cost = cost\<rparr>]" k]
          e cost \<open>can_carry r (payload_weight t)\<close> by (auto simp: x map_filter_simps)
    next
      case False
      then have "candidate (est_planner est) (est_warehouse est) x = None"
        using c by (auto simp: candidate_def x split: option.splits)
      then show ?thesis using IH [of feasible "k + 1"] e False \<open>can_carry r (payload_weight t)\<close>
        by (cases c) (auto simp: x map_filter_simps)
    qed
  qed
qed

section \<open>The candidates of a cycle\<close>

lemma set_map_filter: "y \<in> set (List.map_filter g xs) \<longleftrightarrow> (\<exists>x \<in> set xs. g x = Some y)"
  by (induction xs) (auto simp: map_filter_simps split: option.splits)

definition offered :: "planner \<Rightarrow> warehouse \<Rightarrow> robot list \<Rightarrow> task list \<Rightarrow> candidate_pair list" where
  "offered planner w robots tasks = List.map_filter (candidate planner w)
     (concat (map (\<lambda>r. map (\<lambda>t. (r, t)) (pending_tasks tasks)) (eligible_robots robots)))"

definition priced :: "planner \<Rightarrow> warehouse \<Rightarrow> robot list \<Rightarrow> task list \<Rightarrow> bool" where
  "priced planner w robots tasks \<longleftrightarrow>
     (\<forall>r \<in> set robots. \<forall>t \<in> set tasks. \<exists>c. pair_cost planner w r t = Inr c)"

lemma set_pending [simp]: "set (pending_tasks tasks) = {t \<in> set tasks. task_status t = T_PENDING}"
  by (auto simp: pending_tasks_def)

lemma set_eligible [simp]: "set (eligible_robots robots) = {r \<in> set robots. is_available r}"
  by (auto simp: eligible_robots_def)

lemma set_offered:
  "p \<in> set (offered planner w robots tasks) \<longleftrightarrow> (\<exists>r t c. r \<in> set robots \<and> is_available r \<and>
     t \<in> set tasks \<and> task_status t = T_PENDING \<and> feasible_pair planner w r t c \<and>
     p = \<lparr>cp_robot_id = robot_id r, cp_task_id = task_id t, cp_cost = c\<rparr>)"
proof -
  have "p \<in> set (offered planner w robots tasks) \<longleftrightarrow>
      (\<exists>r t. r \<in> set robots \<and> is_available r \<and> t \<in> set tasks \<and> task_status t = T_PENDING \<and>
        candidate planner w (r, t) = Some p)"
    unfolding offered_def set_map_filter by auto
  then show ?thesis unfolding candidate_Some by blast
qed

lemma build_candidate_pairs_ok:
  assumes "est_ok est" "priced (est_planner est) (est_warehouse est) robots tasks"
  shows "\<exists>n est'. build_candidate_pairs robots tasks est =
      (Inr (offered (est_planner est) (est_warehouse est) robots tasks, n), est') \<and>
    est_ok est' \<and> same_floor est est' \<and>
    n + length (offered (est_planner est) (est_warehouse est) robots tasks) =
      length (eligible_robots robots) * length (pending_tasks tasks)"
proof -
  let ?rts = "concat (map (\<lambda>r. map (\<lambda>t. (r, t)) (pending_tasks tasks)) (eligible_robots robots))"
  have "length (concat (map (\<lambda>r. map (\<lambda>t. (r, t)) (pending_tasks tasks)) rs)) =
      length rs * length (pending_tasks tasks)" for rs :: "robot list"
    by (induction rs) simp_all
  moreover have "\<exists>c. pair_cost (est_planner est) (est_warehouse est) r t = Inr c"
    if "(r, t) \<in> set ?rts" for r t
    using that assms(2) by (auto simp: priced_def)
  ultimately show ?thesis
    using pair_loop_ok [OF assms(1), of ?rts "[]" 0] unfolding build_candidate_pairs_def offered_def by simp
qed

lemma distinct_map_filter_key:
  assumes "distinct (map f xs)" "\<And>x y. g x = Some y \<Longrightarrow> h y = f x"
  shows "distinct (map h (List.map_filter g xs))"
  using assms(1)
proof (induction xs)
  case (Cons x xs)
  show ?case
  proof (cases "g x")
    case None
    then show ?thesis using Cons by (simp add: map_filter_simps)
  next
    case (Some y)
    have "h y \<notin> set (map h (List.map_filter g xs))"
      using Cons.prems assms(2) Some by (fastforce simp: set_map_filter)
    then show ?thesis using Cons Some by (simp add: map_filter_simps)
  qed
qed (simp add: map_filter_simps)

lemma distinct_pairs:
  assumes "distinct (map f xs)" "distinct (map g ys)"
  shows "distinct (map (\<lambda>(x, y). (f x, g y)) (concat (map (\<lambda>x. map (\<lambda>y. (x, y)) ys) xs)))"
  using assms
proof (induction xs)
  case (Cons x xs)
  have *: "map ((\<lambda>(x, y). (f x, g y)) \<circ> Pair x) ys = map (Pair (f x)) (map g ys)" by simp
  have "distinct (map (Pair (f x)) (map g ys))"
    using Cons.prems(2) by (simp add: distinct_map inj_on_def)
  then show ?case using Cons unfolding concat.simps list.map map_append map_map distinct_append * by auto
qed simp

lemma distinct_key_filter: "distinct (map f xs) \<Longrightarrow> distinct (map f (filter P xs))"
  by (rule distinct_map_filter)

lemma distinct_map_sort_key: "distinct (map f (sort_key k xs)) = distinct (map f xs)"
  by (metis mset_eq_imp_distinct_iff mset_map mset_sort)

section \<open>Planners that meet the contract\<close>

definition shortest :: "warehouse \<Rightarrow> position \<Rightarrow> position \<Rightarrow> int \<Rightarrow> bool" where
  "shortest w a b n \<longleftrightarrow> (\<exists>p. is_route w a b p \<and> int (length p) = n + 1) \<and>
     (\<forall>p. is_route w a b p \<longrightarrow> n + 1 \<le> int (length p))"

definition inside :: "warehouse \<Rightarrow> robot list \<Rightarrow> task list \<Rightarrow> bool" where
  "inside w robots tasks \<longleftrightarrow> (\<forall>r \<in> set robots. in_bounds w (robot_position r)) \<and>
     (\<forall>t \<in> set tasks. in_bounds w (pickup_location t) \<and> in_bounds w (dropoff_location t))"

locale route_planner =
  fixes name :: string and plan :: planner
  assumes contract: "plan_spec name w a b (plan a b w)"
begin

lemma leg_cost:
  assumes "in_bounds w a" "in_bounds w b"
  shows "\<exists>c. leg plan w a b = Inr c \<and> (\<forall>n. c = Some n \<longleftrightarrow> shortest w a b n)"
proof (cases "\<exists>p. is_route w a b p")
  case True
  then obtain p where "is_route w a b p" by blast
  from plan_spec_route [OF contract this] obtain q n where q: "plan a b w = Inr (path_found name a b q n)"
    "is_route w a b q" "\<And>other. is_route w a b other \<Longrightarrow> length q \<le> length other" by metis
  have "shortest w a b n \<longleftrightarrow> n = int (length q) - 1" for n
  proof
    assume "shortest w a b n"
    then obtain p where p: "is_route w a b p" "int (length p) = n + 1" "n + 1 \<le> int (length q)"
      using q(2) by (auto simp: shortest_def)
    show "n = int (length q) - 1" using q(3) [OF p(1)] p(2,3) by linarith
  next
    assume "n = int (length q) - 1"
    then show "shortest w a b n" using q(2,3) by (auto simp: shortest_def)
  qed
  then show ?thesis using q(1) by (auto simp: leg_def result_cost_def MOVE_COST_def)
next
  case False
  have none: "\<not> shortest w a b n" for n using False by (auto simp: shortest_def)
  obtain r where "plan a b w = Inr r" "\<not> pr_success r"
    using plan_spec_returns [OF contract assms] False by blast
  then show ?thesis using none by (auto simp: leg_def result_cost_def)
qed

lemma pair_cost_routes:
  assumes "in_bounds w (robot_position r)" "in_bounds w (pickup_location t)" "in_bounds w (dropoff_location t)"
  shows "\<exists>c. pair_cost plan w r t = Inr c \<and> (\<forall>k. c = Some k \<longleftrightarrow>
     shortest w (robot_position r) (pickup_location t) (robot_to_pickup k) \<and>
     shortest w (pickup_location t) (dropoff_location t) (pickup_to_dropoff k))"
proof -
  obtain a where a: "leg plan w (robot_position r) (pickup_location t) = Inr a"
    "\<And>n. a = Some n \<longleftrightarrow> shortest w (robot_position r) (pickup_location t) n"
    using leg_cost [OF assms(1,2)] by blast
  obtain b where b: "leg plan w (pickup_location t) (dropoff_location t) = Inr b"
    "\<And>n. b = Some n \<longleftrightarrow> shortest w (pickup_location t) (dropoff_location t) n"
    using leg_cost [OF assms(2,3)] by blast
  show ?thesis unfolding pair_cost_def a(1) b(1) res_bind_simps a(2) [symmetric] b(2) [symmetric]
    by (cases a; cases b) (auto intro: assignment_cost.equality)
qed

lemma priced: "inside w robots tasks \<Longrightarrow> priced plan w robots tasks"
  using pair_cost_routes unfolding inside_def priced_def by metis

lemma offered_nonneg:
  assumes "inside w robots tasks" "p \<in> set (offered plan w robots tasks)"
  shows "0 \<le> cp_total p"
proof -
  obtain r t c where c: "r \<in> set robots" "t \<in> set tasks" "pair_cost plan w r t = Inr (Some c)" "cp_cost p = c"
    using assms(2) by (auto simp: set_offered feasible_pair_def)
  have S: "shortest w (robot_position r) (pickup_location t) (robot_to_pickup c)"
    "shortest w (pickup_location t) (dropoff_location t) (pickup_to_dropoff c)"
    using pair_cost_routes [of w r t] assms(1) c(1-3) by (auto simp: inside_def)
  have "0 \<le> n" if h: "shortest w a b n" for a b n
  proof -
    obtain p where "is_route w a b p" "int (length p) = n + 1" using h unfolding shortest_def by metis
    moreover from this(1) have "p \<noteq> []" by (simp add: is_route_def)
    ultimately show ?thesis by (cases p) auto
  qed
  from this [OF S(1)] this [OF S(2)] show ?thesis by (simp add: cp_total_def ac_total_def c(4))
qed

end

text \<open>Both planners of the program meet the contract; A* is the estimator's default.\<close>

abbreviation plan_astar :: planner where
  "plan_astar \<equiv> \<lambda>a b w. astar_plan a b w manhattan_distance"

interpretation astar_router: route_planner "''astar''" plan_astar
  using manhattan_search.plan_refines by unfold_locales

interpretation dijkstra_router: route_planner "''dijkstra''" dijkstra_plan
  using dijkstra_plan_refines by unfold_locales

end
