(* ===== verification/Allocators.thy ===== *)
theory Allocators
  imports Allocation "HOL-Library.Sublist"
begin

text \<open>
  The two allocators (\<open>allocation/greedy_allocator.py\<close>, \<open>cp_sat_allocator.py\<close>). The lemmas
  show what the loops group, that the greedy choice leaves no pair that a task and a robot
  would both prefer, and what the coefficients of the optimisation model encode. OR-Tools is not part of the
  repository: the CP-SAT solver is a parameter that gets the model's at-most-one groups and
  objective coefficients and answers with a status and the chosen variables;
  \<open>solver_ok\<close> states what its documentation promises.
\<close>

section \<open>The greedy allocator\<close>

definition to_assignment :: "candidate_pair \<Rightarrow> assignment" where
  "to_assignment p = \<lparr>as_robot_id = cp_robot_id p, as_task_id = cp_task_id p,
     as_robot_to_pickup = robot_to_pickup (cp_cost p), as_pickup_to_dropoff = pickup_to_dropoff (cp_cost p)\<rparr>"

text \<open>\<open>d.setdefault(k, []).append(v)\<close>\<close>

definition dict_push :: "'k \<Rightarrow> 'v \<Rightarrow> ('k, 'v list) dict \<Rightarrow> ('k, 'v list) dict" where
  "dict_push k v d = dict_set k ((case dict_get d k of None \<Rightarrow> [] | Some vs \<Rightarrow> vs) @ [v]) d"

definition pairs_by_task :: "candidate_pair list \<Rightarrow> (string, candidate_pair list) dict" where
  "pairs_by_task feasible =
     map (\<lambda>(tid, ps). (tid, sort_key (\<lambda>p. (cp_total p, cp_robot_id p)) ps))
       (fold (\<lambda>p. dict_push (cp_task_id p) p) feasible [])"

fun first_free :: "candidate_pair list \<Rightarrow> string set \<Rightarrow> candidate_pair option" where
  "first_free [] used = None"
| "first_free (p # ps) used = (if cp_robot_id p \<in> used then first_free ps used else Some p)"

fun greedy_loop ::
  "(string, candidate_pair list) dict \<Rightarrow> string list \<Rightarrow> string set \<Rightarrow> assignment list \<Rightarrow> assignment list" where
  "greedy_loop by_task [] used chosen = chosen"
| "greedy_loop by_task (tid # tids) used chosen =
     (case first_free (case dict_get by_task tid of None \<Rightarrow> [] | Some ps \<Rightarrow> ps) used of
        None \<Rightarrow> greedy_loop by_task tids used chosen
      | Some p \<Rightarrow> greedy_loop by_task tids (insert (cp_robot_id p) used) (chosen @ [to_assignment p]))"

definition greedy_allocate ::
  "robot list \<Rightarrow> task list \<Rightarrow> estimator \<Rightarrow> (py_error + allocation_result) \<times> estimator" where
  "greedy_allocate robots tasks est =
     (case build_candidate_pairs robots tasks est of
        (Inl e, est1) \<Rightarrow> (Inl e, est1)
      | (Inr (feasible, infeasible), est1) \<Rightarrow>
          let candidates = map task_id (pending_tasks tasks);
              chosen = greedy_loop (pairs_by_task feasible) candidates {} [] in
          (Inr (build_result ''greedy'' ''GREEDY'' True chosen candidates (length feasible) infeasible), est1))"

section \<open>The optimising allocator\<close>

type_synonym var = "string \<times> string"

text \<open>
  A solver: from the at-most-one groups and the objective coefficients of the model to a
  status name and the variables with value 1.
\<close>

type_synonym cp_solver = "var list list \<Rightarrow> (var, int) dict \<Rightarrow> string \<times> var set"

definition pair_key :: "candidate_pair \<Rightarrow> var" where
  "pair_key p = (cp_robot_id p, cp_task_id p)"

definition effective_costs :: "candidate_pair list \<Rightarrow> (var, int) dict" where
  "effective_costs feasible =
     (let scale = int (length feasible) * int (length feasible) + 1 in
      fold (\<lambda>(index, p). dict_set (pair_key p) (cp_total p * scale + int index)) (enumerate 0 feasible) [])"

definition model_groups :: "candidate_pair list \<Rightarrow> var list list" where
  "model_groups feasible =
     dict_values (fold (\<lambda>p. dict_push (cp_task_id p) (pair_key p)) feasible []) @
     dict_values (fold (\<lambda>p. dict_push (cp_robot_id p) (pair_key p)) feasible [])"

definition model_objective :: "candidate_pair list \<Rightarrow> (var, int) dict" where
  "model_objective feasible =
     (let costs = effective_costs feasible; reward = sum_list (dict_values costs) + 1 in
      map (\<lambda>(k, c). (k, reward - c)) costs)"

definition cp_sat_allocate ::
  "cp_solver \<Rightarrow> robot list \<Rightarrow> task list \<Rightarrow> estimator \<Rightarrow> (py_error + allocation_result) \<times> estimator" where
  "cp_sat_allocate solver robots tasks est =
     (case build_candidate_pairs robots tasks est of
        (Inl e, est1) \<Rightarrow> (Inl e, est1)
      | (Inr (feasible, infeasible), est1) \<Rightarrow>
          let candidates = map task_id (pending_tasks tasks) in
          if feasible = [] then
            (Inr (build_result ''cp_sat'' ''OPTIMAL'' True [] candidates 0 infeasible), est1)
          else
            (case solver (model_groups feasible) (model_objective feasible) of
               (status, chosen_vars) \<Rightarrow>
                 if status \<notin> {''OPTIMAL'', ''FEASIBLE''} then
                   (Inr (build_result ''cp_sat'' status False [] candidates (length feasible) infeasible), est1)
                 else
                   (Inr (build_result ''cp_sat'' status True
                      (map to_assignment (filter (\<lambda>p. pair_key p \<in> chosen_vars) feasible))
                      candidates (length feasible) infeasible), est1)))"

text \<open>
  What the solver's documentation promises: the values satisfy the constraints, and with
  status OPTIMAL no other values that do have a larger objective.
\<close>

definition satisfies :: "var list list \<Rightarrow> var set \<Rightarrow> bool" where
  "satisfies groups S \<longleftrightarrow> (\<forall>g \<in> set groups. length (filter (\<lambda>k. k \<in> S) g) \<le> 1)"

definition objective_value :: "(var, int) dict \<Rightarrow> var set \<Rightarrow> int" where
  "objective_value objective S = sum_list (map snd (filter (\<lambda>(k, c). k \<in> S) objective))"

definition solver_ok :: "cp_solver \<Rightarrow> bool" where
  "solver_ok solver \<longleftrightarrow> (\<forall>groups objective status S. solver groups objective = (status, S) \<longrightarrow>
     (status \<in> {''OPTIMAL'', ''FEASIBLE''} \<longrightarrow> satisfies groups S) \<and>
     (status = ''OPTIMAL'' \<longrightarrow> (\<forall>T. satisfies groups T \<longrightarrow> objective_value objective T \<le> objective_value objective S)))"

section \<open>Grouping\<close>

lemma distinct_offered:
  assumes "distinct (map robot_id robots)" "distinct (map task_id tasks)"
  shows "distinct (map pair_key (offered planner w robots tasks))"
  unfolding offered_def
proof (rule distinct_map_filter_key)
  show "distinct (map (\<lambda>(r, t). (robot_id r, task_id t))
      (concat (map (\<lambda>r. map (\<lambda>t. (r, t)) (pending_tasks tasks)) (eligible_robots robots))))"
    using assms by (intro distinct_pairs [of robot_id _ task_id])
      (simp_all add: eligible_robots_def pending_tasks_def distinct_map_sort_key distinct_map_filter)
  show "pair_key p = (case rt of (r, t) \<Rightarrow> (robot_id r, task_id t))" if "candidate planner w rt = Some p" for rt p
    using that by (cases rt) (auto simp: candidate_Some pair_key_def)
qed

lemma dict_push_get:
  "dict_get (dict_push k v d) k' =
     (if k = k' then Some ((case dict_get d k of None \<Rightarrow> [] | Some vs \<Rightarrow> vs) @ [v]) else dict_get d k')"
  by (simp add: dict_push_def)

lemma dict_push_ok [simp]: "dict_ok d \<Longrightarrow> dict_ok (dict_push k v d)"
  by (simp add: dict_push_def)

lemma fold_dict_push_ok: "dict_ok d \<Longrightarrow> dict_ok (fold (\<lambda>x. dict_push (f x) (g x)) xs d)"
  by (induction xs arbitrary: d) simp_all

lemma fold_dict_push_get:
  "dict_get (fold (\<lambda>x. dict_push (f x) (g x)) xs d) k =
     (if dict_get d k = None \<and> (\<forall>x \<in> set xs. f x \<noteq> k) then None
      else Some ((case dict_get d k of None \<Rightarrow> [] | Some vs \<Rightarrow> vs) @ map g (filter (\<lambda>x. f x = k) xs)))"
  by (induction xs arbitrary: d) (auto simp: dict_push_get split: option.splits)

text \<open>What the loop over \<open>setdefault\<close> groups: the values with that key, in order.\<close>

lemma group_get:
  "(case dict_get (fold (\<lambda>x. dict_push (f x) (g x)) xs []) k of None \<Rightarrow> [] | Some vs \<Rightarrow> vs) =
     map g (filter (\<lambda>x. f x = k) xs)"
  by (auto simp: fold_dict_push_get filter_empty_conv)

lemma group_values:
  "set (dict_values (fold (\<lambda>x. dict_push (f x) (g x)) xs [])) =
     {map g (filter (\<lambda>x. f x = k) xs) | k. k \<in> f ` set xs}"
proof -
  let ?d = "fold (\<lambda>x. dict_push (f x) (g x)) xs []"
  have "vs \<in> set (dict_values ?d) \<longleftrightarrow> (\<exists>k. dict_get ?d k = Some vs)" for vs
    using dict_get_Some_iff [OF fold_dict_push_ok [OF dict_ok_Nil, of f g xs]] by force
  moreover have "dict_get ?d k = Some vs \<longleftrightarrow> k \<in> f ` set xs \<and> vs = map g (filter (\<lambda>x. f x = k) xs)" for k vs
    by (auto simp: fold_dict_push_get)
  ultimately show ?thesis by blast
qed

section \<open>The greedy choice\<close>

definition proposal :: "candidate_pair list \<Rightarrow> assignment list \<Rightarrow> bool" where
  "proposal feasible as \<longleftrightarrow> distinct (map as_robot_id as) \<and> distinct (map as_task_id as) \<and>
     set as \<subseteq> to_assignment ` set feasible"

lemma proposal_Nil [simp]: "proposal feasible []"
  by (simp add: proposal_def)

lemma to_assignment_sel [simp]:
  "as_robot_id (to_assignment p) = cp_robot_id p" "as_task_id (to_assignment p) = cp_task_id p"
  "as_total (to_assignment p) = cp_total p"
  by (simp_all add: to_assignment_def as_total_def cp_total_def ac_total_def)

abbreviation pair_rank :: "candidate_pair \<Rightarrow> int \<times> string" where
  "pair_rank p \<equiv> (cp_total p, cp_robot_id p)"

lemma first_free_None: "first_free ps used = None \<longleftrightarrow> (\<forall>p \<in> set ps. cp_robot_id p \<in> used)"
  by (induction ps) auto

lemma first_free_Some:
  assumes "first_free ps used = Some p" "sorted (map pair_rank ps)"
  shows "p \<in> set ps \<and> cp_robot_id p \<notin> used \<and>
    (\<forall>q \<in> set ps. cp_robot_id q \<in> used \<or> pair_rank p \<le> pair_rank q)"
  using assms by (induction ps) (auto split: if_splits)

definition ranked_for :: "candidate_pair list \<Rightarrow> string \<Rightarrow> candidate_pair list" where
  "ranked_for feasible tid = sort_key pair_rank (filter (\<lambda>p. cp_task_id p = tid) feasible)"

lemma pairs_by_task_get:
  "(case dict_get (pairs_by_task feasible) tid of None \<Rightarrow> [] | Some ps \<Rightarrow> ps) = ranked_for feasible tid"
proof -
  let ?d = "fold (\<lambda>p. dict_push (cp_task_id p) p) feasible []"
  have "dict_get (pairs_by_task feasible) tid = map_option (sort_key pair_rank) (dict_get ?d tid)"
    by (simp add: pairs_by_task_def map_of_map)
  then show ?thesis using group_get [of cp_task_id "\<lambda>p. p" feasible tid]
    by (auto simp: ranked_for_def split: option.splits)
qed

definition taken_before :: "string list \<Rightarrow> assignment list \<Rightarrow> candidate_pair \<Rightarrow> bool" where
  "taken_before tids as p \<longleftrightarrow>
     (\<exists>a \<in> set as. as_robot_id a = cp_robot_id p \<and> subseq [as_task_id a, cp_task_id p] tids)"

definition served_better :: "assignment list \<Rightarrow> candidate_pair \<Rightarrow> bool" where
  "served_better as p \<longleftrightarrow>
     (\<exists>a \<in> set as. as_task_id a = cp_task_id p \<and> (as_total a, as_robot_id a) \<le> pair_rank p)"

lemma greedy_loop_ok:
  assumes "distinct tids" "proposal feasible chosen" "set tids \<inter> as_task_id ` set chosen = {}"
  defines "res \<equiv> greedy_loop (pairs_by_task feasible) tids (as_robot_id ` set chosen) chosen"
  shows "proposal feasible res" "set chosen \<subseteq> set res"
    "\<forall>p \<in> set feasible. cp_task_id p \<in> set tids \<longrightarrow> served_better res p \<or>
       taken_before tids res p \<or> cp_robot_id p \<in> as_robot_id ` set chosen"
proof -
  have "proposal feasible res \<and> set chosen \<subseteq> set res \<and>
    (\<forall>p \<in> set feasible. cp_task_id p \<in> set tids \<longrightarrow> served_better res p \<or>
       taken_before tids res p \<or> cp_robot_id p \<in> as_robot_id ` set chosen)"
    using assms(1-3) unfolding res_def
  proof (induction tids arbitrary: chosen)
    case Nil
    then show ?case by simp
  next
    case (Cons tid tids)
    let ?used = "as_robot_id ` set chosen"
    have later: "taken_before (tid # tids) as p" if "taken_before tids as p" for as p
      using that by (auto simp: taken_before_def intro: subseq_Cons')
    show ?case
    proof (cases "first_free (ranked_for feasible tid) ?used")
      case None
      then have "cp_robot_id p \<in> ?used" if "p \<in> set feasible" "cp_task_id p = tid" for p
        using that by (simp add: first_free_None ranked_for_def)
      then show ?thesis
        using Cons.IH [of chosen] Cons.prems None later by (auto simp: pairs_by_task_get)
    next
      case (Some p)
      have p: "p \<in> set feasible" "cp_task_id p = tid" "cp_robot_id p \<notin> ?used"
        "\<And>q. q \<in> set feasible \<Longrightarrow> cp_task_id q = tid \<Longrightarrow> cp_robot_id q \<in> ?used \<or> pair_rank p \<le> pair_rank q"
        using first_free_Some [OF Some] by (auto simp: ranked_for_def simp del: less_eq_prod_simp)
      let ?res = "greedy_loop (pairs_by_task feasible) tids (as_robot_id ` set (chosen @ [to_assignment p])) (chosen @ [to_assignment p])"
      have "proposal feasible (chosen @ [to_assignment p])"
        using Cons.prems p by (auto simp: proposal_def)
      moreover have "set tids \<inter> as_task_id ` set (chosen @ [to_assignment p]) = {}"
        using Cons.prems p by auto
      ultimately have IH: "proposal feasible ?res" "set (chosen @ [to_assignment p]) \<subseteq> set ?res"
        "\<And>q. q \<in> set feasible \<Longrightarrow> cp_task_id q \<in> set tids \<Longrightarrow> served_better ?res q \<or>
          taken_before tids ?res q \<or> cp_robot_id q \<in> as_robot_id ` set (chosen @ [to_assignment p])"
        using Cons.IH [of "chosen @ [to_assignment p]"] Cons.prems(1) by auto
      have res: "greedy_loop (pairs_by_task feasible) (tid # tids) ?used chosen = ?res"
        by (simp add: pairs_by_task_get Some)
      have mine: "to_assignment p \<in> set ?res" using IH(2) by simp
      have "served_better ?res q \<or> taken_before (tid # tids) ?res q \<or> cp_robot_id q \<in> ?used"
        if q: "q \<in> set feasible" "cp_task_id q \<in> set (tid # tids)" for q
      proof (cases "cp_task_id q = tid")
        case True
        have "served_better ?res q" if "pair_rank p \<le> pair_rank q"
          unfolding served_better_def using mine p(2) True that by (intro bexI [of _ "to_assignment p"]) simp_all
        then show ?thesis using p(4) [OF q(1) True] by blast
      next
        case False
        have "taken_before (tid # tids) ?res q" if "cp_robot_id q = cp_robot_id p"
          unfolding taken_before_def using that mine p(2) q(2) False
          by (intro bexI [of _ "to_assignment p"]) (simp_all add: subseq_singleton_left)
        then show ?thesis using IH(3) [OF q(1)] q(2) False later by auto
      qed
      then show ?thesis using IH(1,2) unfolding res by auto
    qed
  qed
  then show "proposal feasible res" "set chosen \<subseteq> set res"
    "\<forall>p \<in> set feasible. cp_task_id p \<in> set tids \<longrightarrow> served_better res p \<or>
       taken_before tids res p \<or> cp_robot_id p \<in> as_robot_id ` set chosen"
    by blast+
qed

section \<open>What the optimisation model encodes\<close>

lemma fold_dict_set_new:
  assumes "distinct (map f xs)" "\<And>x. x \<in> set xs \<Longrightarrow> dict_get d (f x) = None"
  shows "fold (\<lambda>x. dict_set (f x) (g x)) xs d = d @ map (\<lambda>x. (f x, g x)) xs"
  using assms
proof (induction xs arbitrary: d)
  case (Cons x xs)
  have "dict_get (dict_set (f x) (g x) d) (f y) = None" if "y \<in> set xs" for y
    using Cons.prems that by auto
  then show ?case using Cons.IH [of "dict_set (f x) (g x) d"] Cons.prems by (simp add: dict_set_new)
qed simp

definition cost_scale :: "candidate_pair list \<Rightarrow> int" where
  "cost_scale feasible = int (length feasible) * int (length feasible) + 1"

definition effective :: "int \<Rightarrow> nat \<times> candidate_pair \<Rightarrow> int" where
  "effective scale ip = cp_total (snd ip) * scale + int (fst ip)"

lemma effective_costs_eq:
  assumes "distinct (map pair_key feasible)"
  shows "effective_costs feasible =
    map (\<lambda>ip. (pair_key (snd ip), effective (cost_scale feasible) ip)) (enumerate 0 feasible)"
proof -
  have "map (pair_key \<circ> snd) (enumerate 0 feasible) = map pair_key feasible"
    by (metis list.map_comp map_snd_enumerate)
  then have "distinct (map (pair_key \<circ> snd) (enumerate 0 feasible))" using assms by (simp only:)
  then have "fold (\<lambda>ip. dict_set ((pair_key \<circ> snd) ip) (effective (cost_scale feasible) ip)) (enumerate 0 feasible) [] =
      [] @ map (\<lambda>ip. ((pair_key \<circ> snd) ip, effective (cost_scale feasible) ip)) (enumerate 0 feasible)"
    by (rule fold_dict_set_new) simp
  then show ?thesis
    by (simp add: effective_costs_def Let_def cost_scale_def effective_def case_prod_unfold)
qed

definition selected :: "candidate_pair list \<Rightarrow> var set \<Rightarrow> candidate_pair list" where
  "selected feasible S = filter (\<lambda>p. pair_key p \<in> S) feasible"

definition plan_cost :: "candidate_pair list \<Rightarrow> int" where
  "plan_cost ps = sum_list (map cp_total ps)"

lemma distinct_map_length: "distinct (map f ys) \<longleftrightarrow> (\<forall>k. length (filter (\<lambda>x. f x = k) ys) \<le> 1)"
proof (induction ys)
  case (Cons y ys)
  let ?n = "\<lambda>k. length (filter (\<lambda>x. f x = k) ys)"
  have step: "(if k = f y then Suc (?n k) else ?n k) = length (filter (\<lambda>x. f x = k) (y # ys))" for k by auto
  have "distinct (map f (y # ys)) \<longleftrightarrow> ?n (f y) = 0 \<and> (\<forall>k. ?n k \<le> 1)"
    using Cons.IH by (auto simp: filter_empty_conv image_iff)
  also have "\<dots> \<longleftrightarrow> (\<forall>k. (if k = f y then Suc (?n k) else ?n k) \<le> 1)"
    (is "?l \<longleftrightarrow> ?r")
  proof
    assume r: ?r
    have "?n k \<le> 1" for k using r [THEN spec, of k] by (simp split: if_splits)
    then show ?l using r [THEN spec, of "f y"] by simp
  qed simp
  also have "\<dots> \<longleftrightarrow> (\<forall>k. length (filter (\<lambda>x. f x = k) (y # ys)) \<le> 1)"
    by (simp only: step)
  finally show ?case .
qed simp

lemma at_most_one_groups:
  "(\<forall>k \<in> f ` set xs. length (filter P (map g (filter (\<lambda>x. f x = k) xs))) \<le> 1) \<longleftrightarrow>
   distinct (map f (filter (\<lambda>x. P (g x)) xs))"
proof -
  have *: "length (filter P (map g (filter (\<lambda>x. f x = k) xs))) = length (filter (\<lambda>x. f x = k) (filter (\<lambda>x. P (g x)) xs))" for k
    by (simp add: filter_map comp_def conj_commute)
  have "length (filter (\<lambda>x. f x = k) (filter (\<lambda>x. P (g x)) xs)) = 0" if "k \<notin> f ` set xs" for k
    using that by (auto simp: filter_empty_conv)
  then show ?thesis unfolding * distinct_map_length by (metis le0)
qed

lemma satisfies_model:
  "satisfies (model_groups feasible) S \<longleftrightarrow>
     distinct (map cp_task_id (selected feasible S)) \<and> distinct (map cp_robot_id (selected feasible S))"
proof -
  have "satisfies (model_groups feasible) S \<longleftrightarrow>
    (\<forall>k \<in> cp_task_id ` set feasible. length (filter (\<lambda>k. k \<in> S) (map pair_key (filter (\<lambda>p. cp_task_id p = k) feasible))) \<le> 1) \<and>
    (\<forall>k \<in> cp_robot_id ` set feasible. length (filter (\<lambda>k. k \<in> S) (map pair_key (filter (\<lambda>p. cp_robot_id p = k) feasible))) \<le> 1)"
    unfolding satisfies_def model_groups_def set_append ball_Un group_values by blast
  then show ?thesis unfolding at_most_one_groups selected_def .
qed

lemma sum_list_linear:
  "sum_list (map (\<lambda>x. R - f x) xs) = int (length xs) * R - sum_list (map f xs)"
  for f :: "'a \<Rightarrow> int"
  by (induction xs) (simp_all add: algebra_simps)

lemma sum_list_filter_le:
  "(\<And>x. x \<in> set xs \<Longrightarrow> 0 \<le> f x) \<Longrightarrow> sum_list (map f (filter P xs)) \<le> sum_list (map f xs)" for f :: "'a \<Rightarrow> int"
proof (induction xs)
  case (Cons a xs)
  then show ?case using Cons.prems [of a] by force
qed simp

lemma sum_effective:
  "sum_list (map (effective k) ips) =
     k * sum_list (map (\<lambda>ip. cp_total (snd ip)) ips) + sum_list (map (\<lambda>ip. int (fst ip)) ips)"
  by (induction ips) (simp_all add: effective_def algebra_simps)

lemma sum_index_less:
  "sum_list (map (\<lambda>ip. int (fst ip)) (filter P (enumerate 0 xs))) \<le> int (length xs) * int (length xs)"
proof -
  have "sum_list (map (\<lambda>ip. int (fst ip)) (filter P (enumerate 0 xs))) \<le> sum_list (map (\<lambda>ip. int (fst ip)) (enumerate 0 xs))"
    by (rule sum_list_filter_le) simp
  also have "\<dots> \<le> sum_list (map (\<lambda>ip. int (length xs)) (enumerate 0 xs))"
    by (rule sum_list_mono) (auto simp: in_set_enumerate_eq)
  also have "\<dots> = int (length xs) * int (length xs)" by (simp add: sum_list_triv)
  finally show ?thesis .
qed

lemma model_objective_value:
  assumes "distinct (map pair_key feasible)" "\<And>p. p \<in> set feasible \<Longrightarrow> 0 \<le> cp_total p"
  defines "R \<equiv> sum_list (dict_values (effective_costs feasible)) + 1"
  shows "\<exists>i. objective_value (model_objective feasible) S =
      int (length (selected feasible S)) * R - (cost_scale feasible * plan_cost (selected feasible S) + i) \<and>
    0 \<le> i \<and> i < cost_scale feasible \<and> cost_scale feasible * plan_cost (selected feasible S) + i < R \<and>
    0 \<le> plan_cost (selected feasible S)"
proof -
  let ?E = "enumerate 0 feasible" and ?k = "cost_scale feasible"
  let ?P = "\<lambda>ip. pair_key (snd ip) \<in> S"
  let ?I = "filter ?P ?E"
  let ?i = "sum_list (map (\<lambda>ip. int (fst ip)) ?I)"
  have sel: "map snd ?I = selected feasible S"
    by (metis (no_types, lifting) selected_def comp_def filter_cong filter_map map_snd_enumerate)
  then have len: "length ?I = length (selected feasible S)" by (metis length_map)
  have R: "R = sum_list (map (effective ?k) ?E) + 1"
    by (simp add: R_def effective_costs_eq [OF assms(1)] comp_def)
  have "objective_value (model_objective feasible) S = sum_list (map (\<lambda>ip. R - effective ?k ip) ?I)"
    unfolding objective_value_def model_objective_def Let_def R_def [symmetric]
    by (simp add: effective_costs_eq [OF assms(1)] filter_map comp_def case_prod_unfold)
  also have "\<dots> = int (length (selected feasible S)) * R - sum_list (map (effective ?k) ?I)"
    by (simp add: sum_list_linear len)
  finally have obj: "objective_value (model_objective feasible) S = \<dots>" .
  have eff: "sum_list (map (effective ?k) ?I) = ?k * plan_cost (selected feasible S) + ?i"
    by (simp add: sum_effective plan_cost_def sel [symmetric] comp_def)
  have "0 \<le> effective ?k ip" if "ip \<in> set ?E" for ip
  proof -
    have "snd ip \<in> set feasible" using that by (metis image_eqI list.set_map map_snd_enumerate)
    then show ?thesis using assms(2) by (simp add: effective_def cost_scale_def)
  qed
  then have "sum_list (map (effective ?k) ?I) < R"
    unfolding R using sum_list_filter_le [of ?E "effective ?k" ?P] by simp
  moreover have "0 \<le> ?i" by (rule sum_list_nonneg) auto
  moreover have "?i < ?k" using sum_index_less [of ?P feasible] by (simp add: cost_scale_def)
  moreover have "0 \<le> plan_cost (selected feasible S)"
    unfolding plan_cost_def by (rule sum_list_nonneg) (auto simp: selected_def assms(2))
  ultimately show ?thesis unfolding obj eff by blast
qed

text \<open>A larger objective means more assignments, then a lower cost.\<close>

lemma model_objective_order:
  assumes "distinct (map pair_key feasible)" "\<And>p. p \<in> set feasible \<Longrightarrow> 0 \<le> cp_total p"
    and le: "objective_value (model_objective feasible) T \<le> objective_value (model_objective feasible) S"
  shows "length (selected feasible T) \<le> length (selected feasible S)"
    "length (selected feasible T) = length (selected feasible S) \<Longrightarrow>
      plan_cost (selected feasible S) \<le> plan_cost (selected feasible T)"
proof -
  define R where "R = sum_list (dict_values (effective_costs feasible)) + 1"
  let ?k = "cost_scale feasible"
  let ?m = "int (length (selected feasible S))" and ?n = "int (length (selected feasible T))"
  let ?c = "plan_cost (selected feasible S)" and ?d = "plan_cost (selected feasible T)"
  note val = model_objective_value [OF assms(1,2), folded R_def]
  obtain i where i: "objective_value (model_objective feasible) S = ?m * R - (?k * ?c + i)"
    "0 \<le> i" "i < ?k" "0 \<le> ?c" using val by blast
  obtain j where j: "objective_value (model_objective feasible) T = ?n * R - (?k * ?d + j)"
    "0 \<le> j" "j < ?k" "?k * ?d + j < R" "0 \<le> ?d" using val by blast
  have k: "0 < ?k" by (simp add: cost_scale_def add_nonneg_pos)
  have R: "0 < R" using j k by (smt (verit) mult_nonneg_nonneg)
  show "length (selected feasible T) \<le> length (selected feasible S)"
  proof (rule ccontr)
    assume "\<not> ?thesis"
    then have "(?m + 1) * R \<le> ?n * R" using R by (intro mult_right_mono) auto
    moreover have "0 \<le> ?k * ?c" using k i by simp
    moreover have "(?m + 1) * R = ?m * R + R" by (simp add: algebra_simps)
    ultimately show False using le i j by linarith
  qed
  show "?c \<le> ?d" if "length (selected feasible T) = length (selected feasible S)"
  proof (rule ccontr)
    assume "\<not> ?thesis"
    then have "?k * (?d + 1) \<le> ?k * ?c" using k by (intro mult_left_mono) auto
    moreover have "?k * (?d + 1) = ?k * ?d + ?k" by (simp add: algebra_simps)
    moreover have "?m = ?n" using that by simp
    then have "?m * R = ?n * R" by simp
    ultimately show False using le i j by linarith
  qed
qed

end
