(* ===== verification/Allocation_Check.thy ===== *)
theory Allocation_Check
  imports Allocators
begin

text \<open>
  The independent checker of an allocation (\<open>allocation/validation.py\<close>), the specification of a
  legal plan, and the lemmas that the checker is exact for it and that the two allocators
  propose legal plans.
\<close>

section \<open>The checker\<close>

datatype allocation_problem =
    Failed_With_Assignments nat
  | Task_Twice string
  | Robot_Twice string
  | Unknown_Robot_Named string
  | Robot_Not_Eligible string
  | Unknown_Task_Named string
  | Task_Not_Candidate string
  | Payload_Exceeded string string
  | No_Walkable_Route string string
  | Battery_Too_Low string string int
  | Wrong_Pickup_Cost string string int int
  | Wrong_Dropoff_Cost string string int int
  | Wrong_Total int int
  | Wrong_Unassigned "string list" "string list"
  | Wrong_Count nat nat nat

definition cost_problems :: "robot \<Rightarrow> assignment \<Rightarrow> assignment_cost option \<Rightarrow> allocation_problem list" where
  "cost_problems r a cost =
     (case cost of
        None \<Rightarrow> [No_Walkable_Route (as_robot_id a) (as_task_id a)]
      | Some c \<Rightarrow>
          (if \<not> is_battery_feasible r (ac_total c)
           then [Battery_Too_Low (as_robot_id a) (as_task_id a) (ac_total c)] else []) @
          (if as_robot_to_pickup a \<noteq> robot_to_pickup c
           then [Wrong_Pickup_Cost (as_robot_id a) (as_task_id a) (as_robot_to_pickup a) (robot_to_pickup c)] else []) @
          (if as_pickup_to_dropoff a \<noteq> pickup_to_dropoff c
           then [Wrong_Dropoff_Cost (as_robot_id a) (as_task_id a) (as_pickup_to_dropoff a) (pickup_to_dropoff c)] else []))"

text \<open>One assignment of the list; the sets are the tasks and robots seen before it.\<close>

definition assignment_problems ::
  "robot list \<Rightarrow> task list \<Rightarrow> string set \<Rightarrow> string set \<Rightarrow> assignment \<Rightarrow> estimator \<Rightarrow>
     (py_error + allocation_problem list) \<times> estimator" where
  "assignment_problems robots tasks seen_tasks seen_robots a est =
     (let tid = as_task_id a; rid = as_robot_id a;
          twice = (if tid \<in> seen_tasks then [Task_Twice tid] else []) @
                  (if rid \<in> seen_robots then [Robot_Twice rid] else []) in
      case find (\<lambda>r. robot_id r = rid) (rev robots) of
        None \<Rightarrow> (Inr (twice @ [Unknown_Robot_Named rid]), est)
      | Some r \<Rightarrow>
          let eligible = (if rid \<notin> set (map robot_id (eligible_robots robots)) then [Robot_Not_Eligible rid] else []) in
          (case find (\<lambda>t. task_id t = tid) (rev tasks) of
             None \<Rightarrow> (Inr (twice @ eligible @ [Unknown_Task_Named tid]), est)
           | Some t \<Rightarrow>
               let pending = (if tid \<notin> set (map task_id (pending_tasks tasks)) then [Task_Not_Candidate tid] else []);
                   payload = (if \<not> can_carry r (payload_weight t) then [Payload_Exceeded rid tid] else []) in
               (case estimate r t est of
                  (Inl e, est1) \<Rightarrow> (Inl e, est1)
                | (Inr cost, est1) \<Rightarrow> (Inr (twice @ eligible @ pending @ payload @ cost_problems r a cost), est1))))"

fun assignments_problems ::
  "robot list \<Rightarrow> task list \<Rightarrow> assignment list \<Rightarrow> string set \<Rightarrow> string set \<Rightarrow> estimator \<Rightarrow>
     (py_error + allocation_problem list) \<times> estimator" where
  "assignments_problems robots tasks [] seen_tasks seen_robots est = (Inr [], est)"
| "assignments_problems robots tasks (a # as) seen_tasks seen_robots est =
     (case assignment_problems robots tasks seen_tasks seen_robots a est of
        (Inl e, est1) \<Rightarrow> (Inl e, est1)
      | (Inr ps, est1) \<Rightarrow>
          (case assignments_problems robots tasks as (insert (as_task_id a) seen_tasks)
                  (insert (as_robot_id a) seen_robots) est1 of
             (Inl e, est2) \<Rightarrow> (Inl e, est2)
           | (Inr qs, est2) \<Rightarrow> (Inr (ps @ qs), est2)))"

definition find_allocation_problems ::
  "allocation_result \<Rightarrow> robot list \<Rightarrow> task list \<Rightarrow> estimator \<Rightarrow> (py_error + allocation_problem list) \<times> estimator" where
  "find_allocation_problems res robots tasks est =
     (if \<not> al_success res then
        (Inr (if al_assignments res \<noteq> [] then [Failed_With_Assignments (length (al_assignments res))] else []), est)
      else
        (case assignments_problems robots tasks (al_assignments res) {} {} est of
           (Inl e, est1) \<Rightarrow> (Inl e, est1)
         | (Inr ps, est1) \<Rightarrow>
             let candidates = map task_id (pending_tasks tasks);
                 actual = sum_list (map as_total (al_assignments res));
                 expected = filter (\<lambda>tid. tid \<notin> set (map as_task_id (al_assignments res))) candidates in
             (Inr (ps @
                (if al_total_estimated_cost res \<noteq> actual then [Wrong_Total (al_total_estimated_cost res) actual] else []) @
                (if sort (al_unassigned_task_ids res) \<noteq> sort expected
                 then [Wrong_Unassigned (sort (al_unassigned_task_ids res)) (sort expected)] else []) @
                (if assigned_task_count res + unassigned_task_count res \<noteq> length candidates
                 then [Wrong_Count (assigned_task_count res) (unassigned_task_count res) (length candidates)] else [])), est1)))"

definition is_valid_allocation ::
  "allocation_result \<Rightarrow> robot list \<Rightarrow> task list \<Rightarrow> estimator \<Rightarrow> (py_error + bool) \<times> estimator" where
  "is_valid_allocation res robots tasks est =
     (case find_allocation_problems res robots tasks est of
        (Inl e, est1) \<Rightarrow> (Inl e, est1)
      | (Inr ps, est1) \<Rightarrow> (Inr (ps = []), est1))"

section \<open>Legal plans\<close>

definition legal_assignment :: "planner \<Rightarrow> warehouse \<Rightarrow> robot list \<Rightarrow> task list \<Rightarrow> assignment \<Rightarrow> bool" where
  "legal_assignment planner w robots tasks a \<longleftrightarrow> (\<exists>r t c. r \<in> set robots \<and> is_available r \<and>
     t \<in> set tasks \<and> task_status t = T_PENDING \<and> feasible_pair planner w r t c \<and>
     a = \<lparr>as_robot_id = robot_id r, as_task_id = task_id t,
          as_robot_to_pickup = robot_to_pickup c, as_pickup_to_dropoff = pickup_to_dropoff c\<rparr>)"

definition legal_plan :: "planner \<Rightarrow> warehouse \<Rightarrow> robot list \<Rightarrow> task list \<Rightarrow> assignment list \<Rightarrow> bool" where
  "legal_plan planner w robots tasks as \<longleftrightarrow> distinct (map as_robot_id as) \<and> distinct (map as_task_id as) \<and>
     (\<forall>a \<in> set as. legal_assignment planner w robots tasks a)"

definition unique_ids :: "robot list \<Rightarrow> task list \<Rightarrow> bool" where
  "unique_ids robots tasks \<longleftrightarrow> distinct (map robot_id robots) \<and> distinct (map task_id tasks)"

lemma legal_assignment_offered:
  "legal_assignment planner w robots tasks a \<longleftrightarrow> a \<in> to_assignment ` set (offered planner w robots tasks)"
proof -
  have "to_assignment p = \<lparr>as_robot_id = robot_id r, as_task_id = task_id t,
      as_robot_to_pickup = robot_to_pickup c, as_pickup_to_dropoff = pickup_to_dropoff c\<rparr>"
    if "p = \<lparr>cp_robot_id = robot_id r, cp_task_id = task_id t, cp_cost = c\<rparr>" for p r t c
    using that by (simp add: to_assignment_def)
  then show ?thesis unfolding image_def legal_assignment_def mem_Collect_eq bex_simps Bex_def set_offered by metis
qed

lemma legal_plan_proposal: "legal_plan planner w robots tasks as \<longleftrightarrow> proposal (offered planner w robots tasks) as"
  unfolding legal_plan_def proposal_def legal_assignment_offered by blast

lemma legal_plan_perm: "mset as = mset bs \<Longrightarrow> legal_plan planner w robots tasks as \<longleftrightarrow> legal_plan planner w robots tasks bs"
  unfolding legal_plan_def by (metis mset_eq_imp_distinct_iff mset_eq_setD mset_map)

lemma legal_plan_tasks: "legal_plan planner w robots tasks as \<Longrightarrow> as_task_id ` set as \<subseteq> set (map task_id (pending_tasks tasks))"
  by (fastforce simp: legal_plan_def legal_assignment_def)

lemma unassigned_count:
  assumes "distinct (map f as)" "f ` set as \<subseteq> set cs" "distinct cs"
  shows "length as + length (filter (\<lambda>c. c \<notin> f ` set as) cs) = length cs"
proof -
  have "length as = card (f ` set as)" using assms(1) by (metis distinct_card length_map list.set_map)
  moreover have "length (filter (\<lambda>c. c \<notin> f ` set as) cs) = card (set cs - f ` set as)"
    using assms(3) by (metis distinct_card distinct_filter filter_set set_diff_eq set_filter)
  moreover have "card (f ` set as) + card (set cs - f ` set as) = card (set cs)"
    using assms(2) by (metis List.finite_set card_Diff_subset card_mono finite_imageI le_add_diff_inverse)
  ultimately show ?thesis using assms(3) by (simp add: distinct_card)
qed

section \<open>The checker is exact\<close>

lemma find_by_id:
  assumes "distinct (map f xs)"
  shows "find (\<lambda>x. f x = k) (rev xs) = Some x \<longleftrightarrow> x \<in> set xs \<and> f x = k"
proof -
  have "find (\<lambda>x. f x = k) ys = Some x \<longleftrightarrow> x \<in> set ys \<and> f x = k" if "distinct (map f ys)" for ys
    using that by (induction ys) auto
  from this [of "rev xs"] show ?thesis using assms by (simp add: rev_map [symmetric])
qed

lemma find_by_id_None: "find (\<lambda>x. f x = k) (rev xs) = None \<longleftrightarrow> (\<forall>x \<in> set xs. f x \<noteq> k)"
  by (auto simp: find_None_iff)

lemma by_id_unique: "distinct (map f xs) \<Longrightarrow> x \<in> set xs \<Longrightarrow> y \<in> set xs \<Longrightarrow> f x = f y \<Longrightarrow> x = y"
  by (auto simp: distinct_map inj_on_def)

lemma assignment_problems_ok:
  assumes u: "unique_ids robots tasks" and est: "est_ok est"
    and p: "priced (est_planner est) (est_warehouse est) robots tasks"
  shows "\<exists>ps est'. assignment_problems robots tasks seen_tasks seen_robots a est = (Inr ps, est') \<and>
    est_ok est' \<and> same_floor est est' \<and>
    (ps = [] \<longleftrightarrow> as_task_id a \<notin> seen_tasks \<and> as_robot_id a \<notin> seen_robots \<and>
      legal_assignment (est_planner est) (est_warehouse est) robots tasks a)"
proof (cases "find (\<lambda>r. robot_id r = as_robot_id a) (rev robots)")
  case None
  then have "\<not> legal_assignment (est_planner est) (est_warehouse est) robots tasks a"
    by (auto simp: find_by_id_None legal_assignment_def)
  then show ?thesis using est None by (simp add: assignment_problems_def Let_def)
next
  case r: (Some r)
  show ?thesis
  proof (cases "find (\<lambda>t. task_id t = as_task_id a) (rev tasks)")
    case None
    then have "\<not> legal_assignment (est_planner est) (est_warehouse est) robots tasks a"
      by (auto simp: find_by_id_None legal_assignment_def)
    then show ?thesis using est None r by (simp add: assignment_problems_def Let_def)
  next
    case t: (Some t)
    have R: "r \<in> set robots" "robot_id r = as_robot_id a" and T: "t \<in> set tasks" "task_id t = as_task_id a"
      using find_by_id [of robot_id robots] find_by_id [of task_id tasks] r t u
      by (auto simp: unique_ids_def)
    obtain c where c: "pair_cost (est_planner est) (est_warehouse est) r t = Inr c"
      using p R(1) T(1) by (auto simp: priced_def)
    obtain est1 where e: "estimate r t est = (Inr c, est1)" "est_ok est1" "same_floor est est1"
      using estimate_ok [OF est, of r t] c by (metis prod.collapse)
    have r_only: "r' = r" if "r' \<in> set robots" "robot_id r' = as_robot_id a" for r'
      using by_id_unique [of robot_id robots r' r] that R u by (simp add: unique_ids_def)
    have t_only: "t' = t" if "t' \<in> set tasks" "task_id t' = as_task_id a" for t'
      using by_id_unique [of task_id tasks t' t] that T u by (simp add: unique_ids_def)
    have elig: "as_robot_id a \<in> set (map robot_id (eligible_robots robots)) \<longleftrightarrow> is_available r"
      unfolding set_map set_eligible using r_only R by (metis (mono_tags, lifting) image_iff mem_Collect_eq)
    have pend: "as_task_id a \<in> set (map task_id (pending_tasks tasks)) \<longleftrightarrow> task_status t = T_PENDING"
      unfolding set_map set_pending using t_only T by (metis (mono_tags, lifting) image_iff mem_Collect_eq)
    have cost: "can_carry r (payload_weight t) \<and> cost_problems r a c = [] \<longleftrightarrow>
      (\<exists>k. feasible_pair (est_planner est) (est_warehouse est) r t k \<and>
        as_robot_to_pickup a = robot_to_pickup k \<and> as_pickup_to_dropoff a = pickup_to_dropoff k)"
      by (auto simp: cost_problems_def feasible_pair_def c split: option.splits)
    have legal: "legal_assignment (est_planner est) (est_warehouse est) robots tasks a \<longleftrightarrow>
      is_available r \<and> task_status t = T_PENDING \<and>
      (\<exists>k. feasible_pair (est_planner est) (est_warehouse est) r t k \<and>
        as_robot_to_pickup a = robot_to_pickup k \<and> as_pickup_to_dropoff a = pickup_to_dropoff k)"
    proof
      assume "legal_assignment (est_planner est) (est_warehouse est) robots tasks a"
      then show "is_available r \<and> task_status t = T_PENDING \<and>
        (\<exists>k. feasible_pair (est_planner est) (est_warehouse est) r t k \<and>
          as_robot_to_pickup a = robot_to_pickup k \<and> as_pickup_to_dropoff a = pickup_to_dropoff k)"
        using r_only t_only unfolding legal_assignment_def by force
    next
      assume h: "is_available r \<and> task_status t = T_PENDING \<and>
        (\<exists>k. feasible_pair (est_planner est) (est_warehouse est) r t k \<and>
          as_robot_to_pickup a = robot_to_pickup k \<and> as_pickup_to_dropoff a = pickup_to_dropoff k)"
      then show "legal_assignment (est_planner est) (est_warehouse est) robots tasks a"
        using R T unfolding legal_assignment_def by (cases a) auto
    qed
    have run: "assignment_problems robots tasks seen_tasks seen_robots a est =
      (Inr (((if as_task_id a \<in> seen_tasks then [Task_Twice (as_task_id a)] else []) @
        (if as_robot_id a \<in> seen_robots then [Robot_Twice (as_robot_id a)] else [])) @
        (if \<not> is_available r then [Robot_Not_Eligible (as_robot_id a)] else []) @
        (if task_status t \<noteq> T_PENDING then [Task_Not_Candidate (as_task_id a)] else []) @
        (if \<not> can_carry r (payload_weight t) then [Payload_Exceeded (as_robot_id a) (as_task_id a)] else []) @
        cost_problems r a c), est1)"
      unfolding assignment_problems_def Let_def r t option.case elig pend e by simp
    show ?thesis unfolding run legal cost [symmetric] using e(2,3) by auto
  qed
qed

lemma assignments_problems_ok:
  assumes "unique_ids robots tasks" "est_ok est" "priced (est_planner est) (est_warehouse est) robots tasks"
  shows "\<exists>ps est'. assignments_problems robots tasks as seen_tasks seen_robots est = (Inr ps, est') \<and>
    est_ok est' \<and> same_floor est est' \<and>
    (ps = [] \<longleftrightarrow> legal_plan (est_planner est) (est_warehouse est) robots tasks as \<and>
      as_task_id ` set as \<inter> seen_tasks = {} \<and> as_robot_id ` set as \<inter> seen_robots = {})"
  using assms(2,3)
proof (induction as arbitrary: seen_tasks seen_robots est)
  case Nil
  then show ?case by (simp add: legal_plan_def)
next
  case (Cons a as)
  obtain ps est1 where one: "assignment_problems robots tasks seen_tasks seen_robots a est = (Inr ps, est1)"
    "est_ok est1" "same_floor est est1"
    "ps = [] \<longleftrightarrow> as_task_id a \<notin> seen_tasks \<and> as_robot_id a \<notin> seen_robots \<and>
      legal_assignment (est_planner est) (est_warehouse est) robots tasks a"
    using assignment_problems_ok [OF assms(1) Cons.prems] by blast
  have f: "est_planner est1 = est_planner est" "est_warehouse est1 = est_warehouse est"
    using one(3) by (simp_all add: same_floor_def)
  obtain qs est2 where rest: "assignments_problems robots tasks as (insert (as_task_id a) seen_tasks)
      (insert (as_robot_id a) seen_robots) est1 = (Inr qs, est2)"
    "est_ok est2" "same_floor est1 est2"
    "qs = [] \<longleftrightarrow> legal_plan (est_planner est) (est_warehouse est) robots tasks as \<and>
      as_task_id ` set as \<inter> insert (as_task_id a) seen_tasks = {} \<and>
      as_robot_id ` set as \<inter> insert (as_robot_id a) seen_robots = {}"
    using Cons.IH [OF one(2), unfolded f, OF Cons.prems(2)] by metis
  have "ps @ qs = [] \<longleftrightarrow> legal_plan (est_planner est) (est_warehouse est) robots tasks (a # as) \<and>
      as_task_id ` set (a # as) \<inter> seen_tasks = {} \<and> as_robot_id ` set (a # as) \<inter> seen_robots = {}"
    unfolding append_is_Nil_conv one(4) rest(4) legal_plan_def by auto
  then show ?case using one(1) rest(1,2) same_floor_trans [OF one(3) rest(3)] by simp
qed

text \<open>What a successful result has to report.\<close>

definition honest_report :: "task list \<Rightarrow> allocation_result \<Rightarrow> bool" where
  "honest_report tasks res \<longleftrightarrow>
     al_total_estimated_cost res = sum_list (map as_total (al_assignments res)) \<and>
     mset (al_unassigned_task_ids res) =
       mset (filter (\<lambda>tid. tid \<notin> as_task_id ` set (al_assignments res)) (map task_id (pending_tasks tasks)))"

lemma sort_eq_iff: "sort xs = sort ys \<longleftrightarrow> mset xs = mset ys" for xs ys :: "'a :: linorder list"
  by (metis mset_sort properties_for_sort sorted_sort)

lemma distinct_pending: "distinct (map task_id tasks) \<Longrightarrow> distinct (map task_id (pending_tasks tasks))"
  by (simp add: pending_tasks_def distinct_map_sort_key distinct_map_filter)

lemma checker_exact:
  assumes "unique_ids robots tasks" "est_ok est" "priced (est_planner est) (est_warehouse est) robots tasks"
  shows "\<exists>ps est'. find_allocation_problems res robots tasks est = (Inr ps, est') \<and>
    est_ok est' \<and> same_floor est est' \<and>
    (ps = [] \<longleftrightarrow> (if al_success res
       then legal_plan (est_planner est) (est_warehouse est) robots tasks (al_assignments res) \<and> honest_report tasks res
       else al_assignments res = []))"
proof (cases "al_success res")
  case False
  then show ?thesis using assms(2) by (simp add: find_allocation_problems_def)
next
  case True
  let ?as = "al_assignments res" and ?cs = "map task_id (pending_tasks tasks)"
  obtain ps est1 where loop: "assignments_problems robots tasks ?as {} {} est = (Inr ps, est1)"
    "est_ok est1" "same_floor est est1"
    "ps = [] \<longleftrightarrow> legal_plan (est_planner est) (est_warehouse est) robots tasks ?as"
    using assignments_problems_ok [OF assms, of ?as "{}" "{}"] by auto
  have "assigned_task_count res + unassigned_task_count res = length ?cs"
    if "legal_plan (est_planner est) (est_warehouse est) robots tasks ?as" "honest_report tasks res"
  proof -
    have "length (al_unassigned_task_ids res) = length (filter (\<lambda>tid. tid \<notin> as_task_id ` set ?as) ?cs)"
      using that(2) unfolding honest_report_def by (metis size_mset)
    then show ?thesis
      using unassigned_count [of as_task_id ?as ?cs] that(1) legal_plan_tasks [OF that(1)] distinct_pending assms(1)
      unfolding legal_plan_def unique_ids_def assigned_task_count_def unassigned_task_count_def by metis
  qed
  then show ?thesis
    using True loop by (auto simp: find_allocation_problems_def Let_def sort_eq_iff honest_report_def)
qed

section \<open>The results of the allocators\<close>

lemma build_result_sel [simp]:
  "al_algorithm (build_result alg st ok as cs e i) = alg"
  "al_solver_status (build_result alg st ok as cs e i) = st"
  "al_success (build_result alg st ok as cs e i) = ok"
  "mset (al_assignments (build_result alg st ok as cs e i)) = mset as"
  "set (al_assignments (build_result alg st ok as cs e i)) = set as"
  "length (al_assignments (build_result alg st ok as cs e i)) = length as"
  "al_total_estimated_cost (build_result alg st ok as cs e i) = sum_list (map as_total as)"
  "al_unassigned_task_ids (build_result alg st ok as cs e i) = filter (\<lambda>tid. tid \<notin> as_task_id ` set as) cs"
  by (simp_all add: build_result_def Let_def)

lemma build_result_honest:
  "honest_report tasks (build_result alg st ok as (map task_id (pending_tasks tasks)) e i)"
proof -
  have "sum_list (map as_total xs) = sum_list (map as_total as)" if "mset xs = mset as" for xs
  proof -
    have "sum_mset (mset (map as_total xs)) = sum_mset (mset (map as_total as))" by (simp add: that)
    then show ?thesis unfolding sum_mset_sum_list .
  qed
  from this [OF build_result_sel(4)] show ?thesis by (simp add: honest_report_def)
qed

lemma build_result_legal:
  "legal_plan planner w robots tasks (al_assignments (build_result alg st ok as cs e i)) \<longleftrightarrow>
   legal_plan planner w robots tasks as"
  by (rule legal_plan_perm) simp

definition greedy_choice :: "candidate_pair list \<Rightarrow> task list \<Rightarrow> assignment list" where
  "greedy_choice feasible tasks = greedy_loop (pairs_by_task feasible) (map task_id (pending_tasks tasks)) {} []"

lemma greedy_allocate_ok:
  assumes "est_ok est" "priced (est_planner est) (est_warehouse est) robots tasks"
  defines "F \<equiv> offered (est_planner est) (est_warehouse est) robots tasks"
  shows "\<exists>n est'. greedy_allocate robots tasks est = (Inr (build_result ''greedy'' ''GREEDY'' True
      (greedy_choice F tasks) (map task_id (pending_tasks tasks)) (length F) n), est') \<and>
    est_ok est' \<and> same_floor est est'"
proof -
  obtain n est' where "build_candidate_pairs robots tasks est = (Inr (F, n), est')" "est_ok est'" "same_floor est est'"
    using build_candidate_pairs_ok [OF assms(1,2)] unfolding F_def by blast
  then show ?thesis by (auto simp: greedy_allocate_def greedy_choice_def Let_def)
qed

lemma greedy_choice_ok:
  assumes "distinct (map task_id tasks)"
  shows "proposal F (greedy_choice F tasks)"
    "\<And>p. p \<in> set F \<Longrightarrow> cp_task_id p \<in> set (map task_id (pending_tasks tasks)) \<Longrightarrow>
      served_better (greedy_choice F tasks) p \<or>
      taken_before (map task_id (pending_tasks tasks)) (greedy_choice F tasks) p"
  using greedy_loop_ok [OF distinct_pending [OF assms] proposal_Nil, of F]
  by (auto simp: greedy_choice_def)

lemma cp_sat_allocate_ok:
  fixes solver :: cp_solver
  assumes "est_ok est" "priced (est_planner est) (est_warehouse est) robots tasks"
  defines "F \<equiv> offered (est_planner est) (est_warehouse est) robots tasks"
  defines "ans \<equiv> if F = [] then (''OPTIMAL'', {}) else solver (model_groups F) (model_objective F)"
  defines "chosen \<equiv> if fst ans \<in> {''OPTIMAL'', ''FEASIBLE''} then map to_assignment (selected F (snd ans)) else []"
  shows "\<exists>n est'. cp_sat_allocate solver robots tasks est = (Inr (build_result ''cp_sat'' (fst ans)
      (fst ans \<in> {''OPTIMAL'', ''FEASIBLE''}) chosen (map task_id (pending_tasks tasks)) (length F) n), est') \<and>
    est_ok est' \<and> same_floor est est'"
proof -
  obtain n est' where b: "build_candidate_pairs robots tasks est = (Inr (F, n), est')"
    and e: "est_ok est'" "same_floor est est'"
    using build_candidate_pairs_ok [OF assms(1,2)] unfolding F_def by blast
  have "fst (cp_sat_allocate solver robots tasks est) = Inr (build_result ''cp_sat'' (fst ans)
      (fst ans \<in> {''OPTIMAL'', ''FEASIBLE''}) chosen (map task_id (pending_tasks tasks)) (length F) n)"
    "snd (cp_sat_allocate solver robots tasks est) = est'"
    by (auto simp: cp_sat_allocate_def b chosen_def ans_def selected_def Let_def split: prod.splits)
  then show ?thesis using e by (metis prod.collapse)
qed

section \<open>Optimality\<close>

definition vars_of :: "assignment list \<Rightarrow> var set" where
  "vars_of as = (\<lambda>a. (as_robot_id a, as_task_id a)) ` set as"

lemma proposal_selected:
  assumes d: "distinct (map pair_key F)" and p: "proposal F as"
  shows "mset (map to_assignment (selected F (vars_of as))) = mset as"
proof (rule set_eq_iff_mset_eq_distinct [THEN iffD1])
  have key: "(as_robot_id (to_assignment q), as_task_id (to_assignment q)) = pair_key q" for q
    by (simp add: pair_key_def)
  show "distinct as" using p by (auto simp: proposal_def distinct_map)
  have "distinct (map (\<lambda>a. (as_robot_id a, as_task_id a)) (map to_assignment (selected F (vars_of as))))"
    using d by (simp add: key [simplified] selected_def distinct_map_filter comp_def)
  then show "distinct (map to_assignment (selected F (vars_of as)))" by (rule distinct_map [THEN iffD1, THEN conjunct1])
  show "set (map to_assignment (selected F (vars_of as))) = set as"
  proof (intro equalityI subsetI)
    fix a assume "a \<in> set (map to_assignment (selected F (vars_of as)))"
    then obtain q where q: "q \<in> set F" "pair_key q \<in> vars_of as" "a = to_assignment q" by (auto simp: selected_def)
    then obtain b where b: "b \<in> set as" "pair_key q = (as_robot_id b, as_task_id b)" by (auto simp: vars_of_def)
    then obtain q' where "q' \<in> set F" "b = to_assignment q'" using p by (auto simp: proposal_def)
    then have "q' = q" using by_id_unique [OF d, of q' q] q(1) b(2) key [of q'] by simp
    then show "a \<in> set as" using q(3) b(1) \<open>b = to_assignment q'\<close> by simp
  next
    fix a assume a: "a \<in> set as"
    then obtain q where "q \<in> set F" "a = to_assignment q" using p by (auto simp: proposal_def)
    moreover have "pair_key q \<in> vars_of as"
      using a \<open>a = to_assignment q\<close> by (auto simp: vars_of_def pair_key_def intro!: image_eqI [of _ _ a])
    ultimately show "a \<in> set (map to_assignment (selected F (vars_of as)))" by (auto simp: selected_def)
  qed
qed

lemma selected_proposal:
  "satisfies (model_groups F) S \<longleftrightarrow> proposal F (map to_assignment (selected F S))"
  by (auto simp: satisfies_model proposal_def selected_def comp_def)

lemma sum_as_total: "sum_list (map as_total (map to_assignment ps)) = plan_cost ps"
  by (simp add: plan_cost_def comp_def)

lemma proposal_measures:
  assumes "distinct (map pair_key F)" "proposal F as"
  shows "satisfies (model_groups F) (vars_of as)"
    "length (selected F (vars_of as)) = length as"
    "plan_cost (selected F (vars_of as)) = sum_list (map as_total as)"
proof -
  note m = proposal_selected [OF assms]
  show "satisfies (model_groups F) (vars_of as)"
    using assms(2) m unfolding selected_proposal proposal_def
    by (metis mset_eq_imp_distinct_iff mset_eq_setD mset_map)
  show "length (selected F (vars_of as)) = length as" using m by (metis length_map size_mset)
  show "plan_cost (selected F (vars_of as)) = sum_list (map as_total as)"
  proof -
    have "sum_mset (mset (map as_total (map to_assignment (selected F (vars_of as))))) = sum_mset (mset (map as_total as))"
      using m by (metis mset_map)
    then show ?thesis unfolding sum_mset_sum_list sum_as_total .
  qed
qed

lemma best_proposal:
  assumes "distinct (map pair_key F)" "\<And>p. p \<in> set F \<Longrightarrow> 0 \<le> cp_total p"
    and best: "\<And>T. satisfies (model_groups F) T \<Longrightarrow>
      objective_value (model_objective F) T \<le> objective_value (model_objective F) S"
    and as: "proposal F as"
  shows "length as \<le> length (selected F S) \<and>
    (length as = length (selected F S) \<longrightarrow> plan_cost (selected F S) \<le> sum_list (map as_total as))"
  using model_objective_order [OF assms(1,2) best] proposal_measures [OF assms(1) as] by metis

end
