(* ===== verification/Allocation_Properties.thy ===== *)
theory Allocation_Properties
  imports Allocation_Check Fixtures
begin

text \<open>
  What the allocation cycle promises: the prices are shortest routes, the candidate pairs are
  the feasible ones, the checker of results is exact, the greedy allocator is stable, and the
  optimising allocator serves as many tasks as possible at the lowest cost, given a solver that
  keeps its own promises.
\<close>

section \<open>Helpers\<close>

lemma estimator_init_sel [simp]: "est_planner (estimator_init w p) = p" "est_warehouse (estimator_init w p) = w"
  by (simp_all add: estimator_init_def)

lemma route_planner_priced:
  "route_planner name planner \<Longrightarrow> inside w robots tasks \<Longrightarrow> priced planner w robots tasks"
  by (rule route_planner.priced)

lemma is_valid_allocation_iff:
  assumes "unique_ids robots tasks" "est_ok est" "priced (est_planner est) (est_warehouse est) robots tasks"
  shows "fst (is_valid_allocation res robots tasks est) = Inr (if al_success res
    then legal_plan (est_planner est) (est_warehouse est) robots tasks (al_assignments res) \<and> honest_report tasks res
    else al_assignments res = [])"
  using checker_exact [OF assms, of res] by (auto simp: is_valid_allocation_def)

text \<open>The result of the optimising allocator, and why it is best.\<close>

lemma cp_sat_chosen:
  assumes "est_ok est" "priced (est_planner est) (est_warehouse est) robots tasks" "solver_ok solver"
    "cp_sat_allocate solver robots tasks est = (Inr res, est')"
  defines "F \<equiv> offered (est_planner est) (est_warehouse est) robots tasks"
  shows "\<exists>st S n. res = build_result ''cp_sat'' st (st \<in> {''OPTIMAL'', ''FEASIBLE''})
      (if st \<in> {''OPTIMAL'', ''FEASIBLE''} then map to_assignment (selected F S) else [])
      (map task_id (pending_tasks tasks)) (length F) n \<and>
    (st \<in> {''OPTIMAL'', ''FEASIBLE''} \<longrightarrow> satisfies (model_groups F) S) \<and>
    (st = ''OPTIMAL'' \<longrightarrow> (\<forall>T. satisfies (model_groups F) T \<longrightarrow>
      objective_value (model_objective F) T \<le> objective_value (model_objective F) S))"
proof -
  let ?ans = "if F = [] then (''OPTIMAL'', {}) else solver (model_groups F) (model_objective F)"
  obtain n where res: "res = build_result ''cp_sat'' (fst ?ans) (fst ?ans \<in> {''OPTIMAL'', ''FEASIBLE''})
      (if fst ?ans \<in> {''OPTIMAL'', ''FEASIBLE''} then map to_assignment (selected F (snd ?ans)) else [])
      (map task_id (pending_tasks tasks)) (length F) n"
    using cp_sat_allocate_ok [OF assms(1,2), of solver, folded F_def] assms(4) by auto
  have empty: "model_objective [] = []" "model_groups [] = []"
    by (simp_all add: model_objective_def model_groups_def effective_costs_def)
  have sat: "(fst ?ans \<in> {''OPTIMAL'', ''FEASIBLE''} \<longrightarrow> satisfies (model_groups F) (snd ?ans)) \<and>
    (fst ?ans = ''OPTIMAL'' \<longrightarrow> (\<forall>T. satisfies (model_groups F) T \<longrightarrow>
      objective_value (model_objective F) T \<le> objective_value (model_objective F) (snd ?ans)))"
  proof (cases "F = []")
    case True
    then show ?thesis by (simp add: empty satisfies_def objective_value_def)
  next
    case False
    have "solver (model_groups F) (model_objective F) = (fst ?ans, snd ?ans)" using False by simp
    from assms(3) [unfolded solver_ok_def, THEN spec, THEN spec, THEN spec, THEN spec, THEN mp, OF this]
    show ?thesis .
  qed
  show ?thesis by (rule exI [of _ "fst ?ans"], rule exI [of _ "snd ?ans"], rule exI [of _ n]) (intro conjI res sat)
qed

lemma cp_sat_best:
  assumes r: "route_planner name (est_planner est)" and i: "inside (est_warehouse est) robots tasks"
    and u: "unique_ids robots tasks" and e: "est_ok est" and s: "solver_ok solver"
    and run: "cp_sat_allocate solver robots tasks est = (Inr res, est')" and opt: "al_solver_status res = ''OPTIMAL''"
    and as: "legal_plan (est_planner est) (est_warehouse est) robots tasks as"
  shows "length as \<le> assigned_task_count res \<and>
    (length as = assigned_task_count res \<longrightarrow> al_total_estimated_cost res \<le> sum_list (map as_total as))"
proof -
  let ?F = "offered (est_planner est) (est_warehouse est) robots tasks"
  obtain S n where S: "res = build_result ''cp_sat'' ''OPTIMAL'' True (map to_assignment (selected ?F S))
      (map task_id (pending_tasks tasks)) (length ?F) n"
    "\<And>T. satisfies (model_groups ?F) T \<Longrightarrow>
      objective_value (model_objective ?F) T \<le> objective_value (model_objective ?F) S"
    using cp_sat_chosen [OF e route_planner_priced [OF r i] s run] opt by auto
  have "length as \<le> length (selected ?F S) \<and>
    (length as = length (selected ?F S) \<longrightarrow> plan_cost (selected ?F S) \<le> sum_list (map as_total as))"
  proof (rule best_proposal)
    show "distinct (map pair_key ?F)" using distinct_offered u by (simp add: unique_ids_def)
    show "0 \<le> cp_total p" if "p \<in> set ?F" for p by (rule route_planner.offered_nonneg [OF r i that])
    show "proposal ?F as" using as by (simp add: legal_plan_proposal)
  qed (rule S(2))
  moreover have "al_total_estimated_cost res = plan_cost (selected ?F S)" "assigned_task_count res = length (selected ?F S)"
    by (simp_all add: S(1) assigned_task_count_def sum_as_total del: map_map)
  ultimately show ?thesis by simp
qed

lemma greedy_result:
  assumes "est_ok est" "priced (est_planner est) (est_warehouse est) robots tasks" "unique_ids robots tasks"
  defines "F \<equiv> offered (est_planner est) (est_warehouse est) robots tasks"
  shows "\<exists>res est'. greedy_allocate robots tasks est = (Inr res, est') \<and> al_success res \<and>
    legal_plan (est_planner est) (est_warehouse est) robots tasks (al_assignments res) \<and> honest_report tasks res \<and>
    set (al_assignments res) = set (greedy_choice F tasks)"
proof -
  have "legal_plan (est_planner est) (est_warehouse est) robots tasks (greedy_choice F tasks)"
    using greedy_choice_ok(1) assms(3) by (simp add: legal_plan_proposal F_def unique_ids_def)
  then show ?thesis
    using greedy_allocate_ok [OF assms(1,2)] build_result_honest build_result_legal
    unfolding F_def by fastforce
qed

lemma cp_sat_legal:
  assumes "est_ok est" "priced (est_planner est) (est_warehouse est) robots tasks" "solver_ok solver"
  shows "\<exists>res est'. cp_sat_allocate solver robots tasks est = (Inr res, est') \<and>
    (al_success res \<longleftrightarrow> al_solver_status res \<in> {''OPTIMAL'', ''FEASIBLE''}) \<and> honest_report tasks res \<and>
    (if al_success res then legal_plan (est_planner est) (est_warehouse est) robots tasks (al_assignments res)
     else al_assignments res = [])"
proof -
  let ?F = "offered (est_planner est) (est_warehouse est) robots tasks"
  obtain res est' where run: "cp_sat_allocate solver robots tasks est = (Inr res, est')"
    using cp_sat_allocate_ok [OF assms(1,2)] by blast
  obtain st S n where S: "res = build_result ''cp_sat'' st (st \<in> {''OPTIMAL'', ''FEASIBLE''})
      (if st \<in> {''OPTIMAL'', ''FEASIBLE''} then map to_assignment (selected ?F S) else [])
      (map task_id (pending_tasks tasks)) (length ?F) n"
    "st \<in> {''OPTIMAL'', ''FEASIBLE''} \<longrightarrow> satisfies (model_groups ?F) S"
    using cp_sat_chosen [OF assms run] by blast
  have ok: "al_success res \<longleftrightarrow> st \<in> {''OPTIMAL'', ''FEASIBLE''}" "al_solver_status res = st"
    unfolding S(1) by simp_all
  have honest: "honest_report tasks res" unfolding S(1) by (rule build_result_honest)
  have legal: "legal_plan (est_planner est) (est_warehouse est) robots tasks (al_assignments res)" if h: "al_success res"
  proof -
    have "proposal ?F (map to_assignment (selected ?F S))"
      using S(2) h unfolding ok selected_proposal by (rule mp)
    moreover have "st \<in> {''OPTIMAL'', ''FEASIBLE''}" using h unfolding ok .
    ultimately show ?thesis unfolding S(1) build_result_legal unfolding legal_plan_proposal by simp
  qed
  have none: "al_assignments res = []" if "\<not> al_success res"
    using that unfolding ok by (simp add: S(1) build_result_def)
  show ?thesis using run ok honest legal none by auto
qed

section \<open>Prices and candidates\<close>

text \<open>
  Pricing a pair returns, with whatever is in the cache, the two leg costs exactly when
  both legs have routes, each cost being the number of moves of a shortest route, and \<open>None\<close>
  otherwise; the cache stays truthful.
\<close>

theorem estimates_are_shortest_routes:
  assumes "route_planner name (est_planner est)" "est_ok est"
    "inside (est_warehouse est) [r] [t]"
  shows "\<exists>c est'. estimate r t est = (Inr c, est') \<and> est_ok est' \<and>
    (\<forall>k. c = Some k \<longleftrightarrow>
      shortest (est_warehouse est) (robot_position r) (pickup_location t) (robot_to_pickup k) \<and>
      shortest (est_warehouse est) (pickup_location t) (dropoff_location t) (pickup_to_dropoff k))"
proof -
  have "\<exists>c. pair_cost (est_planner est) (est_warehouse est) r t = Inr c \<and> (\<forall>k. c = Some k \<longleftrightarrow>
      shortest (est_warehouse est) (robot_position r) (pickup_location t) (robot_to_pickup k) \<and>
      shortest (est_warehouse est) (pickup_location t) (dropoff_location t) (pickup_to_dropoff k))"
    using assms(3) by (intro route_planner.pair_cost_routes [OF assms(1)]) (simp_all add: inside_def)
  then show ?thesis using estimate_ok [OF assms(2), of r t] by (metis prod.collapse)
qed

text \<open>
  The candidate pairs of a cycle are exactly the pairs of an available robot and a pending
  task where the robot can carry the load, both legs have routes and the battery suffices for
  them, each with its cost; every other pair of an available robot and a pending task is
  counted as infeasible.
\<close>

theorem candidate_pairs_exact:
  assumes "route_planner name (est_planner est)" "est_ok est" "inside (est_warehouse est) robots tasks"
  shows "\<exists>feasible infeasible est'. build_candidate_pairs robots tasks est = (Inr (feasible, infeasible), est') \<and>
    (\<forall>p. p \<in> set feasible \<longleftrightarrow> (\<exists>r t c. r \<in> set robots \<and> is_available r \<and>
      t \<in> set tasks \<and> task_status t = T_PENDING \<and> feasible_pair (est_planner est) (est_warehouse est) r t c \<and>
      p = \<lparr>cp_robot_id = robot_id r, cp_task_id = task_id t, cp_cost = c\<rparr>)) \<and>
    infeasible + length feasible = length (eligible_robots robots) * length (pending_tasks tasks)"
  using build_candidate_pairs_ok [OF assms(2) route_planner_priced [OF assms(1,3)]] set_offered by blast

section \<open>The allocators\<close>

text \<open>
  C30: The checker of allocations is exact: for a successful result it finds no problem if and
  only if the assignments are a legal plan (no robot or task twice, only available robots and
  pending tasks, each pair feasible and reported with its true costs), the total is their sum
  and the unassigned tasks are the other pending ones; for an unsuccessful one, if and only if
  it carries no assignment.
\<close>

theorem allocation_checker_exact:
  assumes "route_planner name (est_planner est)" "est_ok est" "inside (est_warehouse est) robots tasks"
    "unique_ids robots tasks"
  shows "fst (is_valid_allocation res robots tasks est) = Inr (if al_success res
    then legal_plan (est_planner est) (est_warehouse est) robots tasks (al_assignments res) \<and> honest_report tasks res
    else al_assignments res = [])"
  by (rule is_valid_allocation_iff [OF assms(4,2) route_planner_priced [OF assms(1,3)]])

text \<open>The only error of the loop over the pairs is that of the planner, for a cell off the floor.\<close>

lemma path_cost_planner: "est_planner (snd (path_cost a b est)) = est_planner est"
  by (simp add: path_cost_def Let_def split: option.splits sum.splits)

lemma path_cost_error:
  assumes "route_planner name (est_planner est)" "path_cost a b est = (Inl e, est')"
  shows "e = InvalidPositionError"
proof -
  have "res_bind (est_planner est a b (est_warehouse est)) result_cost = Inl e"
    using assms(2) by (auto simp: path_cost_def Let_def split: option.splits sum.splits)
  moreover have "plan_spec name (est_warehouse est) a b (est_planner est a b (est_warehouse est))"
    by (rule route_planner.contract [OF assms(1)])
  ultimately show ?thesis
    by (auto simp: plan_spec_def result_cost_def path_found_def path_not_found_def split: if_splits)
qed

lemma pair_loop_error:
  assumes "route_planner name (est_planner est)" "pair_loop pairs feasible infeasible est = (Inl e, est')"
  shows "e = InvalidPositionError"
  using assms
proof (induction pairs feasible infeasible est rule: pair_loop.induct)
  case (2 r t rest feasible infeasible est)
  obtain c est1 where c: "path_cost (robot_position r) (pickup_location t) est = (c, est1)" by fastforce
  obtain d est2 where d: "path_cost (pickup_location t) (dropoff_location t) est1 = (d, est2)" by fastforce
  have keep: "est_planner est1 = est_planner est" "est_planner est2 = est_planner est"
    using path_cost_planner [of "robot_position r" "pickup_location t" est] path_cost_planner [of "pickup_location t" "dropoff_location t" est1]
    by (simp_all add: c d)
  have here: "route_planner name (est_planner est1)" "route_planner name (est_planner est2)" using 2(5) by (simp_all add: keep)
  have "c = Inl x \<Longrightarrow> x = InvalidPositionError" "d = Inl x \<Longrightarrow> x = InvalidPositionError" for x
    using path_cost_error [OF 2(5)] path_cost_error [OF here(1)] c d by blast+
  then show ?case using 2 here
    by (simp add: estimate_def c d split: if_splits sum.splits option.splits)
qed simp

text \<open>
  C21: For robots and tasks with unique ids, whose cells are all on the floor, the greedy allocator
  answers, its answer passes the checker with a fresh estimator, and it is stable: for every
  feasible pair, its task was given to a robot that is at least as cheap, or its robot was taken by
  a task that comes earlier in the priority order. It can fail only because a cell is off the
  floor, and then with the planner's \<open>InvalidPositionError\<close>.
\<close>

theorem greedy_allocation_stable:
  assumes "route_planner name (est_planner est)" "est_ok est" "unique_ids robots tasks"
  shows "(inside (est_warehouse est) robots tasks \<longrightarrow>
      (\<exists>res est'. greedy_allocate robots tasks est = (Inr res, est') \<and> al_success res \<and>
        fst (is_valid_allocation res robots tasks (estimator_init (est_warehouse est) (est_planner est))) = Inr True \<and>
        (\<forall>p \<in> set (offered (est_planner est) (est_warehouse est) robots tasks).
          served_better (al_assignments res) p \<or>
          taken_before (map task_id (pending_tasks tasks)) (al_assignments res) p))) \<and>
    (\<forall>e est'. greedy_allocate robots tasks est = (Inl e, est') \<longrightarrow>
      e = InvalidPositionError \<and> \<not> inside (est_warehouse est) robots tasks)"
proof (intro conjI impI allI)
  fix e est' assume "greedy_allocate robots tasks est = (Inl e, est')"
  then show "e = InvalidPositionError"
    using pair_loop_error [OF assms(1)] by (auto simp: greedy_allocate_def build_candidate_pairs_def Let_def split: sum.splits prod.splits)
next
  fix e est' assume run: "greedy_allocate robots tasks est = (Inl e, est')"
  show "\<not> inside (est_warehouse est) robots tasks"
  proof
    assume "inside (est_warehouse est) robots tasks"
    from greedy_result [OF assms(2) route_planner_priced [OF assms(1) this] assms(3)] run show False by auto
  qed
next
  assume within: "inside (est_warehouse est) robots tasks"
  let ?F = "offered (est_planner est) (est_warehouse est) robots tasks"
  note priced = route_planner_priced [OF assms(1) within]
  obtain res est' where res: "greedy_allocate robots tasks est = (Inr res, est')" "al_success res"
    "legal_plan (est_planner est) (est_warehouse est) robots tasks (al_assignments res)" "honest_report tasks res"
    "set (al_assignments res) = set (greedy_choice ?F tasks)"
    using greedy_result [OF assms(2) priced assms(3)] by blast
  have "fst (is_valid_allocation res robots tasks (estimator_init (est_warehouse est) (est_planner est))) = Inr True"
    using is_valid_allocation_iff [OF assms(3), of "estimator_init (est_warehouse est) (est_planner est)" res] priced res
    by simp
  moreover have "served_better (al_assignments res) p \<or>
      taken_before (map task_id (pending_tasks tasks)) (al_assignments res) p" if "p \<in> set ?F" for p
  proof -
    have "cp_task_id p \<in> set (map task_id (pending_tasks tasks))" using that by (auto simp: set_offered)
    then show ?thesis using greedy_choice_ok(2) [of tasks p ?F] that assms(3)
      by (simp add: unique_ids_def served_better_def taken_before_def res(5))
  qed
  ultimately show "\<exists>res est'. greedy_allocate robots tasks est = (Inr res, est') \<and> al_success res \<and>
        fst (is_valid_allocation res robots tasks (estimator_init (est_warehouse est) (est_planner est))) = Inr True \<and>
        (\<forall>p \<in> set ?F. served_better (al_assignments res) p \<or>
          taken_before (map task_id (pending_tasks tasks)) (al_assignments res) p)"
    using res(1,2) by blast
qed

text \<open>
  C19: With a solver that keeps its promises and reports OPTIMAL, the optimising allocator
  returns a legal plan that assigns as many tasks as any legal plan can, at the lowest total
  cost among those: the single objective encodes the two goals in that order.
\<close>

theorem cp_sat_allocation_optimal:
  assumes "route_planner name (est_planner est)" "est_ok est" "inside (est_warehouse est) robots tasks"
    "unique_ids robots tasks" "solver_ok solver"
    "cp_sat_allocate solver robots tasks est = (Inr res, est')" "al_solver_status res = ''OPTIMAL''"
  shows "legal_plan (est_planner est) (est_warehouse est) robots tasks (al_assignments res) \<and>
    (\<forall>as. legal_plan (est_planner est) (est_warehouse est) robots tasks as \<longrightarrow>
      length as \<le> assigned_task_count res \<and>
      (length as = assigned_task_count res \<longrightarrow> al_total_estimated_cost res \<le> sum_list (map as_total as)))"
proof -
  have "legal_plan (est_planner est) (est_warehouse est) robots tasks (al_assignments res)"
    using cp_sat_legal [OF assms(2) route_planner_priced [OF assms(1,3)] assms(5)] assms(6,7) by auto
  then show ?thesis using cp_sat_best [OF assms(1,3,4,2,5,6,7)] by blast
qed

text \<open>
  Whatever status the solver reports, the optimising allocator answers with a result that
  passes the checker; it is successful exactly for the statuses OPTIMAL and FEASIBLE.
\<close>

theorem cp_sat_allocation_validates:
  assumes "route_planner name (est_planner est)" "est_ok est" "inside (est_warehouse est) robots tasks"
    "unique_ids robots tasks" "solver_ok solver"
  shows "\<exists>res est'. cp_sat_allocate solver robots tasks est = (Inr res, est') \<and>
    (al_success res \<longleftrightarrow> al_solver_status res \<in> {''OPTIMAL'', ''FEASIBLE''}) \<and>
    fst (is_valid_allocation res robots tasks (estimator_init (est_warehouse est) (est_planner est))) = Inr True"
proof -
  note priced = route_planner_priced [OF assms(1,3)]
  obtain res est' where res: "cp_sat_allocate solver robots tasks est = (Inr res, est')"
    "al_success res \<longleftrightarrow> al_solver_status res \<in> {''OPTIMAL'', ''FEASIBLE''}" "honest_report tasks res"
    "if al_success res then legal_plan (est_planner est) (est_warehouse est) robots tasks (al_assignments res)
     else al_assignments res = []"
    using cp_sat_legal [OF assms(2) priced assms(5)] by blast
  have "fst (is_valid_allocation res robots tasks (estimator_init (est_warehouse est) (est_planner est))) = Inr True"
    using is_valid_allocation_iff [OF assms(4), of "estimator_init (est_warehouse est) (est_planner est)" res] priced
      res(3,4) by (simp split: if_splits)
  then show ?thesis using res(1,2) by blast
qed

text \<open>
  The optimising allocator, when its solver reports OPTIMAL, assigns at least as many tasks
  as the greedy one, and is not dearer when they assign the same number.
\<close>

theorem cp_sat_beats_greedy:
  assumes "route_planner name (est_planner est)" "est_ok est" "inside (est_warehouse est) robots tasks"
    "unique_ids robots tasks" "solver_ok solver"
    "cp_sat_allocate solver robots tasks est = (Inr res, est1)" "al_solver_status res = ''OPTIMAL''"
    "greedy_allocate robots tasks est = (Inr greedy, est2)"
  shows "assigned_task_count greedy \<le> assigned_task_count res \<and>
    (assigned_task_count greedy = assigned_task_count res \<longrightarrow>
      al_total_estimated_cost res \<le> al_total_estimated_cost greedy)"
proof -
  have "legal_plan (est_planner est) (est_warehouse est) robots tasks (al_assignments greedy)" "honest_report tasks greedy"
    using greedy_result [OF assms(2) route_planner_priced [OF assms(1,3)] assms(4)] assms(8) by auto
  then show ?thesis using cp_sat_best [OF assms(1,3,4,2,5,6,7)]
    unfolding honest_report_def by (metis assigned_task_count_def)
qed

section \<open>A cycle of two robots and two tasks\<close>

text \<open>A solver that tries every set of variables keeps its promises.\<close>

fun best_of :: "('a \<Rightarrow> int) \<Rightarrow> 'a \<Rightarrow> 'a list \<Rightarrow> 'a" where
  "best_of f x [] = x"
| "best_of f x (y # ys) = (if f x < f y then best_of f y ys else best_of f x ys)"

definition brute_force :: cp_solver where
  "brute_force groups objective = (''OPTIMAL'', best_of (objective_value objective) {}
     (filter (satisfies groups) (map set (subseqs (dict_keys objective)))))"

lemma best_of_ok: "best_of f x ys \<in> insert x (set ys) \<and> (\<forall>y \<in> insert x (set ys). f y \<le> f (best_of f x ys))"
proof (induction ys arbitrary: x)
  case (Cons y ys)
  show ?case
  proof (cases "f x < f y")
    case True
    then show ?thesis using Cons.IH [of y] by fastforce
  next
    case False
    then show ?thesis using Cons.IH [of x] by fastforce
  qed
qed simp

lemma brute_force_ok: "solver_ok brute_force"
proof -
  have "satisfies groups S \<and> (\<forall>T. satisfies groups T \<longrightarrow> objective_value objective T \<le> objective_value objective S)"
    if "S = snd (brute_force groups objective)" for groups objective S
  proof -
    let ?all = "filter (satisfies groups) (map set (subseqs (dict_keys objective)))"
    have empty: "satisfies groups {}" by (simp add: satisfies_def)
    have S: "S \<in> insert {} (set ?all)" "\<forall>T \<in> insert {} (set ?all). objective_value objective T \<le> objective_value objective S"
      using best_of_ok [of "objective_value objective" "{}" ?all] that by (simp_all add: brute_force_def)
    have "objective_value objective T \<le> objective_value objective S" if "satisfies groups T" for T
    proof -
      let ?T = "set (filter (\<lambda>k. k \<in> T) (dict_keys objective))"
      have "length (filter (\<lambda>k. k \<in> ?T) g) \<le> length (filter (\<lambda>k. k \<in> T) g)" for g
        by (induction g) auto
      then have "satisfies groups ?T" using that unfolding satisfies_def by (meson le_trans)
      moreover have "?T \<in> set (map set (subseqs (dict_keys objective)))"
        unfolding set_map by (rule imageI) (simp add: in_set_subseqs)
      ultimately have "?T \<in> set ?all" by simp
      then have "objective_value objective ?T \<le> objective_value objective S" using S(2) by blast
      moreover have "filter (\<lambda>(k, c). k \<in> ?T) objective = filter (\<lambda>(k, c). k \<in> T) objective"
        by (rule filter_cong) (force simp: image_iff)+
      ultimately show ?thesis by (simp add: objective_value_def)
    qed
    then show ?thesis using S(1) empty by auto
  qed
  then show ?thesis by (simp add: solver_ok_def brute_force_def)
qed

definition cycle_robots :: "robot list" where
  "cycle_robots = [robot_default ''R1'' (Position 0 0), robot_default ''R2'' (Position 1 2)]"

definition cycle_task :: "string \<Rightarrow> position \<Rightarrow> position \<Rightarrow> task" where
  "cycle_task i a b = \<lparr>task_id = i, pickup_location = a, dropoff_location = b, priority = P_NORMAL,
     payload_weight = 2, task_status = T_PENDING, assigned_robot_id = None, failure_reason = None\<rparr>"

definition cycle_tasks :: "task list" where
  "cycle_tasks = [cycle_task ''T1'' (Position 1 1) (Position 0 2), cycle_task ''T2'' (Position 0 2) (Position 0 0)]"

definition cycle_est :: estimator where
  "cycle_est = estimator_init rack_floor plan_astar"

lemma cycle_facts:
  "route_planner ''astar'' (est_planner cycle_est)" "est_ok cycle_est"
  "inside (est_warehouse cycle_est) cycle_robots cycle_tasks" "unique_ids cycle_robots cycle_tasks"
proof -
  show "route_planner ''astar'' (est_planner cycle_est)"
    unfolding cycle_est_def estimator_init_sel by (rule astar_router.route_planner_axioms)
  show "est_ok cycle_est" by (simp add: cycle_est_def)
  show "inside (est_warehouse cycle_est) cycle_robots cycle_tasks"
    unfolding cycle_est_def estimator_init_sel by code_simp
  show "unique_ids cycle_robots cycle_tasks" by code_simp
qed

definition summary :: "allocation_result \<Rightarrow> string \<times> (string \<times> string) list \<times> int" where
  "summary r = (al_solver_status r, map (\<lambda>a. (as_robot_id a, as_task_id a)) (al_assignments r), al_total_estimated_cost r)"

lemma greedy_run: "map_sum id summary (fst (greedy_allocate cycle_robots cycle_tasks cycle_est)) =
  Inr (''GREEDY'', [(''R1'', ''T2''), (''R2'', ''T1'')], 11)"
  unfolding cycle_est_def estimator_init_def by code_simp

lemma cp_sat_run: "map_sum id summary (fst (cp_sat_allocate brute_force cycle_robots cycle_tasks cycle_est)) =
  Inr (''OPTIMAL'', [(''R1'', ''T1''), (''R2'', ''T2'')], 9)"
  unfolding cycle_est_def estimator_init_def by code_simp

lemma run_summary:
  assumes "map_sum id summary (fst run) = Inr x"
  obtains res est where "run = (Inr res, est)" "summary res = x"
  using assms by (cases run; cases "fst run") auto

lemma summary_count: "summary res = (st, ps, c) \<Longrightarrow> al_solver_status res = st \<and> assigned_task_count res = length ps \<and>
    al_total_estimated_cost res = c"
  by (auto simp: summary_def assigned_task_count_def)

lemma estimates_are_shortest_routes_witness:
  "\<exists>c est'. estimate (hd cycle_robots) (hd cycle_tasks) cycle_est = (Inr c, est') \<and>
    (\<forall>k. c = Some k \<longleftrightarrow> shortest rack_floor (Position 0 0) (Position 1 1) (robot_to_pickup k) \<and>
      shortest rack_floor (Position 1 1) (Position 0 2) (pickup_to_dropoff k))"
proof -
  have "inside (est_warehouse cycle_est) [hd cycle_robots] [hd cycle_tasks]"
    unfolding cycle_est_def estimator_init_sel by code_simp
  from estimates_are_shortest_routes [OF cycle_facts(1,2) this] show ?thesis
    by (auto simp: cycle_est_def cycle_robots_def cycle_tasks_def cycle_task_def robot_default_def)
qed

lemma candidate_pairs_exact_witness:
  "\<exists>feasible infeasible est'. build_candidate_pairs cycle_robots cycle_tasks cycle_est = (Inr (feasible, infeasible), est') \<and>
    infeasible + length feasible = 4"
proof -
  have "length (eligible_robots cycle_robots) * length (pending_tasks cycle_tasks) = 4" by code_simp
  then show ?thesis using candidate_pairs_exact [OF cycle_facts(1,2,3)] by metis
qed

lemma allocation_checker_exact_witness:
  "fst (is_valid_allocation (build_result ''none'' ''NONE'' True [] [''T1'', ''T2''] 0 0) cycle_robots cycle_tasks cycle_est) = Inr True"
proof -
  have "map task_id (pending_tasks cycle_tasks) = [''T1'', ''T2'']" by code_simp
  then show ?thesis unfolding allocation_checker_exact [OF cycle_facts]
    by (simp add: honest_report_def build_result_def legal_plan_def)
qed

lemma greedy_allocation_stable_witness:
  "\<exists>res est'. greedy_allocate cycle_robots cycle_tasks cycle_est = (Inr res, est') \<and>
    al_total_estimated_cost res = 11 \<and> fst (is_valid_allocation res cycle_robots cycle_tasks cycle_est) = Inr True"
proof -
  obtain res est where run: "greedy_allocate cycle_robots cycle_tasks cycle_est = (Inr res, est)"
    "summary res = (''GREEDY'', [(''R1'', ''T2''), (''R2'', ''T1'')], 11)"
    by (rule run_summary [OF greedy_run])
  from greedy_allocation_stable [OF cycle_facts(1,2,4)] cycle_facts(3) run(1) summary_count [OF run(2)] show ?thesis
    unfolding cycle_est_def estimator_init_sel by auto
qed

lemma cp_sat_allocation_optimal_witness:
  "\<exists>res est'. cp_sat_allocate brute_force cycle_robots cycle_tasks cycle_est = (Inr res, est') \<and>
    legal_plan plan_astar rack_floor cycle_robots cycle_tasks (al_assignments res) \<and>
    assigned_task_count res = 2 \<and> al_total_estimated_cost res = 9"
proof -
  obtain res est where run: "cp_sat_allocate brute_force cycle_robots cycle_tasks cycle_est = (Inr res, est)"
    "summary res = (''OPTIMAL'', [(''R1'', ''T1''), (''R2'', ''T2'')], 9)"
    by (rule run_summary [OF cp_sat_run])
  note s = summary_count [OF run(2)]
  from cp_sat_allocation_optimal [OF cycle_facts brute_force_ok run(1)] s run(1) show ?thesis
    unfolding cycle_est_def estimator_init_sel by simp
qed

lemma cp_sat_allocation_validates_witness:
  "\<exists>res est'. cp_sat_allocate brute_force cycle_robots cycle_tasks cycle_est = (Inr res, est') \<and> al_success res \<and>
    fst (is_valid_allocation res cycle_robots cycle_tasks cycle_est) = Inr True"
proof -
  obtain res est where run: "cp_sat_allocate brute_force cycle_robots cycle_tasks cycle_est = (Inr res, est)"
    "summary res = (''OPTIMAL'', [(''R1'', ''T1''), (''R2'', ''T2'')], 9)"
    by (rule run_summary [OF cp_sat_run])
  note s = summary_count [OF run(2)]
  from cp_sat_allocation_validates [OF cycle_facts brute_force_ok] run(1) s show ?thesis
    unfolding cycle_est_def estimator_init_sel by auto
qed

lemma cp_sat_beats_greedy_witness:
  "\<exists>res greedy est1 est2. cp_sat_allocate brute_force cycle_robots cycle_tasks cycle_est = (Inr res, est1) \<and>
    greedy_allocate cycle_robots cycle_tasks cycle_est = (Inr greedy, est2) \<and>
    al_total_estimated_cost res = 9 \<and> al_total_estimated_cost greedy = 11 \<and>
    assigned_task_count greedy \<le> assigned_task_count res"
proof -
  obtain res est1 where res: "cp_sat_allocate brute_force cycle_robots cycle_tasks cycle_est = (Inr res, est1)"
    "summary res = (''OPTIMAL'', [(''R1'', ''T1''), (''R2'', ''T2'')], 9)"
    by (rule run_summary [OF cp_sat_run])
  obtain greedy est2 where greedy: "greedy_allocate cycle_robots cycle_tasks cycle_est = (Inr greedy, est2)"
    "summary greedy = (''GREEDY'', [(''R1'', ''T2''), (''R2'', ''T1'')], 11)"
    by (rule run_summary [OF greedy_run])
  note s = summary_count [OF res(2)] summary_count [OF greedy(2)]
  from cp_sat_beats_greedy [OF cycle_facts brute_force_ok res(1) _ greedy(1)] s res(1) greedy(1)
  show ?thesis by simp
qed

end
