(* ===== verification/Commit.thy ===== *)
theory Commit
  imports Simulator Allocation_Properties
begin

text \<open>
  Committing an allocation to the simulator (\<open>allocation/commit.py\<close>): a dry run over all
  assignments, then one \<open>assign_task_manually\<close> per assignment. The lemmas show that a plan
  without a repeated robot or task is applied as a whole or not at all, and what the simulator
  holds afterwards.
\<close>

section \<open>The operations\<close>

datatype commit_refusal =
    Lookup_Failed py_error
  | No_Longer_Pending string task_status
  | Robot_Unavailable string robot_status "string option"
  | Cannot_Carry_Task string string pyfloat

datatype reject_reason = Not_Successful | Cannot_Commit string string commit_refusal

record commit_report =
  cr_committed :: bool
  cr_applied :: "(string \<times> string) list"
  cr_rejected :: "reject_reason option"

definition why_not_committable :: "simulator \<Rightarrow> string \<Rightarrow> string \<Rightarrow> commit_refusal option" where
  "why_not_committable s rid tid =
     (case res_bind (get_task s tid) (\<lambda>t. res_bind (get_robot s rid) (\<lambda>r. Inr (t, r))) of
        Inl e \<Rightarrow> Some (Lookup_Failed e)
      | Inr (t, r) \<Rightarrow>
          if task_status t \<noteq> T_PENDING then Some (No_Longer_Pending tid (task_status t))
          else if \<not> is_available r then Some (Robot_Unavailable rid (robot_status r) (assigned_task_id r))
          else if \<not> can_carry r (payload_weight t) then Some (Cannot_Carry_Task rid tid (payload_weight t))
          else None)"

fun dry_run :: "simulator \<Rightarrow> assignment list \<Rightarrow> reject_reason option" where
  "dry_run s [] = None"
| "dry_run s (a # as) =
     (case why_not_committable s (as_robot_id a) (as_task_id a) of
        Some why \<Rightarrow> Some (Cannot_Commit (as_robot_id a) (as_task_id a) why)
      | None \<Rightarrow> dry_run s as)"

text \<open>The second loop; an exception of the simulator leaves the assignments made so far.\<close>

fun apply_loop ::
  "assignment list \<Rightarrow> (string \<times> string) list \<Rightarrow> simulator \<Rightarrow> (py_error + commit_report) \<times> simulator" where
  "apply_loop [] applied s = (Inr \<lparr>cr_committed = True, cr_applied = applied, cr_rejected = None\<rparr>, s)"
| "apply_loop (a # as) applied s =
     (case assign_task_manually (as_task_id a) (as_robot_id a) s of
        Inl e \<Rightarrow> (Inl e, s)
      | Inr s1 \<Rightarrow> apply_loop as (applied @ [(as_robot_id a, as_task_id a)]) s1)"

definition commit_allocation ::
  "allocation_result \<Rightarrow> simulator \<Rightarrow> (py_error + commit_report) \<times> simulator" where
  "commit_allocation res s =
     (if \<not> al_success res then
        (Inr \<lparr>cr_committed = False, cr_applied = [], cr_rejected = Some Not_Successful\<rparr>, s)
      else if al_assignments res = [] then
        (Inr \<lparr>cr_committed = True, cr_applied = [], cr_rejected = None\<rparr>, s)
      else case dry_run s (al_assignments res) of
        Some why \<Rightarrow> (Inr \<lparr>cr_committed = False, cr_applied = [], cr_rejected = Some why\<rparr>, s)
      | None \<Rightarrow> apply_loop (al_assignments res) [] s)"

section \<open>What a commit does\<close>

definition committable :: "simulator \<Rightarrow> assignment \<Rightarrow> bool" where
  "committable s a \<longleftrightarrow> (\<exists>t r. dict_get (sim_tasks s) (as_task_id a) = Some t \<and>
     dict_get (sim_robots s) (as_robot_id a) = Some r \<and> task_status t = T_PENDING \<and> is_available r \<and>
     can_carry r (payload_weight t))"

lemma why_not_None: "why_not_committable s (as_robot_id a) (as_task_id a) = None \<longleftrightarrow> committable s a"
  by (auto simp: why_not_committable_def committable_def get_task_def get_robot_def split: option.splits)

lemma dry_run_None: "dry_run s as = None \<longleftrightarrow> (\<forall>a \<in> set as. committable s a)"
  by (induction as) (auto simp: why_not_None [symmetric] split: option.splits)

text \<open>The entries after the assignments of a plan.\<close>

definition handed :: "assignment list \<Rightarrow> string \<Rightarrow> task \<Rightarrow> task" where
  "handed as tid t = (case find (\<lambda>a. as_task_id a = tid) as of
     None \<Rightarrow> t | Some a \<Rightarrow> t\<lparr>task_status := T_ASSIGNED, assigned_robot_id := Some (as_robot_id a)\<rparr>)"

definition engaged :: "assignment list \<Rightarrow> string \<Rightarrow> robot \<Rightarrow> robot" where
  "engaged as rid r = (case find (\<lambda>a. as_robot_id a = rid) as of
     None \<Rightarrow> r | Some a \<Rightarrow> r\<lparr>assigned_task_id := Some (as_task_id a), robot_status := R_ASSIGNED\<rparr>)"

definition after_plan :: "assignment list \<Rightarrow> simulator \<Rightarrow> simulator \<Rightarrow> bool" where
  "after_plan as s s' \<longleftrightarrow> sim_warehouse s' = sim_warehouse s \<and>
     (\<forall>tid. dict_get (sim_tasks s') tid = map_option (handed as tid) (dict_get (sim_tasks s) tid)) \<and>
     (\<forall>rid. dict_get (sim_robots s') rid = map_option (engaged as rid) (dict_get (sim_robots s) rid))"

lemma handed_Cons: "handed (a # as) tid =
    (if as_task_id a = tid then (\<lambda>t. t\<lparr>task_status := T_ASSIGNED, assigned_robot_id := Some (as_robot_id a)\<rparr>)
     else handed as tid)"
  by (simp add: handed_def fun_eq_iff)

lemma engaged_Cons: "engaged (a # as) rid =
    (if as_robot_id a = rid then (\<lambda>r. r\<lparr>assigned_task_id := Some (as_task_id a), robot_status := R_ASSIGNED\<rparr>)
     else engaged as rid)"
  by (simp add: engaged_def fun_eq_iff)

lemma find_None_notin: "x \<notin> f ` set as \<Longrightarrow> find (\<lambda>a. f a = x) as = None"
  by (auto simp: find_None_iff)

lemma apply_loop_ok:
  assumes "sim_reachable w s" "warehouse_ok w" "distinct (map as_robot_id as)" "distinct (map as_task_id as)"
    "\<forall>a \<in> set as. committable s a"
  shows "\<exists>s'. apply_loop as applied s = (Inr \<lparr>cr_committed = True,
      cr_applied = applied @ map (\<lambda>a. (as_robot_id a, as_task_id a)) as, cr_rejected = None\<rparr>, s') \<and>
    sim_reachable w s' \<and> after_plan as s s'"
  using assms(1,3-5)
proof (induction as arbitrary: applied s)
  case Nil
  have "handed [] i = id" "engaged [] i = id" for i by (auto simp: handed_def engaged_def)
  then show ?case using Nil by (simp add: after_plan_def option.map_id)
next
  case (Cons a as)
  let ?tid = "as_task_id a" and ?rid = "as_robot_id a"
  from Cons.prems(4) obtain t r where tr: "dict_get (sim_tasks s) ?tid = Some t" "dict_get (sim_robots s) ?rid = Some r"
    "task_status t = T_PENDING" "is_available r" "can_carry r (payload_weight t)"
    by (auto simp: committable_def)
  obtain s1 where run: "assign_task_manually ?tid ?rid s = Inr s1"
    using assign_task_manually_ex [OF tr] by blast
  have ok: "sim_ok s" using sim_reachable_ok [OF Cons.prems(1) assms(2)] by simp
  have ids: "robot_id r = ?rid" "task_id t = ?tid"
    using sim_ok_robotD [OF ok tr(2)] sim_ok_taskD [OF ok tr(1)] by simp_all
  have s1: "s1 = put_task ?tid (t\<lparr>task_status := T_ASSIGNED, assigned_robot_id := Some ?rid\<rparr>)
      (put_robot ?rid (r\<lparr>assigned_task_id := Some ?tid, robot_status := R_ASSIGNED\<rparr>) s)"
    using assign_task_manually_Inr [OF run] tr ids by (metis option.inject)
  have "committable s1 b" if "b \<in> set as" for b
  proof -
    have "as_task_id b \<noteq> ?tid" "as_robot_id b \<noteq> ?rid" using Cons.prems(2,3) imageI [OF that, of as_task_id] imageI [OF that, of as_robot_id] by auto
    then show ?thesis using Cons.prems(4) that by (auto simp: committable_def s1)
  qed
  moreover have "sim_reachable w s1" using reach_step [OF Cons.prems(1) step_assign_task [OF run]] .
  ultimately obtain s' where s': "apply_loop as (applied @ [(?rid, ?tid)]) s1 = (Inr \<lparr>cr_committed = True,
      cr_applied = (applied @ [(?rid, ?tid)]) @ map (\<lambda>a. (as_robot_id a, as_task_id a)) as, cr_rejected = None\<rparr>, s')"
    "sim_reachable w s'" "after_plan as s1 s'"
    using Cons.IH [of s1 "applied @ [(?rid, ?tid)]"] Cons.prems(2,3) by auto
  have none: "find (\<lambda>b. as_task_id b = ?tid) as = None" "find (\<lambda>b. as_robot_id b = ?rid) as = None"
    using Cons.prems(2,3) by (auto intro!: find_None_notin)
  have "after_plan (a # as) s s'"
    using s'(3) tr(1,2) none unfolding after_plan_def handed_Cons engaged_Cons
    by (simp add: s1 handed_def engaged_def)
  then show ?case using run s'(1,2) by simp
qed

text \<open>Task endpoints lie on the floor in every reachable simulation.\<close>

definition endpoints_inside :: "simulator \<Rightarrow> bool" where
  [inv_defs]: "endpoints_inside s \<longleftrightarrow> (\<forall>i t. dict_get (sim_tasks s) i = Some t \<longrightarrow>
     in_bounds (sim_warehouse s) (pickup_location t) \<and> in_bounds (sim_warehouse s) (dropoff_location t))"

lemma endpoints_inside_step:
  assumes "sim_step s s'" "endpoints_inside s"
  shows "endpoints_inside s'"
  using assms
proof (induction rule: sim_step.induct)
  case (step_add_robot r s s')
  then show ?case by (auto simp: endpoints_inside_def add_robot_Inr)
next
  case (step_remove_robot rid s r s')
  from step_remove_robot(1) show ?case
  proof (cases rule: remove_robot_Inr)
    case no_task
    then show ?thesis using step_remove_robot(2) by (simp add: endpoints_inside_def)
  next
    case (release r tid t t')
    then have "task_step t t'" by (auto intro: release_task_step)
    then show ?thesis using release step_remove_robot(2) task_step_frame [of t t']
      by (auto simp: endpoints_inside_def)
  qed
next
  case (step_move_robot s rid dest)
  then show ?case
    by (auto simp: endpoints_inside_def move_robot_def split: sum.splits option.splits)
next
  case (step_charge_robot s rid amount)
  then show ?case
    by (auto simp: endpoints_inside_def charge_robot_def Let_def split: sum.splits bool.splits)
next
  case (step_add_task t s s')
  then show ?case by (auto simp: endpoints_inside_def add_task_Inr split: if_splits)
next
  case (step_start_task s tid t t')
  then show ?case using task_step_frame [OF step_start [OF step_start_task(2)]] by (auto simp: endpoints_inside_def)
next
  case (step_close_task s tid t t' rid r)
  then show ?case using closes_step [OF step_close_task(2)] task_step_frame [of t t'] by (auto simp: endpoints_inside_def)
next
  case (step_assign_task tid rid s s')
  from step_assign_task(1) show ?case
    by (rule assign_task_manually_Inr) (use step_assign_task(2) in \<open>auto simp: endpoints_inside_def split: if_splits\<close>)
next
  case (step_add_obstacle i p desc s ob s')
  then show ?case using add_dynamic_obstacle_facts
    by (fastforce simp: endpoints_inside_def sim_add_dynamic_obstacle_def res_bind_Inr in_bounds_def split: if_splits)
next
  case (step_remove_obstacle i s ob s')
  then show ?case
    by (auto simp: endpoints_inside_def sim_remove_dynamic_obstacle_def res_bind_Inr remove_dynamic_obstacle_def
      in_bounds_def split: option.splits)
qed

lemma endpoints_inside_reachable: "sim_reachable w s \<Longrightarrow> endpoints_inside s"
proof (induction rule: sim_reachable.induct)
  case reach_init
  show ?case by (simp add: endpoints_inside_def sim_init_def)
next
  case (reach_step s s')
  then show ?case using endpoints_inside_step by blast
qed

section \<open>The registries as inputs of an allocator\<close>

lemma values_get: "dict_ok d \<Longrightarrow> x \<in> set (dict_values d) \<longleftrightarrow> (\<exists>k. dict_get d k = Some x)"
  by (force simp: dict_get_Some_iff)

lemma values_distinct:
  assumes "dict_ok d" "\<And>k x. dict_get d k = Some x \<Longrightarrow> f x = k"
  shows "distinct (map f (dict_values d))"
proof -
  have "map f (dict_values d) = dict_keys d"
    using assms(2) dict_get_Some_iff [OF assms(1)] by (auto intro!: map_cong)
  then show ?thesis using assms(1) unfolding dict_ok_def by (simp only:)
qed

lemma reachable_inputs:
  assumes "sim_reachable w s" "warehouse_ok w"
  shows "inside (sim_warehouse s) (dict_values (sim_robots s)) (dict_values (sim_tasks s))"
    "unique_ids (dict_values (sim_robots s)) (dict_values (sim_tasks s))"
proof -
  have ok: "sim_ok s" using sim_reachable_ok [OF assms] by simp
  note d = sim_ok_dicts [OF ok]
  show "inside (sim_warehouse s) (dict_values (sim_robots s)) (dict_values (sim_tasks s))"
    using endpoints_inside_reachable [OF assms(1)] sim_ok_robotD [OF ok] is_traversable_in_bounds
    unfolding inside_def values_get [OF d(1)] values_get [OF d(2)] endpoints_inside_def Ball_def by blast
  show "unique_ids (dict_values (sim_robots s)) (dict_values (sim_tasks s))"
    using values_distinct [OF d(1), of robot_id] values_distinct [OF d(2), of task_id]
      sim_ok_robotD [OF ok] sim_ok_taskD [OF ok] by (simp add: unique_ids_def)
qed

lemma legal_committable:
  assumes "sim_reachable w s" "warehouse_ok w"
    "legal_assignment planner v (dict_values (sim_robots s)) (dict_values (sim_tasks s)) a"
  shows "committable s a"
proof -
  have ok: "sim_ok s" using sim_reachable_ok [OF assms(1,2)] by simp
  note d = sim_ok_dicts [OF ok]
  obtain r t where "r \<in> set (dict_values (sim_robots s))" "t \<in> set (dict_values (sim_tasks s))"
    "is_available r" "task_status t = T_PENDING" "can_carry r (payload_weight t)"
    "as_robot_id a = robot_id r" "as_task_id a = task_id t"
    using assms(3) by (auto simp: legal_assignment_def feasible_pair_def simp del: set_map)
  then show ?thesis
    using sim_ok_robotD [OF ok] sim_ok_taskD [OF ok] unfolding values_get [OF d(1)] values_get [OF d(2)] committable_def
    by metis
qed

lemma commit_ok:
  assumes "sim_reachable w s" "warehouse_ok w" "al_success res"
    "distinct (map as_robot_id (al_assignments res))" "distinct (map as_task_id (al_assignments res))"
    "\<forall>a \<in> set (al_assignments res). committable s a"
  shows "\<exists>s'. commit_allocation res s = (Inr \<lparr>cr_committed = True,
      cr_applied = map (\<lambda>a. (as_robot_id a, as_task_id a)) (al_assignments res), cr_rejected = None\<rparr>, s') \<and>
    sim_reachable w s' \<and> after_plan (al_assignments res) s s'"
proof -
  have "dry_run s (al_assignments res) = None" using assms(6) by (simp add: dry_run_None)
  then have "commit_allocation res s = apply_loop (al_assignments res) [] s"
    using assms(3) by (simp add: commit_allocation_def)
  then show ?thesis using apply_loop_ok [OF assms(1,2,4-6), of "[]"] by simp
qed

text \<open>Either allocator, on inputs with unique ids on the floor, returns a legal plan when it succeeds.\<close>

lemma allocator_result:
  assumes "est_ok est" "route_planner name (est_planner est)" "inside (est_warehouse est) robots tasks" "unique_ids robots tasks"
    "solver_ok solver" "run = greedy_allocate \<or> run = cp_sat_allocate solver"
  shows "\<exists>res est'. run robots tasks est = (Inr res, est') \<and>
    (if run = greedy_allocate then al_success res else al_success res \<or> al_solver_status res \<notin> {''OPTIMAL'', ''FEASIBLE''}) \<and>
    (if al_success res then legal_plan (est_planner est) (est_warehouse est) robots tasks (al_assignments res)
     else al_assignments res = [])"
proof -
  have priced: "priced (est_planner est) (est_warehouse est) robots tasks"
    by (rule route_planner_priced [OF assms(2,3)])
  show ?thesis
  proof (cases "run = greedy_allocate")
    case True
    then show ?thesis using greedy_result [OF assms(1) priced assms(4)] by auto
  next
    case False
    then have "run = cp_sat_allocate solver" using assms(6) by simp
    with False show ?thesis using cp_sat_legal [OF assms(1) priced assms(5)] by (auto split: if_splits)
  qed
qed

section \<open>Properties\<close>

text \<open>
  C22: A commit of a plan without a repeated robot or task never raises and is all-or-nothing:
  it is committed exactly when the allocation was successful and every task is still pending
  and every robot still available and able to carry its load; then every task of the plan is
  assigned to its robot, every robot of the plan holds its task, and nothing else has changed;
  otherwise the simulator is as it was and a reason is given.
\<close>

theorem commit_all_or_nothing:
  assumes "sim_reachable w s" "warehouse_ok w"
    "distinct (map as_robot_id (al_assignments res))" "distinct (map as_task_id (al_assignments res))"
  shows "\<exists>rep s'. commit_allocation res s = (Inr rep, s') \<and> sim_reachable w s' \<and>
    (cr_committed rep \<longleftrightarrow> al_success res \<and> (\<forall>a \<in> set (al_assignments res). committable s a)) \<and>
    (if cr_committed rep
     then after_plan (al_assignments res) s s' \<and> cr_rejected rep = None \<and>
       cr_applied rep = map (\<lambda>a. (as_robot_id a, as_task_id a)) (al_assignments res)
     else s' = s \<and> cr_applied rep = [] \<and> cr_rejected rep \<noteq> None)"
proof (cases "al_success res \<and> (\<forall>a \<in> set (al_assignments res). committable s a)")
  case True
  then obtain s' where "commit_allocation res s = (Inr \<lparr>cr_committed = True,
      cr_applied = map (\<lambda>a. (as_robot_id a, as_task_id a)) (al_assignments res), cr_rejected = None\<rparr>, s')"
    "sim_reachable w s'" "after_plan (al_assignments res) s s'"
    using commit_ok [OF assms(1,2) _ assms(3,4)] by blast
  then show ?thesis using True
    by (intro exI [of _ "\<lparr>cr_committed = True,
      cr_applied = map (\<lambda>a. (as_robot_id a, as_task_id a)) (al_assignments res), cr_rejected = None\<rparr>"] exI [of _ s']) simp
next
  case False
  show ?thesis
  proof (cases "al_success res")
    case True
    then obtain why where "dry_run s (al_assignments res) = Some why" "al_assignments res \<noteq> []"
      using False dry_run_None [of s "al_assignments res"] by fastforce
    then show ?thesis using True False assms(1) by (simp add: commit_allocation_def)
  next
    case False
    then show ?thesis using assms(1) by (simp add: commit_allocation_def)
  qed
qed

text \<open>
  C20: A whole allocation cycle: in every reachable simulation the greedy allocator succeeds on
  its robots and tasks, and so does the optimising one unless its solver reports neither OPTIMAL
  nor FEASIBLE. Committing a successful result applies the complete plan: every task of it is then
  assigned to its robot, nothing else has changed, and the simulation is again a reachable one, so
  it is consistent and its robots and tasks agree.
\<close>

theorem allocate_and_commit:
  assumes "sim_reachable w s" "warehouse_ok w" "route_planner name planner" "solver_ok solver"
    "(run = greedy_allocate \<or> run = cp_sat_allocate solver)"
  shows "\<exists>res est' rep s'.
    run (dict_values (sim_robots s)) (dict_values (sim_tasks s)) (estimator_init (sim_warehouse s) planner) = (Inr res, est') \<and>
    (run = greedy_allocate \<longrightarrow> al_success res) \<and>
    (al_solver_status res \<in> {''OPTIMAL'', ''FEASIBLE''} \<longrightarrow> al_success res) \<and>
    (al_success res \<longrightarrow> commit_allocation res s = (Inr rep, s') \<and> cr_committed rep \<and>
      cr_applied rep = map (\<lambda>a. (as_robot_id a, as_task_id a)) (al_assignments res) \<and>
      after_plan (al_assignments res) s s' \<and> sim_reachable w s' \<and> sim_ok s' \<and> links_ok s')"
proof -
  let ?est = "estimator_init (sim_warehouse s) planner"
  let ?rs = "dict_values (sim_robots s)" and ?ts = "dict_values (sim_tasks s)"
  have "route_planner name (est_planner ?est)" "inside (est_warehouse ?est) ?rs ?ts" "est_ok ?est"
    using assms(3) reachable_inputs(1) [OF assms(1,2)] by simp_all
  then obtain res est' where run: "run ?rs ?ts ?est = (Inr res, est')"
      "if run = greedy_allocate then al_success res else al_success res \<or> al_solver_status res \<notin> {''OPTIMAL'', ''FEASIBLE''}"
    and plan: "if al_success res then legal_plan planner (sim_warehouse s) ?rs ?ts (al_assignments res) else al_assignments res = []"
    using allocator_result [of ?est name ?rs ?ts solver run] reachable_inputs(2) [OF assms(1,2)] assms(4,5)
    unfolding estimator_init_sel by blast
  have legal: "legal_plan planner (sim_warehouse s) ?rs ?ts (al_assignments res)" if "al_success res" using plan that by simp
  show ?thesis
  proof (cases "al_success res")
    case True
    have "\<forall>a \<in> set (al_assignments res). committable s a"
      using legal [OF True] legal_committable [OF assms(1,2)] by (auto simp: legal_plan_def)
    then obtain s' where s': "commit_allocation res s = (Inr \<lparr>cr_committed = True,
        cr_applied = map (\<lambda>a. (as_robot_id a, as_task_id a)) (al_assignments res), cr_rejected = None\<rparr>, s')"
      "sim_reachable w s'" "after_plan (al_assignments res) s s'"
      using commit_ok [OF assms(1,2) True] legal [OF True] by (auto simp: legal_plan_def)
    then show ?thesis using run(1) True sim_reachable_ok [OF s'(2) assms(2)] by auto
  next
    case False
    then show ?thesis using run by (cases "run = greedy_allocate") auto
  qed
qed

definition double_booking :: allocation_result where
  "double_booking = build_result ''manual'' ''MANUAL'' True
     [\<lparr>as_robot_id = ''R1'', as_task_id = ''T1'', as_robot_to_pickup = 0, as_pickup_to_dropoff = 0\<rparr>,
      \<lparr>as_robot_id = ''R1'', as_task_id = ''T2'', as_robot_to_pickup = 0, as_pickup_to_dropoff = 0\<rparr>] [] 0 0"

definition cycle_sim :: simulator where
  "cycle_sim = put_task ''T2'' (cycle_tasks ! 1) (put_task ''T1'' (cycle_tasks ! 0)
     (put_robot ''R2'' (cycle_robots ! 1) (put_robot ''R1'' (cycle_robots ! 0) (sim_init rack_floor))))"

lemma cycle_sim_reachable: "sim_reachable rack_floor cycle_sim" "warehouse_ok rack_floor"
proof -
  let ?s1 = "put_robot ''R1'' (cycle_robots ! 0) (sim_init rack_floor)"
  let ?s2 = "put_robot ''R2'' (cycle_robots ! 1) ?s1"
  let ?s3 = "put_task ''T1'' (cycle_tasks ! 0) ?s2"
  have add: "add_robot (cycle_robots ! 0) (sim_init rack_floor) = Inr ?s1" "add_robot (cycle_robots ! 1) ?s1 = Inr ?s2"
    "add_task (cycle_tasks ! 0) ?s2 = Inr ?s3" "add_task (cycle_tasks ! 1) ?s3 = Inr cycle_sim"
    by code_simp+
  have ok: "robot_core_ok (cycle_robots ! 0)" "robot_core_ok (cycle_robots ! 1)"
    "assigned_task_id (cycle_robots ! 0) = None" "assigned_task_id (cycle_robots ! 1) = None"
    "task_ok (cycle_tasks ! 0)" "task_ok (cycle_tasks ! 1)"
    "task_status (cycle_tasks ! 0) \<notin> {T_ASSIGNED, T_IN_PROGRESS}" "task_status (cycle_tasks ! 1) \<notin> {T_ASSIGNED, T_IN_PROGRESS}"
    using robot_default_ok [of "''R1''"] robot_default_ok [of "''R2''"]
    by (simp_all add: cycle_robots_def cycle_tasks_def cycle_task_def robot_ok_def robot_default_def task_ok_def)
  show "sim_reachable rack_floor cycle_sim"
    by (rule reach_step [OF reach_step [OF reach_step [OF reach_step [OF reach_init
      step_add_robot [OF ok(1,3) add(1)]] step_add_robot [OF ok(2,4) add(2)]]
      step_add_task [OF ok(5,7) add(3)]] step_add_task [OF ok(6,8) add(4)]])
  show "warehouse_ok rack_floor"
    by (auto simp: inv_defs rack_floor_def is_blocked_by_static_def in_bounds_def grid_in_bounds_def dict_ok_def)
qed

lemma commit_all_or_nothing_witness:
  "\<exists>rep s'. commit_allocation (build_result ''manual'' ''MANUAL'' True
     [\<lparr>as_robot_id = ''R1'', as_task_id = ''T1'', as_robot_to_pickup = 0, as_pickup_to_dropoff = 0\<rparr>] [] 0 0) cycle_sim =
     (Inr rep, s') \<and> cr_applied rep = [(''R1'', ''T1'')]"
proof -
  let ?res = "build_result ''manual'' ''MANUAL'' True
     [\<lparr>as_robot_id = ''R1'', as_task_id = ''T1'', as_robot_to_pickup = 0, as_pickup_to_dropoff = 0\<rparr>] [] 0 0"
  have as: "al_assignments ?res = [\<lparr>as_robot_id = ''R1'', as_task_id = ''T1'', as_robot_to_pickup = 0, as_pickup_to_dropoff = 0\<rparr>]"
    by (simp add: build_result_def)
  have dry: "dry_run cycle_sim (al_assignments ?res) = None" by code_simp
  show ?thesis
    using commit_all_or_nothing [OF cycle_sim_reachable, of ?res] dry unfolding dry_run_None
    by (auto simp: as split: if_splits)
qed

lemma allocate_and_commit_witness:
  "\<exists>res est' rep s'. greedy_allocate (dict_values (sim_robots cycle_sim)) (dict_values (sim_tasks cycle_sim))
      (estimator_init (sim_warehouse cycle_sim) plan_astar) = (Inr res, est') \<and> al_success res \<and>
    commit_allocation res cycle_sim = (Inr rep, s') \<and> cr_committed rep \<and> sim_reachable rack_floor s' \<and> links_ok s'"
  using allocate_and_commit [OF cycle_sim_reachable astar_router.route_planner_axioms brute_force_ok disjI1 [OF refl]]
  by metis

text \<open>
  With a repeated robot the commit is not all-or-nothing: the dry run checks each
  assignment against the unchanged world and accepts both, the second assignment then raises,
  and the first one stays applied.
\<close>

theorem commit_not_atomic:
  "dry_run cycle_sim (al_assignments double_booking) = None \<and>
   (case commit_allocation double_booking cycle_sim of
      (Inr rep, s') \<Rightarrow> False
    | (Inl e, s') \<Rightarrow> e = SimulationError \<and>
        map_option assigned_robot_id (dict_get (sim_tasks s') ''T1'') = Some (Some ''R1'') \<and>
        map_option task_status (dict_get (sim_tasks s') ''T2'') = Some T_PENDING)"
  by code_simp

end
