(* ===== verification/Recovery.thy ===== *)
theory Recovery
  imports Coordinated_Executor Replanner Commit
begin

text \<open>
  Resilient execution (\<open>recovery/recovery_manager.py\<close>, \<open>recovery_result.py\<close>): a coordinated plan is
  driven one timestep at a time; before each timestep the scheduled disruptions are applied and
  the routes they invalidate are replanned. A Python set of robot ids is kept as a list without
  repetition; an exception leaves the state it was raised in.
\<close>

section \<open>Calls on a state that may raise\<close>

definition do_then ::
  "('s \<Rightarrow> ('e + 'a) \<times> 's) \<Rightarrow> ('a \<Rightarrow> 's \<Rightarrow> ('e + 'b) \<times> 's) \<Rightarrow> 's \<Rightarrow> ('e + 'b) \<times> 's" where
  "do_then m f s = (case m s of (Inl e, s1) \<Rightarrow> (Inl e, s1) | (Inr a, s1) \<Rightarrow> f a s1)"

fun do_fold :: "('x \<Rightarrow> 'a \<Rightarrow> 's \<Rightarrow> ('e + 'a) \<times> 's) \<Rightarrow> 'x list \<Rightarrow> 'a \<Rightarrow> 's \<Rightarrow> ('e + 'a) \<times> 's" where
  "do_fold f [] a s = (Inr a, s)"
| "do_fold f (x # xs) a s = do_then (f x a) (do_fold f xs) s"

section \<open>Results\<close>

datatype recovery_reason =
    Obstacle_Not_Applied py_error
  | Disabled_Stopped
  | Disabled_Not_Replaced
  | Unknown_Failed_Robot py_error
  | No_Replacement
  | Not_Replanned
  | No_Continuation "string list"

record robot_replan =
  rr_robot_id :: string
  rr_original_goal :: position
  rr_current_position :: position
  rr_trigger_timestep :: int
  rr_old_remaining_path :: "position list"
  rr_new_path :: "position list"
  rr_success :: bool
  rr_failure_reason :: "st_reason option"
  rr_wait_actions_introduced :: int
  rr_joined_mid_episode :: bool

definition old_remaining_length :: "robot_replan \<Rightarrow> int" where
  "old_remaining_length r = max 0 (int (length (rr_old_remaining_path r)) - 1)"

definition new_length :: "robot_replan \<Rightarrow> int" where
  "new_length r = max 0 (int (length (rr_new_path r)) - 1)"

definition additional_distance :: "robot_replan \<Rightarrow> int" where
  "additional_distance r = new_length r - old_remaining_length r"

record event_result =
  ev_trigger :: recovery_trigger
  ev_trigger_timestep :: int
  ev_description :: disruption
  ev_affected_robot_ids :: "string list"
  ev_affected_task_ids :: "string list"
  ev_replanning_attempted :: bool
  ev_replanning_success :: bool
  ev_recovery_success :: bool
  ev_resumed :: bool
  ev_safe_stop :: bool
  ev_failure_reason :: "recovery_reason option"
  ev_robot_replans :: "robot_replan list"
  ev_reservations_released :: int
  ev_reservations_created :: int
  ev_task_reassignment_attempted :: bool
  ev_task_reassignment_success :: bool
  ev_reassigned_from :: "string option"
  ev_reassigned_to :: "string option"
  ev_reassigned_task_id :: "string option"
  ev_reassigned_task_status :: "task_status option"
  ev_unresolved_vertex_conflicts :: nat
  ev_unresolved_edge_conflicts :: nat

definition event_result_init :: "recovery_trigger \<Rightarrow> int \<Rightarrow> disruption \<Rightarrow> event_result" where
  "event_result_init trigger now event =
     \<lparr>ev_trigger = trigger, ev_trigger_timestep = now, ev_description = event,
      ev_affected_robot_ids = [], ev_affected_task_ids = [], ev_replanning_attempted = False,
      ev_replanning_success = False, ev_recovery_success = False, ev_resumed = False, ev_safe_stop = False,
      ev_failure_reason = None, ev_robot_replans = [], ev_reservations_released = 0, ev_reservations_created = 0,
      ev_task_reassignment_attempted = False, ev_task_reassignment_success = False, ev_reassigned_from = None,
      ev_reassigned_to = None, ev_reassigned_task_id = None, ev_reassigned_task_status = None,
      ev_unresolved_vertex_conflicts = 0, ev_unresolved_edge_conflicts = 0\<rparr>"

definition total_additional_distance :: "event_result \<Rightarrow> int" where
  "total_additional_distance ev = sum_list (map additional_distance (filter rr_success (ev_robot_replans ev)))"

definition total_wait_actions_introduced :: "event_result \<Rightarrow> int" where
  "total_wait_actions_introduced ev =
     sum_list (map rr_wait_actions_introduced (filter rr_success (ev_robot_replans ev)))"

datatype step_reason = Joint joint_reason | Onto_Failed string "position option"

datatype resilient_failure =
    Initial_Plan_Invalid
  | Robot_Elsewhere string position "position option"
  | Safe_Stop_Before int step_reason

record robot_report =
  rp_goal :: "position option"
  rp_final_position :: position
  rp_status :: robot_status
  rp_reached_goal :: bool
  rp_offline :: bool
  rp_safe_stopped :: bool
  rp_joined_mid_episode :: bool
  rp_moves :: int
  rp_waits :: int
  rp_distance_travelled :: pyfloat
  rp_battery_consumed :: pyfloat

record resilient_result =
  rx_success :: bool
  rx_safe_stop :: bool
  rx_recovery_events :: "event_result list"
  rx_per_robot :: "(string, robot_report) dict"
  rx_robots_reached_goal :: nat
  rx_robot_count :: nat
  rx_total_move_steps :: int
  rx_total_wait_steps :: int
  rx_makespan_executed :: int
  rx_total_distance :: pyfloat
  rx_total_battery_consumed :: pyfloat
  rx_vertex_conflicts :: nat
  rx_edge_conflicts :: nat
  rx_validation_problems :: "coordination_problem list"
  rx_failure_reason :: "resilient_failure option"

definition resilient_default :: "bool \<Rightarrow> nat \<Rightarrow> coordination_problem list \<Rightarrow> resilient_failure option \<Rightarrow> resilient_result" where
  "resilient_default success robot_count problems reason =
     \<lparr>rx_success = success, rx_safe_stop = False, rx_recovery_events = [], rx_per_robot = [],
      rx_robots_reached_goal = 0, rx_robot_count = robot_count, rx_total_move_steps = 0, rx_total_wait_steps = 0,
      rx_makespan_executed = 0, rx_total_distance = 0, rx_total_battery_consumed = 0, rx_vertex_conflicts = 0,
      rx_edge_conflicts = 0, rx_validation_problems = problems, rx_failure_reason = reason\<rparr>"

definition successful_recoveries :: "resilient_result \<Rightarrow> nat" where
  "successful_recoveries res = length (filter ev_recovery_success (rx_recovery_events res))"

definition safe_stops :: "resilient_result \<Rightarrow> nat" where
  "safe_stops res = length (filter ev_safe_stop (rx_recovery_events res))"

section \<open>The state of a run\<close>

record rec_state =
  rs_sim :: simulator
  active_paths :: "(string, timed_path) dict"
  goals_of :: "(string, position option) dict"
  executed_trace :: "(string, timed_step list) dict"
  rs_horizon :: int
  rs_offline :: "string list"
  safe_stopped :: "string list"
  battery_before :: "(string, pyfloat) dict"
  odometer_before :: "(string, pyfloat) dict"
  move_counts :: "(string, int) dict"
  wait_counts :: "(string, int) dict"
  rs_joined :: "string list"

definition set_add :: "string \<Rightarrow> string list \<Rightarrow> string list" where
  "set_add x xs = (if x \<in> set xs then xs else xs @ [x])"

definition live_robots :: "rec_state \<Rightarrow> string list" where
  "live_robots st = sort (filter (\<lambda>r. r \<notin> set (rs_offline st)) (dict_keys (active_paths st)))"

definition movers_of :: "rec_state \<Rightarrow> string list" where
  "movers_of st = filter (\<lambda>r. r \<notin> set (safe_stopped st)) (live_robots st)"

abbreviation set_active :: "string \<Rightarrow> timed_path \<Rightarrow> rec_state \<Rightarrow> rec_state" where
  "set_active rid tp st \<equiv> st\<lparr>active_paths := dict_set rid tp (active_paths st)\<rparr>"

definition active_path :: "rec_state \<Rightarrow> string \<Rightarrow> py_error + timed_path" where
  "active_path st rid = (case dict_get (active_paths st) rid of None \<Rightarrow> Inl KeyError | Some tp \<Rightarrow> Inr tp)"

definition trace_of :: "rec_state \<Rightarrow> string \<Rightarrow> py_error + timed_step list" where
  "trace_of st rid = (case dict_get (executed_trace st) rid of None \<Rightarrow> Inl KeyError | Some xs \<Rightarrow> Inr xs)"

definition last_cell :: "timed_step list \<Rightarrow> py_error + position" where
  "last_cell xs = (if xs = [] then Inl IndexError else Inr (step_position (last xs)))"

section \<open>Reservations of a run\<close>

definition remaining_reservation_count :: "timed_path option \<Rightarrow> int \<Rightarrow> int \<Rightarrow> int" where
  "remaining_reservation_count tp_opt from_t horizon =
     (case tp_opt of None \<Rightarrow> 0
      | Some tp \<Rightarrow>
          if \<not> tp_success tp then 0
          else let remaining = steps_from from_t tp in
            if remaining = [] then 0
            else int (length remaining)
              + int (length (filter (\<lambda>(a, b). step_position a \<noteq> step_position b) (zip remaining (tl remaining))))
              + max 0 (horizon - step_timestep (last remaining)))"

definition failed_cells :: "rec_state \<Rightarrow> (string \<times> position) list" where
  "failed_cells st = List.map_filter (\<lambda>o_id. map_option (\<lambda>r. (o_id, robot_position r)) (dict_get (sim_robots (rs_sim st)) o_id))
     (rs_offline st)"

definition crosses_failed :: "rec_state \<Rightarrow> int \<Rightarrow> timed_path \<Rightarrow> bool" where
  "crosses_failed st now tp = list_ex (\<lambda>(o_id, cell). route_touches_cell tp cell now) (failed_cells st)"

definition future_table :: "int \<Rightarrow> rec_state \<Rightarrow> string set \<Rightarrow> py_error + reservation_table" where
  "future_table now st excluded =
     (let skip = excluded \<union> set (rs_offline st);
          crossing = set (map fst (filter (\<lambda>(rid, tp). rid \<notin> skip \<and> tp_success tp \<and> crosses_failed st now tp)
                       (active_paths st))) in
      res_bind (build_future_reservations (active_paths st) now (rs_horizon st) (skip \<union> crossing)) (\<lambda>table.
        res_fold (\<lambda>(failed_id, cell) table.
            res_bind (block_cell cell now (rs_horizon st) (''__failed__'' @ failed_id) table) (\<lambda>(n, table'). Inr table'))
          (failed_cells st) table))"

section \<open>Replanning the affected robots\<close>

definition replan_one ::
  "int \<Rightarrow> string \<Rightarrow> reservation_table \<times> bool \<times> event_result \<Rightarrow> rec_state \<Rightarrow>
     (py_error + reservation_table \<times> bool \<times> event_result) \<times> rec_state" where
  "replan_one now rid acc st =
     (case acc of (future, all_ok, result) \<Rightarrow>
      (case res_bind (active_path st rid) (\<lambda>tp. res_bind (trace_of st rid) (\<lambda>trace. res_bind (last_cell trace) (\<lambda>current.
          case dict_get (goals_of st) rid of
            None \<Rightarrow> Inl KeyError
          | Some None \<Rightarrow> Inl AttributeError
          | Some (Some goal) \<Rightarrow>
              res_bind (replan (sim_warehouse (rs_sim st)) rid current goal now future (rs_horizon st))
                (\<lambda>(sx, future1). Inr (tp, trace, current, goal, sx, future1))))) of
         Inl e \<Rightarrow> (Inl e, st)
       | Inr (tp, trace, current, goal, sx, future1) \<Rightarrow>
           let rep = \<lparr>rr_robot_id = rid, rr_original_goal = goal, rr_current_position = current,
                 rr_trigger_timestep = now, rr_old_remaining_path = map step_position (steps_from now tp),
                 rr_new_path = (if tp_success sx then tp_positions sx else []),
                 rr_success = tp_success sx, rr_failure_reason = tp_failure_reason sx,
                 rr_wait_actions_introduced = (if tp_success sx then tp_wait_count sx else 0),
                 rr_joined_mid_episode = False\<rparr>;
               result1 = result\<lparr>ev_robot_replans := ev_robot_replans result @ [rep]\<rparr> in
           if tp_success sx then
             (case reserve_timed_path sx (rs_horizon st) future1 of
                Inl e \<Rightarrow> (Inl e, st)
              | Inr future2 \<Rightarrow>
                  (Inr (future2, all_ok,
                     result1\<lparr>ev_reservations_created := ev_reservations_created result1 +
                       remaining_reservation_count (Some sx) now (rs_horizon st)\<rparr>),
                   set_active rid (splice_route trace sx) st))
           else
             (Inr (future1, False, result1),
              set_active rid (splice_route trace (tp_found rid [TimedStep current now]))
                (st\<lparr>safe_stopped := set_add rid (safe_stopped st)\<rparr>))))"

definition replan_affected ::
  "string list \<Rightarrow> int \<Rightarrow> event_result \<Rightarrow> rec_state \<Rightarrow> (py_error + event_result) \<times> rec_state" where
  "replan_affected affected now result st =
     (let released = sum_list (map (\<lambda>rid. remaining_reservation_count (dict_get (active_paths st) rid) now (rs_horizon st)) affected);
          result1 = result\<lparr>ev_replanning_attempted := True,
            ev_reservations_released := ev_reservations_released result + released\<rparr> in
      case future_table now st (set affected) of
        Inl e \<Rightarrow> (Inl e, st)
      | Inr future \<Rightarrow>
          do_then (do_fold (replan_one now) (sort affected) (future, True, result1)) (\<lambda>(future', all_ok, result2) st'.
            (Inr (result2\<lparr>ev_replanning_success := all_ok, ev_recovery_success := all_ok, ev_safe_stop := \<not> all_ok,
               ev_resumed := list_ex rr_success (ev_robot_replans result2),
               ev_failure_reason := (if \<not> all_ok \<and> ev_failure_reason result2 = None
                 then Some (No_Continuation (map rr_robot_id (filter (\<lambda>r. \<not> rr_success r) (ev_robot_replans result2))))
                 else ev_failure_reason result2)\<rparr>), st')) st)"

definition is_vertex_conflict :: "coordination_problem \<Rightarrow> bool" where
  "is_vertex_conflict p = (case p of Vertex_Conflict _ _ _ _ \<Rightarrow> True | _ \<Rightarrow> False)"

definition is_swap_problem :: "coordination_problem \<Rightarrow> bool" where
  "is_swap_problem p = (case p of Swap_Conflict _ _ _ _ _ \<Rightarrow> True | _ \<Rightarrow> False)"

definition score_recovery :: "int \<Rightarrow> rec_state \<Rightarrow> event_result \<Rightarrow> py_error + event_result" where
  "score_recovery now st result =
     res_bind (res_map (active_path st) (movers_of st)) (\<lambda>tps.
       let remaining = List.map_filter (\<lambda>(rid, tp). let steps = steps_from now tp in
             if steps \<noteq> [] then Some (tp_found rid steps) else None) (zip (movers_of st) tps) in
       res_bind (find_coordination_problems remaining (sim_warehouse (rs_sim st)) None False) (\<lambda>problems.
         Inr (result\<lparr>ev_unresolved_vertex_conflicts := length (filter is_vertex_conflict problems),
                     ev_unresolved_edge_conflicts := length (filter is_swap_problem problems)\<rparr>)))"

section \<open>A dynamic obstacle\<close>

definition robots_hit_by_obstacle :: "position \<Rightarrow> int \<Rightarrow> rec_state \<Rightarrow> py_error + string list" where
  "robots_hit_by_obstacle cell now st =
     res_bind (res_map (\<lambda>rid. res_bind (active_path st rid) (\<lambda>tp. Inr (rid, route_touches_cell tp cell now))) (movers_of st))
       (\<lambda>hits. Inr (sort (map fst (filter snd hits))))"

text \<open>The reproduction of the behaviour without recovery: the robot stays where it is.\<close>

definition stop_one ::
  "int \<Rightarrow> string \<Rightarrow> event_result \<Rightarrow> rec_state \<Rightarrow> (py_error + event_result) \<times> rec_state" where
  "stop_one now rid result st =
     (let st1 = st\<lparr>safe_stopped := set_add rid (safe_stopped st)\<rparr> in
      case res_bind (trace_of st rid) (\<lambda>trace. res_bind (last_cell trace) (\<lambda>current. Inr (trace, current))) of
        Inl e \<Rightarrow> (Inl e, st1)
      | Inr (trace, current) \<Rightarrow>
          let stopped = splice_route trace (tp_found rid [TimedStep current now]) in
          (Inr (result\<lparr>ev_reservations_released := ev_reservations_released result +
              remaining_reservation_count (Some stopped) now (rs_horizon st)\<rparr>), set_active rid stopped st1))"

definition recover_obstacle ::
  "bool \<Rightarrow> int \<Rightarrow> position \<Rightarrow> string \<Rightarrow> int \<Rightarrow> rec_state \<Rightarrow> (py_error + event_result) \<times> rec_state" where
  "recover_obstacle enabled timestep cell i now st =
     (let result = event_result_init Trigger_Dynamic_Obstacle now (Obstacle_Event timestep cell i) in
      case sim_add_dynamic_obstacle (resolved_obstacle_id timestep cell i) cell ''disruption'' (rs_sim st) of
        Inl e \<Rightarrow>
          if is_robotics_error e
          then (Inr (result\<lparr>ev_recovery_success := True, ev_failure_reason := Some (Obstacle_Not_Applied e)\<rparr>), st)
          else (Inl e, st)
      | Inr (ob, sim1) \<Rightarrow>
          let st1 = st\<lparr>rs_sim := sim1\<rparr> in
          (case robots_hit_by_obstacle cell now st1 of
             Inl e \<Rightarrow> (Inl e, st1)
           | Inr affected \<Rightarrow>
               let result1 = result\<lparr>ev_affected_robot_ids := affected\<rparr> in
               if affected = [] then (Inr (result1\<lparr>ev_recovery_success := True, ev_resumed := True\<rparr>), st1)
               else if \<not> enabled then
                 do_then (do_fold (stop_one now) affected result1) (\<lambda>result2 st2.
                   (Inr (result2\<lparr>ev_safe_stop := True, ev_failure_reason := Some Disabled_Stopped\<rparr>), st2)) st1
               else
                 do_then (replan_affected affected now result1) (\<lambda>result2 st2.
                   (score_recovery now st2 result2, st2)) st1))"

section \<open>A robot that fails\<close>

text \<open>The replacement's route, or the undoing of its assignment.\<close>

definition route_replacement ::
  "string \<Rightarrow> string \<Rightarrow> int \<Rightarrow> event_result \<Rightarrow> rec_state \<Rightarrow> (py_error + event_result) \<times> rec_state" where
  "route_replacement new_rid tid now result st =
     (case res_bind (get_task (rs_sim st) tid) (\<lambda>t. res_bind (future_table now st {new_rid}) (\<lambda>future.
        res_bind (get_robot (rs_sim st) new_rid) (\<lambda>r.
        res_bind (replan (sim_warehouse (rs_sim st)) new_rid (robot_position r) (pickup_location t) now future (rs_horizon st))
          (\<lambda>(sx, future1). Inr (t, r, sx))))) of
        Inl e \<Rightarrow> (Inl e, st)
      | Inr (t, r, sx) \<Rightarrow>
          let rep = \<lparr>rr_robot_id = new_rid, rr_original_goal = pickup_location t, rr_current_position = robot_position r,
                rr_trigger_timestep = now, rr_old_remaining_path = [],
                rr_new_path = (if tp_success sx then tp_positions sx else []), rr_success = tp_success sx,
                rr_failure_reason = tp_failure_reason sx,
                rr_wait_actions_introduced = (if tp_success sx then tp_wait_count sx else 0),
                rr_joined_mid_episode = True\<rparr>;
              result1 = result\<lparr>ev_robot_replans := ev_robot_replans result @ [rep], ev_replanning_attempted := True\<rparr> in
          if \<not> tp_success sx then
            (case unassign t of
               Inl e \<Rightarrow> (Inl e, st)
             | Inr t1 \<Rightarrow>
                 (Inr (result1\<lparr>ev_reassigned_task_status := Some (task_status t1), ev_task_reassignment_success := False\<rparr>),
                  st\<lparr>rs_sim := put_robot new_rid (clear_task r) (put_task tid t1 (rs_sim st))\<rparr>))
          else
            (Inr (result1\<lparr>ev_reservations_created := ev_reservations_created result1 +
                   remaining_reservation_count (Some sx) now (rs_horizon st),
                 ev_task_reassignment_success := True, ev_reassigned_to := Some new_rid,
                 ev_reassigned_task_status := Some (task_status t)\<rparr>),
             st\<lparr>active_paths := dict_set new_rid sx (active_paths st),
                goals_of := dict_set new_rid (Some (pickup_location t)) (goals_of st),
                executed_trace := dict_set new_rid [TimedStep (robot_position r) now] (executed_trace st),
                battery_before := dict_set new_rid (battery_level r) (battery_before st),
                odometer_before := dict_set new_rid (distance_travelled r) (odometer_before st),
                move_counts := dict_set new_rid 0 (move_counts st),
                wait_counts := dict_set new_rid 0 (wait_counts st),
                rs_joined := set_add new_rid (rs_joined st)\<rparr>))"

text \<open>The task is pending again: it is offered to the fleet through the allocator.\<close>

definition offer_task ::
  "string \<Rightarrow> string \<Rightarrow> int \<Rightarrow> event_result \<Rightarrow> rec_state \<Rightarrow> (py_error + event_result) \<times> rec_state" where
  "offer_task failed_id tid now result st =
     (let result1 = result\<lparr>ev_task_reassignment_attempted := True, ev_reassigned_from := Some failed_id,
            ev_reassigned_task_id := Some tid\<rparr>;
          candidates = filter (\<lambda>r. is_available r \<and> robot_id r \<notin> set (rs_offline st)) (dict_values (sim_robots (rs_sim st)));
          status_in = (\<lambda>sim. map_option task_status (dict_get (sim_tasks sim) tid)) in
      case get_task (rs_sim st) tid of
        Inl e \<Rightarrow> (Inl e, st)
      | Inr t \<Rightarrow>
          (case fst (greedy_allocate candidates [t] (estimator_init (sim_warehouse (rs_sim st)) plan_astar)) of
             Inl e \<Rightarrow> (Inl e, st)
           | Inr allocation \<Rightarrow>
               if al_assignments allocation = []
               then (Inr (result1\<lparr>ev_reassigned_task_status := status_in (rs_sim st)\<rparr>), st)
               else (case commit_allocation allocation (rs_sim st) of
                 (Inl e, sim1) \<Rightarrow> (Inl e, st\<lparr>rs_sim := sim1\<rparr>)
               | (Inr report, sim1) \<Rightarrow>
                   if \<not> cr_committed report
                   then (Inr (result1\<lparr>ev_reassigned_task_status := status_in sim1\<rparr>), st\<lparr>rs_sim := sim1\<rparr>)
                   else route_replacement (as_robot_id (hd (al_assignments allocation))) tid now result1
                          (st\<lparr>rs_sim := sim1\<rparr>))))"

text \<open>\<open>_recover_task\<close>, for the robot that the caller has looked up; it returns the task's id.\<close>

definition recover_task ::
  "string \<Rightarrow> robot \<Rightarrow> int \<Rightarrow> event_result \<Rightarrow> rec_state \<Rightarrow>
     (py_error + string option \<times> event_result) \<times> rec_state" where
  "recover_task failed_id r now result st =
     (let stop_with = (\<lambda>r'. st\<lparr>rs_sim := put_robot failed_id (set_status R_OFFLINE r') (rs_sim st)\<rparr>) in
      if assigned_task_id r \<in> {None, Some []} then
        (Inr (None, result), if robot_status r \<noteq> R_OFFLINE then stop_with r else st)
      else
        let tid = the (assigned_task_id r) in
        (case get_task (rs_sim st) tid of
           Inl e \<Rightarrow> (if is_robotics_error e then (Inr (None, result), st) else (Inl e, st))
         | Inr t \<Rightarrow>
             let result1 = result\<lparr>ev_affected_task_ids := ev_affected_task_ids result @ [tid]\<rparr> in
             if task_status t = T_ASSIGNED then
               (case unassign t of
                  Inl e \<Rightarrow> (Inl e, st)
                | Inr t1 \<Rightarrow>
                    do_then (offer_task failed_id tid now result1) (\<lambda>result2 st2. (Inr (Some tid, result2), st2))
                      (st\<lparr>rs_sim := put_robot failed_id (set_status R_OFFLINE (clear_task r)) (put_task tid t1 (rs_sim st))\<rparr>))
             else if task_status t = T_IN_PROGRESS then
               (case fail_task (Fail_Offline failed_id) t of
                  Inl e \<Rightarrow> (Inl e, st)
                | Inr t1 \<Rightarrow>
                    (Inr (Some tid, result1\<lparr>ev_reassigned_task_status := Some (task_status t1)\<rparr>),
                     st\<lparr>rs_sim := put_robot failed_id (set_status R_OFFLINE (clear_task r)) (put_task tid t1 (rs_sim st))\<rparr>))
             else (Inr (Some tid, result1), stop_with r)))"

text \<open>Steps 2 to 5 of \<open>_recover_failure\<close>, after the robot has been stopped.\<close>

definition failure_score :: "string \<Rightarrow> string list \<Rightarrow> event_result \<Rightarrow> event_result" where
  "failure_score failed_id others result =
     (let reps = ev_robot_replans result;
          others_ok = list_all (\<lambda>r. rr_robot_id r = failed_id \<or> rr_success r) reps;
          task_ok = (\<not> ev_task_reassignment_attempted result \<or> ev_task_reassignment_success result);
          success = (others_ok \<and> task_ok) in
      result\<lparr>ev_replanning_attempted := (reps \<noteq> [] \<or> ev_replanning_attempted result),
        ev_replanning_success := (others_ok \<and> (\<not> list_ex (\<lambda>r. rr_robot_id r \<in> set others) reps \<or>
          list_all (\<lambda>r. rr_robot_id r \<notin> set others \<or> rr_success r) reps)),
        ev_recovery_success := success, ev_safe_stop := \<not> success, ev_resumed := others_ok,
        ev_failure_reason := (if \<not> success \<and> ev_failure_reason result = None
          then Some (if ev_task_reassignment_attempted result \<and> \<not> ev_task_reassignment_success result
            then No_Replacement else Not_Replanned)
          else ev_failure_reason result)\<rparr>)"

definition failure_others :: "string \<Rightarrow> position \<Rightarrow> int \<Rightarrow> rec_state \<Rightarrow> py_error + string list" where
  "failure_others failed_id failed_cell now st =
     res_bind (res_map (\<lambda>rid. res_bind (active_path st rid) (\<lambda>tp. Inr (rid, route_touches_cell tp failed_cell now)))
         (filter (\<lambda>rid. rid \<noteq> failed_id) (movers_of st)))
       (\<lambda>hits. Inr (map fst (filter snd hits)))"

definition recover_others ::
  "string \<Rightarrow> position \<Rightarrow> int \<Rightarrow> string option \<Rightarrow> event_result \<Rightarrow> rec_state \<Rightarrow> (py_error + event_result) \<times> rec_state" where
  "recover_others failed_id failed_cell now affected_task result st =
     (case failure_others failed_id failed_cell now st of
        Inl e \<Rightarrow> (Inl e, st)
      | Inr others \<Rightarrow>
          do_then (\<lambda>st1. if others \<noteq> [] then replan_affected others now result st1 else (Inr result, st1))
            (\<lambda>result1 st1.
              let result2 = result1\<lparr>ev_affected_robot_ids := sort (remdups (failed_id # others)),
                    ev_affected_task_ids := (case affected_task of None \<Rightarrow> ev_affected_task_ids result1
                      | Some tid \<Rightarrow> if tid \<noteq> [] then [tid] else ev_affected_task_ids result1)\<rparr> in
              (score_recovery now st1 (failure_score failed_id others result2), st1)) st)"

definition recover_rest ::
  "string \<Rightarrow> robot \<Rightarrow> position \<Rightarrow> int \<Rightarrow> event_result \<Rightarrow> rec_state \<Rightarrow> (py_error + event_result) \<times> rec_state" where
  "recover_rest failed_id r failed_cell now result st =
     do_then (recover_task failed_id r now (result\<lparr>ev_reservations_released := ev_reservations_released result +
            remaining_reservation_count (dict_get (active_paths st) failed_id) now (rs_horizon st)\<rparr>))
       (\<lambda>(affected_task, result1). recover_others failed_id failed_cell now affected_task result1) st"

definition recover_failure ::
  "bool \<Rightarrow> int \<Rightarrow> string \<Rightarrow> int \<Rightarrow> rec_state \<Rightarrow> (py_error + event_result) \<times> rec_state" where
  "recover_failure enabled timestep failed_id now st =
     (let result = event_result_init Trigger_Robot_Offline now (Failure_Event timestep failed_id) in
      case get_robot (rs_sim st) failed_id of
        Inl e \<Rightarrow> if is_robotics_error e then (Inr (result\<lparr>ev_failure_reason := Some (Unknown_Failed_Robot e)\<rparr>), st)
                 else (Inl e, st)
      | Inr r \<Rightarrow>
          (case last_cell (case dict_get (executed_trace st) failed_id of
                   None \<Rightarrow> [TimedStep (robot_position r) now] | Some trace \<Rightarrow> trace) of
             Inl e \<Rightarrow> (Inl e, st)
           | Inr failed_cell \<Rightarrow>
               let history = (case dict_get (executed_trace st) failed_id of
                     None \<Rightarrow> [TimedStep failed_cell now] | Some trace \<Rightarrow> trace);
                   r1 = set_status R_OFFLINE r;
                   st1 = st\<lparr>rs_sim := put_robot failed_id r1 (rs_sim st), rs_offline := set_add failed_id (rs_offline st),
                     active_paths := (if dict_get (active_paths st) failed_id \<noteq> None
                       then dict_set failed_id (tp_found failed_id history) (active_paths st) else active_paths st)\<rparr> in
               if \<not> enabled then
                 (Inr (result\<lparr>ev_affected_robot_ids := [failed_id], ev_safe_stop := True,
                    ev_failure_reason := Some Disabled_Not_Replaced,
                    ev_affected_task_ids := (case assigned_task_id r1 of None \<Rightarrow> []
                      | Some tid \<Rightarrow> if tid \<noteq> [] then [tid] else [])\<rparr>), st1)
               else recover_rest failed_id r1 failed_cell now result st1))"

definition handle_event ::
  "bool \<Rightarrow> int \<Rightarrow> disruption \<Rightarrow> rec_state \<Rightarrow> (py_error + event_result) \<times> rec_state" where
  "handle_event enabled now event st =
     (case event of
        Obstacle_Event t cell i \<Rightarrow> recover_obstacle enabled t cell i now st
      | Failure_Event t rid \<Rightarrow> recover_failure enabled t rid now st)"

section \<open>One timestep\<close>

fun onto_failed :: "position set \<Rightarrow> intents \<Rightarrow> (position option, string) dict \<Rightarrow> (step_reason \<times> nat) option" where
  "onto_failed offline_cells [] dests = None"
| "onto_failed offline_cells ((rid, frm, to) # rest) dests =
     (if to \<in> Some ` offline_cells then Some (Onto_Failed rid to, 0)
      else case dict_get dests to of
        Some other \<Rightarrow> Some (Joint (J_Vertex other rid to), 1)
      | None \<Rightarrow> onto_failed offline_cells rest (dict_set to rid dests))"

definition validate_recovery_step :: "rec_state \<Rightarrow> intents \<Rightarrow> py_error + step_reason option \<times> nat \<times> nat" where
  "validate_recovery_step st intents =
     res_bind (check_robots (rs_sim st) intents) (\<lambda>x.
       case x of
         Some reason \<Rightarrow> Inr (Some (Joint reason), 0, 0)
       | None \<Rightarrow>
           (case onto_failed (set (map snd (failed_cells st))) intents [] of
              Some (reason, vc) \<Rightarrow> Inr (Some reason, vc, 0)
            | None \<Rightarrow>
                (case swap_conflict intents of
                   Some reason \<Rightarrow> Inr (Some (Joint reason), 0, 1)
                 | None \<Rightarrow> Inr (None, 0, 0))))"

text \<open>The commit is the one of the coordinated executor, on the fields of this run's state.\<close>

definition commit_recovery :: "int \<Rightarrow> intents \<Rightarrow> rec_state \<Rightarrow> (py_error + unit) \<times> rec_state" where
  "commit_recovery t intents st =
     (case commit_all (active_paths st) t intents
        \<lparr>xs_sim = rs_sim st, xs_waits = wait_counts st, xs_moves = move_counts st, xs_trace = executed_trace st\<rparr> of
        (r, xs) \<Rightarrow> (r, st\<lparr>rs_sim := xs_sim xs, wait_counts := xs_waits xs, move_counts := xs_moves xs,
          executed_trace := xs_trace xs\<rparr>))"

fun robots_done :: "rec_state \<Rightarrow> string list \<Rightarrow> py_error + bool" where
  "robots_done st [] = Inr True"
| "robots_done st (rid # rids) =
     res_bind (get_robot (rs_sim st) rid) (\<lambda>r.
       case dict_get (goals_of st) rid of
         None \<Rightarrow> Inl KeyError
       | Some goal \<Rightarrow> if Some (robot_position r) \<noteq> goal then Inr False else robots_done st rids)"

definition all_done :: "rec_state \<Rightarrow> py_error + bool" where
  "all_done st = robots_done st (movers_of st)"

definition handle_events ::
  "bool \<Rightarrow> int \<Rightarrow> disruption list \<Rightarrow> event_result list \<Rightarrow> rec_state \<Rightarrow> (py_error + event_result list) \<times> rec_state" where
  "handle_events enabled now events done =
     do_fold (\<lambda>event done. do_then (handle_event enabled now event) (\<lambda>result st. (Inr (done @ [result]), st))) events done"

text \<open>
  The loop over the timesteps \<open>1 .. limit\<close>: it returns the event results, the conflict counters
  and the reason of a safe stop.
\<close>

fun resilient_loop ::
  "bool \<Rightarrow> schedule \<Rightarrow> int list \<Rightarrow> event_result list \<Rightarrow> nat \<Rightarrow> nat \<Rightarrow> rec_state \<Rightarrow>
     (py_error + event_result list \<times> nat \<times> nat \<times> resilient_failure option) \<times> rec_state" where
  "resilient_loop enabled events [] done vc ec st = (Inr (done, vc, ec, None), st)"
| "resilient_loop enabled events (t # ts) done vc ec st =
     do_then (handle_events enabled (t - 1) (events_at events (t - 1)) done) (\<lambda>done1 st1.
       (case all_done st1 of
          Inl e \<Rightarrow> (Inl e, st1)
        | Inr True \<Rightarrow> (Inr (done1, vc, ec, None), st1)
        | Inr False \<Rightarrow>
            (case res_bind (intents_at (active_paths st1) (movers_of st1) t) (\<lambda>intents.
                 res_bind (validate_recovery_step st1 intents) (\<lambda>v. Inr (intents, v))) of
               Inl e \<Rightarrow> (Inl e, st1)
             | Inr (intents, Some reason, v, e) \<Rightarrow>
                 (Inr (done1, vc + v, ec + e, Some (Safe_Stop_Before t reason)), st1)
             | Inr (intents, None, v, e) \<Rightarrow>
                 do_then (commit_recovery t intents) (\<lambda>_. resilient_loop enabled events ts done1 (vc + v) (ec + e)) st1))) st"

section \<open>The result\<close>

text \<open>Python's \<open>round(x, 4)\<close>: to the nearest multiple of \<open>1/10000\<close>, ties to even, as a double.\<close>

definition round4 :: "pyfloat \<Rightarrow> pyfloat" where
  "round4 x = fl (of_int (round_even (x * 10000)) / 10000)"

definition robot_figures :: "rec_state \<Rightarrow> string \<Rightarrow> py_error + string \<times> robot \<times> position option \<times> pyfloat \<times> pyfloat" where
  "robot_figures st rid =
     res_bind (get_robot (rs_sim st) rid) (\<lambda>r.
       case dict_get (goals_of st) rid of
         None \<Rightarrow> Inl KeyError
       | Some goal \<Rightarrow>
           Inr (rid, r, goal,
             fl (distance_travelled r - (case dict_get (odometer_before st) rid of None \<Rightarrow> distance_travelled r | Some d \<Rightarrow> d)),
             fl ((case dict_get (battery_before st) rid of None \<Rightarrow> battery_level r | Some b \<Rightarrow> b) - battery_level r)))"

definition robot_report_of ::
  "rec_state \<Rightarrow> string \<times> robot \<times> position option \<times> pyfloat \<times> pyfloat \<Rightarrow> string \<times> robot_report" where
  "robot_report_of st fig = (case fig of (rid, r, goal, distance, consumed) \<Rightarrow>
     (rid, \<lparr>rp_goal = goal, rp_final_position = robot_position r, rp_status = robot_status r,
        rp_reached_goal = (rid \<notin> set (rs_offline st) \<and> Some (robot_position r) = goal),
        rp_offline = (rid \<in> set (rs_offline st)), rp_safe_stopped = (rid \<in> set (safe_stopped st)),
        rp_joined_mid_episode = (rid \<in> set (rs_joined st)),
        rp_moves = (case dict_get (move_counts st) rid of None \<Rightarrow> 0 | Some n \<Rightarrow> n),
        rp_waits = (case dict_get (wait_counts st) rid of None \<Rightarrow> 0 | Some n \<Rightarrow> n),
        rp_distance_travelled = round4 distance, rp_battery_consumed = round4 consumed\<rparr>))"

definition finalise ::
  "event_result list \<Rightarrow> nat \<Rightarrow> nat \<Rightarrow> resilient_failure option \<Rightarrow> rec_state \<Rightarrow> py_error + resilient_result" where
  "finalise events vc ec stop st =
     (let all_ids = sort (dict_keys (active_paths st)) in
      res_bind (res_map (robot_figures st) all_ids) (\<lambda>figures.
      res_bind (find_coordination_problems
          (map (\<lambda>(rid, steps). tp_found rid steps) (filter (\<lambda>(rid, steps). steps \<noteq> []) (executed_trace st)))
          (sim_warehouse (rs_sim st)) None True) (\<lambda>problems.
      let per_robot = map (robot_report_of st) figures;
          all_reached = list_all (\<lambda>(rid, r, goal, _). rid \<in> set (rs_offline st) \<or> Some (robot_position r) = goal) figures;
          any_safe_stop = (stop \<noteq> None \<or> safe_stopped st \<noteq> [] \<or> list_ex ev_safe_stop events) in
      Inr \<lparr>rx_success = (\<not> any_safe_stop \<and> all_reached \<and> problems = [] \<and> vc = 0 \<and> ec = 0),
           rx_safe_stop = any_safe_stop, rx_recovery_events = events, rx_per_robot = per_robot,
           rx_robots_reached_goal = length (filter (\<lambda>(rid, x). rp_reached_goal x) per_robot),
           rx_robot_count = length all_ids,
           rx_total_move_steps = sum_list (dict_values (move_counts st)),
           rx_total_wait_steps = sum_list (dict_values (wait_counts st)),
           rx_makespan_executed = (if executed_trace st = [] then 0
             else Max (set (map (\<lambda>(rid, steps). int (length steps) - 1) (executed_trace st)))),
           rx_total_distance = float_sum (map (\<lambda>(_, _, _, distance, _). distance) figures),
           rx_total_battery_consumed = float_sum (map (\<lambda>(_, _, _, _, consumed). consumed) figures),
           rx_vertex_conflicts = vc, rx_edge_conflicts = ec, rx_validation_problems = problems,
           rx_failure_reason = stop\<rparr>)))"

section \<open>The run\<close>

fun elsewhere :: "simulator \<Rightarrow> (string \<times> timed_path) list \<Rightarrow> py_error + resilient_failure option" where
  "elsewhere s [] = Inr None"
| "elsewhere s ((rid, tp) # rest) =
     res_bind (get_robot s rid) (\<lambda>r.
       if Some (robot_position r) \<noteq> tp_start tp then Inr (Some (Robot_Elsewhere rid (robot_position r) (tp_start tp)))
       else elsewhere s rest)"

definition rec_state_init :: "int \<Rightarrow> (string, timed_path) dict \<Rightarrow> simulator \<Rightarrow> py_error + rec_state" where
  "rec_state_init horizon paths s =
     res_bind (res_map (\<lambda>(rid, tp). res_bind (get_robot s rid) (\<lambda>r.
         case tp_start tp of None \<Rightarrow> Inl AttributeError | Some c \<Rightarrow> Inr (rid, tp, r, c))) paths) (\<lambda>inits.
       Inr \<lparr>rs_sim = s, active_paths = paths, goals_of = map (\<lambda>(rid, tp). (rid, tp_goal tp)) paths,
            executed_trace = map (\<lambda>(rid, tp, r, c). (rid, [TimedStep c 0])) inits,
            rs_horizon = (if horizon \<noteq> 0 then horizon else default_horizon (sim_warehouse s) (length paths)),
            rs_offline = [], safe_stopped = [],
            battery_before = map (\<lambda>(rid, tp, r, c). (rid, battery_level r)) inits,
            odometer_before = map (\<lambda>(rid, tp, r, c). (rid, distance_travelled r)) inits,
            move_counts = map (\<lambda>(rid, tp). (rid, 0)) paths, wait_counts = map (\<lambda>(rid, tp). (rid, 0)) paths,
            rs_joined = []\<rparr>)"

definition run_resilient ::
  "coordination_result \<Rightarrow> schedule \<Rightarrow> int \<Rightarrow> bool \<Rightarrow> simulator \<Rightarrow> (py_error + resilient_result) \<times> simulator" where
  "run_resilient coordination disruptions max_extra_timesteps enabled s =
     (let paths = successful_paths coordination in
      if paths = [] then (Inr (resilient_default True 0 [] None), s)
      else
        (case find_coordination_problems (dict_values paths) (sim_warehouse s) None False of
           Inl e \<Rightarrow> (Inl e, s)
         | Inr problems \<Rightarrow>
             if problems \<noteq> [] then (Inr (resilient_default False (length paths) problems (Some Initial_Plan_Invalid)), s)
             else
               (case elsewhere s (sort_key fst paths) of
                  Inl e \<Rightarrow> (Inl e, s)
                | Inr (Some reason) \<Rightarrow> (Inr (resilient_default False (length paths) [] (Some reason)), s)
                | Inr None \<Rightarrow>
                    (case rec_state_init (cr_horizon coordination) paths s of
                       Inl e \<Rightarrow> (Inl e, s)
                     | Inr st \<Rightarrow>
                         let limit = last_timestep disruptions +
                               4 * (wh_width (sim_warehouse s) + wh_height (sim_warehouse s)) + max_extra_timesteps in
                         (case resilient_loop enabled disruptions [1..limit] [] 0 0 st of
                            (Inl e, st1) \<Rightarrow> (Inl e, rs_sim st1)
                          | (Inr (events, vc, ec, stop), st1) \<Rightarrow> (finalise events vc ec stop st1, rs_sim st1))))))"

end
