(* ===== verification/Recovery_World.thy ===== *)
theory Recovery_World
  imports Recovery
begin

text \<open>
  The world during recovery: whatever happens while an event is handled, robots and tasks stay
  consistent (\<open>world_ok\<close>), and what becomes of a failed robot and its task (\<open>is_down\<close>,
  \<open>task_fate\<close>).
\<close>

section \<open>Robots and tasks stay consistent\<close>

definition world_ok :: "simulator \<Rightarrow> bool" where
  [inv_defs]: "world_ok s \<longleftrightarrow> sim_ok s \<and> links_ok s"

lemma do_then_snd:
  assumes "P (snd (m s))" "\<And>a s1. m s = (Inr a, s1) \<Longrightarrow> P s1 \<Longrightarrow> P (snd (f a s1))"
  shows "P (snd (do_then m f s))"
  using assms by (cases "m s"; cases "fst (m s)") (auto simp: do_then_def)

lemma do_fold_snd:
  assumes "P s" "\<And>x a s. x \<in> set xs \<Longrightarrow> P s \<Longrightarrow> P (snd (f x a s))"
  shows "P (snd (do_fold f xs a s))"
  using assms
proof (induction xs arbitrary: a s)
  case (Cons x xs)
  show ?case unfolding do_fold.simps
  proof (rule do_then_snd)
    show "P (snd (f x a s))" using Cons.prems by simp
  next
    fix b s1 assume "P s1"
    then show "P (snd (do_fold f xs b s1))" using Cons.IH Cons.prems(2) by simp
  qed
qed simp

lemma world_ok_put_robot:
  assumes "world_ok s" "dict_get (sim_robots s) i = Some r" "robot_id r' = robot_id r"
    "robot_position r' = robot_position r" "robot_core_ok r'" "assigned_task_id r' = assigned_task_id r"
  shows "world_ok (put_robot i r' s)"
  using assms put_robot_ok links_ok_put_robot by (simp add: world_ok_def)

text \<open>A robot gives its task up, and the task is no longer live.\<close>

lemma world_ok_release:
  assumes w: "world_ok s" and r: "dict_get (sim_robots s) i = Some r" "assigned_task_id r = Some tid"
    and t: "dict_get (sim_tasks s) tid = Some t" "task_id t' = task_id t" "task_ok t'"
      "task_status t' \<notin> {T_ASSIGNED, T_IN_PROGRESS}"
    and r': "robot_id r' = robot_id r" "robot_position r' = robot_position r" "robot_core_ok r'" "assigned_task_id r' = None"
  shows "world_ok (put_robot i r' (put_task tid t' s))"
proof -
  have S: "sim_ok s" and L: "links_ok s" using w by (simp_all add: world_ok_def)
  have "sim_ok (put_task tid t' s)" using put_task_ok [OF S _ t(3), of tid] sim_ok_taskD [OF S t(1)] t(2) by simp
  then have sim: "sim_ok (put_robot i r' (put_task tid t' s))"
    using put_robot_ok [of "put_task tid t' s" i r r'] r(1) r'(1-3) by simp
  obtain u where u: "dict_get (sim_tasks s) tid = Some u" "assigned_robot_id u = Some i"
    using links_ok_robotD [OF L r] by blast
  have own: "assigned_robot_id t = Some i" using u t(1) by simp
  have "links_ok (put_robot i r' (put_task tid t' s))"
  proof (rule links_okI)
    fix j q v assume a: "dict_get (sim_robots (put_robot i r' (put_task tid t' s))) j = Some q" "assigned_task_id q = Some v"
    then have j: "dict_get (sim_robots s) j = Some q" "j \<noteq> i" using r'(4) by (auto split: if_splits)
    have "v \<noteq> tid" using links_ok_robotD [OF L j(1) a(2)] own t(1) j(2) by auto
    then show "\<exists>t. dict_get (sim_tasks (put_robot i r' (put_task tid t' s))) v = Some t \<and> assigned_robot_id t = Some j \<and>
        task_status t \<in> {T_ASSIGNED, T_IN_PROGRESS}"
      using links_ok_robotD [OF L j(1) a(2)] by simp
  next
    fix v x assume a: "dict_get (sim_tasks (put_robot i r' (put_task tid t' s))) v = Some x"
      "task_status x \<in> {T_ASSIGNED, T_IN_PROGRESS}"
    then have v: "v \<noteq> tid" "dict_get (sim_tasks s) v = Some x" using t(4) by (auto split: if_splits)
    obtain j q where j: "assigned_robot_id x = Some j" "dict_get (sim_robots s) j = Some q" "assigned_task_id q = Some v"
      using links_ok_taskD [OF L v(2) a(2)] by blast
    have "j \<noteq> i" using j(2,3) r v(1) by auto
    then show "\<exists>j q. assigned_robot_id x = Some j \<and>
        dict_get (sim_robots (put_robot i r' (put_task tid t' s))) j = Some q \<and> assigned_task_id q = Some v"
      using j by simp
  qed
  then show ?thesis using sim by (simp add: world_ok_def)
qed

lemma apply_loop_world: "world_ok s \<Longrightarrow> world_ok (snd (apply_loop as applied s))"
proof (induction as arbitrary: applied s)
  case (Cons a as)
  show ?case
  proof (cases "assign_task_manually (as_task_id a) (as_robot_id a) s")
    case (Inl e)
    then show ?thesis using Cons.prems by simp
  next
    case (Inr s1)
    then have "world_ok s1"
      using Cons.prems assign_task_manually_ok assign_task_manually_links unfolding world_ok_def by blast
    then show ?thesis using Cons.IH Inr by simp
  qed
qed simp

lemma commit_allocation_world: "world_ok s \<Longrightarrow> world_ok (snd (commit_allocation res s))"
  using apply_loop_world by (auto simp: commit_allocation_def split: option.splits)

text \<open>Allocating a single task proposes at most one assignment, for that task.\<close>

lemma greedy_single:
  assumes "greedy_allocate robots [t] est = (Inr alloc, est')"
  shows "al_success alloc \<and> (al_assignments alloc = [] \<or> (\<exists>a. al_assignments alloc = [a] \<and> as_task_id a = task_id t))"
proof -
  obtain feasible n where f: "alloc = build_result ''greedy'' ''GREEDY'' True
      (greedy_loop (pairs_by_task feasible) (map task_id (pending_tasks [t])) {} []) (map task_id (pending_tasks [t]))
      (length feasible) n"
    using assms by (auto simp: greedy_allocate_def Let_def split: prod.splits sum.splits)
  show ?thesis
  proof (cases "task_status t = T_PENDING")
    case False
    then show ?thesis by (simp add: f pending_tasks_def build_result_def)
  next
    case True
    show ?thesis
    proof (cases "first_free (ranked_for feasible (task_id t)) {}")
      case None
      then show ?thesis using True by (simp add: f pending_tasks_def pairs_by_task_get build_result_def)
    next
      case (Some p)
      then have "cp_task_id p = task_id t"
        using first_free_Some [of "ranked_for feasible (task_id t)" "{}" p] by (simp add: ranked_for_def)
      then show ?thesis using True Some by (simp add: f pending_tasks_def pairs_by_task_get build_result_def)
    qed
  qed
qed

text \<open>A committed single assignment: its task and robot point at each other.\<close>

lemma commit_single:
  assumes "commit_allocation alloc s = (Inr report, s')" "cr_committed report" "al_assignments alloc = [a]" "sim_ok s"
  obtains t r where "dict_get (sim_tasks s) (as_task_id a) = Some t" "dict_get (sim_robots s) (as_robot_id a) = Some r"
    "task_status t = T_PENDING" "is_available r"
    "s' = put_task (as_task_id a) (t\<lparr>task_status := T_ASSIGNED, assigned_robot_id := Some (as_robot_id a)\<rparr>)
          (put_robot (as_robot_id a) (r\<lparr>assigned_task_id := Some (as_task_id a), robot_status := R_ASSIGNED\<rparr>) s)"
proof -
  have "assign_task_manually (as_task_id a) (as_robot_id a) s = Inr s'"
    using assms(1-3) by (auto simp: commit_allocation_def split: option.splits if_splits sum.splits)
  then show ?thesis
    by (rule assign_task_manually_Inr) (use that sim_ok_robotD [OF assms(4)] sim_ok_taskD [OF assms(4)] in auto)
qed

text \<open>Replanning never touches the simulator.\<close>

lemma replan_one_sim [simp]: "rs_sim (snd (replan_one now rid acc st)) = rs_sim st"
  by (simp add: replan_one_def Let_def split: prod.splits sum.splits)

lemma replan_affected_sim [simp]: "rs_sim (snd (replan_affected affected now result st)) = rs_sim st"
proof -
  have "rs_sim (snd (do_fold (replan_one now) rids acc s)) = rs_sim st" if "rs_sim s = rs_sim st" for rids acc s
    using that by (rule do_fold_snd [where P = "\<lambda>s. rs_sim s = rs_sim st"]) simp
  then show ?thesis
    unfolding replan_affected_def Let_def
    by (auto intro!: do_then_snd [where P = "\<lambda>s. rs_sim s = rs_sim st"] split: sum.split prod.split)
qed

lemma stop_one_sim [simp]: "rs_sim (snd (stop_one now rid result st)) = rs_sim st"
  by (simp add: stop_one_def Let_def split: prod.splits sum.splits)

lemma recover_obstacle_world:
  assumes "world_ok (rs_sim st)"
  shows "world_ok (rs_sim (snd (recover_obstacle enabled t cell i now st)))"
proof -
  let ?P = "\<lambda>st. world_ok (rs_sim st)"
  have stops: "?P (snd (do_fold (stop_one now) rids r s))" if "?P s" for rids r s
    using that by (rule do_fold_snd) simp
  show ?thesis
  proof (cases "sim_add_dynamic_obstacle (resolved_obstacle_id t cell i) cell ''disruption'' (rs_sim st)")
    case (Inl e)
    then show ?thesis using assms by (simp add: recover_obstacle_def)
  next
    case (Inr x)
    obtain ob sim1 where x: "x = (ob, sim1)" by (cases x)
    have "sim_ok sim1" using assms sim_add_dynamic_obstacle_ok Inr x unfolding world_ok_def by blast
    moreover have "links_ok sim1" using assms Inr x
      by (auto simp: world_ok_def sim_add_dynamic_obstacle_def res_bind_Inr split: if_splits)
    ultimately have P: "?P (st\<lparr>rs_sim := sim1\<rparr>)" by (simp add: world_ok_def)
    have a: "?P (snd (do_then (do_fold (stop_one now) rids r) (\<lambda>r2 st2. (Inr (g r2), st2)) (st\<lparr>rs_sim := sim1\<rparr>)))" for rids r g
      by (rule do_then_snd [where P = ?P]) (use stops P in simp_all)
    have b: "?P (snd (do_then (replan_affected rids now r) (\<lambda>r2 st2. (score_recovery now st2 r2, st2)) (st\<lparr>rs_sim := sim1\<rparr>)))" for rids r
      by (rule do_then_snd [where P = ?P]) (use P in simp_all)
    show ?thesis
      unfolding recover_obstacle_def Inr x Let_def sum.case prod.case
      using P b a [of _ _ "\<lambda>r2. r2\<lparr>ev_safe_stop := True, ev_failure_reason := Some Disabled_Stopped\<rparr>"]
      by (simp split: sum.split)
  qed
qed

lemma clear_task_sel [simp]: "robot_id (clear_task r) = robot_id r" "robot_position (clear_task r) = robot_position r"
  "assigned_task_id (clear_task r) = None" "robot_status (clear_task r) = R_IDLE"
  by (simp_all add: clear_task_def)

lemma set_status_sel [simp]: "robot_id (set_status x r) = robot_id r" "robot_position (set_status x r) = robot_position r"
  "assigned_task_id (set_status x r) = assigned_task_id r" "robot_status (set_status x r) = x"
  by (simp_all add: set_status_def)

lemma route_replacement_world:
  assumes w: "world_ok (rs_sim st)" and r: "dict_get (sim_robots (rs_sim st)) new_rid = Some r" "assigned_task_id r = Some tid"
  shows "world_ok (rs_sim (snd (route_replacement new_rid tid now result st)))"
proof -
  have "world_ok (put_robot new_rid (clear_task r) (put_task tid t1 (rs_sim st)))"
    if t: "dict_get (sim_tasks (rs_sim st)) tid = Some t" "unassign t = Inr t1" for t t1
  proof (rule world_ok_release [OF w r t(1)])
    have S: "sim_ok (rs_sim st)" using w by (simp add: world_ok_def)
    show "task_ok t1" using unassign_ok sim_ok_taskD [OF S t(1)] t(2) by blast
    show "task_id t1 = task_id t" "task_status t1 \<notin> {T_ASSIGNED, T_IN_PROGRESS}"
      using t(2) by (auto simp: lifecycle_defs)
    show "robot_core_ok (clear_task r)" using sim_ok_robotD [OF S r(1)] by simp
  qed simp_all
  then show ?thesis using w r(1)
    by (auto simp: route_replacement_def Let_def res_bind_Inr split: prod.splits sum.splits)
qed

lemma offer_task_world:
  assumes "world_ok (rs_sim st)"
  shows "world_ok (rs_sim (snd (offer_task failed_id tid now result st)))"
proof (cases "get_task (rs_sim st) tid")
  case (Inl e)
  then show ?thesis using assms by (simp add: offer_task_def)
next
  case t: (Inr t)
  let ?cands = "filter (\<lambda>r. is_available r \<and> robot_id r \<notin> set (rs_offline st)) (dict_values (sim_robots (rs_sim st)))"
  let ?g = "greedy_allocate ?cands [t] (estimator_init (sim_warehouse (rs_sim st)) plan_astar)"
  show ?thesis
  proof (cases "fst ?g")
    case (Inl e)
    then show ?thesis using assms t by (simp add: offer_task_def)
  next
    case g: (Inr alloc)
    have ids: "task_id t = tid" using t sim_ok_taskD [of "rs_sim st" tid t] assms by (simp add: world_ok_def)
    obtain est' where run: "?g = (Inr alloc, est')" using g by (cases ?g) simp
    show ?thesis
    proof (cases "al_assignments alloc = []")
      case True
      then show ?thesis using assms t g by (simp add: offer_task_def)
    next
      case False
      then obtain a where a: "al_assignments alloc = [a]" "as_task_id a = tid"
        using greedy_single [OF run] ids by auto
      obtain rep sim1 where c: "commit_allocation alloc (rs_sim st) = (rep, sim1)" by fastforce
      have w1: "world_ok sim1" using commit_allocation_world [OF assms, of alloc] c by simp
      show ?thesis
      proof (cases "\<exists>report. rep = Inr report \<and> cr_committed report")
        case True
        then obtain report where report: "rep = Inr report" "cr_committed report" by blast
        have S: "sim_ok (rs_sim st)" using assms by (simp add: world_ok_def)
        have "world_ok (rs_sim (snd (route_replacement (as_robot_id a) tid now r (st\<lparr>rs_sim := sim1\<rparr>))))" for r
          by (rule commit_single [OF c [unfolded report(1)] report(2) a(1) S], rule route_replacement_world)
            (use w1 a(2) in auto)
        then show ?thesis using t g c report a False by (simp add: offer_task_def Let_def)
      next
        case False
        then show ?thesis using t g c w1 \<open>al_assignments alloc \<noteq> []\<close>
          by (cases rep) (auto simp: offer_task_def Let_def)
      qed
    qed
  qed
qed

lemma recover_task_world:
  assumes w: "world_ok (rs_sim st)" and r: "dict_get (sim_robots (rs_sim st)) failed_id = Some r"
  shows "world_ok (rs_sim (snd (recover_task failed_id r now result st)))"
proof -
  have S: "sim_ok (rs_sim st)" using w by (simp add: world_ok_def)
  have core: "robot_core_ok r" using sim_ok_robotD [OF S r] by simp
  have stop: "world_ok (put_robot failed_id (set_status R_OFFLINE r) (rs_sim st))"
    by (rule world_ok_put_robot [OF w r]) (use core in simp_all)
  show ?thesis
  proof (cases "assigned_task_id r \<in> {None, Some []}")
    case True
    then show ?thesis using w stop by (simp add: recover_task_def)
  next
    case False
    then obtain tid where tid: "assigned_task_id r = Some tid" "tid \<noteq> []" by auto
    show ?thesis
    proof (cases "get_task (rs_sim st) tid")
      case (Inl e)
      then show ?thesis using w tid by (simp add: recover_task_def)
    next
      case (Inr t)
      then have t: "dict_get (sim_tasks (rs_sim st)) tid = Some t" by simp
      have rel: "world_ok (put_robot failed_id (set_status R_OFFLINE (clear_task r)) (put_task tid t' (rs_sim st)))"
        if "task_id t' = task_id t" "task_ok t'" "task_status t' \<notin> {T_ASSIGNED, T_IN_PROGRESS}" for t'
        by (rule world_ok_release [OF w r tid(1) t that]) (use core in simp_all)
      have tok: "task_ok t" using sim_ok_taskD [OF S t] by simp
      have "world_ok (rs_sim (snd (do_then (offer_task failed_id tid now r1) (\<lambda>r2 st2. (Inr (Some tid, r2), st2))
          (st\<lparr>rs_sim := put_robot failed_id (set_status R_OFFLINE (clear_task r)) (put_task tid t1 (rs_sim st))\<rparr>))))"
        if u: "unassign t = Inr t1" for t1 r1
      proof (rule do_then_snd [where P = "\<lambda>st. world_ok (rs_sim st)"], rule offer_task_world)
        show "world_ok (rs_sim (st\<lparr>rs_sim := put_robot failed_id (set_status R_OFFLINE (clear_task r)) (put_task tid t1 (rs_sim st))\<rparr>))"
          using rel [of t1] unassign_ok [OF tok u] u by (auto simp: lifecycle_defs)
      qed simp
      moreover have "world_ok (put_robot failed_id (set_status R_OFFLINE (clear_task r)) (put_task tid t1 (rs_sim st)))"
        if u: "fail_task why t = Inr t1" for t1 why
        using rel [of t1] fail_task_ok [OF tok u] u by (auto simp: lifecycle_defs)
      ultimately show ?thesis using w stop tid Inr by (auto simp: recover_task_def Let_def split: sum.splits)
    qed
  qed
qed

lemma recover_others_world:
  assumes "world_ok (rs_sim st)"
  shows "world_ok (rs_sim (snd (recover_others failed_id cell now task result st)))"
proof (cases "failure_others failed_id cell now st")
  case (Inl e)
  then show ?thesis using assms by (simp add: recover_others_def)
next
  case (Inr others)
  show ?thesis unfolding recover_others_def Inr sum.case
    by (rule do_then_snd [where P = "\<lambda>st. world_ok (rs_sim st)"]) (use assms in \<open>simp_all add: Let_def\<close>)
qed

lemma recover_rest_world:
  assumes "world_ok (rs_sim st)" "dict_get (sim_robots (rs_sim st)) failed_id = Some r"
  shows "world_ok (rs_sim (snd (recover_rest failed_id r cell now result st)))"
  unfolding recover_rest_def
  by (rule do_then_snd [where P = "\<lambda>st. world_ok (rs_sim st)"], rule recover_task_world [OF assms])
    (simp add: recover_others_world split: prod.split)

lemma recover_failure_world:
  assumes "world_ok (rs_sim st)"
  shows "world_ok (rs_sim (snd (recover_failure enabled t rid now st)))"
proof (cases "get_robot (rs_sim st) rid")
  case (Inl e)
  then show ?thesis using assms by (simp add: recover_failure_def)
next
  case (Inr r)
  then have r: "dict_get (sim_robots (rs_sim st)) rid = Some r" by simp
  have "robot_core_ok r" using assms r sim_ok_robotD unfolding world_ok_def by blast
  then have "world_ok (put_robot rid (set_status R_OFFLINE r) (rs_sim st))"
    by (intro world_ok_put_robot [OF assms r]) simp_all
  then show ?thesis using assms Inr recover_rest_world
    by (simp add: recover_failure_def Let_def split: sum.split)
qed

lemma handle_event_world: "world_ok (rs_sim st) \<Longrightarrow> world_ok (rs_sim (snd (handle_event enabled now event st)))"
  by (cases event) (simp_all add: handle_event_def recover_obstacle_world recover_failure_world)

section \<open>What becomes of a failed robot and its task\<close>

definition is_down :: "string \<Rightarrow> robot \<Rightarrow> simulator \<Rightarrow> bool" where
  "is_down rid r s \<longleftrightarrow> (\<exists>r'. dict_get (sim_robots s) rid = Some r' \<and> robot_status r' = R_OFFLINE \<and>
     robot_position r' = robot_position r \<and> battery_level r' = battery_level r \<and> assigned_task_id r' = None)"

definition open_again :: "string \<Rightarrow> simulator \<Rightarrow> bool" where
  "open_again tid s \<longleftrightarrow> (\<exists>t. dict_get (sim_tasks s) tid = Some t \<and> task_status t \<in> {T_PENDING, T_ASSIGNED})"

lemma is_down_not_available: "is_down rid r s \<Longrightarrow> dict_get (sim_robots s) rid = Some q \<Longrightarrow> \<not> is_available q"
  by (auto simp: is_down_def is_available_def available_statuses_def)

lemma route_replacement_fate:
  assumes "is_down rid r (rs_sim st)" "open_again tid (rs_sim st)" "new_rid \<noteq> rid"
  shows "is_down rid r (rs_sim (snd (route_replacement new_rid tid now result st))) \<and>
    open_again tid (rs_sim (snd (route_replacement new_rid tid now result st)))"
  using assms
  by (auto simp: route_replacement_def Let_def is_down_def open_again_def lifecycle_defs split: prod.splits sum.splits)

lemma offer_task_fate:
  assumes w: "sim_ok (rs_sim st)" and d: "is_down rid r (rs_sim st)" and o: "open_again tid (rs_sim st)"
  shows "is_down rid r (rs_sim (snd (offer_task rid tid now result st))) \<and>
    open_again tid (rs_sim (snd (offer_task rid tid now result st)))"
proof (cases "get_task (rs_sim st) tid")
  case (Inl e)
  then show ?thesis using d o by (simp add: offer_task_def)
next
  case t: (Inr t)
  let ?cands = "filter (\<lambda>r. is_available r \<and> robot_id r \<notin> set (rs_offline st)) (dict_values (sim_robots (rs_sim st)))"
  let ?g = "greedy_allocate ?cands [t] (estimator_init (sim_warehouse (rs_sim st)) plan_astar)"
  have ids: "task_id t = tid" using t sim_ok_taskD [OF w, of tid t] by simp
  show ?thesis
  proof (cases "\<exists>alloc. fst ?g = Inr alloc \<and> al_assignments alloc \<noteq> []")
    case False
    then show ?thesis using d o t by (auto simp: offer_task_def Let_def split: sum.split)
  next
    case True
    then obtain alloc where g: "fst ?g = Inr alloc" "al_assignments alloc \<noteq> []" by blast
    obtain est' where run: "?g = (Inr alloc, est')" using g(1) by (cases ?g) simp
    obtain a where a: "al_assignments alloc = [a]" "as_task_id a = tid" "al_success alloc"
      using greedy_single [OF run] g(2) ids by auto
    have one: "al_success alloc" "al_assignments alloc = [a]" using a by simp_all
    obtain rep sim1 where c: "commit_allocation alloc (rs_sim st) = (rep, sim1)" by fastforce
    show ?thesis
    proof (cases "assign_task_manually tid (as_robot_id a) (rs_sim st)")
      case (Inl e)
      then have "sim1 = rs_sim st \<and> (\<forall>report. rep = Inr report \<longrightarrow> \<not> cr_committed report)"
        using c a by (auto simp: commit_allocation_def split: option.splits)
      then show ?thesis using d o t g c by (cases rep) (auto simp: offer_task_def Let_def)
    next
      case (Inr s1)
      show ?thesis
      proof (cases "\<exists>report. rep = Inr report \<and> cr_committed report")
        case False
        then have "sim1 = rs_sim st" using c a Inr by (auto simp: commit_allocation_def split: option.splits)
        then show ?thesis using False d o t g c by (cases rep) (auto simp: offer_task_def Let_def)
      next
        case True
        then obtain report where report: "rep = Inr report" "cr_committed report" by blast
        have "is_down rid r (rs_sim (snd (route_replacement (as_robot_id a) tid now x (st\<lparr>rs_sim := sim1\<rparr>)))) \<and>
          open_again tid (rs_sim (snd (route_replacement (as_robot_id a) tid now x (st\<lparr>rs_sim := sim1\<rparr>))))" for x
        proof (rule commit_single [OF c [unfolded report(1)] report(2) a(1) w], rule route_replacement_fate)
          fix u q assume s: "dict_get (sim_robots (rs_sim st)) (as_robot_id a) = Some q" "is_available q"
            "sim1 = put_task (as_task_id a) (u\<lparr>task_status := T_ASSIGNED, assigned_robot_id := Some (as_robot_id a)\<rparr>)
              (put_robot (as_robot_id a) (q\<lparr>assigned_task_id := Some (as_task_id a), robot_status := R_ASSIGNED\<rparr>) (rs_sim st))"
          show ne: "as_robot_id a \<noteq> rid" using is_down_not_available [OF d] s(1,2) by blast
          show "is_down rid r (rs_sim (st\<lparr>rs_sim := sim1\<rparr>))" using d ne by (simp add: s(3) is_down_def)
          show "open_again tid (rs_sim (st\<lparr>rs_sim := sim1\<rparr>))" using a(2) by (simp add: s(3) open_again_def)
        qed
        then show ?thesis using t g c report a by (simp add: offer_task_def Let_def)
      qed
    qed
  qed
qed

definition task_fate :: "task \<Rightarrow> string \<Rightarrow> simulator \<Rightarrow> bool" where
  "task_fate t tid s \<longleftrightarrow> (\<exists>t'. dict_get (sim_tasks s) tid = Some t' \<and>
     (if task_status t = T_IN_PROGRESS then task_status t' = T_FAILED
      else task_status t' \<in> {T_PENDING, T_ASSIGNED}))"

lemma recover_task_fate:
  assumes w: "world_ok (rs_sim st)" and r: "dict_get (sim_robots (rs_sim st)) rid = Some r" "robot_status r = R_OFFLINE"
    and run: "recover_task rid r now result st = (Inr x, st')"
  shows "is_down rid r (rs_sim st')"
    "assigned_task_id r = Some tid \<Longrightarrow> dict_get (sim_tasks (rs_sim st)) tid = Some t \<Longrightarrow> task_fate t tid (rs_sim st')"
proof -
  have S: "sim_ok (rs_sim st)" and L: "links_ok (rs_sim st)" using w by (simp_all add: world_ok_def)
  have goal: "is_down rid r (rs_sim st') \<and> (\<forall>tid t. assigned_task_id r = Some tid \<longrightarrow>
      dict_get (sim_tasks (rs_sim st)) tid = Some t \<longrightarrow> task_fate t tid (rs_sim st'))"
  proof (cases "assigned_task_id r")
    case None
    then show ?thesis using run r by (auto simp: recover_task_def is_down_def)
  next
    case (Some tid)
    obtain t where t: "dict_get (sim_tasks (rs_sim st)) tid = Some t" "task_status t \<in> {T_ASSIGNED, T_IN_PROGRESS}"
      using links_ok_robotD [OF L r(1) Some] by blast
    have tok: "task_ok t" "task_id t = tid" using sim_ok_taskD [OF S t(1)] by simp_all
    then have tid: "tid \<noteq> []" by (auto simp: task_ok_def)
    let ?s = "\<lambda>t'. put_robot rid (set_status R_OFFLINE (clear_task r)) (put_task tid t' (rs_sim st))"
    have down: "is_down rid r (?s t')" for t' by (simp add: is_down_def clear_task_def set_status_def)
    show ?thesis
    proof (cases "task_status t = T_ASSIGNED")
      case False
      then show ?thesis using run t tid Some down
        by (auto simp: recover_task_def Let_def task_fate_def lifecycle_defs split: sum.splits)
    next
      case True
      then obtain t1 where t1: "unassign t = Inr t1" "task_status t1 = T_PENDING" "task_id t1 = task_id t"
        by (auto simp: lifecycle_defs)
      have "sim_ok (put_task tid t1 (rs_sim st))"
        using put_task_ok [OF S _ unassign_ok [OF tok(1) t1(1)], of tid] t1(3) tok(2) by simp
      then have ok: "sim_ok (?s t1)"
        using put_robot_ok [of "put_task tid t1 (rs_sim st)" rid r "set_status R_OFFLINE (clear_task r)"] r(1)
          sim_ok_robotD [OF S r(1)] by simp
      let ?st = "st\<lparr>rs_sim := ?s t1\<rparr>" and ?r = "result\<lparr>ev_affected_task_ids := ev_affected_task_ids result @ [tid]\<rparr>"
      have f: "is_down rid r (rs_sim (snd (offer_task rid tid now ?r ?st))) \<and> open_again tid (rs_sim (snd (offer_task rid tid now ?r ?st)))"
        using offer_task_fate [of ?st rid r tid now ?r] ok down t1(2) by (simp add: open_again_def)
      have "st' = snd (offer_task rid tid now ?r ?st)"
        using run Some tid t(1) True t1(1)
        by (auto simp: recover_task_def Let_def do_then_def split: prod.splits sum.splits)
      then show ?thesis using f Some t(1) True by (simp add: task_fate_def open_again_def)
    qed
  qed
  then show "is_down rid r (rs_sim st')"
    "assigned_task_id r = Some tid \<Longrightarrow> dict_get (sim_tasks (rs_sim st)) tid = Some t \<Longrightarrow> task_fate t tid (rs_sim st')"
    by blast+
qed

end
