(* ===== verification/Recovery_Safety.thy ===== *)
theory Recovery_Safety
  imports Recovery_World
begin

text \<open>
  The safety of a resilient run: a validated timestep commits as a whole and keeps the world
  consistent as long as every robot takes part or has failed (\<open>crewed\<close>), events only ever add
  paths, failures and stops (\<open>evolved\<close>), and so a run that stops nobody ends in a consistent
  world (\<open>resilient_ok\<close> is its invariant).
\<close>

section \<open>A validated timestep\<close>

lemma onto_failed_None:
  "onto_failed cells intents seen = None \<longleftrightarrow> distinct (map (\<lambda>(rid, frm, to). to) intents) \<and>
     (\<forall>(rid, frm, to) \<in> set intents. dict_get seen to = None \<and> to \<notin> Some ` cells)"
proof (induction cells intents seen rule: onto_failed.induct)
  case (2 cells rid frm to rest seen)
  show ?case
  proof (cases "to \<in> Some ` cells")
    case True
    then show ?thesis by simp
  next
    case False
    then show ?thesis using 2 by (cases "dict_get seen to") (auto simp: split_beta image_iff)
  qed
qed simp

lemma validated_recovery_step:
  assumes "validate_recovery_step st intents = Inr (None, v, e)"
  shows "\<forall>i \<in> set intents. may_step (rs_sim st) i" "distinct (map (\<lambda>(rid, frm, to). to) intents)"
    "(rid, frm, to) \<in> set intents \<Longrightarrow> to \<notin> Some ` snd ` set (failed_cells st)" "swap_conflict intents = None"
proof -
  have "check_robots (rs_sim st) intents = Inr None"
    "onto_failed (set (map snd (failed_cells st))) intents [] = None" "swap_conflict intents = None"
    using assms by (auto simp: validate_recovery_step_def res_bind_Inr split: option.splits)
  then show "\<forall>i \<in> set intents. may_step (rs_sim st) i" "distinct (map (\<lambda>(rid, frm, to). to) intents)"
    "(rid, frm, to) \<in> set intents \<Longrightarrow> to \<notin> Some ` snd ` set (failed_cells st)" "swap_conflict intents = None"
    by (force simp: check_robots_None onto_failed_None)+
qed

lemma failed_cells_mem:
  "cell \<in> snd ` set (failed_cells st) \<longleftrightarrow>
     (\<exists>i r. i \<in> set (rs_offline st) \<and> dict_get (sim_robots (rs_sim st)) i = Some r \<and> robot_position r = cell)"
proof -
  have "x \<in> set (failed_cells st) \<longleftrightarrow>
      (\<exists>r. fst x \<in> set (rs_offline st) \<and> dict_get (sim_robots (rs_sim st)) (fst x) = Some r \<and> robot_position r = snd x)" for x
    by (cases x) (force simp: failed_cells_def map_filter_def)
  then show ?thesis by force
qed

text \<open>
  A joint step keeps the world consistent as soon as no robot outside the step stands on one of
  its targets.
\<close>

lemma stepped_robotD:
  assumes st: "stepped intents s s'" and may: "\<forall>i \<in> set intents. may_step s i" and r': "dict_get (sim_robots s') j = Some r'"
  obtains r where "dict_get (sim_robots s) j = Some r" "robot_id r' = robot_id r" "assigned_task_id r' = assigned_task_id r"
    "robot_core_ok r \<Longrightarrow> robot_core_ok r'"
    "j \<notin> set (dict_keys intents) \<and> r' = r \<or> (\<exists>frm to. (j, frm, Some to) \<in> set intents \<and> robot_position r' = to \<and> is_traversable (sim_warehouse s) to)"
proof (cases "j \<in> set (dict_keys intents)")
  case False
  then show ?thesis using st r' that [of r'] by (simp add: stepped_def)
next
  case True
  then obtain frm dest where i: "(j, frm, dest) \<in> set intents" by auto
  then obtain r q to where r: "dict_get (sim_robots s) j = Some r" "dict_get (sim_robots s') j = Some q" "dest = Some to"
    "robot_position q = to" "if robot_position r = to then q = r else move_to to r = Inr q"
    using st by (force simp: stepped_def robot_stepped_def)
  have q: "q = r'" using r(2) r' by simp
  have tr: "is_traversable (sim_warehouse s) to" using may i r(3) by (force simp: may_step_def)
  show ?thesis
  proof (rule that [OF r(1)])
    show "robot_id r' = robot_id r" "assigned_task_id r' = assigned_task_id r"
      using r(5) q move_to_frame [of to r r'] by (auto split: if_splits)
    show "robot_core_ok r \<Longrightarrow> robot_core_ok r'" using r(5) q move_to_ok [of r to r'] by (auto split: if_splits)
    show "j \<notin> set (dict_keys intents) \<and> r' = r \<or>
      (\<exists>frm to. (j, frm, Some to) \<in> set intents \<and> robot_position r' = to \<and> is_traversable (sim_warehouse s) to)"
      using i r(3,4) q tr by blast
  qed
qed

lemma stepped_world_ok:
  assumes w: "world_ok s" and st: "stepped intents s s'" and may: "\<forall>i \<in> set intents. may_step s i"
    and dist: "distinct (map (\<lambda>(rid, frm, to). to) intents)" "distinct (dict_keys intents)"
    and other: "\<And>j r rid frm. dict_get (sim_robots s) j = Some r \<Longrightarrow> j \<notin> set (dict_keys intents) \<Longrightarrow>
      (rid, frm, Some (robot_position r)) \<notin> set intents"
  shows "world_ok s'"
proof -
  have S: "sim_ok s" and L: "links_ok s" using w by (simp_all add: world_ok_def)
  have eq: "sim_warehouse s' = sim_warehouse s" "sim_tasks s' = sim_tasks s" "dict_keys (sim_robots s') = dict_keys (sim_robots s)"
    using st by (simp_all add: stepped_def)
  note bk = stepped_robotD [OF st may]
  have inj: "rid = rid'" if "(rid, frm, to) \<in> set intents" "(rid', frm', to) \<in> set intents" for rid rid' frm frm' to
    using that dist(1) unfolding distinct_map inj_on_def by fastforce
  have one: "robot_id r = i \<and> robot_core_ok r \<and> is_traversable (sim_warehouse s) (robot_position r)"
    if r: "dict_get (sim_robots s') i = Some r" for i r
  proof (rule bk [OF r])
    fix r0 assume a: "dict_get (sim_robots s) i = Some r0" "robot_id r = robot_id r0" "robot_core_ok r0 \<Longrightarrow> robot_core_ok r"
      "i \<notin> set (dict_keys intents) \<and> r = r0 \<or> (\<exists>frm to. (i, frm, Some to) \<in> set intents \<and> robot_position r = to \<and> is_traversable (sim_warehouse s) to)"
    show ?thesis using a sim_ok_robotD [OF S a(1)] by auto
  qed
  have apart: "i = j" if h: "dict_get (sim_robots s') i = Some r" "dict_get (sim_robots s') j = Some q"
    "robot_position r = robot_position q" for i j r q
  proof (rule bk [OF h(1)], rule bk [OF h(2)])
    fix r0 q0
    assume a: "dict_get (sim_robots s) i = Some r0" "dict_get (sim_robots s) j = Some q0"
      "i \<notin> set (dict_keys intents) \<and> r = r0 \<or> (\<exists>frm to. (i, frm, Some to) \<in> set intents \<and> robot_position r = to \<and> is_traversable (sim_warehouse s) to)"
      "j \<notin> set (dict_keys intents) \<and> q = q0 \<or> (\<exists>frm to. (j, frm, Some to) \<in> set intents \<and> robot_position q = to \<and> is_traversable (sim_warehouse s) to)"
    show "i = j"
      using a(3,4) other [OF a(1)] other [OF a(2)] h(3) inj robots_ok_inj [OF sim_ok_robots [OF S] a(1,2)] by metis
  qed
  have "dict_ok (sim_robots s')" using sim_ok_dicts(1) [OF S] unfolding dict_ok_def eq .
  then have "robots_ok (sim_warehouse s) (sim_robots s')" unfolding robots_ok_def using one apart by blast
  then have sim: "sim_ok s'" using S by (simp add: sim_ok_def eq)
  have fwd: "\<exists>r'. dict_get (sim_robots s') j = Some r' \<and> assigned_task_id r' = assigned_task_id r"
    if "dict_get (sim_robots s) j = Some r" for j r
  proof -
    have "j \<in> set (dict_keys (sim_robots s'))" using that dict_get_None_iff [of "sim_robots s" j] unfolding eq by auto
    then obtain r' where r': "dict_get (sim_robots s') j = Some r'"
      using dict_get_None_iff [of "sim_robots s'" j] by (cases "dict_get (sim_robots s') j") auto
    show ?thesis by (rule bk [OF r']) (use that r' in auto)
  qed
  have "links_ok s'"
  proof (rule links_okI)
    fix i r tid assume h: "dict_get (sim_robots s') i = Some r" "assigned_task_id r = Some tid"
    show "\<exists>t. dict_get (sim_tasks s') tid = Some t \<and> assigned_robot_id t = Some i \<and> task_status t \<in> {T_ASSIGNED, T_IN_PROGRESS}"
      by (rule bk [OF h(1)]) (use links_ok_robotD [OF L] h(2) eq in auto)
  next
    fix tid t assume h: "dict_get (sim_tasks s') tid = Some t" "task_status t \<in> {T_ASSIGNED, T_IN_PROGRESS}"
    obtain j r where "assigned_robot_id t = Some j" "dict_get (sim_robots s) j = Some r" "assigned_task_id r = Some tid"
      using links_ok_taskD [OF L, of tid t] h eq by auto
    then show "\<exists>i r. assigned_robot_id t = Some i \<and> dict_get (sim_robots s') i = Some r \<and> assigned_task_id r = Some tid"
      using fwd by force
  qed
  then show ?thesis using sim by (simp add: world_ok_def)
qed

text \<open>Every registered robot takes part in the step or has failed.\<close>

definition crewed :: "rec_state \<Rightarrow> bool" where
  "crewed st \<longleftrightarrow> set (dict_keys (sim_robots (rs_sim st))) \<subseteq> set (dict_keys (active_paths st)) \<union> set (rs_offline st)"

lemma movers_of_mem:
  "rid \<in> set (movers_of st) \<longleftrightarrow> rid \<in> set (dict_keys (active_paths st)) \<and> rid \<notin> set (rs_offline st) \<and> rid \<notin> set (safe_stopped st)"
  by (auto simp: movers_of_def live_robots_def)

lemma movers_of_distinct: "dict_ok (active_paths st) \<Longrightarrow> distinct (movers_of st)"
  by (simp add: movers_of_def live_robots_def dict_ok_def)

lemma intents_at_keys: "intents_at paths order t = Inr intents \<Longrightarrow> dict_keys intents = order"
  unfolding intents_at_def
  by (induction order arbitrary: intents) (auto simp: res_bind_Inr split: option.splits)

lemma commit_recovery_ok:
  assumes w: "world_ok (rs_sim st)" and p: "dict_ok (active_paths st)"
    and i: "intents_at (active_paths st) (movers_of st) t = Inr intents"
    and v: "validate_recovery_step st intents = Inr (None, vc, ec)"
  obtains st' where "commit_recovery t intents st = (Inr (), st')" "stepped intents (rs_sim st) (rs_sim st')"
    "active_paths st' = active_paths st" "rs_offline st' = rs_offline st" "safe_stopped st' = safe_stopped st"
    "crewed st \<Longrightarrow> safe_stopped st = [] \<Longrightarrow> world_ok (rs_sim st')"
proof -
  note V = validated_recovery_step [OF v]
  have keys: "dict_keys intents = movers_of st" by (rule intents_at_keys [OF i])
  have dist: "distinct (dict_keys intents)" using movers_of_distinct [OF p] keys by simp
  let ?xs = "\<lparr>xs_sim = rs_sim st, xs_waits = wait_counts st, xs_moves = move_counts st, xs_trace = executed_trace st\<rparr>"
  have known: "\<forall>rid \<in> set (dict_keys intents). dict_get (active_paths st) rid \<noteq> None"
    unfolding keys dict_get_None_iff using movers_of_mem by blast
  obtain xs where c: "commit_all (active_paths st) t intents ?xs = (Inr (), xs)" "stepped intents (rs_sim st) (xs_sim xs)"
    using commit_all_ok [of intents ?xs "active_paths st" t] V(1) dist known by auto
  let ?st = "st\<lparr>rs_sim := xs_sim xs, wait_counts := xs_waits xs, move_counts := xs_moves xs, executed_trace := xs_trace xs\<rparr>"
  have "world_ok (xs_sim xs)" if crew: "crewed st" "safe_stopped st = []"
  proof (rule stepped_world_ok [OF w c(2) V(1,2) dist])
    fix j r rid frm assume j: "dict_get (sim_robots (rs_sim st)) j = Some r" "j \<notin> set (dict_keys intents)"
    have "j \<in> set (dict_keys (sim_robots (rs_sim st)))" using j(1) dict_get_None_iff [of "sim_robots (rs_sim st)" j] by auto
    then have "j \<in> set (rs_offline st)" using crew j(2) unfolding crewed_def keys movers_of_mem by auto
    then have "robot_position r \<in> snd ` set (failed_cells st)" using j(1) failed_cells_mem by blast
    then show "(rid, frm, Some (robot_position r)) \<notin> set intents" using V(3) by blast
  qed
  then show thesis using that [of ?st] c by (simp add: commit_recovery_def)
qed

section \<open>What an event can change in the state of a run\<close>

text \<open>No robot appears, no path is dropped, nobody comes back to life or is released from a stop.\<close>

definition evolved :: "rec_state \<Rightarrow> rec_state \<Rightarrow> bool" where
  "evolved st st' \<longleftrightarrow> set (dict_keys (sim_robots (rs_sim st'))) \<subseteq> set (dict_keys (sim_robots (rs_sim st))) \<and>
     set (dict_keys (active_paths st)) \<subseteq> set (dict_keys (active_paths st')) \<and>
     (dict_ok (active_paths st) \<longrightarrow> dict_ok (active_paths st')) \<and>
     set (rs_offline st) \<subseteq> set (rs_offline st') \<and> set (safe_stopped st) \<subseteq> set (safe_stopped st')"

lemma evolved_refl [simp]: "evolved st st"
  by (simp add: evolved_def)

lemma evolved_trans: "evolved a b \<Longrightarrow> evolved b c \<Longrightarrow> evolved a c"
  unfolding evolved_def by blast

lemma set_add_mem [simp]: "set (set_add x xs) = insert x (set xs)"
  by (auto simp: set_add_def)

lemma known_key: "dict_get d k = Some v \<Longrightarrow> k \<in> set (dict_keys d)"
  using dict_get_None_iff [of d k] by auto

lemma known_key_image: "dict_get d k = Some v \<Longrightarrow> k \<in> fst ` set d"
  using known_key [of d k v] by simp

lemma dict_set_image: "fst ` set (dict_set k v d) = insert k (fst ` set d)"
  using dict_keys_set [of k v d] by simp

lemma apply_loop_keys:
  "set (dict_keys (sim_robots (snd (apply_loop as applied s)))) \<subseteq> set (dict_keys (sim_robots s))"
proof (induction as arbitrary: applied s)
  case (Cons a as)
  show ?case
  proof (cases "assign_task_manually (as_task_id a) (as_robot_id a) s")
    case (Inr s1)
    then have "set (dict_keys (sim_robots s1)) \<subseteq> set (dict_keys (sim_robots s))"
      by (rule assign_task_manually_Inr) (auto simp: dict_set_image dest: known_key_image)
    moreover have "set (dict_keys (sim_robots (snd (apply_loop as (applied @ [(as_robot_id a, as_task_id a)]) s1)))) \<subseteq> set (dict_keys (sim_robots s1))"
      by (rule Cons.IH)
    ultimately have "set (dict_keys (sim_robots (snd (apply_loop as (applied @ [(as_robot_id a, as_task_id a)]) s1)))) \<subseteq> set (dict_keys (sim_robots s))" by (rule subset_trans [rotated])
    then show ?thesis using Inr by simp
  qed simp
qed simp

lemma commit_allocation_keys:
  "set (dict_keys (sim_robots (snd (commit_allocation res s)))) \<subseteq> set (dict_keys (sim_robots s))"
  by (simp add: commit_allocation_def apply_loop_keys [unfolded set_map] split: option.split)

lemma replan_one_evolved: "evolved st (snd (replan_one now rid acc st))"
  by (auto simp: replan_one_def evolved_def Let_def dict_set_image split: prod.splits sum.splits)

lemma replan_affected_evolved: "evolved st (snd (replan_affected affected now result st))"
proof -
  have f: "evolved st (snd (do_fold (replan_one now) rids acc s))" if "evolved st s" for rids acc s
    using that by (rule do_fold_snd [where P = "evolved st"]) (rule evolved_trans [OF _ replan_one_evolved])
  then show ?thesis
    unfolding replan_affected_def Let_def
    by (auto intro!: do_then_snd [where P = "evolved st"] split: sum.split prod.split)
qed

lemma stop_one_evolved: "evolved st (snd (stop_one now rid result st))"
  by (auto simp: stop_one_def evolved_def Let_def dict_set_image split: prod.splits sum.splits)

lemma recover_obstacle_evolved: "evolved st (snd (recover_obstacle enabled t cell i now st))"
proof (cases "sim_add_dynamic_obstacle (resolved_obstacle_id t cell i) cell ''disruption'' (rs_sim st)")
  case (Inl e)
  then show ?thesis by (simp add: recover_obstacle_def)
next
  case (Inr x)
  obtain ob sim1 where x: "x = (ob, sim1)" by (cases x)
  have "sim_robots sim1 = sim_robots (rs_sim st)" using Inr x
    by (auto simp: sim_add_dynamic_obstacle_def res_bind_Inr split: if_splits)
  then have P: "evolved st (st\<lparr>rs_sim := sim1\<rparr>)" by (simp add: evolved_def)
  have stops: "evolved st (snd (do_fold (stop_one now) rids r s))" if "evolved st s" for rids r s
    using that by (rule do_fold_snd [where P = "evolved st"]) (rule evolved_trans [OF _ stop_one_evolved])
  have a: "evolved st (snd (do_then (do_fold (stop_one now) rids r) (\<lambda>r2 st2. (Inr (g r2), st2)) (st\<lparr>rs_sim := sim1\<rparr>)))" for rids r g
    by (rule do_then_snd [where P = "evolved st"]) (use stops P in simp_all)
  have b: "evolved st (snd (do_then (replan_affected rids now r) (\<lambda>r2 st2. (score_recovery now st2 r2, st2)) (st\<lparr>rs_sim := sim1\<rparr>)))" for rids r
    by (rule do_then_snd [where P = "evolved st"]) (use evolved_trans [OF P replan_affected_evolved] in simp_all)
  show ?thesis
    unfolding recover_obstacle_def Inr x Let_def sum.case prod.case
    using P b a [of _ _ "\<lambda>r2. r2\<lparr>ev_safe_stop := True, ev_failure_reason := Some Disabled_Stopped\<rparr>"]
    by (simp split: sum.split)
qed

lemma route_replacement_evolved: "evolved st (snd (route_replacement new_rid tid now result st))"
  by (auto simp: route_replacement_def evolved_def Let_def res_bind_Inr dict_set_image dest: known_key_image
      split: prod.splits sum.splits)

lemma offer_task_evolved: "evolved st (snd (offer_task failed_id tid now result st))"
proof -
  have c: "evolved st (st\<lparr>rs_sim := sim1\<rparr>)" if "commit_allocation alloc (rs_sim st) = (rep, sim1)" for alloc rep sim1
    using commit_allocation_keys [of alloc "rs_sim st"] that by (simp add: evolved_def)
  show ?thesis
    using c evolved_trans [OF c route_replacement_evolved]
    by (simp add: offer_task_def Let_def split: sum.split prod.split)
qed

lemma recover_task_evolved:
  assumes "dict_get (sim_robots (rs_sim st)) failed_id \<noteq> None"
  shows "evolved st (snd (recover_task failed_id r now result st))"
proof -
  have k: "failed_id \<in> set (dict_keys (sim_robots (rs_sim st)))" using assms unfolding dict_get_None_iff by simp
  have e: "evolved st (st\<lparr>rs_sim := put_robot failed_id r' (put_task tid t' (rs_sim st))\<rparr>)"
      "evolved st (st\<lparr>rs_sim := put_robot failed_id r' (rs_sim st)\<rparr>)" for r' tid t'
    using k by (simp_all add: evolved_def dict_set_image)
  have "evolved st (snd (do_then (offer_task failed_id tid now r1) (\<lambda>r2 st2. (Inr (v, r2), st2))
      (st\<lparr>rs_sim := put_robot failed_id r' (put_task tid t' (rs_sim st))\<rparr>)))" for v :: "string option" and tid r1 r' t'
    by (rule do_then_snd [where P = "evolved st"]) (use evolved_trans [OF e(1) offer_task_evolved] in simp_all)
  note offered = this
  show ?thesis
  proof (cases "assigned_task_id r \<in> {None, Some []}")
    case True
    then show ?thesis using e(2) by (simp add: recover_task_def)
  next
    case False
    then obtain tid where tid: "assigned_task_id r = Some tid" "tid \<noteq> []" by auto
    show ?thesis
    proof (cases "get_task (rs_sim st) tid")
      case (Inl x)
      then show ?thesis using tid by (simp add: recover_task_def)
    next
      case (Inr t)
      then show ?thesis using tid e offered
        by (cases "unassign t"; cases "fail_task (Fail_Offline failed_id) t") (simp_all add: recover_task_def Let_def)
    qed
  qed
qed

lemma recover_others_evolved: "evolved st (snd (recover_others failed_id cell now task result st))"
proof (cases "failure_others failed_id cell now st")
  case (Inl e)
  then show ?thesis by (simp add: recover_others_def)
next
  case (Inr others)
  show ?thesis unfolding recover_others_def Inr sum.case
    by (rule do_then_snd [where P = "evolved st"]) (simp_all add: Let_def replan_affected_evolved)
qed

lemma recover_rest_evolved:
  assumes "dict_get (sim_robots (rs_sim st)) failed_id \<noteq> None"
  shows "evolved st (snd (recover_rest failed_id r cell now result st))"
  unfolding recover_rest_def
proof (rule do_then_snd [where P = "evolved st"], rule recover_task_evolved [OF assms])
  fix a s1 assume "evolved st s1"
  then show "evolved st (snd ((\<lambda>(affected_task, result1). recover_others failed_id cell now affected_task result1) a s1))"
    by (simp split: prod.split) (blast intro: evolved_trans recover_others_evolved)
qed

lemma recover_failure_evolved: "evolved st (snd (recover_failure enabled t rid now st))"
proof (cases "get_robot (rs_sim st) rid")
  case (Inl e)
  then show ?thesis by (simp add: recover_failure_def)
next
  case (Inr r)
  then have k: "rid \<in> set (dict_keys (sim_robots (rs_sim st)))" by (auto dest: known_key_image)
  let ?st = "\<lambda>h. st\<lparr>rs_sim := put_robot rid (set_status R_OFFLINE r) (rs_sim st), rs_offline := set_add rid (rs_offline st),
      active_paths := (if dict_get (active_paths st) rid \<noteq> None
        then dict_set rid (tp_found rid h) (active_paths st) else active_paths st)\<rparr>"
  have e: "evolved st (?st h)" for h using k by (auto simp: evolved_def dict_set_image)
  have "evolved st (snd (recover_rest rid r' cell now result (?st h)))" for r' cell result h
    by (rule evolved_trans [OF e recover_rest_evolved]) simp
  then show ?thesis using e Inr by (simp add: recover_failure_def Let_def split: sum.split)
qed

lemma handle_event_evolved: "evolved st (snd (handle_event enabled now event st))"
  by (cases event) (simp_all add: handle_event_def recover_obstacle_evolved recover_failure_evolved)

lemma evolved_crewed: "evolved st st' \<Longrightarrow> crewed st \<Longrightarrow> crewed st'"
  unfolding evolved_def crewed_def by blast

section \<open>The run\<close>

definition resilient_ok :: "rec_state \<Rightarrow> bool" where
  [inv_defs]: "resilient_ok st \<longleftrightarrow> (safe_stopped st = [] \<longrightarrow> crewed st \<and> dict_ok (active_paths st) \<and> world_ok (rs_sim st))"

lemma handle_event_resilient_ok:
  assumes "resilient_ok st"
  shows "resilient_ok (snd (handle_event enabled now event st))"
proof -
  note e = handle_event_evolved [of st enabled now event]
  have "safe_stopped st = []" if "safe_stopped (snd (handle_event enabled now event st)) = []"
    using that e unfolding evolved_def by auto
  then show ?thesis
    using assms e evolved_crewed [OF e] handle_event_world unfolding resilient_ok_def by (simp add: evolved_def)
qed

lemma handle_events_resilient_ok: "resilient_ok st \<Longrightarrow> resilient_ok (snd (handle_events enabled now events past st))"
  unfolding handle_events_def
proof (rule do_fold_snd [where P = resilient_ok])
  fix event past s assume "resilient_ok s"
  then show "resilient_ok (snd (do_then (handle_event enabled now event) (\<lambda>result st. (Inr (past @ [result]), st)) s))"
    by (intro do_then_snd [where P = resilient_ok]) (simp_all add: handle_event_resilient_ok)
qed

lemma commit_recovery_resilient_ok:
  assumes r: "resilient_ok st" and i: "intents_at (active_paths st) (movers_of st) t = Inr intents"
    and v: "validate_recovery_step st intents = Inr (None, vc, ec)"
  shows "resilient_ok (snd (commit_recovery t intents st))"
proof (cases "safe_stopped st = []")
  case False
  then show ?thesis by (simp add: resilient_ok_def commit_recovery_def split: prod.split)
next
  case True
  have w: "world_ok (rs_sim st)" "dict_ok (active_paths st)" "crewed st" using r True by (simp_all add: resilient_ok_def)
  show ?thesis
  proof (rule commit_recovery_ok [OF w(1,2) i v])
    fix st' assume c: "commit_recovery t intents st = (Inr (), st')" "stepped intents (rs_sim st) (rs_sim st')"
      "active_paths st' = active_paths st" "rs_offline st' = rs_offline st" "safe_stopped st' = safe_stopped st"
      "crewed st \<Longrightarrow> safe_stopped st = [] \<Longrightarrow> world_ok (rs_sim st')"
    have "dict_keys (sim_robots (rs_sim st')) = dict_keys (sim_robots (rs_sim st))" using c(2) by (simp add: stepped_def)
    then show ?thesis unfolding resilient_ok_def crewed_def c(1) snd_conv c(3,4) using c(5,6) w True
      by (simp add: crewed_def)
  qed
qed

lemma resilient_loop_resilient_ok:
  "resilient_ok st \<Longrightarrow> resilient_ok (snd (resilient_loop enabled events ts past vc ec st))"
proof (induction ts arbitrary: past vc ec st)
  case (Cons t ts)
  show ?case unfolding resilient_loop.simps
  proof (rule do_then_snd [where P = resilient_ok])
    show "resilient_ok (snd (handle_events enabled (t - 1) (events_at events (t - 1)) past st))"
      by (rule handle_events_resilient_ok) (rule Cons.prems)
  next
    fix past1 st1 assume r: "resilient_ok st1"
    have "resilient_ok (snd (do_then (commit_recovery t intents) (\<lambda>_. resilient_loop enabled events ts past1 (vc + v) (ec + e)) st1))"
      if "intents_at (active_paths st1) (movers_of st1) t = Inr intents" "validate_recovery_step st1 intents = Inr (None, v, e)"
      for intents v e
      by (rule do_then_snd [where P = resilient_ok]) (use commit_recovery_resilient_ok [OF r that] Cons.IH in simp_all)
    then show "resilient_ok (snd (case all_done st1 of Inl e \<Rightarrow> (Inl e, st1) | Inr True \<Rightarrow> (Inr (past1, vc, ec, None), st1)
        | Inr False \<Rightarrow>
            (case res_bind (intents_at (active_paths st1) (movers_of st1) t) (\<lambda>intents.
                 res_bind (validate_recovery_step st1 intents) (\<lambda>v. Inr (intents, v))) of
               Inl e \<Rightarrow> (Inl e, st1)
             | Inr (intents, Some reason, v, e) \<Rightarrow>
                 (Inr (past1, vc + v, ec + e, Some (Safe_Stop_Before t reason)), st1)
             | Inr (intents, None, v, e) \<Rightarrow>
                 do_then (commit_recovery t intents) (\<lambda>_. resilient_loop enabled events ts past1 (vc + v) (ec + e)) st1)))"
      using r by (simp add: res_bind_Inr split: sum.split bool.split prod.split option.split)
  qed
qed simp

lemma rec_state_init_ok:
  assumes "rec_state_init horizon paths s = Inr st" "world_ok s" "dict_ok paths"
    "set (dict_keys (sim_robots s)) \<subseteq> set (dict_keys paths)"
  shows "resilient_ok st" "active_paths st = paths" "rs_sim st = s" "rs_offline st = []" "safe_stopped st = []"
proof -
  show e: "active_paths st = paths" "rs_sim st = s" "rs_offline st = []" "safe_stopped st = []"
    using assms(1) by (auto simp: rec_state_init_def res_bind_Inr)
  show "resilient_ok st" using assms(2-4) by (simp add: resilient_ok_def crewed_def e)
qed

text \<open>A run in which nobody was stopped leaves a consistent world.\<close>

lemma run_resilient_world:
  assumes w: "world_ok s" and p: "dict_ok (successful_paths coordination)"
    and all: "set (dict_keys (sim_robots s)) \<subseteq> set (dict_keys (successful_paths coordination))"
    and run: "run_resilient coordination disruptions extra enabled s = (Inr res, s')" and ok: "\<not> rx_safe_stop res"
  shows "world_ok s'"
proof -
  let ?limit = "last_timestep disruptions + 4 * (wh_width (sim_warehouse s) + wh_height (sim_warehouse s)) + extra"
  consider (unchanged) "s' = s"
    | (ran) st where "rec_state_init (cr_horizon coordination) (successful_paths coordination) s = Inr st"
      "case resilient_loop enabled disruptions [1..?limit] [] 0 0 st of
         (Inl e, st1) \<Rightarrow> False | (Inr (events, vc, ec, stop), st1) \<Rightarrow> finalise events vc ec stop st1 = Inr res \<and> s' = rs_sim st1"
    using run unfolding run_resilient_def Let_def
    by (auto split: if_splits sum.splits option.splits prod.splits)
  then show ?thesis
  proof cases
    case unchanged
    then show ?thesis using w by simp
  next
    case ran
    note init = rec_state_init_ok [OF ran(1) w p all]
    obtain events vc ec stop st1 where l: "resilient_loop enabled disruptions [1..?limit] [] 0 0 st = (Inr (events, vc, ec, stop), st1)"
      "finalise events vc ec stop st1 = Inr res" "s' = rs_sim st1"
      using ran(2) by (auto split: prod.splits sum.splits)
    have "resilient_ok st1" using resilient_loop_resilient_ok [OF init(1), of enabled disruptions "[1..?limit]" "[]" 0 0] l(1) by simp
    moreover have "safe_stopped st1 = []" using l(2) ok by (auto simp: finalise_def Let_def res_bind_Inr)
    ultimately show ?thesis using l(3) by (simp add: resilient_ok_def)
  qed
qed

section \<open>The end of a failure's recovery\<close>

lemma do_then_Inr:
  "do_then m f s = (Inr b, s') \<longleftrightarrow> (\<exists>a s1. m s = (Inr a, s1) \<and> f a s1 = (Inr b, s'))"
  by (auto simp: do_then_def split: prod.splits sum.splits)

lemma recover_others_Inr_sim:
  "recover_others failed_id cell now task result st = (x, st') \<Longrightarrow> rs_sim st' = rs_sim st"
proof (cases "failure_others failed_id cell now st")
  case (Inl e)
  then show "recover_others failed_id cell now task result st = (x, st') \<Longrightarrow> rs_sim st' = rs_sim st"
    by (simp add: recover_others_def)
next
  case (Inr others)
  have "rs_sim (snd (recover_others failed_id cell now task result st)) = rs_sim st"
    unfolding recover_others_def Inr sum.case
    by (rule do_then_snd [where P = "\<lambda>s. rs_sim s = rs_sim st"]) (simp_all add: Let_def)
  then show "recover_others failed_id cell now task result st = (x, st') \<Longrightarrow> rs_sim st' = rs_sim st" by simp
qed

lemma set_status_core: "robot_core_ok (set_status x r) = robot_core_ok r"
  by (simp add: set_status_def robot_core_ok_def)

lemma is_down_cong:
  "robot_position r = robot_position q \<Longrightarrow> battery_level r = battery_level q \<Longrightarrow> is_down rid r s = is_down rid q s"
  by (simp add: is_down_def)

lemma recover_failure_fate:
  assumes w: "world_ok (rs_sim st)" and r: "dict_get (sim_robots (rs_sim st)) rid = Some r"
    and run: "recover_failure True t rid now st = (Inr ev, st')"
  shows "is_down rid r (rs_sim st') \<and> rid \<in> set (rs_offline st') \<and>
    (\<forall>tid u. assigned_task_id r = Some tid \<longrightarrow> dict_get (sim_tasks (rs_sim st)) tid = Some u \<longrightarrow> task_fate u tid (rs_sim st'))"
proof -
  let ?r = "set_status R_OFFLINE r"
  have core: "robot_core_ok r" using w r sim_ok_robotD unfolding world_ok_def by blast
  have w1: "world_ok (put_robot rid ?r (rs_sim st))"
    by (rule world_ok_put_robot [OF w r]) (simp_all add: core set_status_core)
  obtain cell result st1 where st1: "rs_sim st1 = put_robot rid ?r (rs_sim st)" "rid \<in> set (rs_offline st1)"
    and rest: "recover_rest rid ?r cell now result st1 = (Inr ev, st')"
  proof -
    let ?h = "\<lambda>c. case dict_get (executed_trace st) rid of None \<Rightarrow> [TimedStep c now] | Some trace \<Rightarrow> trace"
    obtain c where "last_cell (?h (robot_position r)) = Inr c"
      using run r by (cases "last_cell (?h (robot_position r))") (simp_all add: recover_failure_def get_robot_def)
    then have "recover_rest rid ?r c now (event_result_init Trigger_Robot_Offline now (Failure_Event t rid))
        (st\<lparr>rs_sim := put_robot rid ?r (rs_sim st), rs_offline := set_add rid (rs_offline st),
          active_paths := (if dict_get (active_paths st) rid \<noteq> None
            then dict_set rid (tp_found rid (?h c)) (active_paths st) else active_paths st)\<rparr>) = (Inr ev, st')"
      using run r by (simp add: recover_failure_def Let_def get_robot_def)
    then show thesis by (rule that [rotated 2]) simp_all
  qed
  obtain task result1 st2 where task: "recover_task rid ?r now
        (result\<lparr>ev_reservations_released := ev_reservations_released result +
            remaining_reservation_count (dict_get (active_paths st1) rid) now (rs_horizon st1)\<rparr>) st1 = (Inr (task, result1), st2)"
    and others: "recover_others rid cell now task result1 st2 = (Inr ev, st')"
    using rest by (auto simp: recover_rest_def do_then_Inr)
  have sim: "rs_sim st' = rs_sim st2" by (rule recover_others_Inr_sim [OF others])
  have r1: "dict_get (sim_robots (rs_sim st1)) rid = Some ?r" using st1(1) by simp
  note fate = recover_task_fate [OF w1 [folded st1(1)] r1 set_status_sel(4) task]
  have "set (rs_offline st1) \<subseteq> set (rs_offline st')"
    using recover_rest_evolved [of st1 rid ?r cell now result] r1 rest by (simp add: evolved_def)
  moreover have "is_down rid r (rs_sim st')"
    using fate(1) is_down_cong [of r ?r] unfolding sim by (simp add: set_status_def)
  moreover have "task_fate u tid (rs_sim st')"
    if "assigned_task_id r = Some tid" "dict_get (sim_tasks (rs_sim st)) tid = Some u" for tid u
    using fate(2) [of tid u] that st1(1) unfolding sim by simp
  ultimately show ?thesis using st1(2) by blast
qed

section \<open>The repair of one route\<close>

lemma splice_route_continues:
  assumes "history \<noteq> []" "tp_steps future \<noteq> []" "hd (tp_steps future) = last history"
  shows "splice_route history future = tp_found (tp_robot_id future) (history @ tl (tp_steps future))"
  using assms by (simp add: splice_route_def Let_def)

lemma replan_returns:
  "(\<exists>xs rt'. replan w rid current goal now rt horizon =
        Inr (tp_found rid (map (\<lambda>(c, t). TimedStep c t) xs), rt') \<and> same_claims rt rt' \<and>
        timed_route w rt rid horizon current now goal xs \<and>
        (\<forall>ys. timed_route w rt rid horizon current now goal ys \<longrightarrow> length xs \<le> length ys)) \<or>
   (\<exists>reason rt'. replan w rid current goal now rt horizon = Inr (tp_failed rid reason, rt') \<and>
        same_claims rt rt' \<and> (\<forall>ys. \<not> timed_route w rt rid horizon current now goal ys))"
  unfolding replan_def by (rule manhattan_st.st_plan_ok)

lemma timed_route_start: "timed_route w rt rid horizon current now goal xs \<Longrightarrow> xs \<noteq> [] \<and> hd xs = (current, now)"
  by (simp add: timed_route_def)

text \<open>The route after a replan: what was driven, followed by a shortest continuation, if there is one.\<close>

lemma replan_one_route:
  assumes tp: "dict_get (active_paths st) rid = Some tp" and trace: "dict_get (executed_trace st) rid = Some trace" "trace \<noteq> []"
    and now: "last trace = TimedStep current now" and goal: "dict_get (goals_of st) rid = Some (Some goal)"
    and run: "replan_one now rid (future, ok, result) st = (Inr (future', ok', result'), st')"
  shows "(\<exists>xs. timed_route (sim_warehouse (rs_sim st)) future rid (rs_horizon st) current now goal xs \<and>
       (\<forall>ys. timed_route (sim_warehouse (rs_sim st)) future rid (rs_horizon st) current now goal ys \<longrightarrow> length xs \<le> length ys) \<and>
       st' = set_active rid (tp_found rid (trace @ tl (map (\<lambda>(c, t). TimedStep c t) xs))) st \<and> ok' = ok) \<or>
    (\<nexists>xs. timed_route (sim_warehouse (rs_sim st)) future rid (rs_horizon st) current now goal xs) \<and>
       st' = set_active rid (tp_found rid trace) (st\<lparr>safe_stopped := set_add rid (safe_stopped st)\<rparr>) \<and> \<not> ok'"
proof -
  note [simp] = active_path_def trace_of_def last_cell_def tp now goal trace
  from replan_returns [of "sim_warehouse (rs_sim st)" rid current goal now future "rs_horizon st"]
  show ?thesis
  proof (elim disjE exE conjE)
    fix xs rt'
    assume a: "replan (sim_warehouse (rs_sim st)) rid current goal now future (rs_horizon st) =
        Inr (tp_found rid (map (\<lambda>(c, t). TimedStep c t) xs), rt')"
      and b: "timed_route (sim_warehouse (rs_sim st)) future rid (rs_horizon st) current now goal xs"
        "\<forall>ys. timed_route (sim_warehouse (rs_sim st)) future rid (rs_horizon st) current now goal ys \<longrightarrow> length xs \<le> length ys"
    let ?sx = "tp_found rid (map (\<lambda>(c, t). TimedStep c t) xs)"
    have "splice_route trace ?sx = tp_found rid (trace @ tl (map (\<lambda>(c, t). TimedStep c t) xs))"
      using timed_route_start [OF b(1)] trace(2) now by (subst splice_route_continues) (auto simp: hd_map tp_found_def)
    moreover have "tp_success ?sx" by (simp add: tp_found_def)
    ultimately have "st' = set_active rid (tp_found rid (trace @ tl (map (\<lambda>(c, t). TimedStep c t) xs))) st \<and> ok' = ok"
      using run trace(2) by (simp add: replan_one_def a Let_def split: sum.splits)
    then show ?thesis using b by blast
  next
    fix reason rt'
    assume a: "replan (sim_warehouse (rs_sim st)) rid current goal now future (rs_horizon st) = Inr (tp_failed rid reason, rt')"
      and none: "\<forall>ys. \<not> timed_route (sim_warehouse (rs_sim st)) future rid (rs_horizon st) current now goal ys"
    have "splice_route trace (tp_found rid [TimedStep current now]) = tp_found rid trace"
      using trace(2) now by (subst splice_route_continues) (auto simp: tp_found_def)
    moreover have "\<not> tp_success (tp_failed rid reason)" by (simp add: tp_failed_def)
    ultimately have "st' = set_active rid (tp_found rid trace) (st\<lparr>safe_stopped := set_add rid (safe_stopped st)\<rparr>) \<and> \<not> ok'"
      using run trace(2) by (simp add: replan_one_def a Let_def split: sum.splits)
    then show ?thesis using none by blast
  qed
qed

end
