(* ===== verification/Recovery_Properties.thy ===== *)
theory Recovery_Properties
  imports Recovery_Safety
begin

text \<open>
  What resilient execution promises, and where it does not keep its promise: the consistency of
  the world under disruptions, the fate of a failed robot and its task, the safety of a
  timestep and of a run, the continuation of a route, and a stopped robot that is run over.
\<close>

section \<open>Fixtures\<close>

text \<open>Two robots one behind the other in a corridor, both bound for its far end.\<close>

definition corridor :: warehouse where
  "corridor = \<lparr>warehouse_name = ''corridor'', warehouse_grid = \<lparr>grid_width = 4, grid_height = 1, grid_blocked = {}\<rparr>,
     locations = [], static_registry = [], dynamic_registry = []\<rparr>"

definition convoy :: simulator where
  "convoy = put_robot ''B'' (robot_default ''B'' (Position 0 0)) (put_robot ''A'' (robot_default ''A'' (Position 0 1)) (sim_init corridor))"

text \<open>A plan as the coordinator returns it for these paths.\<close>

definition plan_of :: "(string, timed_path) dict \<Rightarrow> coordination_result" where
  "plan_of paths = \<lparr>cr_success = True, cr_timed_paths = paths, cr_robot_order = dict_keys paths,
     cr_planned_robot_count = length paths, cr_failed_robot_ids = [],
     cr_total_move_steps = sum_list (map (tp_move_count \<circ> snd) paths), cr_total_wait_steps = 0,
     cr_makespan = 2, cr_total_space_time_cost = 0, cr_conflict_checks = 0, cr_horizon = 18, cr_failure_reason = None\<rparr>"

definition convoy_paths :: "(string, timed_path) dict" where
  "convoy_paths =
     [(''A'', tp_found ''A'' [TimedStep (Position 0 1) 0, TimedStep (Position 0 2) 1, TimedStep (Position 0 3) 2]),
      (''B'', tp_found ''B'' [TimedStep (Position 0 0) 0, TimedStep (Position 0 1) 1, TimedStep (Position 0 2) 2])]"

text \<open>One robot on its way to a task, and a spare one.\<close>

definition shift_sim :: simulator where
  "shift_sim = (case assign_task_manually ''T1'' ''R1'' cycle_sim of Inr s \<Rightarrow> s | Inl e \<Rightarrow> cycle_sim)"

definition shift_paths :: "(string, timed_path) dict" where
  "shift_paths =
     [(''R1'', tp_found ''R1'' [TimedStep (Position 0 0) 0, TimedStep (Position 1 0) 1, TimedStep (Position 1 1) 2]),
      (''R2'', tp_found ''R2'' [TimedStep (Position 1 2) 0])]"

definition shift_state :: rec_state where
  "shift_state = (case rec_state_init 18 shift_paths shift_sim of Inr st \<Rightarrow> st | Inl e \<Rightarrow> undefined)"

lemma shift_sim_ok: "sim_ok shift_sim" "links_ok shift_sim"
proof -
  have "assign_task_manually ''T1'' ''R1'' cycle_sim = Inr shift_sim" by code_simp
  then have "sim_reachable rack_floor shift_sim"
    by (rule reach_step [OF cycle_sim_reachable(1) step_assign_task])
  then show "sim_ok shift_sim" "links_ok shift_sim" using sim_reachable_ok [OF _ cycle_sim_reachable(2)] by simp_all
qed

lemma shift_state_init: "rec_state_init 18 shift_paths shift_sim = Inr shift_state"
  by code_simp

lemma shift_state_ok: "resilient_ok shift_state" "active_paths shift_state = shift_paths" "rs_sim shift_state = shift_sim"
  "rs_offline shift_state = []" "safe_stopped shift_state = []"
proof -
  have "world_ok shift_sim" using shift_sim_ok by (simp add: world_ok_def)
  moreover have "dict_ok shift_paths" "set (dict_keys (sim_robots shift_sim)) \<subseteq> set (dict_keys shift_paths)" by code_simp+
  ultimately show "resilient_ok shift_state" "active_paths shift_state = shift_paths" "rs_sim shift_state = shift_sim"
    "rs_offline shift_state = []" "safe_stopped shift_state = []"
    using rec_state_init_ok [OF shift_state_init] by blast+
qed

section \<open>Properties\<close>

text \<open>
  C18: Handling a disruption, with recovery enabled or not, keeps robots and tasks consistent,
  whatever the state of the run and even when the handling raises.
\<close>

theorem recovery_keeps_world_consistent:
  assumes "sim_ok (rs_sim st)" "links_ok (rs_sim st)"
  shows "sim_ok (rs_sim (snd (handle_event enabled now event st))) \<and>
    links_ok (rs_sim (snd (handle_event enabled now event st)))"
  using handle_event_world [of st enabled now event] assms by (simp add: world_ok_def)

lemma recovery_keeps_world_consistent_witness:
  "sim_ok (rs_sim (snd (handle_event True 0 (Failure_Event 0 ''R1'') shift_state))) \<and>
   links_ok (rs_sim (snd (handle_event True 0 (Failure_Event 0 ''R1'') shift_state)))"
  by (rule recovery_keeps_world_consistent) (simp_all add: shift_state_ok shift_sim_ok)

text \<open>
  C16: When a known robot fails and recovery is enabled, it ends offline on the cell it failed on,
  with the battery it had and without a task; it is out of the run. A task of it that had been
  started is failed, one that had not is pending again or assigned anew.
\<close>

theorem failed_robot_recovered:
  assumes "sim_ok (rs_sim st)" "links_ok (rs_sim st)" "get_robot (rs_sim st) rid = Inr r"
    and "handle_event True now (Failure_Event t rid) st = (Inr ev, st')"
  shows "is_down rid r (rs_sim st') \<and> rid \<in> set (rs_offline st') \<and> rid \<notin> set (live_robots st') \<and>
    (\<forall>tid u. assigned_task_id r = Some tid \<longrightarrow> dict_get (sim_tasks (rs_sim st)) tid = Some u \<longrightarrow> task_fate u tid (rs_sim st'))"
proof -
  have "dict_get (sim_robots (rs_sim st)) rid = Some r" using assms(3) by simp
  then show ?thesis
    using recover_failure_fate [of st rid r t now ev st'] assms
    by (simp add: world_ok_def handle_event_def live_robots_def)
qed

lemma failed_robot_recovered_witness:
  "\<exists>ev st'. handle_event True 0 (Failure_Event 0 ''R1'') shift_state = (Inr ev, st') \<and>
     ev_reassigned_to ev = Some ''R2'' \<and> ''R1'' \<notin> set (live_robots st') \<and> open_again ''T1'' (rs_sim st')"
proof -
  let ?run = "handle_event True 0 (Failure_Event 0 ''R1'') shift_state"
  have "map_sum id ev_reassigned_to (fst ?run) = Inr (Some ''R2'')" by code_simp
  then obtain ev st' where run: "?run = (Inr ev, st')" and ev: "ev_reassigned_to ev = Some ''R2''"
    by (cases ?run; cases "fst ?run") auto
  have "map_sum id assigned_task_id (get_robot shift_sim ''R1'') = Inr (Some ''T1'')" by code_simp
  then obtain r where r: "get_robot (rs_sim shift_state) ''R1'' = Inr r" "assigned_task_id r = Some ''T1''"
    by (cases "get_robot shift_sim ''R1''") (auto simp: shift_state_ok)
  have "map_option task_status (dict_get (sim_tasks shift_sim) ''T1'') = Some T_ASSIGNED" by code_simp
  then obtain u where u: "dict_get (sim_tasks (rs_sim shift_state)) ''T1'' = Some u" "task_status u = T_ASSIGNED"
    by (auto simp: shift_state_ok)
  have w: "sim_ok (rs_sim shift_state)" "links_ok (rs_sim shift_state)" by (simp_all add: shift_state_ok shift_sim_ok)
  note f = failed_robot_recovered [OF w r(1) run]
  then have "task_fate u ''T1'' (rs_sim st')" using r(2) u(1) by blast
  then have "open_again ''T1'' (rs_sim st')" using u(2) by (simp add: task_fate_def open_again_def)
  then show ?thesis using run ev f by blast
qed

text \<open>
  If a timestep is validated, no live robot has been stopped, and every registered robot is
  in the run or has failed, then the commit does not raise, moves every robot to the cell the
  validation has seen and no other robot, and keeps robots and tasks consistent.
\<close>

theorem recovery_step_safe:
  assumes "sim_ok (rs_sim st)" "links_ok (rs_sim st)" "dict_ok (active_paths st)" "safe_stopped st = []"
    and "set (dict_keys (sim_robots (rs_sim st))) \<subseteq> set (dict_keys (active_paths st)) \<union> set (rs_offline st)"
    and "intents_at (active_paths st) (movers_of st) t = Inr intents"
    and "validate_recovery_step st intents = Inr (None, vc, ec)"
  shows "\<exists>st'. commit_recovery t intents st = (Inr (), st') \<and> sim_ok (rs_sim st') \<and> links_ok (rs_sim st') \<and>
    (\<forall>(rid, frm, to) \<in> set intents. \<exists>r. dict_get (sim_robots (rs_sim st')) rid = Some r \<and> to = Some (robot_position r)) \<and>
    (\<forall>rid. rid \<notin> set (movers_of st) \<longrightarrow> dict_get (sim_robots (rs_sim st')) rid = dict_get (sim_robots (rs_sim st)) rid)"
proof -
  have w: "world_ok (rs_sim st)" using assms(1,2) by (simp add: world_ok_def)
  show ?thesis
  proof (rule commit_recovery_ok [OF w assms(3,6,7)])
    fix st' assume c: "commit_recovery t intents st = (Inr (), st')" "stepped intents (rs_sim st) (rs_sim st')"
      "crewed st \<Longrightarrow> safe_stopped st = [] \<Longrightarrow> world_ok (rs_sim st')"
    have "world_ok (rs_sim st')" using c(3) assms(4,5) by (simp add: crewed_def)
    moreover have "dict_keys intents = movers_of st" by (rule intents_at_keys [OF assms(6)])
    moreover have "\<exists>r. dict_get (sim_robots (rs_sim st')) rid = Some r \<and> to = Some (robot_position r)"
      if "(rid, frm, to) \<in> set intents" for rid frm to
      using c(2) that by (force simp: stepped_def robot_stepped_def)
    ultimately show ?thesis using c(1,2) by (auto simp: world_ok_def stepped_def)
  qed
qed

lemma recovery_step_safe_witness:
  "\<exists>st'. commit_recovery 1 [(''R1'', Some (Position 0 0), Some (Position 1 0)), (''R2'', Some (Position 1 2), Some (Position 1 2))]
      shift_state = (Inr (), st') \<and> sim_ok (rs_sim st') \<and>
    map_option robot_position (dict_get (sim_robots (rs_sim st')) ''R1'') = Some (Position 1 0)"
proof -
  let ?i = "[(''R1'', Some (Position 0 0), Some (Position 1 0)), (''R2'', Some (Position 1 2), Some (Position 1 2))]"
  have i: "intents_at (active_paths shift_state) (movers_of shift_state) 1 = Inr ?i"
    "validate_recovery_step shift_state ?i = Inr (None, 0, 0)"
    "set (dict_keys (sim_robots (rs_sim shift_state))) \<subseteq> set (dict_keys (active_paths shift_state)) \<union> set (rs_offline shift_state)"
    "dict_ok (active_paths shift_state)" "safe_stopped shift_state = []" by code_simp+
  have w: "sim_ok (rs_sim shift_state)" "links_ok (rs_sim shift_state)" by (simp_all add: shift_state_ok shift_sim_ok)
  show ?thesis using recovery_step_safe [OF w i(4,5,3,1,2)] by force
qed

text \<open>
  C7: A resilient run of a plan for all registered robots, under any schedule of disruptions,
  that does not report a safe stop leaves a world in which robots and tasks are consistent: no
  two robots share a cell and nobody stands on a blocked one.
\<close>

theorem resilient_run_consistent:
  assumes "sim_ok s" "links_ok s" "dict_ok (successful_paths plan)"
    and "set (dict_keys (sim_robots s)) \<subseteq> set (dict_keys (successful_paths plan))"
    and "run_resilient plan disruptions extra enabled s = (Inr res, s')" "\<not> rx_safe_stop res"
  shows "sim_ok s' \<and> links_ok s'"
  using run_resilient_world [OF _ assms(3-6)] assms(1,2) by (simp add: world_ok_def)

lemma resilient_run_consistent_witness:
  "\<exists>res s'. run_resilient (plan_of shift_paths) [Failure_Event 0 ''R1''] 0 True shift_sim = (Inr res, s') \<and>
     rx_success res \<and> sim_ok s' \<and> links_ok s'"
proof -
  let ?run = "run_resilient (plan_of shift_paths) [Failure_Event 0 ''R1''] 0 True shift_sim"
  have "map_sum id (\<lambda>r. (rx_success r, rx_safe_stop r)) (fst ?run) = Inr (True, False)" by code_simp
  then obtain res s' where run: "?run = (Inr res, s')" "rx_success res" "\<not> rx_safe_stop res"
    by (cases ?run; cases "fst ?run") auto
  have p: "dict_ok (successful_paths (plan_of shift_paths))"
    "set (dict_keys (sim_robots shift_sim)) \<subseteq> set (dict_keys (successful_paths (plan_of shift_paths)))" by code_simp+
  show ?thesis using resilient_run_consistent [OF shift_sim_ok p run(1,3)] run by blast
qed

text \<open>
  With a robot that has been stopped this fails. The validation of a timestep compares the
  targets with the cells of the failed robots and with each other, but not with the cells of the
  robots that were stopped: in a corridor the leading robot is stopped by an obstacle on its
  goal, the follower, whose route the obstacle does not touch, drives onto it, and the event's own check counts no
  conflict. Only the check of the whole trace at the end reports it.
\<close>

theorem stopped_robot_is_run_over:
  "case run_resilient (plan_of convoy_paths) [Obstacle_Event 1 (Position 0 3) ''box''] 0 True convoy of
     (Inl e, s) \<Rightarrow> False
   | (Inr res, s) \<Rightarrow>
       map (\<lambda>i. map_option robot_position (dict_get (sim_robots s) i)) [''A'', ''B''] = [Some (Position 0 2), Some (Position 0 2)] \<and>
       rx_vertex_conflicts res = 0 \<and> rx_failure_reason res = None \<and>
       map ev_unresolved_vertex_conflicts (rx_recovery_events res) = [0] \<and>
       rx_validation_problems res =
         [Vertex_Conflict (Position 0 2) 2 ''A'' ''B'', Goal_Violation ''B'' ''A'' (Position 0 2) 2 1,
          Goal_Violation ''A'' ''B'' (Position 0 2) 2 2]"
  by code_simp

text \<open>
  C17: Replanning one robot keeps the steps it has driven. Its route continues from the cell and
  the timestep it is at with a shortest continuation to its goal that the floor, the horizon and
  the reservations of the others allow; if there is none, it is stopped where it is. Nothing else
  in the state of the run changes.
\<close>

theorem replan_continues_route:
  assumes "dict_get (active_paths st) rid = Some tp" "dict_get (executed_trace st) rid = Some trace" "trace \<noteq> []"
    and "last trace = TimedStep current now" "dict_get (goals_of st) rid = Some (Some goal)"
    and "replan_one now rid (future, ok, result) st = (Inr (future', ok', result'), st')"
  shows "(\<exists>xs. timed_route (sim_warehouse (rs_sim st)) future rid (rs_horizon st) current now goal xs \<and>
       (\<forall>ys. timed_route (sim_warehouse (rs_sim st)) future rid (rs_horizon st) current now goal ys \<longrightarrow> length xs \<le> length ys) \<and>
       st' = set_active rid (tp_found rid (trace @ tl (map (\<lambda>(c, t). TimedStep c t) xs))) st \<and> ok' = ok) \<or>
    (\<nexists>xs. timed_route (sim_warehouse (rs_sim st)) future rid (rs_horizon st) current now goal xs) \<and>
       st' = set_active rid (tp_found rid trace) (st\<lparr>safe_stopped := set_add rid (safe_stopped st)\<rparr>) \<and> \<not> ok'"
  using replan_one_route [OF assms] .

lemma replan_continues_route_witness:
  "\<exists>xs future' result' st'.
     replan_one 0 ''R1'' (reservation_init, True, event_result_init Trigger_Dynamic_Obstacle 0 (Failure_Event 0 [])) shift_state =
       (Inr (future', True, result'), st') \<and>
     timed_route rack_floor reservation_init ''R1'' 18 (Position 0 0) 0 (Position 1 1) xs \<and>
     map_option tp_steps (dict_get (active_paths st') ''R1'') =
       Some (TimedStep (Position 0 0) 0 # tl (map (\<lambda>(c, t). TimedStep c t) xs))"
proof -
  let ?run = "replan_one 0 ''R1'' (reservation_init, True, event_result_init Trigger_Dynamic_Obstacle 0 (Failure_Event 0 [])) shift_state"
  have "map_sum id (\<lambda>(future, ok, result). ok) (fst ?run) = Inr True" by code_simp
  then obtain future' result' st' where run: "?run = (Inr (future', True, result'), st')"
    by (cases ?run; cases "fst ?run") auto
  have st: "dict_get (executed_trace shift_state) ''R1'' = Some [TimedStep (Position 0 0) 0]"
    "dict_get (goals_of shift_state) ''R1'' = Some (Some (Position 1 1))" "rs_horizon shift_state = 18"
    "sim_warehouse (rs_sim shift_state) = rack_floor" by code_simp+
  obtain tp where tp: "dict_get (active_paths shift_state) ''R1'' = Some tp" by (simp add: shift_state_ok shift_paths_def)
  have tr: "[TimedStep (Position 0 0) 0] \<noteq> []" "last [TimedStep (Position 0 0) 0] = TimedStep (Position 0 0) 0" by simp_all
  from replan_continues_route [OF tp st(1) tr st(2) run] obtain xs where
    "timed_route rack_floor reservation_init ''R1'' 18 (Position 0 0) 0 (Position 1 1) xs"
    "st' = set_active ''R1'' (tp_found ''R1'' ([TimedStep (Position 0 0) 0] @ tl (map (\<lambda>(c, t). TimedStep c t) xs))) shift_state"
    unfolding st by auto
  then show ?thesis using run by (auto simp: tp_found_def)
qed

end
