(* ===== verification/Retry.thy ===== *)
theory Retry
  imports Py_Float Position begin

text \<open>
  Bounded retry with exponential backoff (\<open>common/retry.py\<close>). The retried function, the set of
  exceptions that count as transient and the random generator are parameters: the function takes
  the state of the world and returns its result or exception beside the new state, the generator
  its next number in \<open>[0, 1)\<close>. The waits handed to \<open>sleep\<close> are collected in a list.
\<close>

section \<open>The policy\<close>

record retry_policy =
  attempts :: int
  base_delay :: pyfloat
  max_delay :: pyfloat
  jitter :: pyfloat

definition retry_policy_init :: "int \<Rightarrow> pyfloat \<Rightarrow> pyfloat \<Rightarrow> pyfloat \<Rightarrow> py_error + retry_policy" where
  "retry_policy_init n base cap fraction =
     (if n < 1 then Inl ValueError
      else if base < 0 \<or> cap < 0 then Inl ValueError
      else if \<not> (0 \<le> fraction \<and> fraction < 1) then Inl ValueError
      else Inr \<lparr>attempts = n, base_delay = base, max_delay = cap, jitter = fraction\<rparr>)"

text \<open>
  What may leave \<open>retry_call\<close>: the two documented outcomes, the overflow of converting
  \<open>2 ** 1024\<close> to a float, and the failed assertion of a loop that never ran.
\<close>

datatype 'x retry_error = RetryError string int 'x | Reraised 'x | OverflowError | AssertionError

text \<open>Python's \<open>random.uniform\<close> for the number \<open>u\<close> that the generator returns.\<close>

definition uniform :: "pyfloat \<Rightarrow> pyfloat \<Rightarrow> pyfloat \<Rightarrow> pyfloat" where
  "uniform a b u = fl (a + fl (fl (b - a) * u))"

definition delay_for ::
  "retry_policy \<Rightarrow> ('r \<Rightarrow> pyfloat \<times> 'r) \<Rightarrow> int \<Rightarrow> 'r \<Rightarrow> 'x retry_error + pyfloat \<times> 'r" where
  "delay_for p random attempt g =
     (if 1024 \<le> attempt - 2 then Inl OverflowError
      else let raw = fl (base_delay p * 2 ^ nat (attempt - 2)); capped = min raw (max_delay p) in
        if jitter p \<noteq> 0 then
          (case random g of (u, g1) \<Rightarrow>
             Inr (max 0 (fl (capped * fl (1 + uniform (- jitter p) (jitter p) u))), g1))
        else Inr (max 0 capped, g))"

section \<open>The loop\<close>

fun retry_loop ::
  "('s \<Rightarrow> ('x + 'a) \<times> 's) \<Rightarrow> ('x \<Rightarrow> bool) \<Rightarrow> retry_policy \<Rightarrow> string \<Rightarrow> ('r \<Rightarrow> pyfloat \<times> 'r) \<Rightarrow>
     int list \<Rightarrow> 's \<Rightarrow> 'r \<Rightarrow> pyfloat list \<Rightarrow> ('x retry_error + 'a) \<times> 's \<times> pyfloat list" where
  "retry_loop func transient p operation random [] s g waits = (Inl AssertionError, s, waits)"
| "retry_loop func transient p operation random (attempt # rest) s g waits =
     (case func s of
        (Inr result, s1) \<Rightarrow> (Inr result, s1, waits)
      | (Inl e, s1) \<Rightarrow>
          if \<not> transient e then (Inl (Reraised e), s1, waits)
          else if attempt = attempts p then (Inl (RetryError operation (attempts p) e), s1, waits)
          else (case delay_for p random (attempt + 1) g of
              Inl err \<Rightarrow> (Inl err, s1, waits)
            | Inr (wait, g1) \<Rightarrow> retry_loop func transient p operation random rest s1 g1 (waits @ [wait])))"

definition retry_call ::
  "('s \<Rightarrow> ('x + 'a) \<times> 's) \<Rightarrow> retry_policy \<Rightarrow> ('x \<Rightarrow> bool) \<Rightarrow> string \<Rightarrow> ('r \<Rightarrow> pyfloat \<times> 'r) \<Rightarrow> 's \<Rightarrow> 'r \<Rightarrow>
     ('x retry_error + 'a) \<times> 's \<times> pyfloat list" where
  "retry_call func p transient operation random s g =
     retry_loop func transient p operation random [1..attempts p] s g []"

section \<open>The backoff is bounded\<close>

lemma fl_double: "is_float x \<Longrightarrow> fl (2 * x) = 2 * x"
proof -
  have pos: "fl (2 * y) = 2 * y" if "0 < y" "fl y = y" for y
  proof (rule fl_exact)
    have y: "y = of_int (round_even (y / pow2 (fl_exp y))) * pow2 (fl_exp y)" (is "_ = of_int ?k * _")
      using that by (simp add: fl_def fl_pos_def)
    have p: "pow2 (fl_exp y + 1) = 2 * pow2 (fl_exp y)" by (simp add: pow2_add) (simp add: pow2_def)
    show "2 * y = of_int ?k * pow2 (fl_exp y + 1)" unfolding p using y by simp
    have "ilog2 (2 * y) = ilog2 y + 1"
    proof (rule ilog2_unique)
      have d: "pow2 (ilog2 y + 1) = 2 * pow2 (ilog2 y)" "pow2 (ilog2 y + 1 + 1) = 2 * pow2 (ilog2 y + 1)"
        by (simp_all only: pow2_add [of _ 1]) (simp_all add: pow2_def)
      show "pow2 (ilog2 y + 1) \<le> 2 * y" "2 * y < pow2 (ilog2 y + 1 + 1)"
        using ilog2_bounds [OF that(1)] unfolding d(2) by (simp_all add: d(1))
    qed
    then show "fl_exp (2 * y) \<le> fl_exp y + 1" unfolding fl_exp_def by linarith
    show "0 < 2 * y" using that by simp
  qed
  assume "is_float x"
  then show ?thesis
    using pos [of x] pos [of "- x"] fl_minus [of x] fl_minus [of "2 * x"]
    by (cases x "0 :: rat" rule: linorder_cases) (auto simp: is_float_def)
qed

lemma uniform_bounds:
  assumes "0 \<le> j" "is_float j" "0 \<le> u" "u \<le> 1"
  shows "- j \<le> uniform (- j) j u" "uniform (- j) j u \<le> j"
proof -
  have f: "fl j = j" "fl (- j) = - j" using assms(2) by (simp_all add: is_float_def fl_minus)
  have w: "fl (j - - j) = 2 * j" using fl_double [OF assms(2)] by simp
  have "2 * j * u \<le> 2 * j" using assms(1,4) by (simp add: mult_left_le)
  then have "fl (2 * j * u) \<le> 2 * j" using fl_mono [of "2 * j * u" "2 * j"] fl_double [OF assms(2)] by simp
  then have "fl (- j + fl (2 * j * u)) \<le> fl j" by (intro fl_mono) simp
  then show "uniform (- j) j u \<le> j" unfolding uniform_def w f .
  have "0 \<le> fl (2 * j * u)" using assms by simp
  then have "fl (- j) \<le> fl (- j + fl (2 * j * u))" by (intro fl_mono) simp
  then show "- j \<le> uniform (- j) j u" unfolding uniform_def w f .
qed

definition policy_ok :: "retry_policy \<Rightarrow> bool" where
  "policy_ok p \<longleftrightarrow> 1 \<le> attempts p \<and> 0 \<le> base_delay p \<and> 0 \<le> max_delay p \<and> 0 \<le> jitter p \<and> jitter p < 1 \<and>
     is_float (max_delay p) \<and> is_float (jitter p)"

text \<open>The longest wait: the cap, lengthened by the jitter.\<close>

definition longest_wait :: "retry_policy \<Rightarrow> pyfloat" where
  "longest_wait p = fl (max_delay p * fl (1 + jitter p))"

lemma delay_for_bounds:
  assumes p: "policy_ok p" and u: "\<And>g. 0 \<le> fst (random g) \<and> fst (random g) \<le> 1" and a: "attempt - 2 < 1024"
  obtains w g' where "delay_for p random attempt g = Inr (w, g')" "0 \<le> w" "w \<le> longest_wait p"
proof -
  define capped where "capped = min (fl (base_delay p * 2 ^ nat (attempt - 2))) (max_delay p)"
  have c: "0 \<le> capped" "capped \<le> max_delay p" using p by (simp_all add: capped_def policy_ok_def)
  have one: "fl 1 \<le> fl (1 + jitter p)" using p by (intro fl_mono) (simp add: policy_ok_def)
  have m: "0 \<le> max_delay p" "fl (max_delay p) = max_delay p" using p by (simp_all add: policy_ok_def is_float_def)
  have cap: "fl (max_delay p) \<le> longest_wait p" unfolding longest_wait_def
    using one m(1) by (intro fl_mono) (simp add: mult_le_cancel_left1)
  show thesis
  proof (cases "jitter p = 0")
    case True
    then show ?thesis using that [of "max 0 capped" g] a c cap m
      by (simp add: delay_for_def capped_def [symmetric] Let_def)
  next
    case False
    obtain x g1 where r: "random g = (x, g1)" by fastforce
    have x: "0 \<le> x" "x \<le> 1" using u [of g] r by simp_all
    let ?v = "uniform (- jitter p) (jitter p) x"
    have v: "- jitter p \<le> ?v" "?v \<le> jitter p" using uniform_bounds [OF _ _ x] p by (simp_all add: policy_ok_def)
    have f: "0 \<le> fl (1 + ?v)" "fl (1 + ?v) \<le> fl (1 + jitter p)"
      using v p by (auto intro: fl_mono simp: policy_ok_def)
    have "capped * fl (1 + ?v) \<le> max_delay p * fl (1 + jitter p)" using c f m by (intro mult_mono) simp_all
    then have "fl (capped * fl (1 + ?v)) \<le> longest_wait p" unfolding longest_wait_def by (rule fl_mono)
    then show ?thesis
      using that [of "max 0 (fl (capped * fl (1 + ?v)))" g1] False a r cap m c f
      by (simp add: delay_for_def capped_def [symmetric] Let_def)
  qed
qed

section \<open>What a retried call does\<close>

text \<open>The state before the call number \<open>k\<close>, counted from 0, when all earlier ones are made.\<close>

fun state_at :: "('s \<Rightarrow> ('x + 'a) \<times> 's) \<Rightarrow> 's \<Rightarrow> nat \<Rightarrow> 's" where
  "state_at func s 0 = s"
| "state_at func s (Suc k) = state_at func (snd (func s)) k"

definition fails_at :: "('s \<Rightarrow> ('x + 'a) \<times> 's) \<Rightarrow> ('x \<Rightarrow> bool) \<Rightarrow> 's \<Rightarrow> nat \<Rightarrow> bool" where
  "fails_at func transient s k \<longleftrightarrow> (\<exists>e. fst (func (state_at func s k)) = Inl e \<and> transient e)"

text \<open>
  The outcome after \<open>k + 1\<close> calls of at most \<open>n\<close>: the first \<open>k\<close> fail transiently, the last one
  decides, unless it is the last allowed one and fails transiently too.
\<close>

definition decided :: "('s \<Rightarrow> ('x + 'a) \<times> 's) \<Rightarrow> ('x \<Rightarrow> bool) \<Rightarrow> string \<Rightarrow> int \<Rightarrow> nat \<Rightarrow> 's \<Rightarrow> nat \<Rightarrow>
    ('x retry_error + 'a) \<times> 's \<times> pyfloat list \<Rightarrow> bool" where
  "decided func transient operation allowed n s k run \<longleftrightarrow>
     (\<forall>i < k. fails_at func transient s i) \<and> fst (snd run) = state_at func s (Suc k) \<and>
     (case fst (func (state_at func s k)) of
        Inr x \<Rightarrow> fst run = Inr x
      | Inl e \<Rightarrow> if transient e then Suc k = n \<and> fst run = Inl (RetryError operation allowed e)
          else fst run = Inl (Reraised e))"

lemma retry_loop_decided:
  fixes func :: "'s \<Rightarrow> ('x + 'a) \<times> 's" and random :: "'r \<Rightarrow> pyfloat \<times> 'r"
  assumes p: "policy_ok p" "attempts p \<le> 1025" and u: "\<And>g. 0 \<le> fst (random g) \<and> fst (random g) \<le> 1"
  shows "i \<le> attempts p \<Longrightarrow> n = nat (attempts p - i + 1) \<Longrightarrow>
    \<exists>k ws. k < n \<and> length ws = k \<and> (\<forall>w \<in> set ws. 0 \<le> w \<and> w \<le> longest_wait p) \<and>
      snd (snd (retry_loop func transient p operation random [i..attempts p] s g waits)) = waits @ ws \<and>
      decided func transient operation (attempts p) n s k
        (retry_loop func transient p operation random [i..attempts p] s g waits)"
proof (induction n arbitrary: i s g waits)
  case (Suc n)
  have up: "[i..attempts p] = i # [i + 1..attempts p]" using Suc.prems(1) by (simp add: upto_rec1)
  obtain r s1 where r: "func s = (r, s1)" by fastforce
  show ?case
  proof (cases "\<exists>e. r = Inl e \<and> transient e \<and> i \<noteq> attempts p")
    case False
    have "decided func transient operation (attempts p) (Suc n) s 0
        (retry_loop func transient p operation random [i..attempts p] s g waits) \<and>
      snd (snd (retry_loop func transient p operation random [i..attempts p] s g waits)) = waits"
      using False r Suc.prems unfolding up by (cases r) (auto simp: decided_def)
    then show ?thesis by (intro exI [of _ 0] exI [of _ "[]"]) simp
  next
    case True
    then obtain e where e: "r = Inl e" "transient e" "i < attempts p" using Suc.prems(1) by auto
    have a: "i + 1 - 2 < 1024" using e(3) p(2) by simp
    obtain w g1 where w: "delay_for p random (i + 1) g = (Inr (w, g1) :: 'x retry_error + pyfloat \<times> 'r)" "0 \<le> w" "w \<le> longest_wait p"
      by (rule delay_for_bounds [where random = random and g = g, OF p(1) u a])
    have loop: "retry_loop func transient p operation random [i..attempts p] s g waits =
        retry_loop func transient p operation random [i + 1..attempts p] s1 g1 (waits @ [w])"
      unfolding up using r e w(1) by simp
    obtain k ws where k: "k < n" "length ws = k" "\<forall>w \<in> set ws. 0 \<le> w \<and> w \<le> longest_wait p"
      "snd (snd (retry_loop func transient p operation random [i + 1..attempts p] s1 g1 (waits @ [w]))) = (waits @ [w]) @ ws"
      "decided func transient operation (attempts p) n s1 k
        (retry_loop func transient p operation random [i + 1..attempts p] s1 g1 (waits @ [w]))"
    proof -
      have i: "i + 1 \<le> attempts p" "n = nat (attempts p - (i + 1) + 1)" using Suc.prems e(3) by simp_all
      show thesis using Suc.IH [OF i, of s1 g1 "waits @ [w]"] that by blast
    qed
    have "fails_at func transient s j" if "j < Suc k" for j
      using that k(5) r e by (cases j) (simp_all add: fails_at_def decided_def)
    then have "decided func transient operation (attempts p) (Suc n) s (Suc k)
        (retry_loop func transient p operation random [i..attempts p] s g waits)"
      unfolding loop using k(5) r by (simp add: decided_def split: sum.splits if_splits)
    then show ?thesis using k(1-4) w(2,3)
      by (intro exI [of _ "Suc k"] exI [of _ "w # ws"]) (simp add: loop)
  qed
qed simp

section \<open>Properties\<close>

text \<open>
  C27: A retried call always returns. With a policy of \<open>n\<close> attempts (up to 1025, beyond which the
  backoff overflows) the function is called \<open>k + 1 \<le> n\<close> times, each time in the state the
  previous call left, and the outcome is that of the last call: its result, its own exception if
  that is not transient, or a \<open>RetryError\<close> that carries it after \<open>n\<close> transient failures. There are
  \<open>k\<close> waits, none of them negative or longer than the cap with its jitter.
\<close>

theorem retry_call_bounded:
  fixes func :: "'s \<Rightarrow> ('x + 'a) \<times> 's" and random :: "'r \<Rightarrow> pyfloat \<times> 'r"
  assumes "retry_policy_init n base cap fraction = Inr p" "is_float cap" "is_float fraction" "n \<le> 1025"
    and "\<And>g. 0 \<le> fst (random g) \<and> fst (random g) \<le> 1"
  shows "\<exists>k < nat n. decided func transient operation n (nat n) s k (retry_call func p transient operation random s g) \<and>
    length (snd (snd (retry_call func p transient operation random s g))) = k \<and>
    (\<forall>w \<in> set (snd (snd (retry_call func p transient operation random s g))). 0 \<le> w \<and> w \<le> longest_wait p)"
proof -
  have p: "policy_ok p" "attempts p = n" using assms(1-3) by (auto simp: retry_policy_init_def policy_ok_def split: if_splits)
  then have i: "1 \<le> attempts p" "nat n = nat (attempts p - 1 + 1)" by (simp_all add: policy_ok_def)
  have le: "attempts p \<le> 1025" using assms(4) p(2) by simp
  show ?thesis
    using retry_loop_decided [where random = random and func = func and transient = transient and operation = operation
        and s = s and g = g and waits = "[]", OF p(1) le assms(5) i]
    unfolding retry_call_def by (auto simp: p(2))
qed

definition flaky :: "nat \<Rightarrow> (nat + string) \<times> nat" where
  "flaky s = (if s < 2 then (Inl s, s + 1) else (Inr ''done'', s))"

lemma retry_call_bounded_witness:
  "\<exists>p. retry_policy_init 3 1 2 0 = Inr p \<and>
     retry_call flaky p (\<lambda>_. True) ''op'' (\<lambda>g. (1 / 2, g)) 0 () = (Inr ''done'', 2, [1, 2]) \<and>
     decided flaky (\<lambda>_. True) ''op'' 3 3 0 2 (retry_call flaky p (\<lambda>_. True) ''op'' (\<lambda>g. (1 / 2, g)) 0 ())"
proof -
  obtain p where p: "retry_policy_init 3 1 2 0 = Inr p" by (simp add: retry_policy_init_def)
  have f: "is_float 2" "is_float 0" by (simp_all add: is_float_def fl_numeral)
  have "map_sum id (\<lambda>p. retry_call flaky p (\<lambda>_. True) ''op'' (\<lambda>g. (1 / 2, g)) 0 ()) (retry_policy_init 3 1 2 0) =
    Inr (Inr ''done'', 2, [1, 2])" by code_simp
  then have run: "retry_call flaky p (\<lambda>_. True) ''op'' (\<lambda>g. (1 / 2, g)) 0 () = (Inr ''done'', 2, [1, 2])"
    using p by simp
  have u: "0 \<le> fst ((\<lambda>g. (1 / 2 :: pyfloat, g)) x) \<and> fst ((\<lambda>g. (1 / 2 :: pyfloat, g)) x) \<le> 1" for x :: unit by simp
  have n: "(3 :: int) \<le> 1025" by simp
  obtain k where "decided flaky (\<lambda>_. True) ''op'' 3 3 0 k (retry_call flaky p (\<lambda>_. True) ''op'' (\<lambda>g. (1 / 2, g)) 0 ())"
    "length (snd (snd (retry_call flaky p (\<lambda>_. True) ''op'' (\<lambda>g. (1 / 2, g)) 0 ()))) = k"
    using retry_call_bounded [where random = "\<lambda>g :: unit. (1 / 2, g)" and func = flaky and transient = "\<lambda>_. True" and operation = "''op''"
        and s = 0 and g = "()", OF p f n u] by auto
  then show ?thesis using p run by (auto simp: numeral_2_eq_2)
qed

text \<open>The cap is not a bound of the waits: the jitter is added after it.\<close>

theorem backoff_exceeds_cap:
  "case retry_policy_init 3 2 2 (fl (1 / 10)) of
     Inl e \<Rightarrow> False
   | Inr p \<Rightarrow> (case delay_for p (\<lambda>g. (3 / 4, g)) 2 () of
        Inl (e :: unit retry_error) \<Rightarrow> False | Inr (w, g) \<Rightarrow> max_delay p < w \<and> w \<le> longest_wait p)"
  by code_simp

text \<open>A long policy ends in an overflow instead of the documented exception.\<close>

lemma long_policy_overflows:
  "1026 \<le> attempt \<Longrightarrow> delay_for p random attempt g = Inl OverflowError"
  by (simp add: delay_for_def)

end
