(* ===== verification/Store.thy ===== *)
theory Store
  imports Commit Recovery
begin

text \<open>
  The persisted fleet: the columns of the \<open>robots\<close> and \<open>tasks\<close> tables (\<open>persistence/models.py\<close>), the
  queries of the repositories (\<open>persistence/repositories.py\<close>), and the transaction of a request
  (\<open>api/dependencies.py\<close>, \<open>persistence/database.py\<close>). A table is an association list from primary
  keys to rows; a query filters it and sorts it by its key. A table of runs is the list of its rows
  in the order of their generated ids. Time stamps and run times are left out. Strings are ASCII.
\<close>

section \<open>Errors of the services\<close>

text \<open>
  \<open>services/errors.py\<close>: the deliberate failures. \<open>Unexpected\<close> is any other exception that leaves a
  service; the handlers of the HTTP layer (\<open>api/errors.py\<close>) turn each into a status code.
\<close>

datatype service_error = Resource_Not_Found | Resource_Conflict | Validation_Failed | Domain_Failure
  | Unauthenticated | Forbidden | Unexpected py_error

fun response_status :: "service_error \<Rightarrow> nat" where
  "response_status Resource_Not_Found = 404"
| "response_status Resource_Conflict = 409"
| "response_status Validation_Failed = 422"
| "response_status Domain_Failure = 200"
| "response_status Unauthenticated = 401"
| "response_status Forbidden = 403"
| "response_status (Unexpected e) = (if is_robotics_error e then 422 else 500)"

definition lift_error :: "py_error + 'a \<Rightarrow> service_error + 'a" where
  "lift_error x = (case x of Inl e \<Rightarrow> Inl (Unexpected e) | Inr a \<Rightarrow> Inr a)"

text \<open>\<open>except RoboticsError\<close> and \<open>except ValueError\<close>, answered with a \<open>ValidationFailedError\<close>.\<close>

definition reject_robotics :: "py_error + 'a \<Rightarrow> service_error + 'a" where
  "reject_robotics x = (case x of
     Inl e \<Rightarrow> Inl (if is_robotics_error e then Validation_Failed else Unexpected e) | Inr a \<Rightarrow> Inr a)"

definition reject_value :: "py_error + 'a \<Rightarrow> service_error + 'a" where
  "reject_value x = (case x of
     Inl e \<Rightarrow> Inl (if e = ValueError then Validation_Failed else Unexpected e) | Inr a \<Rightarrow> Inr a)"

section \<open>Names of enum members\<close>

fun robot_status_value :: "robot_status \<Rightarrow> string" where
  "robot_status_value R_IDLE = ''idle''"
| "robot_status_value R_ASSIGNED = ''assigned''"
| "robot_status_value R_MOVING = ''moving''"
| "robot_status_value R_PICKING = ''picking''"
| "robot_status_value R_DROPPING = ''dropping''"
| "robot_status_value R_CHARGING = ''charging''"
| "robot_status_value R_BLOCKED = ''blocked''"
| "robot_status_value R_OFFLINE = ''offline''"

fun task_status_value :: "task_status \<Rightarrow> string" where
  "task_status_value T_PENDING = ''pending''"
| "task_status_value T_ASSIGNED = ''assigned''"
| "task_status_value T_IN_PROGRESS = ''in_progress''"
| "task_status_value T_COMPLETED = ''completed''"
| "task_status_value T_FAILED = ''failed''"

fun priority_name :: "task_priority \<Rightarrow> string" where
  "priority_name P_LOW = ''LOW''"
| "priority_name P_NORMAL = ''NORMAL''"
| "priority_name P_HIGH = ''HIGH''"
| "priority_name P_URGENT = ''URGENT''"

text \<open>\<open>RobotStatus(value)\<close>, \<open>TaskStatus(value)\<close> and \<open>TaskPriority[name]\<close>.\<close>

definition robot_status_of :: "string \<Rightarrow> robot_status option" where
  "robot_status_of v = find (\<lambda>s. robot_status_value s = v)
     [R_IDLE, R_ASSIGNED, R_MOVING, R_PICKING, R_DROPPING, R_CHARGING, R_BLOCKED, R_OFFLINE]"

definition task_status_of :: "string \<Rightarrow> task_status option" where
  "task_status_of v = find (\<lambda>s. task_status_value s = v) [T_PENDING, T_ASSIGNED, T_IN_PROGRESS, T_COMPLETED, T_FAILED]"

definition priority_named :: "string \<Rightarrow> task_priority option" where
  "priority_named n = find (\<lambda>p. priority_name p = n) [P_LOW, P_NORMAL, P_HIGH, P_URGENT]"

text \<open>\<open>str.upper\<close> and \<open>str.lower\<close> on ASCII.\<close>

definition str_upper :: "string \<Rightarrow> string" where
  "str_upper s = map (\<lambda>c. if CHR ''a'' \<le> c \<and> c \<le> CHR ''z'' then char_of (of_char c - (32 :: nat)) else c) s"

definition str_lower :: "string \<Rightarrow> string" where
  "str_lower s = map (\<lambda>c. if CHR ''A'' \<le> c \<and> c \<le> CHR ''Z'' then char_of (of_char c + (32 :: nat)) else c) s"

section \<open>Rows and tables\<close>

record robot_record =
  rec_robot_id :: string
  rec_row :: int
  rec_col :: int
  rec_battery_level :: pyfloat
  rec_payload_capacity :: pyfloat
  rec_current_payload :: pyfloat
  rec_status :: string
  rec_assigned_task_id :: "string option"

record task_record =
  rec_task_id :: string
  rec_pickup_row :: int
  rec_pickup_col :: int
  rec_dropoff_row :: int
  rec_dropoff_col :: int
  rec_priority :: string
  rec_payload_weight :: pyfloat
  rec_task_status :: string
  rec_assigned_robot_id :: "string option"
  rec_failure_reason :: "fail_reason option"

text \<open>One row per call of an algorithm; the last field stands for \<open>result_json\<close>.\<close>

record planning_run =
  pl_algorithm :: string
  pl_start_row :: int
  pl_start_col :: int
  pl_goal_row :: int
  pl_goal_col :: int
  pl_success :: bool
  pl_total_cost :: "int option"
  pl_nodes_expanded :: nat
  pl_failure_reason :: "plan_reason option"
  pl_result :: path_result

record allocation_run =
  alr_algorithm :: string
  alr_solver_status :: string
  alr_requested_robot_count :: nat
  alr_requested_task_count :: nat
  alr_assigned_count :: nat
  alr_unassigned_count :: nat
  alr_total_estimated_cost :: int
  alr_committed :: bool
  alr_result :: allocation_result

record coordination_run =
  cor_robot_count :: nat
  cor_success :: bool
  cor_planned_robot_count :: nat
  cor_failed_robot_ids :: "string list"
  cor_makespan :: int
  cor_total_move_steps :: int
  cor_total_wait_steps :: int
  cor_conflict_checks :: nat
  cor_failure_reason :: "coordination_failure option"
  cor_result :: coordination_result

record recovery_run =
  rer_disruption_type :: string
  rer_trigger_timestep :: int
  rer_recovery_enabled :: bool
  rer_recovery_success :: bool
  rer_safe_stop :: bool
  rer_affected_robot_ids :: "string list"
  rer_affected_task_ids :: "string list"
  rer_replanning_attempted :: bool
  rer_replanning_success :: bool
  rer_task_reassignment_attempted :: bool
  rer_task_reassignment_success :: bool
  rer_reassigned_from :: "string option"
  rer_reassigned_to :: "string option"
  rer_result :: resilient_result

record store =
  robots_table :: "(string, robot_record) dict"
  tasks_table :: "(string, task_record) dict"
  planning_runs :: "planning_run list"
  allocation_runs :: "allocation_run list"
  coordination_runs :: "coordination_run list"
  recovery_runs :: "recovery_run list"

definition add_planning_run :: "planning_run \<Rightarrow> store \<Rightarrow> store" where
  "add_planning_run run db = db\<lparr>planning_runs := planning_runs db @ [run]\<rparr>"

definition add_allocation_run :: "allocation_run \<Rightarrow> store \<Rightarrow> store" where
  "add_allocation_run run db = db\<lparr>allocation_runs := allocation_runs db @ [run]\<rparr>"

definition add_coordination_run :: "coordination_run \<Rightarrow> store \<Rightarrow> store" where
  "add_coordination_run run db = db\<lparr>coordination_runs := coordination_runs db @ [run]\<rparr>"

definition add_recovery_run :: "recovery_run \<Rightarrow> store \<Rightarrow> store" where
  "add_recovery_run run db = db\<lparr>recovery_runs := recovery_runs db @ [run]\<rparr>"

text \<open>The newest runs first; generated ids count up in the order of insertion.\<close>

definition recent_planning_runs :: "nat \<Rightarrow> store \<Rightarrow> planning_run list" where
  "recent_planning_runs limit db = take limit (rev (planning_runs db))"

definition recent_allocation_runs :: "nat \<Rightarrow> store \<Rightarrow> allocation_run list" where
  "recent_allocation_runs limit db = take limit (rev (allocation_runs db))"

definition recent_coordination_runs :: "nat \<Rightarrow> store \<Rightarrow> coordination_run list" where
  "recent_coordination_runs limit db = take limit (rev (coordination_runs db))"

definition recent_recovery_events :: "nat \<Rightarrow> store \<Rightarrow> recovery_run list" where
  "recent_recovery_events limit db = take limit (rev (recovery_runs db))"

definition count_planning_runs :: "store \<Rightarrow> nat" where
  "count_planning_runs db = length (planning_runs db)"

definition count_recovery_events :: "store \<Rightarrow> nat" where
  "count_recovery_events db = length (recovery_runs db)"

definition list_robot_rows :: "string option \<Rightarrow> store \<Rightarrow> robot_record list" where
  "list_robot_rows status db =
     filter (\<lambda>r. status = None \<or> Some (rec_status r) = status) (map snd (sort_key fst (robots_table db)))"

definition list_task_rows :: "string option \<Rightarrow> store \<Rightarrow> task_record list" where
  "list_task_rows status db =
     filter (\<lambda>t. status = None \<or> Some (rec_task_status t) = status) (map snd (sort_key fst (tasks_table db)))"

definition pending_rows :: "store \<Rightarrow> task_record list" where
  "pending_rows db = list_task_rows (Some ''pending'') db"

definition put_robot_row :: "robot_record \<Rightarrow> store \<Rightarrow> store" where
  "put_robot_row r db = db\<lparr>robots_table := dict_set (rec_robot_id r) r (robots_table db)\<rparr>"

definition put_task_row :: "task_record \<Rightarrow> store \<Rightarrow> store" where
  "put_task_row t db = db\<lparr>tasks_table := dict_set (rec_task_id t) t (tasks_table db)\<rparr>"

text \<open>Deleting a robot sets the foreign keys that refer to it to null (\<open>ON DELETE SET NULL\<close>).\<close>

definition delete_robot_row :: "string \<Rightarrow> store \<Rightarrow> store" where
  "delete_robot_row rid db =
     db\<lparr>robots_table := dict_del rid (robots_table db),
        tasks_table := map (\<lambda>(tid, t). (tid, if rec_assigned_robot_id t = Some rid then t\<lparr>rec_assigned_robot_id := None\<rparr> else t))
          (tasks_table db)\<rparr>"

definition delete_task_row :: "string \<Rightarrow> store \<Rightarrow> store" where
  "delete_task_row tid db = db\<lparr>tasks_table := dict_del tid (tasks_table db)\<rparr>"

text \<open>The transaction of a request: committed when the handler returns, rolled back when it raises.\<close>

definition in_transaction :: "('s \<Rightarrow> (service_error + 'a) \<times> 's) \<Rightarrow> 's \<Rightarrow> (service_error + 'a) \<times> 's" where
  "in_transaction handler db = (case handler db of (Inl e, _) \<Rightarrow> (Inl e, db) | (Inr x, db1) \<Rightarrow> (Inr x, db1))"

end
