(* ===== verification/Scenario.thy ===== *)
theory Scenario
  imports Simulator Planning
begin

text \<open>
  The sample floor, fleet and tasks (\<open>simulation/scenario.py\<close>), which are also the default world
  of the services. The only random quantity, a robot's starting battery, is drawn by \<open>draw\<close>, the
  model of \<open>rng.randint\<close> with the generator as its state. The theorems show that the scenario
  always builds, is consistent, and has no walled-off cell.
\<close>

section \<open>The layout\<close>

definition WAREHOUSE_NAME :: string where "WAREHOUSE_NAME = ''demo-warehouse''"
definition WAREHOUSE_ROWS :: int where "WAREHOUSE_ROWS = 12"
definition WAREHOUSE_COLS :: int where "WAREHOUSE_COLS = 12"
definition RACK_ROWS :: "int list" where "RACK_ROWS = [2, 3, 5, 6, 8, 9]"
definition RACK_COLS :: "int list" where "RACK_COLS = [2, 3, 5, 6, 8, 9]"

definition STORAGE_CELLS :: "position list" where
  "STORAGE_CELLS = [Position 2 1, Position 3 4, Position 5 1, Position 6 7, Position 8 10, Position 9 4]"

definition PICKUP_CELLS :: "position list" where "PICKUP_CELLS = [Position 2 4, Position 8 7]"
definition DROPOFF_CELLS :: "position list" where "DROPOFF_CELLS = [Position 11 1, Position 11 10]"
definition CHARGING_CELLS :: "position list" where "CHARGING_CELLS = [Position 0 0, Position 0 11]"

definition ROBOT_START_CELLS :: "(string \<times> position \<times> pyfloat) list" where
  "ROBOT_START_CELLS = [(''R1'', Position 0 1, 10), (''R2'', Position 0 4, 10), (''R3'', Position 0 5, 5),
     (''R4'', Position 10 10, 15)]"

definition SPILL_OBSTACLE_ID :: string where "SPILL_OBSTACLE_ID = ''spill-1''"
definition SPILL_POSITION :: position where "SPILL_POSITION = Position 1 4"
definition MIN_START_BATTERY :: int where "MIN_START_BATTERY = 55"
definition MAX_START_BATTERY :: int where "MAX_START_BATTERY = 100"

definition mark_all :: "location_type \<Rightarrow> position list \<Rightarrow> warehouse \<Rightarrow> py_error + warehouse" where
  "mark_all r cells w = res_fold (\<lambda>p. mark_location p r) cells w"

definition add_rack :: "int \<times> int \<Rightarrow> warehouse \<Rightarrow> py_error + warehouse" where
  "add_rack cell w = map_sum id snd (add_static_obstacle (''rack-r'' @ str_int (fst cell) @ ''c'' @ str_int (snd cell))
     (Position (fst cell) (snd cell)) ''storage rack'' w)"

definition build_sample_warehouse :: "py_error + warehouse" where
  "build_sample_warehouse =
     res_bind (warehouse_init WAREHOUSE_COLS WAREHOUSE_ROWS WAREHOUSE_NAME) (\<lambda>w.
     res_bind (res_fold add_rack (List.product RACK_ROWS RACK_COLS) w) (\<lambda>w.
     res_bind (mark_all STORAGE STORAGE_CELLS w) (\<lambda>w.
     res_bind (mark_all PICKUP PICKUP_CELLS w) (\<lambda>w.
     res_bind (mark_all DROPOFF DROPOFF_CELLS w) (\<lambda>w.
     mark_all CHARGING CHARGING_CELLS w)))))"

section \<open>Robots and tasks\<close>

fun build_sample_robots :: "(int \<Rightarrow> int \<Rightarrow> 'g \<Rightarrow> int \<times> 'g) \<Rightarrow> (string \<times> position \<times> pyfloat) list \<Rightarrow> 'g \<Rightarrow> py_error + robot list" where
  "build_sample_robots draw [] g = Inr []"
| "build_sample_robots draw ((rid, p, capacity) # cells) g =
     (case draw MIN_START_BATTERY MAX_START_BATTERY g of (n, g1) \<Rightarrow>
      res_bind (robot_post_init ((robot_default rid p)\<lparr>battery_level := fl (of_int n), payload_capacity := capacity\<rparr>)) (\<lambda>r.
      res_bind (build_sample_robots draw cells g1) (\<lambda>rs. Inr (r # rs))))"

definition sample_task :: "string \<Rightarrow> position \<Rightarrow> position \<Rightarrow> task_priority \<Rightarrow> pyfloat \<Rightarrow> py_error + task" where
  "sample_task i a b pr weight = task_post_init \<lparr>task_id = i, pickup_location = a, dropoff_location = b, priority = pr,
     payload_weight = weight, task_status = T_PENDING, assigned_robot_id = None, failure_reason = None\<rparr>"

definition build_sample_tasks :: "py_error + task list" where
  "build_sample_tasks = res_map (\<lambda>(i, a, b, pr, weight). sample_task i a b pr weight)
     [(''T1'', Position 2 4, Position 11 1, P_HIGH, 3), (''T2'', Position 8 7, Position 11 10, P_URGENT, 15 / 2),
      (''T3'', Position 2 1, Position 11 10, P_NORMAL, 2), (''T4'', Position 5 1, Position 11 1, P_LOW, 9 / 2)]"

definition build_sample_simulator :: "(int \<Rightarrow> int \<Rightarrow> 'g \<Rightarrow> int \<times> 'g) \<Rightarrow> 'g \<Rightarrow> bool \<Rightarrow> py_error + simulator" where
  "build_sample_simulator draw g include_dynamic_obstacle =
     res_bind build_sample_warehouse (\<lambda>w.
     res_bind (build_sample_robots draw ROBOT_START_CELLS g) (\<lambda>robots.
     res_bind (res_fold add_robot robots (sim_init w)) (\<lambda>s.
     res_bind build_sample_tasks (\<lambda>tasks.
     res_bind (res_fold add_task tasks s) (\<lambda>s.
       if include_dynamic_obstacle
       then map_sum id snd (sim_add_dynamic_obstacle SPILL_OBSTACLE_ID SPILL_POSITION ''liquid spill, cleaning crew notified'' s)
       else Inr s)))))"

section \<open>The scenario builds\<close>

definition sample_floor :: warehouse where
  "sample_floor = \<lparr>warehouse_name = WAREHOUSE_NAME,
     warehouse_grid = \<lparr>grid_width = WAREHOUSE_COLS, grid_height = WAREHOUSE_ROWS,
       grid_blocked = set (map (\<lambda>(row, col). Position row col) (List.product RACK_ROWS RACK_COLS))\<rparr>,
     locations = map (\<lambda>p. (p, STORAGE)) STORAGE_CELLS @ map (\<lambda>p. (p, PICKUP)) PICKUP_CELLS @
       map (\<lambda>p. (p, DROPOFF)) DROPOFF_CELLS @ map (\<lambda>p. (p, CHARGING)) CHARGING_CELLS,
     static_registry = map (\<lambda>(row, col). let i = ''rack-r'' @ str_int row @ ''c'' @ str_int col in
         (i, \<lparr>obstacle_id = i, obstacle_position = Position row col, obstacle_type = STATIC,
              obstacle_description = ''storage rack''\<rparr>)) (List.product RACK_ROWS RACK_COLS),
     dynamic_registry = []\<rparr>"

lemma sample_floor_built: "build_sample_warehouse = Inr sample_floor"
  by code_simp

lemma map_snd_Inr: "map_sum id snd x = Inr w \<longleftrightarrow> (\<exists>y. x = Inr (y, w))"
  by (cases x) auto

lemma add_rack_ok:
  assumes "warehouse_ok w" "add_rack cell w = Inr w'"
  shows "warehouse_ok w'"
proof -
  obtain ob where "add_static_obstacle (''rack-r'' @ str_int (fst cell) @ ''c'' @ str_int (snd cell))
     (Position (fst cell) (snd cell)) ''storage rack'' w = Inr (ob, w')"
    using assms(2) unfolding add_rack_def map_snd_Inr by blast
  then show ?thesis by (rule add_static_obstacle_ok [OF assms(1)])
qed

lemma sample_floor_ok: "warehouse_ok sample_floor"
proof -
  have mark: "warehouse_ok w'" if "mark_all r cells w = Inr w'" "warehouse_ok w" for r cells w w'
    using that unfolding mark_all_def by (rule res_fold_inv [where P = warehouse_ok]) (rule mark_location_ok)
  obtain w0 w1 w2 w3 w4 where b: "warehouse_init WAREHOUSE_COLS WAREHOUSE_ROWS WAREHOUSE_NAME = Inr w0"
    "res_fold add_rack (List.product RACK_ROWS RACK_COLS) w0 = Inr w1"
    "mark_all STORAGE STORAGE_CELLS w1 = Inr w2" "mark_all PICKUP PICKUP_CELLS w2 = Inr w3"
    "mark_all DROPOFF DROPOFF_CELLS w3 = Inr w4" "mark_all CHARGING CHARGING_CELLS w4 = Inr sample_floor"
    using sample_floor_built unfolding build_sample_warehouse_def res_bind_Inr by auto
  have "warehouse_ok w0" using warehouse_init_ok [OF b(1)] by simp
  then have "warehouse_ok w1"
    by (rule res_fold_inv [OF b(2), where P = warehouse_ok]) (rule add_rack_ok)
  then show ?thesis using mark b(3-6) by blast
qed

lemma sample_tasks_built: "\<exists>ts. build_sample_tasks = Inr ts \<and> (\<forall>t \<in> set ts. task_ok t \<and> task_status t = T_PENDING)"
  unfolding build_sample_tasks_def by (simp add: sample_task_def task_post_init_def task_ok_def)

text \<open>The racks leave rows and columns of aisles: from every free cell one step leads closer to the corner.\<close>

definition corner_step :: "position \<Rightarrow> position" where
  "corner_step p = (if row p \<in> set RACK_ROWS \<or> col p = 0 then Position (row p - 1) (col p) else Position (row p) (col p - 1))"

lemma sample_floor_traversable:
  "is_traversable sample_floor p \<longleftrightarrow> 0 \<le> row p \<and> row p < 12 \<and> 0 \<le> col p \<and> col p < 12 \<and>
     \<not> (row p \<in> set RACK_ROWS \<and> col p \<in> set RACK_COLS)"
  by (cases p) (auto simp: is_traversable_def in_bounds_def sample_floor_def grid_is_traversable_def grid_in_bounds_def
      grid_is_blocked_def is_blocked_by_dynamic_def WAREHOUSE_ROWS_def WAREHOUSE_COLS_def)

lemma corner_step_free:
  assumes "is_traversable sample_floor p" "p \<noteq> Position 0 0"
  shows "is_traversable sample_floor (corner_step p)" "is_adjacent_to (corner_step p) p"
    "nat (row (corner_step p) + col (corner_step p)) < nat (row p + col p)"
proof -
  show "is_traversable sample_floor (corner_step p)" using assms unfolding sample_floor_traversable
    by (cases p) (auto simp: corner_step_def RACK_ROWS_def RACK_COLS_def)
  show "is_adjacent_to (corner_step p) p"
    by (cases p) (auto simp: corner_step_def is_adjacent_to_def manhattan_distance_to_def)
  have "0 < row p + col p" using assms unfolding sample_floor_traversable by (cases p) auto
  then show "nat (row (corner_step p) + col (corner_step p)) < nat (row p + col p)"
    by (cases p) (auto simp: corner_step_def)
qed

lemma corner_route: "is_traversable sample_floor p \<Longrightarrow> \<exists>path. is_route sample_floor (Position 0 0) p path"
proof (induction "nat (row p + col p)" arbitrary: p rule: less_induct)
  case less
  show ?case
  proof (cases "p = Position 0 0")
    case True
    then show ?thesis using less.prems by (intro exI [of _ "[p]"]) (simp add: is_route_def)
  next
    case False
    note c = corner_step_free [OF less.prems False]
    obtain path where "is_route sample_floor (Position 0 0) (corner_step p) path" using less.hyps [OF c(3,1)] by blast
    then have "is_route sample_floor (Position 0 0) p (path @ [p])"
      using c(2) less.prems by (auto simp: is_route_def successively_append_iff)
    then show ?thesis by blast
  qed
qed

lemma is_route_rev: "is_route w a b path \<Longrightarrow> is_route w b a (rev path)"
  unfolding is_route_def by (auto simp: hd_rev last_rev is_adjacent_commute elim: successively_mono)

lemma is_route_append: "is_route w a b xs \<Longrightarrow> is_route w b c ys \<Longrightarrow> is_route w a c (xs @ tl ys)"
  unfolding is_route_def by (cases ys) (auto simp: successively_append_iff successively_Cons)

lemma sample_floor_routes:
  assumes "is_traversable sample_floor a" "is_traversable sample_floor b"
  shows "\<exists>path. is_route sample_floor a b path"
  using corner_route [OF assms(1)] corner_route [OF assms(2)] is_route_rev is_route_append by blast

section \<open>The simulator\<close>

definition in_range :: "(int \<Rightarrow> int \<Rightarrow> 'g \<Rightarrow> int \<times> 'g) \<Rightarrow> bool" where
  "in_range draw \<longleftrightarrow> (\<forall>a b g. a \<le> b \<longrightarrow> a \<le> fst (draw a b g) \<and> fst (draw a b g) \<le> b)"

lemma sample_robots_built:
  assumes "in_range draw" "\<forall>(i, p, capacity) \<in> set cells. i \<noteq> [] \<and> 0 \<le> capacity \<and> is_float capacity"
  shows "\<exists>rs. build_sample_robots draw cells g = Inr rs \<and> map (\<lambda>r. (robot_id r, robot_position r)) rs = map (\<lambda>(i, p, _). (i, p)) cells \<and>
    (\<forall>r \<in> set rs. robot_core_ok r \<and> assigned_task_id r = None)"
  using assms(2)
proof (induction cells arbitrary: g)
  case (Cons x cells)
  obtain i p capacity where x: "x = (i, p, capacity)" by (cases x)
  obtain n g1 where d: "draw MIN_START_BATTERY MAX_START_BATTERY g = (n, g1)" by fastforce
  have n: "55 \<le> n" "n \<le> 100"
    using assms(1) d unfolding in_range_def MIN_START_BATTERY_def MAX_START_BATTERY_def by (metis fst_conv numeral_le_iff semiring_norm)+
  let ?r = "(robot_default i p)\<lparr>battery_level := fl (of_int n), payload_capacity := capacity\<rparr>"
  have f: "fl (of_int n) = (of_int n :: pyfloat)" by (rule fl_of_int) (use n in simp)
  have core: "robot_core_ok ?r" using robot_default_ok [of i p] n Cons.prems unfolding x f
    by (auto simp: robot_ok_def robot_core_ok_def MIN_BATTERY_def MAX_BATTERY_def is_float_def f)
  then have "robot_post_init ?r = Inr ?r"
    unfolding robot_post_init_Inr by (auto simp: robot_core_ok_def robot_default_def MIN_BATTERY_def MAX_BATTERY_def)
  moreover obtain rs where "build_sample_robots draw cells g1 = Inr rs"
    "map (\<lambda>r. (robot_id r, robot_position r)) rs = map (\<lambda>(i, p, _). (i, p)) cells"
    "\<forall>r \<in> set rs. robot_core_ok r \<and> assigned_task_id r = None"
    using Cons.IH [of g1] Cons.prems by auto
  ultimately show ?case using core d by (simp add: x robot_default_def)
qed simp

text \<open>Registering robots on free cells of their own, and tasks with reachable endpoints, never fails.\<close>

lemma nobody_at: "robot_at s p = None \<longleftrightarrow> (\<forall>r \<in> set (dict_values (sim_robots s)). robot_position r \<noteq> p)"
  by (auto simp: robot_at_def find_None_iff)

lemma add_robots_ok:
  assumes "sim_reachable w s" "distinct (map robot_id rs)" "distinct (map robot_position rs)"
    "\<forall>r \<in> set rs. robot_core_ok r \<and> assigned_task_id r = None \<and> is_traversable (sim_warehouse s) (robot_position r) \<and>
       dict_get (sim_robots s) (robot_id r) = None \<and> robot_at s (robot_position r) = None"
  shows "\<exists>s'. res_fold add_robot rs s = Inr s' \<and> sim_reachable w s' \<and> sim_warehouse s' = sim_warehouse s \<and>
    sim_tasks s' = sim_tasks s \<and> sim_robots s' = sim_robots s @ map (\<lambda>r. (robot_id r, r)) rs"
  using assms
proof (induction rs arbitrary: s)
  case (Cons r rs)
  have r: "robot_core_ok r" "assigned_task_id r = None" "is_traversable (sim_warehouse s) (robot_position r)"
    "dict_get (sim_robots s) (robot_id r) = None" "robot_at s (robot_position r) = None" using Cons.prems(4) by simp_all
  let ?s = "put_robot (robot_id r) r s"
  have add: "add_robot r s = Inr ?s" using r is_traversable_in_bounds [OF r(3)] by (simp add: add_robot_def)
  have reach: "sim_reachable w ?s" by (rule reach_step [OF Cons.prems(1) step_add_robot [OF r(1,2) add]])
  have robots: "sim_robots ?s = sim_robots s @ [(robot_id r, r)]" using r(4) by (simp add: dict_set_new)
  have "\<forall>q \<in> set rs. robot_core_ok q \<and> assigned_task_id q = None \<and> is_traversable (sim_warehouse ?s) (robot_position q) \<and>
      dict_get (sim_robots ?s) (robot_id q) = None \<and> robot_at ?s (robot_position q) = None"
  proof
    fix q assume q: "q \<in> set rs"
    then have "robot_id q \<noteq> robot_id r" "robot_position q \<noteq> robot_position r" using Cons.prems(2,3) by (auto simp: rev_image_eqI)
    then show "robot_core_ok q \<and> assigned_task_id q = None \<and> is_traversable (sim_warehouse ?s) (robot_position q) \<and>
      dict_get (sim_robots ?s) (robot_id q) = None \<and> robot_at ?s (robot_position q) = None"
      using Cons.prems(4) q unfolding nobody_at robots by auto
  qed
  from Cons.IH [OF reach _ _ this] Cons.prems(2,3) show ?case using add robots by auto
qed simp

lemma add_tasks_ok:
  assumes "sim_reachable w s" "distinct (map task_id ts)"
    "\<forall>t \<in> set ts. task_ok t \<and> task_status t = T_PENDING \<and> dict_get (sim_tasks s) (task_id t) = None \<and>
       check_endpoints (sim_warehouse s) [pickup_location t, dropoff_location t] = Inr ()"
  shows "\<exists>s'. res_fold add_task ts s = Inr s' \<and> sim_reachable w s' \<and> sim_warehouse s' = sim_warehouse s \<and>
    sim_robots s' = sim_robots s \<and> sim_tasks s' = sim_tasks s @ map (\<lambda>t. (task_id t, t)) ts"
  using assms
proof (induction ts arbitrary: s)
  case (Cons t ts)
  have t: "task_ok t" "task_status t = T_PENDING" "dict_get (sim_tasks s) (task_id t) = None"
    "check_endpoints (sim_warehouse s) [pickup_location t, dropoff_location t] = Inr ()" using Cons.prems(3) by simp_all
  let ?s = "put_task (task_id t) t s"
  have add: "add_task t s = Inr ?s" using t(3,4) by (simp add: add_task_def)
  have "task_status t \<notin> {T_ASSIGNED, T_IN_PROGRESS}" using t(2) by simp
  then have reach: "sim_reachable w ?s" by (rule reach_step [OF Cons.prems(1) step_add_task [OF t(1) _ add]])
  have tasks: "sim_tasks ?s = sim_tasks s @ [(task_id t, t)]" using t(3) by (simp add: dict_set_new)
  have "\<forall>u \<in> set ts. task_ok u \<and> task_status u = T_PENDING \<and> dict_get (sim_tasks ?s) (task_id u) = None \<and>
      check_endpoints (sim_warehouse ?s) [pickup_location u, dropoff_location u] = Inr ()"
  proof
    fix u assume u: "u \<in> set ts"
    then have "task_id u \<noteq> task_id t" using Cons.prems(2) by (auto simp: rev_image_eqI)
    then show "task_ok u \<and> task_status u = T_PENDING \<and> dict_get (sim_tasks ?s) (task_id u) = None \<and>
      check_endpoints (sim_warehouse ?s) [pickup_location u, dropoff_location u] = Inr ()"
      using Cons.prems(3) u unfolding tasks by auto
  qed
  from Cons.IH [OF reach _ this] Cons.prems(2) show ?case using add tasks by auto
qed simp

lemma sample_simulator_built:
  assumes "in_range draw"
  shows "\<exists>s. build_sample_simulator draw g spill = Inr s \<and> sim_reachable sample_floor s \<and>
    length (sim_robots s) = 4 \<and> length (sim_tasks s) = 4"
proof -
  obtain rs where rs: "build_sample_robots draw ROBOT_START_CELLS g = Inr rs"
    "map (\<lambda>r. (robot_id r, robot_position r)) rs = map (\<lambda>(i, p, _). (i, p)) ROBOT_START_CELLS"
    "\<forall>r \<in> set rs. robot_core_ok r \<and> assigned_task_id r = None"
    using sample_robots_built [OF assms, of ROBOT_START_CELLS g] by (auto simp: ROBOT_START_CELLS_def is_float_def fl_numeral)
  obtain ts where ts: "build_sample_tasks = Inr ts" "map task_id ts = [''T1'', ''T2'', ''T3'', ''T4'']"
    "list_all (\<lambda>t. task_ok t \<and> task_status t = T_PENDING \<and> check_endpoints sample_floor [pickup_location t, dropoff_location t] = Inr ()) ts"
  proof -
    have "case build_sample_tasks of Inl e \<Rightarrow> False | Inr ts \<Rightarrow> map task_id ts = [''T1'', ''T2'', ''T3'', ''T4''] \<and>
      list_all (\<lambda>t. task_ok t \<and> task_status t = T_PENDING \<and> check_endpoints sample_floor [pickup_location t, dropoff_location t] = Inr ()) ts"
      by code_simp
    then show thesis using that by (auto split: sum.splits)
  qed
  have ids: "map robot_id rs = map fst ROBOT_START_CELLS" "map robot_position rs = map (fst \<circ> snd) ROBOT_START_CELLS"
    using arg_cong [OF rs(2), of "map fst"] arg_cong [OF rs(2), of "map snd"] by (auto simp: comp_def split_beta)
  have d: "distinct (map robot_id rs)" "distinct (map robot_position rs)" unfolding ids by code_simp+
  have pos: "is_traversable sample_floor (robot_position r) \<and> robot_position r \<noteq> SPILL_POSITION" if "r \<in> set rs" for r
  proof -
    have "robot_position r \<in> set (map (fst \<circ> snd) ROBOT_START_CELLS)" using that unfolding ids(2) [symmetric] by simp
    then show ?thesis unfolding sample_floor_traversable by (auto simp: ROBOT_START_CELLS_def RACK_ROWS_def SPILL_POSITION_def)
  qed
  obtain s1 where s1: "res_fold add_robot rs (sim_init sample_floor) = Inr s1" "sim_reachable sample_floor s1"
    "sim_warehouse s1 = sample_floor" "sim_tasks s1 = []" "sim_robots s1 = map (\<lambda>r. (robot_id r, r)) rs"
    using add_robots_ok [OF reach_init d, of sample_floor] rs(3) pos
    by (auto simp: sim_init_def robot_at_def)
  obtain s2 where s2: "res_fold add_task ts s1 = Inr s2" "sim_reachable sample_floor s2" "sim_warehouse s2 = sample_floor"
    "sim_robots s2 = sim_robots s1" "sim_tasks s2 = map (\<lambda>t. (task_id t, t)) ts"
    using add_tasks_ok [OF s1(2), of ts] ts(2,3) s1(3,4) by (auto simp: list_all_iff)
  have len: "length rs = 4" "length ts = 4" using arg_cong [OF ids(1), of length] arg_cong [OF ts(2), of length]
    by (simp_all add: ROBOT_START_CELLS_def)
  show ?thesis
  proof (cases spill)
    case False
    then have "build_sample_simulator draw g spill = Inr s2"
      unfolding build_sample_simulator_def sample_floor_built rs(1) ts(1) res_bind_simps s1(1) s2(1) by simp
    then show ?thesis using s1(5) s2 len by simp
  next
    case True
    have "robot_at s2 SPILL_POSITION = None" using pos unfolding nobody_at s2(4) s1(5) by auto
    moreover have "map_sum id (\<lambda>x. ()) (add_dynamic_obstacle SPILL_OBSTACLE_ID SPILL_POSITION
        ''liquid spill, cleaning crew notified'' sample_floor) = Inr ()" by code_simp
    ultimately obtain ob s3 where s3: "sim_add_dynamic_obstacle SPILL_OBSTACLE_ID SPILL_POSITION
        ''liquid spill, cleaning crew notified'' s2 = Inr (ob, s3)"
      using s2(3) by (cases "add_dynamic_obstacle SPILL_OBSTACLE_ID SPILL_POSITION ''liquid spill, cleaning crew notified'' sample_floor")
        (auto simp: sim_add_dynamic_obstacle_def)
    then have "sim_robots s3 = sim_robots s2" "sim_tasks s3 = sim_tasks s2"
      by (auto simp: sim_add_dynamic_obstacle_def res_bind_Inr split: if_splits)
    moreover have "build_sample_simulator draw g spill = Inr s3"
      unfolding build_sample_simulator_def sample_floor_built rs(1) ts(1) res_bind_simps s1(1) s2(1) s3 using True by simp
    ultimately show ?thesis using s1(5) s2 len reach_step [OF s2(2) step_add_obstacle [OF s3]] by simp
  qed
qed

section \<open>Properties\<close>

text \<open>
  The sample scenario always builds, whatever battery levels are drawn from the range asked
  for, with or without the spill: four robots and four tasks on the sample floor, in a state that
  the simulator's operations reach, and so without a collision or a broken assignment.
\<close>

theorem sample_scenario_consistent:
  assumes "in_range draw"
  shows "\<exists>s. build_sample_simulator draw g spill = Inr s \<and> sim_reachable sample_floor s \<and> sim_ok s \<and> links_ok s \<and>
    length (sim_robots s) = 4 \<and> length (sim_tasks s) = 4"
  using sample_simulator_built [OF assms, of g spill] sim_reachable_ok [OF _ sample_floor_ok] by blast

lemma sample_scenario_consistent_witness:
  "\<exists>s. build_sample_simulator (\<lambda>a b g. (min b (a + int g), g + 7)) (3 :: nat) True = Inr s \<and> sim_ok s"
proof -
  have "in_range (\<lambda>a b g. (min b (a + int g), g + 7 :: nat))" by (simp add: in_range_def)
  from sample_scenario_consistent [OF this, of 3 True] show ?thesis by blast
qed

text \<open>
  No cell of the sample floor is walled off: between any two cells that are not racks there
  is a route.
\<close>

theorem sample_floor_connected:
  assumes "is_traversable sample_floor a" "is_traversable sample_floor b"
  shows "\<exists>path. is_route sample_floor a b path"
  using sample_floor_routes [OF assms] .

lemma sample_floor_connected_witness: "\<exists>path. is_route sample_floor (Position 2 4) (Position 11 1) path"
  by (rule sample_floor_connected; unfold sample_floor_traversable; code_simp)

end
