(* ===== verification/World.thy ===== *)
theory World
  imports Store Scenario
begin

text \<open>
  From rows and requests to the objects the algorithms work on (\<open>services/world.py\<close>): the floor
  of a request, the robot and the task of a row, and the simulator that holds them.
\<close>

section \<open>The floor of a request\<close>

text \<open>The loop over \<open>enumerate(static_obstacles)\<close>, with the index as an argument.\<close>

fun add_obstacles :: "nat \<Rightarrow> position list \<Rightarrow> warehouse \<Rightarrow> service_error + warehouse" where
  "add_obstacles index [] w = Inr w"
| "add_obstacles index (cell # cells) w =
     (if \<not> in_bounds w cell then Inl Validation_Failed
      else res_bind (lift_error (add_static_obstacle (''obstacle-'' @ str_int (int index)) cell ''api static obstacle'' w))
        (\<lambda>(ob, w'). add_obstacles (Suc index) cells w'))"

definition build_warehouse :: "int option \<Rightarrow> int option \<Rightarrow> position list option \<Rightarrow> service_error + warehouse" where
  "build_warehouse width height obstacle_cells =
     (let cells = (case obstacle_cells of None \<Rightarrow> [] | Some cs \<Rightarrow> cs) in
      if width = None \<and> height = None \<and> cells = [] then lift_error build_sample_warehouse
      else (case (width, height) of
          (Some wd, Some ht) \<Rightarrow>
            if wd \<le> 0 \<or> ht \<le> 0 then Inl Validation_Failed
            else res_bind (lift_error (warehouse_init wd ht ''api-warehouse'')) (add_obstacles 0 cells)
        | _ \<Rightarrow> Inl Validation_Failed))"

section \<open>Domain objects of rows\<close>

definition robot_from_record :: "robot_record \<Rightarrow> service_error + robot" where
  "robot_from_record r = (case robot_status_of (rec_status r) of
       None \<Rightarrow> Inl Validation_Failed
     | Some status \<Rightarrow> reject_value (robot_post_init ((robot_default (rec_robot_id r) (Position (rec_row r) (rec_col r)))
         \<lparr>battery_level := rec_battery_level r, payload_capacity := rec_payload_capacity r,
          current_payload := rec_current_payload r, robot_status := status, assigned_task_id := rec_assigned_task_id r\<rparr>)))"

definition fresh_task :: "string \<Rightarrow> position \<Rightarrow> position \<Rightarrow> task_priority \<Rightarrow> pyfloat \<Rightarrow> task" where
  "fresh_task i a b pr weight = \<lparr>task_id = i, pickup_location = a, dropoff_location = b, priority = pr,
     payload_weight = weight, task_status = T_PENDING, assigned_robot_id = None, failure_reason = None\<rparr>"

definition task_from_record :: "task_record \<Rightarrow> service_error + task" where
  "task_from_record t = (case priority_named (str_upper (rec_priority t)) of
       None \<Rightarrow> Inl Validation_Failed
     | Some pr \<Rightarrow> (case task_status_of (rec_task_status t) of
           None \<Rightarrow> Inl Validation_Failed
         | Some status \<Rightarrow>
             res_bind (reject_value (task_post_init (fresh_task (rec_task_id t)
                 (Position (rec_pickup_row t) (rec_pickup_col t)) (Position (rec_dropoff_row t) (rec_dropoff_col t))
                 pr (rec_payload_weight t))))
               (\<lambda>u. Inr (u\<lparr>task_status := status, assigned_robot_id := rec_assigned_robot_id t,
                          failure_reason := rec_failure_reason t\<rparr>))))"

definition build_simulator :: "warehouse \<Rightarrow> robot list \<Rightarrow> task list \<Rightarrow> service_error + simulator" where
  "build_simulator w robots tasks =
     res_bind (reject_robotics (res_fold add_robot robots (sim_init w))) (\<lambda>s.
       reject_robotics (res_fold add_task tasks s))"

end
