(* ===== verification/Fleet_Service.thy ===== *)
theory Fleet_Service
  imports World
begin

text \<open>
  Managing the persisted fleet (\<open>services/robot_service.py\<close>, \<open>services/task_service.py\<close>). A method
  takes the store and returns its outcome beside the store as the method leaves it; a row that
  was changed before an exception is changed in that store, and \<open>in_transaction\<close> takes it back.
\<close>

text \<open>The services' own floor: the default profile.\<close>

definition default_floor :: "service_error + warehouse" where
  "default_floor = build_warehouse None None None"

section \<open>Robots\<close>

definition list_robots :: "string option \<Rightarrow> store \<Rightarrow> service_error + robot_record list" where
  "list_robots status db = (case status of
       None \<Rightarrow> Inr (list_robot_rows None db)
     | Some v \<Rightarrow> if robot_status_of v = None then Inl Validation_Failed else Inr (list_robot_rows (Some v) db))"

definition find_robot :: "string \<Rightarrow> store \<Rightarrow> service_error + robot_record" where
  "find_robot rid db = (case dict_get (robots_table db) rid of None \<Rightarrow> Inl Resource_Not_Found | Some r \<Rightarrow> Inr r)"

definition delete_robot :: "string \<Rightarrow> store \<Rightarrow> (service_error + unit) \<times> store" where
  "delete_robot rid db = (case find_robot rid db of Inl e \<Rightarrow> (Inl e, db) | Inr r \<Rightarrow> (Inr (), delete_robot_row rid db))"

definition as_domain ::
  "string \<Rightarrow> position \<Rightarrow> pyfloat \<Rightarrow> pyfloat \<Rightarrow> pyfloat \<Rightarrow> string \<Rightarrow> service_error + robot" where
  "as_domain rid p battery capacity payload status = (case robot_status_of status of
       None \<Rightarrow> Inl Validation_Failed
     | Some st \<Rightarrow> reject_value (robot_post_init ((robot_default rid p)
         \<lparr>battery_level := battery, payload_capacity := capacity, current_payload := payload, robot_status := st\<rparr>)))"

definition require_placeable :: "position \<Rightarrow> string option \<Rightarrow> store \<Rightarrow> service_error + unit" where
  "require_placeable p ignored db = res_bind default_floor (\<lambda>w.
     if \<not> in_bounds w p then Inl Validation_Failed
     else if \<not> is_traversable w p then Inl Validation_Failed
     else if list_ex (\<lambda>r. Some (rec_robot_id r) \<noteq> ignored \<and> (rec_row r, rec_col r) = (row p, col p)) (list_robot_rows None db)
       then Inl Resource_Conflict
     else Inr ())"

definition create_robot ::
  "string \<Rightarrow> int \<Rightarrow> int \<Rightarrow> pyfloat \<Rightarrow> pyfloat \<Rightarrow> pyfloat \<Rightarrow> string \<Rightarrow> store \<Rightarrow> (service_error + robot_record) \<times> store" where
  "create_robot rid r c battery capacity payload status db =
     (if dict_get (robots_table db) rid \<noteq> None then (Inl Resource_Conflict, db)
      else case res_bind (require_placeable (Position r c) None db) (\<lambda>_.
               as_domain rid (Position r c) battery capacity payload status) of
          Inl e \<Rightarrow> (Inl e, db)
        | Inr _ \<Rightarrow>
            let record = \<lparr>rec_robot_id = rid, rec_row = r, rec_col = c, rec_battery_level = battery,
                  rec_payload_capacity = capacity, rec_current_payload = payload, rec_status = status,
                  rec_assigned_task_id = None\<rparr>
            in (Inr record, put_robot_row record db))"

text \<open>The keyword arguments of \<open>update_robot\<close>; \<open>None\<close> leaves a column as it is.\<close>

record robot_patch =
  new_row :: "int option"
  new_col :: "int option"
  new_battery_level :: "pyfloat option"
  new_payload_capacity :: "pyfloat option"
  new_current_payload :: "pyfloat option"
  new_status :: "string option"
  new_assigned_task_id :: "string option"
  clear_assigned_task :: bool

definition or_else :: "'a option \<Rightarrow> 'a \<Rightarrow> 'a" where
  "or_else x y = (case x of None \<Rightarrow> y | Some v \<Rightarrow> v)"

definition patched :: "robot_patch \<Rightarrow> robot_record \<Rightarrow> robot_record" where
  "patched p r = r\<lparr>rec_row := or_else (new_row p) (rec_row r), rec_col := or_else (new_col p) (rec_col r),
     rec_battery_level := or_else (new_battery_level p) (rec_battery_level r),
     rec_payload_capacity := or_else (new_payload_capacity p) (rec_payload_capacity r),
     rec_current_payload := or_else (new_current_payload p) (rec_current_payload r),
     rec_status := or_else (new_status p) (rec_status r),
     rec_assigned_task_id := (if clear_assigned_task p then None
       else case new_assigned_task_id p of None \<Rightarrow> rec_assigned_task_id r | Some tid \<Rightarrow> Some tid)\<rparr>"

definition update_robot :: "string \<Rightarrow> robot_patch \<Rightarrow> store \<Rightarrow> (service_error + robot_record) \<times> store" where
  "update_robot rid p db = (case find_robot rid db of
       Inl e \<Rightarrow> (Inl e, db)
     | Inr r \<Rightarrow>
         let r1 = patched p r; cell = Position (rec_row r1) (rec_col r1) in
         (case res_bind (if (rec_row r1, rec_col r1) \<noteq> (rec_row r, rec_col r) then require_placeable cell (Some rid) db
                         else Inr ()) (\<lambda>_.
                as_domain rid cell (rec_battery_level r1) (rec_payload_capacity r1) (rec_current_payload r1) (rec_status r1)) of
            Inl e \<Rightarrow> (Inl e, db)
          | Inr _ \<Rightarrow> (Inr r1, put_robot_row r1 db)))"

section \<open>Tasks\<close>

definition list_tasks :: "string option \<Rightarrow> store \<Rightarrow> service_error + task_record list" where
  "list_tasks status db = (case status of
       None \<Rightarrow> Inr (list_task_rows None db)
     | Some v \<Rightarrow> if task_status_of v = None then Inl Validation_Failed else Inr (list_task_rows (Some v) db))"

definition find_task :: "string \<Rightarrow> store \<Rightarrow> service_error + task_record" where
  "find_task tid db = (case dict_get (tasks_table db) tid of None \<Rightarrow> Inl Resource_Not_Found | Some t \<Rightarrow> Inr t)"

definition delete_task :: "string \<Rightarrow> store \<Rightarrow> (service_error + unit) \<times> store" where
  "delete_task tid db = (case find_task tid db of Inl e \<Rightarrow> (Inl e, db) | Inr t \<Rightarrow> (Inr (), delete_task_row tid db))"

definition require_reachable_endpoint :: "position \<Rightarrow> service_error + unit" where
  "require_reachable_endpoint cell = res_bind default_floor (\<lambda>w.
     if \<not> in_bounds w cell then Inl Validation_Failed
     else if is_blocked_by_static w cell then Inl Validation_Failed
     else Inr ())"

definition create_task ::
  "string \<Rightarrow> int \<Rightarrow> int \<Rightarrow> int \<Rightarrow> int \<Rightarrow> string \<Rightarrow> pyfloat \<Rightarrow> store \<Rightarrow> (service_error + task_record) \<times> store" where
  "create_task tid pr pc dr dc prio weight db =
     (if dict_get (tasks_table db) tid \<noteq> None then (Inl Resource_Conflict, db)
      else case res_bind (require_reachable_endpoint (Position pr pc)) (\<lambda>_.
             res_bind (require_reachable_endpoint (Position dr dc)) (\<lambda>_.
             case priority_named (str_upper prio) of
               None \<Rightarrow> Inl Validation_Failed
             | Some p \<Rightarrow> res_bind (reject_value (task_post_init (fresh_task tid (Position pr pc) (Position dr dc) p weight))) (\<lambda>_. Inr p))) of
          Inl e \<Rightarrow> (Inl e, db)
        | Inr p \<Rightarrow>
            let record = \<lparr>rec_task_id = tid, rec_pickup_row = pr, rec_pickup_col = pc, rec_dropoff_row = dr, rec_dropoff_col = dc,
                  rec_priority = str_lower (priority_name p), rec_payload_weight = weight, rec_task_status = ''pending'',
                  rec_assigned_robot_id = None, rec_failure_reason = None\<rparr>
            in (Inr record, put_task_row record db))"

definition require_robot_exists :: "string \<Rightarrow> store \<Rightarrow> service_error + unit" where
  "require_robot_exists rid db = (if dict_get (robots_table db) rid = None then Inl Validation_Failed else Inr ())"

definition conflict_of :: "py_error + 'a \<Rightarrow> service_error + 'a" where
  "conflict_of x = (case x of Inl e \<Rightarrow> Inl (if e = TaskError then Resource_Conflict else Unexpected e) | Inr a \<Rightarrow> Inr a)"

text \<open>The task after the transition that the request names.\<close>

definition transitioned ::
  "task_status \<Rightarrow> string option \<Rightarrow> string option \<Rightarrow> store \<Rightarrow> task \<Rightarrow> service_error + task" where
  "transitioned target robot reason db t = (case target of
       T_ASSIGNED \<Rightarrow>
         (if robot \<in> {None, Some []} then Inl Validation_Failed
          else res_bind (require_robot_exists (the robot) db) (\<lambda>_. conflict_of (assign_to (the robot) t)))
     | T_PENDING \<Rightarrow> conflict_of (unassign t)
     | T_IN_PROGRESS \<Rightarrow> conflict_of (start_task t)
     | T_COMPLETED \<Rightarrow> conflict_of (complete_task t)
     | T_FAILED \<Rightarrow> conflict_of (fail_task (Fail_Text (if reason \<in> {None, Some []} then ''failed via API'' else the reason)) t))"

definition apply_transition ::
  "task_record \<Rightarrow> string \<Rightarrow> string option \<Rightarrow> string option \<Rightarrow> store \<Rightarrow> service_error + task_record" where
  "apply_transition rec target_status robot reason db = (case task_status_of target_status of
       None \<Rightarrow> Inl Validation_Failed
     | Some target \<Rightarrow> (case task_status_of (rec_task_status rec) of
           None \<Rightarrow> Inl (Unexpected ValueError)
         | Some current \<Rightarrow>
             if target = current then Inr rec
             else res_bind (task_from_record rec) (\<lambda>t. res_bind (transitioned target robot reason db t) (\<lambda>t1.
               Inr (rec\<lparr>rec_task_status := task_status_value (task_status t1), rec_assigned_robot_id := assigned_robot_id t1,
                        rec_failure_reason := failure_reason t1\<rparr>)))))"

record task_patch =
  to_status :: "string option"
  to_robot :: "string option"
  to_priority :: "string option"
  to_payload_weight :: "pyfloat option"
  to_failure_reason :: "string option"

text \<open>The edit of priority and weight: the row may already be changed when the weight is refused.\<close>

definition edit_fields :: "task_patch \<Rightarrow> task_record \<Rightarrow> (service_error + unit) \<times> task_record" where
  "edit_fields p t =
     (if to_priority p = None \<and> to_payload_weight p = None then (Inr (), t)
      else if rec_task_status t \<noteq> ''pending'' then (Inl Resource_Conflict, t)
      else case (case to_priority p of None \<Rightarrow> Inr t
                 | Some v \<Rightarrow> (case priority_named (str_upper v) of None \<Rightarrow> Inl Validation_Failed
                     | Some pr \<Rightarrow> Inr (t\<lparr>rec_priority := str_lower (priority_name pr)\<rparr>))) of
          Inl e \<Rightarrow> (Inl e, t)
        | Inr t1 \<Rightarrow> (case to_payload_weight p of None \<Rightarrow> (Inr (), t1)
            | Some weight \<Rightarrow> if weight \<le> 0 then (Inl Validation_Failed, t1)
                else (Inr (), t1\<lparr>rec_payload_weight := weight\<rparr>)))"

definition update_task :: "string \<Rightarrow> task_patch \<Rightarrow> store \<Rightarrow> (service_error + task_record) \<times> store" where
  "update_task tid p db = (case find_task tid db of
       Inl e \<Rightarrow> (Inl e, db)
     | Inr t \<Rightarrow>
         (case edit_fields p t of
            (Inl e, t1) \<Rightarrow> (Inl e, put_task_row t1 db)
          | (Inr _, t1) \<Rightarrow>
              (case (case to_status p of
                       Some status \<Rightarrow> apply_transition t1 status (to_robot p) (to_failure_reason p) db
                     | None \<Rightarrow> (case to_robot p of
                           None \<Rightarrow> Inr t1
                         | Some rid \<Rightarrow> if rec_task_status t1 = ''assigned''
                             then res_bind (require_robot_exists rid db) (\<lambda>_. Inr (t1\<lparr>rec_assigned_robot_id := Some rid\<rparr>))
                             else Inr t1)) of
                 Inl e \<Rightarrow> (Inl e, put_task_row t1 db)
               | Inr t2 \<Rightarrow> (Inr t2, put_task_row t2 db))))"

end
