(* ===== verification/Fleet_Store.thy ===== *)
theory Fleet_Store
  imports Fleet_Service
begin

text \<open>
  The invariant of the persisted fleet, and that every request on robots and tasks keeps it: the
  rows that the service layer lets in convert to valid domain objects, robots stand on free cells
  of their own, tasks start and end on the floor, and a task names a robot that has a row.
\<close>

section \<open>Names round-trip\<close>

lemma robot_status_of_value [simp]: "robot_status_of (robot_status_value s) = Some s"
  by (cases s) (simp_all add: robot_status_of_def)

lemma task_status_of_value [simp]: "task_status_of (task_status_value s) = Some s"
  by (cases s) (simp_all add: task_status_of_def)

lemma priority_named_value [simp]: "priority_named (str_upper (str_lower (priority_name p))) = Some p"
  by (cases p, simp_all only:) code_simp+

lemma status_names [simp]:
  "robot_status_of ''idle'' = Some R_IDLE" "robot_status_of ''assigned'' = Some R_ASSIGNED" "robot_status_of ''offline'' = Some R_OFFLINE"
  "task_status_of ''pending'' = Some T_PENDING" "task_status_of ''assigned'' = Some T_ASSIGNED"
  by (simp_all add: robot_status_of_def task_status_of_def)

lemma task_status_of_Some: "task_status_of v = Some s \<Longrightarrow> v = task_status_value s"
  by (auto simp: task_status_of_def split: if_splits)

section \<open>What a stored row satisfies\<close>

definition robot_row_ok :: "robot_record \<Rightarrow> bool" where
  [inv_defs]: "robot_row_ok r \<longleftrightarrow> rec_robot_id r \<noteq> [] \<and> 0 \<le> rec_payload_capacity r \<and> 0 \<le> rec_current_payload r \<and>
     rec_current_payload r \<le> rec_payload_capacity r \<and> 0 \<le> rec_battery_level r \<and> rec_battery_level r \<le> 100 \<and>
     is_float (rec_battery_level r) \<and> is_float (rec_payload_capacity r) \<and> is_float (rec_current_payload r) \<and>
     robot_status_of (rec_status r) \<noteq> None"

definition task_row_ok :: "task_record \<Rightarrow> bool" where
  [inv_defs]: "task_row_ok t \<longleftrightarrow> rec_task_id t \<noteq> [] \<and> 0 < rec_payload_weight t \<and>
     (rec_pickup_row t, rec_pickup_col t) \<noteq> (rec_dropoff_row t, rec_dropoff_col t) \<and>
     priority_named (str_upper (rec_priority t)) \<noteq> None \<and> task_status_of (rec_task_status t) \<noteq> None \<and>
     (rec_task_status t = ''pending'' \<longrightarrow> rec_assigned_robot_id t = None)"

definition row_cell :: "robot_record \<Rightarrow> position" where
  "row_cell r = Position (rec_row r) (rec_col r)"

definition reachable_cell :: "position \<Rightarrow> bool" where
  "reachable_cell p \<longleftrightarrow> in_bounds sample_floor p \<and> \<not> is_blocked_by_static sample_floor p"

text \<open>
  The invariant of the store: rows are valid and stored under their keys, robots stand on free
  cells of their own, the endpoints of tasks are on the floor, foreign keys refer to rows.
\<close>

definition robots_table_ok :: "(string, robot_record) dict \<Rightarrow> bool" where
  [inv_defs]: "robots_table_ok d \<longleftrightarrow> dict_ok d \<and>
     (\<forall>i r. dict_get d i = Some r \<longrightarrow> rec_robot_id r = i \<and> robot_row_ok r \<and> is_traversable sample_floor (row_cell r)) \<and>
     (\<forall>i j r q. dict_get d i = Some r \<longrightarrow> dict_get d j = Some q \<longrightarrow> row_cell r = row_cell q \<longrightarrow> i = j)"

definition task_entry_ok :: "(string, robot_record) dict \<Rightarrow> string \<Rightarrow> task_record \<Rightarrow> bool" where
  [inv_defs]: "task_entry_ok rs i t \<longleftrightarrow> rec_task_id t = i \<and> task_row_ok t \<and>
     reachable_cell (Position (rec_pickup_row t) (rec_pickup_col t)) \<and>
     reachable_cell (Position (rec_dropoff_row t) (rec_dropoff_col t)) \<and>
     (\<forall>rid. rec_assigned_robot_id t = Some rid \<longrightarrow> dict_get rs rid \<noteq> None)"

definition tasks_table_ok :: "(string, robot_record) dict \<Rightarrow> (string, task_record) dict \<Rightarrow> bool" where
  [inv_defs]: "tasks_table_ok rs d \<longleftrightarrow> dict_ok d \<and> (\<forall>i t. dict_get d i = Some t \<longrightarrow> task_entry_ok rs i t)"

definition store_ok :: "store \<Rightarrow> bool" where
  [inv_defs]: "store_ok db \<longleftrightarrow> robots_table_ok (robots_table db) \<and> tasks_table_ok (robots_table db) (tasks_table db)"

lemma default_floor_sample [simp]: "default_floor = Inr sample_floor"
  by (simp add: default_floor_def build_warehouse_def sample_floor_built lift_error_def)

text \<open>A valid row converts to the domain object it describes.\<close>

definition domain_robot :: "robot_record \<Rightarrow> robot" where
  "domain_robot r = (robot_default (rec_robot_id r) (row_cell r))
     \<lparr>battery_level := rec_battery_level r, payload_capacity := rec_payload_capacity r,
      current_payload := rec_current_payload r, robot_status := the (robot_status_of (rec_status r)),
      assigned_task_id := rec_assigned_task_id r\<rparr>"

definition domain_task :: "task_record \<Rightarrow> task" where
  "domain_task t = (fresh_task (rec_task_id t) (Position (rec_pickup_row t) (rec_pickup_col t))
       (Position (rec_dropoff_row t) (rec_dropoff_col t)) (the (priority_named (str_upper (rec_priority t)))) (rec_payload_weight t))
     \<lparr>task_status := the (task_status_of (rec_task_status t)), assigned_robot_id := rec_assigned_robot_id t,
      failure_reason := rec_failure_reason t\<rparr>"

lemma robot_from_record_ok:
  assumes "robot_row_ok r"
  shows "robot_from_record r = Inr (domain_robot r)" "robot_core_ok (domain_robot r)"
proof -
  obtain s where s: "robot_status_of (rec_status r) = Some s" using assms by (auto simp: robot_row_ok_def)
  show "robot_core_ok (domain_robot r)" using assms robot_default_ok [of "rec_robot_id r" "row_cell r"]
    by (auto simp: robot_row_ok_def domain_robot_def robot_core_ok_def robot_ok_def MIN_BATTERY_def MAX_BATTERY_def)
  then have "robot_post_init (domain_robot r) = Inr (domain_robot r)" using assms
    unfolding robot_post_init_Inr by (auto simp: robot_core_ok_def robot_row_ok_def domain_robot_def robot_default_def MIN_BATTERY_def MAX_BATTERY_def)
  then show "robot_from_record r = Inr (domain_robot r)"
    using s by (simp add: robot_from_record_def domain_robot_def row_cell_def reject_value_def)
qed

lemma task_from_record_ok:
  assumes "task_row_ok t"
  shows "task_from_record t = Inr (domain_task t)"
  using assms by (auto simp: task_row_ok_def task_from_record_def domain_task_def task_post_init_def fresh_task_def reject_value_def)

lemma as_domain_row:
  assumes "as_domain (rec_robot_id r) (row_cell r) (rec_battery_level r) (rec_payload_capacity r) (rec_current_payload r) (rec_status r) = Inr x"
    "is_float (rec_battery_level r)" "is_float (rec_payload_capacity r)" "is_float (rec_current_payload r)"
  shows "robot_row_ok r"
  using assms by (auto simp: as_domain_def robot_row_ok_def reject_value_def robot_post_init_Inr robot_default_def
      split: option.splits sum.splits)

lemma list_robot_rows_mem: "robots_table_ok (robots_table db) \<Longrightarrow>
  r \<in> set (list_robot_rows None db) \<longleftrightarrow> dict_get (robots_table db) (rec_robot_id r) = Some r"
proof -
  assume ok: "robots_table_ok (robots_table db)"
  have "r \<in> set (list_robot_rows None db) \<longleftrightarrow> (\<exists>i. (i, r) \<in> set (robots_table db))"
    by (force simp: list_robot_rows_def)
  then show ?thesis using ok dict_get_Some_iff unfolding robots_table_ok_def by metis
qed

lemma require_placeable_Inr:
  assumes "robots_table_ok (robots_table db)" "require_placeable p ignored db = Inr u"
  shows "is_traversable sample_floor p"
    "dict_get (robots_table db) i = Some r \<Longrightarrow> row_cell r = p \<Longrightarrow> Some i = ignored"
proof -
  show "is_traversable sample_floor p" using assms(2) by (auto simp: require_placeable_def split: if_splits)
  assume r: "dict_get (robots_table db) i = Some r" "row_cell r = p"
  then have "rec_robot_id r = i" using assms(1) by (auto simp: robots_table_ok_def)
  then have "r \<in> set (list_robot_rows None db)" using r(1) list_robot_rows_mem [OF assms(1)] by simp
  then show "Some i = ignored" using assms(2) r(2) \<open>rec_robot_id r = i\<close>
    by (auto simp: require_placeable_def row_cell_def list_ex_iff split: if_splits)
qed

lemma robots_table_put:
  assumes "robots_table_ok d" "robot_row_ok r" "is_traversable sample_floor (row_cell r)"
    "\<And>j q. dict_get d j = Some q \<Longrightarrow> row_cell q = row_cell r \<Longrightarrow> j = rec_robot_id r"
  shows "robots_table_ok (dict_set (rec_robot_id r) r d)"
  unfolding robots_table_ok_def
proof (intro conjI allI impI)
  show "dict_ok (dict_set (rec_robot_id r) r d)" using assms(1) by (simp add: robots_table_ok_def)
next
  fix i q assume "dict_get (dict_set (rec_robot_id r) r d) i = Some q"
  then show "rec_robot_id q = i" "robot_row_ok q" "is_traversable sample_floor (row_cell q)"
    using assms(1-3) by (auto simp: robots_table_ok_def split: if_splits)
next
  fix i j q q' assume a: "dict_get (dict_set (rec_robot_id r) r d) i = Some q" "dict_get (dict_set (rec_robot_id r) r d) j = Some q'"
    "row_cell q = row_cell q'"
  have "i = j" if "i \<noteq> rec_robot_id r" "j \<noteq> rec_robot_id r" using assms(1) a that unfolding robots_table_ok_def by auto
  then show "i = j" using a assms(4) [of i q] assms(4) [of j q'] by (auto split: if_splits)
qed

lemma tasks_table_robots:
  assumes "tasks_table_ok rs d" "\<And>i. dict_get rs i \<noteq> None \<Longrightarrow> dict_get rs' i \<noteq> None"
  shows "tasks_table_ok rs' d"
  using assms unfolding tasks_table_ok_def task_entry_ok_def by blast

section \<open>Every request on robots keeps the invariant\<close>

lemma create_robot_ok:
  assumes "store_ok db" "is_float battery" "is_float capacity" "is_float payload"
  shows "store_ok (snd (create_robot rid r c battery capacity payload status db))"
proof (cases "fst (create_robot rid r c battery capacity payload status db)")
  case (Inl e)
  then show ?thesis using assms(1) by (auto simp: create_robot_def Let_def split: if_splits sum.splits)
next
  case (Inr row)
  have R: "robots_table_ok (robots_table db)" using assms(1) by (simp add: store_ok_def)
  obtain x where new: "dict_get (robots_table db) rid = None" "require_placeable (Position r c) None db = Inr ()"
    "as_domain rid (Position r c) battery capacity payload status = Inr x"
    and row: "row = \<lparr>rec_robot_id = rid, rec_row = r, rec_col = c, rec_battery_level = battery,
                  rec_payload_capacity = capacity, rec_current_payload = payload, rec_status = status, rec_assigned_task_id = None\<rparr>"
    and db: "snd (create_robot rid r c battery capacity payload status db) = put_robot_row row db"
    using Inr by (auto simp: create_robot_def Let_def res_bind_Inr split: if_splits sum.splits)
  have cell: "row_cell row = Position r c" by (simp add: row row_cell_def)
  have "robot_row_ok row" by (rule as_domain_row [of _ x]) (use new(3) assms(2-4) in \<open>simp_all add: row row_cell_def\<close>)
  moreover note P = require_placeable_Inr [OF R new(2)]
  ultimately have "robots_table_ok (dict_set (rec_robot_id row) row (robots_table db))"
    using R P by (intro robots_table_put) (auto simp: cell)
  moreover have "tasks_table_ok (dict_set (rec_robot_id row) row (robots_table db)) (tasks_table db)"
    by (rule tasks_table_robots [of "robots_table db"]) (use assms(1) in \<open>auto simp: store_ok_def\<close>)
  ultimately show ?thesis unfolding db by (simp add: store_ok_def put_robot_row_def)
qed

definition floats_only :: "robot_patch \<Rightarrow> bool" where
  "floats_only p \<longleftrightarrow> pred_option is_float (new_battery_level p) \<and> pred_option is_float (new_payload_capacity p) \<and>
     pred_option is_float (new_current_payload p)"

lemma update_robot_ok:
  assumes "store_ok db" "floats_only p"
  shows "store_ok (snd (update_robot rid p db))"
proof (cases "fst (update_robot rid p db)")
  case (Inl e)
  then show ?thesis using assms(1) by (auto simp: update_robot_def Let_def split: if_splits sum.splits)
next
  case (Inr row)
  have R: "robots_table_ok (robots_table db)" using assms(1) by (simp add: store_ok_def)
  obtain old where old: "dict_get (robots_table db) rid = Some old"
    using Inr by (cases "dict_get (robots_table db) rid") (auto simp: update_robot_def find_robot_def)
  let ?new = "patched p old"
  define place where "place = (if (rec_row ?new, rec_col ?new) \<noteq> (rec_row old, rec_col old)
    then require_placeable (row_cell ?new) (Some rid) db else Inr ())"
  define dom where "dom = as_domain rid (row_cell ?new) (rec_battery_level ?new) (rec_payload_capacity ?new)
    (rec_current_payload ?new) (rec_status ?new)"
  have run: "update_robot rid p db = (case res_bind place (\<lambda>_. dom) of Inl e \<Rightarrow> (Inl e, db) | Inr _ \<Rightarrow> (Inr ?new, put_robot_row ?new db))"
    by (simp add: update_robot_def find_robot_def old place_def dom_def row_cell_def Let_def)
  obtain x where x: "place = Inr ()" "dom = Inr x"
    using Inr unfolding run by (cases place; cases dom; simp)
  have row: "row = ?new" and db: "snd (update_robot rid p db) = put_robot_row row db"
    using Inr unfolding run x by simp_all
  have o: "rec_robot_id old = rid" "robot_row_ok old" "is_traversable sample_floor (row_cell old)"
    using R old by (auto simp: robots_table_ok_def)
  have id: "rec_robot_id row = rid" by (simp add: row patched_def o)
  have "robot_row_ok row"
    by (rule as_domain_row [of _ x]) (use x(2) id assms(2) o(2) in \<open>auto simp: dom_def row patched_def or_else_def robot_row_ok_def floats_only_def split: option.splits\<close>)
  moreover have "is_traversable sample_floor (row_cell row) \<and> (\<forall>j q. dict_get (robots_table db) j = Some q \<longrightarrow> row_cell q = row_cell row \<longrightarrow> j = rid)"
  proof (cases "row_cell row = row_cell old")
    case True
    then show ?thesis using o(3) R old unfolding robots_table_ok_def by auto
  next
    case False
    then have "require_placeable (row_cell row) (Some rid) db = Inr ()" using x(1) by (auto simp: place_def row row_cell_def)
    from require_placeable_Inr [OF R this] show ?thesis by blast
  qed
  ultimately have "robots_table_ok (dict_set (rec_robot_id row) row (robots_table db))"
    using R by (intro robots_table_put) (auto simp: id)
  moreover have "tasks_table_ok (dict_set (rec_robot_id row) row (robots_table db)) (tasks_table db)"
    by (rule tasks_table_robots [of "robots_table db"]) (use assms(1) in \<open>auto simp: store_ok_def\<close>)
  ultimately show ?thesis unfolding db by (simp add: store_ok_def put_robot_row_def)
qed

lemma delete_robot_ok:
  assumes "store_ok db"
  shows "store_ok (snd (delete_robot rid db))"
proof -
  have "robots_table_ok (dict_del rid (robots_table db))"
    using assms unfolding store_ok_def robots_table_ok_def by (auto split: if_splits)
  moreover have "tasks_table_ok (dict_del rid (robots_table db)) (tasks_table (delete_robot_row rid db))"
  proof -
    let ?f = "\<lambda>t. if rec_assigned_robot_id t = Some rid then t\<lparr>rec_assigned_robot_id := None\<rparr> else t"
    have keys: "dict_keys (tasks_table (delete_robot_row rid db)) = dict_keys (tasks_table db)"
      by (simp add: delete_robot_row_def comp_def split_beta)
    have get: "dict_get (tasks_table (delete_robot_row rid db)) i = map_option ?f (dict_get (tasks_table db) i)" for i
      by (simp add: delete_robot_row_def map_of_map)
    show ?thesis unfolding tasks_table_ok_def
    proof (intro conjI allI impI)
      show "dict_ok (tasks_table (delete_robot_row rid db))"
        using assms unfolding store_ok_def tasks_table_ok_def dict_ok_def keys by simp
    next
      fix i t assume "dict_get (tasks_table (delete_robot_row rid db)) i = Some t"
      then obtain u where u: "dict_get (tasks_table db) i = Some u" "t = ?f u" unfolding get by auto
      have ok: "task_entry_ok (robots_table db) i u" using assms u(1) by (simp add: store_ok_def tasks_table_ok_def)
      show "task_entry_ok (dict_del rid (robots_table db)) i t"
      proof (cases "rec_assigned_robot_id u = Some rid")
        case True
        then show ?thesis using ok u(2) by (auto simp: task_entry_ok_def task_row_ok_def)
      next
        case False
        then show ?thesis using ok u(2) by (auto simp: task_entry_ok_def)
      qed
    qed
  qed
  ultimately have "store_ok (delete_robot_row rid db)" by (simp add: store_ok_def delete_robot_row_def)
  then show ?thesis using assms by (simp add: delete_robot_def split: sum.split)
qed


section \<open>Every request on tasks keeps the invariant\<close>

lemma tasks_table_put:
  assumes "store_ok db" "task_entry_ok (robots_table db) (rec_task_id t) t"
  shows "store_ok (put_task_row t db)"
  using assms by (simp add: store_ok_def tasks_table_ok_def put_task_row_def)

lemma delete_task_ok:
  assumes "store_ok db"
  shows "store_ok (snd (delete_task tid db))"
  using assms by (auto simp: delete_task_def delete_task_row_def store_ok_def tasks_table_ok_def split: sum.split)

lemma reachable_endpoint_Inr: "require_reachable_endpoint p = Inr u \<Longrightarrow> reachable_cell p"
  by (auto simp: require_reachable_endpoint_def reachable_cell_def split: if_splits)

lemma task_post_init_Inr: "task_post_init (fresh_task i a b pr w) = Inr t \<Longrightarrow> i \<noteq> [] \<and> a \<noteq> b \<and> 0 < w"
  by (auto simp: task_post_init_def fresh_task_def split: if_splits)

lemma create_task_ok:
  assumes "store_ok db"
  shows "store_ok (snd (create_task tid pr pc dr dc prio weight db))"
proof (cases "fst (create_task tid pr pc dr dc prio weight db)")
  case (Inl e)
  then show ?thesis using assms by (auto simp: create_task_def Let_def split: if_splits sum.splits)
next
  case (Inr t)
  then obtain p u where p: "require_reachable_endpoint (Position pr pc) = Inr ()" "require_reachable_endpoint (Position dr dc) = Inr ()"
    "task_post_init (fresh_task tid (Position pr pc) (Position dr dc) p weight) = Inr u"
    and t: "t = \<lparr>rec_task_id = tid, rec_pickup_row = pr, rec_pickup_col = pc, rec_dropoff_row = dr, rec_dropoff_col = dc,
        rec_priority = str_lower (priority_name p), rec_payload_weight = weight, rec_task_status = ''pending'',
        rec_assigned_robot_id = None, rec_failure_reason = None\<rparr>"
    and db: "snd (create_task tid pr pc dr dc prio weight db) = put_task_row t db"
    by (auto simp: create_task_def Let_def res_bind_Inr reject_value_def split: if_splits sum.splits option.splits)
  have "task_status_of ''pending'' \<noteq> None" by (simp add: task_status_of_def)
  then have "task_entry_ok (robots_table db) (rec_task_id t) t"
    using reachable_endpoint_Inr [OF p(1)] reachable_endpoint_Inr [OF p(2)] task_post_init_Inr [OF p(3)]
    by (auto simp: t task_entry_ok_def task_row_ok_def)
  then show ?thesis unfolding db by (rule tasks_table_put [OF assms])
qed

text \<open>Both outcomes of the edit leave a valid row under its key.\<close>

lemma edit_fields_entry:
  assumes "task_entry_ok rs i t"
  shows "task_entry_ok rs i (snd (edit_fields p t))"
  using assms by (auto simp: edit_fields_def task_entry_ok_def task_row_ok_def split: option.splits sum.splits)

lemma conflict_of_Inr [simp]: "conflict_of x = Inr u \<longleftrightarrow> x = Inr u"
  by (cases x) (simp_all add: conflict_of_def)

lemma require_robot_exists_Inr [simp]: "require_robot_exists r db = Inr u \<longleftrightarrow> dict_get (robots_table db) r \<noteq> None"
  by (simp add: require_robot_exists_def)

text \<open>A transition the service makes is a step of the task's lifecycle, to a robot that has a row.\<close>

lemma transitioned_step:
  assumes "transitioned s robot reason db t = Inr u"
  shows "task_step t u" "task_status u = s"
    "assigned_robot_id u = assigned_robot_id t \<or> assigned_robot_id u = None \<or> dict_get (robots_table db) (the (assigned_robot_id u)) \<noteq> None"
    "s = T_PENDING \<Longrightarrow> assigned_robot_id u = None"
proof -
  consider (assign) "s = T_ASSIGNED" "assign_to (the robot) t = Inr u" "dict_get (robots_table db) (the robot) \<noteq> None"
    | (unassign) "s = T_PENDING" "unassign t = Inr u" | (start) "s = T_IN_PROGRESS" "start_task t = Inr u"
    | (complete) "s = T_COMPLETED" "complete_task t = Inr u" | (fail) why where "s = T_FAILED" "fail_task why t = Inr u"
  proof (cases s)
    case T_ASSIGNED
    with assms have "require_robot_exists (the robot) db = Inr () \<and> assign_to (the robot) t = Inr u"
      by (simp add: transitioned_def res_bind_Inr split: if_splits)
    with T_ASSIGNED show ?thesis by (intro assign) auto
  qed (use assms that in \<open>simp_all add: transitioned_def\<close>)
  note how = this
  show "task_step t u" using how by cases (rule task_step.intros; assumption)+
  show "task_status u = s" using how by cases (auto simp: lifecycle_defs split: if_splits)
  show "assigned_robot_id u = assigned_robot_id t \<or> assigned_robot_id u = None \<or> dict_get (robots_table db) (the (assigned_robot_id u)) \<noteq> None"
    using how by cases (auto simp: lifecycle_defs split: if_splits)
  show "s = T_PENDING \<Longrightarrow> assigned_robot_id u = None" using how by cases (auto simp: lifecycle_defs)
qed

lemma apply_transition_entry:
  assumes "task_entry_ok (robots_table db) i t" "apply_transition t s robot reason db = Inr u"
  shows "task_entry_ok (robots_table db) i u"
proof -
  have ok: "task_row_ok t" using assms(1) by (simp add: task_entry_ok_def)
  obtain target current where s: "task_status_of s = Some target" "task_status_of (rec_task_status t) = Some current"
    using assms(2) by (auto simp: apply_transition_def split: option.splits)
  show ?thesis
  proof (cases "target = current")
    case True
    then show ?thesis using assms s by (simp add: apply_transition_def)
  next
    case False
    then obtain v where v: "transitioned target robot reason db (domain_task t) = Inr v"
      and u: "u = t\<lparr>rec_task_status := task_status_value (task_status v), rec_assigned_robot_id := assigned_robot_id v,
                        rec_failure_reason := failure_reason v\<rparr>"
      using assms(2) s by (auto simp: apply_transition_def task_from_record_ok [OF ok] res_bind_Inr)
    have "assigned_robot_id (domain_task t) = rec_assigned_robot_id t" by (simp add: domain_task_def)
    moreover have "task_status_value x = ''pending'' \<longleftrightarrow> x = T_PENDING" for x by (cases x) simp_all
    ultimately show ?thesis using assms(1) transitioned_step [OF v]
      by (auto simp: u task_entry_ok_def task_row_ok_def)
  qed
qed

lemma apply_transition_step:
  assumes ok: "task_row_ok t" and run: "apply_transition t s robot reason db = Inr u"
  shows "u = t \<or> task_step (domain_task t) (domain_task u)"
proof -
  obtain target current where s: "task_status_of s = Some target" "task_status_of (rec_task_status t) = Some current"
    using run by (auto simp: apply_transition_def split: option.splits)
  show ?thesis
  proof (cases "target = current")
    case True
    then show ?thesis using run s by (simp add: apply_transition_def)
  next
    case False
    then obtain v where v: "transitioned target robot reason db (domain_task t) = Inr v"
      and u: "u = t\<lparr>rec_task_status := task_status_value (task_status v), rec_assigned_robot_id := assigned_robot_id v,
                        rec_failure_reason := failure_reason v\<rparr>"
      using run s by (auto simp: apply_transition_def task_from_record_ok [OF ok] res_bind_Inr)
    have step: "task_step (domain_task t) v" by (rule transitioned_step [OF v])
    moreover have "domain_task u = v"
      using task_step_frame [OF step] by (intro task.equality) (simp_all add: u domain_task_def fresh_task_def)
    ultimately show ?thesis by simp
  qed
qed

lemma update_task_ok:
  assumes "store_ok db"
  shows "store_ok (snd (update_task tid p db))"
proof (cases "dict_get (tasks_table db) tid")
  case None
  then show ?thesis using assms by (simp add: update_task_def find_task_def)
next
  case (Some t)
  let ?ok = "task_entry_ok (robots_table db)"
  obtain r t1 where e: "edit_fields p t = (r, t1)" by fastforce
  have t: "?ok tid t" using assms Some by (simp add: store_ok_def tasks_table_ok_def)
  have t1: "?ok tid t1" using edit_fields_entry [OF t, of p] e by simp
  have put: "store_ok (put_task_row u db)" if "?ok tid u" for u
    by (rule tasks_table_put [OF assms]) (use that in \<open>simp add: task_entry_ok_def\<close>)
  define final where "final = (case to_status p of
      Some status \<Rightarrow> apply_transition t1 status (to_robot p) (to_failure_reason p) db
    | None \<Rightarrow> (case to_robot p of None \<Rightarrow> Inr t1
        | Some rid \<Rightarrow> if rec_task_status t1 = ''assigned''
            then res_bind (require_robot_exists rid db) (\<lambda>_. Inr (t1\<lparr>rec_assigned_robot_id := Some rid\<rparr>)) else Inr t1))"
  have run: "update_task tid p db = (case r of Inl e \<Rightarrow> (Inl e, put_task_row t1 db)
      | Inr _ \<Rightarrow> (case final of Inl e \<Rightarrow> (Inl e, put_task_row t1 db) | Inr t2 \<Rightarrow> (Inr t2, put_task_row t2 db)))"
    by (cases r) (simp_all add: update_task_def find_task_def Some e final_def)
  have "?ok tid t2" if "final = Inr t2" for t2
  proof (cases "to_status p")
    case (Some status)
    then show ?thesis using that apply_transition_entry [OF t1] by (simp add: final_def)
  next
    case None
    then show ?thesis using that t1
      by (auto simp: final_def task_entry_ok_def task_row_ok_def res_bind_Inr split: option.splits if_splits)
  qed
  then show ?thesis unfolding run using put [OF t1] put by (auto split: sum.splits)
qed

end
