(* ===== verification/Run_Services.thy ===== *)
theory Run_Services
  imports Fleet_Store
begin

text \<open>
  The services that run an algorithm for a request and record the run
  (\<open>services/planning_service.py\<close>, \<open>allocation_service.py\<close>, \<open>coordination_service.py\<close>,
  \<open>recovery_service.py\<close>). The generated run ids and the log lines are left out of the outcomes.
\<close>

definition truthy :: "string option \<Rightarrow> bool" where
  "truthy x \<longleftrightarrow> x \<notin> {None, Some []}"

text \<open>A dict comprehension, and \<open>{**a, **b}\<close>.\<close>

definition dict_of :: "('k \<times> 'v) list \<Rightarrow> ('k, 'v) dict" where
  "dict_of kvs = fold (\<lambda>(k, v). dict_set k v) kvs []"

definition dict_merge :: "('k, 'v) dict \<Rightarrow> ('k, 'v) dict \<Rightarrow> ('k, 'v) dict" where
  "dict_merge a b = fold (\<lambda>(k, v). dict_set k v) b a"

section \<open>Planning\<close>

definition planners :: "(string, planner) dict" where
  "planners = [(''dijkstra'', dijkstra_plan), (''astar'', plan_astar)]"

record plan_request =
  rq_start_row :: int
  rq_start_col :: int
  rq_goal_row :: int
  rq_goal_col :: int
  rq_algorithm :: string
  rq_warehouse_width :: "int option"
  rq_warehouse_height :: "int option"
  rq_static_obstacles :: "position list option"
  rq_dynamic_obstacles :: "position list option"

text \<open>The loop over \<open>enumerate(dynamic_obstacles)\<close>; a cell that is blocked already is skipped.\<close>

fun add_transient :: "nat \<Rightarrow> position list \<Rightarrow> warehouse \<Rightarrow> service_error + warehouse" where
  "add_transient index [] w = Inr w"
| "add_transient index (cell # cells) w =
     (if \<not> in_bounds w cell then Inl Validation_Failed
      else if is_blocked_by_static w cell then add_transient (Suc index) cells w
      else res_bind (lift_error (add_dynamic_obstacle (''api-dynamic-'' @ str_int (int index)) cell ''api transient obstacle'' w))
        (\<lambda>(ob, w'). add_transient (Suc index) cells w'))"

definition or_empty :: "'a list option \<Rightarrow> 'a list" where
  "or_empty x = (case x of None \<Rightarrow> [] | Some xs \<Rightarrow> xs)"

definition request_floor :: "plan_request \<Rightarrow> service_error + warehouse" where
  "request_floor q = res_bind (build_warehouse (rq_warehouse_width q) (rq_warehouse_height q) (rq_static_obstacles q))
     (add_transient 0 (or_empty (rq_dynamic_obstacles q)))"

definition planning_row :: "plan_request \<Rightarrow> path_result \<Rightarrow> planning_run" where
  "planning_row q result =
     \<lparr>pl_algorithm = rq_algorithm q, pl_start_row = rq_start_row q, pl_start_col = rq_start_col q,
      pl_goal_row = rq_goal_row q, pl_goal_col = rq_goal_col q, pl_success = pr_success result,
      pl_total_cost = pr_total_cost result, pl_nodes_expanded = pr_nodes_expanded result,
      pl_failure_reason = pr_failure_reason result, pl_result = result\<rparr>"

definition plan_path :: "plan_request \<Rightarrow> store \<Rightarrow> (service_error + path_result) \<times> store" where
  "plan_path q db =
     (let start = Position (rq_start_row q) (rq_start_col q); goal = Position (rq_goal_row q) (rq_goal_col q) in
      case dict_get planners (rq_algorithm q) of
        None \<Rightarrow> (Inl Validation_Failed, db)
      | Some planner \<Rightarrow>
          (case res_bind (request_floor q) (\<lambda>w.
                 if \<not> in_bounds w start then Inl Validation_Failed
                 else if \<not> in_bounds w goal then Inl Validation_Failed
                 else case planner start goal w of
                     Inl e \<Rightarrow> Inl (if e = InvalidPositionError then Validation_Failed else Unexpected e)
                   | Inr result \<Rightarrow> Inr result) of
             Inl e \<Rightarrow> (Inl e, db)
           | Inr result \<Rightarrow>
               (Inr result, add_planning_run (planning_row q result) db)))"

section \<open>Allocation\<close>

record robot_spec =
  sp_robot_id :: string
  sp_row :: int
  sp_col :: int
  sp_battery_level :: pyfloat
  sp_payload_capacity :: pyfloat

record task_spec =
  sp_task_id :: string
  sp_pickup_row :: int
  sp_pickup_col :: int
  sp_dropoff_row :: int
  sp_dropoff_col :: int
  sp_payload_weight :: pyfloat
  sp_priority :: string

record allocation_outcome =
  ao_result :: allocation_result
  ao_committed :: bool
  ao_applied :: "(string \<times> string) list"

definition robot_from_spec :: "robot_spec \<Rightarrow> service_error + robot" where
  "robot_from_spec s = reject_value (robot_post_init ((robot_default (sp_robot_id s) (Position (sp_row s) (sp_col s)))
     \<lparr>battery_level := sp_battery_level s, payload_capacity := sp_payload_capacity s\<rparr>))"

definition task_from_spec :: "task_spec \<Rightarrow> service_error + task" where
  "task_from_spec s = (case priority_named (str_upper (sp_priority s)) of
       None \<Rightarrow> Inl Validation_Failed
     | Some pr \<Rightarrow> reject_value (task_post_init (fresh_task (sp_task_id s) (Position (sp_pickup_row s) (sp_pickup_col s))
         (Position (sp_dropoff_row s) (sp_dropoff_col s)) pr (sp_payload_weight s))))"

definition allocators ::
  "cp_solver \<Rightarrow> (string, robot list \<Rightarrow> task list \<Rightarrow> estimator \<Rightarrow> (py_error + allocation_result) \<times> estimator) dict" where
  "allocators solver = [(''greedy'', greedy_allocate), (''cp_sat'', cp_sat_allocate solver)]"

definition write_back_robot :: "robot \<Rightarrow> store \<Rightarrow> store" where
  "write_back_robot r db = (case dict_get (robots_table db) (robot_id r) of
       None \<Rightarrow> db
     | Some rec \<Rightarrow> put_robot_row (rec\<lparr>rec_status := robot_status_value (robot_status r),
         rec_assigned_task_id := assigned_task_id r\<rparr>) db)"

definition write_back_task :: "task \<Rightarrow> store \<Rightarrow> store" where
  "write_back_task t db = (case dict_get (tasks_table db) (task_id t) of
       None \<Rightarrow> db
     | Some rec \<Rightarrow> put_task_row (rec\<lparr>rec_task_status := task_status_value (task_status t),
         rec_assigned_robot_id := assigned_robot_id t\<rparr>) db)"

definition write_back :: "simulator \<Rightarrow> store \<Rightarrow> store" where
  "write_back s db = fold write_back_task (dict_values (sim_tasks s)) (fold write_back_robot (dict_values (sim_robots s)) db)"

text \<open>The robots and tasks of a run: the idle robots and pending tasks of the store, or the request's.\<close>

definition allocation_inputs ::
  "robot_spec list option \<Rightarrow> task_spec list option \<Rightarrow> bool \<Rightarrow> store \<Rightarrow> service_error + robot list \<times> task list" where
  "allocation_inputs robots tasks from_persisted db =
     res_bind (if from_persisted
         then res_map robot_from_record (filter (\<lambda>r. rec_status r = robot_status_value R_IDLE \<and> rec_assigned_task_id r = None)
           (list_robot_rows None db))
         else res_map robot_from_spec (or_empty robots)) (\<lambda>domain_robots.
     res_bind (if from_persisted then res_map task_from_record (pending_rows db) else res_map task_from_spec (or_empty tasks))
       (\<lambda>domain_tasks. if domain_robots = [] \<or> domain_tasks = [] then Inl Validation_Failed
          else Inr (domain_robots, domain_tasks)))"

text \<open>The commit of a successful run to the persisted rows, through a simulator that holds them.\<close>

definition commit_persisted ::
  "warehouse \<Rightarrow> robot list \<Rightarrow> task list \<Rightarrow> allocation_result \<Rightarrow> store \<Rightarrow> service_error + (string \<times> string) list \<times> store" where
  "commit_persisted w domain_robots domain_tasks result db =
     res_bind (build_simulator w domain_robots domain_tasks) (\<lambda>s.
       case commit_allocation result s of
         (Inl e, s1) \<Rightarrow> Inl (Unexpected e)
       | (Inr report, s1) \<Rightarrow>
           if \<not> cr_committed report then Inl Validation_Failed else Inr (cr_applied report, write_back s1 db))"

definition allocation_row :: "string \<Rightarrow> nat \<Rightarrow> nat \<Rightarrow> bool \<Rightarrow> allocation_result \<Rightarrow> allocation_run" where
  "allocation_row algorithm robot_count task_count committed result =
     \<lparr>alr_algorithm = algorithm, alr_solver_status = al_solver_status result, alr_requested_robot_count = robot_count,
      alr_requested_task_count = task_count, alr_assigned_count = assigned_task_count result,
      alr_unassigned_count = unassigned_task_count result, alr_total_estimated_cost = al_total_estimated_cost result,
      alr_committed = committed, alr_result = result\<rparr>"

definition run_allocation ::
  "cp_solver \<Rightarrow> string \<Rightarrow> robot_spec list option \<Rightarrow> task_spec list option \<Rightarrow> bool \<Rightarrow> bool \<Rightarrow> store \<Rightarrow>
     (service_error + allocation_outcome) \<times> store" where
  "run_allocation solver algorithm robots tasks from_persisted commit db =
     (case dict_get (allocators solver) algorithm of
        None \<Rightarrow> (Inl Validation_Failed, db)
      | Some allocate \<Rightarrow>
          if commit \<and> \<not> from_persisted then (Inl Validation_Failed, db)
          else
            (case res_bind default_floor (\<lambda>w. res_bind (allocation_inputs robots tasks from_persisted db) (\<lambda>(rs, ts).
                   res_bind (lift_error (fst (allocate rs ts
                     (estimator_init w plan_astar)))) (\<lambda>result.
                   res_bind (if commit \<and> al_assignments result \<noteq> []
                       then res_bind (commit_persisted w rs ts result db) (\<lambda>(applied, db1). Inr (True, applied, db1))
                       else Inr (False, [], db)) (\<lambda>(committed, applied, db1).
                     Inr (rs, ts, result, committed, applied, db1))))) of
               Inl e \<Rightarrow> (Inl e, db)
             | Inr (rs, ts, result, committed, applied, db1) \<Rightarrow>
                 (Inr \<lparr>ao_result = result, ao_committed = committed, ao_applied = applied\<rparr>,
                  add_allocation_run (allocation_row algorithm (length rs) (length ts) committed result) db1)))"

section \<open>Coordination\<close>

record coordination_spec =
  cs_robot_id :: string
  cs_start_row :: int
  cs_start_col :: int
  cs_goal_row :: int
  cs_goal_col :: int

definition spec_starts :: "coordination_spec list \<Rightarrow> (string, position) dict" where
  "spec_starts specs = dict_of (map (\<lambda>s. (cs_robot_id s, Position (cs_start_row s) (cs_start_col s))) specs)"

definition spec_goals :: "coordination_spec list \<Rightarrow> (string, position) dict" where
  "spec_goals specs = dict_of (map (\<lambda>s. (cs_robot_id s, Position (cs_goal_row s) (cs_goal_col s))) specs)"

definition coordination_row :: "nat \<Rightarrow> coordination_result \<Rightarrow> coordination_run" where
  "coordination_row robot_count cr =
     \<lparr>cor_robot_count = robot_count, cor_success = cr_success cr, cor_planned_robot_count = cr_planned_robot_count cr,
      cor_failed_robot_ids = cr_failed_robot_ids cr, cor_makespan = cr_makespan cr,
      cor_total_move_steps = cr_total_move_steps cr, cor_total_wait_steps = cr_total_wait_steps cr,
      cor_conflict_checks = cr_conflict_checks cr, cor_failure_reason = cr_failure_reason cr, cor_result = cr\<rparr>"

definition coordinate_fleet ::
  "coordination_spec list \<Rightarrow> string list option \<Rightarrow> int option \<Rightarrow> int option \<Rightarrow> int option \<Rightarrow> position list option \<Rightarrow>
     store \<Rightarrow> (service_error + coordination_result) \<times> store" where
  "coordinate_fleet specs priority_order horizon width height obstacles db =
     (let ids = map cs_robot_id specs; starts = spec_starts specs; goals = spec_goals specs in
      if specs = [] then (Inl Validation_Failed, db)
      else if length ids \<noteq> card (set ids) then (Inl Validation_Failed, db)
      else
        (case res_bind (build_warehouse width height obstacles) (\<lambda>w.
               if list_ex (\<lambda>(rid, cell). \<not> in_bounds w cell) (dict_merge starts goals) then Inl Validation_Failed
               else if priority_order \<noteq> None \<and> sort (the priority_order) \<noteq> sort ids then Inl Validation_Failed
               else lift_error (coordinate manhattan_distance w starts goals priority_order horizon)) of
           Inl e \<Rightarrow> (Inl e, db)
         | Inr result \<Rightarrow>
             (Inr result, add_coordination_run (coordination_row (length specs) result) db)))"

section \<open>Recovery\<close>

text \<open>\<open>RecoveryTaskSpec\<close> has the fields of \<open>TaskSpec\<close>.\<close>

record recovery_spec =
  rv_robot_id :: string
  rv_start_row :: int
  rv_start_col :: int
  rv_goal_row :: int
  rv_goal_col :: int
  rv_task :: "task_spec option"

record recovery_outcome =
  ro_execution :: resilient_result
  ro_event :: "event_result option"
  ro_disruption_type :: string
  ro_recovery_enabled :: bool
  ro_committed :: bool
  ro_applied :: "string list"

definition recovery_robot :: "recovery_spec \<Rightarrow> service_error + robot" where
  "recovery_robot s = reject_value (robot_post_init (robot_default (rv_robot_id s) (Position (rv_start_row s) (rv_start_col s))))"

definition assign_inline :: "recovery_spec \<Rightarrow> simulator \<Rightarrow> service_error + simulator" where
  "assign_inline s sim = (case rv_task s of
       None \<Rightarrow> Inr sim
     | Some t \<Rightarrow> reject_robotics (assign_task_manually (sp_task_id t) (rv_robot_id s) sim))"

definition modify_robot_row :: "string \<Rightarrow> (robot_record \<Rightarrow> robot_record) \<Rightarrow> store \<Rightarrow> store" where
  "modify_robot_row rid f db = (case dict_get (robots_table db) rid of None \<Rightarrow> db | Some r \<Rightarrow> put_robot_row (f r) db)"

definition persist_reassignment ::
  "simulator \<Rightarrow> event_result \<Rightarrow> store \<Rightarrow> service_error + string list \<times> store" where
  "persist_reassignment sim ev db =
     (if \<not> (ev_task_reassignment_success ev \<and> truthy (ev_reassigned_to ev) \<and> truthy (ev_reassigned_task_id ev))
      then Inr ([], db)
      else
        let spare = the (ev_reassigned_to ev); tid = the (ev_reassigned_task_id ev);
            failed_row = (if truthy (ev_reassigned_from ev) then dict_get (robots_table db) (the (ev_reassigned_from ev)) else None) in
        (case (dict_get (tasks_table db) tid, dict_get (robots_table db) spare) of
           (Some task_row, Some _) \<Rightarrow>
             res_bind (lift_error (get_task sim tid)) (\<lambda>t.
               if assigned_robot_id t \<noteq> Some spare then Inr ([], db)
               else
                 let (applied, db1) = (case failed_row of
                       None \<Rightarrow> ([], db)
                     | Some r \<Rightarrow> ([the (ev_reassigned_from ev)],
                         put_robot_row (r\<lparr>rec_status := robot_status_value R_OFFLINE, rec_assigned_task_id := None\<rparr>) db));
                   db2 = modify_robot_row spare (\<lambda>r. r\<lparr>rec_status := robot_status_value R_ASSIGNED,
                     rec_assigned_task_id := Some tid\<rparr>) db1
                 in Inr (applied @ [spare, tid], put_task_row (task_row\<lparr>rec_task_status := task_status_value T_ASSIGNED,
                     rec_assigned_robot_id := Some spare\<rparr>) db2))
         | _ \<Rightarrow> Inr ([], db)))"

definition recovery_row :: "string \<Rightarrow> int \<Rightarrow> bool \<Rightarrow> resilient_result \<Rightarrow> event_result option \<Rightarrow> recovery_run" where
  "recovery_row kind timestep enabled execution ev =
     (let holds = (\<lambda>f. case ev of None \<Rightarrow> False | Some e \<Rightarrow> f e) in
      \<lparr>rer_disruption_type = kind, rer_trigger_timestep = timestep, rer_recovery_enabled = enabled,
       rer_recovery_success = holds ev_recovery_success, rer_safe_stop = rx_safe_stop execution,
       rer_affected_robot_ids = (case ev of None \<Rightarrow> [] | Some e \<Rightarrow> ev_affected_robot_ids e),
       rer_affected_task_ids = (case ev of None \<Rightarrow> [] | Some e \<Rightarrow> ev_affected_task_ids e),
       rer_replanning_attempted = holds ev_replanning_attempted, rer_replanning_success = holds ev_replanning_success,
       rer_task_reassignment_attempted = holds ev_task_reassignment_attempted,
       rer_task_reassignment_success = holds ev_task_reassignment_success,
       rer_reassigned_from = (case ev of None \<Rightarrow> None | Some e \<Rightarrow> ev_reassigned_from e),
       rer_reassigned_to = (case ev of None \<Rightarrow> None | Some e \<Rightarrow> ev_reassigned_to e), rer_result = execution\<rparr>)"

text \<open>The simulator of a request and its coordinated plan.\<close>

definition recovery_setup ::
  "recovery_spec list \<Rightarrow> string list option \<Rightarrow> int option \<Rightarrow> int option \<Rightarrow> int option \<Rightarrow> position list option \<Rightarrow>
     service_error + simulator \<times> coordination_result" where
  "recovery_setup specs priority_order horizon width height obstacles =
     res_bind (build_warehouse width height obstacles) (\<lambda>w.
     res_bind (res_map recovery_robot specs) (\<lambda>robots.
     res_bind (res_map task_from_spec (List.map_filter rv_task specs)) (\<lambda>tasks.
     res_bind (build_simulator w robots tasks) (\<lambda>sim0.
     res_bind (res_fold assign_inline specs sim0) (\<lambda>sim.
     let starts = dict_of (map (\<lambda>s. (rv_robot_id s, Position (rv_start_row s) (rv_start_col s))) specs);
         goals = dict_of (map (\<lambda>s. (rv_robot_id s, Position (rv_goal_row s) (rv_goal_col s))) specs) in
     res_bind (lift_error (coordinate manhattan_distance w starts goals priority_order horizon)) (\<lambda>coordination.
       if successful_paths coordination = [] then Inl Domain_Failure else Inr (sim, coordination)))))))"

definition run_recovery ::
  "recovery_spec list \<Rightarrow> disruption \<Rightarrow> string \<Rightarrow> string list option \<Rightarrow> int option \<Rightarrow> bool \<Rightarrow> int option \<Rightarrow>
     int option \<Rightarrow> position list option \<Rightarrow> bool \<Rightarrow> store \<Rightarrow> (service_error + recovery_outcome) \<times> store" where
  "run_recovery specs event kind priority_order horizon enabled width height obstacles commit db =
     (if specs = [] then (Inl Validation_Failed, db)
      else if event_timestep event < 0 then (Inl Validation_Failed, db)
      else
        (case recovery_setup specs priority_order horizon width height obstacles of
           Inl e \<Rightarrow> (Inl e, db)
         | Inr (sim, coordination) \<Rightarrow>
             (case run_resilient coordination (schedule_of [event]) 0 enabled sim of
                (Inl e, sim1) \<Rightarrow> (Inl (Unexpected e), db)
              | (Inr execution, sim1) \<Rightarrow>
                  let ev = (case rx_recovery_events execution of [] \<Rightarrow> None | e # _ \<Rightarrow> Some e);
                      db1 = add_recovery_run (recovery_row kind (event_timestep event) enabled execution ev) db in
                  (case (if commit \<and> ev \<noteq> None then persist_reassignment sim1 (the ev) db1 else Inr ([], db1)) of
                     Inl e \<Rightarrow> (Inl e, db1)
                   | Inr (applied, db2) \<Rightarrow>
                       (Inr \<lparr>ro_execution = execution, ro_event = ev, ro_disruption_type = kind, ro_recovery_enabled = enabled,
                          ro_committed = (applied \<noteq> []), ro_applied = applied\<rparr>, db2)))))"

definition recover_from_obstacle ::
  "recovery_spec list \<Rightarrow> int \<Rightarrow> int \<Rightarrow> int \<Rightarrow> string list option \<Rightarrow> int option \<Rightarrow> bool \<Rightarrow> int option \<Rightarrow> int option \<Rightarrow>
     position list option \<Rightarrow> store \<Rightarrow> (service_error + recovery_outcome) \<times> store" where
  "recover_from_obstacle specs r c timestep priority_order horizon enabled width height obstacles =
     run_recovery specs (Obstacle_Event timestep (Position r c) []) ''dynamic_obstacle'' priority_order horizon
       enabled width height obstacles False"

definition recover_from_robot_failure ::
  "recovery_spec list \<Rightarrow> string \<Rightarrow> int \<Rightarrow> string list option \<Rightarrow> int option \<Rightarrow> bool \<Rightarrow> int option \<Rightarrow> int option \<Rightarrow>
     position list option \<Rightarrow> bool \<Rightarrow> store \<Rightarrow> (service_error + recovery_outcome) \<times> store" where
  "recover_from_robot_failure specs failed timestep priority_order horizon enabled width height obstacles commit db =
     (if failed \<notin> set (map rv_robot_id specs) then (Inl Validation_Failed, db)
      else run_recovery specs (Failure_Event timestep failed) ''robot_offline'' priority_order horizon
        enabled width height obstacles commit db)"

end
