(* ===== verification/Request_Floor.thy ===== *)
theory Request_Floor
  imports Run_Services
begin

text \<open>
  The floor of a request (\<open>services/world.py\<close>, the obstacle loops of \<open>services/planning_service.py\<close>):
  the numbered obstacle ids never clash, so building the floor either succeeds, and then exactly
  the requested cells are free, or is refused as a validation error.
\<close>


section \<open>Numbered ids\<close>

definition digits_value :: "string \<Rightarrow> nat" where
  "digits_value s = foldl (\<lambda>n c. 10 * n + (of_char c - 48)) 0 s"

lemma digits_value_str_nat: "digits_value (str_nat n) = n"
proof (induction n rule: str_nat.induct)
  case (1 n)
  show ?case
  proof (cases "n < 10")
    case True
    then show ?thesis by (simp add: str_nat.simps [of n] digits_value_def)
  next
    case False
    then show ?thesis using 1 by (simp add: str_nat.simps [of n] digits_value_def)
  qed
qed

lemma str_int_inject: "str_int (int i) = str_int (int j) \<longleftrightarrow> i = j"
proof -
  have "str_nat i = str_nat j \<longleftrightarrow> i = j" by (metis digits_value_str_nat)
  then show ?thesis by (simp add: str_int_def)
qed

section \<open>The floor of a request\<close>

text \<open>The ids that the loops over the obstacles of a request have given out.\<close>

definition ids_below :: "string \<Rightarrow> nat \<Rightarrow> (string, obstacle) dict \<Rightarrow> bool" where
  "ids_below pre index d \<longleftrightarrow> (\<forall>i. dict_get d i \<noteq> None \<longrightarrow> (\<exists>j < index. i = pre @ str_int (int j)))"

lemma ids_below_Nil [simp]: "ids_below pre index []"
  by (simp add: ids_below_def)

lemma ids_below_fresh: "ids_below pre index d \<Longrightarrow> dict_get d (pre @ str_int (int index)) = None"
  unfolding ids_below_def using str_int_inject by (metis less_irrefl_nat same_append_eq)

lemma ids_below_set: "ids_below pre index d \<Longrightarrow> ids_below pre (Suc index) (dict_set (pre @ str_int (int index)) ob d)"
  unfolding ids_below_def by (auto split: if_splits intro: less_SucI)

definition starts_with :: "char set \<Rightarrow> (string, obstacle) dict \<Rightarrow> bool" where
  "starts_with cs d \<longleftrightarrow> (\<forall>i. dict_get d i \<noteq> None \<longrightarrow> i \<noteq> [] \<and> hd i \<in> cs)"

lemma starts_with_fresh: "starts_with cs d \<Longrightarrow> c \<notin> cs \<Longrightarrow> dict_get d (c # i) = None"
  unfolding starts_with_def by (metis list.sel(1))

lemma ids_below_starts: "ids_below (c # pre) index d \<Longrightarrow> starts_with {c} d"
  unfolding ids_below_def starts_with_def by fastforce

definition same_bounds :: "warehouse \<Rightarrow> warehouse \<Rightarrow> bool" where
  "same_bounds w w' \<longleftrightarrow> in_bounds w' = in_bounds w"

definition static_known :: "warehouse \<Rightarrow> bool" where
  "static_known w \<longleftrightarrow> (\<forall>p. is_blocked_by_static w p \<longrightarrow> p \<in> grid_blocked (warehouse_grid w))"

lemma add_static_known:
  assumes "add_static_obstacle i p desc w = Inr (ob, w')" "static_known w"
  shows "static_known w'"
  using assms(2) add_static_blocked [OF assms(1)] grid_block_frame [OF add_static_obstacle_facts(8) [OF assms(1)]]
  by (auto simp: static_known_def)

lemma add_static_ex:
  assumes "in_bounds w p" "dict_get (static_registry w) i = None" "dict_get (dynamic_registry w) i = None" "locations w = []"
  shows "\<exists>ob w'. add_static_obstacle i p desc w = Inr (ob, w')"
  using assms by (simp add: add_static_obstacle_def wh_require_in_bounds_def require_unused_obstacle_id_def get_location_type_def
      functional_locations_def grid_block_def grid_require_in_bounds_def in_bounds_def Let_def)

lemma add_dynamic_ex:
  assumes "in_bounds w p" "dict_get (static_registry w) i = None" "dict_get (dynamic_registry w) i = None" "\<not> is_blocked_by_static w p"
  shows "\<exists>ob w'. add_dynamic_obstacle i p desc w = Inr (ob, w')"
  using assms by (simp add: add_dynamic_obstacle_def wh_require_in_bounds_def require_unused_obstacle_id_def in_bounds_def Let_def)

lemma add_obstacles_ok:
  assumes "warehouse_ok w" "static_known w" "ids_below ''obstacle-'' index (static_registry w)" "dynamic_registry w = []" "locations w = []"
  shows "if list_all (in_bounds w) cells
    then \<exists>w'. add_obstacles index cells w = Inr w' \<and> warehouse_ok w' \<and> same_bounds w w' \<and> static_known w' \<and> dynamic_registry w' = [] \<and>
      (\<forall>p. is_blocked_by_static w' p \<longleftrightarrow> is_blocked_by_static w p \<or> p \<in> set cells) \<and> starts_with {CHR ''o''} (static_registry w')
    else add_obstacles index cells w = Inl Validation_Failed"
  using assms
proof (induction cells arbitrary: index w)
  case Nil
  then show ?case using ids_below_starts by (simp add: same_bounds_def)
next
  case (Cons cell cells)
  show ?case
  proof (cases "in_bounds w cell")
    case True
    let ?i = "''obstacle-'' @ str_int (int index)"
    have fresh: "dict_get (static_registry w) ?i = None" by (rule ids_below_fresh [OF Cons.prems(3)])
    moreover have "dict_get (dynamic_registry w) ?i = None" by (simp add: Cons.prems(4))
    ultimately obtain ob w1 where add: "add_static_obstacle ?i cell ''api static obstacle'' w = Inr (ob, w1)"
      using add_static_ex [OF True] Cons.prems(5) by blast
    note f = add_static_obstacle_facts [OF add] and b = add_static_in_bounds [OF add] and bl = add_static_blocked [OF add]
    have "warehouse_ok w1" by (rule add_static_obstacle_ok [OF Cons.prems(1) add])
    moreover have "ids_below ''obstacle-'' (Suc index) (static_registry w1)"
      using ids_below_set [OF Cons.prems(3)] f by simp
    moreover have "static_known w1" by (rule add_static_known [OF add Cons.prems(2)])
    moreover have "dynamic_registry w1 = []" "locations w1 = []" using Cons.prems(4,5) f by simp_all
    moreover have step: "add_obstacles index (cell # cells) w = add_obstacles (Suc index) cells w1"
      unfolding add_obstacles.simps add using True by (simp add: lift_error_def)
    moreover have "in_bounds w1 = in_bounds w" using b by (simp add: fun_eq_iff)
    ultimately show ?thesis using Cons.IH [of w1 "Suc index"] True unfolding step same_bounds_def bl
      by (auto split: if_splits)
  next
    case False
    then show ?thesis by simp
  qed
qed

lemma add_transient_ok:
  assumes "warehouse_ok w" "static_known w" "ids_below ''api-dynamic-'' index (dynamic_registry w)" "starts_with {CHR ''o'', CHR ''r''} (static_registry w)"
  shows "if list_all (in_bounds w) cells
    then \<exists>w'. add_transient index cells w = Inr w' \<and> warehouse_ok w' \<and> same_bounds w w' \<and>
      (\<forall>p. is_traversable w' p \<longleftrightarrow> is_traversable w p \<and> p \<notin> set cells)
    else add_transient index cells w = Inl Validation_Failed"
  using assms
proof (induction cells arbitrary: index w)
  case Nil
  then show ?case by (simp add: same_bounds_def)
next
  case (Cons cell cells)
  show ?case
  proof (cases "in_bounds w cell")
    case inside: True
    show ?thesis
    proof (cases "is_blocked_by_static w cell")
      case True
      have "ids_below ''api-dynamic-'' (Suc index) (dynamic_registry w)"
        using Cons.prems(3) unfolding ids_below_def by (meson less_SucI)
      moreover have "\<not> is_traversable w cell" using True Cons.prems(2) by (auto simp: static_known_def is_traversable_iff)
      ultimately show ?thesis using Cons.IH [of w "Suc index"] Cons.prems(1,2,4) inside True by (auto split: if_splits)
    next
      case False
      let ?i = "''api-dynamic-'' @ str_int (int index)"
      have fresh: "dict_get (dynamic_registry w) ?i = None" by (rule ids_below_fresh [OF Cons.prems(3)])
      moreover have "dict_get (static_registry w) ?i = None" using starts_with_fresh [OF Cons.prems(4)] by simp
      ultimately obtain ob w1 where add: "add_dynamic_obstacle ?i cell ''api transient obstacle'' w = Inr (ob, w1)"
        using add_dynamic_ex [OF inside _ _ False] by blast
      note f = add_dynamic_obstacle_facts [OF add]
      have "warehouse_ok w1" by (rule add_dynamic_obstacle_ok [OF Cons.prems(1) add])
      moreover have "ids_below ''api-dynamic-'' (Suc index) (dynamic_registry w1)"
        using ids_below_set [OF Cons.prems(3)] by (simp add: f(8))
      moreover have "starts_with {CHR ''o'', CHR ''r''} (static_registry w1)" using Cons.prems(4) by (simp add: f(8))
      moreover have "static_known w1" using Cons.prems(2) by (simp add: f(8) static_known_def is_blocked_by_static_def)
      moreover have "in_bounds w1 = in_bounds w" by (simp add: f(8) in_bounds_def fun_eq_iff)
      moreover have "is_traversable w1 p \<longleftrightarrow> is_traversable w p \<and> p \<noteq> cell" for p
        using fresh f(7) by (auto simp: f(8) is_traversable_def is_blocked_by_dynamic_def dict_set_new)
      moreover have step: "add_transient index (cell # cells) w = add_transient (Suc index) cells w1"
        unfolding add_transient.simps add using inside False by (simp add: lift_error_def)
      ultimately show ?thesis using Cons.IH [of w1 "Suc index"] inside unfolding step same_bounds_def
        by (auto split: if_splits)
    qed
  next
    case False
    then show ?thesis by simp
  qed
qed

text \<open>The cells that a robot can stand on, as the arguments of a request describe them.\<close>

definition default_request :: "int option \<Rightarrow> int option \<Rightarrow> position list option \<Rightarrow> bool" where
  "default_request width height obstacles \<longleftrightarrow> width = None \<and> height = None \<and> or_empty obstacles = []"

definition requested_cell :: "int option \<Rightarrow> int option \<Rightarrow> position list option \<Rightarrow> position \<Rightarrow> bool" where
  "requested_cell width height obstacles p \<longleftrightarrow>
     (if default_request width height obstacles then is_traversable sample_floor p
      else 0 \<le> row p \<and> row p < the height \<and> 0 \<le> col p \<and> col p < the width \<and> p \<notin> set (or_empty obstacles))"

definition requested_floor :: "int option \<Rightarrow> int option \<Rightarrow> position list option \<Rightarrow> warehouse \<Rightarrow> bool" where
  "requested_floor width height obstacles w \<longleftrightarrow> warehouse_ok w \<and> static_known w \<and>
     (\<forall>p. in_bounds w p \<longleftrightarrow> (if default_request width height obstacles then in_bounds sample_floor p
        else 0 \<le> row p \<and> row p < the height \<and> 0 \<le> col p \<and> col p < the width)) \<and>
     (\<forall>p. is_traversable w p \<longleftrightarrow> requested_cell width height obstacles p) \<and>
     dynamic_registry w = [] \<and> starts_with {CHR ''o'', CHR ''r''} (static_registry w)"

lemma sample_floor_static: "static_known sample_floor" "starts_with {CHR ''o'', CHR ''r''} (static_registry sample_floor)"
  "dynamic_registry sample_floor = []"
proof -
  show "dynamic_registry sample_floor = []" by (simp add: sample_floor_def)
  have "\<forall>(i, ob) \<in> set (static_registry sample_floor). i \<noteq> [] \<and> hd i = CHR ''r''"
    by (auto simp: sample_floor_def Let_def)
  then show "starts_with {CHR ''o'', CHR ''r''} (static_registry sample_floor)"
    unfolding starts_with_def by (auto dest!: map_of_SomeD)
  show "static_known sample_floor"
    by (auto simp: static_known_def static_iff sample_floor_def Let_def)
qed

lemma build_warehouse_ok:
  "build_warehouse width height obstacles = Inl Validation_Failed \<or>
   (\<exists>w. build_warehouse width height obstacles = Inr w \<and> requested_floor width height obstacles w)"
proof (cases "default_request width height obstacles")
  case True
  then have "build_warehouse width height obstacles = Inr sample_floor"
    using default_floor_sample unfolding default_floor_def
    by (simp add: build_warehouse_def default_request_def or_empty_def Let_def)
  then show ?thesis using True sample_floor_static sample_floor_ok by (simp add: requested_floor_def requested_cell_def)
next
  case False
  show ?thesis
  proof (cases "width \<noteq> None \<and> height \<noteq> None \<and> 0 < the width \<and> 0 < the height")
    case True
    then obtain wd ht where d: "width = Some wd" "height = Some ht" "0 < wd" "0 < ht" by auto
    obtain w0 where w0: "warehouse_init wd ht ''api-warehouse'' = Inr w0"
      using d(3,4) by (simp add: warehouse_init_def grid_init_def)
    have run: "build_warehouse width height obstacles = add_obstacles 0 (or_empty obstacles) w0"
      using d w0 by (simp add: build_warehouse_def Let_def or_empty_def lift_error_def)
    have init: "warehouse_ok w0" "static_known w0" "static_registry w0 = []" "dynamic_registry w0 = []" "locations w0 = []"
      "in_bounds w0 p \<longleftrightarrow> 0 \<le> row p \<and> row p < ht \<and> 0 \<le> col p \<and> col p < wd" "\<not> is_blocked_by_static w0 p" for p
      using warehouse_init_ok [OF w0] w0 d(3,4)
      by (auto simp: warehouse_init_def grid_init_def static_known_def static_exclusive_def in_bounds_def grid_in_bounds_def is_blocked_by_static_def)
    have floor: "requested_floor width height obstacles w" if "warehouse_ok w" "same_bounds w0 w" "static_known w" "dynamic_registry w = []"
      "\<forall>p. is_blocked_by_static w p \<longleftrightarrow> is_blocked_by_static w0 p \<or> p \<in> set (or_empty obstacles)"
      "starts_with {CHR ''o''} (static_registry w)" for w
    proof -
      have "is_traversable w p \<longleftrightarrow> in_bounds w0 p \<and> p \<notin> set (or_empty obstacles)" for p
        using that init(7) by (auto simp: is_traversable_iff warehouse_ok_def static_known_def same_bounds_def is_blocked_by_dynamic_def)
      then show ?thesis using that init(6) False d(1,2)
        by (auto simp: requested_floor_def requested_cell_def same_bounds_def starts_with_def)
    qed
    show ?thesis using add_obstacles_ok [of w0 0 "or_empty obstacles"] init floor run by (auto split: if_splits)
  next
    case False
    then have "build_warehouse width height obstacles = Inl Validation_Failed" using \<open>\<not> default_request width height obstacles\<close>
      by (auto simp: build_warehouse_def default_request_def or_empty_def Let_def not_le split: option.splits)
    then show ?thesis ..
  qed
qed

lemma request_floor_ok:
  "request_floor q = Inl Validation_Failed \<or> (\<exists>w. request_floor q = Inr w \<and> warehouse_ok w \<and>
     (\<forall>p. is_traversable w p \<longleftrightarrow> requested_cell (rq_warehouse_width q) (rq_warehouse_height q) (rq_static_obstacles q) p \<and>
        p \<notin> set (or_empty (rq_dynamic_obstacles q))))"
  using build_warehouse_ok [of "rq_warehouse_width q" "rq_warehouse_height q" "rq_static_obstacles q"]
proof
  assume "\<exists>w. build_warehouse (rq_warehouse_width q) (rq_warehouse_height q) (rq_static_obstacles q) = Inr w \<and>
    requested_floor (rq_warehouse_width q) (rq_warehouse_height q) (rq_static_obstacles q) w"
  then obtain w where w: "build_warehouse (rq_warehouse_width q) (rq_warehouse_height q) (rq_static_obstacles q) = Inr w"
    "requested_floor (rq_warehouse_width q) (rq_warehouse_height q) (rq_static_obstacles q) w" by blast
  then show ?thesis using add_transient_ok [of w 0 "or_empty (rq_dynamic_obstacles q)"]
    by (auto simp: request_floor_def requested_floor_def split: if_splits)
qed (simp add: request_floor_def)

end
