(* ===== verification/Allocation_Service.thy ===== *)
theory Allocation_Service
  imports Run_Services
begin

text \<open>
  The commit of an allocation to the persisted fleet: what the inputs are, that the simulator of
  the commit can always be built and never refuses the plan, and what the rows hold afterwards.
\<close>

section \<open>The inputs of an allocation\<close>

definition idle_row :: "robot_record \<Rightarrow> bool" where
  "idle_row r \<longleftrightarrow> rec_status r = robot_status_value R_IDLE \<and> rec_assigned_task_id r = None"

definition idle_robots :: "store \<Rightarrow> robot list" where
  "idle_robots db = map domain_robot (filter idle_row (list_robot_rows None db))"

definition waiting_tasks :: "store \<Rightarrow> task list" where
  "waiting_tasks db = map domain_task (pending_rows db)"

lemma domain_robot_sel [simp]:
  "robot_id (domain_robot r) = rec_robot_id r" "robot_position (domain_robot r) = row_cell r"
  "assigned_task_id (domain_robot r) = rec_assigned_task_id r"
  "robot_status (domain_robot r) = the (robot_status_of (rec_status r))"
  by (simp_all add: domain_robot_def robot_default_def)

lemma domain_task_sel [simp]:
  "task_id (domain_task t) = rec_task_id t"
  "pickup_location (domain_task t) = Position (rec_pickup_row t) (rec_pickup_col t)"
  "dropoff_location (domain_task t) = Position (rec_dropoff_row t) (rec_dropoff_col t)"
  "task_status (domain_task t) = the (task_status_of (rec_task_status t))"
  "assigned_robot_id (domain_task t) = rec_assigned_robot_id t"
  by (simp_all add: domain_task_def fresh_task_def)

text \<open>A listing has each row once, under its key.\<close>

lemma distinct_rows:
  assumes "dict_ok d" "\<And>i x. dict_get d i = Some x \<Longrightarrow> f x = i"
  shows "distinct (map f (map snd (sort_key fst d)))"
proof -
  have "map f (map snd (sort_key fst d)) = map fst (sort_key fst d)"
    using assms dict_get_Some_iff [OF assms(1)] by auto
  moreover have "distinct (map fst (sort_key fst d))"
    using assms(1) by (metis dict_ok_def distinct_map mset_eq_imp_distinct_iff mset_map mset_sort)
  ultimately show ?thesis by (simp only:)
qed

lemma idle_rows:
  assumes "store_ok db"
  shows "distinct (map rec_robot_id (list_robot_rows None db))"
    "r \<in> set (list_robot_rows None db) \<Longrightarrow> dict_get (robots_table db) (rec_robot_id r) = Some r \<and> robot_row_ok r \<and>
       is_traversable sample_floor (row_cell r)"
    "r \<in> set (list_robot_rows None db) \<Longrightarrow> q \<in> set (list_robot_rows None db) \<Longrightarrow> row_cell r = row_cell q \<Longrightarrow> r = q"
proof -
  have R: "robots_table_ok (robots_table db)" using assms by (simp add: store_ok_def)
  note mem = list_robot_rows_mem [OF R]
  show "distinct (map rec_robot_id (list_robot_rows None db))"
    using distinct_rows [of "robots_table db" rec_robot_id] R by (simp add: list_robot_rows_def robots_table_ok_def)
  show "dict_get (robots_table db) (rec_robot_id r) = Some r \<and> robot_row_ok r \<and> is_traversable sample_floor (row_cell r)"
    if "r \<in> set (list_robot_rows None db)" for r
    using that R unfolding mem robots_table_ok_def by blast
  show "r = q" if "r \<in> set (list_robot_rows None db)" "q \<in> set (list_robot_rows None db)" "row_cell r = row_cell q"
  proof -
    have "\<forall>i j r q. dict_get (robots_table db) i = Some r \<longrightarrow> dict_get (robots_table db) j = Some q \<longrightarrow> row_cell r = row_cell q \<longrightarrow> i = j"
      using R unfolding robots_table_ok_def by (elim conjE)
    from this [rule_format, OF that(1,2) [unfolded mem] that(3)] have "rec_robot_id r = rec_robot_id q" .
    then show ?thesis using that(1,2) [unfolded mem] by (metis option.inject)
  qed
qed

lemma waiting_rows:
  assumes "store_ok db"
  shows "distinct (map rec_task_id (pending_rows db))"
    "t \<in> set (pending_rows db) \<longleftrightarrow> dict_get (tasks_table db) (rec_task_id t) = Some t \<and> rec_task_status t = ''pending''"
    "t \<in> set (pending_rows db) \<Longrightarrow> task_entry_ok (robots_table db) (rec_task_id t) t"
proof -
  have T: "dict_ok (tasks_table db)" "\<And>i t. dict_get (tasks_table db) i = Some t \<Longrightarrow> task_entry_ok (robots_table db) i t"
    using assms by (auto simp: store_ok_def tasks_table_ok_def)
  have key: "dict_get (tasks_table db) i = Some t \<Longrightarrow> rec_task_id t = i" for i t using T(2) by (simp add: task_entry_ok_def)
  show "distinct (map rec_task_id (pending_rows db))"
    unfolding pending_rows_def list_task_rows_def by (rule distinct_map_filter [OF distinct_rows [OF T(1) key]])
  show mem: "t \<in> set (pending_rows db) \<longleftrightarrow> dict_get (tasks_table db) (rec_task_id t) = Some t \<and> rec_task_status t = ''pending''" for t
  proof -
    have "t \<in> set (pending_rows db) \<longleftrightarrow> (\<exists>i. (i, t) \<in> set (tasks_table db)) \<and> rec_task_status t = ''pending''"
      by (force simp: pending_rows_def list_task_rows_def)
    then show ?thesis using dict_get_Some_iff [OF T(1)] key by metis
  qed
  show "task_entry_ok (robots_table db) (rec_task_id t) t" if "t \<in> set (pending_rows db)"
    using that T(2) unfolding mem by blast
qed

lemma idle_robots_ok:
  assumes "store_ok db"
  shows "distinct (map robot_id (idle_robots db))" "distinct (map robot_position (idle_robots db))"
    "r \<in> set (idle_robots db) \<Longrightarrow> robot_core_ok r \<and> assigned_task_id r = None \<and> robot_status r = R_IDLE \<and>
       is_traversable sample_floor (robot_position r)"
proof -
  note rows = idle_rows [OF assms]
  have d: "distinct (map rec_robot_id (filter idle_row (list_robot_rows None db)))" by (rule distinct_map_filter [OF rows(1)])
  then show "distinct (map robot_id (idle_robots db))" by (simp add: idle_robots_def comp_def)
  show "distinct (map robot_position (idle_robots db))"
    using d rows(3) by (auto simp: idle_robots_def comp_def distinct_map inj_on_def)
  show "r \<in> set (idle_robots db) \<Longrightarrow> robot_core_ok r \<and> assigned_task_id r = None \<and> robot_status r = R_IDLE \<and>
       is_traversable sample_floor (robot_position r)"
    using rows(2) robot_from_record_ok(2) by (auto simp: idle_robots_def idle_row_def robot_status_of_def)
qed

lemma waiting_tasks_ok:
  assumes "store_ok db"
  shows "distinct (map task_id (waiting_tasks db))"
    "t \<in> set (waiting_tasks db) \<Longrightarrow> task_ok t \<and> task_status t = T_PENDING \<and>
       check_endpoints sample_floor [pickup_location t, dropoff_location t] = Inr ()"
proof -
  note rows = waiting_rows [OF assms]
  show "distinct (map task_id (waiting_tasks db))" using rows(1) by (simp add: waiting_tasks_def comp_def)
  assume "t \<in> set (waiting_tasks db)"
  then obtain u where u: "u \<in> set (pending_rows db)" "t = domain_task u" by (auto simp: waiting_tasks_def)
  have s: "task_status_of (rec_task_status u) = Some T_PENDING" using u(1) rows(2) by (simp add: task_status_of_def)
  have e: "task_row_ok u" "reachable_cell (pickup_location t)" "reachable_cell (dropoff_location t)" "rec_assigned_robot_id u = None"
    using rows(3) [OF u(1)] rows(2) [of u] u by (auto simp: task_entry_ok_def task_row_ok_def)
  then show "task_ok t \<and> task_status t = T_PENDING \<and> check_endpoints sample_floor [pickup_location t, dropoff_location t] = Inr ()"
    using s u(2) by (auto simp: task_ok_def task_row_ok_def reachable_cell_def domain_task_def fresh_task_def)
qed

lemma persisted_inputs:
  assumes "store_ok db"
  shows "allocation_inputs robots tasks True db =
    (if idle_robots db = [] \<or> waiting_tasks db = [] then Inl Validation_Failed else Inr (idle_robots db, waiting_tasks db))"
proof -
  have "res_map robot_from_record (filter idle_row (list_robot_rows None db)) = Inr (idle_robots db)"
    unfolding idle_robots_def by (rule res_map_pure) (use idle_rows(2) [OF assms] robot_from_record_ok(1) in auto)
  moreover have "res_map task_from_record (pending_rows db) = Inr (waiting_tasks db)"
    unfolding waiting_tasks_def
    by (rule res_map_pure) (use waiting_rows(3) [OF assms] task_from_record_ok in \<open>auto simp: task_entry_ok_def\<close>)
  ultimately show ?thesis unfolding allocation_inputs_def idle_row_def [abs_def] by simp
qed

text \<open>The simulator of a commit holds exactly these robots and tasks.\<close>

lemma persisted_simulator:
  assumes "store_ok db"
  shows "\<exists>s. build_simulator sample_floor (idle_robots db) (waiting_tasks db) = Inr s \<and> sim_reachable sample_floor s \<and>
    sim_warehouse s = sample_floor \<and> sim_robots s = map (\<lambda>r. (robot_id r, r)) (idle_robots db) \<and>
    sim_tasks s = map (\<lambda>t. (task_id t, t)) (waiting_tasks db)"
proof -
  note R = idle_robots_ok [OF assms] and T = waiting_tasks_ok [OF assms]
  have "\<forall>r \<in> set (idle_robots db). robot_core_ok r \<and> assigned_task_id r = None \<and>
      is_traversable (sim_warehouse (sim_init sample_floor)) (robot_position r) \<and>
      dict_get (sim_robots (sim_init sample_floor)) (robot_id r) = None \<and> robot_at (sim_init sample_floor) (robot_position r) = None"
    using R(3) by (simp add: sim_init_def robot_at_def)
  from add_robots_ok [OF reach_init R(1,2) this]
  obtain s1 where s1: "res_fold add_robot (idle_robots db) (sim_init sample_floor) = Inr s1" "sim_reachable sample_floor s1"
    "sim_warehouse s1 = sample_floor" "sim_tasks s1 = []" "sim_robots s1 = map (\<lambda>r. (robot_id r, r)) (idle_robots db)"
    by (auto simp: sim_init_def)
  have "\<forall>t \<in> set (waiting_tasks db). task_ok t \<and> task_status t = T_PENDING \<and> dict_get (sim_tasks s1) (task_id t) = None \<and>
      check_endpoints (sim_warehouse s1) [pickup_location t, dropoff_location t] = Inr ()"
    using T(2) s1(3,4) by simp
  from add_tasks_ok [OF s1(2) T(1) this] show ?thesis
    using s1 by (auto simp: build_simulator_def reject_robotics_def)
qed

section \<open>Writing a simulator back\<close>

lemma write_back_robots_get:
  assumes "distinct (map robot_id rs)" "\<And>i r. dict_get (robots_table db) i = Some r \<Longrightarrow> rec_robot_id r = i"
  shows "dict_get (robots_table (fold write_back_robot rs db)) i = (case find (\<lambda>r. robot_id r = i) rs of
      None \<Rightarrow> dict_get (robots_table db) i
    | Some q \<Rightarrow> map_option (\<lambda>r. r\<lparr>rec_status := robot_status_value (robot_status q), rec_assigned_task_id := assigned_task_id q\<rparr>)
        (dict_get (robots_table db) i))"
  using assms
proof (induction rs arbitrary: db)
  case (Cons q rs)
  let ?db = "write_back_robot q db"
  have get: "dict_get (robots_table ?db) i = (if robot_id q = i
      then map_option (\<lambda>r. r\<lparr>rec_status := robot_status_value (robot_status q), rec_assigned_task_id := assigned_task_id q\<rparr>)
        (dict_get (robots_table db) i) else dict_get (robots_table db) i)" for i
    using Cons.prems(2) [of "robot_id q"] by (auto simp: write_back_robot_def put_robot_row_def split: option.split)
  have keys: "rec_robot_id r = i" if "dict_get (robots_table ?db) i = Some r" for i r
    using that Cons.prems(2) [of i] unfolding get by (auto split: if_splits)
  have IH: "dict_get (robots_table (fold write_back_robot rs ?db)) i = (case find (\<lambda>r. robot_id r = i) rs of
      None \<Rightarrow> dict_get (robots_table ?db) i
    | Some q \<Rightarrow> map_option (\<lambda>r. r\<lparr>rec_status := robot_status_value (robot_status q), rec_assigned_task_id := assigned_task_id q\<rparr>)
        (dict_get (robots_table ?db) i))"
    by (rule Cons.IH) (use Cons.prems(1) keys in simp_all)
  have "find (\<lambda>r. robot_id r = robot_id q) rs = None" using Cons.prems(1) by (intro find_None_notin) simp
  then show ?case by (auto simp: IH get split: option.split)
qed simp

lemma write_back_tasks_get:
  assumes "distinct (map task_id ts)" "\<And>i t. dict_get (tasks_table db) i = Some t \<Longrightarrow> rec_task_id t = i"
  shows "dict_get (tasks_table (fold write_back_task ts db)) i = (case find (\<lambda>t. task_id t = i) ts of
      None \<Rightarrow> dict_get (tasks_table db) i
    | Some u \<Rightarrow> map_option (\<lambda>t. t\<lparr>rec_task_status := task_status_value (task_status u), rec_assigned_robot_id := assigned_robot_id u\<rparr>)
        (dict_get (tasks_table db) i))"
  using assms
proof (induction ts arbitrary: db)
  case (Cons u ts)
  let ?db = "write_back_task u db"
  have get: "dict_get (tasks_table ?db) i = (if task_id u = i
      then map_option (\<lambda>t. t\<lparr>rec_task_status := task_status_value (task_status u), rec_assigned_robot_id := assigned_robot_id u\<rparr>)
        (dict_get (tasks_table db) i) else dict_get (tasks_table db) i)" for i
    using Cons.prems(2) [of "task_id u"] by (auto simp: write_back_task_def put_task_row_def split: option.split)
  have keys: "rec_task_id t = i" if "dict_get (tasks_table ?db) i = Some t" for i t
    using that Cons.prems(2) [of i] unfolding get by (auto split: if_splits)
  have IH: "dict_get (tasks_table (fold write_back_task ts ?db)) i = (case find (\<lambda>t. task_id t = i) ts of
      None \<Rightarrow> dict_get (tasks_table ?db) i
    | Some u \<Rightarrow> map_option (\<lambda>t. t\<lparr>rec_task_status := task_status_value (task_status u), rec_assigned_robot_id := assigned_robot_id u\<rparr>)
        (dict_get (tasks_table ?db) i))"
    by (rule Cons.IH) (use Cons.prems(1) keys in simp_all)
  have "find (\<lambda>t. task_id t = task_id u) ts = None" using Cons.prems(1) by (intro find_None_notin) simp
  then show ?case by (auto simp: IH get split: option.split)
qed simp

lemma write_back_frame [simp]:
  "tasks_table (fold write_back_robot rs db) = tasks_table db" "robots_table (fold write_back_task ts db) = robots_table db"
  "allocation_runs (fold write_back_robot rs db) = allocation_runs db" "allocation_runs (fold write_back_task ts db) = allocation_runs db"
proof -
  show "tasks_table (fold write_back_robot rs db) = tasks_table db"
    by (induction rs arbitrary: db) (simp_all add: write_back_robot_def put_robot_row_def split: option.split)
  show "robots_table (fold write_back_task ts db) = robots_table db"
    by (induction ts arbitrary: db) (simp_all add: write_back_task_def put_task_row_def split: option.split)
  show "allocation_runs (fold write_back_robot rs db) = allocation_runs db"
    by (induction rs arbitrary: db) (simp_all add: write_back_robot_def put_robot_row_def split: option.split)
  show "allocation_runs (fold write_back_task ts db) = allocation_runs db"
    by (induction ts arbitrary: db) (simp_all add: write_back_task_def put_task_row_def split: option.split)
qed

lemma write_back_dicts:
  "dict_ok (robots_table db) \<Longrightarrow> dict_ok (robots_table (fold write_back_robot rs db))"
  "dict_ok (tasks_table db) \<Longrightarrow> dict_ok (tasks_table (fold write_back_task ts db))"
proof -
  show "dict_ok (robots_table db) \<Longrightarrow> dict_ok (robots_table (fold write_back_robot rs db))"
    by (induction rs arbitrary: db) (simp_all add: write_back_robot_def put_robot_row_def split: option.split)
  show "dict_ok (tasks_table db) \<Longrightarrow> dict_ok (tasks_table (fold write_back_task ts db))"
    by (induction ts arbitrary: db) (simp_all add: write_back_task_def put_task_row_def split: option.split)
qed

text \<open>The rows after a plan: its tasks and robots are assigned to each other, other rows are as they were.\<close>

definition rows_engaged :: "assignment list \<Rightarrow> store \<Rightarrow> store \<Rightarrow> bool" where
  "rows_engaged as db db' \<longleftrightarrow>
     (\<forall>i. dict_get (robots_table db') i = map_option (\<lambda>r. case find (\<lambda>a. as_robot_id a = i) as of None \<Rightarrow> r
        | Some a \<Rightarrow> r\<lparr>rec_status := ''assigned'', rec_assigned_task_id := Some (as_task_id a)\<rparr>) (dict_get (robots_table db) i)) \<and>
     (\<forall>i. dict_get (tasks_table db') i = map_option (\<lambda>t. case find (\<lambda>a. as_task_id a = i) as of None \<Rightarrow> t
        | Some a \<Rightarrow> t\<lparr>rec_task_status := ''assigned'', rec_assigned_robot_id := Some (as_robot_id a)\<rparr>) (dict_get (tasks_table db) i))"

lemma find_values:
  assumes "sim_ok s"
  shows "find (\<lambda>r. robot_id r = i) (dict_values (sim_robots s)) = dict_get (sim_robots s) i"
    "find (\<lambda>t. task_id t = i) (dict_values (sim_tasks s)) = dict_get (sim_tasks s) i"
proof -
  have find_key: "find (\<lambda>x. f x = i) (map snd d) = dict_get d i"
    if "\<And>k x. (k, x) \<in> set d \<Longrightarrow> f x = k" for f and d :: "('k, 'v) dict" and i
    using that by (induction d) auto
  note d = sim_ok_dicts [OF assms]
  show "find (\<lambda>r. robot_id r = i) (dict_values (sim_robots s)) = dict_get (sim_robots s) i"
    by (rule find_key) (use sim_ok_robotD [OF assms] dict_get_Some_iff [OF d(1)] in blast)
  show "find (\<lambda>t. task_id t = i) (dict_values (sim_tasks s)) = dict_get (sim_tasks s) i"
    by (rule find_key) (use sim_ok_taskD [OF assms] dict_get_Some_iff [OF d(2)] in blast)
qed

lemma in_plan_known:
  assumes "legal_plan planner w robots tasks as" "find (\<lambda>a. as_robot_id a = i) as = Some a"
  shows "\<exists>r \<in> set robots. robot_id r = i"
  using assms by (auto simp: find_Some_iff legal_plan_def legal_assignment_def) (metis assignment.select_convs(1) nth_mem)

lemma in_plan_known_task:
  assumes "legal_plan planner w robots tasks as" "find (\<lambda>a. as_task_id a = i) as = Some a"
  shows "\<exists>t \<in> set tasks. task_id t = i"
  using assms by (auto simp: find_Some_iff legal_plan_def legal_assignment_def) (metis assignment.select_convs(2) nth_mem)

lemma keyed_get:
  assumes "distinct (map f xs)"
  shows "dict_get (map (\<lambda>x. (f x, x)) xs) i = Some x \<longleftrightarrow> x \<in> set xs \<and> f x = i"
proof -
  have "dict_ok (map (\<lambda>x. (f x, x)) xs)" using assms by (simp add: dict_ok_def comp_def)
  then show ?thesis by (auto simp: dict_get_Some_iff)
qed

lemma write_back_rows:
  assumes ok: "store_ok db" and s: "sim_robots s = map (\<lambda>r. (robot_id r, r)) (idle_robots db)"
    "sim_tasks s = map (\<lambda>t. (task_id t, t)) (waiting_tasks db)"
    and plan: "legal_plan planner w (idle_robots db) (waiting_tasks db) as" and after: "after_plan as s s'" and s': "sim_ok s'"
  shows "rows_engaged as db (write_back s' db)"
  unfolding rows_engaged_def
proof (intro conjI allI)
  fix i
  have keys: "dict_get (robots_table db) i = Some r \<Longrightarrow> rec_robot_id r = i"
    "dict_get (tasks_table db) i = Some t \<Longrightarrow> rec_task_id t = i" for i r t
    using ok by (auto simp: store_ok_def robots_table_ok_def tasks_table_ok_def task_entry_ok_def)
  note v = values_distinct [OF sim_ok_dicts(1) [OF s'], of robot_id] values_distinct [OF sim_ok_dicts(2) [OF s'], of task_id]
  have dr: "distinct (map robot_id (dict_values (sim_robots s')))" and dt: "distinct (map task_id (dict_values (sim_tasks s')))"
    using v sim_ok_robotD [OF s'] sim_ok_taskD [OF s'] by blast+
  let ?rdb = "fold write_back_robot (dict_values (sim_robots s')) db"
  have rows: "dict_get (robots_table (write_back s' db)) i = (case map_option (engaged as i) (dict_get (sim_robots s) i) of
      None \<Rightarrow> dict_get (robots_table db) i
    | Some q \<Rightarrow> map_option (\<lambda>r. r\<lparr>rec_status := robot_status_value (robot_status q), rec_assigned_task_id := assigned_task_id q\<rparr>)
        (dict_get (robots_table db) i))"
    using write_back_robots_get [OF dr keys(1)] after find_values(1) [OF s'] by (simp add: write_back_def after_plan_def)
  show "dict_get (robots_table (write_back s' db)) i = map_option (\<lambda>r. case find (\<lambda>a. as_robot_id a = i) as of None \<Rightarrow> r
        | Some a \<Rightarrow> r\<lparr>rec_status := ''assigned'', rec_assigned_task_id := Some (as_task_id a)\<rparr>) (dict_get (robots_table db) i)"
  proof (cases "dict_get (sim_robots s) i")
    case None
    then have "find (\<lambda>a. as_robot_id a = i) as = None"
      using in_plan_known [OF plan, of i] keyed_get [OF idle_robots_ok(1) [OF ok], of i]
      by (cases "find (\<lambda>a. as_robot_id a = i) as") (auto simp: s(1))
    then show ?thesis using None by (simp add: rows option.map_ident)
  next
    case (Some q)
    then have q: "q \<in> set (idle_robots db)" "robot_id q = i" using keyed_get [OF idle_robots_ok(1) [OF ok]] by (auto simp: s(1))
    then obtain r where r: "r \<in> set (list_robot_rows None db)" "idle_row r" "q = domain_robot r" by (auto simp: idle_robots_def)
    then have "dict_get (robots_table db) i = Some r" using idle_rows(2) [OF ok r(1)] q(2) by simp
    then show ?thesis using Some r(2,3)
      by (auto simp: rows engaged_def idle_row_def robot_status_of_def split: option.split)
  qed
  have trows: "dict_get (tasks_table (write_back s' db)) i = (case map_option (handed as i) (dict_get (sim_tasks s) i) of
      None \<Rightarrow> dict_get (tasks_table db) i
    | Some q \<Rightarrow> map_option (\<lambda>t. t\<lparr>rec_task_status := task_status_value (task_status q), rec_assigned_robot_id := assigned_robot_id q\<rparr>)
        (dict_get (tasks_table db) i))"
    using write_back_tasks_get [OF dt, of ?rdb i, unfolded write_back_frame] keys(2) after find_values(2) [OF s'] by (simp add: write_back_def after_plan_def)
  show "dict_get (tasks_table (write_back s' db)) i = map_option (\<lambda>t. case find (\<lambda>a. as_task_id a = i) as of None \<Rightarrow> t
        | Some a \<Rightarrow> t\<lparr>rec_task_status := ''assigned'', rec_assigned_robot_id := Some (as_robot_id a)\<rparr>) (dict_get (tasks_table db) i)"
  proof (cases "dict_get (sim_tasks s) i")
    case None
    then have "find (\<lambda>a. as_task_id a = i) as = None"
      using in_plan_known_task [OF plan, of i] keyed_get [OF waiting_tasks_ok(1) [OF ok], of i]
      by (cases "find (\<lambda>a. as_task_id a = i) as") (auto simp: s(2))
    then show ?thesis using None by (simp add: trows option.map_ident)
  next
    case (Some q)
    then have q: "q \<in> set (waiting_tasks db)" "task_id q = i" using keyed_get [OF waiting_tasks_ok(1) [OF ok]] by (auto simp: s(2))
    then obtain t where t: "t \<in> set (pending_rows db)" "q = domain_task t" by (auto simp: waiting_tasks_def)
    then have "dict_get (tasks_table db) i = Some t" "rec_task_status t = ''pending''" "rec_assigned_robot_id t = None"
      using waiting_rows(2,3) [OF ok, of t] q(2) by (auto simp: task_entry_ok_def task_row_ok_def)
    then show ?thesis using Some t(2)
      by (auto simp: trows handed_def task_status_of_def split: option.split)
  qed
qed

lemma rows_engaged_ok:
  assumes ok: "store_ok db" and e: "rows_engaged as db db'" and robots: "\<And>a. a \<in> set as \<Longrightarrow> dict_get (robots_table db) (as_robot_id a) \<noteq> None"
    and d: "dict_ok (robots_table db')" "dict_ok (tasks_table db')"
  shows "store_ok db'"
proof -
  have st: "robot_status_of ''assigned'' \<noteq> None" "task_status_of ''assigned'' \<noteq> None"
    by (simp_all add: robot_status_of_def task_status_of_def)
  have R: "robots_table_ok (robots_table db)" using ok by (simp add: store_ok_def)
  have old: "\<exists>q. dict_get (robots_table db) i = Some q \<and> row_cell r = row_cell q \<and> rec_robot_id r = rec_robot_id q \<and>
      (robot_row_ok q \<longrightarrow> robot_row_ok r)" if "dict_get (robots_table db') i = Some r" for i r
    using that e st unfolding rows_engaged_def
    by (auto simp: row_cell_def robot_row_ok_def split: option.splits)
  have "robots_table_ok (robots_table db')" unfolding robots_table_ok_def
  proof (intro conjI allI impI)
    fix i r assume "dict_get (robots_table db') i = Some r"
    from old [OF this] show "rec_robot_id r = i" "robot_row_ok r" "is_traversable sample_floor (row_cell r)"
      using R unfolding robots_table_ok_def by auto
  next
    fix i j r q assume g: "dict_get (robots_table db') i = Some r" "dict_get (robots_table db') j = Some q" "row_cell r = row_cell q"
    obtain r0 q0 where "dict_get (robots_table db) i = Some r0" "dict_get (robots_table db) j = Some q0" "row_cell r0 = row_cell q0"
      using old [OF g(1)] old [OF g(2)] g(3) by auto
    then show "i = j" using R unfolding robots_table_ok_def by (elim conjE) blast
  qed (rule d(1))
  moreover have "tasks_table_ok (robots_table db') (tasks_table db')" unfolding tasks_table_ok_def
  proof (intro conjI allI impI)
    fix i t assume "dict_get (tasks_table db') i = Some t"
    then obtain u where u: "dict_get (tasks_table db) i = Some u"
      "t = (case find (\<lambda>a. as_task_id a = i) as of None \<Rightarrow> u
        | Some a \<Rightarrow> u\<lparr>rec_task_status := ''assigned'', rec_assigned_robot_id := Some (as_robot_id a)\<rparr>)"
      using e unfolding rows_engaged_def by auto
    have t0: "task_entry_ok (robots_table db) i u" using ok u(1) by (simp add: store_ok_def tasks_table_ok_def)
    have known: "dict_get (robots_table db') k \<noteq> None" if "dict_get (robots_table db) k \<noteq> None" for k
      using that e unfolding rows_engaged_def by simp
    have "dict_get (robots_table db) (as_robot_id a) \<noteq> None" if "find (\<lambda>a. as_task_id a = i) as = Some a" for a
      using that robots by (auto simp: find_Some_iff)
    then show "task_entry_ok (robots_table db') i t"
      using t0 st(2) known unfolding u(2) task_entry_ok_def task_row_ok_def by (auto split: option.splits)
  qed (rule d(2))
  ultimately show ?thesis by (simp add: store_ok_def)
qed

lemma commit_persisted_ok:
  assumes ok: "store_ok db" and success: "al_success res"
    and plan: "legal_plan plan_astar sample_floor (idle_robots db) (waiting_tasks db) (al_assignments res)"
  shows "\<exists>db'. commit_persisted sample_floor (idle_robots db) (waiting_tasks db) res db =
      Inr (map (\<lambda>a. (as_robot_id a, as_task_id a)) (al_assignments res), db') \<and>
    rows_engaged (al_assignments res) db db' \<and> store_ok db' \<and> allocation_runs db' = allocation_runs db"
proof -
  obtain s where s: "build_simulator sample_floor (idle_robots db) (waiting_tasks db) = Inr s" "sim_reachable sample_floor s"
    "sim_robots s = map (\<lambda>r. (robot_id r, r)) (idle_robots db)" "sim_tasks s = map (\<lambda>t. (task_id t, t)) (waiting_tasks db)"
    using persisted_simulator [OF ok] by blast
  have vals: "dict_values (sim_robots s) = idle_robots db" "dict_values (sim_tasks s) = waiting_tasks db"
    by (simp_all add: s(3,4) comp_def)
  have committable: "\<forall>a \<in> set (al_assignments res). committable s a"
    using plan legal_committable [OF s(2) sample_floor_ok] unfolding vals legal_plan_def by blast
  have "distinct (map as_robot_id (al_assignments res))" "distinct (map as_task_id (al_assignments res))"
    using plan by (simp_all add: legal_plan_def)
  from commit_ok [OF s(2) sample_floor_ok success this committable]
  obtain s' where s': "commit_allocation res s = (Inr \<lparr>cr_committed = True,
      cr_applied = map (\<lambda>a. (as_robot_id a, as_task_id a)) (al_assignments res), cr_rejected = None\<rparr>, s')"
    "sim_reachable sample_floor s'" "after_plan (al_assignments res) s s'" by blast
  have ok': "sim_ok s'" using sim_reachable_ok [OF s'(2) sample_floor_ok] by simp
  have rows: "rows_engaged (al_assignments res) db (write_back s' db)" by (rule write_back_rows [OF ok s(3,4) plan s'(3) ok'])
  have robots: "dict_get (robots_table db) (as_robot_id a) \<noteq> None" if "a \<in> set (al_assignments res)" for a
  proof -
    have "legal_assignment plan_astar sample_floor (idle_robots db) (waiting_tasks db) a" using plan that by (simp add: legal_plan_def)
    then obtain r where "r \<in> set (idle_robots db)" "as_robot_id a = robot_id r" by (auto simp: legal_assignment_def)
    then show ?thesis using idle_rows(2) [OF ok] by (auto simp: idle_robots_def)
  qed
  have "dict_ok (robots_table (write_back s' db))" "dict_ok (tasks_table (write_back s' db))"
    using ok by (auto simp: write_back_def store_ok_def robots_table_ok_def tasks_table_ok_def intro!: write_back_dicts)
  from rows_engaged_ok [OF ok rows robots this] show ?thesis
    using s(1) s'(1) rows by (simp add: commit_persisted_def write_back_def)
qed

lemma add_allocation_run_frame [simp]:
  "robots_table (add_allocation_run run db) = robots_table db" "tasks_table (add_allocation_run run db) = tasks_table db"
  "allocation_runs (add_allocation_run run db) = allocation_runs db @ [run]" "store_ok (add_allocation_run run db) = store_ok db"
  "rows_engaged as db0 (add_allocation_run run db) = rows_engaged as db0 db"
  by (simp_all add: add_allocation_run_def store_ok_def rows_engaged_def)

lemma run_allocation_persisted:
  assumes ok: "store_ok db" and solver: "solver_ok solver" and alg: "algorithm \<in> {''greedy'', ''cp_sat''}"
    and some: "idle_robots db \<noteq> []" "waiting_tasks db \<noteq> []"
  shows "\<exists>out db'. run_allocation solver algorithm robots tasks True commit db = (Inr out, db') \<and>
    legal_plan plan_astar sample_floor (idle_robots db) (waiting_tasks db) (al_assignments (ao_result out)) \<and>
    (ao_committed out \<longleftrightarrow> commit \<and> al_assignments (ao_result out) \<noteq> []) \<and>
    (if ao_committed out then rows_engaged (al_assignments (ao_result out)) db db'
     else robots_table db' = robots_table db \<and> tasks_table db' = tasks_table db) \<and> store_ok db' \<and>
    allocation_runs db' = allocation_runs db @
      [allocation_row algorithm (length (idle_robots db)) (length (waiting_tasks db)) (ao_committed out) (ao_result out)]"
proof -
  let ?rs = "idle_robots db" and ?ts = "waiting_tasks db" and ?est = "estimator_init sample_floor plan_astar"
  obtain run where run: "dict_get (allocators solver) algorithm = Some run" "run = greedy_allocate \<or> run = cp_sat_allocate solver"
    using alg by (auto simp: allocators_def)
  have "in_bounds w a \<and> in_bounds w b" if "check_endpoints w [a, b] = Inr ()" for w a b
    using that by (simp split: if_splits)
  then have "inside (est_warehouse ?est) ?rs ?ts"
    using idle_robots_ok(3) [OF ok] waiting_tasks_ok(2) [OF ok] is_traversable_in_bounds
    unfolding inside_def estimator_init_sel by blast
  moreover have "unique_ids ?rs ?ts" using idle_robots_ok(1) [OF ok] waiting_tasks_ok(1) [OF ok] by (simp add: unique_ids_def)
  moreover have "route_planner ''astar'' (est_planner ?est)" unfolding estimator_init_sel by (rule astar_router.route_planner_axioms)
  ultimately obtain res est' where res: "run ?rs ?ts ?est = (Inr res, est')"
    and plan: "if al_success res then legal_plan plan_astar sample_floor ?rs ?ts (al_assignments res) else al_assignments res = []"
    using allocator_result [OF estimator_init_ok, of "''astar''" sample_floor plan_astar ?rs ?ts solver run] run(2) solver
    unfolding estimator_init_sel by blast
  have legal: "legal_plan plan_astar sample_floor ?rs ?ts (al_assignments res)"
    using plan by (auto simp: legal_plan_def split: if_splits)
  note red = run_allocation_def run(1) persisted_inputs [OF ok] some res lift_error_def
  show ?thesis
  proof (cases "commit \<and> al_assignments res \<noteq> []")
    case True
    then have "al_success res" using plan by (auto split: if_splits)
    from commit_persisted_ok [OF ok this legal] obtain db' where
      "commit_persisted sample_floor ?rs ?ts res db = Inr (map (\<lambda>a. (as_robot_id a, as_task_id a)) (al_assignments res), db')"
      "rows_engaged (al_assignments res) db db'" "store_ok db'" "allocation_runs db' = allocation_runs db" by blast
    then show ?thesis using True legal by (simp add: red)
  next
    case False
    then show ?thesis using ok legal by (auto simp: red)
  qed
qed

end
