(* ===== verification/Fleet_Requests.thy ===== *)
theory Fleet_Requests
  imports Allocation_Service
begin

text \<open>
  The requests of the API as one step relation on the store, each a transaction around a service
  method, and the invariant of the persisted fleet over all of them.
\<close>

section \<open>Requests\<close>

definition empty_store :: store where
  "empty_store = \<lparr>robots_table = [], tasks_table = [], planning_runs = [], allocation_runs = [],
     coordination_runs = [], recovery_runs = []\<rparr>"

text \<open>One committed or rolled-back request; the numbers of a request are floats.\<close>

inductive served :: "cp_solver \<Rightarrow> store \<Rightarrow> store \<Rightarrow> bool" for solver where
  serve_create_robot: "is_float battery \<Longrightarrow> is_float capacity \<Longrightarrow> is_float payload \<Longrightarrow>
    served solver db (snd (in_transaction (create_robot rid r c battery capacity payload status) db))"
| serve_update_robot: "floats_only p \<Longrightarrow> served solver db (snd (in_transaction (update_robot rid p) db))"
| serve_delete_robot: "served solver db (snd (in_transaction (delete_robot rid) db))"
| serve_create_task: "served solver db (snd (in_transaction (create_task tid pr pc dr dc prio weight) db))"
| serve_update_task: "served solver db (snd (in_transaction (update_task tid q) db))"
| serve_delete_task: "served solver db (snd (in_transaction (delete_task tid) db))"
| serve_plan: "served solver db (snd (in_transaction (plan_path pq) db))"
| serve_allocate: "served solver db (snd (in_transaction (run_allocation solver algorithm robots tasks persisted commit) db))"
| serve_coordinate: "served solver db (snd (in_transaction (coordinate_fleet specs order horizon width height obstacles) db))"
| serve_obstacle: "served solver db (snd (in_transaction
    (recover_from_obstacle fleet r c t order horizon enabled width height obstacles) db))"
| serve_failure: "served solver db (snd (in_transaction
    (recover_from_robot_failure fleet failed t order horizon enabled width height obstacles commit) db))"

lemma in_transaction_ok: "store_ok db \<Longrightarrow> store_ok (snd (handler db)) \<Longrightarrow> store_ok (snd (in_transaction handler db))"
  by (auto simp: in_transaction_def split: prod.split sum.split)

lemma add_run_ok [simp]:
  "store_ok (add_planning_run pl db) = store_ok db" "store_ok (add_coordination_run co db) = store_ok db"
  "store_ok (add_recovery_run re db) = store_ok db"
  by (simp_all add: add_planning_run_def add_coordination_run_def add_recovery_run_def store_ok_def)

lemma plan_path_ok: "store_ok db \<Longrightarrow> store_ok (snd (plan_path q db))"
  by (auto simp: plan_path_def Let_def split: option.split sum.split)

lemma coordinate_fleet_ok: "store_ok db \<Longrightarrow> store_ok (snd (coordinate_fleet specs order horizon width height obstacles db))"
  by (auto simp: coordinate_fleet_def Let_def split: sum.split)

lemma run_allocation_Inl: "fst (run_allocation solver algorithm robots tasks persisted commit db) = Inl e \<Longrightarrow>
    snd (run_allocation solver algorithm robots tasks persisted commit db) = db"
  by (auto simp: run_allocation_def split: option.splits if_splits sum.splits)

lemma run_allocation_ok:
  assumes ok: "store_ok db" and solver: "solver_ok solver"
  shows "store_ok (snd (run_allocation solver algorithm robots tasks persisted commit db))"
proof (cases "fst (run_allocation solver algorithm robots tasks persisted commit db)")
  case (Inl e)
  then show ?thesis using ok run_allocation_Inl [OF Inl] by simp
next
  case (Inr out)
  have alg: "algorithm \<in> {''greedy'', ''cp_sat''}" "commit \<longrightarrow> persisted"
    using Inr by (auto simp: run_allocation_def allocators_def split: if_splits)
  show ?thesis
  proof (cases persisted)
    case True
    have some: "idle_robots db \<noteq> [] \<and> waiting_tasks db \<noteq> []"
      using Inr True by (auto simp: run_allocation_def persisted_inputs [OF ok] split: option.splits if_splits)
    then show ?thesis using run_allocation_persisted [OF ok solver alg(1), of robots tasks commit] True by auto
  next
    case False
    then show ?thesis using ok alg(2)
      by (auto simp: run_allocation_def res_bind_Inr split: option.splits if_splits sum.splits)
  qed
qed

lemma put_robot_status:
  assumes ok: "store_ok db" and r: "dict_get (robots_table db) i = Some r" and s: "robot_status_of st \<noteq> None"
  shows "store_ok (put_robot_row (r\<lparr>rec_status := st, rec_assigned_task_id := x\<rparr>) db)"
proof -
  let ?r = "r\<lparr>rec_status := st, rec_assigned_task_id := x\<rparr>"
  have R: "robots_table_ok (robots_table db)" using ok by (simp add: store_ok_def)
  have e: "rec_robot_id r = i" "robot_row_ok r" "is_traversable sample_floor (row_cell r)"
    using R r unfolding robots_table_ok_def by blast+
  have inj: "\<forall>i j r q. dict_get (robots_table db) i = Some r \<longrightarrow> dict_get (robots_table db) j = Some q \<longrightarrow> row_cell r = row_cell q \<longrightarrow> i = j"
    using R unfolding robots_table_ok_def by (elim conjE)
  have cell: "row_cell ?r = row_cell r" by (simp add: row_cell_def)
  have "robots_table_ok (dict_set (rec_robot_id ?r) ?r (robots_table db))"
  proof (rule robots_table_put [OF R])
    show "robot_row_ok ?r" using e(2) s by (simp add: robot_row_ok_def)
    show "is_traversable sample_floor (row_cell ?r)" using e(3) by (simp add: cell)
    show "j = rec_robot_id ?r" if "dict_get (robots_table db) j = Some q" "row_cell q = row_cell ?r" for j q
      using inj [rule_format, OF that(1) r] that(2) e(1) by (simp add: cell)
  qed
  moreover have "tasks_table_ok (dict_set (rec_robot_id ?r) ?r (robots_table db)) (tasks_table db)"
    by (rule tasks_table_robots [of "robots_table db"]) (use ok in \<open>auto simp: store_ok_def\<close>)
  ultimately show ?thesis by (simp add: store_ok_def put_robot_row_def)
qed

text \<open>The store after a reassignment is written: nothing, or the failed robot, the spare and the task.\<close>

definition failed_cleared :: "event_result \<Rightarrow> store \<Rightarrow> store" where
  "failed_cleared ev db =
     (case (if truthy (ev_reassigned_from ev) then dict_get (robots_table db) (the (ev_reassigned_from ev)) else None) of
        None \<Rightarrow> db
      | Some r \<Rightarrow> put_robot_row (r\<lparr>rec_status := robot_status_value R_OFFLINE, rec_assigned_task_id := None\<rparr>) db)"

lemma persist_reassignment_Inr:
  assumes "persist_reassignment sim ev db = Inr (applied, db')"
  shows "applied = [] \<and> db' = db \<or> applied \<noteq> [] \<and> ev_task_reassignment_success ev \<and>
    (\<exists>spare tid t r. ev_reassigned_to ev = Some spare \<and> ev_reassigned_task_id ev = Some tid \<and>
       dict_get (tasks_table db) tid = Some t \<and> dict_get (robots_table db) spare = Some r \<and>
       db' = put_task_row (t\<lparr>rec_task_status := task_status_value T_ASSIGNED, rec_assigned_robot_id := Some spare\<rparr>)
         (modify_robot_row spare (\<lambda>r. r\<lparr>rec_status := robot_status_value R_ASSIGNED, rec_assigned_task_id := Some tid\<rparr>)
           (failed_cleared ev db)))"
proof (cases "ev_task_reassignment_success ev \<and> truthy (ev_reassigned_to ev) \<and> truthy (ev_reassigned_task_id ev)")
  case False
  then show ?thesis using assms by (auto simp: persist_reassignment_def)
next
  case True
  then obtain spare tid where ids: "ev_reassigned_to ev = Some spare" "ev_reassigned_task_id ev = Some tid"
    by (auto simp: truthy_def)
  show ?thesis
  proof (cases "dict_get (tasks_table db) tid"; cases "dict_get (robots_table db) spare")
    fix t r assume rows: "dict_get (tasks_table db) tid = Some t" "dict_get (robots_table db) spare = Some r"
    define failed_row where "failed_row = (if truthy (ev_reassigned_from ev) then dict_get (robots_table db) (the (ev_reassigned_from ev)) else None)"
    have cleared: "failed_cleared ev db = (case failed_row of None \<Rightarrow> db
      | Some r \<Rightarrow> put_robot_row (r\<lparr>rec_status := robot_status_value R_OFFLINE, rec_assigned_task_id := None\<rparr>) db)"
      by (simp add: failed_cleared_def failed_row_def)
    show ?thesis using assms True ids rows unfolding persist_reassignment_def Let_def failed_row_def [symmetric] cleared
      by (cases failed_row) (auto simp: res_bind_Inr split: if_splits)
  qed (use assms True ids in \<open>auto simp: persist_reassignment_def\<close>)
qed

lemma failed_cleared_ok:
  assumes "store_ok db"
  shows "store_ok (failed_cleared ev db)" "tasks_table (failed_cleared ev db) = tasks_table db"
    "dict_get (robots_table (failed_cleared ev db)) i = None \<longleftrightarrow> dict_get (robots_table db) i = None"
    "Some i \<noteq> ev_reassigned_from ev \<Longrightarrow> dict_get (robots_table (failed_cleared ev db)) i = dict_get (robots_table db) i"
proof -
  have key: "rec_robot_id r = k" if "dict_get (robots_table db) k = Some r" for k r
    using assms that by (simp add: store_ok_def robots_table_ok_def)
  show "store_ok (failed_cleared ev db)" using put_robot_status [OF assms] assms
    by (auto simp: failed_cleared_def split: option.split if_splits)
  show "tasks_table (failed_cleared ev db) = tasks_table db"
    by (auto simp: failed_cleared_def put_robot_row_def split: option.split)
  show "dict_get (robots_table (failed_cleared ev db)) i = None \<longleftrightarrow> dict_get (robots_table db) i = None"
    by (auto simp: failed_cleared_def put_robot_row_def key split: option.split if_splits)
  show "Some i \<noteq> ev_reassigned_from ev \<Longrightarrow> dict_get (robots_table (failed_cleared ev db)) i = dict_get (robots_table db) i"
    using key by (auto simp: failed_cleared_def put_robot_row_def truthy_def split: option.split if_splits)
qed

lemma persist_reassignment_ok:
  assumes ok: "store_ok db" and run: "persist_reassignment sim ev db = Inr (applied, db')"
  shows "store_ok db'"
  using persist_reassignment_Inr [OF run]
proof
  assume "applied \<noteq> [] \<and> ev_task_reassignment_success ev \<and>
    (\<exists>spare tid t r. ev_reassigned_to ev = Some spare \<and> ev_reassigned_task_id ev = Some tid \<and>
       dict_get (tasks_table db) tid = Some t \<and> dict_get (robots_table db) spare = Some r \<and>
       db' = put_task_row (t\<lparr>rec_task_status := task_status_value T_ASSIGNED, rec_assigned_robot_id := Some spare\<rparr>)
         (modify_robot_row spare (\<lambda>r. r\<lparr>rec_status := robot_status_value R_ASSIGNED, rec_assigned_task_id := Some tid\<rparr>)
           (failed_cleared ev db)))"
  then obtain spare tid t r where t: "dict_get (tasks_table db) tid = Some t" and r: "dict_get (robots_table db) spare = Some r"
    and db': "db' = put_task_row (t\<lparr>rec_task_status := task_status_value T_ASSIGNED, rec_assigned_robot_id := Some spare\<rparr>)
      (modify_robot_row spare (\<lambda>r. r\<lparr>rec_status := robot_status_value R_ASSIGNED, rec_assigned_task_id := Some tid\<rparr>) (failed_cleared ev db))"
    by blast
  note c = failed_cleared_ok [OF ok, where ev = ev]
  let ?db2 = "modify_robot_row spare (\<lambda>r. r\<lparr>rec_status := robot_status_value R_ASSIGNED, rec_assigned_task_id := Some tid\<rparr>) (failed_cleared ev db)"
  have ok2: "store_ok ?db2" "tasks_table ?db2 = tasks_table db" "dict_get (robots_table ?db2) spare \<noteq> None"
    using put_robot_status [OF c(1)] c(1,2) c(3) [where i = spare] r
    by (auto simp: modify_robot_row_def put_robot_row_def split: option.splits)
  then have "task_entry_ok (robots_table ?db2) tid t" using t by (simp add: store_ok_def tasks_table_ok_def)
  then show ?thesis unfolding db'
    by (intro tasks_table_put [OF ok2(1)]) (use ok2(3) in \<open>auto simp: task_entry_ok_def task_row_ok_def\<close>)
qed (use ok in simp)

lemma run_recovery_ok:
  assumes ok: "store_ok db"
  shows "store_ok (snd (run_recovery specs event kind order horizon enabled width height obstacles commit db))"
  using ok by (auto simp: run_recovery_def Let_def split: sum.splits prod.splits if_splits intro: persist_reassignment_ok [rotated])

lemma run_recovery_Inr:
  assumes "run_recovery specs event kind order horizon enabled width height obstacles commit db = (Inr out, db')"
  shows "\<exists>sim1. (\<not> (commit \<and> ro_event out \<noteq> None) \<longrightarrow>
      db' = add_recovery_run (recovery_row kind (event_timestep event) enabled (ro_execution out) (ro_event out)) db \<and> \<not> ro_committed out) \<and>
    (commit \<and> ro_event out \<noteq> None \<longrightarrow> persist_reassignment sim1 (the (ro_event out))
      (add_recovery_run (recovery_row kind (event_timestep event) enabled (ro_execution out) (ro_event out)) db) = Inr (ro_applied out, db') \<and>
      (ro_committed out \<longleftrightarrow> ro_applied out \<noteq> []))"
  using assms by (auto simp: run_recovery_def Let_def split: if_splits sum.splits prod.splits)

lemma reassigned_rows:
  assumes ok: "store_ok db" and t: "dict_get (tasks_table db) tid = Some t" and r: "dict_get (robots_table db) spare = Some r"
    and db': "db' = put_task_row (t\<lparr>rec_task_status := task_status_value T_ASSIGNED, rec_assigned_robot_id := Some spare\<rparr>)
      (modify_robot_row spare (\<lambda>r. r\<lparr>rec_status := robot_status_value R_ASSIGNED, rec_assigned_task_id := Some tid\<rparr>) (failed_cleared ev db))"
  shows "map_option (\<lambda>r. (rec_status r, rec_assigned_task_id r)) (dict_get (robots_table db') spare) = Some (''assigned'', Some tid)"
    "map_option (\<lambda>t. (rec_task_status t, rec_assigned_robot_id t)) (dict_get (tasks_table db') tid) = Some (''assigned'', Some spare)"
    "Some i \<notin> {Some spare, ev_reassigned_from ev} \<Longrightarrow> dict_get (robots_table db') i = dict_get (robots_table db) i"
    "i \<noteq> tid \<Longrightarrow> dict_get (tasks_table db') i = dict_get (tasks_table db) i"
    "recovery_runs db' = recovery_runs db"
proof -
  note c = failed_cleared_ok [OF ok, where ev = ev]
  have key: "rec_task_id t = tid" using ok t by (simp add: store_ok_def tasks_table_ok_def task_entry_ok_def)
  obtain q where q: "dict_get (robots_table (failed_cleared ev db)) spare = Some q" using c(3) [where i = spare] r by auto
  then have id: "rec_robot_id q = spare" using c(1) by (simp add: store_ok_def robots_table_ok_def)
  have rows: "robots_table db' = dict_set spare (q\<lparr>rec_status := ''assigned'', rec_assigned_task_id := Some tid\<rparr>) (robots_table (failed_cleared ev db))"
    "tasks_table db' = dict_set tid (t\<lparr>rec_task_status := ''assigned'', rec_assigned_robot_id := Some spare\<rparr>) (tasks_table db)"
    using q id key c(2) by (simp_all add: db' put_task_row_def modify_robot_row_def put_robot_row_def)
  show "map_option (\<lambda>r. (rec_status r, rec_assigned_task_id r)) (dict_get (robots_table db') spare) = Some (''assigned'', Some tid)"
    "map_option (\<lambda>t. (rec_task_status t, rec_assigned_robot_id t)) (dict_get (tasks_table db') tid) = Some (''assigned'', Some spare)"
    by (simp_all add: rows)
  show "Some i \<notin> {Some spare, ev_reassigned_from ev} \<Longrightarrow> dict_get (robots_table db') i = dict_get (robots_table db) i"
    using c(4) [where i = i] by (auto simp: rows)
  show "i \<noteq> tid \<Longrightarrow> dict_get (tasks_table db') i = dict_get (tasks_table db) i" by (auto simp: rows)
  show "recovery_runs db' = recovery_runs db"
    by (simp add: db' put_task_row_def modify_robot_row_def put_robot_row_def failed_cleared_def split: option.split)
qed

lemma served_ok:
  assumes "solver_ok solver" "served solver db db'" "store_ok db"
  shows "store_ok db'"
  using assms(2)
proof cases
  case (serve_obstacle fleet r c t order horizon enabled width height obstacles)
  then show ?thesis using assms(3) by (auto intro!: in_transaction_ok simp: recover_from_obstacle_def run_recovery_ok)
next
  case (serve_failure fleet failed t order horizon enabled width height obstacles commit)
  then show ?thesis using assms(3) by (auto intro!: in_transaction_ok simp: recover_from_robot_failure_def run_recovery_ok)
qed (use assms in \<open>auto intro!: in_transaction_ok create_robot_ok update_robot_ok delete_robot_ok create_task_ok update_task_ok
    delete_task_ok plan_path_ok run_allocation_ok coordinate_fleet_ok\<close>)

end
