(* ===== verification/Service_Properties.thy ===== *)
theory Service_Properties
  imports Request_Floor Fleet_Requests Coordination_Properties
begin

text \<open>
  What the service layer promises: the answers of the planning, coordination, allocation and
  recovery services, the validity of the persisted fleet under all requests, the lifecycle of
  tasks, and two requests after which robots and tasks no longer agree.
\<close>

section \<open>Planning\<close>

lemma planners_contract:
  assumes "dict_get planners algorithm = Some planner"
  shows "plan_spec algorithm w start goal (planner start goal w)"
  using assms astar_router.contract dijkstra_router.contract by (auto simp: planners_def split: if_splits)

lemma plan_path_answers:
  "case plan_path q db of
     (Inl e, db') \<Rightarrow> e = Validation_Failed \<and> db' = db
   | (Inr result, db') \<Rightarrow> \<exists>w. request_floor q = Inr w \<and> warehouse_ok w \<and>
       (\<forall>p. is_traversable w p \<longleftrightarrow> requested_cell (rq_warehouse_width q) (rq_warehouse_height q) (rq_static_obstacles q) p \<and>
          p \<notin> set (or_empty (rq_dynamic_obstacles q))) \<and>
       plan_spec (rq_algorithm q) w (Position (rq_start_row q) (rq_start_col q)) (Position (rq_goal_row q) (rq_goal_col q)) (Inr result) \<and>
       db' = add_planning_run (planning_row q result) db"
proof -
  let ?start = "Position (rq_start_row q) (rq_start_col q)" and ?goal = "Position (rq_goal_row q) (rq_goal_col q)"
  show ?thesis
  proof (cases "dict_get planners (rq_algorithm q)")
    case None
    then show ?thesis by (simp add: plan_path_def)
  next
    case (Some planner)
    note contract = planners_contract [OF Some, of _ ?start ?goal]
    from request_floor_ok [of q] show ?thesis
    proof
      assume "request_floor q = Inl Validation_Failed"
      then show ?thesis using Some by (simp add: plan_path_def)
    next
      assume "\<exists>w. request_floor q = Inr w \<and> warehouse_ok w \<and>
        (\<forall>p. is_traversable w p \<longleftrightarrow> requested_cell (rq_warehouse_width q) (rq_warehouse_height q) (rq_static_obstacles q) p \<and>
          p \<notin> set (or_empty (rq_dynamic_obstacles q)))"
      then obtain w where w: "request_floor q = Inr w" "warehouse_ok w"
        "\<forall>p. is_traversable w p \<longleftrightarrow> requested_cell (rq_warehouse_width q) (rq_warehouse_height q) (rq_static_obstacles q) p \<and>
          p \<notin> set (or_empty (rq_dynamic_obstacles q))" by blast
      show ?thesis
      proof (cases "in_bounds w ?start \<and> in_bounds w ?goal")
        case True
        then obtain result where r: "planner ?start ?goal w = Inr result" "plan_spec (rq_algorithm q) w ?start ?goal (Inr result)"
          using contract [of w] plan_spec_returns [of "rq_algorithm q" w ?start ?goal "planner ?start ?goal w"] by auto
        then show ?thesis using Some w True by (simp add: plan_path_def)
      next
        case False
        then have "plan_path q db = (Inl Validation_Failed, db)" using Some w(1) by (auto simp: plan_path_def Let_def)
        then show ?thesis by simp
      qed
    qed
  qed
qed

text \<open>
  C8: The planning service answers every request with a validation error, which leaves no trace,
  or with a result that meets the contract of a shortest-route planner on exactly the floor that
  the request describes, recorded as it is; it never raises anything else.
\<close>

theorem planning_service_answers:
  "case plan_path q db of
     (Inl e, db') \<Rightarrow> e = Validation_Failed \<and> db' = db
   | (Inr result, db') \<Rightarrow> \<exists>w. request_floor q = Inr w \<and> warehouse_ok w \<and>
       (\<forall>p. is_traversable w p \<longleftrightarrow> requested_cell (rq_warehouse_width q) (rq_warehouse_height q) (rq_static_obstacles q) p \<and>
          p \<notin> set (or_empty (rq_dynamic_obstacles q))) \<and>
       plan_spec (rq_algorithm q) w (Position (rq_start_row q) (rq_start_col q)) (Position (rq_goal_row q) (rq_goal_col q)) (Inr result) \<and>
       db' = add_planning_run (planning_row q result) db"
  by (rule plan_path_answers)

section \<open>Coordination\<close>

lemma dict_of_distinct:
  assumes "distinct (map f xs)"
  shows "dict_of (map (\<lambda>x. (f x, g x)) xs) = map (\<lambda>x. (f x, g x)) xs"
proof -
  have "fold (\<lambda>(k, v). dict_set k v) (map (\<lambda>x. (f x, g x)) ys) (map (\<lambda>x. (f x, g x)) zs) = map (\<lambda>x. (f x, g x)) (zs @ ys)"
    if "distinct (map f (zs @ ys))" for ys zs
    using that
  proof (induction ys arbitrary: zs)
    case (Cons y ys)
    have "dict_get (map (\<lambda>x. (f x, g x)) zs) (f y) = None"
      using Cons.prems unfolding dict_get_None_iff by (auto simp: comp_def)
    then show ?case using Cons.IH [of "zs @ [y]"] Cons.prems by (simp add: dict_set_new)
  qed simp
  from this [of "[]" xs] assms show ?thesis by (simp add: dict_of_def)
qed

lemma fold_set_ok: "dict_ok d \<Longrightarrow> dict_ok (fold (\<lambda>(k, v). dict_set k v) ys d)"
  by (induction ys arbitrary: d) auto

lemma dict_merge_same_keys:
  assumes "distinct (map f xs)"
  shows "dict_get (dict_merge (map (\<lambda>x. (f x, g x)) xs) (map (\<lambda>x. (f x, h x)) xs)) k = dict_get (map (\<lambda>x. (f x, h x)) xs) k"
    "dict_ok (dict_merge (map (\<lambda>x. (f x, g x)) xs) (map (\<lambda>x. (f x, h x)) xs))"
proof -
  have get: "dict_get (fold (\<lambda>(k, v). dict_set k v) (map (\<lambda>x. (f x, h x)) ys) d) k =
      (case dict_get (map (\<lambda>x. (f x, h x)) ys) k of None \<Rightarrow> dict_get d k | Some v \<Rightarrow> Some v)" if "distinct (map f ys)" for ys d
    using that
  proof (induction ys arbitrary: d)
    case (Cons y ys)
    have "dict_get (map (\<lambda>x. (f x, h x)) ys) (f y) = None"
      using Cons.prems unfolding dict_get_None_iff by (auto simp: comp_def)
    then show ?case using Cons.IH [of "dict_set (f y) (h y) d"] Cons.prems by (auto split: option.splits)
  qed simp
  have keys: "dict_get (map (\<lambda>x. (f x, h x)) xs) k = None \<longleftrightarrow> dict_get (map (\<lambda>x. (f x, g x)) xs) k = None"
    unfolding dict_get_None_iff by (simp add: comp_def)
  show "dict_get (dict_merge (map (\<lambda>x. (f x, g x)) xs) (map (\<lambda>x. (f x, h x)) xs)) k = dict_get (map (\<lambda>x. (f x, h x)) xs) k"
    unfolding dict_merge_def get [OF assms] using keys by (auto split: option.split)
  have "dict_ok (map (\<lambda>x. (f x, g x)) xs)" using assms by (simp add: dict_ok_def comp_def)
  then show "dict_ok (dict_merge (map (\<lambda>x. (f x, g x)) xs) (map (\<lambda>x. (f x, h x)) xs))"
    unfolding dict_merge_def by (rule fold_set_ok)
qed

definition spec_goal :: "coordination_spec \<Rightarrow> position" where
  "spec_goal s = Position (cs_goal_row s) (cs_goal_col s)"

text \<open>What a request needs to be accepted; the start cells do not occur.\<close>

definition acceptable ::
  "coordination_spec list \<Rightarrow> string list option \<Rightarrow> int option \<Rightarrow> int option \<Rightarrow> position list option \<Rightarrow> bool" where
  "acceptable specs order width height obstacles \<longleftrightarrow> specs \<noteq> [] \<and> distinct (map cs_robot_id specs) \<and>
     (\<exists>w. build_warehouse width height obstacles = Inr w \<and> (\<forall>s \<in> set specs. in_bounds w (spec_goal s))) \<and>
     (order = None \<or> mset (the order) = mset (map cs_robot_id specs))"

lemma merged_inside:
  assumes "distinct (map cs_robot_id specs)"
  shows "list_ex (\<lambda>(rid, cell). \<not> in_bounds w cell) (dict_merge (spec_starts specs) (spec_goals specs)) \<longleftrightarrow>
    (\<exists>s \<in> set specs. \<not> in_bounds w (spec_goal s))"
proof -
  let ?s = "map (\<lambda>s. (cs_robot_id s, Position (cs_start_row s) (cs_start_col s))) specs"
  let ?g = "map (\<lambda>s. (cs_robot_id s, Position (cs_goal_row s) (cs_goal_col s))) specs"
  have eq: "spec_starts specs = ?s" "spec_goals specs = ?g"
    unfolding spec_starts_def spec_goals_def by (rule dict_of_distinct [OF assms])+
  have ok: "dict_ok (dict_merge ?s ?g)" "dict_ok ?g"
    using dict_merge_same_keys(2) [OF assms] assms by (auto simp: dict_ok_def comp_def)
  have "(i, c) \<in> set (dict_merge ?s ?g) \<longleftrightarrow> (i, c) \<in> set ?g" for i c
    using dict_merge_same_keys(1) [OF assms, of "\<lambda>s. Position (cs_start_row s) (cs_start_col s)" "\<lambda>s. Position (cs_goal_row s) (cs_goal_col s)" i]
    unfolding dict_get_Some_iff [OF ok(1), symmetric] dict_get_Some_iff [OF ok(2), symmetric] by simp
  then show ?thesis unfolding eq list_ex_iff by (force simp: spec_goal_def)
qed

definition spec_start :: "coordination_spec \<Rightarrow> position" where
  "spec_start s = Position (cs_start_row s) (cs_start_col s)"

lemma spec_dicts:
  assumes "distinct (map cs_robot_id specs)"
  shows "dict_ok (spec_starts specs)" "dict_ok (spec_goals specs)"
    "s \<in> set specs \<Longrightarrow> dict_get (spec_starts specs) (cs_robot_id s) = Some (spec_start s)"
    "s \<in> set specs \<Longrightarrow> dict_get (spec_goals specs) (cs_robot_id s) = Some (spec_goal s)"
proof -
  have eq: "spec_starts specs = map (\<lambda>s. (cs_robot_id s, spec_start s)) specs" "spec_goals specs = map (\<lambda>s. (cs_robot_id s, spec_goal s)) specs"
    unfolding spec_starts_def spec_goals_def spec_start_def spec_goal_def by (rule dict_of_distinct [OF assms])+
  show ok: "dict_ok (spec_starts specs)" "dict_ok (spec_goals specs)" using assms by (simp_all add: eq dict_ok_def comp_def)
  show "s \<in> set specs \<Longrightarrow> dict_get (spec_starts specs) (cs_robot_id s) = Some (spec_start s)"
    "s \<in> set specs \<Longrightarrow> dict_get (spec_goals specs) (cs_robot_id s) = Some (spec_goal s)"
    unfolding dict_get_Some_iff [OF ok(1)] dict_get_Some_iff [OF ok(2)] by (auto simp: eq)
qed

text \<open>Every successful route is one from the robot's start to its goal; a successful plan has one for every robot.\<close>

definition delivers :: "warehouse \<Rightarrow> coordination_spec list \<Rightarrow> coordination_result \<Rightarrow> bool" where
  "delivers w specs cr \<longleftrightarrow> (\<forall>s \<in> set specs.
     (\<forall>tp. dict_get (cr_timed_paths cr) (cs_robot_id s) = Some tp \<longrightarrow> tp_success tp \<longrightarrow>
        route_of w (spec_start s) (spec_goal s) (cr_horizon cr) tp) \<and>
     (cr_success cr \<longrightarrow> (\<exists>tp. dict_get (cr_timed_paths cr) (cs_robot_id s) = Some tp \<and> tp_success tp)))"

lemma coordinate_delivers:
  assumes "distinct (map cs_robot_id specs)"
    "coordinate manhattan_distance w (spec_starts specs) (spec_goals specs) order horizon = Inr cr"
  shows "delivers w specs cr"
proof -
  note d = spec_dicts [OF assms(1)] and routes = coordinate_routes [OF spec_dicts(1,2) [OF assms(1)] assms(2)]
  have "route_of w (spec_start s) (spec_goal s) (cr_horizon cr) tp"
    if "s \<in> set specs" "dict_get (cr_timed_paths cr) (cs_robot_id s) = Some tp" "tp_success tp" for s tp
    using routes(1) [OF that(2,3)] d(3,4) [OF that(1)] by auto
  moreover have "cs_robot_id s \<in> set (dict_keys (spec_starts specs))" if "s \<in> set specs" for s
    using d(3) [OF that] dict_get_None_iff [of "spec_starts specs" "cs_robot_id s"] by auto
  ultimately show ?thesis unfolding delivers_def using routes(2) by blast
qed

lemma coordinate_fleet_answers:
  "case coordinate_fleet specs order horizon width height obstacles db of
     (Inl e, db') \<Rightarrow> e = Validation_Failed \<and> db' = db \<and> \<not> acceptable specs order width height obstacles
   | (Inr cr, db') \<Rightarrow> acceptable specs order width height obstacles \<and> (\<exists>w. build_warehouse width height obstacles = Inr w \<and>
       coordinate manhattan_distance w (spec_starts specs) (spec_goals specs) order horizon = Inr cr \<and>
       find_coordination_problems (dict_values (cr_timed_paths cr)) w (Some (spec_starts specs)) True = Inr [] \<and>
       db' = add_coordination_run (coordination_row (length specs) cr) db)"
proof (cases "specs \<noteq> [] \<and> distinct (map cs_robot_id specs)")
  case False
  then show ?thesis by (auto simp: coordinate_fleet_def acceptable_def Let_def distinct_card)
     (metis card_distinct length_map list.set_map)+
next
  case True
  then have d: "length (map cs_robot_id specs) = card (set (map cs_robot_id specs))" by (metis distinct_card)
  have ok: "dict_ok (spec_starts specs)" "dict_ok (spec_goals specs)"
    using True unfolding spec_starts_def spec_goals_def by (simp_all add: dict_of_distinct dict_ok_def comp_def)
  from build_warehouse_ok [of width height obstacles] show ?thesis
  proof
    assume "build_warehouse width height obstacles = Inl Validation_Failed"
    then show ?thesis using True d by (simp add: coordinate_fleet_def acceptable_def Let_def)
  next
    assume "\<exists>w. build_warehouse width height obstacles = Inr w \<and> requested_floor width height obstacles w"
    then obtain w where w: "build_warehouse width height obstacles = Inr w" by blast
    obtain cr where cr: "coordinate manhattan_distance w (spec_starts specs) (spec_goals specs) order horizon = Inr cr"
      "find_coordination_problems (dict_values (cr_timed_paths cr)) w (Some (spec_starts specs)) True = Inr []"
      using coordinate_validates [OF ok] by blast
    have inside: "list_ex (\<lambda>(rid, cell). \<not> in_bounds w cell) (dict_merge (spec_starts specs) (spec_goals specs)) \<longleftrightarrow>
      (\<exists>s \<in> set specs. \<not> in_bounds w (spec_goal s))" using True by (intro merged_inside) simp
    have perm: "sort (the order) = sort (map cs_robot_id specs) \<longleftrightarrow> mset (the order) = mset (map cs_robot_id specs)"
      by (rule sort_eq_iff)
    show ?thesis using True d w cr inside perm
      by (cases "\<exists>s \<in> set specs. \<not> in_bounds w (spec_goal s)"; cases "order = None")
        (auto simp: coordinate_fleet_def acceptable_def Let_def lift_error_def)
  qed
qed

text \<open>
  C14: The coordination service accepts a request exactly when it names at least one robot, no
  robot twice, a valid floor, goals on the floor and a priority order that permutes the robots,
  wherever the robots start. What it returns is a plan without conflicts from those starts, in which
  every successful route leads from its robot's start to its goal and, if the plan is successful,
  every robot has one; and it is recorded with the figures of the plan.
\<close>

theorem coordination_service_answers:
  "case coordinate_fleet specs order horizon width height obstacles db of
     (Inl e, db') \<Rightarrow> e = Validation_Failed \<and> db' = db \<and> \<not> acceptable specs order width height obstacles
   | (Inr cr, db') \<Rightarrow> acceptable specs order width height obstacles \<and> (\<exists>w. build_warehouse width height obstacles = Inr w \<and>
       coordinate manhattan_distance w (spec_starts specs) (spec_goals specs) order horizon = Inr cr \<and>
       find_coordination_problems (dict_values (cr_timed_paths cr)) w (Some (spec_starts specs)) True = Inr [] \<and>
       (\<forall>s \<in> set specs.
          (\<forall>tp. dict_get (cr_timed_paths cr) (cs_robot_id s) = Some tp \<longrightarrow> tp_success tp \<longrightarrow>
             route_of w (spec_start s) (spec_goal s) (cr_horizon cr) tp) \<and>
          (cr_success cr \<longrightarrow> (\<exists>tp. dict_get (cr_timed_paths cr) (cs_robot_id s) = Some tp \<and> tp_success tp))) \<and>
       db' = add_coordination_run (coordination_row (length specs) cr) db)"
proof -
  obtain r db' where run: "coordinate_fleet specs order horizon width height obstacles db = (r, db')" by fastforce
  show ?thesis
  proof (cases r)
    case (Inl e)
    then show ?thesis using coordinate_fleet_answers [where specs = specs and order = order and horizon = horizon and width = width
        and height = height and obstacles = obstacles and db = db] run by simp
  next
    case (Inr cr)
    then obtain w where w: "acceptable specs order width height obstacles" "build_warehouse width height obstacles = Inr w"
      "coordinate manhattan_distance w (spec_starts specs) (spec_goals specs) order horizon = Inr cr"
      "find_coordination_problems (dict_values (cr_timed_paths cr)) w (Some (spec_starts specs)) True = Inr []"
      "db' = add_coordination_run (coordination_row (length specs) cr) db"
      using coordinate_fleet_answers [where specs = specs and order = order and horizon = horizon and width = width
        and height = height and obstacles = obstacles and db = db] run by auto
    have "distinct (map cs_robot_id specs)" using w(1) by (simp add: acceptable_def)
    note coordinate_delivers [OF this w(3), unfolded delivers_def]
    then show ?thesis using run Inr w by auto
  qed
qed

text \<open>Two robots that change places on a floor of two by two.\<close>

definition swap_specs :: "coordination_spec list" where
  "swap_specs = [\<lparr>cs_robot_id = ''A'', cs_start_row = 0, cs_start_col = 0, cs_goal_row = 0, cs_goal_col = 1\<rparr>,
     \<lparr>cs_robot_id = ''B'', cs_start_row = 0, cs_start_col = 1, cs_goal_row = 0, cs_goal_col = 0\<rparr>]"

lemma coordination_service_answers_witness:
  "\<exists>cr tp. fst (coordinate_fleet swap_specs None None (Some 2) (Some 2) (Some []) empty_store) = Inr cr \<and>
     dict_get (cr_timed_paths cr) ''B'' = Some tp \<and> pos_at tp 0 = Position 0 1 \<and> pos_at tp (tp_arrival_time tp) = Position 0 0"
proof -
  have "map_sum id cr_success (fst (coordinate_fleet swap_specs None None (Some 2) (Some 2) (Some []) empty_store)) = Inr True"
    by code_simp
  then obtain cr db' where run: "coordinate_fleet swap_specs None None (Some 2) (Some 2) (Some []) empty_store = (Inr cr, db')" "cr_success cr"
    by (cases "coordinate_fleet swap_specs None None (Some 2) (Some 2) (Some []) empty_store";
        cases "fst (coordinate_fleet swap_specs None None (Some 2) (Some 2) (Some []) empty_store)") auto
  let ?b = "\<lparr>cs_robot_id = ''B'', cs_start_row = 0, cs_start_col = 1, cs_goal_row = 0, cs_goal_col = 0\<rparr>"
  have b: "?b \<in> set swap_specs" by (simp add: swap_specs_def)
  from coordination_service_answers [where specs = swap_specs and order = None and horizon = None and width = "Some 2"
      and height = "Some 2" and obstacles = "Some []" and db = empty_store] b run(2)
  obtain w tp where "dict_get (cr_timed_paths cr) ''B'' = Some tp" "route_of w (spec_start ?b) (spec_goal ?b) (cr_horizon cr) tp"
    unfolding run(1) prod.case sum.case by fastforce
  then show ?thesis using run(1) by (auto simp: route_of_def spec_start_def spec_goal_def)
qed

section \<open>The persisted fleet\<close>

lemma empty_store_ok: "store_ok empty_store"
  by (simp add: empty_store_def store_ok_def robots_table_ok_def tasks_table_ok_def)

text \<open>
  Whatever requests the API has served, in whatever order and with whatever outcomes, the
  persisted fleet is valid: every row converts to a valid domain object, robots stand on free
  cells of the floor and no two on one cell, tasks start and end on the floor at different cells,
  pending tasks have no robot and other tasks name robots that have a row.
\<close>

theorem fleet_store_stays_valid:
  assumes "solver_ok solver" "(served solver)\<^sup>*\<^sup>* empty_store db"
  shows "store_ok db"
  using assms(2) by (induction rule: rtranclp_induct) (auto intro: empty_store_ok served_ok [OF assms(1)])

text \<open>A robot and a task on the sample floor, as requests create them.\<close>

definition one_robot :: store where
  "one_robot = snd (in_transaction (create_robot ''R1'' 0 0 100 10 0 ''idle'') empty_store)"

lemma one_robot_created: "dict_get (robots_table one_robot) ''R1'' \<noteq> None"
proof -
  have "require_placeable (Position 0 0) None empty_store = Inr ()"
    using is_traversable_in_bounds [of sample_floor "Position 0 0"]
    by (simp add: require_placeable_def sample_floor_traversable RACK_ROWS_def empty_store_def list_robot_rows_def)
  moreover have "as_domain ''R1'' (Position 0 0) 100 10 0 ''idle'' = Inr ((robot_default ''R1'' (Position 0 0))
      \<lparr>battery_level := 100, payload_capacity := 10, current_payload := 0, robot_status := R_IDLE\<rparr>)"
    by (simp add: as_domain_def robot_post_init_def robot_default_def reject_value_def MIN_BATTERY_def MAX_BATTERY_def
        DEFAULT_BATTERY_DRAIN_PER_MOVE_def)
  ultimately show ?thesis
    by (simp add: one_robot_def in_transaction_def create_robot_def empty_store_def put_robot_row_def Let_def)
qed

lemma fleet_store_stays_valid_witness: "dict_get (robots_table one_robot) ''R1'' \<noteq> None \<and> store_ok one_robot"
proof -
  have "served brute_force empty_store one_robot"
    unfolding one_robot_def by (rule serve_create_robot) (simp_all add: is_float_numeral)
  then have "(served brute_force)\<^sup>*\<^sup>* empty_store one_robot" by blast
  from fleet_store_stays_valid [OF brute_force_ok this] one_robot_created show ?thesis by simp
qed

text \<open>
  C23: An update of a task that succeeds changes only that task's row, and its status only along
  the lifecycle: apart from the edited fields the task is as before, or one step of the lifecycle
  further, or an assigned task that has been given to another robot.
\<close>

theorem task_update_follows_lifecycle:
  assumes "store_ok db" "dict_get (tasks_table db) tid = Some t" "update_task tid p db = (Inr t', db')"
  shows "robots_table db' = robots_table db \<and> tasks_table db' = dict_set tid t' (tasks_table db) \<and>
    (t' = snd (edit_fields p t) \<or> task_step (domain_task (snd (edit_fields p t))) (domain_task t') \<or>
     rec_task_status t' = ''assigned'' \<and> t' = (snd (edit_fields p t))\<lparr>rec_assigned_robot_id := to_robot p\<rparr>)"
proof -
  obtain r t1 where e: "edit_fields p t = (r, t1)" by fastforce
  have t: "task_entry_ok (robots_table db) tid t" using assms(1,2) by (simp add: store_ok_def tasks_table_ok_def)
  have t1: "task_entry_ok (robots_table db) tid t1" using edit_fields_entry [OF t, of p] e by simp
  then have ok1: "task_row_ok t1" by (simp add: task_entry_ok_def)
  define final where "final = (case to_status p of
      Some status \<Rightarrow> apply_transition t1 status (to_robot p) (to_failure_reason p) db
    | None \<Rightarrow> (case to_robot p of None \<Rightarrow> Inr t1
        | Some rid \<Rightarrow> if rec_task_status t1 = ''assigned''
            then res_bind (require_robot_exists rid db) (\<lambda>_. Inr (t1\<lparr>rec_assigned_robot_id := Some rid\<rparr>)) else Inr t1))"
  have run: "update_task tid p db = (case r of Inl e \<Rightarrow> (Inl e, put_task_row t1 db)
      | Inr _ \<Rightarrow> (case final of Inl e \<Rightarrow> (Inl e, put_task_row t1 db) | Inr t2 \<Rightarrow> (Inr t2, put_task_row t2 db)))"
    by (cases r) (simp_all add: update_task_def find_task_def assms(2) e final_def)
  have f: "final = Inr t'" "db' = put_task_row t' db"
    using assms(3) unfolding run by (auto split: sum.splits)
  have "rec_task_id t' = tid \<and> (t' = t1 \<or> task_step (domain_task t1) (domain_task t') \<or>
     rec_task_status t' = ''assigned'' \<and> t' = t1\<lparr>rec_assigned_robot_id := to_robot p\<rparr>)"
  proof (cases "to_status p")
    case None
    then show ?thesis using f(1) t1 by (auto simp: final_def task_entry_ok_def res_bind_Inr split: option.splits if_splits)
  next
    case (Some status)
    then have a: "apply_transition t1 status (to_robot p) (to_failure_reason p) db = Inr t'" using f(1) by (simp add: final_def)
    have id: "rec_task_id t' = tid" using apply_transition_entry [OF t1 a] by (simp add: task_entry_ok_def)
    from apply_transition_step [OF ok1 a] id show ?thesis by blast
  qed
  then show ?thesis unfolding e snd_conv f(2) put_task_row_def by simp
qed

text \<open>One idle robot and two pending tasks.\<close>

definition pending_task :: "string \<Rightarrow> int \<Rightarrow> task_record" where
  "pending_task tid c = \<lparr>rec_task_id = tid, rec_pickup_row = 0, rec_pickup_col = c, rec_dropoff_row = 11, rec_dropoff_col = c,
     rec_priority = ''normal'', rec_payload_weight = 1, rec_task_status = ''pending'', rec_assigned_robot_id = None,
     rec_failure_reason = None\<rparr>"

definition small_store :: store where
  "small_store = empty_store\<lparr>robots_table := [(''R1'', \<lparr>rec_robot_id = ''R1'', rec_row = 0, rec_col = 0, rec_battery_level = 100,
       rec_payload_capacity = 10, rec_current_payload = 0, rec_status = ''idle'', rec_assigned_task_id = None\<rparr>)],
     tasks_table := [(''T1'', pending_task ''T1'' 1), (''T2'', pending_task ''T2'' 2)]\<rparr>"

definition give_to_R1 :: task_patch where
  "give_to_R1 = \<lparr>to_status = Some ''assigned'', to_robot = Some ''R1'', to_priority = None, to_payload_weight = None,
     to_failure_reason = None\<rparr>"

lemma small_store_ok: "store_ok small_store"
proof -
  have cell: "reachable_cell (Position 0 c) \<and> reachable_cell (Position 11 c)" if "0 \<le> c" "c < 12" for c
    using that by (auto simp: reachable_cell_def in_bounds_def sample_floor_def grid_in_bounds_def static_iff Let_def
        WAREHOUSE_ROWS_def WAREHOUSE_COLS_def RACK_ROWS_def)
  have "priority_named (str_upper ''normal'') \<noteq> None" by code_simp
  then have task: "task_entry_ok rs i (pending_task i c)" if "0 \<le> c" "c < 12" "i \<noteq> []" for rs i c
    using that cell [OF that(1,2)] by (simp add: task_entry_ok_def task_row_ok_def pending_task_def)
  have "tasks_table_ok (robots_table small_store) (tasks_table small_store)"
    unfolding tasks_table_ok_def using task [of 1 "''T1''"] task [of 2 "''T2''"]
    by (auto simp: small_store_def dict_ok_def split: if_splits)
  moreover have "robots_table_ok (robots_table small_store)"
    unfolding robots_table_ok_def
    by (auto simp: small_store_def dict_ok_def robot_row_ok_def is_float_numeral row_cell_def sample_floor_traversable RACK_ROWS_def split: if_splits)
  ultimately show ?thesis by (simp add: store_ok_def)
qed

lemma task_update_follows_lifecycle_witness:
  "\<exists>t' db'. update_task ''T1'' give_to_R1 small_store = (Inr t', db') \<and> robots_table db' = robots_table small_store \<and>
     task_step (domain_task (pending_task ''T1'' 1)) (domain_task t')"
proof -
  have e: "snd (edit_fields give_to_R1 (pending_task ''T1'' 1)) = pending_task ''T1'' 1"
    by (simp add: edit_fields_def give_to_R1_def)
  have get: "dict_get (tasks_table small_store) ''T1'' = Some (pending_task ''T1'' 1)" by (simp add: small_store_def)
  have "map_sum id rec_task_status (fst (update_task ''T1'' give_to_R1 small_store)) = Inr ''assigned''" by code_simp
  then obtain t' where t': "fst (update_task ''T1'' give_to_R1 small_store) = Inr t'" "rec_task_status t' = ''assigned''"
    by (cases "fst (update_task ''T1'' give_to_R1 small_store)") auto
  then obtain db' where run: "update_task ''T1'' give_to_R1 small_store = (Inr t', db')" by (metis prod.collapse)
  have "rec_task_status (pending_task ''T1'' 1) = ''pending''" by (simp add: pending_task_def)
  then have "t' \<noteq> pending_task ''T1'' 1" "t' \<noteq> (pending_task ''T1'' 1)\<lparr>rec_assigned_robot_id := x\<rparr>" for x using t'(2) by auto
  with task_update_follows_lifecycle [OF small_store_ok get run] run show ?thesis unfolding e by blast
qed

text \<open>
  Assigning a task by an update leaves the robot's row alone, so a robot can be given two
  tasks, and is still idle and up for the next allocation.
\<close>

theorem manual_assignment_double_books:
  "store_ok small_store \<and>
   (case in_transaction (update_task ''T1'' give_to_R1) small_store of (r1, db1) \<Rightarrow>
      (case in_transaction (update_task ''T2'' give_to_R1) db1 of (r2, db2) \<Rightarrow>
         map (\<lambda>(i, t). (i, rec_task_status t, rec_assigned_robot_id t)) (tasks_table db2) =
           [(''T1'', ''assigned'', Some ''R1''), (''T2'', ''assigned'', Some ''R1'')] \<and>
         map (\<lambda>(i, r). (i, rec_status r, rec_assigned_task_id r)) (robots_table db2) = [(''R1'', ''idle'', None)] \<and>
         map robot_id (idle_robots db2) = [''R1'']))"
  by (rule conjI [OF small_store_ok]) code_simp

text \<open>
  C40: Deleting a robot leaves its assigned task assigned, without a robot: it cannot be started,
  and it is not among the tasks of the next allocation.
\<close>

theorem deleted_robot_strands_task:
  assumes "store_ok db" "dict_get (tasks_table db) tid = Some t" "rec_task_status t = ''assigned''" "rec_assigned_robot_id t = Some rid"
  shows "\<exists>db'. delete_robot rid db = (Inr (), db') \<and>
    dict_get (tasks_table db') tid = Some (t\<lparr>rec_assigned_robot_id := None\<rparr>) \<and>
    fst (update_task tid \<lparr>to_status = Some ''in_progress'', to_robot = None, to_priority = None, to_payload_weight = None,
      to_failure_reason = None\<rparr> db') = Inl Resource_Conflict \<and>
    tid \<notin> set (map task_id (waiting_tasks db'))"
proof -
  let ?t = "t\<lparr>rec_assigned_robot_id := None\<rparr>"
  let ?start = "\<lparr>to_status = Some ''in_progress'', to_robot = None, to_priority = None, to_payload_weight = None, to_failure_reason = None\<rparr>"
  have e: "task_entry_ok (robots_table db) tid t" using assms(1,2) by (simp add: store_ok_def tasks_table_ok_def)
  then obtain r where r: "dict_get (robots_table db) rid = Some r" using assms(4) by (auto simp: task_entry_ok_def)
  let ?db = "delete_robot_row rid db"
  have run: "delete_robot rid db = (Inr (), ?db)" using r by (simp add: delete_robot_def find_robot_def)
  have ok: "store_ok ?db" using delete_robot_ok [OF assms(1), of rid] by (simp add: run)
  have get: "dict_get (tasks_table ?db) tid = Some ?t" using assms(2,4) by (simp add: delete_robot_row_def map_of_map)
  have t': "task_row_ok ?t" using e assms(3) by (auto simp: task_entry_ok_def task_row_ok_def)
  have progress: "task_status_of ''in_progress'' = Some T_IN_PROGRESS" by (simp add: task_status_of_def)
  have "apply_transition ?t ''in_progress'' None None ?db = Inl Resource_Conflict"
    using assms(3) by (simp add: apply_transition_def progress task_from_record_ok [OF t'] transitioned_def start_task_def conflict_of_def)
  then have "fst (update_task tid ?start ?db) = Inl Resource_Conflict"
    by (simp add: update_task_def find_task_def get edit_fields_def)
  moreover have "tid \<notin> set (map task_id (waiting_tasks ?db))"
    using waiting_rows(2) [OF ok] get assms(3) by (auto simp: waiting_tasks_def)
  ultimately show ?thesis using run get by blast
qed

lemma deleted_robot_strands_task_witness:
  "\<exists>db db'. delete_robot ''R1'' db = (Inr (), db') \<and> ''T1'' \<notin> set (map task_id (waiting_tasks db')) \<and>
     (\<exists>t. dict_get (tasks_table db') ''T1'' = Some t \<and> rec_task_status t = ''assigned'')"
proof -
  let ?db = "snd (update_task ''T1'' give_to_R1 small_store)"
  have ok: "store_ok ?db" by (rule update_task_ok [OF small_store_ok])
  have "map_option (\<lambda>t. (rec_task_status t, rec_assigned_robot_id t)) (dict_get (tasks_table ?db) ''T1'') = Some (''assigned'', Some ''R1'')"
    by code_simp
  then obtain t where t: "dict_get (tasks_table ?db) ''T1'' = Some t" "rec_task_status t = ''assigned''" "rec_assigned_robot_id t = Some ''R1''"
    by auto
  have "rec_task_status (t\<lparr>rec_assigned_robot_id := None\<rparr>) = ''assigned''" using t(2) by simp
  with deleted_robot_strands_task [OF ok t] show ?thesis by blast
qed

text \<open>
  C6: Committing an allocation to the persisted fleet never fails when there is an idle robot and
  a pending task: the run returns a legal plan for exactly the idle robots and the pending tasks,
  and with \<open>commit\<close> the rows of the plan's robots and tasks are assigned to each other, all other
  rows are as they were, and the fleet is still valid. Without it the fleet is not touched.
\<close>

theorem allocation_service_commits:
  assumes "store_ok db" "solver_ok solver" "algorithm \<in> {''greedy'', ''cp_sat''}" "idle_robots db \<noteq> []" "waiting_tasks db \<noteq> []"
  shows "\<exists>out db'. run_allocation solver algorithm robots tasks True commit db = (Inr out, db') \<and>
    legal_plan plan_astar sample_floor (idle_robots db) (waiting_tasks db) (al_assignments (ao_result out)) \<and>
    (ao_committed out \<longleftrightarrow> commit \<and> al_assignments (ao_result out) \<noteq> []) \<and>
    (if ao_committed out then rows_engaged (al_assignments (ao_result out)) db db'
     else robots_table db' = robots_table db \<and> tasks_table db' = tasks_table db) \<and> store_ok db' \<and>
    allocation_runs db' = allocation_runs db @
      [allocation_row algorithm (length (idle_robots db)) (length (waiting_tasks db)) (ao_committed out) (ao_result out)]"
  by (rule run_allocation_persisted [OF assms])

lemma allocation_service_commits_witness:
  "\<exists>out db'. run_allocation brute_force ''greedy'' None None True True small_store = (Inr out, db') \<and>
     legal_plan plan_astar sample_floor (idle_robots small_store) (waiting_tasks small_store) (al_assignments (ao_result out)) \<and>
     store_ok db'"
proof -
  have "idle_robots small_store \<noteq> []" "waiting_tasks small_store \<noteq> []" by code_simp+
  from allocation_service_commits [OF small_store_ok brute_force_ok _ this, of "''greedy''" None None True] show ?thesis by auto
qed

section \<open>Recovery\<close>

definition robot_row_is :: "store \<Rightarrow> string \<Rightarrow> string \<Rightarrow> string option \<Rightarrow> bool" where
  "robot_row_is db i status task \<longleftrightarrow>
     map_option (\<lambda>r. (rec_status r, rec_assigned_task_id r)) (dict_get (robots_table db) i) = Some (status, task)"

definition task_row_is :: "store \<Rightarrow> string \<Rightarrow> string \<Rightarrow> string option \<Rightarrow> bool" where
  "task_row_is db i status robot \<longleftrightarrow>
     map_option (\<lambda>t. (rec_task_status t, rec_assigned_robot_id t)) (dict_get (tasks_table db) i) = Some (status, robot)"

text \<open>
  C15: A recovery run is recorded with its outcome, and changes the persisted fleet only when it
  is committed and ended in a reassignment: then the spare robot's row and the task's row are
  assigned to each other and no row changes but theirs and the failed robot's.
\<close>

theorem recovery_service_persists:
  assumes "store_ok db" "run_recovery specs event kind order horizon enabled width height obstacles commit db = (Inr out, db')"
  shows "recovery_runs db' = recovery_runs db @ [recovery_row kind (event_timestep event) enabled (ro_execution out) (ro_event out)] \<and>
    (if ro_committed out
     then commit \<and> (\<exists>ev spare tid. ro_event out = Some ev \<and> ev_task_reassignment_success ev \<and>
       ev_reassigned_to ev = Some spare \<and> ev_reassigned_task_id ev = Some tid \<and>
       robot_row_is db' spare ''assigned'' (Some tid) \<and> task_row_is db' tid ''assigned'' (Some spare) \<and>
       (\<forall>i. Some i \<notin> {Some spare, ev_reassigned_from ev} \<longrightarrow> dict_get (robots_table db') i = dict_get (robots_table db) i) \<and>
       (\<forall>i. i \<noteq> tid \<longrightarrow> dict_get (tasks_table db') i = dict_get (tasks_table db) i))
     else robots_table db' = robots_table db \<and> tasks_table db' = tasks_table db)"
proof -
  from run_recovery_Inr [OF assms(2)] obtain sim1 where
    none: "\<not> (commit \<and> ro_event out \<noteq> None) \<Longrightarrow>
      db' = add_recovery_run (recovery_row kind (event_timestep event) enabled (ro_execution out) (ro_event out)) db \<and> \<not> ro_committed out"
    and some: "commit \<and> ro_event out \<noteq> None \<Longrightarrow> persist_reassignment sim1 (the (ro_event out))
      (add_recovery_run (recovery_row kind (event_timestep event) enabled (ro_execution out) (ro_event out)) db) = Inr (ro_applied out, db') \<and>
      (ro_committed out \<longleftrightarrow> ro_applied out \<noteq> [])" by blast
  define db1 where "db1 = add_recovery_run (recovery_row kind (event_timestep event) enabled (ro_execution out) (ro_event out)) db"
  have db1: "store_ok db1" "robots_table db1 = robots_table db" "tasks_table db1 = tasks_table db"
    "recovery_runs db1 = recovery_runs db @ [recovery_row kind (event_timestep event) enabled (ro_execution out) (ro_event out)]"
    using assms(1) by (simp_all add: db1_def) (simp_all add: add_recovery_run_def)
  show ?thesis
  proof (cases "commit \<and> ro_event out \<noteq> None")
    case False
    then show ?thesis using none db1 by (simp add: db1_def)
  next
    case True
    then obtain ev where ev: "commit" "ro_event out = Some ev" by auto
    have run: "persist_reassignment sim1 ev db1 = Inr (ro_applied out, db')" and committed: "ro_committed out \<longleftrightarrow> ro_applied out \<noteq> []"
      using some [OF True] ev by (simp_all add: db1_def)
    from persist_reassignment_Inr [OF run] show ?thesis
    proof
      assume "ro_applied out = [] \<and> db' = db1"
      then show ?thesis using db1 committed by simp
    next
      assume "ro_applied out \<noteq> [] \<and> ev_task_reassignment_success ev \<and>
        (\<exists>spare tid t r. ev_reassigned_to ev = Some spare \<and> ev_reassigned_task_id ev = Some tid \<and>
          dict_get (tasks_table db1) tid = Some t \<and> dict_get (robots_table db1) spare = Some r \<and>
          db' = put_task_row (t\<lparr>rec_task_status := task_status_value T_ASSIGNED, rec_assigned_robot_id := Some spare\<rparr>)
            (modify_robot_row spare (\<lambda>r. r\<lparr>rec_status := robot_status_value R_ASSIGNED, rec_assigned_task_id := Some tid\<rparr>)
              (failed_cleared ev db1)))"
      then obtain spare tid t r where s: "ro_applied out \<noteq> []" "ev_task_reassignment_success ev" "ev_reassigned_to ev = Some spare"
        "ev_reassigned_task_id ev = Some tid" "dict_get (tasks_table db1) tid = Some t" "dict_get (robots_table db1) spare = Some r"
        "db' = put_task_row (t\<lparr>rec_task_status := task_status_value T_ASSIGNED, rec_assigned_robot_id := Some spare\<rparr>)
          (modify_robot_row spare (\<lambda>r. r\<lparr>rec_status := robot_status_value R_ASSIGNED, rec_assigned_task_id := Some tid\<rparr>) (failed_cleared ev db1))"
        by blast
      note e = reassigned_rows [OF db1(1) s(5,6,7)]
      then show ?thesis using s(1-4) ev committed db1 by (simp add: robot_row_is_def task_row_is_def)
    qed
  qed
qed

text \<open>The small store with a second robot, and a request in which the first one fails with the task.\<close>

definition spare_row :: robot_record where
  "spare_row = \<lparr>rec_robot_id = ''R2'', rec_row = 0, rec_col = 3, rec_battery_level = 100, rec_payload_capacity = 10,
     rec_current_payload = 0, rec_status = ''idle'', rec_assigned_task_id = None\<rparr>"

definition spare_store :: store where
  "spare_store = put_robot_row spare_row small_store"

definition failing_fleet :: "recovery_spec list" where
  "failing_fleet =
     [\<lparr>rv_robot_id = ''R1'', rv_start_row = 0, rv_start_col = 0, rv_goal_row = 1, rv_goal_col = 1,
        rv_task = Some \<lparr>sp_task_id = ''T1'', sp_pickup_row = 1, sp_pickup_col = 1, sp_dropoff_row = 0, sp_dropoff_col = 2,
          sp_payload_weight = 1, sp_priority = ''normal''\<rparr>\<rparr>,
      \<lparr>rv_robot_id = ''R2'', rv_start_row = 1, rv_start_col = 2, rv_goal_row = 1, rv_goal_col = 2, rv_task = None\<rparr>]"

lemma spare_store_ok: "store_ok spare_store"
proof -
  have R: "robots_table_ok (robots_table small_store)" using small_store_ok by (simp add: store_ok_def)
  have "robots_table_ok (dict_set (rec_robot_id spare_row) spare_row (robots_table small_store))"
  proof (rule robots_table_put [OF R])
    show "robot_row_ok spare_row" by (simp add: robot_row_ok_def spare_row_def is_float_numeral)
    show "is_traversable sample_floor (row_cell spare_row)"
      by (simp add: sample_floor_traversable row_cell_def spare_row_def RACK_ROWS_def)
  qed (auto simp: small_store_def row_cell_def spare_row_def split: if_splits)
  moreover have "tasks_table_ok (dict_set (rec_robot_id spare_row) spare_row (robots_table small_store)) (tasks_table small_store)"
    by (rule tasks_table_robots [of "robots_table small_store"]) (use small_store_ok in \<open>auto simp: store_ok_def\<close>)
  ultimately show ?thesis by (simp add: spare_store_def put_robot_row_def store_ok_def)
qed

lemma recovery_service_persists_witness:
  "\<exists>out db'. run_recovery failing_fleet (Failure_Event 0 ''R1'') ''robot_offline'' None None True (Some 3) (Some 2) None True
       spare_store = (Inr out, db') \<and>
     robot_row_is db' ''R2'' ''assigned'' (Some ''T1'') \<and> task_row_is db' ''T1'' ''assigned'' (Some ''R2'')"
proof -
  let ?run = "run_recovery failing_fleet (Failure_Event 0 ''R1'') ''robot_offline'' None None True (Some 3) (Some 2) None True spare_store"
  have "map_sum id (\<lambda>out. (ro_applied out, ro_committed out, map_option ev_reassigned_to (ro_event out), map_option ev_reassigned_task_id (ro_event out))) (fst ?run) =
    Inr ([''R1'', ''R2'', ''T1''], True, Some (Some ''R2''), Some (Some ''T1''))" by code_simp
  then obtain out db' where run: "?run = (Inr out, db')" and o: "ro_committed out" "map_option ev_reassigned_to (ro_event out) = Some (Some ''R2'')"
    "map_option ev_reassigned_task_id (ro_event out) = Some (Some ''T1'')"
    by (cases ?run; cases "fst ?run") auto
  from recovery_service_persists [OF spare_store_ok run] run o show ?thesis by auto
qed

end
