(* ===== verification/Settings.thy ===== *)
theory Settings
  imports Store Retry
begin

text \<open>
  The settings of the service (\<open>persistence/config.py\<close>) and what it does with them at start-up
  (\<open>persistence/database.py\<close>): the database URL with its password redacted for the log, the options
  of the engine, the wait for the database, and the readiness probe. Reading the environment is
  the work of Pydantic: a value of the record is what it has read.
\<close>

section \<open>The settings\<close>

record settings =
  database_url :: string
  test_database_url :: "string option"
  auto_create_tables :: bool
  sql_echo :: bool
  log_level :: string
  app_name :: string
  db_pool_size :: int
  db_max_overflow :: int
  db_pool_timeout_s :: pyfloat
  db_pool_recycle_s :: int
  db_connect_attempts :: int
  db_connect_base_delay_s :: pyfloat
  db_connect_max_delay_s :: pyfloat
  jwt_secret_key :: string
  jwt_algorithm :: string
  access_token_expire_minutes :: int
  bootstrap_admin_username :: "string option"
  bootstrap_admin_password :: "string option"

definition default_settings :: settings where
  "default_settings =
     \<lparr>database_url = ''sqlite+pysqlite:///./fulfillment.db'', test_database_url = None, auto_create_tables = True,
      sql_echo = False, log_level = ''INFO'', app_name = ''fulfillment-api'',
      db_pool_size = 5, db_max_overflow = 5, db_pool_timeout_s = 30, db_pool_recycle_s = 1800,
      db_connect_attempts = 5, db_connect_base_delay_s = fl (2 / 10), db_connect_max_delay_s = 5,
      jwt_secret_key = ''dev-insecure-jwt-key-change-me-in-any-real-environment'', jwt_algorithm = ''HS256'',
      access_token_expire_minutes = 30, bootstrap_admin_username = None, bootstrap_admin_password = None\<rparr>"

text \<open>The bounds declared with the fields.\<close>

definition settings_valid :: "settings \<Rightarrow> bool" where
  "settings_valid st \<longleftrightarrow> 1 \<le> db_pool_size st \<and> 0 \<le> db_max_overflow st \<and> 0 < db_pool_timeout_s st \<and>
     1 \<le> db_connect_attempts st \<and> 0 \<le> db_connect_base_delay_s st \<and> 0 \<le> db_connect_max_delay_s st \<and>
     0 < access_token_expire_minutes st"

section \<open>Strings\<close>

definition str_starts_with :: "string \<Rightarrow> string \<Rightarrow> bool" where
  "str_starts_with pre s \<longleftrightarrow> take (length pre) s = pre"

text \<open>\<open>s.split(sep, 1)\<close> when it yields two parts; \<open>None\<close> when the separator does not occur.\<close>

fun split_once :: "string \<Rightarrow> string \<Rightarrow> (string \<times> string) option" where
  "split_once sep [] = None"
| "split_once sep (c # cs) =
     (if str_starts_with sep (c # cs) then Some ([], drop (length sep) (c # cs))
      else map_option (\<lambda>(a, b). (c # a, b)) (split_once sep cs))"

lemma split_once_first:
  assumes "x \<notin> set a"
  shows "split_once (x # sep) (a @ x # sep @ b) = Some (a, b)"
  using assms by (induction a) (auto simp: str_starts_with_def)

lemma split_once_None: "x \<notin> set s \<Longrightarrow> split_once (x # sep) s = None"
  by (induction s) (auto simp: str_starts_with_def)

section \<open>Derived settings\<close>

definition is_sqlite :: "settings \<Rightarrow> bool" where
  "is_sqlite st = str_starts_with ''sqlite'' (database_url st)"

definition is_postgres :: "settings \<Rightarrow> bool" where
  "is_postgres st = str_starts_with ''postgresql'' (database_url st)"

definition jwt_secret_is_default :: "settings \<Rightarrow> bool" where
  "jwt_secret_is_default st \<longleftrightarrow> jwt_secret_key st = ''dev-insecure-jwt-key-change-me-in-any-real-environment''"

text \<open>
  \<open>creds, host = rest.split(...)\<close> raises when the only \<open>@\<close> of the URL stands before its \<open>://\<close>.
\<close>

definition redact_url :: "string \<Rightarrow> py_error + string" where
  "redact_url url =
     (if split_once ''@'' url = None then Inr url
      else case split_once ''://'' url of
          None \<Rightarrow> Inr url
        | Some (scheme, rest) \<Rightarrow> (case split_once ''@'' rest of
              None \<Rightarrow> Inl ValueError
            | Some (creds, host) \<Rightarrow>
                let shown = (case split_once '':'' creds of None \<Rightarrow> creds | Some (user, password) \<Rightarrow> user @ '':***'')
                in Inr (scheme @ ''://'' @ shown @ ''@'' @ host)))"

definition safe_database_url :: "settings \<Rightarrow> py_error + string" where
  "safe_database_url st = redact_url (database_url st)"

section \<open>The engine\<close>

text \<open>The keyword arguments of \<open>create_engine\<close>; the pool's are given for a server only.\<close>

record engine_options =
  eng_url :: string
  eng_echo :: bool
  eng_pre_ping :: bool
  eng_same_thread :: "bool option"
  eng_pool :: "(int \<times> int \<times> pyfloat \<times> int) option"
  eng_foreign_keys :: bool

definition build_engine :: "settings \<Rightarrow> engine_options" where
  "build_engine st =
     \<lparr>eng_url = database_url st, eng_echo = sql_echo st, eng_pre_ping = True,
      eng_same_thread = (if is_sqlite st then Some False else None),
      eng_pool = (if is_sqlite st then None
        else Some (db_pool_size st, db_max_overflow st, db_pool_timeout_s st, db_pool_recycle_s st)),
      eng_foreign_keys = is_sqlite st\<rparr>"

text \<open>
  A connection attempt is a parameter: it takes the state of the world, and raises or not.
  \<open>wait_until_ready\<close> returns its answer, the world after it and the waits; the two kinds of
  exception that could leave it are those of the policy's constructor and of \<open>retry_call\<close>.
\<close>

datatype 'x startup_error = Bad_Policy py_error | Escaped "'x retry_error"

definition ping :: "('s \<Rightarrow> ('x + unit) \<times> 's) \<Rightarrow> 's \<Rightarrow> bool \<times> 's" where
  "ping probe s = (case probe s of (Inl e, s1) \<Rightarrow> (False, s1) | (Inr _, s1) \<Rightarrow> (True, s1))"

definition wait_until_ready ::
  "('s \<Rightarrow> ('x + unit) \<times> 's) \<Rightarrow> settings \<Rightarrow> 's \<Rightarrow> ('x startup_error + bool) \<times> 's \<times> pyfloat list" where
  "wait_until_ready probe st s =
     (case retry_policy_init (db_connect_attempts st) (db_connect_base_delay_s st) (db_connect_max_delay_s st) 0 of
        Inl e \<Rightarrow> (Inl (Bad_Policy e), s, [])
      | Inr p \<Rightarrow> (case retry_call probe p (\<lambda>_. True) ''database.connect'' (\<lambda>g. (0, g)) s () of
            (Inr _, s1, waits) \<Rightarrow> (Inr True, s1, waits)
          | (Inl e, s1, waits) \<Rightarrow> ((case e of RetryError operation n e1 \<Rightarrow> Inr False | _ \<Rightarrow> Inl (Escaped e)), s1, waits)))"

section \<open>Properties\<close>

lemma longest_wait_no_jitter: "jitter p = 0 \<Longrightarrow> is_float (max_delay p) \<Longrightarrow> longest_wait p = max_delay p"
  by (simp add: longest_wait_def is_float_def)

text \<open>
  C28: Waiting for the database at start-up always comes to an end and never raises (for up to 1025
  attempts). The service is told that the database answers exactly when one of the allowed
  attempts succeeds, stops at the first that does, and waits between two attempts, each time no
  longer than the configured maximum.
\<close>

theorem startup_waits_for_database:
  assumes "settings_valid st" "db_connect_attempts st \<le> 1025" "is_float (db_connect_max_delay_s st)"
  shows "\<exists>k < nat (db_connect_attempts st). \<exists>waits.
    wait_until_ready probe st s = (Inr (\<not> fails_at probe (\<lambda>_. True) s k), state_at probe s (Suc k), waits) \<and>
    (\<forall>i < k. fails_at probe (\<lambda>_. True) s i) \<and> (fails_at probe (\<lambda>_. True) s k \<longrightarrow> Suc k = nat (db_connect_attempts st)) \<and>
    length waits = k \<and> (\<forall>w \<in> set waits. 0 \<le> w \<and> w \<le> db_connect_max_delay_s st)"
proof -
  obtain p where p: "retry_policy_init (db_connect_attempts st) (db_connect_base_delay_s st) (db_connect_max_delay_s st) 0 = Inr p"
    "attempts p = db_connect_attempts st" "max_delay p = db_connect_max_delay_s st" "jitter p = 0" "policy_ok p"
    using assms by (auto simp: retry_policy_init_def settings_valid_def policy_ok_def)
  have le: "attempts p \<le> 1025" "1 \<le> attempts p" "nat (attempts p) = nat (attempts p - 1 + 1)"
    using assms(1,2) p(2) by (simp_all add: settings_valid_def)
  let ?run = "retry_call probe p (\<lambda>_. True) ''database.connect'' (\<lambda>g. (0, g)) s ()"
  have u: "0 \<le> fst ((\<lambda>g. (0 :: pyfloat, g)) x) \<and> fst ((\<lambda>g. (0 :: pyfloat, g)) x) \<le> 1" for x :: unit by simp
  obtain k ws where k: "k < nat (attempts p)" "length ws = k" "\<forall>w \<in> set ws. 0 \<le> w \<and> w \<le> longest_wait p"
    "snd (snd ?run) = ws" "decided probe (\<lambda>_. True) ''database.connect'' (attempts p) (nat (attempts p)) s k ?run"
    using retry_loop_decided [where random = "\<lambda>g :: unit. (0, g)" and func = probe and transient = "\<lambda>_. True"
        and operation = "''database.connect''" and s = s and g = "()" and waits = "[]", OF p(5) le(1) u le(2,3)]
    unfolding retry_call_def by auto
  have w: "longest_wait p = db_connect_max_delay_s st"
    using longest_wait_no_jitter [OF p(4)] p(3) assms(3) by simp
  have "wait_until_ready probe st s = (Inr (\<not> fails_at probe (\<lambda>_. True) s k), state_at probe s (Suc k), ws) \<and>
      (\<forall>i < k. fails_at probe (\<lambda>_. True) s i) \<and> (fails_at probe (\<lambda>_. True) s k \<longrightarrow> Suc k = nat (attempts p))"
    using k(4,5) p(1) by (cases ?run) (auto simp: wait_until_ready_def decided_def fails_at_def split: sum.splits)
  then show ?thesis using k(1-3) unfolding w p(2) by blast
qed

text \<open>A database that answers the third attempt.\<close>

definition slow_database :: "nat \<Rightarrow> (string + unit) \<times> nat" where
  "slow_database n = (if n < 2 then (Inl ''refused'', Suc n) else (Inr (), n))"

lemma startup_waits_for_database_witness:
  "wait_until_ready slow_database default_settings 0 = (Inr True, 2, [fl (2 / 10), fl (4 / 10)]) \<and>
   (\<exists>k < 5. \<not> fails_at slow_database (\<lambda>_. True) 0 k)"
proof -
  have run: "wait_until_ready slow_database default_settings 0 = (Inr True, 2, [fl (2 / 10), fl (4 / 10)])" by code_simp
  have st: "settings_valid default_settings" "db_connect_attempts default_settings \<le> 1025"
    "is_float (db_connect_max_delay_s default_settings)"
    by (simp_all add: settings_valid_def default_settings_def is_float_numeral)
  have "nat (db_connect_attempts default_settings) = 5" by (simp add: default_settings_def)
  with startup_waits_for_database [OF st, of slow_database 0] run
  have "\<exists>k < 5. \<not> fails_at slow_database (\<lambda>_. True) 0 k" by fastforce
  with run show ?thesis by blast
qed

text \<open>
  C29: The URL that is written to the log shows the password's place but not the password, for any
  scheme, user and host, as long as the user has no \<open>:\<close> and neither user nor password has an \<open>@\<close>. A password that stands in the query of the URL, which is another way to give it, is
  logged as it is.
\<close>

theorem logged_url_hides_password:
  assumes "CHR '':'' \<notin> set scheme" "CHR '':'' \<notin> set user" "CHR ''@'' \<notin> set user" "CHR ''@'' \<notin> set password"
  shows "redact_url (scheme @ ''://'' @ user @ '':'' @ password @ ''@'' @ host) = Inr (scheme @ ''://'' @ user @ '':***@'' @ host) \<and>
    redact_url ''postgresql+psycopg://db/fulfillment?user=app&password=secret'' =
      Inr ''postgresql+psycopg://db/fulfillment?user=app&password=secret''"
proof
  let ?rest = "user @ '':'' @ password @ ''@'' @ host"
  have at: "split_once ''@'' xs \<noteq> None" if "CHR ''@'' \<in> set xs" for xs
    using that by (induction xs) (auto simp: str_starts_with_def)
  have url: "split_once ''@'' (scheme @ ''://'' @ ?rest) \<noteq> None" by (rule at) simp
  have "split_once ''://'' (scheme @ ''://'' @ ?rest) = Some (scheme, ?rest)"
    using split_once_first [OF assms(1), of "''//''" ?rest] by simp
  moreover have "split_once ''@'' ?rest = Some (user @ '':'' @ password, host)"
    using split_once_first [of "CHR ''@''" "user @ '':'' @ password" "[]" host] assms(3,4) by simp
  moreover have "split_once '':'' (user @ '':'' @ password) = Some (user, password)"
    using split_once_first [OF assms(2), of "[]" password] by simp
  ultimately show "redact_url (scheme @ ''://'' @ ?rest) = Inr (scheme @ ''://'' @ user @ '':***@'' @ host)"
    using url unfolding redact_url_def by (simp only: if_False option.case prod.case Let_def append_assoc) simp
  show "redact_url ''postgresql+psycopg://db/fulfillment?user=app&password=secret'' =
      Inr ''postgresql+psycopg://db/fulfillment?user=app&password=secret''" by code_simp
qed

lemma logged_url_hides_password_witness:
  "redact_url ''postgresql://app:secret@db:5432/fleet'' = Inr ''postgresql://app:***@db:5432/fleet''"
  using logged_url_hides_password [of "''postgresql''" "''app''" "''secret''" "''db:5432/fleet''"] by simp

end
