(* ===== verification/Auth.thy ===== *)
theory Auth
  imports Settings
begin

text \<open>
  Users, passwords, tokens and roles (\<open>api/security.py\<close>, \<open>services/auth_service.py\<close>, the authentication
  and authorisation dependencies of \<open>api/dependencies.py\<close>, \<open>api/routers/auth.py\<close>). Password hashing
  (\<open>bcrypt\<close>) and signed tokens (\<open>jwt\<close>) are third-party code: they are parameters, and
  \<open>hashing_ok\<close> and \<open>tokens_ok\<close> state what their documentation promises.
\<close>

section \<open>Roles\<close>

datatype role = Viewer | Operator | Admin

fun role_value :: "role \<Rightarrow> string" where
  "role_value Viewer = ''viewer''"
| "role_value Operator = ''operator''"
| "role_value Admin = ''admin''"

definition role_of :: "string \<Rightarrow> role option" where
  "role_of v = find (\<lambda>r. role_value r = v) [Viewer, Operator, Admin]"

fun role_rank :: "role \<Rightarrow> nat" where
  "role_rank Viewer = 0"
| "role_rank Operator = 1"
| "role_rank Admin = 2"

definition role_satisfies :: "string \<Rightarrow> role \<Rightarrow> bool" where
  "role_satisfies actual required = (case role_of actual of None \<Rightarrow> False | Some r \<Rightarrow> role_rank required \<le> role_rank r)"

section \<open>Third-party code\<close>

text \<open>
  \<open>hashpw\<close> takes a password and a salt; \<open>checkpw\<close> answers \<open>None\<close> when it raises. A token carries
  the claims; decoding one fails because it has expired or because it is invalid.
\<close>

type_synonym hashpw = "string \<Rightarrow> string \<Rightarrow> string"
type_synonym checkpw = "string \<Rightarrow> string \<Rightarrow> bool option"

record claims =
  cl_sub :: string
  cl_role :: string
  cl_iat :: int
  cl_exp :: int

datatype jwt_failure = Expired_Signature | Invalid_Token

type_synonym jwt_encode = "claims \<Rightarrow> string \<Rightarrow> string \<Rightarrow> string"
type_synonym jwt_decode = "string \<Rightarrow> string \<Rightarrow> string \<Rightarrow> int \<Rightarrow> jwt_failure + claims"

section \<open>Passwords and tokens\<close>

definition BCRYPT_MAX_BYTES :: nat where
  "BCRYPT_MAX_BYTES = 72"

definition hash_password :: "hashpw \<Rightarrow> string \<Rightarrow> string \<Rightarrow> py_error + string" where
  "hash_password hashpw salt password =
     (if BCRYPT_MAX_BYTES < length password then Inl ValueError else Inr (hashpw password salt))"

definition verify_password :: "checkpw \<Rightarrow> string \<Rightarrow> string \<Rightarrow> bool" where
  "verify_password checkpw password password_hash = (checkpw password password_hash = Some True)"

text \<open>Times are seconds; \<open>now\<close> is the clock's reading when the function runs.\<close>

definition create_access_token :: "jwt_encode \<Rightarrow> string \<Rightarrow> string \<Rightarrow> string \<Rightarrow> string \<Rightarrow> int \<Rightarrow> int \<Rightarrow> string" where
  "create_access_token encode subject role secret_key algorithm expires_minutes now =
     encode \<lparr>cl_sub = subject, cl_role = role, cl_iat = now, cl_exp = now + 60 * expires_minutes\<rparr> secret_key algorithm"

text \<open>\<open>None\<close> stands for \<open>TokenError\<close>.\<close>

definition decode_token :: "jwt_decode \<Rightarrow> string \<Rightarrow> string \<Rightarrow> string \<Rightarrow> int \<Rightarrow> claims option" where
  "decode_token decode token secret_key algorithm now =
     (case decode token secret_key algorithm now of
        Inl Expired_Signature \<Rightarrow> None
      | Inl Invalid_Token \<Rightarrow> None
      | Inr c \<Rightarrow> if cl_sub c = [] then None else Some c)"

section \<open>The user service\<close>

record user_record =
  usr_username :: string
  usr_password_hash :: string
  usr_role :: string
  usr_disabled :: bool

text \<open>\<open>str.strip\<close> on ASCII.\<close>

definition is_space :: "char \<Rightarrow> bool" where
  "is_space c \<longleftrightarrow> (let n = of_char c :: nat in 9 \<le> n \<and> n \<le> 13 \<or> 28 \<le> n \<and> n \<le> 32)"

definition str_strip :: "string \<Rightarrow> string" where
  "str_strip s = rev (dropWhile is_space (rev (dropWhile is_space s)))"

definition get_by_username :: "string \<Rightarrow> user_record list \<Rightarrow> user_record option" where
  "get_by_username name users = find (\<lambda>u. usr_username u = name) users"

definition register_user ::
  "hashpw \<Rightarrow> string \<Rightarrow> string \<Rightarrow> string \<Rightarrow> string \<Rightarrow> user_record list \<Rightarrow> (service_error + user_record) \<times> user_record list" where
  "register_user hashpw salt username password role users =
     (let name = str_strip username in
      if name = [] then (Inl Validation_Failed, users)
      else case role_of role of
          None \<Rightarrow> (Inl Validation_Failed, users)
        | Some r \<Rightarrow>
            if length password < 8 then (Inl Validation_Failed, users)
            else if get_by_username name users \<noteq> None then (Inl Resource_Conflict, users)
            else (case hash_password hashpw salt password of
                Inl e \<Rightarrow> (Inl Validation_Failed, users)
              | Inr h \<Rightarrow>
                  let record = \<lparr>usr_username = name, usr_password_hash = h, usr_role = role_value r, usr_disabled = False\<rparr>
                  in (Inr record, users @ [record])))"

definition authenticate :: "checkpw \<Rightarrow> string \<Rightarrow> string \<Rightarrow> user_record list \<Rightarrow> user_record option" where
  "authenticate checkpw username password users =
     (case get_by_username (str_strip username) users of
        None \<Rightarrow> None
      | Some u \<Rightarrow>
          if usr_disabled u then None
          else if \<not> verify_password checkpw password (usr_password_hash u) then None
          else Some u)"

definition issue_token :: "jwt_encode \<Rightarrow> settings \<Rightarrow> int \<Rightarrow> user_record \<Rightarrow> string \<times> int" where
  "issue_token encode st now u =
     (create_access_token encode (usr_username u) (usr_role u) (jwt_secret_key st) (jwt_algorithm st)
        (access_token_expire_minutes st) now, access_token_expire_minutes st * 60)"

definition ensure_bootstrap_admin ::
  "hashpw \<Rightarrow> string \<Rightarrow> settings \<Rightarrow> user_record list \<Rightarrow> (service_error + string option) \<times> user_record list" where
  "ensure_bootstrap_admin hashpw salt st users =
     (case (bootstrap_admin_username st, bootstrap_admin_password st) of
        (Some name, Some password) \<Rightarrow>
          if name = [] \<or> password = [] then (Inr None, users)
          else if users \<noteq> [] then (Inr None, users)
          else (case register_user hashpw salt name password (role_value Admin) users of
              (Inl e, us) \<Rightarrow> (Inl e, us) | (Inr u, us) \<Rightarrow> (Inr (Some name), us))
      | _ \<Rightarrow> (Inr None, users))"

section \<open>The guards of the endpoints\<close>

definition get_current_user ::
  "jwt_decode \<Rightarrow> settings \<Rightarrow> int \<Rightarrow> string option \<Rightarrow> user_record list \<Rightarrow> service_error + user_record" where
  "get_current_user decode st now credentials users =
     (case credentials of
        None \<Rightarrow> Inl Unauthenticated
      | Some token \<Rightarrow>
          if token = [] then Inl Unauthenticated
          else (case decode_token decode token (jwt_secret_key st) (jwt_algorithm st) now of
              None \<Rightarrow> Inl Unauthenticated
            | Some c \<Rightarrow> (case get_by_username (cl_sub c) users of
                  None \<Rightarrow> Inl Unauthenticated
                | Some u \<Rightarrow> if usr_disabled u then Inl Unauthenticated else Inr u)))"

definition require_role ::
  "jwt_decode \<Rightarrow> settings \<Rightarrow> int \<Rightarrow> role \<Rightarrow> string option \<Rightarrow> user_record list \<Rightarrow> service_error + user_record" where
  "require_role decode st now minimum credentials users =
     res_bind (get_current_user decode st now credentials users) (\<lambda>u.
       if \<not> role_satisfies (usr_role u) minimum then Inl Forbidden else Inr u)"

definition login :: "checkpw \<Rightarrow> jwt_encode \<Rightarrow> settings \<Rightarrow> int \<Rightarrow> string \<Rightarrow> string \<Rightarrow> user_record list \<Rightarrow>
    service_error + string \<times> int \<times> string" where
  "login checkpw encode st now username password users =
     (case authenticate checkpw username password users of
        None \<Rightarrow> Inl Unauthenticated
      | Some u \<Rightarrow> (case issue_token encode st now u of (token, expires_in) \<Rightarrow> Inr (token, expires_in, usr_role u)))"

section \<open>What the libraries promise\<close>

text \<open>
  \<open>checkpw\<close> recognises exactly the hashed password; of an input longer than the limit it makes no
  hash but raises \<open>ValueError\<close> (the pinned \<open>bcrypt==5.0.0\<close>).
\<close>

definition hashing_ok :: "hashpw \<Rightarrow> checkpw \<Rightarrow> bool" where
  "hashing_ok hashpw checkpw \<longleftrightarrow>
     (\<forall>p q salt. length p \<le> BCRYPT_MAX_BYTES \<longrightarrow> length q \<le> BCRYPT_MAX_BYTES \<longrightarrow> checkpw q (hashpw p salt) = Some (q = p)) \<and>
     (\<forall>q h. BCRYPT_MAX_BYTES < length q \<longrightarrow> checkpw q h = None)"

definition tokens_ok :: "jwt_encode \<Rightarrow> jwt_decode \<Rightarrow> bool" where
  "tokens_ok encode decode \<longleftrightarrow> (\<forall>c k alg now. encode c k alg \<noteq> [] \<and>
     (cl_iat c \<le> now \<longrightarrow> decode (encode c k alg) k alg now = (if now < cl_exp c then Inr c else Inl Expired_Signature)))"

section \<open>Lemmas\<close>

lemma role_of_value [simp]: "role_of (role_value r) = Some r"
  by (cases r) (simp_all add: role_of_def)

text \<open>User names are unique, not blank and stripped; roles are roles.\<close>

definition users_ok :: "user_record list \<Rightarrow> bool" where
  "users_ok users \<longleftrightarrow> distinct (map usr_username users) \<and>
     (\<forall>u \<in> set users. usr_username u \<noteq> [] \<and> role_of (usr_role u) \<noteq> None)"

lemma register_user_Inr:
  assumes "register_user hashpw salt name password role users = (Inr u, users')"
  shows "users' = users @ [u] \<and> usr_username u = str_strip name \<and> str_strip name \<noteq> [] \<and> role_of role \<noteq> None \<and> usr_role u = role \<and>
    \<not> usr_disabled u \<and> get_by_username (str_strip name) users = None \<and> 8 \<le> length password \<and>
    length password \<le> BCRYPT_MAX_BYTES \<and> usr_password_hash u = hashpw password salt"
proof -
  have "role = role_value r" if "role_of role = Some r" for r
    using that by (auto simp: role_of_def split: if_splits)
  then show ?thesis using assms
    by (auto simp: register_user_def hash_password_def Let_def split: if_splits option.splits sum.splits)
qed

lemma get_by_username_append:
  "get_by_username name (users @ [u]) = (case get_by_username name users of
     Some v \<Rightarrow> Some v | None \<Rightarrow> if usr_username u = name then Some u else None)"
  unfolding get_by_username_def by (induction users) auto

lemma register_user_ok:
  assumes "users_ok users"
  shows "users_ok (snd (register_user hashpw salt name password role users))"
proof (cases "register_user hashpw salt name password role users")
  case (Pair r users')
  show ?thesis
  proof (cases r)
    case (Inl e)
    then have "users' = users" using Pair
      by (auto simp: register_user_def Let_def split: if_splits option.splits sum.splits)
    then show ?thesis using assms Pair by simp
  next
    case (Inr u)
    note reg = register_user_Inr [OF Pair [unfolded Inr]]
    then have "str_strip name \<notin> usr_username ` set users"
      by (auto simp: get_by_username_def find_None_iff)
    then show ?thesis using assms Pair reg by (auto simp: users_ok_def)
  qed
qed

text \<open>A new account can log in with its password and with no other, and the token it gets names it until it expires.\<close>

lemma registered_login:
  assumes "hashing_ok hashpw checkpw" "register_user hashpw salt name password role users = (Inr u, users')"
  shows "authenticate checkpw name attempt users' = (if attempt = password then Some u else None)"
proof -
  note reg = register_user_Inr [OF assms(2)]
  have "checkpw attempt (usr_password_hash u) = (if length attempt \<le> BCRYPT_MAX_BYTES then Some (attempt = password) else None)"
  proof (cases "length attempt \<le> BCRYPT_MAX_BYTES")
    case True
    then show ?thesis using assms(1) reg unfolding hashing_ok_def by simp
  next
    case False
    then show ?thesis using assms(1) unfolding hashing_ok_def by simp
  qed
  then show ?thesis using reg by (simp add: authenticate_def get_by_username_append verify_password_def)
qed

lemma token_names_user:
  assumes "tokens_ok encode decode" "get_by_username (usr_username u) users = Some u" "usr_username u \<noteq> []" "issued \<le> now"
  shows "get_current_user decode st now (Some (fst (issue_token encode st issued u))) users =
    (if now < issued + 60 * access_token_expire_minutes st \<and> \<not> usr_disabled u then Inr u else Inl Unauthenticated)"
  using assms unfolding tokens_ok_def
  by (simp add: get_current_user_def issue_token_def create_access_token_def decode_token_def)

section \<open>Properties\<close>

text \<open>
  C24: A registered account can log in with its password and with no other, however long the
  attempt: the length limit of the hash function is enforced on registering, and a longer attempt
  is refused. The token it is given
  passes the guard of an endpoint until it expires, for exactly the roles at or below the
  account's own; afterwards it is refused as unauthenticated.
\<close>

theorem login_session:
  assumes "hashing_ok hashpw checkpw" "tokens_ok encode decode"
    and "register_user hashpw salt name password (role_value r) users = (Inr u, users')"
    and "issued \<le> now"
  shows "login checkpw encode st issued name attempt users' =
      (if attempt = password then Inr (fst (issue_token encode st issued u), access_token_expire_minutes st * 60, role_value r) else Inl Unauthenticated) \<and>
    require_role decode st now minimum (Some (fst (issue_token encode st issued u))) users' =
      (if issued + 60 * access_token_expire_minutes st \<le> now then Inl Unauthenticated
       else if role_rank minimum \<le> role_rank r then Inr u else Inl Forbidden)"
proof -
  define token where "token = fst (issue_token encode st issued u)"
  note reg = register_user_Inr [OF assms(3)]
  have "get_by_username (usr_username u) users' = Some u" using reg by (simp add: get_by_username_append)
  then have user: "get_current_user decode st now (Some token) users' =
      (if now < issued + 60 * access_token_expire_minutes st then Inr u else Inl Unauthenticated)"
    unfolding token_def using token_names_user [OF assms(2) _ _ assms(4)] reg by simp
  then have "require_role decode st now minimum (Some token) users' =
      (if issued + 60 * access_token_expire_minutes st \<le> now then Inl Unauthenticated
       else if role_rank minimum \<le> role_rank r then Inr u else Inl Forbidden)"
    using reg by (simp add: require_role_def role_satisfies_def)
  moreover have "login checkpw encode st issued name attempt users' =
      (if attempt = password then Inr (token, access_token_expire_minutes st * 60, role_value r) else Inl Unauthenticated)"
  proof -
    have "usr_role u = role_value r" using reg by simp
    then show ?thesis by (simp add: login_def registered_login [OF assms(1,3)] token_def issue_token_def)
  qed
  ultimately show ?thesis by (simp add: token_def)
qed

text \<open>An instance of the libraries' promises: plain passwords, and claims written out as text.\<close>

definition write_int :: "int \<Rightarrow> string" where
  "write_int i = (if i < 0 then CHR ''-'' else CHR ''+'') # replicate (nat \<bar>i\<bar>) CHR ''1'' @ '',''"

definition plain_encode :: jwt_encode where
  "plain_encode c k alg = write_int (cl_iat c) @ write_int (cl_exp c) @ write_int (int (length (cl_sub c))) @ cl_sub c @ cl_role c"

definition read_int :: "string \<Rightarrow> int \<times> string" where
  "read_int s = (let digits = takeWhile (\<lambda>c. c = CHR ''1'') (tl s); n = int (length digits) in
     (if hd s = CHR ''-'' then - n else n, tl (dropWhile (\<lambda>c. c = CHR ''1'') (tl s))))"

definition plain_decode :: jwt_decode where
  "plain_decode token k alg now = (case read_int token of (iat, t1) \<Rightarrow> case read_int t1 of (ex, t2) \<Rightarrow> case read_int t2 of (n, t3) \<Rightarrow>
     if now < ex then Inr \<lparr>cl_sub = take (nat n) t3, cl_role = drop (nat n) t3, cl_iat = iat, cl_exp = ex\<rparr>
     else Inl Expired_Signature)"

lemma read_write_int: "read_int (write_int i @ rest) = (i, rest)"
proof -
  have "takeWhile (\<lambda>c. c = CHR ''1'') (replicate n CHR ''1'' @ CHR '','' # rest) = replicate n CHR ''1''"
    "dropWhile (\<lambda>c. c = CHR ''1'') (replicate n CHR ''1'' @ CHR '','' # rest) = CHR '','' # rest" for n
    by (induction n) simp_all
  then show ?thesis by (simp add: read_int_def write_int_def Let_def)
qed

definition plain_checkpw :: checkpw where
  "plain_checkpw q h = (if BCRYPT_MAX_BYTES < length q then None else Some (q = h))"

lemma plain_ok: "hashing_ok (\<lambda>p salt. p) plain_checkpw" "tokens_ok plain_encode plain_decode"
proof -
  show "hashing_ok (\<lambda>p salt. p) plain_checkpw" by (simp add: hashing_ok_def plain_checkpw_def)
  have "plain_encode c k alg \<noteq> []" for c k alg by (simp add: plain_encode_def write_int_def)
  moreover have "plain_decode (plain_encode c k alg) k alg now = (if now < cl_exp c then Inr c else Inl Expired_Signature)" for c k alg now
    by (simp add: plain_decode_def plain_encode_def read_write_int)
  ultimately show "tokens_ok plain_encode plain_decode" by (simp add: tokens_ok_def)
qed

lemma login_session_witness:
  "\<exists>u users'. register_user (\<lambda>p salt. p) [] '' eve'' ''password'' ''operator'' [] = (Inr u, users') \<and>
     login plain_checkpw plain_encode default_settings 0 '' eve'' (concat (replicate 10 ''password'')) users' = Inl Unauthenticated"
proof -
  have reg: "register_user (\<lambda>p salt. p) [] '' eve'' ''password'' (role_value Operator) [] =
      (Inr \<lparr>usr_username = ''eve'', usr_password_hash = ''password'', usr_role = ''operator'', usr_disabled = False\<rparr>,
       [\<lparr>usr_username = ''eve'', usr_password_hash = ''password'', usr_role = ''operator'', usr_disabled = False\<rparr>])"
    by code_simp
  have "concat (replicate 10 ''password'') \<noteq> ''password''" by code_simp
  with login_session [OF plain_ok reg, of 0 0] reg show ?thesis by simp
qed

end
