(* ===== verification/Api_Schema.thy ===== *)
theory Api_Schema
  imports Auth Fleet_Requests
begin

text \<open>
  The bodies of requests and responses (\<open>api/schemas\<close>). Parsing JSON into typed fields is the work
  of Pydantic: a request record holds the values of the fields as sent, \<open>None\<close> for one that is
  absent, and its predicate \<open>..._valid\<close> states the declared bounds, patterns and names. A default
  is applied where the field is read. A response model that is built from a row or a result may
  refuse a coordinate, which leaves the endpoint as an unexpected \<open>ValueError\<close>. The generated run
  ids and the times are left out.
\<close>

section \<open>Fields\<close>

definition given :: "'a option \<Rightarrow> 'a \<Rightarrow> 'a" where
  "given x fallback = (case x of None \<Rightarrow> fallback | Some v \<Rightarrow> v)"

definition optional :: "('a \<Rightarrow> bool) \<Rightarrow> 'a option \<Rightarrow> bool" where
  "optional ok x = (case x of None \<Rightarrow> True | Some v \<Rightarrow> ok v)"

definition id_valid :: "string \<Rightarrow> bool" where
  "id_valid s \<longleftrightarrow> 1 \<le> length s \<and> length s \<le> 64"

text \<open>The pattern \<open>[A-Za-z0-9_-]+\<close> of a new robot's or task's id; a user's name may have a dot too.\<close>

definition word_char :: "char \<Rightarrow> bool" where
  "word_char c \<longleftrightarrow> (CHR ''A'' \<le> c \<and> c \<le> CHR ''Z'') \<or> (CHR ''a'' \<le> c \<and> c \<le> CHR ''z'') \<or>
     (CHR ''0'' \<le> c \<and> c \<le> CHR ''9'') \<or> c = CHR ''_'' \<or> c = CHR ''-''"

definition new_id_valid :: "string \<Rightarrow> bool" where
  "new_id_valid s \<longleftrightarrow> id_valid s \<and> list_all word_char s"

definition username_valid :: "string \<Rightarrow> bool" where
  "username_valid s \<longleftrightarrow> id_valid s \<and> list_all (\<lambda>c. word_char c \<or> c = CHR ''.'') s"

text \<open>A JSON number that Pydantic has read into a bounded float field.\<close>

definition percent :: "pyfloat \<Rightarrow> bool" where
  "percent x \<longleftrightarrow> is_float x \<and> 0 \<le> x \<and> x \<le> 100"

definition nonneg_number :: "pyfloat \<Rightarrow> bool" where
  "nonneg_number x \<longleftrightarrow> is_float x \<and> 0 \<le> x"

definition positive_number :: "pyfloat \<Rightarrow> bool" where
  "positive_number x \<longleftrightarrow> is_float x \<and> 0 < x"

record coord =
  co_row :: int
  co_col :: int

definition coord_valid :: "coord \<Rightarrow> bool" where
  "coord_valid c \<longleftrightarrow> 0 \<le> co_row c \<and> 0 \<le> co_col c"

definition cell_of :: "coord \<Rightarrow> position" where
  "cell_of c = Position (co_row c) (co_col c)"

text \<open>\<open>Coordinate(row=..., col=...)\<close> in a response.\<close>

definition coord_at :: "int \<Rightarrow> int \<Rightarrow> service_error + coord" where
  "coord_at r c = (if 0 \<le> r \<and> 0 \<le> c then Inr \<lparr>co_row = r, co_col = c\<rparr> else Inl (Unexpected ValueError))"

definition coord_of :: "position \<Rightarrow> service_error + coord" where
  "coord_of p = coord_at (row p) (col p)"

definition status_valid :: "string \<Rightarrow> bool" where
  "status_valid v \<longleftrightarrow> robot_status_of v \<noteq> None"

definition task_status_valid :: "string \<Rightarrow> bool" where
  "task_status_valid v \<longleftrightarrow> task_status_of v \<noteq> None"

definition priority_valid :: "string \<Rightarrow> bool" where
  "priority_valid v \<longleftrightarrow> v \<in> set (map (\<lambda>p. str_lower (priority_name p)) [P_LOW, P_NORMAL, P_HIGH, P_URGENT])"

record warehouse_spec =
  ws_width :: int
  ws_height :: int
  ws_static_obstacles :: "coord list option"

definition warehouse_spec_valid :: "warehouse_spec \<Rightarrow> bool" where
  "warehouse_spec_valid w \<longleftrightarrow> 0 < ws_width w \<and> ws_width w \<le> 200 \<and> 0 < ws_height w \<and> ws_height w \<le> 200 \<and>
     optional (list_all coord_valid) (ws_static_obstacles w)"

section \<open>Robots and tasks\<close>

record robot_create =
  rb_robot_id :: string
  rb_position :: coord
  rb_battery_level :: "pyfloat option"
  rb_payload_capacity :: "pyfloat option"
  rb_current_payload :: "pyfloat option"
  rb_status :: "string option"

definition robot_create_valid :: "robot_create \<Rightarrow> bool" where
  "robot_create_valid b \<longleftrightarrow> new_id_valid (rb_robot_id b) \<and> coord_valid (rb_position b) \<and>
     optional percent (rb_battery_level b) \<and> optional nonneg_number (rb_payload_capacity b) \<and>
     optional nonneg_number (rb_current_payload b) \<and> optional status_valid (rb_status b)"

record robot_update =
  ru_position :: "coord option"
  ru_battery_level :: "pyfloat option"
  ru_payload_capacity :: "pyfloat option"
  ru_current_payload :: "pyfloat option"
  ru_status :: "string option"
  ru_assigned_task_id :: "string option"
  ru_clear_assigned_task :: "bool option"

definition robot_update_valid :: "robot_update \<Rightarrow> bool" where
  "robot_update_valid b \<longleftrightarrow> optional coord_valid (ru_position b) \<and> optional percent (ru_battery_level b) \<and>
     optional nonneg_number (ru_payload_capacity b) \<and> optional nonneg_number (ru_current_payload b) \<and>
     optional status_valid (ru_status b) \<and> optional (\<lambda>s. length s \<le> 64) (ru_assigned_task_id b)"

record robot_read =
  rd_robot_id :: string
  rd_position :: coord
  rd_battery_level :: pyfloat
  rd_payload_capacity :: pyfloat
  rd_current_payload :: pyfloat
  rd_status :: string
  rd_assigned_task_id :: "string option"

definition robot_read_of :: "robot_record \<Rightarrow> service_error + robot_read" where
  "robot_read_of r = res_bind (coord_at (rec_row r) (rec_col r)) (\<lambda>p.
     Inr \<lparr>rd_robot_id = rec_robot_id r, rd_position = p, rd_battery_level = rec_battery_level r,
       rd_payload_capacity = rec_payload_capacity r, rd_current_payload = rec_current_payload r,
       rd_status = rec_status r, rd_assigned_task_id = rec_assigned_task_id r\<rparr>)"

record task_create =
  tb_task_id :: string
  tb_pickup :: coord
  tb_dropoff :: coord
  tb_payload_weight :: "pyfloat option"
  tb_priority :: "string option"

definition task_create_valid :: "task_create \<Rightarrow> bool" where
  "task_create_valid b \<longleftrightarrow> new_id_valid (tb_task_id b) \<and> coord_valid (tb_pickup b) \<and> coord_valid (tb_dropoff b) \<and>
     optional positive_number (tb_payload_weight b) \<and> optional priority_valid (tb_priority b)"

record task_update =
  tu_status :: "string option"
  tu_assigned_robot_id :: "string option"
  tu_priority :: "string option"
  tu_payload_weight :: "pyfloat option"
  tu_failure_reason :: "string option"

definition task_update_valid :: "task_update \<Rightarrow> bool" where
  "task_update_valid b \<longleftrightarrow> optional task_status_valid (tu_status b) \<and> optional (\<lambda>s. length s \<le> 64) (tu_assigned_robot_id b) \<and>
     optional priority_valid (tu_priority b) \<and> optional positive_number (tu_payload_weight b) \<and>
     optional (\<lambda>s. length s \<le> 500) (tu_failure_reason b)"

record task_read =
  td_task_id :: string
  td_pickup :: coord
  td_dropoff :: coord
  td_payload_weight :: pyfloat
  td_priority :: string
  td_status :: string
  td_assigned_robot_id :: "string option"
  td_failure_reason :: "fail_reason option"

definition task_read_of :: "task_record \<Rightarrow> service_error + task_read" where
  "task_read_of t = res_bind (coord_at (rec_pickup_row t) (rec_pickup_col t)) (\<lambda>a.
     res_bind (coord_at (rec_dropoff_row t) (rec_dropoff_col t)) (\<lambda>b.
     Inr \<lparr>td_task_id = rec_task_id t, td_pickup = a, td_dropoff = b, td_payload_weight = rec_payload_weight t,
       td_priority = rec_priority t, td_status = rec_task_status t, td_assigned_robot_id = rec_assigned_robot_id t,
       td_failure_reason = rec_failure_reason t\<rparr>))"

section \<open>Planning\<close>

record path_plan_request =
  pb_start :: coord
  pb_goal :: coord
  pb_algorithm :: "string option"
  pb_warehouse :: "warehouse_spec option"
  pb_dynamic_obstacles :: "coord list option"

definition path_plan_request_valid :: "path_plan_request \<Rightarrow> bool" where
  "path_plan_request_valid b \<longleftrightarrow> coord_valid (pb_start b) \<and> coord_valid (pb_goal b) \<and>
     optional (\<lambda>a. a \<in> {''astar'', ''dijkstra''}) (pb_algorithm b) \<and> optional warehouse_spec_valid (pb_warehouse b) \<and>
     optional (list_all coord_valid) (pb_dynamic_obstacles b)"

record path_plan_response =
  pp_algorithm :: string
  pp_success :: bool
  pp_start :: coord
  pp_goal :: coord
  pp_path :: "coord list"
  pp_total_cost :: "int option"
  pp_nodes_expanded :: nat
  pp_failure_reason :: "plan_reason option"

definition path_plan_response_of :: "string \<Rightarrow> path_result \<Rightarrow> service_error + path_plan_response" where
  "path_plan_response_of algorithm result =
     res_bind (coord_of (pr_start result)) (\<lambda>a. res_bind (coord_of (pr_goal result)) (\<lambda>b.
     res_bind (res_map coord_of (pr_path result)) (\<lambda>cells.
     Inr \<lparr>pp_algorithm = algorithm, pp_success = pr_success result, pp_start = a, pp_goal = b, pp_path = cells,
       pp_total_cost = pr_total_cost result, pp_nodes_expanded = pr_nodes_expanded result,
       pp_failure_reason = pr_failure_reason result\<rparr>)))"

section \<open>Allocation\<close>

record allocation_robot =
  ab_robot_id :: string
  ab_position :: coord
  ab_battery_level :: "pyfloat option"
  ab_payload_capacity :: "pyfloat option"

definition allocation_robot_valid :: "allocation_robot \<Rightarrow> bool" where
  "allocation_robot_valid b \<longleftrightarrow> id_valid (ab_robot_id b) \<and> coord_valid (ab_position b) \<and>
     optional percent (ab_battery_level b) \<and> optional nonneg_number (ab_payload_capacity b)"

definition allocation_robot_spec :: "allocation_robot \<Rightarrow> robot_spec" where
  "allocation_robot_spec b = \<lparr>sp_robot_id = ab_robot_id b, sp_row = co_row (ab_position b), sp_col = co_col (ab_position b),
     sp_battery_level = given (ab_battery_level b) 100, sp_payload_capacity = given (ab_payload_capacity b) 10\<rparr>"

text \<open>\<open>AllocationTask\<close> and \<open>RecoveryInlineTask\<close> have the same fields.\<close>

record inline_task =
  it_task_id :: string
  it_pickup :: coord
  it_dropoff :: coord
  it_payload_weight :: "pyfloat option"
  it_priority :: "string option"

definition inline_task_valid :: "inline_task \<Rightarrow> bool" where
  "inline_task_valid b \<longleftrightarrow> id_valid (it_task_id b) \<and> coord_valid (it_pickup b) \<and> coord_valid (it_dropoff b) \<and>
     optional positive_number (it_payload_weight b) \<and> optional priority_valid (it_priority b)"

definition inline_task_spec :: "inline_task \<Rightarrow> task_spec" where
  "inline_task_spec b = \<lparr>sp_task_id = it_task_id b, sp_pickup_row = co_row (it_pickup b), sp_pickup_col = co_col (it_pickup b),
     sp_dropoff_row = co_row (it_dropoff b), sp_dropoff_col = co_col (it_dropoff b),
     sp_payload_weight = given (it_payload_weight b) 1, sp_priority = given (it_priority b) ''normal''\<rparr>"

record allocation_request =
  aq_algorithm :: "string option"
  aq_robots :: "allocation_robot list option"
  aq_tasks :: "inline_task list option"
  aq_from_persisted :: "bool option"
  aq_commit :: "bool option"

text \<open>The last conjunct is the model validator: inline lists or the persisted rows.\<close>

definition allocation_request_valid :: "allocation_request \<Rightarrow> bool" where
  "allocation_request_valid b \<longleftrightarrow> optional (\<lambda>a. a \<in> {''greedy'', ''cp_sat''}) (aq_algorithm b) \<and>
     optional (list_all allocation_robot_valid) (aq_robots b) \<and> optional (list_all inline_task_valid) (aq_tasks b) \<and>
     (given (aq_from_persisted b) False \<or> given (aq_robots b) [] \<noteq> [] \<and> given (aq_tasks b) [] \<noteq> [])"

record allocation_assignment =
  aa_robot_id :: string
  aa_task_id :: string
  aa_robot_to_pickup_cost :: int
  aa_pickup_to_dropoff_cost :: int
  aa_total_estimated_cost :: int

record allocation_response =
  ar_algorithm :: string
  ar_solver_status :: string
  ar_assignments :: "allocation_assignment list"
  ar_unassigned_task_ids :: "string list"
  ar_total_estimated_cost :: int
  ar_eligible_pair_count :: nat
  ar_infeasible_pair_count :: nat
  ar_committed :: bool
  ar_applied :: "(string \<times> string) list"

definition allocation_response_of :: "allocation_outcome \<Rightarrow> allocation_response" where
  "allocation_response_of out = (let result = ao_result out in
     \<lparr>ar_algorithm = al_algorithm result, ar_solver_status = al_solver_status result,
      ar_assignments = map (\<lambda>a. \<lparr>aa_robot_id = as_robot_id a, aa_task_id = as_task_id a,
        aa_robot_to_pickup_cost = as_robot_to_pickup a, aa_pickup_to_dropoff_cost = as_pickup_to_dropoff a,
        aa_total_estimated_cost = as_total a\<rparr>) (al_assignments result),
      ar_unassigned_task_ids = al_unassigned_task_ids result, ar_total_estimated_cost = al_total_estimated_cost result,
      ar_eligible_pair_count = al_eligible_pair_count result, ar_infeasible_pair_count = al_infeasible_pair_count result,
      ar_committed = ao_committed out, ar_applied = ao_applied out\<rparr>)"

section \<open>Coordination\<close>

record coordination_robot =
  cb_robot_id :: string
  cb_start :: coord
  cb_goal :: coord

definition coordination_robot_valid :: "coordination_robot \<Rightarrow> bool" where
  "coordination_robot_valid b \<longleftrightarrow> id_valid (cb_robot_id b) \<and> coord_valid (cb_start b) \<and> coord_valid (cb_goal b)"

definition coordination_robot_spec :: "coordination_robot \<Rightarrow> coordination_spec" where
  "coordination_robot_spec b = \<lparr>cs_robot_id = cb_robot_id b, cs_start_row = co_row (cb_start b), cs_start_col = co_col (cb_start b),
     cs_goal_row = co_row (cb_goal b), cs_goal_col = co_col (cb_goal b)\<rparr>"

record coordination_request =
  cq_robots :: "coordination_robot list"
  cq_priority_order :: "string list option"
  cq_horizon :: "int option"
  cq_warehouse :: "warehouse_spec option"

definition coordination_request_valid :: "coordination_request \<Rightarrow> bool" where
  "coordination_request_valid b \<longleftrightarrow> cq_robots b \<noteq> [] \<and> list_all coordination_robot_valid (cq_robots b) \<and>
     optional (\<lambda>h. 0 < h) (cq_horizon b) \<and> optional warehouse_spec_valid (cq_warehouse b)"

record timed_step_model =
  ts_row :: int
  ts_col :: int
  ts_timestep :: int

record coordinated_route =
  ct_robot_id :: string
  ct_success :: bool
  ct_steps :: "timed_step_model list"
  ct_arrival_time :: int
  ct_move_count :: int
  ct_wait_count :: int
  ct_failure_reason :: "st_reason option"

definition coordinated_route_of :: "string \<Rightarrow> timed_path \<Rightarrow> coordinated_route" where
  "coordinated_route_of rid tp =
     \<lparr>ct_robot_id = rid, ct_success = tp_success tp,
      ct_steps = map (\<lambda>s. \<lparr>ts_row = row (step_position s), ts_col = col (step_position s), ts_timestep = step_timestep s\<rparr>) (tp_steps tp),
      ct_arrival_time = tp_arrival_time tp, ct_move_count = tp_move_count tp, ct_wait_count = tp_wait_count tp,
      ct_failure_reason = tp_failure_reason tp\<rparr>"

record coordination_response =
  ck_success :: bool
  ck_robot_order :: "string list"
  ck_planned_robot_count :: nat
  ck_failed_robot_ids :: "string list"
  ck_routes :: "(string, coordinated_route) dict"
  ck_makespan :: int
  ck_total_move_steps :: int
  ck_total_wait_steps :: int
  ck_reservation_lookups :: nat
  ck_failure_reason :: "coordination_failure option"

definition coordination_response_of :: "coordination_result \<Rightarrow> coordination_response" where
  "coordination_response_of result =
     \<lparr>ck_success = cr_success result, ck_robot_order = cr_robot_order result,
      ck_planned_robot_count = cr_planned_robot_count result, ck_failed_robot_ids = cr_failed_robot_ids result,
      ck_routes = map (\<lambda>(rid, tp). (rid, coordinated_route_of rid tp)) (cr_timed_paths result),
      ck_makespan = cr_makespan result, ck_total_move_steps = cr_total_move_steps result,
      ck_total_wait_steps = cr_total_wait_steps result, ck_reservation_lookups = cr_conflict_checks result,
      ck_failure_reason = cr_failure_reason result\<rparr>"

section \<open>Recovery\<close>

record recovery_robot_body =
  vb_robot_id :: string
  vb_start :: coord
  vb_goal :: coord
  vb_task :: "inline_task option"

definition recovery_robot_valid :: "recovery_robot_body \<Rightarrow> bool" where
  "recovery_robot_valid b \<longleftrightarrow> id_valid (vb_robot_id b) \<and> coord_valid (vb_start b) \<and> coord_valid (vb_goal b) \<and>
     optional inline_task_valid (vb_task b)"

definition recovery_robot_spec :: "recovery_robot_body \<Rightarrow> recovery_spec" where
  "recovery_robot_spec b = \<lparr>rv_robot_id = vb_robot_id b, rv_start_row = co_row (vb_start b), rv_start_col = co_col (vb_start b),
     rv_goal_row = co_row (vb_goal b), rv_goal_col = co_col (vb_goal b), rv_task = map_option inline_task_spec (vb_task b)\<rparr>"

text \<open>\<open>_RecoveryRequestBase\<close> and the fields that its two subclasses add.\<close>

record recovery_request =
  vq_robots :: "recovery_robot_body list"
  vq_timestep :: int
  vq_priority_order :: "string list option"
  vq_horizon :: "int option"
  vq_recovery_enabled :: "bool option"
  vq_warehouse :: "warehouse_spec option"

definition recovery_request_valid :: "'a recovery_request_scheme \<Rightarrow> bool" where
  "recovery_request_valid b \<longleftrightarrow> vq_robots b \<noteq> [] \<and> list_all recovery_robot_valid (vq_robots b) \<and> 0 \<le> vq_timestep b \<and>
     optional (\<lambda>h. 0 < h) (vq_horizon b) \<and> optional warehouse_spec_valid (vq_warehouse b)"

record obstacle_recovery_request = recovery_request +
  vq_obstacle :: coord

definition obstacle_recovery_request_valid :: "obstacle_recovery_request \<Rightarrow> bool" where
  "obstacle_recovery_request_valid b \<longleftrightarrow> recovery_request_valid b \<and> coord_valid (vq_obstacle b)"

record failure_recovery_request = recovery_request +
  vq_failed_robot_id :: string
  vq_commit :: "bool option"

definition failure_recovery_request_valid :: "failure_recovery_request \<Rightarrow> bool" where
  "failure_recovery_request_valid b \<longleftrightarrow> recovery_request_valid b \<and> id_valid (vq_failed_robot_id b)"

record robot_replan_model =
  rp_robot :: string
  rp_replanned :: bool
  rp_current_position :: coord
  rp_original_goal :: coord
  rp_new_path_length :: int
  rp_additional_distance :: int
  rp_wait_actions_introduced :: int
  rp_joined_mid_episode :: bool
  rp_failure_reason :: "st_reason option"

definition robot_replan_model_of :: "robot_replan \<Rightarrow> service_error + robot_replan_model" where
  "robot_replan_model_of r = res_bind (coord_of (rr_current_position r)) (\<lambda>here. res_bind (coord_of (rr_original_goal r)) (\<lambda>goal.
     Inr \<lparr>rp_robot = rr_robot_id r, rp_replanned = rr_success r, rp_current_position = here, rp_original_goal = goal,
       rp_new_path_length = new_length r, rp_additional_distance = additional_distance r,
       rp_wait_actions_introduced = rr_wait_actions_introduced r, rp_joined_mid_episode = rr_joined_mid_episode r,
       rp_failure_reason = rr_failure_reason r\<rparr>))"

text \<open>
  The reason of a recovery response is that of the event, or else of the run, or the message of a
  fleet that could not be coordinated at all.
\<close>

datatype recovery_failure_text = Event_Reason recovery_reason | Run_Reason resilient_failure | Not_Coordinated

record recovery_response =
  rk_disruption_type :: string
  rk_recovery_enabled :: bool
  rk_recovery_attempted :: bool
  rk_recovery_success :: bool
  rk_safe_stop :: bool
  rk_resumed :: bool
  rk_affected_robot_ids :: "string list"
  rk_affected_task_ids :: "string list"
  rk_replanning_attempted :: bool
  rk_replanning_success :: bool
  rk_task_reassignment_attempted :: bool
  rk_task_reassignment_success :: bool
  rk_reassigned_from :: "string option"
  rk_reassigned_to :: "string option"
  rk_robot_replans :: "robot_replan_model list"
  rk_unresolved_vertex_conflicts :: nat
  rk_unresolved_edge_conflicts :: nat
  rk_committed :: bool
  rk_committed_state :: "string list"
  rk_execution :: "resilient_result option"
  rk_failure_reason :: "recovery_failure_text option"

definition recovery_response_of :: "recovery_outcome \<Rightarrow> service_error + recovery_response" where
  "recovery_response_of out =
     (let execution = ro_execution out; event = ro_event out;
          holds = (\<lambda>f. case event of None \<Rightarrow> False | Some e \<Rightarrow> f e) in
      res_bind (res_map robot_replan_model_of (case event of None \<Rightarrow> [] | Some e \<Rightarrow> ev_robot_replans e)) (\<lambda>replans.
      Inr \<lparr>rk_disruption_type = ro_disruption_type out, rk_recovery_enabled = ro_recovery_enabled out,
        rk_recovery_attempted = (event \<noteq> None), rk_recovery_success = holds ev_recovery_success,
        rk_safe_stop = rx_safe_stop execution, rk_resumed = holds ev_resumed,
        rk_affected_robot_ids = (case event of None \<Rightarrow> [] | Some e \<Rightarrow> ev_affected_robot_ids e),
        rk_affected_task_ids = (case event of None \<Rightarrow> [] | Some e \<Rightarrow> ev_affected_task_ids e),
        rk_replanning_attempted = holds ev_replanning_attempted, rk_replanning_success = holds ev_replanning_success,
        rk_task_reassignment_attempted = holds ev_task_reassignment_attempted,
        rk_task_reassignment_success = holds ev_task_reassignment_success,
        rk_reassigned_from = Option.bind event ev_reassigned_from, rk_reassigned_to = Option.bind event ev_reassigned_to,
        rk_robot_replans = replans,
        rk_unresolved_vertex_conflicts = (case event of None \<Rightarrow> 0 | Some e \<Rightarrow> ev_unresolved_vertex_conflicts e),
        rk_unresolved_edge_conflicts = (case event of None \<Rightarrow> 0 | Some e \<Rightarrow> ev_unresolved_edge_conflicts e),
        rk_committed = ro_committed out, rk_committed_state = ro_applied out, rk_execution = Some execution,
        rk_failure_reason = (case Option.bind event ev_failure_reason of
            Some why \<Rightarrow> Some (Event_Reason why)
          | None \<Rightarrow> map_option Run_Reason (rx_failure_reason execution))\<rparr>))"

section \<open>Accounts\<close>

record login_request =
  lg_username :: string
  lg_password :: string

definition login_request_valid :: "login_request \<Rightarrow> bool" where
  "login_request_valid b \<longleftrightarrow> id_valid (lg_username b) \<and> 1 \<le> length (lg_password b) \<and> length (lg_password b) \<le> 200"

record user_create =
  uc_username :: string
  uc_password :: string
  uc_role :: "string option"

definition user_create_valid :: "user_create \<Rightarrow> bool" where
  "user_create_valid b \<longleftrightarrow> username_valid (uc_username b) \<and> 8 \<le> length (uc_password b) \<and> length (uc_password b) \<le> 200 \<and>
     optional (\<lambda>v. role_of v \<noteq> None) (uc_role b)"

record token_response =
  tk_access_token :: string
  tk_expires_in :: int
  tk_role :: string

record user_read =
  ur_username :: string
  ur_role :: string
  ur_disabled :: bool

definition user_read_of :: "user_record \<Rightarrow> user_read" where
  "user_read_of u = \<lparr>ur_username = usr_username u, ur_role = usr_role u, ur_disabled = usr_disabled u\<rparr>"

end
