(* ===== verification/Api.thy ===== *)
theory Api
  imports Api_Schema
begin

text \<open>
  The HTTP interface (\<open>api/routers\<close>, \<open>api/errors.py\<close>, \<open>api/dependencies.py\<close>): one definition per
  endpoint, the guard that each declares, and what becomes of a request. The framework runs the
  guard before it validates the body; both come before the handler, which runs in a transaction.
  The whole database is the fleet and the accounts. Third-party code and the configuration are
  collected in \<open>environment\<close>; the clock and the salt of a request are arguments.
\<close>

record environment =
  env_settings :: settings
  env_solver :: cp_solver
  env_encode :: jwt_encode
  env_decode :: jwt_decode
  env_hashpw :: hashpw
  env_checkpw :: checkpw
  env_select_one :: "string + unit"

record server =
  sv_store :: store
  sv_users :: "user_record list"

datatype body =
    Robot_Body robot_read | Robot_List "robot_read list" nat
  | Task_Body task_read | Task_List "task_read list" nat
  | Path_Body path_plan_response | Allocation_Body allocation_response
  | Coordination_Body coordination_response | Recovery_Body recovery_response
  | Token_Body token_response | User_Body user_read
  | Health_Body string string | Ready_Body string "(string, string) dict"
  | Error_Body string | No_Content

record response =
  http_status :: nat
  http_body :: body
  http_challenge :: bool

type_synonym reply = "(service_error + nat \<times> body) \<times> server"

text \<open>A service call on the tables of the fleet, and the response made of its outcome.\<close>

definition on_store :: "(store \<Rightarrow> (service_error + 'a) \<times> store) \<Rightarrow> server \<Rightarrow> (service_error + 'a) \<times> server" where
  "on_store f sv = (case f (sv_store sv) of (r, db) \<Rightarrow> (r, sv\<lparr>sv_store := db\<rparr>))"

definition reading :: "(store \<Rightarrow> service_error + 'a) \<Rightarrow> store \<Rightarrow> (service_error + 'a) \<times> store" where
  "reading f db = (f db, db)"

definition reply_with :: "nat \<Rightarrow> ('a \<Rightarrow> service_error + body) \<Rightarrow> (service_error + 'a) \<times> server \<Rightarrow> reply" where
  "reply_with status body_of r = (case r of (x, sv) \<Rightarrow> (res_bind (res_bind x body_of) (\<lambda>b. Inr (status, b)), sv))"

section \<open>Robots\<close>

definition post_robot :: "robot_create \<Rightarrow> server \<Rightarrow> reply" where
  "post_robot b sv = reply_with 201 (\<lambda>r. map_sum id Robot_Body (robot_read_of r))
     (on_store (create_robot (rb_robot_id b) (co_row (rb_position b)) (co_col (rb_position b))
        (given (rb_battery_level b) 100) (given (rb_payload_capacity b) 10) (given (rb_current_payload b) 0)
        (given (rb_status b) ''idle'')) sv)"

definition get_robots :: "string option \<Rightarrow> server \<Rightarrow> reply" where
  "get_robots status sv = reply_with 200 (\<lambda>rs. res_bind (res_map robot_read_of rs) (\<lambda>bs. Inr (Robot_List bs (length rs))))
     (on_store (reading (list_robots status)) sv)"

definition get_robot_by_id :: "string \<Rightarrow> server \<Rightarrow> reply" where
  "get_robot_by_id rid sv = reply_with 200 (\<lambda>r. map_sum id Robot_Body (robot_read_of r)) (on_store (reading (find_robot rid)) sv)"

definition robot_patch_of :: "robot_update \<Rightarrow> robot_patch" where
  "robot_patch_of b = \<lparr>new_row = map_option co_row (ru_position b), new_col = map_option co_col (ru_position b),
     new_battery_level = ru_battery_level b, new_payload_capacity = ru_payload_capacity b,
     new_current_payload = ru_current_payload b, new_status = ru_status b,
     new_assigned_task_id = ru_assigned_task_id b, clear_assigned_task = given (ru_clear_assigned_task b) False\<rparr>"

definition patch_robot :: "string \<Rightarrow> robot_update \<Rightarrow> server \<Rightarrow> reply" where
  "patch_robot rid b sv = reply_with 200 (\<lambda>r. map_sum id Robot_Body (robot_read_of r))
     (on_store (update_robot rid (robot_patch_of b)) sv)"

definition delete_robot_by_id :: "string \<Rightarrow> server \<Rightarrow> reply" where
  "delete_robot_by_id rid sv = reply_with 204 (\<lambda>_. Inr No_Content) (on_store (delete_robot rid) sv)"

section \<open>Tasks\<close>

definition post_task :: "task_create \<Rightarrow> server \<Rightarrow> reply" where
  "post_task b sv = reply_with 201 (\<lambda>t. map_sum id Task_Body (task_read_of t))
     (on_store (create_task (tb_task_id b) (co_row (tb_pickup b)) (co_col (tb_pickup b)) (co_row (tb_dropoff b)) (co_col (tb_dropoff b))
        (given (tb_priority b) ''normal'') (given (tb_payload_weight b) 1)) sv)"

definition get_tasks :: "string option \<Rightarrow> server \<Rightarrow> reply" where
  "get_tasks status sv = reply_with 200 (\<lambda>ts. res_bind (res_map task_read_of ts) (\<lambda>bs. Inr (Task_List bs (length ts))))
     (on_store (reading (list_tasks status)) sv)"

definition get_task_by_id :: "string \<Rightarrow> server \<Rightarrow> reply" where
  "get_task_by_id tid sv = reply_with 200 (\<lambda>t. map_sum id Task_Body (task_read_of t)) (on_store (reading (find_task tid)) sv)"

definition task_patch_of :: "task_update \<Rightarrow> task_patch" where
  "task_patch_of b = \<lparr>to_status = tu_status b, to_robot = tu_assigned_robot_id b, to_priority = tu_priority b,
     to_payload_weight = tu_payload_weight b, to_failure_reason = tu_failure_reason b\<rparr>"

definition patch_task :: "string \<Rightarrow> task_update \<Rightarrow> server \<Rightarrow> reply" where
  "patch_task tid b sv = reply_with 200 (\<lambda>t. map_sum id Task_Body (task_read_of t))
     (on_store (update_task tid (task_patch_of b)) sv)"

definition delete_task_by_id :: "string \<Rightarrow> server \<Rightarrow> reply" where
  "delete_task_by_id tid sv = reply_with 204 (\<lambda>_. Inr No_Content) (on_store (delete_task tid) sv)"

section \<open>The algorithms\<close>

definition spec_width :: "warehouse_spec option \<Rightarrow> int option" where
  "spec_width spec = map_option ws_width spec"

definition spec_height :: "warehouse_spec option \<Rightarrow> int option" where
  "spec_height spec = map_option ws_height spec"

definition spec_obstacles :: "warehouse_spec option \<Rightarrow> position list option" where
  "spec_obstacles spec = map_option (\<lambda>w. map cell_of (given (ws_static_obstacles w) [])) spec"

definition post_path :: "path_plan_request \<Rightarrow> server \<Rightarrow> reply" where
  "post_path b sv = (let algorithm = given (pb_algorithm b) ''astar'' in
     reply_with 200 (\<lambda>result. map_sum id Path_Body (path_plan_response_of algorithm result))
       (on_store (plan_path \<lparr>rq_start_row = co_row (pb_start b), rq_start_col = co_col (pb_start b),
          rq_goal_row = co_row (pb_goal b), rq_goal_col = co_col (pb_goal b), rq_algorithm = algorithm,
          rq_warehouse_width = spec_width (pb_warehouse b), rq_warehouse_height = spec_height (pb_warehouse b),
          rq_static_obstacles = spec_obstacles (pb_warehouse b),
          rq_dynamic_obstacles = Some (map cell_of (given (pb_dynamic_obstacles b) []))\<rparr>) sv))"

text \<open>\<open>[...] or None\<close>.\<close>

definition or_none :: "'a list \<Rightarrow> 'a list option" where
  "or_none xs = (if xs = [] then None else Some xs)"

definition post_allocation :: "cp_solver \<Rightarrow> allocation_request \<Rightarrow> server \<Rightarrow> reply" where
  "post_allocation solver b sv = reply_with 200 (\<lambda>out. Inr (Allocation_Body (allocation_response_of out)))
     (on_store (run_allocation solver (given (aq_algorithm b) ''greedy'')
        (or_none (map allocation_robot_spec (given (aq_robots b) []))) (or_none (map inline_task_spec (given (aq_tasks b) [])))
        (given (aq_from_persisted b) False) (given (aq_commit b) False)) sv)"

definition post_coordination :: "coordination_request \<Rightarrow> server \<Rightarrow> reply" where
  "post_coordination b sv = reply_with 200 (\<lambda>result. Inr (Coordination_Body (coordination_response_of result)))
     (on_store (coordinate_fleet (map coordination_robot_spec (cq_robots b)) (cq_priority_order b) (cq_horizon b)
        (spec_width (cq_warehouse b)) (spec_height (cq_warehouse b)) (spec_obstacles (cq_warehouse b))) sv)"

definition domain_failure_response :: "string \<Rightarrow> recovery_response" where
  "domain_failure_response kind =
     \<lparr>rk_disruption_type = kind, rk_recovery_enabled = True, rk_recovery_attempted = False, rk_recovery_success = False,
      rk_safe_stop = True, rk_resumed = False, rk_affected_robot_ids = [], rk_affected_task_ids = [],
      rk_replanning_attempted = False, rk_replanning_success = False, rk_task_reassignment_attempted = False,
      rk_task_reassignment_success = False, rk_reassigned_from = None, rk_reassigned_to = None, rk_robot_replans = [],
      rk_unresolved_vertex_conflicts = 0, rk_unresolved_edge_conflicts = 0, rk_committed = False, rk_committed_state = [],
      rk_execution = None, rk_failure_reason = Some Not_Coordinated\<rparr>"

text \<open>\<open>except DomainFailureError\<close> around the service call; the response is built outside of it.\<close>

definition reply_recovery :: "string \<Rightarrow> (service_error + recovery_outcome) \<times> server \<Rightarrow> reply" where
  "reply_recovery kind r = (case r of
       (Inl Domain_Failure, sv) \<Rightarrow> (Inr (200, Recovery_Body (domain_failure_response kind)), sv)
     | _ \<Rightarrow> reply_with 200 (\<lambda>out. map_sum id Recovery_Body (recovery_response_of out)) r)"

definition post_obstacle :: "obstacle_recovery_request \<Rightarrow> server \<Rightarrow> reply" where
  "post_obstacle b sv = reply_recovery ''dynamic_obstacle''
     (on_store (recover_from_obstacle (map recovery_robot_spec (vq_robots b)) (co_row (vq_obstacle b)) (co_col (vq_obstacle b))
        (vq_timestep b) (vq_priority_order b) (vq_horizon b) (given (vq_recovery_enabled b) True)
        (spec_width (vq_warehouse b)) (spec_height (vq_warehouse b)) (spec_obstacles (vq_warehouse b))) sv)"

definition post_robot_failure :: "failure_recovery_request \<Rightarrow> server \<Rightarrow> reply" where
  "post_robot_failure b sv = reply_recovery ''robot_offline''
     (on_store (recover_from_robot_failure (map recovery_robot_spec (vq_robots b)) (vq_failed_robot_id b)
        (vq_timestep b) (vq_priority_order b) (vq_horizon b) (given (vq_recovery_enabled b) True)
        (spec_width (vq_warehouse b)) (spec_height (vq_warehouse b)) (spec_obstacles (vq_warehouse b))
        (given (vq_commit b) False)) sv)"

section \<open>Accounts and health\<close>

text \<open>\<open>/auth/token\<close> takes a form, \<open>/auth/login\<close> a JSON body; both authenticate and issue a token.\<close>

definition post_login :: "environment \<Rightarrow> int \<Rightarrow> string \<Rightarrow> string \<Rightarrow> server \<Rightarrow> reply" where
  "post_login env now username password sv =
     (res_bind (login (env_checkpw env) (env_encode env) (env_settings env) now username password (sv_users sv))
        (\<lambda>(token, expires_in, role). Inr (200, Token_Body \<lparr>tk_access_token = token, tk_expires_in = expires_in, tk_role = role\<rparr>)), sv)"

definition post_register :: "environment \<Rightarrow> string \<Rightarrow> user_create \<Rightarrow> server \<Rightarrow> reply" where
  "post_register env salt b sv =
     (case register_user (env_hashpw env) salt (uc_username b) (uc_password b) (given (uc_role b) (role_value Viewer)) (sv_users sv) of
        (r, users) \<Rightarrow> (res_bind r (\<lambda>u. Inr (201, User_Body (user_read_of u))), sv\<lparr>sv_users := users\<rparr>))"

definition get_me :: "user_record option \<Rightarrow> server \<Rightarrow> reply" where
  "get_me user sv = (case user of None \<Rightarrow> (Inl Unauthenticated, sv) | Some u \<Rightarrow> (Inr (200, User_Body (user_read_of u)), sv))"

definition get_health :: "settings \<Rightarrow> server \<Rightarrow> reply" where
  "get_health st sv = (Inr (200, Health_Body ''ok'' (app_name st)), sv)"

definition get_ready :: "string + unit \<Rightarrow> server \<Rightarrow> reply" where
  "get_ready select_one sv =
     (if fst (ping (\<lambda>s. (select_one, s)) ()) then (Inr (200, Ready_Body ''ready'' [(''database'', ''ok'')]), sv)
      else (Inr (503, Ready_Body ''not_ready'' [(''database'', ''unavailable'')]), sv))"

section \<open>Requests\<close>

datatype api_request =
    Post_Robot robot_create | Get_Robots "string option" | Get_Robot string | Patch_Robot string robot_update | Delete_Robot string
  | Post_Task task_create | Get_Tasks "string option" | Get_Task string | Patch_Task string task_update | Delete_Task string
  | Post_Path path_plan_request | Post_Allocation allocation_request | Post_Coordination coordination_request
  | Post_Obstacle obstacle_recovery_request | Post_Robot_Failure failure_recovery_request
  | Post_Token string string | Post_Login login_request | Post_Register user_create | Get_Me | Get_Health | Get_Ready

datatype guard = Public | Signed_In | At_Least role

fun guard_of :: "api_request \<Rightarrow> guard" where
  "guard_of (Post_Robot _) = At_Least Operator"
| "guard_of (Get_Robots _) = At_Least Viewer"
| "guard_of (Get_Robot _) = At_Least Viewer"
| "guard_of (Patch_Robot _ _) = At_Least Operator"
| "guard_of (Delete_Robot _) = At_Least Operator"
| "guard_of (Post_Task _) = At_Least Operator"
| "guard_of (Get_Tasks _) = At_Least Viewer"
| "guard_of (Get_Task _) = At_Least Viewer"
| "guard_of (Patch_Task _ _) = At_Least Operator"
| "guard_of (Delete_Task _) = At_Least Operator"
| "guard_of (Post_Path _) = At_Least Operator"
| "guard_of (Post_Allocation _) = At_Least Operator"
| "guard_of (Post_Coordination _) = At_Least Operator"
| "guard_of (Post_Obstacle _) = At_Least Operator"
| "guard_of (Post_Robot_Failure _) = At_Least Operator"
| "guard_of (Post_Token _ _) = Public"
| "guard_of (Post_Login _) = Public"
| "guard_of (Post_Register _) = At_Least Admin"
| "guard_of Get_Me = Signed_In"
| "guard_of Get_Health = Public"
| "guard_of Get_Ready = Public"

text \<open>The dependencies of an endpoint that decide who may call it.\<close>

definition admit :: "environment \<Rightarrow> int \<Rightarrow> string option \<Rightarrow> guard \<Rightarrow> user_record list \<Rightarrow> service_error + user_record option" where
  "admit env now credentials g users = (case g of
       Public \<Rightarrow> Inr None
     | Signed_In \<Rightarrow> res_bind (get_current_user (env_decode env) (env_settings env) now credentials users) (\<lambda>u. Inr (Some u))
     | At_Least r \<Rightarrow> res_bind (require_role (env_decode env) (env_settings env) now r credentials users) (\<lambda>u. Inr (Some u)))"

text \<open>What the schema of the body demands; an empty form field counts as missing.\<close>

fun body_valid :: "api_request \<Rightarrow> bool" where
  "body_valid (Post_Robot b) = robot_create_valid b"
| "body_valid (Patch_Robot _ b) = robot_update_valid b"
| "body_valid (Post_Task b) = task_create_valid b"
| "body_valid (Patch_Task _ b) = task_update_valid b"
| "body_valid (Post_Path b) = path_plan_request_valid b"
| "body_valid (Post_Allocation b) = allocation_request_valid b"
| "body_valid (Post_Coordination b) = coordination_request_valid b"
| "body_valid (Post_Obstacle b) = obstacle_recovery_request_valid b"
| "body_valid (Post_Robot_Failure b) = failure_recovery_request_valid b"
| "body_valid (Post_Token username password) = (username \<noteq> [] \<and> password \<noteq> [])"
| "body_valid (Post_Login b) = login_request_valid b"
| "body_valid (Post_Register b) = user_create_valid b"
| "body_valid _ = True"

fun handle :: "environment \<Rightarrow> int \<Rightarrow> string \<Rightarrow> user_record option \<Rightarrow> api_request \<Rightarrow> server \<Rightarrow> reply" where
  "handle env now salt user (Post_Robot b) = post_robot b"
| "handle env now salt user (Get_Robots status) = get_robots status"
| "handle env now salt user (Get_Robot rid) = get_robot_by_id rid"
| "handle env now salt user (Patch_Robot rid b) = patch_robot rid b"
| "handle env now salt user (Delete_Robot rid) = delete_robot_by_id rid"
| "handle env now salt user (Post_Task b) = post_task b"
| "handle env now salt user (Get_Tasks status) = get_tasks status"
| "handle env now salt user (Get_Task tid) = get_task_by_id tid"
| "handle env now salt user (Patch_Task tid b) = patch_task tid b"
| "handle env now salt user (Delete_Task tid) = delete_task_by_id tid"
| "handle env now salt user (Post_Path b) = post_path b"
| "handle env now salt user (Post_Allocation b) = post_allocation (env_solver env) b"
| "handle env now salt user (Post_Coordination b) = post_coordination b"
| "handle env now salt user (Post_Obstacle b) = post_obstacle b"
| "handle env now salt user (Post_Robot_Failure b) = post_robot_failure b"
| "handle env now salt user (Post_Token username password) = post_login env now username password"
| "handle env now salt user (Post_Login b) = post_login env now (lg_username b) (lg_password b)"
| "handle env now salt user (Post_Register b) = post_register env salt b"
| "handle env now salt user Get_Me = get_me user"
| "handle env now salt user Get_Health = get_health (env_settings env)"
| "handle env now salt user Get_Ready = get_ready (env_select_one env)"

text \<open>The exception handlers (\<open>install_exception_handlers\<close>).\<close>

fun error_code :: "service_error \<Rightarrow> string" where
  "error_code Resource_Not_Found = ''not_found''"
| "error_code Resource_Conflict = ''conflict''"
| "error_code Validation_Failed = ''unprocessable''"
| "error_code Domain_Failure = ''domain_failure''"
| "error_code Unauthenticated = ''unauthenticated''"
| "error_code Forbidden = ''forbidden''"
| "error_code (Unexpected e) = (if is_robotics_error e then ''domain_rejected'' else ''internal_error'')"

definition error_response :: "service_error \<Rightarrow> response" where
  "error_response e = \<lparr>http_status = response_status e, http_body = Error_Body (error_code e),
     http_challenge = (response_status e = 401)\<rparr>"

definition invalid_body_response :: response where
  "invalid_body_response = \<lparr>http_status = 422, http_body = Error_Body ''validation_error'', http_challenge = False\<rparr>"

definition serve ::
  "environment \<Rightarrow> int \<Rightarrow> string \<Rightarrow> string option \<Rightarrow> api_request \<Rightarrow> server \<Rightarrow> response \<times> server" where
  "serve env now salt credentials q sv =
     (case admit env now credentials (guard_of q) (sv_users sv) of
        Inl e \<Rightarrow> (error_response e, sv)
      | Inr user \<Rightarrow>
          if \<not> body_valid q then (invalid_body_response, sv)
          else (case in_transaction (handle env now salt user q) sv of
              (Inl e, sv1) \<Rightarrow> (error_response e, sv1)
            | (Inr (status, b), sv1) \<Rightarrow> (\<lparr>http_status = status, http_body = b, http_challenge = False\<rparr>, sv1)))"

section \<open>When the database fails\<close>

text \<open>
  What the database may do to a request while it is served. A constraint fires, because two
  requests wrote at once (\<open>IntegrityError\<close>); or the connection is lost (\<open>OperationalError\<close>): when
  the guard looks up the user, at a statement of the handler, or when the transaction commits. At
  that point the response may have been sent already, which is for the framework to decide and
  which the flag of \<open>Lost_At_Commit\<close> says. Whatever happens, \<open>get_session\<close> rolls back.
\<close>

datatype fault = No_Fault | Constraint_Fired | Lost_In_Guard | Lost_In_Handler | Lost_At_Commit bool

text \<open>The handlers of \<open>IntegrityError\<close> and \<open>OperationalError\<close>.\<close>

definition integrity_response :: response where
  "integrity_response = \<lparr>http_status = 409, http_body = Error_Body ''conflict'', http_challenge = False\<rparr>"

definition operational_response :: response where
  "operational_response = \<lparr>http_status = 503, http_body = Error_Body ''database_unavailable'', http_challenge = False\<rparr>"

text \<open>Which requests hold a session, which of their handlers read or write with it.\<close>

definition uses_session :: "api_request \<Rightarrow> bool" where
  "uses_session q \<longleftrightarrow> q \<noteq> Get_Health \<and> q \<noteq> Get_Ready"

definition has_statements :: "api_request \<Rightarrow> bool" where
  "has_statements q \<longleftrightarrow> uses_session q \<and> q \<noteq> Get_Me"

definition writes :: "api_request \<Rightarrow> bool" where
  "writes q \<longleftrightarrow> guard_of q = At_Least Operator \<or> guard_of q = At_Least Admin"

text \<open>The guard looks a user up once it has read a name from the token.\<close>

definition guard_looks_up :: "environment \<Rightarrow> int \<Rightarrow> string option \<Rightarrow> guard \<Rightarrow> bool" where
  "guard_looks_up env now credentials g \<longleftrightarrow> g \<noteq> Public \<and> (case credentials of None \<Rightarrow> False | Some token \<Rightarrow> token \<noteq> [] \<and>
     decode_token (env_decode env) token (jwt_secret_key (env_settings env)) (jwt_algorithm (env_settings env)) now \<noteq> None)"

definition reaches_handler :: "environment \<Rightarrow> int \<Rightarrow> string option \<Rightarrow> api_request \<Rightarrow> server \<Rightarrow> bool" where
  "reaches_handler env now credentials q sv \<longleftrightarrow> \<not> isl (admit env now credentials (guard_of q) (sv_users sv)) \<and> body_valid q"

text \<open>
  A request and the fault that strikes it. One that does not get as far as the failing statement is
  served as usual; the readiness probe catches the error itself. The fault of a handler is that of
  its first statement: the checks before it, which need no database, have passed.
\<close>

fun serve_with ::
  "fault \<Rightarrow> environment \<Rightarrow> int \<Rightarrow> string \<Rightarrow> string option \<Rightarrow> api_request \<Rightarrow> server \<Rightarrow> response \<times> server" where
  "serve_with No_Fault env now salt credentials q sv = serve env now salt credentials q sv"
| "serve_with Constraint_Fired env now salt credentials q sv =
     (if writes q \<and> reaches_handler env now credentials q sv then (integrity_response, sv)
      else serve env now salt credentials q sv)"
| "serve_with Lost_In_Guard env now salt credentials q sv =
     (if guard_looks_up env now credentials (guard_of q) then (operational_response, sv)
      else serve env now salt credentials q sv)"
| "serve_with Lost_In_Handler env now salt credentials q sv =
     (if q = Get_Ready then serve (env\<lparr>env_select_one := Inl ''connection lost''\<rparr>) now salt credentials q sv
      else if has_statements q \<and> reaches_handler env now credentials q sv then (operational_response, sv)
      else serve env now salt credentials q sv)"
| "serve_with (Lost_At_Commit sent) env now salt credentials q sv =
     (case serve env now salt credentials q sv of (resp, sv') \<Rightarrow>
        if uses_session q \<and> http_status resp < 400 then (if sent then resp else operational_response, sv) else (resp, sv'))"

section \<open>Start-up\<close>

text \<open>
  \<open>create_app\<close> on the database it finds: the administrator is created in a transaction of its own,
  whose failure is only logged; the last thing it does is to log the redacted database URL.
\<close>

definition bootstrap_admin :: "environment \<Rightarrow> string \<Rightarrow> server \<Rightarrow> (service_error + string option) \<times> server" where
  "bootstrap_admin env salt = in_transaction (\<lambda>sv.
     case ensure_bootstrap_admin (env_hashpw env) salt (env_settings env) (sv_users sv) of
       (r, users) \<Rightarrow> (r, sv\<lparr>sv_users := users\<rparr>))"

definition create_app :: "environment \<Rightarrow> string \<Rightarrow> server \<Rightarrow> (py_error + string) \<times> server" where
  "create_app env salt sv = (safe_database_url (env_settings env), snd (bootstrap_admin env salt sv))"

end
