(* ===== verification/Api_Guards.thy ===== *)
theory Api_Guards
  imports Api
begin

text \<open>
  What the guards admit and what a handler may change: the lemmas behind the properties of the
  HTTP interface.
\<close>

section \<open>Who may call\<close>

text \<open>The request carries a token that is good for an active account.\<close>

definition bearer :: "environment \<Rightarrow> int \<Rightarrow> string option \<Rightarrow> user_record list \<Rightarrow> user_record \<Rightarrow> bool" where
  "bearer env now credentials users u \<longleftrightarrow>
     (\<exists>token c. credentials = Some token \<and>
        env_decode env token (jwt_secret_key (env_settings env)) (jwt_algorithm (env_settings env)) now = Inr c \<and>
        usr_username u = cl_sub c \<and> u \<in> set users \<and> \<not> usr_disabled u)"

definition has_role :: "role \<Rightarrow> user_record \<Rightarrow> bool" where
  "has_role r u \<longleftrightarrow> (\<exists>q. role_of (usr_role u) = Some q \<and> role_rank r \<le> role_rank q)"

lemma get_current_user_bearer:
  assumes "get_current_user (env_decode env) (env_settings env) now credentials users = Inr u"
  shows "bearer env now credentials users u"
proof -
  have "u \<in> set users \<and> usr_username u = name" if "get_by_username name users = Some u" for name
    using that by (auto simp: get_by_username_def find_Some_iff)
  then show ?thesis using assms unfolding bearer_def
    by (auto simp: get_current_user_def decode_token_def split: option.splits if_splits sum.splits jwt_failure.splits)
qed

lemma get_current_user_Inl: "get_current_user decode st now credentials users = Inl e \<Longrightarrow> e = Unauthenticated"
  by (auto simp: get_current_user_def split: option.splits if_splits)

lemma admit_At_Least:
  assumes "admit env now credentials (At_Least r) users = Inr user"
  shows "\<exists>u. user = Some u \<and> bearer env now credentials users u \<and> has_role r u"
  using assms get_current_user_bearer
  by (auto simp: admit_def require_role_def res_bind_Inr role_satisfies_def has_role_def split: if_splits option.splits)

lemma admit_Signed_In:
  "admit env now credentials Signed_In users = Inr user \<Longrightarrow> \<exists>u. user = Some u \<and> bearer env now credentials users u"
  using get_current_user_bearer by (auto simp: admit_def res_bind_Inr)

lemma admit_Inl: "admit env now credentials g users = Inl e \<Longrightarrow> e \<in> {Unauthenticated, Forbidden}"
  by (auto simp: admit_def require_role_def res_bind_Inl dest: get_current_user_Inl split: guard.splits if_splits)

section \<open>What a handler may change\<close>

lemma reply_with_snd [simp]: "snd (reply_with status body_of r) = snd r"
  by (simp add: reply_with_def split: prod.split)

lemma reply_recovery_snd [simp]: "snd (reply_recovery kind r) = snd r"
  by (auto simp: reply_recovery_def split: prod.split sum.split service_error.split)

lemma on_store_snd: "snd (on_store f sv) = sv\<lparr>sv_store := snd (f (sv_store sv))\<rparr>"
  by (simp add: on_store_def split: prod.split)

lemma reading_snd [simp]: "snd (reading f db) = db"
  by (simp add: reading_def)

lemmas fleet_endpoints = post_robot_def patch_robot_def delete_robot_by_id_def post_task_def patch_task_def
  delete_task_by_id_def post_path_def post_allocation_def post_coordination_def post_obstacle_def post_robot_failure_def

lemmas reading_endpoints = get_robots_def get_robot_by_id_def get_tasks_def get_task_by_id_def post_login_def
  get_me_def get_health_def get_ready_def

lemmas endpoint_defs = fleet_endpoints reading_endpoints post_register_def

lemma handle_reading:
  assumes "guard_of q \<noteq> At_Least Operator" "guard_of q \<noteq> At_Least Admin"
  shows "snd (handle env now salt user q sv) = sv"
  using assms by (cases q) (auto simp: reading_endpoints on_store_snd split: option.split)

lemma handle_users: "guard_of q \<noteq> At_Least Admin \<Longrightarrow> sv_users (snd (handle env now salt user q sv)) = sv_users sv"
  by (cases q) (auto simp: fleet_endpoints reading_endpoints on_store_snd Let_def split: option.split)

lemma handle_register:
  assumes "guard_of q = At_Least Admin"
  shows "sv_store (snd (handle env now salt user q sv)) = sv_store sv \<and>
    (users_ok (sv_users sv) \<longrightarrow> users_ok (sv_users (snd (handle env now salt user q sv))))"
proof -
  obtain b where q: "q = Post_Register b" using assms by (cases q) auto
  let ?reg = "register_user (env_hashpw env) salt (uc_username b) (uc_password b) (given (uc_role b) (role_value Viewer)) (sv_users sv)"
  have "snd (handle env now salt user q sv) = sv\<lparr>sv_users := snd ?reg\<rparr>"
    by (simp add: q post_register_def split: prod.split)
  then show ?thesis using register_user_ok by simp
qed

lemma serve_cases:
  assumes "serve env now salt credentials q sv = (resp, sv')"
  obtains (refused) e where "admit env now credentials (guard_of q) (sv_users sv) = Inl e" "resp = error_response e" "sv' = sv"
  | (invalid) user where "admit env now credentials (guard_of q) (sv_users sv) = Inr user" "\<not> body_valid q"
      "resp = invalid_body_response" "sv' = sv"
  | (failed) user e where "admit env now credentials (guard_of q) (sv_users sv) = Inr user" "body_valid q"
      "fst (handle env now salt user q sv) = Inl e" "resp = error_response e" "sv' = sv"
  | (answered) user status b where "admit env now credentials (guard_of q) (sv_users sv) = Inr user" "body_valid q"
      "handle env now salt user q sv = (Inr (status, b), sv')" "resp = \<lparr>http_status = status, http_body = b, http_challenge = False\<rparr>"
proof (cases "admit env now credentials (guard_of q) (sv_users sv)")
  case (Inl e)
  then show thesis using refused assms by (simp add: serve_def)
next
  case admitted: (Inr user)
  show thesis
  proof (cases "body_valid q")
    case False
    then show thesis using invalid admitted assms by (simp add: serve_def)
  next
    case True
    obtain r sv1 where h: "handle env now salt user q sv = (r, sv1)" by fastforce
    show thesis
    proof (cases r)
      case (Inl e)
      then show thesis using failed [OF admitted True] assms admitted True h by (simp add: serve_def in_transaction_def)
    next
      case (Inr x)
      then show thesis using answered [OF admitted True] assms admitted True h
        by (cases x) (simp add: serve_def in_transaction_def)
    qed
  qed
qed

lemma reply_with_Inr: "fst (reply_with status body_of r) = Inr (n, b) \<Longrightarrow> n = status \<and> (\<exists>x. fst r = Inr x)"
  by (auto simp: reply_with_def res_bind_Inr split: prod.splits)

lemma reply_recovery_Inr:
  assumes "fst (reply_recovery kind r) = Inr (n, b)"
  shows "n = 200 \<and> (fst r = Inl Domain_Failure \<or> (\<exists>x. fst r = Inr x))"
proof (cases "fst r = Inl Domain_Failure")
  case True
  then show ?thesis using assms by (cases r) (simp add: reply_recovery_def)
next
  case False
  then have "reply_recovery kind r = reply_with 200 (\<lambda>out. map_sum id Recovery_Body (recovery_response_of out)) r"
    by (auto simp: reply_recovery_def split: prod.split sum.split service_error.split)
  then show ?thesis using reply_with_Inr assms by metis
qed

lemma handle_status:
  assumes "fst (handle env now salt user q sv) = Inr (status, b)"
  shows "status \<in> {200, 201, 204} \<or> q = Get_Ready"
proof (cases "guard_of q = At_Least Operator")
  case True
  then show ?thesis using assms by (cases q) (auto simp: fleet_endpoints Let_def dest: reply_with_Inr reply_recovery_Inr)
next
  case False
  then show ?thesis using assms
    by (cases q) (auto simp: reading_endpoints post_register_def res_bind_Inr dest!: reply_with_Inr split: option.splits prod.splits)
qed

section \<open>A request is a step of the persisted fleet\<close>

lemma run_recovery_Domain_Failure:
  assumes "fst (run_recovery specs event kind order horizon enabled width height obstacles commit db) = Inl Domain_Failure"
  shows "snd (run_recovery specs event kind order horizon enabled width height obstacles commit db) = db"
proof -
  have "persist_reassignment sim ev x \<noteq> Inl Domain_Failure" for sim ev x
    by (auto simp: persist_reassignment_def Let_def res_bind_Inl lift_error_def split: option.splits if_splits sum.splits prod.splits)
  then show ?thesis using assms
    by (auto simp: run_recovery_def Let_def split: if_splits sum.splits prod.splits)
qed

definition same_or :: "(store \<Rightarrow> (service_error + 'a) \<times> store) \<Rightarrow> server \<Rightarrow> server \<Rightarrow> bool" where
  "same_or f sv sv' \<longleftrightarrow> sv' = sv \<or> sv_store sv' = snd (in_transaction f (sv_store sv))"

lemma reply_with_step:
  assumes "reply_with status body_of (on_store f sv) = (Inr x, sv')"
  shows "same_or f sv sv'"
  using assms by (auto simp: same_or_def reply_with_def on_store_def in_transaction_def res_bind_Inr split: prod.splits)

lemma reply_recovery_step:
  assumes "reply_recovery kind (on_store f sv) = (Inr x, sv')"
    and "fst (f (sv_store sv)) = Inl Domain_Failure \<Longrightarrow> snd (f (sv_store sv)) = sv_store sv"
  shows "same_or f sv sv'"
proof -
  have sv': "sv' = sv\<lparr>sv_store := snd (f (sv_store sv))\<rparr>" using assms(1) reply_recovery_snd [of kind "on_store f sv"] on_store_snd [of f sv] by simp
  have "fst (reply_recovery kind (on_store f sv)) = Inr (fst x, snd x)" using assms(1) by simp
  from reply_recovery_Inr [OF this] have "fst (f (sv_store sv)) = Inl Domain_Failure \<or> (\<exists>y. fst (f (sv_store sv)) = Inr y)"
    by (simp add: on_store_def split: prod.splits)
  then show ?thesis
  proof
    assume "\<exists>y. fst (f (sv_store sv)) = Inr y"
    then show ?thesis by (auto simp: same_or_def sv' in_transaction_def split: prod.splits)
  qed (use assms(2) in \<open>simp add: same_or_def sv'\<close>)
qed

lemma optional_given: "optional P x \<Longrightarrow> P d \<Longrightarrow> P (given x d)"
  by (simp add: optional_def given_def split: option.splits)

lemma optional_float: "optional percent x \<Longrightarrow> pred_option is_float x" "optional nonneg_number x \<Longrightarrow> pred_option is_float x"
  by (simp_all add: optional_def percent_def nonneg_number_def split: option.splits)

lemma reply_served:
  assumes "reply_with status body_of (on_store f sv) = (Inr x, sv')"
    and "served solver (sv_store sv) (snd (in_transaction f (sv_store sv)))"
  shows "sv_store sv' = sv_store sv \<or> served solver (sv_store sv) (sv_store sv')"
  using reply_with_step [OF assms(1)] assms(2) by (auto simp: same_or_def)

lemma recovery_served:
  assumes "reply_recovery kind (on_store f sv) = (Inr x, sv')"
    and "fst (f (sv_store sv)) = Inl Domain_Failure \<Longrightarrow> snd (f (sv_store sv)) = sv_store sv"
    and "served solver (sv_store sv) (snd (in_transaction f (sv_store sv)))"
  shows "sv_store sv' = sv_store sv \<or> served solver (sv_store sv) (sv_store sv')"
  using reply_recovery_step [OF assms(1,2)] assms(3) by (auto simp: same_or_def)

lemma create_floats:
  assumes "robot_create_valid b"
  shows "is_float (given (rb_battery_level b) 100)" "is_float (given (rb_payload_capacity b) 10)"
    "is_float (given (rb_current_payload b) 0)"
proof -
  have valid: "optional percent (rb_battery_level b)" "optional nonneg_number (rb_payload_capacity b)"
    "optional nonneg_number (rb_current_payload b)"
    using assms by (simp_all add: robot_create_valid_def)
  have "percent 100" "nonneg_number 10" "nonneg_number 0" by (simp_all add: percent_def nonneg_number_def is_float_numeral)
  then show "is_float (given (rb_battery_level b) 100)" "is_float (given (rb_payload_capacity b) 10)"
    "is_float (given (rb_current_payload b) 0)"
    using valid [THEN optional_given] unfolding percent_def nonneg_number_def by blast+
qed

lemma patch_floats: "robot_update_valid b \<Longrightarrow> floats_only (robot_patch_of b)"
  by (auto simp: robot_update_valid_def robot_patch_of_def floats_only_def intro: optional_float)

lemma handle_served:
  assumes "body_valid q" "guard_of q = At_Least Operator" "handle env now salt user q sv = (Inr x, sv')"
  shows "sv_store sv' = sv_store sv \<or> served (env_solver env) (sv_store sv) (sv_store sv')"
proof (cases q)
  case (Post_Robot b)
  then have "robot_create_valid b" using assms(1) by simp
  from reply_served [OF assms(3) [unfolded Post_Robot handle.simps post_robot_def] serve_create_robot [OF create_floats [OF this]]]
  show ?thesis .
next
  case (Patch_Robot rid b)
  then have "robot_update_valid b" using assms(1) by simp
  from reply_served [OF assms(3) [unfolded Patch_Robot handle.simps patch_robot_def] serve_update_robot [OF patch_floats [OF this]]]
  show ?thesis .
next
  case (Delete_Robot rid)
  show ?thesis by (rule reply_served [OF assms(3) [unfolded Delete_Robot handle.simps delete_robot_by_id_def] serve_delete_robot])
next
  case (Post_Task b)
  show ?thesis by (rule reply_served [OF assms(3) [unfolded Post_Task handle.simps post_task_def] serve_create_task])
next
  case (Patch_Task tid b)
  show ?thesis by (rule reply_served [OF assms(3) [unfolded Patch_Task handle.simps patch_task_def] serve_update_task])
next
  case (Delete_Task tid)
  show ?thesis by (rule reply_served [OF assms(3) [unfolded Delete_Task handle.simps delete_task_by_id_def] serve_delete_task])
next
  case (Post_Path b)
  show ?thesis by (rule reply_served [OF assms(3) [unfolded Post_Path handle.simps post_path_def Let_def] serve_plan])
next
  case (Post_Allocation b)
  show ?thesis by (rule reply_served [OF assms(3) [unfolded Post_Allocation handle.simps post_allocation_def] serve_allocate])
next
  case (Post_Coordination b)
  show ?thesis by (rule reply_served [OF assms(3) [unfolded Post_Coordination handle.simps post_coordination_def] serve_coordinate])
next
  case (Post_Obstacle b)
  show ?thesis by (rule recovery_served [OF assms(3) [unfolded Post_Obstacle handle.simps post_obstacle_def] _ serve_obstacle])
    (simp add: recover_from_obstacle_def run_recovery_Domain_Failure)
next
  case (Post_Robot_Failure b)
  show ?thesis by (rule recovery_served [OF assms(3) [unfolded Post_Robot_Failure handle.simps post_robot_failure_def] _ serve_failure])
    (auto simp: recover_from_robot_failure_def run_recovery_Domain_Failure split: if_splits)
qed (use assms(2) in simp_all)

end
