(* ===== verification/Api_Answers.thy ===== *)
theory Api_Answers
  imports Api_Guards Service_Properties
begin

text \<open>
  On a valid database no endpoint ends in an internal error: the failures of the services are
  deliberate ones or errors of the domain, and every response can be built.
\<close>

definition calm :: "service_error \<Rightarrow> bool" where
  "calm e \<longleftrightarrow> response_status e < 500"

lemma calm_simps [simp]: "calm Resource_Not_Found" "calm Resource_Conflict" "calm Validation_Failed" "calm Domain_Failure"
  "calm Unauthenticated" "calm Forbidden" "calm (Unexpected e) \<longleftrightarrow> is_robotics_error e"
  by (simp_all add: calm_def)

definition calms :: "service_error + 'a \<Rightarrow> bool" where
  "calms x = (case x of Inl e \<Rightarrow> calm e | Inr _ \<Rightarrow> True)"

lemma calms_simps [simp]: "calms (Inl e) = calm e" "calms (Inr x)"
  by (simp_all add: calms_def)

lemma calms_bind: "calms x \<Longrightarrow> (\<And>a. x = Inr a \<Longrightarrow> calms (f a)) \<Longrightarrow> calms (res_bind x f)"
  by (cases x) simp_all

lemma calms_map: "(\<And>x. x \<in> set xs \<Longrightarrow> calms (f x)) \<Longrightarrow> calms (res_map f xs)"
  using res_map_Inl by (cases "res_map f xs") force+

lemma calms_map_sum [simp]: "calms (map_sum id f x) = calms x"
  by (cases x) simp_all

lemma res_map_ex: "(\<And>x. x \<in> set xs \<Longrightarrow> \<exists>y. f x = Inr y) \<Longrightarrow> \<exists>ys. res_map f xs = Inr ys"
  by (induction xs) fastforce+

lemma calms_if: "(c \<Longrightarrow> calms x) \<Longrightarrow> (\<not> c \<Longrightarrow> calms y) \<Longrightarrow> calms (if c then x else y)"
  by simp

lemma calms_reply:
  "calms (fst r) \<Longrightarrow> (\<And>a. fst r = Inr a \<Longrightarrow> calms (body_of a)) \<Longrightarrow> calms (fst (reply_with status body_of r))"
  by (auto simp: reply_with_def intro!: calms_bind split: prod.split)

lemma on_store_fst [simp]: "fst (on_store f sv) = fst (f (sv_store sv))"
  by (simp add: on_store_def split: prod.split)

section \<open>Domain constructors raise \<open>ValueError\<close>, floors and rows are valid\<close>

lemma calms_reject_value: "(\<And>e. x = Inl e \<Longrightarrow> e = ValueError) \<Longrightarrow> calms (reject_value x)"
  by (cases x) (simp_all add: reject_value_def)

lemma post_init_ValueError: "robot_post_init r = Inl e \<Longrightarrow> e = ValueError" "task_post_init t = Inl e' \<Longrightarrow> e' = ValueError"
  by (auto simp: robot_post_init_def task_post_init_def split: if_splits)

lemma calms_as_domain: "calms (as_domain rid p battery capacity payload status)"
  by (auto simp: as_domain_def intro!: calms_reject_value dest: post_init_ValueError split: option.split)

lemma calms_placeable: "calms (require_placeable p ignored db)"
  by (simp add: require_placeable_def)

lemma calms_endpoint: "calms (require_reachable_endpoint p)"
  by (simp add: require_reachable_endpoint_def)

lemma sample_floor_cells: "in_bounds sample_floor p \<Longrightarrow> 0 \<le> row p \<and> 0 \<le> col p"
  by (auto simp: in_bounds_def grid_in_bounds_def)

lemma robot_read_ok:
  assumes "store_ok db" "dict_get (robots_table db) i = Some r"
  shows "\<exists>b. robot_read_of r = Inr b"
proof -
  have "is_traversable sample_floor (row_cell r)" using assms by (simp add: store_ok_def robots_table_ok_def)
  then have "0 \<le> rec_row r \<and> 0 \<le> rec_col r"
    using sample_floor_cells is_traversable_in_bounds [of sample_floor "row_cell r"] by (fastforce simp: row_cell_def)
  then show ?thesis by (simp add: robot_read_of_def coord_at_def)
qed

lemma task_read_ok:
  assumes "store_ok db" "dict_get (tasks_table db) i = Some t"
  shows "\<exists>b. task_read_of t = Inr b"
proof -
  have "task_entry_ok (robots_table db) i t" using assms by (simp add: store_ok_def tasks_table_ok_def)
  then have "0 \<le> rec_pickup_row t \<and> 0 \<le> rec_pickup_col t \<and> 0 \<le> rec_dropoff_row t \<and> 0 \<le> rec_dropoff_col t"
    using sample_floor_cells by (fastforce simp: task_entry_ok_def reachable_cell_def)
  then show ?thesis by (simp add: task_read_of_def coord_at_def)
qed

section \<open>Robots and tasks\<close>

lemma create_robot_calm: "calms (fst (create_robot rid r c battery capacity payload status db))"
proof -
  have "calms (res_bind (require_placeable (Position r c) None db) (\<lambda>_. as_domain rid (Position r c) battery capacity payload status))"
    by (intro calms_bind calms_placeable calms_as_domain)
  then show ?thesis by (auto simp: create_robot_def Let_def split: sum.split)
qed

lemma create_robot_row: "fst (create_robot rid r c battery capacity payload status db) = Inr rec \<Longrightarrow>
    rec_robot_id rec = rid \<and> dict_get (robots_table (snd (create_robot rid r c battery capacity payload status db))) rid = Some rec"
  by (auto simp: create_robot_def Let_def put_robot_row_def split: sum.splits if_splits)

lemma update_robot_calm: "calms (fst (update_robot rid p db))"
proof (cases "find_robot rid db")
  case (Inl e)
  then show ?thesis by (auto simp: update_robot_def find_robot_def split: option.splits)
next
  case (Inr r)
  let ?r1 = "patched p r" let ?cell = "Position (rec_row ?r1) (rec_col ?r1)"
  have "calms (res_bind (if (rec_row ?r1, rec_col ?r1) \<noteq> (rec_row r, rec_col r) then require_placeable ?cell (Some rid) db else Inr ())
      (\<lambda>_. as_domain rid ?cell (rec_battery_level ?r1) (rec_payload_capacity ?r1) (rec_current_payload ?r1) (rec_status ?r1)))"
    by (intro calms_bind calms_if calms_placeable calms_as_domain calms_simps)
  then show ?thesis using Inr by (auto simp: update_robot_def Let_def split: sum.split)
qed

lemma update_robot_row: "fst (update_robot rid p db) = Inr r \<Longrightarrow>
    dict_get (robots_table (snd (update_robot rid p db))) (rec_robot_id r) = Some r"
  by (auto simp: update_robot_def Let_def put_robot_row_def split: sum.splits)

lemma create_task_calm: "calms (fst (create_task tid pr pc dr dc prio weight db))"
proof -
  have "calms (res_bind (reject_value (task_post_init t)) (\<lambda>_. Inr p))" for t and p :: task_priority
    by (intro calms_bind calms_reject_value calms_simps) (auto dest: post_init_ValueError)
  then have "calms (res_bind (require_reachable_endpoint (Position pr pc)) (\<lambda>_.
      res_bind (require_reachable_endpoint (Position dr dc)) (\<lambda>_.
      case priority_named (str_upper prio) of None \<Rightarrow> Inl Validation_Failed
        | Some p \<Rightarrow> res_bind (reject_value (task_post_init (fresh_task tid (Position pr pc) (Position dr dc) p weight))) (\<lambda>_. Inr p))))"
    by (intro calms_bind calms_endpoint) (simp split: option.split)
  then show ?thesis by (auto simp: create_task_def Let_def split: sum.split)
qed

lemma create_task_row: "fst (create_task tid pr pc dr dc prio weight db) = Inr t \<Longrightarrow>
    rec_task_id t = tid \<and> dict_get (tasks_table (snd (create_task tid pr pc dr dc prio weight db))) tid = Some t"
  by (auto simp: create_task_def Let_def put_task_row_def split: sum.splits if_splits)

lemma lifecycle_TaskError:
  "assign_to rid t = Inl e \<Longrightarrow> e = TaskError" "unassign t = Inl e \<Longrightarrow> e = TaskError" "start_task t = Inl e \<Longrightarrow> e = TaskError"
  "complete_task t = Inl e \<Longrightarrow> e = TaskError" "fail_task why t = Inl e \<Longrightarrow> e = TaskError"
  by (auto simp: assign_to_def unassign_def start_task_def complete_task_def fail_task_def transition_to_def res_bind_Inl split: if_splits)

lemma conflict_of_calm: "(\<And>e. x = Inl e \<Longrightarrow> e = TaskError) \<Longrightarrow> calms (conflict_of x)"
  by (cases x) (simp_all add: conflict_of_def)

lemma robot_exists_calm: "calms (require_robot_exists rid db)"
  by (simp add: require_robot_exists_def)

lemma transitioned_calm: "calms (transitioned target robot reason db t)"
  by (cases target)
    (auto simp: transitioned_def intro!: conflict_of_calm calms_bind robot_exists_calm dest: lifecycle_TaskError)

lemma apply_transition_calm:
  assumes "task_row_ok t"
  shows "calms (apply_transition t status robot reason db)"
  unfolding apply_transition_def task_from_record_ok [OF assms]
  using assms by (auto simp: task_row_ok_def intro!: calms_bind transitioned_calm split: option.split)

lemma edit_fields_calm: "calms (fst (edit_fields p t))"
  by (auto simp: edit_fields_def split: option.splits sum.splits)

lemma update_task_calm:
  assumes "store_ok db"
  shows "calms (fst (update_task tid p db))"
proof (cases "dict_get (tasks_table db) tid")
  case None
  then show ?thesis by (simp add: update_task_def find_task_def)
next
  case (Some t)
  then have t: "task_entry_ok (robots_table db) tid t" using assms by (simp add: store_ok_def tasks_table_ok_def)
  obtain r t1 where e: "edit_fields p t = (r, t1)" by fastforce
  have ok: "task_row_ok t1" using edit_fields_entry [OF t, of p] e by (simp add: task_entry_ok_def)
  define final where "final = (case to_status p of
      Some status \<Rightarrow> apply_transition t1 status (to_robot p) (to_failure_reason p) db
    | None \<Rightarrow> (case to_robot p of None \<Rightarrow> Inr t1
        | Some rid \<Rightarrow> if rec_task_status t1 = ''assigned''
            then res_bind (require_robot_exists rid db) (\<lambda>_. Inr (t1\<lparr>rec_assigned_robot_id := Some rid\<rparr>)) else Inr t1))"
  have run: "update_task tid p db = (case r of Inl e \<Rightarrow> (Inl e, put_task_row t1 db)
      | Inr _ \<Rightarrow> (case final of Inl e \<Rightarrow> (Inl e, put_task_row t1 db) | Inr t2 \<Rightarrow> (Inr t2, put_task_row t2 db)))"
    by (cases r) (simp_all add: update_task_def find_task_def Some e final_def)
  have "calms final" unfolding final_def
    by (auto intro!: apply_transition_calm [OF ok] calms_bind robot_exists_calm split: option.split)
  moreover have "calms r" using edit_fields_calm [of p t] e by simp
  ultimately show ?thesis unfolding run by (auto split: sum.split)
qed

lemma update_task_row:
  "fst (update_task tid p db) = Inr t \<Longrightarrow> dict_get (tasks_table (snd (update_task tid p db))) (rec_task_id t) = Some t"
  by (auto simp: update_task_def put_task_row_def split: sum.splits prod.splits)

section \<open>The algorithms\<close>

lemma plan_path_calm: "calms (fst (plan_path q db))"
  using plan_path_answers [where q = q and db = db] by (cases "plan_path q db"; cases "fst (plan_path q db)") auto

lemma coordinate_fleet_calm: "calms (fst (coordinate_fleet specs order horizon width height obstacles db))"
  using coordinate_fleet_answers [where specs = specs and order = order and horizon = horizon and width = width
      and height = height and obstacles = obstacles and db = db]
  by (cases "coordinate_fleet specs order horizon width height obstacles db";
      cases "fst (coordinate_fleet specs order horizon width height obstacles db)") auto

lemma coord_of_ok: "in_bounds w p \<Longrightarrow> \<exists>c. coord_of p = Inr c"
  by (auto simp: coord_of_def coord_at_def in_bounds_def grid_in_bounds_def)

lemma path_response_ok:
  assumes "plan_spec algorithm w start goal (Inr result)"
  shows "\<exists>b. path_plan_response_of algorithm' result = Inr b"
proof -
  have ends: "in_bounds w start" "in_bounds w goal" using assms by (auto simp: plan_spec_def split: if_splits)
  have result: "pr_start result = start \<and> pr_goal result = goal \<and> (\<forall>p \<in> set (pr_path result). is_traversable w p)"
    using assms by (auto simp: plan_spec_def path_found_def path_not_found_def is_route_def split: if_splits)
  obtain a b where ab: "coord_of start = Inr a" "coord_of goal = Inr b" using ends coord_of_ok by blast
  have "\<exists>cs. res_map coord_of (pr_path result) = Inr cs"
    by (rule res_map_ex) (use result is_traversable_in_bounds coord_of_ok in blast)
  then show ?thesis using result ab by (auto simp: path_plan_response_of_def)
qed

text \<open>The only exception of a search is about a cell off the floor.\<close>

lemma leg_robotics:
  assumes "leg planner w a b = Inl e" "planner \<in> {plan_astar, dijkstra_plan}"
  shows "e = InvalidPositionError"
proof -
  have "plan_spec ''astar'' w a b (plan_astar a b w)" "plan_spec ''dijkstra'' w a b (dijkstra_plan a b w)"
    using astar_router.contract dijkstra_router.contract by auto
  then obtain alg where "plan_spec alg w a b (planner a b w)" using assms(2) by auto
  then show ?thesis using assms(1)
    by (auto simp: leg_def res_bind_Inl plan_spec_def result_cost_def path_found_def path_not_found_def split: if_splits)
qed

lemma pair_loop_robotics:
  assumes "est_ok est" "est_planner est \<in> {plan_astar, dijkstra_plan}" "fst (pair_loop rts feasible k est) = Inl e"
  shows "e = InvalidPositionError"
  using assms
proof (induction rts feasible k est rule: pair_loop.induct)
  case (2 r t rest feasible k est)
  obtain x est1 where x: "estimate r t est = (x, est1)" by fastforce
  have e1: "x = pair_cost (est_planner est) (est_warehouse est) r t" "est_ok est1" "same_floor est est1"
    using estimate_ok [OF "2.prems"(1), of r t] x by simp_all
  then have p1: "est_planner est1 \<in> {plan_astar, dijkstra_plan}" using "2.prems"(2) by (simp add: same_floor_def)
  have "e' = InvalidPositionError" if "x = Inl e'" for e'
    using that e1(1) leg_robotics [OF _ "2.prems"(2)] by (auto simp: pair_cost_def res_bind_Inl split: option.splits)
  then show ?case using "2.prems"(3) "2.IH" "2.prems"(1,2) x e1(2) p1
    by (auto split: if_splits sum.splits option.splits)
qed simp

lemma allocate_robotics:
  assumes "est_ok est" "est_planner est \<in> {plan_astar, dijkstra_plan}"
    and "fst (greedy_allocate robots tasks est) = Inl e \<or> fst (cp_sat_allocate solver robots tasks est) = Inl e"
  shows "e = InvalidPositionError"
proof -
  have "fst (build_candidate_pairs robots tasks est) = Inl e"
    using assms(3) by (auto simp: greedy_allocate_def cp_sat_allocate_def Let_def split: prod.splits sum.splits if_splits)
  then show ?thesis using pair_loop_robotics [OF assms(1,2)] by (simp add: build_candidate_pairs_def)
qed

lemma run_allocation_inline_calm:
  "calms (fst (run_allocation solver algorithm robots tasks False commit db))"
proof -
  have specs: "calms (robot_from_spec r)" "calms (task_from_spec t)" for r t
    by (auto simp: robot_from_spec_def task_from_spec_def intro!: calms_reject_value dest: post_init_ValueError split: option.split)
  have inputs: "calms (allocation_inputs robots tasks False db)"
    unfolding allocation_inputs_def by (auto intro!: calms_bind calms_map specs)
  have allocate: "calms (lift_error (fst (allocate rs ts (estimator_init sample_floor plan_astar))))"
    if "dict_get (allocators solver) algorithm = Some allocate" for allocate rs ts
    using that allocate_robotics [of "estimator_init sample_floor plan_astar" rs ts _ solver] estimator_init_ok
    by (cases "fst (allocate rs ts (estimator_init sample_floor plan_astar))")
      (auto simp: allocators_def estimator_init_def lift_error_def is_robotics_error_def split: if_splits)
  show ?thesis
  proof (cases "dict_get (allocators solver) algorithm")
    case None
    then show ?thesis by (simp add: run_allocation_def)
  next
    case (Some allocate)
    have "calms (res_bind (allocation_inputs robots tasks False db) (\<lambda>(rs, ts).
        res_bind (lift_error (fst (allocate rs ts (estimator_init sample_floor plan_astar)))) (\<lambda>result.
        Inr (rs, ts, result, False, [] :: (string \<times> string) list, db))))"
      using inputs allocate [OF Some] by (auto intro!: calms_bind)
    then show ?thesis using Some by (auto simp: run_allocation_def split: sum.split prod.split)
  qed
qed

lemma run_allocation_persisted_calm:
  assumes "store_ok db" "solver_ok solver"
  shows "calms (fst (run_allocation solver algorithm robots tasks True commit db))"
proof (cases "algorithm \<in> {''greedy'', ''cp_sat''} \<and> idle_robots db \<noteq> [] \<and> waiting_tasks db \<noteq> []")
  case True
  then show ?thesis using run_allocation_persisted [OF assms, of algorithm robots tasks commit] by force
next
  case False
  then show ?thesis
    by (cases "dict_get (allocators solver) algorithm")
      (auto simp: run_allocation_def persisted_inputs [OF assms(1)] allocators_def split: if_splits)
qed

lemma plan_path_response:
  assumes "fst (plan_path q db) = Inr result"
  shows "\<exists>b. path_plan_response_of algorithm result = Inr b"
proof -
  obtain db' where "plan_path q db = (Inr result, db')" using assms by (cases "plan_path q db") simp
  then have "\<exists>w a b. plan_spec (rq_algorithm q) w a b (Inr result)"
    using plan_path_answers [where q = q and db = db] by auto
  then show ?thesis using path_response_ok by blast
qed

section \<open>Every endpoint\<close>

definition server_ok :: "server \<Rightarrow> bool" where
  [inv_defs]: "server_ok sv \<longleftrightarrow> store_ok (sv_store sv) \<and> users_ok (sv_users sv)"

text \<open>An endpoint whose call is calm and keeps a valid store, and whose response can be built from a row of it.\<close>

lemma calms_read:
  assumes "calms (fst (f (sv_store sv)))"
    and "\<And>a. fst (f (sv_store sv)) = Inr a \<Longrightarrow> \<exists>b. body_of a = Inr b"
  shows "calms (fst (reply_with status body_of (on_store f sv)))"
proof (rule calms_reply)
  show "calms (body_of a)" if "fst (on_store f sv) = Inr a" for a using assms(2) that by fastforce
qed (use assms(1) in simp)

lemma list_rows_mem:
  "dict_ok (robots_table db) \<Longrightarrow> r \<in> set (list_robot_rows status db) \<Longrightarrow> \<exists>i. dict_get (robots_table db) i = Some r"
  "dict_ok (tasks_table db) \<Longrightarrow> t \<in> set (list_task_rows status db) \<Longrightarrow> \<exists>i. dict_get (tasks_table db) i = Some t"
  by (auto simp: list_robot_rows_def list_task_rows_def dict_get_Some_iff)

lemma read_rows:
  assumes "store_ok db"
  shows "\<exists>bs. res_map robot_read_of (list_robot_rows status db) = Inr bs"
    "\<exists>bs. res_map task_read_of (list_task_rows status db) = Inr bs"
proof -
  have d: "dict_ok (robots_table db)" "dict_ok (tasks_table db)"
    using assms by (simp_all add: store_ok_def robots_table_ok_def tasks_table_ok_def)
  show "\<exists>bs. res_map robot_read_of (list_robot_rows status db) = Inr bs"
    by (rule res_map_ex) (use list_rows_mem(1) [OF d(1)] robot_read_ok [OF assms] in blast)
  show "\<exists>bs. res_map task_read_of (list_task_rows status db) = Inr bs"
    by (rule res_map_ex) (use list_rows_mem(2) [OF d(2)] task_read_ok [OF assms] in blast)
qed

lemma robot_endpoint:
  assumes "calms (fst (f (sv_store sv)))" "store_ok (snd (f (sv_store sv)))"
    and "\<And>r. fst (f (sv_store sv)) = Inr r \<Longrightarrow> \<exists>i. dict_get (robots_table (snd (f (sv_store sv)))) i = Some r"
  shows "calms (fst (reply_with status (\<lambda>r. map_sum id Robot_Body (robot_read_of r)) (on_store f sv)))"
  by (rule calms_read) (use assms robot_read_ok in fastforce)+

lemma task_endpoint:
  assumes "calms (fst (f (sv_store sv)))" "store_ok (snd (f (sv_store sv)))"
    and "\<And>t. fst (f (sv_store sv)) = Inr t \<Longrightarrow> \<exists>i. dict_get (tasks_table (snd (f (sv_store sv)))) i = Some t"
  shows "calms (fst (reply_with status (\<lambda>t. map_sum id Task_Body (task_read_of t)) (on_store f sv)))"
  by (rule calms_read) (use assms task_read_ok in fastforce)+

definition is_recovery :: "api_request \<Rightarrow> bool" where
  "is_recovery q = (case q of Post_Obstacle _ \<Rightarrow> True | Post_Robot_Failure _ \<Rightarrow> True | _ \<Rightarrow> False)"

lemma find_robot_Inr: "find_robot rid db = Inr r \<longleftrightarrow> dict_get (robots_table db) rid = Some r"
  by (auto simp: find_robot_def split: option.split)

lemma find_task_Inr: "find_task tid db = Inr t \<longleftrightarrow> dict_get (tasks_table db) tid = Some t"
  by (auto simp: find_task_def split: option.split)

lemma robots_calm:
  assumes ok: "store_ok (sv_store sv)"
  shows "robot_create_valid b \<Longrightarrow> calms (fst (post_robot b sv))" "robot_update_valid p \<Longrightarrow> calms (fst (patch_robot rid p sv))"
    "calms (fst (get_robots status sv))" "calms (fst (get_robot_by_id rid sv))" "calms (fst (delete_robot_by_id rid sv))"
proof -
  show "calms (fst (post_robot b sv))" if "robot_create_valid b" unfolding post_robot_def
    by (rule robot_endpoint, rule create_robot_calm, rule create_robot_ok [OF ok create_floats [OF that]], blast dest: create_robot_row)
  show "calms (fst (patch_robot rid p sv))" if "robot_update_valid p" unfolding patch_robot_def
    by (rule robot_endpoint, rule update_robot_calm, rule update_robot_ok [OF ok patch_floats [OF that]], blast dest: update_robot_row)
  show "calms (fst (get_robots status sv))" unfolding get_robots_def
  proof (rule calms_read, goal_cases)
    case 1
    then show ?case by (simp add: reading_def list_robots_def split: option.split)
  next
    case (2 rows)
    then obtain v where "rows = list_robot_rows v (sv_store sv)"
      by (auto simp: reading_def list_robots_def split: option.splits if_splits)
    then show ?case using read_rows(1) [OF ok, of v] by auto
  qed
  show "calms (fst (get_robot_by_id rid sv))" unfolding get_robot_by_id_def
    by (rule robot_endpoint) (use ok in \<open>auto simp: reading_def find_robot_Inr find_robot_def split: option.splits\<close>)
  show "calms (fst (delete_robot_by_id rid sv))" unfolding delete_robot_by_id_def
    by (rule calms_read) (auto simp: delete_robot_def find_robot_def split: option.splits)
qed

lemma tasks_calm:
  assumes ok: "store_ok (sv_store sv)"
  shows "calms (fst (post_task b sv))" "calms (fst (patch_task tid p sv))"
    "calms (fst (get_tasks status sv))" "calms (fst (get_task_by_id tid sv))" "calms (fst (delete_task_by_id tid sv))"
proof -
  show "calms (fst (post_task b sv))" unfolding post_task_def
    by (rule task_endpoint, rule create_task_calm, rule create_task_ok [OF ok], blast dest: create_task_row)
  show "calms (fst (patch_task tid p sv))" unfolding patch_task_def
    by (rule task_endpoint, rule update_task_calm [OF ok], rule update_task_ok [OF ok], blast dest: update_task_row)
  show "calms (fst (get_tasks status sv))" unfolding get_tasks_def
  proof (rule calms_read, goal_cases)
    case 1
    then show ?case by (simp add: reading_def list_tasks_def split: option.split)
  next
    case (2 rows)
    then obtain v where "rows = list_task_rows v (sv_store sv)"
      by (auto simp: reading_def list_tasks_def split: option.splits if_splits)
    then show ?case using read_rows(2) [OF ok, of v] by auto
  qed
  show "calms (fst (get_task_by_id tid sv))" unfolding get_task_by_id_def
    by (rule task_endpoint) (use ok in \<open>auto simp: reading_def find_task_Inr find_task_def split: option.splits\<close>)
  show "calms (fst (delete_task_by_id tid sv))" unfolding delete_task_by_id_def
    by (rule calms_read) (auto simp: delete_task_def find_task_def split: option.splits)
qed

lemma algorithms_calm:
  assumes ok: "store_ok (sv_store sv)" and solver: "solver_ok solver"
  shows "calms (fst (post_path pb sv))" "calms (fst (post_allocation solver ab sv))" "calms (fst (post_coordination cb sv))"
proof -
  show "calms (fst (post_path pb sv))" unfolding post_path_def Let_def
  proof (rule calms_read [OF plan_path_calm], goal_cases)
    case (1 result)
    from plan_path_response [OF this, of "given (pb_algorithm pb) ''astar''"] show ?case by force
  qed
  show "calms (fst (post_allocation solver ab sv))" unfolding post_allocation_def
    by (rule calms_read) (cases "given (aq_from_persisted ab) False";
      simp add: run_allocation_inline_calm run_allocation_persisted_calm [OF ok solver])+
  show "calms (fst (post_coordination cb sv))" unfolding post_coordination_def
    by (rule calms_read) (simp_all add: coordinate_fleet_calm)
qed

lemma accounts_calm:
  "calms (fst (post_login env now name password sv))" "calms (fst (post_register env salt b sv))" "calms (fst (get_me user sv))"
  "calms (fst (get_health st sv))" "calms (fst (get_ready select_one sv))"
proof -
  show "calms (fst (post_login env now name password sv))"
    by (auto simp: post_login_def login_def intro!: calms_bind split: option.split prod.split)
  have "calms (fst (register_user hashpw salt name password role users))" for hashpw name password role users
    by (auto simp: register_user_def Let_def split: option.split sum.split)
  then show "calms (fst (post_register env salt b sv))"
    by (auto simp: post_register_def intro!: calms_bind split: prod.split) (metis fst_conv)
qed (simp_all add: get_me_def get_health_def get_ready_def split: option.split)

lemma handle_calm:
  assumes "store_ok (sv_store sv)" "solver_ok (env_solver env)" "body_valid q" "\<not> is_recovery q"
  shows "calms (fst (handle env now salt user q sv))"
  using assms robots_calm [OF assms(1)] tasks_calm [OF assms(1)] algorithms_calm [OF assms(1,2)] accounts_calm
  by (cases q) (simp_all add: is_recovery_def)

end
