(* ===== verification/Api_Properties.thy ===== *)
theory Api_Properties
  imports Api_Answers
begin

text \<open>
  What the HTTP interface promises: who may change what, that the database stays valid under all
  requests, which statuses a request can get, and that a posted robot is the robot that is read.
\<close>

section \<open>Access control\<close>

definition allowed :: "environment \<Rightarrow> int \<Rightarrow> string option \<Rightarrow> guard \<Rightarrow> user_record list \<Rightarrow> bool" where
  "allowed env now credentials g users = (case g of
       Public \<Rightarrow> True
     | Signed_In \<Rightarrow> list_ex (bearer env now credentials users) users
     | At_Least r \<Rightarrow> list_ex (\<lambda>u. bearer env now credentials users u \<and> has_role r u) users)"

lemma bearer_user: "bearer env now credentials users u \<Longrightarrow> u \<in> set users"
  by (auto simp: bearer_def)

lemma admit_allowed: "admit env now credentials g users = Inr user \<Longrightarrow> allowed env now credentials g users"
  using admit_At_Least admit_Signed_In bearer_user
  by (cases g) (fastforce simp: allowed_def list_ex_iff)+

text \<open>
  C5: A request that is answered with anything but an error comes from a caller that its endpoint
  admits, and an error leaves the database as it was. The fleet changes only on behalf of an
  active operator or administrator whose token is good, the accounts only on behalf of an
  administrator.
\<close>

theorem api_access_control:
  assumes "serve env now salt credentials q sv = (resp, sv')"
  shows "(400 \<le> http_status resp \<longrightarrow> sv' = sv) \<and>
    (http_status resp < 400 \<longrightarrow> allowed env now credentials (guard_of q) (sv_users sv)) \<and>
    (sv_store sv' \<noteq> sv_store sv \<longrightarrow> allowed env now credentials (At_Least Operator) (sv_users sv)) \<and>
    (sv_users sv' \<noteq> sv_users sv \<longrightarrow> allowed env now credentials (At_Least Admin) (sv_users sv))"
  using assms
proof (cases rule: serve_cases)
  case (refused e)
  then show ?thesis using admit_Inl [OF refused(1)] by (auto simp: error_response_def)
next
  case (invalid user)
  then show ?thesis by (simp add: invalid_body_response_def)
next
  case (failed user e)
  then show ?thesis using admit_allowed [OF failed(1)] by simp
next
  case (answered user status b)
  note ok = admit_allowed [OF answered(1)]
  have snd: "snd (handle env now salt user q sv) = sv'" "fst (handle env now salt user q sv) = Inr (status, b)"
    using answered(3) by simp_all
  have "status < 400 \<or> sv' = sv" using handle_status [OF snd(2)] handle_reading [of q env now salt user sv] snd(1) by auto
  moreover have "guard_of q = At_Least Operator" if "sv_store sv' \<noteq> sv_store sv"
    using that handle_reading [of q env now salt user sv] handle_register [of q env now salt user sv] snd(1) by metis
  moreover have "guard_of q = At_Least Admin" if "sv_users sv' \<noteq> sv_users sv"
    using that handle_users [of q env now salt user sv] snd(1) by auto
  ultimately show ?thesis using ok answered(4) by (auto simp: not_less)
qed

text \<open>A server with one administrator, and a viewer that it has registered.\<close>

definition plain_env :: environment where
  "plain_env = \<lparr>env_settings = default_settings\<lparr>access_token_expire_minutes := 1,
       bootstrap_admin_username := Some ''root'', bootstrap_admin_password := Some ''password''\<rparr>,
     env_solver = brute_force, env_encode = plain_encode, env_decode = plain_decode, env_hashpw = (\<lambda>p salt. p),
     env_checkpw = plain_checkpw, env_select_one = Inr ()\<rparr>"

definition empty_database :: server where
  "empty_database = \<lparr>sv_store = empty_store, sv_users = []\<rparr>"

text \<open>An empty database when the service has started on it.\<close>

definition start_server :: "environment \<Rightarrow> string \<Rightarrow> server" where
  "start_server env salt = snd (create_app env salt empty_database)"

definition token_for :: "environment \<Rightarrow> int \<Rightarrow> string \<Rightarrow> string \<Rightarrow> server \<Rightarrow> string option" where
  "token_for env now name password sv = (case http_body (fst (serve env now [] None (Post_Token name password) sv)) of
     Token_Body t \<Rightarrow> Some (tk_access_token t) | _ \<Rightarrow> None)"

definition eve :: api_request where
  "eve = Post_Register \<lparr>uc_username = ''eve'', uc_password = ''password'', uc_role = None\<rparr>"

definition eve_server :: server where
  "eve_server = snd (serve plain_env 0 [] (token_for plain_env 0 ''root'' ''password'' (start_server plain_env [])) eve (start_server plain_env []))"

lemma api_access_control_witness:
  "map usr_username (sv_users eve_server) = [''root'', ''eve''] \<and>
   http_status (fst (serve plain_env 0 [] (token_for plain_env 0 ''eve'' ''password'' eve_server) (Delete_Robot ''R1'') eve_server)) = 403 \<and>
   snd (serve plain_env 0 [] (token_for plain_env 0 ''eve'' ''password'' eve_server) (Delete_Robot ''R1'') eve_server) = eve_server"
proof -
  have "map usr_username (sv_users eve_server) = [''root'', ''eve'']" by code_simp
  moreover have s: "http_status (fst (serve plain_env 0 [] (token_for plain_env 0 ''eve'' ''password'' eve_server) (Delete_Robot ''R1'') eve_server)) = 403"
    by code_simp
  moreover obtain resp sv' where run:
    "serve plain_env 0 [] (token_for plain_env 0 ''eve'' ''password'' eve_server) (Delete_Robot ''R1'') eve_server = (resp, sv')" by fastforce
  ultimately show ?thesis using api_access_control [OF run] by simp
qed

section \<open>The database stays valid\<close>

inductive api_reachable :: "environment \<Rightarrow> server \<Rightarrow> bool" for env where
  no_rows: "api_reachable env empty_database"
| started: "api_reachable env sv \<Longrightarrow> api_reachable env (snd (create_app env salt sv))"
| one_request: "api_reachable env sv \<Longrightarrow> api_reachable env (snd (serve_with fault env now salt credentials q sv))"

lemma served_request: "api_reachable env sv \<Longrightarrow> api_reachable env (snd (serve env now salt credentials q sv))"
  using one_request [where fault = No_Fault] by simp

lemma create_app_ok:
  assumes "server_ok sv"
  shows "server_ok (snd (create_app env salt sv))"
proof -
  have users: "users_ok (sv_users sv)" using assms by (simp add: server_ok_def)
  have "users_ok (snd (ensure_bootstrap_admin (env_hashpw env) salt (env_settings env) (sv_users sv)))"
    unfolding ensure_bootstrap_admin_def using users register_user_ok [OF users]
    by (auto split: option.split sum.split prod.split) (metis snd_conv)+
  then show ?thesis using assms
    by (auto simp: create_app_def bootstrap_admin_def in_transaction_def server_ok_def split: prod.splits sum.splits)
qed

lemma empty_database_ok: "server_ok empty_database"
  by (simp add: server_ok_def empty_database_def empty_store_ok users_ok_def)

lemma eve_reachable: "api_reachable plain_env eve_server"
  unfolding eve_server_def start_server_def by (intro served_request started no_rows)

lemma serve_ok:
  assumes "solver_ok (env_solver env)" "server_ok sv"
  shows "server_ok (snd (serve env now salt credentials q sv))"
proof -
  obtain resp sv' where run: "serve env now salt credentials q sv = (resp, sv')" by fastforce
  have "server_ok sv'" using run
  proof (cases rule: serve_cases)
    case (answered user status b)
    consider "guard_of q = At_Least Operator" | "guard_of q = At_Least Admin" | "sv' = sv"
      using handle_reading [of q env now salt user sv] answered(3) by fastforce
    then show ?thesis
    proof cases
      case 1
      then have "sv_users sv' = sv_users sv" using handle_users [of q env now salt user sv] answered(3) by simp
      then show ?thesis using handle_served [OF answered(2) 1 answered(3)] served_ok [OF assms(1)] assms(2)
        by (auto simp: server_ok_def)
    next
      case 2
      then show ?thesis using handle_register [OF 2, of env now salt user sv] answered(3) assms(2) by (simp add: server_ok_def)
    qed (use assms(2) in simp)
  qed (use assms(2) in auto)
  then show ?thesis by (simp add: run)
qed

text \<open>A fault leaves the database as it was, or as the request would have left it.\<close>

lemma serve_with_state:
  "snd (serve_with fault env now salt credentials q sv) \<in>
     {sv, snd (serve env now salt credentials q sv), snd (serve (env\<lparr>env_select_one := Inl ''connection lost''\<rparr>) now salt credentials q sv)}"
  by (cases fault) (auto split: prod.split)

lemma serve_with_ok:
  assumes "solver_ok (env_solver env)" "server_ok sv"
  shows "server_ok (snd (serve_with fault env now salt credentials q sv))"
  using serve_with_state [of fault env now salt credentials q sv] assms
    serve_ok [OF assms] serve_ok [of "env\<lparr>env_select_one := Inl ''connection lost''\<rparr>", OF _ assms(2)]
  by auto

text \<open>
  C4: Starting from an empty database, whatever requests the service answers, by whomever and in
  whatever order, whichever of them a failure of the database interrupts, and however often the
  service is restarted, the database stays valid: every row of the fleet describes a valid robot or task, no two robots
  share a cell or stand on a rack, tasks start and end on the floor and name robots that exist,
  and accounts have unique names and known roles.
\<close>

theorem database_stays_valid:
  assumes "solver_ok (env_solver env)" "api_reachable env sv"
  shows "store_ok (sv_store sv) \<and> users_ok (sv_users sv)"
proof -
  have "server_ok sv" using assms(2)
    by induction (auto intro: empty_database_ok create_app_ok serve_with_ok [OF assms(1)])
  then show ?thesis by (simp add: server_ok_def)
qed

lemma database_stays_valid_witness: "store_ok (sv_store eve_server) \<and> users_ok (sv_users eve_server)"
proof -
  have "solver_ok (env_solver plain_env)" by (simp add: plain_env_def brute_force_ok)
  moreover note eve_reachable
  ultimately show ?thesis by (rule database_stays_valid)
qed

section \<open>Answers\<close>

lemma reachable_ok: "solver_ok (env_solver env) \<Longrightarrow> api_reachable env sv \<Longrightarrow> server_ok sv"
  by (rotate_tac, induction rule: api_reachable.induct) (auto intro: empty_database_ok create_app_ok serve_with_ok)

lemma error_statuses: "response_status e \<in> {200, 401, 403, 404, 409, 422, 500}"
  by (cases e) simp_all

lemma serve_statuses:
  assumes "solver_ok (env_solver env)" "server_ok sv"
  shows "http_status (fst (serve env now salt credentials q sv)) \<in>
    {200, 201, 204, 401, 403, 404, 409, 422} \<union> (if q = Get_Ready then {503} else if is_recovery q then {500} else {})"
proof -
  have ok: "store_ok (sv_store sv)" using assms(2) by (simp add: server_ok_def)
  obtain resp sv' where run: "serve env now salt credentials q sv = (resp, sv')" by fastforce
  from run have "http_status resp \<in>
    {200, 201, 204, 401, 403, 404, 409, 422} \<union> (if q = Get_Ready then {503} else if is_recovery q then {500} else {})"
  proof (cases rule: serve_cases)
    case (refused e)
    then show ?thesis using admit_Inl [OF refused(1)] by (auto simp: error_response_def)
  next
    case (invalid user)
    then show ?thesis by (simp add: invalid_body_response_def)
  next
    case (failed user e)
    have "response_status e < 500 \<or> is_recovery q"
      using handle_calm [OF ok assms(1) failed(2), of now salt user] failed(3) by (auto simp: calm_def)
    moreover have "q \<noteq> Get_Ready" using failed(3) by (auto simp: get_ready_def split: if_splits)
    ultimately show ?thesis using error_statuses [of e] failed(4) by (auto simp: error_response_def)
  next
    case (answered user status b)
    have h: "fst (handle env now salt user q sv) = Inr (status, b)" using answered(3) by simp
    have "status \<in> {200, 503}" if "q = Get_Ready" using h that by (auto simp: get_ready_def split: if_splits)
    then show ?thesis using handle_status [OF h] answered(4) by auto
  qed
  then show ?thesis by (simp add: run)
qed

lemma refused_unchanged: "400 \<le> http_status (fst (serve env now salt credentials q sv)) \<Longrightarrow> snd (serve env now salt credentials q sv) = sv"
proof -
  obtain resp sv' where run: "serve env now salt credentials q sv = (resp, sv')" by fastforce
  assume "400 \<le> http_status (fst (serve env now salt credentials q sv))"
  with run show ?thesis
  proof (cases rule: serve_cases)
    case (answered user status b)
    have snd: "snd (handle env now salt user q sv) = sv'" "fst (handle env now salt user q sv) = Inr (status, b)"
      using answered(3) by simp_all
    then show ?thesis using handle_status [OF snd(2)] handle_reading [of q env now salt user sv] snd(1) answered(4) run
        \<open>400 \<le> http_status (fst (serve env now salt credentials q sv))\<close> by auto
  qed (simp_all add: run)
qed

text \<open>Which faults are a loss of the connection that is reported.\<close>

fun connection_lost :: "fault \<Rightarrow> bool" where
  "connection_lost No_Fault = False"
| "connection_lost Constraint_Fired = False"
| "connection_lost _ = True"



section \<open>What is posted is what is read\<close>

definition created_robot :: "robot_create \<Rightarrow> robot_read" where
  "created_robot b = \<lparr>rd_robot_id = rb_robot_id b, rd_position = rb_position b, rd_battery_level = given (rb_battery_level b) 100,
     rd_payload_capacity = given (rb_payload_capacity b) 10, rd_current_payload = given (rb_current_payload b) 0,
     rd_status = given (rb_status b) ''idle'', rd_assigned_task_id = None\<rparr>"

lemma create_robot_record:
  assumes "fst (create_robot rid r c battery capacity payload status db) = Inr rec"
  shows "rec = \<lparr>rec_robot_id = rid, rec_row = r, rec_col = c, rec_battery_level = battery, rec_payload_capacity = capacity,
    rec_current_payload = payload, rec_status = status, rec_assigned_task_id = None\<rparr>"
  using assms by (auto simp: create_robot_def Let_def split: sum.splits if_splits)

text \<open>
  C25: A robot that was created is the robot that is read afterwards, by anyone who may read: with
  the fields of the request, the defaults for those it left out, and no task. Creating it a second
  time is a conflict that changes nothing.
\<close>

theorem posted_robot_is_read:
  assumes "serve env now salt credentials (Post_Robot b) sv = (resp, sv')" "http_status resp = 201"
    and "admit env now' credentials' (At_Least Viewer) (sv_users sv) = Inr user"
  shows "http_body resp = Robot_Body (created_robot b) \<and>
    serve env now' salt' credentials' (Get_Robot (rb_robot_id b)) sv' =
      (\<lparr>http_status = 200, http_body = Robot_Body (created_robot b), http_challenge = False\<rparr>, sv') \<and>
    serve env now salt credentials (Post_Robot b) sv' = (error_response Resource_Conflict, sv')"
  using assms(1)
proof (cases rule: serve_cases)
  case (answered user' status body)
  define f where "f = create_robot (rb_robot_id b) (co_row (rb_position b)) (co_col (rb_position b))
    (given (rb_battery_level b) 100) (given (rb_payload_capacity b) 10) (given (rb_current_payload b) 0) (given (rb_status b) ''idle'')"
  have run: "reply_with 201 (\<lambda>r. map_sum id Robot_Body (robot_read_of r)) (on_store f sv) = (Inr (status, body), sv')"
    using answered(3) by (simp add: post_robot_def f_def)
  obtain rec where rec: "fst (f (sv_store sv)) = Inr rec" "sv' = sv\<lparr>sv_store := snd (f (sv_store sv))\<rparr>"
    "map_sum id Robot_Body (robot_read_of rec) = Inr body"
    using run by (auto simp: reply_with_def on_store_def res_bind_Inr split: prod.splits)
  have read: "body = Robot_Body (created_robot b)" and readable: "robot_read_of rec = Inr (created_robot b)"
    using rec(3) create_robot_record [OF rec(1) [unfolded f_def]]
    by (auto simp: robot_read_of_def coord_at_def created_robot_def split: if_splits)
  have row: "dict_get (robots_table (sv_store sv')) (rb_robot_id b) = Some rec"
    using create_robot_row [OF rec(1) [unfolded f_def]] rec(2) by (simp add: f_def)
  have again: "f (sv_store sv') = (Inl Resource_Conflict, sv_store sv')" using row by (simp add: f_def create_robot_def)
  have users: "sv_users sv' = sv_users sv" using rec(2) by simp
  have "serve env now' salt' credentials' (Get_Robot (rb_robot_id b)) sv' =
      (\<lparr>http_status = 200, http_body = Robot_Body (created_robot b), http_challenge = False\<rparr>, sv')"
    using assms(3) row readable
    by (simp add: serve_def users in_transaction_def get_robot_by_id_def reply_with_def on_store_def reading_def find_robot_def)
  moreover have "serve env now salt credentials (Post_Robot b) sv' = (error_response Resource_Conflict, sv')"
    using answered(1,2) again
    by (simp add: serve_def users in_transaction_def post_robot_def reply_with_def on_store_def f_def [symmetric])
  ultimately show ?thesis using answered(4) read by simp
next
  case (refused e)
  then show ?thesis using assms(2) error_statuses [of e] by (auto simp: error_response_def)
next
  case (failed user e)
  then show ?thesis using assms(2) error_statuses [of e] by (auto simp: error_response_def)
next
  case (invalid user)
  then show ?thesis using assms(2) by (simp add: invalid_body_response_def)
qed

text \<open>The administrator puts a robot into a corner.\<close>

definition corner_robot :: robot_create where
  "corner_robot = \<lparr>rb_robot_id = ''R1'', rb_position = \<lparr>co_row = 0, co_col = 0\<rparr>, rb_battery_level = None,
     rb_payload_capacity = None, rb_current_payload = None, rb_status = None\<rparr>"

definition root_token :: "string option" where
  "root_token = token_for plain_env 0 ''root'' ''password'' (start_server plain_env [])"

lemma corner_robot_created:
  "\<exists>db. create_robot ''R1'' 0 0 100 10 0 ''idle'' empty_store = (Inr \<lparr>rec_robot_id = ''R1'', rec_row = 0, rec_col = 0,
     rec_battery_level = 100, rec_payload_capacity = 10, rec_current_payload = 0, rec_status = ''idle'', rec_assigned_task_id = None\<rparr>, db)"
proof -
  obtain r db where run: "create_robot ''R1'' 0 0 100 10 0 ''idle'' empty_store = (r, db)" by fastforce
  have "r \<noteq> Inl e" for e
    using one_robot_created run by (cases r) (auto simp: one_robot_def in_transaction_def empty_store_def)
  then show ?thesis using create_robot_record [of "''R1''" 0 0 100 10 0 "''idle''" empty_store] run by (cases r) auto
qed

lemma posted_robot_is_read_witness:
  "http_body (fst (serve plain_env 0 [] root_token (Get_Robot ''R1'')
     (snd (serve plain_env 0 [] root_token (Post_Robot corner_robot) (start_server plain_env []))))) = Robot_Body (created_robot corner_robot)"
proof -
  have fresh: "sv_store (start_server plain_env []) = empty_store"
    by (simp add: start_server_def create_app_def bootstrap_admin_def in_transaction_def empty_database_def split: prod.split sum.split)
  have "\<not> isl (admit plain_env 0 root_token (At_Least Operator) (sv_users (start_server plain_env [])))" by code_simp
  then obtain u where op: "admit plain_env 0 root_token (At_Least Operator) (sv_users (start_server plain_env [])) = Inr u" by (metis isl_def sum.exhaust)
  have "\<not> isl (admit plain_env 0 root_token (At_Least Viewer) (sv_users (start_server plain_env [])))" by code_simp
  then obtain v where reader: "admit plain_env 0 root_token (At_Least Viewer) (sv_users (start_server plain_env [])) = Inr v" by (metis isl_def sum.exhaust)
  have "robot_create_valid corner_robot" by code_simp
  obtain resp sv' where run: "serve plain_env 0 [] root_token (Post_Robot corner_robot) (start_server plain_env []) = (resp, sv')" by fastforce
  have "http_status resp = 201"
    using run op \<open>robot_create_valid corner_robot\<close> corner_robot_created
    by (auto simp: serve_def in_transaction_def post_robot_def reply_with_def on_store_def fresh corner_robot_def given_def
      robot_read_of_def coord_at_def)
  from posted_robot_is_read [OF run this reader] run show ?thesis by (simp add: corner_robot_def)
qed

end
