(* ===== verification/Api_Client.thy ===== *)
theory Api_Client
  imports Api
begin

text \<open>
  The HTTP client of the dashboard (\<open>frontend/api_client.py\<close>): one method per endpoint, over a network
  that may lose a request or its answer. The state of a session is the token that the client
  remembers, the server it talks to, and the number of calls made; the parameter \<open>net\<close> says for each
  call when it is made, which salt the server draws, and what becomes of the call. A response that
  arrives is the JSON of the model's body, so the branch for other content is left out, as are the
  texts of the errors.
\<close>

section \<open>Sequences of calls\<close>

text \<open>\<open>Wrong_Payload\<close> is the \<open>KeyError\<close> or \<open>TypeError\<close> of reading a field that a payload does not have.\<close>

datatype client_error = Api_Unavailable | Api_Error nat string | Wrong_Payload

type_synonym ('s, 'a) action = "'s \<Rightarrow> (client_error + 'a) \<times> 's"

definition act_return :: "'a \<Rightarrow> ('s, 'a) action" where
  "act_return x dk = (Inr x, dk)"

definition act_bind :: "('s, 'a) action \<Rightarrow> ('a \<Rightarrow> ('s, 'b) action) \<Rightarrow> ('s, 'b) action" where
  "act_bind m f dk = (case m dk of (Inl e, dk1) \<Rightarrow> (Inl e, dk1) | (Inr x, dk1) \<Rightarrow> f x dk1)"

fun act_each :: "('a \<Rightarrow> ('s, unit) action) \<Rightarrow> 'a list \<Rightarrow> ('s, unit) action" where
  "act_each f [] = act_return ()"
| "act_each f (x # xs) = act_bind (f x) (\<lambda>_. act_each f xs)"

section \<open>Calls\<close>

datatype delivery = Delivered | Unreachable | Answer_Lost

record moment =
  mo_now :: int
  mo_salt :: string
  mo_delivery :: delivery

type_synonym network = "nat \<Rightarrow> moment"

record desk =
  dk_token :: "string option"
  dk_server :: server
  dk_calls :: nat

definition headers :: "string option \<Rightarrow> string option" where
  "headers token = (if token = Some [] then None else token)"

definition as_api_error :: "response \<Rightarrow> client_error" where
  "as_api_error resp = Api_Error (http_status resp) (case http_body resp of Error_Body code \<Rightarrow> code | _ \<Rightarrow> [])"

definition client_request :: "environment \<Rightarrow> network \<Rightarrow> bool \<Rightarrow> api_request \<Rightarrow> (desk, body option) action" where
  "client_request env net auth_required q dk =
     (let mo = net (dk_calls dk); dk1 = dk\<lparr>dk_calls := Suc (dk_calls dk)\<rparr> in
      if mo_delivery mo = Unreachable then (Inl Api_Unavailable, dk1)
      else case serve env (mo_now mo) (mo_salt mo) (if auth_required then headers (dk_token dk) else None) q (dk_server dk) of
        (resp, sv) \<Rightarrow>
          let dk2 = dk1\<lparr>dk_server := sv\<rparr> in
          if mo_delivery mo = Answer_Lost then (Inl Api_Unavailable, dk2)
          else if 400 \<le> http_status resp then (Inl (as_api_error resp), dk2)
          else if http_status resp = 204 then (Inr None, dk2)
          else (Inr (Some (http_body resp)), dk2))"

text \<open>A call whose payload is read by \<open>pick\<close>.\<close>

definition fetch :: "environment \<Rightarrow> network \<Rightarrow> bool \<Rightarrow> api_request \<Rightarrow> (body \<Rightarrow> 'a option) \<Rightarrow> (desk, 'a) action" where
  "fetch env net auth_required q pick = act_bind (client_request env net auth_required q) (\<lambda>payload dk.
     (case Option.bind payload pick of None \<Rightarrow> Inl Wrong_Payload | Some x \<Rightarrow> Inr x, dk))"

definition ignoring :: "(desk, body option) action \<Rightarrow> (desk, unit) action" where
  "ignoring m = act_bind m (\<lambda>_. act_return ())"

section \<open>The methods\<close>

fun robots_of :: "body \<Rightarrow> robot_read list option" where
  "robots_of (Robot_List rs n) = Some rs"
| "robots_of _ = None"

fun tasks_of :: "body \<Rightarrow> task_read list option" where
  "tasks_of (Task_List ts n) = Some ts"
| "tasks_of _ = None"

fun token_of :: "body \<Rightarrow> string option" where
  "token_of (Token_Body t) = Some (tk_access_token t)"
| "token_of _ = None"

definition client_health :: "environment \<Rightarrow> network \<Rightarrow> (desk, body) action" where
  "client_health env net = fetch env net False Get_Health Some"

definition client_ready :: "environment \<Rightarrow> network \<Rightarrow> (desk, body) action" where
  "client_ready env net dk = (case fetch env net False Get_Ready Some dk of
       (Inl (Api_Error status code), dk1) \<Rightarrow>
         (if status = 503 then (Inr (Ready_Body ''not_ready'' [(''database'', ''unavailable'')]), dk1)
          else (Inl (Api_Error status code), dk1))
     | r \<Rightarrow> r)"

definition client_login :: "environment \<Rightarrow> network \<Rightarrow> string \<Rightarrow> string \<Rightarrow> (desk, string) action" where
  "client_login env net username password = act_bind (fetch env net False (Post_Token username password) token_of)
     (\<lambda>token dk. (Inr token, dk\<lparr>dk_token := Some token\<rparr>))"

definition client_list_robots :: "environment \<Rightarrow> network \<Rightarrow> string option \<Rightarrow> (desk, robot_read list) action" where
  "client_list_robots env net status = fetch env net True (Get_Robots (if status = Some [] then None else status)) robots_of"

definition client_list_tasks :: "environment \<Rightarrow> network \<Rightarrow> string option \<Rightarrow> (desk, task_read list) action" where
  "client_list_tasks env net status = fetch env net True (Get_Tasks (if status = Some [] then None else status)) tasks_of"

definition client_create_robot :: "environment \<Rightarrow> network \<Rightarrow> robot_create \<Rightarrow> (desk, body option) action" where
  "client_create_robot env net b = client_request env net True (Post_Robot b)"

definition client_update_robot :: "environment \<Rightarrow> network \<Rightarrow> string \<Rightarrow> robot_update \<Rightarrow> (desk, body option) action" where
  "client_update_robot env net rid b = client_request env net True (Patch_Robot rid b)"

definition client_delete_robot :: "environment \<Rightarrow> network \<Rightarrow> string \<Rightarrow> (desk, unit) action" where
  "client_delete_robot env net rid = ignoring (client_request env net True (Delete_Robot rid))"

definition client_create_task :: "environment \<Rightarrow> network \<Rightarrow> task_create \<Rightarrow> (desk, body option) action" where
  "client_create_task env net b = client_request env net True (Post_Task b)"

definition client_update_task :: "environment \<Rightarrow> network \<Rightarrow> string \<Rightarrow> task_update \<Rightarrow> (desk, body option) action" where
  "client_update_task env net tid b = client_request env net True (Patch_Task tid b)"

definition client_delete_task :: "environment \<Rightarrow> network \<Rightarrow> string \<Rightarrow> (desk, unit) action" where
  "client_delete_task env net tid = ignoring (client_request env net True (Delete_Task tid))"

definition client_plan_path :: "environment \<Rightarrow> network \<Rightarrow> path_plan_request \<Rightarrow> (desk, body option) action" where
  "client_plan_path env net b = client_request env net True (Post_Path b)"

definition client_run_allocation :: "environment \<Rightarrow> network \<Rightarrow> allocation_request \<Rightarrow> (desk, body option) action" where
  "client_run_allocation env net b = client_request env net True (Post_Allocation b)"

definition client_plan_coordination :: "environment \<Rightarrow> network \<Rightarrow> coordination_request \<Rightarrow> (desk, body option) action" where
  "client_plan_coordination env net b = client_request env net True (Post_Coordination b)"

definition client_recover_obstacle :: "environment \<Rightarrow> network \<Rightarrow> obstacle_recovery_request \<Rightarrow> (desk, body option) action" where
  "client_recover_obstacle env net b = client_request env net True (Post_Obstacle b)"

definition client_recover_robot_failure :: "environment \<Rightarrow> network \<Rightarrow> failure_recovery_request \<Rightarrow> (desk, body option) action" where
  "client_recover_robot_failure env net b = client_request env net True (Post_Robot_Failure b)"

end
