(* ===== verification/Dashboard_Scenario.thy ===== *)
theory Dashboard_Scenario
  imports Api_Client Api_Properties
begin

text \<open>
  The fixed demo scenario of the dashboard (\<open>frontend/scenario.py\<close>): its four robots and three tasks
  as request bodies, and the step that makes the persisted fleet be exactly this scenario.
\<close>

section \<open>The fixed fleet and tasks\<close>

definition fixed_robots :: "(string \<times> coord) list" where
  "fixed_robots = [(''R1'', \<lparr>co_row = 0, co_col = 4\<rparr>), (''R2'', \<lparr>co_row = 4, co_col = 0\<rparr>),
     (''R3'', \<lparr>co_row = 7, co_col = 11\<rparr>), (''R4'', \<lparr>co_row = 0, co_col = 10\<rparr>)]"

definition SPARE_ROBOT_ID :: string where
  "SPARE_ROBOT_ID = ''R4''"

definition FAILURE_TIMESTEP :: int where
  "FAILURE_TIMESTEP = 2"

definition robot_bodies :: "robot_create list" where
  "robot_bodies = map (\<lambda>(rid, pos). \<lparr>rb_robot_id = rid, rb_position = pos, rb_battery_level = Some 100,
     rb_payload_capacity = Some 10, rb_current_payload = None, rb_status = Some ''idle''\<rparr>) fixed_robots"

definition task_bodies :: "task_create list" where
  "task_bodies =
     [\<lparr>tb_task_id = ''T1'', tb_pickup = \<lparr>co_row = 1, co_col = 4\<rparr>, tb_dropoff = \<lparr>co_row = 11, co_col = 4\<rparr>,
       tb_payload_weight = Some 3, tb_priority = Some ''high''\<rparr>,
      \<lparr>tb_task_id = ''T2'', tb_pickup = \<lparr>co_row = 4, co_col = 1\<rparr>, tb_dropoff = \<lparr>co_row = 4, co_col = 11\<rparr>,
       tb_payload_weight = Some (15 / 2), tb_priority = Some ''urgent''\<rparr>,
      \<lparr>tb_task_id = ''T3'', tb_pickup = \<lparr>co_row = 7, co_col = 10\<rparr>, tb_dropoff = \<lparr>co_row = 7, co_col = 0\<rparr>,
       tb_payload_weight = Some 2, tb_priority = Some ''normal''\<rparr>]"

definition allocation_specs :: "allocation_robot list \<times> inline_task list" where
  "allocation_specs =
     (map (\<lambda>b. \<lparr>ab_robot_id = rb_robot_id b, ab_position = rb_position b, ab_battery_level = rb_battery_level b,
         ab_payload_capacity = rb_payload_capacity b\<rparr>) robot_bodies,
      map (\<lambda>b. \<lparr>it_task_id = tb_task_id b, it_pickup = tb_pickup b, it_dropoff = tb_dropoff b,
         it_payload_weight = tb_payload_weight b, it_priority = tb_priority b\<rparr>) task_bodies)"

section \<open>Reconciling the persisted state\<close>

text \<open>
  The step is written against anything with the methods of the client; \<open>http_client\<close> is the one that
  the dashboard passes.
\<close>

record 's scenario_client =
  sc_list_robots :: "('s, robot_read list) action"
  sc_create_robot :: "robot_create \<Rightarrow> ('s, unit) action"
  sc_delete_robot :: "string \<Rightarrow> ('s, unit) action"
  sc_list_tasks :: "('s, task_read list) action"
  sc_create_task :: "task_create \<Rightarrow> ('s, unit) action"
  sc_delete_task :: "string \<Rightarrow> ('s, unit) action"

definition http_client :: "environment \<Rightarrow> network \<Rightarrow> desk scenario_client" where
  "http_client env net =
     \<lparr>sc_list_robots = client_list_robots env net None, sc_create_robot = (\<lambda>b. ignoring (client_create_robot env net b)),
      sc_delete_robot = client_delete_robot env net, sc_list_tasks = client_list_tasks env net None,
      sc_create_task = (\<lambda>b. ignoring (client_create_task env net b)), sc_delete_task = client_delete_task env net\<rparr>"

record sync_summary =
  sy_robots :: nat
  sy_tasks :: nat
  sy_removed :: "string list"

definition sync_persisted_scenario :: "'s scenario_client \<Rightarrow> ('s, sync_summary) action" where
  "sync_persisted_scenario client =
     (let wanted_robot_ids = set (map rb_robot_id robot_bodies); wanted_task_ids = set (map tb_task_id task_bodies) in
      act_bind (sc_list_tasks client) (\<lambda>tasks.
      act_bind (act_each (\<lambda>t. sc_delete_task client (td_task_id t)) tasks) (\<lambda>_.
      act_bind (sc_list_robots client) (\<lambda>robots.
      act_bind (act_each (\<lambda>r. sc_delete_robot client (rd_robot_id r)) robots) (\<lambda>_.
      act_bind (act_each (sc_create_robot client) robot_bodies) (\<lambda>_.
      act_bind (act_each (sc_create_task client) task_bodies) (\<lambda>_.
      act_bind (sc_list_robots client) (\<lambda>robots'.
      act_bind (sc_list_tasks client) (\<lambda>tasks'.
      act_return \<lparr>sy_robots = length robots', sy_tasks = length tasks',
        sy_removed = sort (filter (\<lambda>i. i \<notin> wanted_task_ids) (map td_task_id tasks) @
                           filter (\<lambda>i. i \<notin> wanted_robot_ids) (map rd_robot_id robots))\<rparr>)))))))))"

section \<open>The layout for drawing\<close>

record layout =
  ly_width :: int
  ly_height :: int
  ly_blocked :: "(int \<times> int) list"
  ly_pickups :: "(int \<times> int) list"
  ly_dropoffs :: "(int \<times> int) list"
  ly_chargers :: "(int \<times> int) list"
  ly_storage :: "(int \<times> int) list"

definition cells_of_type :: "warehouse \<Rightarrow> location_type \<Rightarrow> (int \<times> int) list" where
  "cells_of_type w r = sort (map (\<lambda>p. (row p, col p)) (positions_of_type w r))"

definition grid_layout :: "py_error + layout" where
  "grid_layout = res_bind build_sample_warehouse (\<lambda>w.
     Inr \<lparr>ly_width = wh_width w, ly_height = wh_height w,
       ly_blocked = sorted_list_of_set ((\<lambda>p. (row p, col p)) ` blocked_cells w),
       ly_pickups = cells_of_type w PICKUP, ly_dropoffs = cells_of_type w DROPOFF,
       ly_chargers = cells_of_type w CHARGING, ly_storage = cells_of_type w STORAGE\<rparr>)"

end
