(* ===== verification/View_Model.thy ===== *)
theory View_Model
  imports Dashboard_Scenario
begin

text \<open>
  The transforms of the dashboard (\<open>frontend/view_model.py\<close>): what it draws, lists and counts, and the
  request bodies it makes of an allocation and the persisted rows. A payload is the model's response
  body, so the defaults for missing keys are left out. The sentences of the event log and of the
  metrics panel are constructors that carry their values.
\<close>

section \<open>Tables\<close>

text \<open>\<open>round(x, n)\<close>: the nearest decimal with n digits, ties to even, as a float.\<close>

definition round_digits :: "nat \<Rightarrow> pyfloat \<Rightarrow> pyfloat" where
  "round_digits n x = fl (of_int (round_even (x * 10 ^ n)) / 10 ^ n)"

text \<open>\<open>value or "-"\<close>.\<close>

definition or_dash :: "string option \<Rightarrow> string" where
  "or_dash v = (if v = None \<or> v = Some [] then ''-'' else the v)"

record robot_line =
  ln_robot :: string
  ln_state :: string
  ln_position :: "int \<times> int"
  ln_battery :: pyfloat
  ln_assigned_task :: string

definition robot_rows :: "robot_read list \<Rightarrow> robot_line list" where
  "robot_rows robots = sort_key ln_robot (map (\<lambda>r. \<lparr>ln_robot = rd_robot_id r, ln_state = rd_status r,
     ln_position = (co_row (rd_position r), co_col (rd_position r)), ln_battery = round_digits 1 (rd_battery_level r),
     ln_assigned_task = or_dash (rd_assigned_task_id r)\<rparr>) robots)"

record task_line =
  ln_task :: string
  ln_task_state :: string
  ln_assigned_robot :: string
  ln_pickup :: "int \<times> int"
  ln_destination :: "int \<times> int"
  ln_priority :: string

definition task_rows :: "task_read list \<Rightarrow> task_line list" where
  "task_rows tasks = sort_key ln_task (map (\<lambda>t. \<lparr>ln_task = td_task_id t, ln_task_state = td_status t,
     ln_assigned_robot = or_dash (td_assigned_robot_id t),
     ln_pickup = (co_row (td_pickup t), co_col (td_pickup t)), ln_destination = (co_row (td_dropoff t), co_col (td_dropoff t)),
     ln_priority = td_priority t\<rparr>) tasks)"

section \<open>Geometry\<close>

definition path_cells :: "path_plan_response \<Rightarrow> (int \<times> int) list" where
  "path_cells plan = map (\<lambda>c. (co_row c, co_col c)) (pp_path plan)"

definition coordinated_routes :: "coordination_response \<Rightarrow> (string, (int \<times> int) list) dict" where
  "coordinated_routes coord = map (\<lambda>(rid, route). (rid, map (\<lambda>s. (ts_row s, ts_col s)) (ct_steps route))) (ck_routes coord)"

definition robot_positions_from_specs :: "robot_create list \<Rightarrow> (string, int \<times> int) dict" where
  "robot_positions_from_specs specs = dict_of (map (\<lambda>s. (rb_robot_id s, (co_row (rb_position s), co_col (rb_position s)))) specs)"

section \<open>Request bodies\<close>

definition coordination_request_robots ::
  "allocation_assignment list \<Rightarrow> (string, robot_read) dict \<Rightarrow> (string, task_read) dict \<Rightarrow> coordination_robot list" where
  "coordination_request_robots assignments robots_by_id tasks_by_id = concat (map (\<lambda>a.
     case (dict_get robots_by_id (aa_robot_id a), dict_get tasks_by_id (aa_task_id a)) of
       (Some robot, Some task) \<Rightarrow> [\<lparr>cb_robot_id = aa_robot_id a, cb_start = rd_position robot, cb_goal = td_dropoff task\<rparr>]
     | _ \<Rightarrow> []) assignments)"

definition recovery_request_robots ::
  "allocation_assignment list \<Rightarrow> (string, robot_read) dict \<Rightarrow> (string, task_read) dict \<Rightarrow> string \<Rightarrow> recovery_robot_body list" where
  "recovery_request_robots assignments robots_by_id tasks_by_id spare_robot_id =
     concat (map (\<lambda>a. case (dict_get robots_by_id (aa_robot_id a), dict_get tasks_by_id (aa_task_id a)) of
       (Some robot, Some task) \<Rightarrow> [\<lparr>vb_robot_id = aa_robot_id a, vb_start = rd_position robot, vb_goal = td_dropoff task,
          vb_task = Some \<lparr>it_task_id = td_task_id task, it_pickup = td_pickup task, it_dropoff = td_dropoff task,
            it_payload_weight = Some (td_payload_weight task), it_priority = Some (td_priority task)\<rparr>\<rparr>]
     | _ \<Rightarrow> []) assignments) @
     (case dict_get robots_by_id spare_robot_id of
        Some spare \<Rightarrow> (if spare_robot_id \<in> set (map aa_robot_id assignments) then []
          else [\<lparr>vb_robot_id = spare_robot_id, vb_start = rd_position spare, vb_goal = rd_position spare, vb_task = None\<rparr>])
      | None \<Rightarrow> [])"

section \<open>The obstacle of the demo\<close>

record picked =
  pk_cell :: coord
  pk_timestep :: int
  pk_robot_id :: string

text \<open>The key of \<open>max\<close>: the length of a route, then the id of its robot; the first maximum wins.\<close>

definition route_less :: "string \<times> timed_step_model list \<Rightarrow> string \<times> timed_step_model list \<Rightarrow> bool" where
  "route_less a b \<longleftrightarrow> length (snd a) < length (snd b) \<or> length (snd a) = length (snd b) \<and> fst a < fst b"

fun longest_route :: "string \<times> timed_step_model list \<Rightarrow> (string \<times> timed_step_model list) list \<Rightarrow> string \<times> timed_step_model list" where
  "longest_route best [] = best"
| "longest_route best (c # cs) = longest_route (if route_less best c then c else best) cs"

definition obstacle_candidates :: "coordination_response \<Rightarrow> (string \<times> timed_step_model list) list" where
  "obstacle_candidates coord = map (\<lambda>(rid, route). (rid, ct_steps route))
     (filter (\<lambda>(rid, route). ct_success route \<and> 5 \<le> length (ct_steps route)) (ck_routes coord))"

definition pick_dynamic_obstacle :: "coordination_response option \<Rightarrow> picked option" where
  "pick_dynamic_obstacle coord_response = (case coord_response of
       None \<Rightarrow> None
     | Some coord \<Rightarrow> (case obstacle_candidates coord of
           [] \<Rightarrow> None
         | c # cs \<Rightarrow> (case longest_route c cs of (rid, steps) \<Rightarrow>
             let mid = steps ! (length steps div 2); fire_at = max 1 (min 2 (ts_timestep mid - 1))
             in Some \<lparr>pk_cell = \<lparr>co_row = ts_row mid, co_col = ts_col mid\<rparr>, pk_timestep = fire_at, pk_robot_id = rid\<rparr>)))"

section \<open>The event log\<close>

datatype log_entry =
    Cleared_Stale "string list" | Scenario_Initialised nat nat
  | Task_Assigned string string int | Task_Unassigned string | Assignments_Committed "(string \<times> string) list"
  | Routes_Planned nat int int | Wait_Inserted string int | Planning_Failed string
  | Route_Demo string string "int option" nat
  | Obstacle_Dropped coord string int | Obstacle_Introduced "string list" | Replanning_Triggered bool
  | Failing string bool | Robot_Failed "string list" | Recovery_Tried "string option" "string option" bool
  | Safe_Stopped | Reassignment_Persisted "string list"

type_synonym event_log = "log_entry list"

definition log_add :: "log_entry \<Rightarrow> event_log \<Rightarrow> event_log" where
  "log_add message entries = entries @ [message]"

definition log_extend :: "log_entry list \<Rightarrow> event_log \<Rightarrow> event_log" where
  "log_extend messages entries = entries @ messages"

text \<open>\<open>entries[-n:]\<close>, which is the whole list for \<open>n = 0\<close>.\<close>

definition log_tail :: "nat \<Rightarrow> event_log \<Rightarrow> event_log" where
  "log_tail n entries = (if n = 0 then entries else drop (length entries - n) entries)"

definition allocation_events :: "allocation_response \<Rightarrow> log_entry list" where
  "allocation_events alloc =
     map (\<lambda>a. Task_Assigned (aa_task_id a) (aa_robot_id a) (aa_total_estimated_cost a)) (ar_assignments alloc) @
     map Task_Unassigned (ar_unassigned_task_ids alloc)"

definition coordination_events :: "coordination_response \<Rightarrow> log_entry list" where
  "coordination_events coord =
     Routes_Planned (ck_planned_robot_count coord) (ck_makespan coord) (ck_total_wait_steps coord) #
     concat (map (\<lambda>(rid, route). if ct_wait_count route \<noteq> 0 then [Wait_Inserted rid (ct_wait_count route)] else []) (ck_routes coord)) @
     map Planning_Failed (ck_failed_robot_ids coord)"

datatype recovery_kind = Obstacle_Kind | Failure_Kind

definition recovery_events :: "recovery_response \<Rightarrow> recovery_kind \<Rightarrow> log_entry list" where
  "recovery_events response kind =
     (case kind of
        Obstacle_Kind \<Rightarrow> Obstacle_Introduced (rk_affected_robot_ids response) #
          (if rk_replanning_attempted response then [Replanning_Triggered (rk_replanning_success response)] else [])
      | Failure_Kind \<Rightarrow> Robot_Failed (rk_affected_robot_ids response) #
          (if rk_task_reassignment_attempted response
           then [Recovery_Tried (rk_reassigned_from response) (rk_reassigned_to response) (rk_task_reassignment_success response)]
           else [])) @
     (if rk_safe_stop response then [Safe_Stopped] else [])"

section \<open>The metrics panel\<close>

datatype outcome_text =
    Obstacle_Missed "string list" | Obstacle_Replanned "string list" | Obstacle_Safe_Stopped "string list"
  | Failure_Reassigned "string option" "string option" | Failure_Safe_Stop "string list" | Failure_Affected "string list"

definition recovery_outcome_text :: "recovery_kind \<Rightarrow> recovery_response \<Rightarrow> outcome_text" where
  "recovery_outcome_text kind response = (let affected = rk_affected_robot_ids response in
     case kind of
       Obstacle_Kind \<Rightarrow>
         (if \<not> rk_replanning_attempted response then Obstacle_Missed affected
          else if rk_replanning_success response then Obstacle_Replanned affected else Obstacle_Safe_Stopped affected)
     | Failure_Kind \<Rightarrow>
         (if rk_task_reassignment_success response then Failure_Reassigned (rk_reassigned_from response) (rk_reassigned_to response)
          else if rk_safe_stop response then Failure_Safe_Stop affected
          else Failure_Affected affected))"

datatype metric = Count int | Rate pyfloat | Name string | Outcome outcome_text

definition allocation_metrics :: "allocation_response \<Rightarrow> (string \<times> metric) list" where
  "allocation_metrics allocation =
     (let assigned = length (ar_assignments allocation); unassigned = length (ar_unassigned_task_ids allocation);
          total = assigned + unassigned in
      [(''tasks assigned'', Count (int assigned)), (''tasks unassigned'', Count (int unassigned))] @
      (if total \<noteq> 0 then [(''assignment rate'', Rate (round_digits 3 (fl (of_nat assigned / of_nat total))))] else []) @
      [(''allocation solver'', Name (ar_algorithm allocation)),
       (''allocation total est. cost'', Count (ar_total_estimated_cost allocation))])"

definition coordination_metrics :: "coordination_response \<Rightarrow> (string \<times> metric) list" where
  "coordination_metrics coordination =
     [(''robots coordinated'', Count (int (ck_planned_robot_count coordination))),
      (''coordination failures'', Count (int (length (ck_failed_robot_ids coordination)))),
      (''wait steps'', Count (ck_total_wait_steps coordination)), (''move steps'', Count (ck_total_move_steps coordination)),
      (''makespan'', Count (ck_makespan coordination))]"

record recovery_tally =
  ta_replans :: int
  ta_recoveries_ok :: int
  ta_safe_stops :: int
  ta_reassignments :: int
  ta_unresolved :: int

definition bump_if :: "bool \<Rightarrow> int \<Rightarrow> int" where
  "bump_if b n = (if b then n + 1 else n)"

definition tally_recovery :: "recovery_kind \<times> recovery_response \<Rightarrow> recovery_tally \<Rightarrow> recovery_tally" where
  "tally_recovery kr t = (let response = snd kr in
     \<lparr>ta_replans = bump_if (rk_replanning_attempted response) (ta_replans t),
      ta_recoveries_ok = bump_if (rk_recovery_success response) (ta_recoveries_ok t),
      ta_safe_stops = bump_if (rk_safe_stop response) (ta_safe_stops t),
      ta_reassignments = bump_if (rk_task_reassignment_success response) (ta_reassignments t),
      ta_unresolved = ta_unresolved t + int (rk_unresolved_vertex_conflicts response) + int (rk_unresolved_edge_conflicts response)\<rparr>)"

definition no_tally :: recovery_tally where
  "no_tally = \<lparr>ta_replans = 0, ta_recoveries_ok = 0, ta_safe_stops = 0, ta_reassignments = 0, ta_unresolved = 0\<rparr>"

definition recovery_metrics :: "(recovery_kind \<times> recovery_response) list \<Rightarrow> (string \<times> metric) list" where
  "recovery_metrics recoveries = (let t = fold tally_recovery recoveries no_tally in
     if recoveries = [] then []
     else [(''replans triggered'', Count (ta_replans t)), (''recoveries succeeded'', Count (ta_recoveries_ok t)),
        (''safe stops'', Count (ta_safe_stops t)), (''task reassignments'', Count (ta_reassignments t)),
        (''unresolved conflicts'', Count (ta_unresolved t)),
        (''last action'', Outcome (case last recoveries of (kind, response) \<Rightarrow> recovery_outcome_text kind response))])"

definition scenario_metrics :: "allocation_response option \<Rightarrow> coordination_response option \<Rightarrow>
    (recovery_kind \<times> recovery_response) list \<Rightarrow> (string \<times> metric) list" where
  "scenario_metrics allocation coordination recoveries =
     (case allocation of None \<Rightarrow> [] | Some a \<Rightarrow> allocation_metrics a) @
     (case coordination of None \<Rightarrow> [] | Some c \<Rightarrow> coordination_metrics c) @ recovery_metrics recoveries"

section \<open>Banners\<close>

text \<open>\<open>None\<close> is "backend: unreachable"; otherwise the status of the backend and of its database.\<close>

definition health_banner :: "body option \<Rightarrow> body option \<Rightarrow> (string \<times> string) option" where
  "health_banner health readiness = (case health of
       Some (Health_Body status app) \<Rightarrow> Some (status, case readiness of
           Some (Ready_Body s checks) \<Rightarrow> (case dict_get checks ''database'' of None \<Rightarrow> ''?'' | Some db \<Rightarrow> db)
         | _ \<Rightarrow> ''?'')
     | Some b \<Rightarrow> Some (''?'', ''?'')
     | None \<Rightarrow> None)"

text \<open>The numbers of robots, of tasks and of live assignments that the warning names.\<close>

definition persisted_scenario_notice :: "bool \<Rightarrow> robot_read list \<Rightarrow> task_read list \<Rightarrow> (nat \<times> nat \<times> nat) option" where
  "persisted_scenario_notice scenario_ready robots tasks =
     (if scenario_ready \<or> robots = [] \<and> tasks = [] then None
      else Some (length robots, length tasks,
        length (filter (\<lambda>r. rd_assigned_task_id r \<notin> {None, Some []}) robots) +
        length (filter (\<lambda>t. td_assigned_robot_id t \<notin> {None, Some []}) tasks)))"

end
