(* ===== verification/Dashboard.thy ===== *)
theory Dashboard
  imports View_Model
begin

text \<open>
  The dashboard script (\<open>frontend/app.py\<close>). Streamlit runs the script from its top to its bottom at
  every interaction, with the session state of the run before; the widget that was used is true in
  that run only, and \<open>st.rerun\<close> starts the script again with none. One run is \<open>run_script\<close>; its result
  is the session state after it and what the page shows. Messages and the drawing are left out.
\<close>

section \<open>The session\<close>

record dashboard =
  da_desk :: desk
  da_authed :: bool
  da_log :: event_log
  da_allocation :: "allocation_response option"
  da_coordination :: "coordination_response option"
  da_recoveries :: "(recovery_kind \<times> recovery_response) list"
  da_plan_demo :: "path_plan_response option"
  da_obstacle :: "picked option"
  da_scenario_ready :: bool

definition init_state :: "server \<Rightarrow> dashboard" where
  "init_state sv = \<lparr>da_desk = \<lparr>dk_token = None, dk_server = sv, dk_calls = 0\<rparr>, da_authed = False, da_log = [], da_allocation = None,
     da_coordination = None, da_recoveries = [], da_plan_demo = None, da_obstacle = None, da_scenario_ready = False\<rparr>"

text \<open>Every failure of a client call becomes a message and \<open>None\<close>.\<close>

definition call :: "(desk, 'a) action \<Rightarrow> dashboard \<Rightarrow> 'a option \<times> dashboard" where
  "call fn da = (case fn (da_desk da) of
       (Inr x, dk) \<Rightarrow> (Some x, da\<lparr>da_desk := dk\<rparr>)
     | (Inl (Api_Error status code), dk) \<Rightarrow>
         (None, da\<lparr>da_desk := dk, da_authed := (if status \<in> {401, 403} then False else da_authed da)\<rparr>)
     | (Inl e, dk) \<Rightarrow> (None, da\<lparr>da_desk := dk\<rparr>))"

text \<open>\<open>FULFILLMENT_API_USERNAME\<close> and \<open>FULFILLMENT_API_PASSWORD\<close>, and what the calls go to.\<close>

record connection =
  cn_env :: environment
  cn_net :: network
  cn_user :: string
  cn_password :: string

definition ensure_auth :: "connection \<Rightarrow> dashboard \<Rightarrow> bool \<times> dashboard" where
  "ensure_auth cn da =
     (if da_authed da \<and> dk_token (da_desk da) \<notin> {None, Some []} then (True, da)
      else if cn_user cn \<noteq> [] \<and> cn_password cn \<noteq> [] then
        (case call (client_login (cn_env cn) (cn_net cn) (cn_user cn) (cn_password cn)) da of
           (token, da1) \<Rightarrow> if token \<notin> {None, Some []} then (True, da1\<lparr>da_authed := True\<rparr>) else (False, da1))
      else (False, da))"

definition persisted_maps :: "connection \<Rightarrow> dashboard \<Rightarrow> ((string, robot_read) dict \<times> (string, task_read) dict) \<times> dashboard" where
  "persisted_maps cn da =
     (case call (client_list_robots (cn_env cn) (cn_net cn) None) da of (robots, da1) \<Rightarrow>
      case call (client_list_tasks (cn_env cn) (cn_net cn) None) da1 of (tasks, da2) \<Rightarrow>
        ((dict_of (map (\<lambda>r. (rd_robot_id r, r)) (given robots [])), dict_of (map (\<lambda>t. (td_task_id t, t)) (given tasks []))), da2))"

definition reset_scenario :: "dashboard \<Rightarrow> dashboard" where
  "reset_scenario da = da\<lparr>da_allocation := None, da_coordination := None, da_recoveries := [], da_plan_demo := None,
     da_obstacle := None, da_scenario_ready := False, da_log := []\<rparr>"

definition noted :: "log_entry list \<Rightarrow> dashboard \<Rightarrow> dashboard" where
  "noted messages da = da\<lparr>da_log := log_extend messages (da_log da)\<rparr>"

text \<open>The payload of a call, read as the kind of response that the panel uses.\<close>

definition payload_of :: "(body \<Rightarrow> 'a option) \<Rightarrow> (desk, body option) action \<Rightarrow> (desk, 'a) action" where
  "payload_of pick m = act_bind m (\<lambda>payload dk. (case Option.bind payload pick of None \<Rightarrow> Inl Wrong_Payload | Some x \<Rightarrow> Inr x, dk))"

fun allocation_body :: "body \<Rightarrow> allocation_response option" where
  "allocation_body (Allocation_Body r) = Some r" | "allocation_body _ = None"

fun coordination_body :: "body \<Rightarrow> coordination_response option" where
  "coordination_body (Coordination_Body r) = Some r" | "coordination_body _ = None"

fun path_body :: "body \<Rightarrow> path_plan_response option" where
  "path_body (Path_Body r) = Some r" | "path_body _ = None"

fun recovery_body :: "body \<Rightarrow> recovery_response option" where
  "recovery_body (Recovery_Body r) = Some r" | "recovery_body _ = None"

section \<open>The controls\<close>

definition initialise_scenario :: "connection \<Rightarrow> dashboard \<Rightarrow> dashboard" where
  "initialise_scenario cn da = (case ensure_auth cn da of (ok, da1) \<Rightarrow>
     if \<not> ok then da1
     else case call (sync_persisted_scenario (http_client (cn_env cn) (cn_net cn))) da1 of
         (None, da2) \<Rightarrow> da2
       | (Some synced, da2) \<Rightarrow> noted ((if sy_removed synced \<noteq> [] then [Cleared_Stale (sy_removed synced)] else []) @
             [Scenario_Initialised (sy_robots synced) (sy_tasks synced)]) (da2\<lparr>da_scenario_ready := True\<rparr>))"

definition cp_sat_request :: allocation_request where
  "cp_sat_request = \<lparr>aq_algorithm = Some ''cp_sat'', aq_robots = None, aq_tasks = None, aq_from_persisted = Some True,
     aq_commit = Some True\<rparr>"

definition allocate_tasks :: "connection \<Rightarrow> dashboard \<Rightarrow> dashboard" where
  "allocate_tasks cn da = (case ensure_auth cn da of (ok, da1) \<Rightarrow>
     if \<not> ok then da1
     else case call (payload_of allocation_body (client_run_allocation (cn_env cn) (cn_net cn) cp_sat_request)) da1 of
         (None, da2) \<Rightarrow> da2
       | (Some resp, da2) \<Rightarrow> noted (allocation_events resp @
             (if ar_applied resp \<noteq> [] then [Assignments_Committed (ar_applied resp)] else [])) (da2\<lparr>da_allocation := Some resp\<rparr>))"

text \<open>\<open>not alloc or not alloc.get("assignments")\<close>.\<close>

definition assignments_of :: "dashboard \<Rightarrow> allocation_assignment list" where
  "assignments_of da = (case da_allocation da of None \<Rightarrow> [] | Some alloc \<Rightarrow> ar_assignments alloc)"

definition plan_routes :: "connection \<Rightarrow> string \<Rightarrow> dashboard \<Rightarrow> dashboard" where
  "plan_routes cn algorithm da = (case ensure_auth cn da of (ok, da1) \<Rightarrow>
     if \<not> ok \<or> assignments_of da1 = [] then da1
     else case persisted_maps cn da1 of ((robots_by_id, tasks_by_id), da2) \<Rightarrow>
       let robots_body = coordination_request_robots (assignments_of da1) robots_by_id tasks_by_id in
       case call (payload_of coordination_body (client_plan_coordination (cn_env cn) (cn_net cn)
           \<lparr>cq_robots = robots_body, cq_priority_order = None, cq_horizon = None, cq_warehouse = None\<rparr>)) da2 of (resp, da3) \<Rightarrow>
       let da4 = (case resp of None \<Rightarrow> da3
           | Some r \<Rightarrow> noted (coordination_events r) (da3\<lparr>da_coordination := Some r\<rparr>)) in
       (case robots_body of
          [] \<Rightarrow> da4
        | first # _ \<Rightarrow>
            (case call (payload_of path_body (client_plan_path (cn_env cn) (cn_net cn)
                \<lparr>pb_start = cb_start first, pb_goal = cb_goal first, pb_algorithm = Some algorithm, pb_warehouse = None,
                 pb_dynamic_obstacles = None\<rparr>)) da4 of
               (None, da5) \<Rightarrow> da5
             | (Some demo, da5) \<Rightarrow> noted [Route_Demo algorithm (cb_robot_id first) (pp_total_cost demo) (pp_nodes_expanded demo)]
                 (da5\<lparr>da_plan_demo := Some demo\<rparr>))))"

text \<open>A coordinated robot as a recovery robot without a task, which is how its body reads at the other endpoint.\<close>

definition as_recovery_robot :: "coordination_robot \<Rightarrow> recovery_robot_body" where
  "as_recovery_robot b = \<lparr>vb_robot_id = cb_robot_id b, vb_start = cb_start b, vb_goal = cb_goal b, vb_task = None\<rparr>"

definition inject_obstacle :: "connection \<Rightarrow> dashboard \<Rightarrow> dashboard" where
  "inject_obstacle cn da = (case ensure_auth cn da of (ok, da1) \<Rightarrow>
     if \<not> ok \<or> assignments_of da1 = [] \<or> (case da_coordination da1 of None \<Rightarrow> True | Some c \<Rightarrow> ck_routes c = []) then da1
     else case pick_dynamic_obstacle (da_coordination da1) of
         None \<Rightarrow> da1
       | Some picked \<Rightarrow>
           (case persisted_maps cn da1 of ((robots_by_id, tasks_by_id), da2) \<Rightarrow>
            case call (payload_of recovery_body (client_recover_obstacle (cn_env cn) (cn_net cn)
                \<lparr>vq_robots = map as_recovery_robot (coordination_request_robots (assignments_of da1) robots_by_id tasks_by_id),
                 vq_timestep = pk_timestep picked, vq_priority_order = None, vq_horizon = None, vq_recovery_enabled = None,
                 vq_warehouse = None, vq_obstacle = pk_cell picked\<rparr>)) da2 of
              (None, da3) \<Rightarrow> da3
            | (Some resp, da3) \<Rightarrow>
                noted (Obstacle_Dropped (pk_cell picked) (pk_robot_id picked) (pk_timestep picked) # recovery_events resp Obstacle_Kind)
                  (da3\<lparr>da_obstacle := Some picked, da_recoveries := da_recoveries da3 @ [(Obstacle_Kind, resp)]\<rparr>)))"

definition fail_robot :: "connection \<Rightarrow> dashboard \<Rightarrow> dashboard" where
  "fail_robot cn da = (case ensure_auth cn da of (ok, da1) \<Rightarrow>
     if \<not> ok \<or> assignments_of da1 = [] then da1
     else case persisted_maps cn da1 of ((robots_by_id, tasks_by_id), da2) \<Rightarrow>
       let robots_body = recovery_request_robots (assignments_of da1) robots_by_id tasks_by_id SPARE_ROBOT_ID;
           failed = hd (sort (map aa_robot_id (assignments_of da1)));
           spare_in = list_ex (\<lambda>r. vb_robot_id r = SPARE_ROBOT_ID) robots_body;
           da3 = noted [Failing failed spare_in] da2 in
       (case call (payload_of recovery_body (client_recover_robot_failure (cn_env cn) (cn_net cn)
            \<lparr>vq_robots = robots_body, vq_timestep = FAILURE_TIMESTEP, vq_priority_order = None, vq_horizon = None,
             vq_recovery_enabled = None, vq_warehouse = None, vq_failed_robot_id = failed, vq_commit = Some True\<rparr>)) da3 of
          (None, da4) \<Rightarrow> da4
        | (Some resp, da4) \<Rightarrow> noted (recovery_events resp Failure_Kind @
              (if rk_committed resp then [Reassignment_Persisted (rk_committed_state resp)] else []))
            (da4\<lparr>da_recoveries := da_recoveries da4 @ [(Failure_Kind, resp)]\<rparr>)))"

section \<open>One run of the script\<close>

datatype interaction =
    Log_In string string | Initialise | Allocate | Plan_Routes string | Inject_Obstacle | Fail_Robot | Reset

record page =
  pg_banner :: "(string \<times> string) option"
  pg_notice :: "(nat \<times> nat \<times> nat) option"
  pg_routes :: "(string, (int \<times> int) list) dict"
  pg_obstacle :: "coord option"
  pg_metrics :: "(string \<times> metric) list"
  pg_robots :: "robot_line list"
  pg_tasks :: "task_line list"
  pg_log :: "log_entry list"

text \<open>The connection banner, and the sign-in that the sidebar tries.\<close>

definition connect :: "connection \<Rightarrow> dashboard \<Rightarrow> (string \<times> string) option \<times> dashboard" where
  "connect cn da =
     (case call (client_health (cn_env cn) (cn_net cn)) da of (health, da1) \<Rightarrow>
      case (if health = None then (None, da1) else call (client_ready (cn_env cn) (cn_net cn)) da1) of (ready_body, da2) \<Rightarrow>
      case ensure_auth cn da2 of (_, da3) \<Rightarrow> (health_banner health ready_body, da3))"

text \<open>The form is there only when the session is not signed in; \<open>True\<close> asks for a run from the top.\<close>

definition log_in :: "connection \<Rightarrow> string \<Rightarrow> string \<Rightarrow> dashboard \<Rightarrow> bool \<times> dashboard" where
  "log_in cn username password da =
     (if da_authed da then (False, da)
      else case call (client_login (cn_env cn) (cn_net cn) username password) da of
          (token, da1) \<Rightarrow> if token \<notin> {None, Some []} then (True, da1\<lparr>da_authed := True\<rparr>) else (False, da1))"

fun control :: "connection \<Rightarrow> interaction option \<Rightarrow> dashboard \<Rightarrow> bool \<times> dashboard" where
  "control cn None da = (False, da)"
| "control cn (Some (Log_In username password)) da = log_in cn username password da"
| "control cn (Some Initialise) da = (False, initialise_scenario cn da)"
| "control cn (Some Allocate) da = (False, allocate_tasks cn da)"
| "control cn (Some (Plan_Routes algorithm)) da = (False, plan_routes cn algorithm da)"
| "control cn (Some Inject_Obstacle) da = (False, inject_obstacle cn da)"
| "control cn (Some Fail_Robot) da = (False, fail_robot cn da)"
| "control cn (Some Reset) da = (True, reset_scenario da)"

text \<open>The main area reads the rows outside of \<open>call\<close>, so a refusal does not sign the session out.\<close>

definition read_rows_for_page :: "(desk, 'a list) action \<Rightarrow> dashboard \<Rightarrow> 'a list \<times> dashboard" where
  "read_rows_for_page fn da =
     (if da_authed da then (case fn (da_desk da) of (Inl e, dk) \<Rightarrow> ([], da\<lparr>da_desk := dk\<rparr>) | (Inr xs, dk) \<Rightarrow> (xs, da\<lparr>da_desk := dk\<rparr>))
      else ([], da))"

definition shown_routes :: "dashboard \<Rightarrow> (string, (int \<times> int) list) dict" where
  "shown_routes da = (case da_coordination da of
       Some c \<Rightarrow> coordinated_routes c
     | None \<Rightarrow> (case da_plan_demo da of Some demo \<Rightarrow> [(''route'', path_cells demo)] | None \<Rightarrow> []))"

definition main_area :: "connection \<Rightarrow> (string \<times> string) option \<Rightarrow> dashboard \<Rightarrow> page \<times> dashboard" where
  "main_area cn banner da =
     (case read_rows_for_page (client_list_robots (cn_env cn) (cn_net cn) None) da of (robots, da1) \<Rightarrow>
      case read_rows_for_page (client_list_tasks (cn_env cn) (cn_net cn) None) da1 of (tasks, da2) \<Rightarrow>
        (\<lparr>pg_banner = banner, pg_notice = persisted_scenario_notice (da_scenario_ready da2) robots tasks,
          pg_routes = shown_routes da2, pg_obstacle = map_option pk_cell (da_obstacle da2),
          pg_metrics = scenario_metrics (da_allocation da2) (da_coordination da2) (da_recoveries da2),
          pg_robots = robot_rows robots, pg_tasks = task_rows tasks, pg_log = rev (log_tail 30 (da_log da2))\<rparr>, da2))"

definition run_script :: "connection \<Rightarrow> interaction option \<Rightarrow> dashboard \<Rightarrow> page \<times> dashboard" where
  "run_script cn used da =
     (case connect cn da of (banner, da1) \<Rightarrow>
      case control cn used da1 of
        (False, da2) \<Rightarrow> main_area cn banner da2
      | (True, da2) \<Rightarrow> (case connect cn da2 of (banner', da3) \<Rightarrow> main_area cn banner' da3))"

end
