(* ===== verification/Scenario_Sync.thy ===== *)
theory Scenario_Sync
  imports Dashboard_Scenario
begin

text \<open>
  What the dashboard's step "initialise scenario" achieves: the contract of a client as a locale,
  the step proved against it, and the HTTP client as its instance.
\<close>

section \<open>Actions\<close>

lemma act_bind_Inr: "act_bind m f s = (Inr y, s') \<longleftrightarrow> (\<exists>x s1. m s = (Inr x, s1) \<and> f x s1 = (Inr y, s'))"
  by (auto simp: act_bind_def split: prod.splits sum.splits)

lemma act_return_Inr [simp]: "act_return x s = (Inr y, s') \<longleftrightarrow> y = x \<and> s' = s"
  by (auto simp: act_return_def)

text \<open>A loop whose every call changes what is observed by \<open>g\<close>.\<close>

lemma act_each_effect:
  assumes "act_each f xs s = (Inr u, s')"
    and "\<And>x s u s'. f x s = (Inr u, s') \<Longrightarrow> obs s' = g x (obs s)"
  shows "obs s' = fold g xs (obs s)"
  using assms(1)
proof (induction xs arbitrary: s)
  case (Cons x xs)
  then obtain v s1 where "f x s = (Inr v, s1)" "act_each f xs s1 = (Inr u, s')" by (auto simp: act_bind_Inr)
  then show ?case using Cons.IH [of s1] assms(2) [of x s v s1] by simp
qed simp

text \<open>A loop whose calls all return, as long as the invariant holds for what is left to do.\<close>

lemma act_each_returns:
  assumes "I xs s"
    and "\<And>x xs s. I (x # xs) s \<Longrightarrow> \<exists>s'. f x s = (Inr (), s') \<and> I xs s'"
  shows "\<exists>s'. act_each f xs s = (Inr (), s') \<and> I [] s'"
  using assms(1)
proof (induction xs arbitrary: s)
  case (Cons x xs)
  obtain s1 where "f x s = (Inr (), s1)" "I xs s1" using assms(2) [OF Cons.prems] by blast
  moreover obtain s' where "act_each f xs s1 = (Inr (), s')" "I [] s'" using Cons.IH [OF calculation(2)] by blast
  ultimately show ?case by (simp add: act_bind_def)
qed (simp add: act_return_def)

section \<open>The rows of the scenario\<close>

definition robot_row_of :: "robot_create \<Rightarrow> robot_record" where
  "robot_row_of b = \<lparr>rec_robot_id = rb_robot_id b, rec_row = co_row (rb_position b), rec_col = co_col (rb_position b),
     rec_battery_level = given (rb_battery_level b) 100, rec_payload_capacity = given (rb_payload_capacity b) 10,
     rec_current_payload = given (rb_current_payload b) 0, rec_status = given (rb_status b) ''idle'', rec_assigned_task_id = None\<rparr>"

definition task_row_of :: "task_create \<Rightarrow> task_record" where
  "task_row_of b = \<lparr>rec_task_id = tb_task_id b, rec_pickup_row = co_row (tb_pickup b), rec_pickup_col = co_col (tb_pickup b),
     rec_dropoff_row = co_row (tb_dropoff b), rec_dropoff_col = co_col (tb_dropoff b),
     rec_priority = given (tb_priority b) ''normal'', rec_payload_weight = given (tb_payload_weight b) 1,
     rec_task_status = ''pending'', rec_assigned_robot_id = None, rec_failure_reason = None\<rparr>"

text \<open>The tables of the scenario, beside the runs that are recorded in \<open>db\<close>.\<close>

definition scenario_store :: "store \<Rightarrow> store" where
  "scenario_store db = db\<lparr>robots_table := map (\<lambda>b. (rb_robot_id b, robot_row_of b)) robot_bodies,
     tasks_table := map (\<lambda>b. (tb_task_id b, task_row_of b)) task_bodies\<rparr>"

text \<open>The ids of the rows that are no part of the scenario.\<close>

definition stale_ids :: "store \<Rightarrow> string list" where
  "stale_ids db = sort (filter (\<lambda>i. i \<notin> set (map tb_task_id task_bodies)) (dict_keys (tasks_table db)) @
     filter (\<lambda>i. i \<notin> set (map rb_robot_id robot_bodies)) (dict_keys (robots_table db)))"

lemma dict_del_all: "set (dict_keys d) \<subseteq> set ks \<Longrightarrow> fold dict_del ks d = []"
proof (induction ks arbitrary: d)
  case (Cons k ks)
  have "set (dict_keys (dict_del k d)) \<subseteq> set ks" using Cons.prems by (auto simp: set_dict_del)
  then show ?case using Cons.IH by simp
qed simp

lemma delete_tasks: "set (dict_keys (tasks_table db)) \<subseteq> set ks \<Longrightarrow> fold delete_task_row ks db = db\<lparr>tasks_table := []\<rparr>"
proof -
  have "fold delete_task_row ks db = db\<lparr>tasks_table := fold dict_del ks (tasks_table db)\<rparr>" for db
    by (induction ks arbitrary: db) (simp_all add: delete_task_row_def)
  then show "set (dict_keys (tasks_table db)) \<subseteq> set ks \<Longrightarrow> fold delete_task_row ks db = db\<lparr>tasks_table := []\<rparr>"
    by (simp add: dict_del_all)
qed

lemma delete_robots:
  assumes "tasks_table db = []" "set (dict_keys (robots_table db)) \<subseteq> set ks"
  shows "fold delete_robot_row ks db = db\<lparr>robots_table := []\<rparr>"
proof -
  have "fold delete_robot_row ks db = db\<lparr>robots_table := fold dict_del ks (robots_table db)\<rparr>" if "tasks_table db = []" for db
    using that by (induction ks arbitrary: db) (simp_all add: delete_robot_row_def)
  then show ?thesis using assms by (simp add: dict_del_all)
qed

lemma create_scenario:
  "robots_table db = [] \<Longrightarrow> tasks_table db = [] \<Longrightarrow>
   fold (\<lambda>b. put_task_row (task_row_of b)) task_bodies (fold (\<lambda>b. put_robot_row (robot_row_of b)) robot_bodies db) = scenario_store db"
  by (simp add: scenario_store_def robot_bodies_def fixed_robots_def task_bodies_def put_task_row_def put_robot_row_def
      robot_row_of_def task_row_of_def)

lemma listed_keys:
  "robots_table_ok (robots_table db) \<Longrightarrow> map rec_robot_id (list_robot_rows None db) = sort (dict_keys (robots_table db))"
  "tasks_table_ok rs (tasks_table db) \<Longrightarrow> map rec_task_id (list_task_rows None db) = sort (dict_keys (tasks_table db))"
proof -
  have sorted_keys: "map fst (sort_key fst xs) = sort (map fst xs)" for xs :: "(string \<times> 'a) list"
    by (metis mset_map mset_sort properties_for_sort sorted_sort_key)
  have ids: "rec_robot_id (snd x) = fst x" if "robots_table_ok (robots_table db)" "x \<in> set (robots_table db)" for x
    using that dict_get_Some_iff [of "robots_table db" "fst x" "snd x"] by (auto simp: robots_table_ok_def)
  show "map rec_robot_id (list_robot_rows None db) = sort (dict_keys (robots_table db))" if "robots_table_ok (robots_table db)"
    unfolding sorted_keys [symmetric] using ids [OF that] by (simp add: list_robot_rows_def)
  have ids: "rec_task_id (snd x) = fst x" if "tasks_table_ok rs (tasks_table db)" "x \<in> set (tasks_table db)" for x
    using that dict_get_Some_iff [of "tasks_table db" "fst x" "snd x"] by (auto simp: tasks_table_ok_def task_entry_ok_def)
  show "map rec_task_id (list_task_rows None db) = sort (dict_keys (tasks_table db))" if "tasks_table_ok rs (tasks_table db)"
    unfolding sorted_keys [symmetric] using ids [OF that] by (simp add: list_task_rows_def)
qed

lemma free_reachable: "is_traversable sample_floor p \<Longrightarrow> reachable_cell p"
  unfolding sample_floor_traversable
  by (cases p) (auto simp: reachable_cell_def is_blocked_by_static_def sample_floor_def list_ex_iff in_bounds_def grid_in_bounds_def
      WAREHOUSE_ROWS_def WAREHOUSE_COLS_def Let_def)

lemma scenario_cells:
  "b \<in> set robot_bodies \<Longrightarrow> is_traversable sample_floor (Position (co_row (rb_position b)) (co_col (rb_position b)))"
  "t \<in> set task_bodies \<Longrightarrow> reachable_cell (Position (co_row (tb_pickup t)) (co_col (tb_pickup t)))"
  "t \<in> set task_bodies \<Longrightarrow> reachable_cell (Position (co_row (tb_dropoff t)) (co_col (tb_dropoff t)))"
  using free_reachable
  by (auto simp: robot_bodies_def fixed_robots_def task_bodies_def sample_floor_traversable RACK_ROWS_def RACK_COLS_def)

lemma scenario_store_ok: "store_ok (scenario_store db)"
proof -
  have f: "is_float (100 :: rat)" "is_float (10 :: rat)" "is_float (0 :: rat)" "is_float (3 :: rat)" "is_float (15 / 2 :: rat)" "is_float (2 :: rat)"
    by code_simp+
  have "robots_table_ok (robots_table (scenario_store db))"
    unfolding robots_table_ok_def using f
    by (auto simp: scenario_store_def robot_bodies_def fixed_robots_def robot_row_of_def given_def dict_ok_def robot_row_ok_def
        row_cell_def sample_floor_traversable RACK_ROWS_def RACK_COLS_def robot_status_of_def split: if_splits)
  moreover have "tasks_table_ok rs (tasks_table (scenario_store db))" for rs
    unfolding tasks_table_ok_def
  proof (intro conjI allI impI)
    show "dict_ok (tasks_table (scenario_store db))" by (simp add: scenario_store_def task_bodies_def dict_ok_def)
    fix i t assume "dict_get (tasks_table (scenario_store db)) i = Some t"
    then obtain b where b: "b \<in> set task_bodies" "i = tb_task_id b" "t = task_row_of b"
      by (auto simp: scenario_store_def dest!: map_of_SomeD)
    have "list_all (\<lambda>b. task_row_ok (task_row_of b)) task_bodies" by code_simp
    then have "task_row_ok t" using b by (simp add: list_all_iff)
    then show "task_entry_ok rs i t" using scenario_cells(2,3) [OF b(1)] by (simp add: b(2,3) task_entry_ok_def task_row_of_def)
  qed
  ultimately show ?thesis by (simp add: store_ok_def)
qed

section \<open>The contract of a client\<close>

text \<open>What a call that returns has done to the server: listing nothing, the others one change each.\<close>

definition on_fleet :: "(store \<Rightarrow> store) \<Rightarrow> server \<Rightarrow> server" where
  "on_fleet f sv = sv\<lparr>sv_store := f (sv_store sv)\<rparr>"

lemma fold_on_fleet: "fold (\<lambda>x. on_fleet (f x)) xs sv = sv\<lparr>sv_store := fold f xs (sv_store sv)\<rparr>"
  by (induction xs arbitrary: sv) (simp_all add: on_fleet_def)

locale fleet_client =
  fixes client :: "'s scenario_client" and server_of :: "'s \<Rightarrow> server"
  assumes list_robots_reads: "store_ok (sv_store (server_of s)) \<Longrightarrow> sc_list_robots client s = (Inr rs, s') \<Longrightarrow>
      server_of s' = server_of s \<and> map rd_robot_id rs = sort (dict_keys (robots_table (sv_store (server_of s))))"
    and list_tasks_reads: "store_ok (sv_store (server_of s)) \<Longrightarrow> sc_list_tasks client s = (Inr ts, s') \<Longrightarrow>
      server_of s' = server_of s \<and> map td_task_id ts = sort (dict_keys (tasks_table (sv_store (server_of s))))"
    and delete_robot_deletes: "sc_delete_robot client rid s = (Inr u, s') \<Longrightarrow>
      server_of s' = on_fleet (delete_robot_row rid) (server_of s)"
    and delete_task_deletes: "sc_delete_task client tid s = (Inr u, s') \<Longrightarrow>
      server_of s' = on_fleet (delete_task_row tid) (server_of s)"
    and create_robot_creates: "sc_create_robot client rb s = (Inr u, s') \<Longrightarrow>
      server_of s' = on_fleet (put_robot_row (robot_row_of rb)) (server_of s)"
    and create_task_creates: "sc_create_task client tb s = (Inr u, s') \<Longrightarrow>
      server_of s' = on_fleet (put_task_row (task_row_of tb)) (server_of s)"
begin

lemma each_effect:
  "act_each (\<lambda>t. sc_delete_task client (td_task_id t)) ts s = (Inr u, s') \<Longrightarrow>
     server_of s' = (server_of s)\<lparr>sv_store := fold delete_task_row (map td_task_id ts) (sv_store (server_of s))\<rparr>"
  "act_each (\<lambda>r. sc_delete_robot client (rd_robot_id r)) rs s = (Inr u, s') \<Longrightarrow>
     server_of s' = (server_of s)\<lparr>sv_store := fold delete_robot_row (map rd_robot_id rs) (sv_store (server_of s))\<rparr>"
  "act_each (sc_create_robot client) rbs s = (Inr u, s') \<Longrightarrow>
     server_of s' = (server_of s)\<lparr>sv_store := fold (\<lambda>b. put_robot_row (robot_row_of b)) rbs (sv_store (server_of s))\<rparr>"
  "act_each (sc_create_task client) tbs s = (Inr u, s') \<Longrightarrow>
     server_of s' = (server_of s)\<lparr>sv_store := fold (\<lambda>b. put_task_row (task_row_of b)) tbs (sv_store (server_of s))\<rparr>"
proof -
  show "act_each (\<lambda>t. sc_delete_task client (td_task_id t)) ts s = (Inr u, s') \<Longrightarrow>
      server_of s' = (server_of s)\<lparr>sv_store := fold delete_task_row (map td_task_id ts) (sv_store (server_of s))\<rparr>"
    using act_each_effect [where obs = server_of and g = "\<lambda>t. on_fleet (delete_task_row (td_task_id t))"] delete_task_deletes
    by (fastforce simp: fold_on_fleet fold_map comp_def)
  show "act_each (\<lambda>r. sc_delete_robot client (rd_robot_id r)) rs s = (Inr u, s') \<Longrightarrow>
      server_of s' = (server_of s)\<lparr>sv_store := fold delete_robot_row (map rd_robot_id rs) (sv_store (server_of s))\<rparr>"
    using act_each_effect [where obs = server_of and g = "\<lambda>r. on_fleet (delete_robot_row (rd_robot_id r))"] delete_robot_deletes
    by (fastforce simp: fold_on_fleet fold_map comp_def)
  show "act_each (sc_create_robot client) rbs s = (Inr u, s') \<Longrightarrow>
      server_of s' = (server_of s)\<lparr>sv_store := fold (\<lambda>b. put_robot_row (robot_row_of b)) rbs (sv_store (server_of s))\<rparr>"
    using act_each_effect [where obs = server_of and g = "\<lambda>b. on_fleet (put_robot_row (robot_row_of b))"] create_robot_creates
    by (fastforce simp: fold_on_fleet)
  show "act_each (sc_create_task client) tbs s = (Inr u, s') \<Longrightarrow>
      server_of s' = (server_of s)\<lparr>sv_store := fold (\<lambda>b. put_task_row (task_row_of b)) tbs (sv_store (server_of s))\<rparr>"
    using act_each_effect [where obs = server_of and g = "\<lambda>b. on_fleet (put_task_row (task_row_of b))"] create_task_creates
    by (fastforce simp: fold_on_fleet)
qed

lemma sync_exact:
  assumes "sync_persisted_scenario client s = (Inr y, s')" and ok: "store_ok (sv_store (server_of s))"
  shows "server_of s' = on_fleet scenario_store (server_of s)"
    "y = \<lparr>sy_robots = 4, sy_tasks = 3, sy_removed = stale_ids (sv_store (server_of s))\<rparr>"
proof -
  let ?db = "sv_store (server_of s)"
  obtain ts rs rs' ts' s1 s2 s3 s4 s5 s6 s7 where run:
    "sc_list_tasks client s = (Inr ts, s1)" "act_each (\<lambda>t. sc_delete_task client (td_task_id t)) ts s1 = (Inr (), s2)"
    "sc_list_robots client s2 = (Inr rs, s3)" "act_each (\<lambda>r. sc_delete_robot client (rd_robot_id r)) rs s3 = (Inr (), s4)"
    "act_each (sc_create_robot client) robot_bodies s4 = (Inr (), s5)" "act_each (sc_create_task client) task_bodies s5 = (Inr (), s6)"
    "sc_list_robots client s6 = (Inr rs', s7)" "sc_list_tasks client s7 = (Inr ts', s')"
    and y: "y = \<lparr>sy_robots = length rs', sy_tasks = length ts', sy_removed =
        sort (filter (\<lambda>i. i \<notin> set (map tb_task_id task_bodies)) (map td_task_id ts) @
              filter (\<lambda>i. i \<notin> set (map rb_robot_id robot_bodies)) (map rd_robot_id rs))\<rparr>"
    using assms(1) by (auto simp: sync_persisted_scenario_def Let_def act_bind_Inr)
  have tables: "robots_table_ok (robots_table ?db)" using ok by (simp add: store_ok_def)
  have 1: "server_of s1 = server_of s" "map td_task_id ts = sort (dict_keys (tasks_table ?db))"
    using list_tasks_reads [OF ok run(1)] by simp_all
  have 2: "server_of s2 = on_fleet (\<lambda>db. db\<lparr>tasks_table := []\<rparr>) (server_of s)"
    using each_effect(1) [OF run(2)] 1 by (simp add: delete_tasks on_fleet_def)
  have "store_ok (sv_store (server_of s2))" using ok by (simp add: 2 on_fleet_def store_ok_def tasks_table_ok_def)
  from list_robots_reads [OF this run(3)] have 3: "server_of s3 = server_of s2" "map rd_robot_id rs = sort (dict_keys (robots_table ?db))"
    by (simp_all add: 2 on_fleet_def)
  have 4: "server_of s4 = on_fleet (\<lambda>db. db\<lparr>robots_table := [], tasks_table := []\<rparr>) (server_of s)"
    using each_effect(2) [OF run(4)] 3 by (simp add: delete_robots 2 on_fleet_def)
  have 6: "server_of s6 = on_fleet scenario_store (server_of s)"
    using each_effect(4) [OF run(6)] each_effect(3) [OF run(5)] by (simp add: 4 on_fleet_def create_scenario) (simp add: scenario_store_def)
  then have ok6: "store_ok (sv_store (server_of s6))" by (simp add: on_fleet_def scenario_store_ok)
  from list_robots_reads [OF this run(7)] have 7: "server_of s7 = server_of s6" "length rs' = 4"
    using arg_cong [of "map rd_robot_id rs'" _ length] by (auto simp: 6 on_fleet_def scenario_store_def robot_bodies_def fixed_robots_def)
  with ok6 have "store_ok (sv_store (server_of s7))" by simp
  from list_tasks_reads [OF this run(8)] have 8: "server_of s' = server_of s6" "length ts' = 3"
    using arg_cong [of "map td_task_id ts'" _ length] by (auto simp: 7 6 on_fleet_def scenario_store_def task_bodies_def)
  show "server_of s' = on_fleet scenario_store (server_of s)" by (simp add: 8 6)
  show "y = \<lparr>sy_robots = 4, sy_tasks = 3, sy_removed = stale_ids ?db\<rparr>"
    unfolding y 7 8 1 3 stale_ids_def by (auto intro!: properties_for_sort)
qed

end

section \<open>A client whose calls return\<close>

lemma dict_keys_del: "set (dict_keys (dict_del k d)) = set (dict_keys d) - {k}"
  by (force simp: set_dict_del)

definition robot_from_body :: "robot_create \<Rightarrow> store \<Rightarrow> (service_error + robot_record) \<times> store" where
  "robot_from_body b = create_robot (rb_robot_id b) (co_row (rb_position b)) (co_col (rb_position b))
     (given (rb_battery_level b) 100) (given (rb_payload_capacity b) 10) (given (rb_current_payload b) 0)
     (given (rb_status b) ''idle'')"

definition task_from_body :: "task_create \<Rightarrow> store \<Rightarrow> (service_error + task_record) \<times> store" where
  "task_from_body t = create_task (tb_task_id t) (co_row (tb_pickup t)) (co_col (tb_pickup t))
     (co_row (tb_dropoff t)) (co_col (tb_dropoff t)) (given (tb_priority t) ''normal'') (given (tb_payload_weight t) 1)"

text \<open>The robots and tasks of the scenario are accepted one after the other.\<close>

lemma scenario_robot_accepted:
  assumes "robot_bodies = bs @ b # rest" "robots_table db = map (\<lambda>b. (rb_robot_id b, robot_row_of b)) bs"
  shows "robot_create_valid b" "\<exists>r. fst (robot_from_body b db) = Inr r"
proof -
  have b: "b \<in> set robot_bodies" by (simp add: assms(1))
  have "list_all robot_create_valid robot_bodies" by code_simp
  then show "robot_create_valid b" using b by (simp add: list_all_iff)
  have "distinct (map rb_robot_id robot_bodies)" "distinct (map rb_position robot_bodies)" by code_simp+
  then have new: "rb_robot_id b \<notin> rb_robot_id ` set bs" "rb_position b \<notin> rb_position ` set bs" by (simp_all add: assms(1))
  have "rb_position x \<noteq> rb_position b" if "x \<in> set bs" for x using new(2) that by (metis imageI)
  then have cell: "(co_row (rb_position x), co_col (rb_position x)) \<noteq> (co_row (rb_position b), co_col (rb_position b))"
    if "x \<in> set bs" for x using that by fastforce
  have "dict_get (robots_table db) (rb_robot_id b) = None"
    unfolding assms(2) dict_get_None_iff using new(1) by force
  moreover have "require_placeable (Position (co_row (rb_position b)) (co_col (rb_position b))) None db = Inr ()"
    using scenario_cells(1) [OF b] cell
    by (auto simp: require_placeable_def list_robot_rows_def assms(2) list_ex_iff robot_row_of_def dest: is_traversable_in_bounds)
  moreover have "list_all (\<lambda>b. \<not> isl (as_domain (rb_robot_id b) (Position (co_row (rb_position b)) (co_col (rb_position b)))
      (given (rb_battery_level b) 100) (given (rb_payload_capacity b) 10) (given (rb_current_payload b) 0)
      (given (rb_status b) ''idle''))) robot_bodies" by code_simp
  then have "\<not> isl (as_domain (rb_robot_id b) (Position (co_row (rb_position b)) (co_col (rb_position b)))
      (given (rb_battery_level b) 100) (given (rb_payload_capacity b) 10) (given (rb_current_payload b) 0)
      (given (rb_status b) ''idle''))" using b by (simp add: list_all_iff)
  ultimately show "\<exists>r. fst (robot_from_body b db) = Inr r"
    by (auto simp: robot_from_body_def create_robot_def Let_def split: sum.split)
qed

lemma scenario_task_accepted:
  assumes "task_bodies = bs @ b # rest" "tasks_table db = map (\<lambda>b. (tb_task_id b, task_row_of b)) bs"
  shows "task_create_valid b" "\<exists>r. fst (task_from_body b db) = Inr r"
proof -
  have b: "b \<in> set task_bodies" by (simp add: assms(1))
  have "list_all task_create_valid task_bodies" by code_simp
  then show "task_create_valid b" using b by (simp add: list_all_iff)
  have "distinct (map tb_task_id task_bodies)" by code_simp
  then have "tb_task_id b \<notin> tb_task_id ` set bs" by (simp add: assms(1))
  then have "dict_get (tasks_table db) (tb_task_id b) = None" unfolding assms(2) dict_get_None_iff by force
  moreover have "require_reachable_endpoint (Position (co_row (tb_pickup b)) (co_col (tb_pickup b))) = Inr ()"
    "require_reachable_endpoint (Position (co_row (tb_dropoff b)) (co_col (tb_dropoff b))) = Inr ()"
    using scenario_cells(2,3) [OF b] by (simp_all add: require_reachable_endpoint_def reachable_cell_def)
  moreover have "list_all (\<lambda>b. case priority_named (str_upper (given (tb_priority b) ''normal'')) of None \<Rightarrow> False | Some p \<Rightarrow>
      \<not> isl (reject_value (task_post_init (fresh_task (tb_task_id b) (Position (co_row (tb_pickup b)) (co_col (tb_pickup b)))
        (Position (co_row (tb_dropoff b)) (co_col (tb_dropoff b))) p (given (tb_payload_weight b) 1))))) task_bodies" by code_simp
  then have "case priority_named (str_upper (given (tb_priority b) ''normal'')) of None \<Rightarrow> False | Some p \<Rightarrow>
      \<not> isl (reject_value (task_post_init (fresh_task (tb_task_id b) (Position (co_row (tb_pickup b)) (co_col (tb_pickup b)))
        (Position (co_row (tb_dropoff b)) (co_col (tb_dropoff b))) p (given (tb_payload_weight b) 1))))" using b by (simp add: list_all_iff)
  ultimately show "\<exists>r. fst (task_from_body b db) = Inr r"
    by (auto simp: task_from_body_def create_task_def Let_def isl_def res_bind_Inl split: sum.split option.splits)
qed

locale willing_client = fleet_client client server_of
  for client :: "'s scenario_client" and server_of :: "'s \<Rightarrow> server" +
  fixes ready :: "'s \<Rightarrow> bool"
  assumes ready_ok: "ready s \<Longrightarrow> store_ok (sv_store (server_of s))"
    and list_robots_returns: "ready s \<Longrightarrow> \<exists>rs s'. sc_list_robots client s = (Inr rs, s') \<and> ready s'"
    and list_tasks_returns: "ready s \<Longrightarrow> \<exists>ts s'. sc_list_tasks client s = (Inr ts, s') \<and> ready s'"
    and delete_robot_returns: "ready s \<Longrightarrow> rid \<in> set (dict_keys (robots_table (sv_store (server_of s)))) \<Longrightarrow>
      \<exists>s'. sc_delete_robot client rid s = (Inr (), s') \<and> ready s'"
    and delete_task_returns: "ready s \<Longrightarrow> tid \<in> set (dict_keys (tasks_table (sv_store (server_of s)))) \<Longrightarrow>
      \<exists>s'. sc_delete_task client tid s = (Inr (), s') \<and> ready s'"
    and create_robot_returns: "ready s \<Longrightarrow> robot_create_valid rb \<Longrightarrow> fst (robot_from_body rb (sv_store (server_of s))) = Inr r \<Longrightarrow>
      \<exists>s'. sc_create_robot client rb s = (Inr (), s') \<and> ready s'"
    and create_task_returns: "ready s \<Longrightarrow> task_create_valid tb \<Longrightarrow> fst (task_from_body tb (sv_store (server_of s))) = Inr t \<Longrightarrow>
      \<exists>s'. sc_create_task client tb s = (Inr (), s') \<and> ready s'"
begin

lemma deletes_tasks:
  fixes ts :: "task_read list"
  assumes "ready s" "distinct (map td_task_id ts)" "set (map td_task_id ts) \<subseteq> set (dict_keys (tasks_table (sv_store (server_of s))))"
  shows "\<exists>s'. act_each (\<lambda>t. sc_delete_task client (td_task_id t)) ts s = (Inr (), s') \<and> ready s'"
proof -
  let ?I = "\<lambda>(ts :: task_read list) s. ready s \<and> distinct (map td_task_id ts) \<and>
    set (map td_task_id ts) \<subseteq> set (dict_keys (tasks_table (sv_store (server_of s))))"
  have "\<exists>s'. act_each (\<lambda>t. sc_delete_task client (td_task_id t)) ts s = (Inr (), s') \<and> ?I [] s'"
  proof (rule act_each_returns [where I = ?I])
    fix t ts s assume i: "?I (t # ts) s"
    then obtain s' where s': "sc_delete_task client (td_task_id t) s = (Inr (), s')" "ready s'"
      using delete_task_returns [of s "td_task_id t"] by auto
    have e: "tasks_table (sv_store (server_of s')) = dict_del (td_task_id t) (tasks_table (sv_store (server_of s)))"
      by (simp add: delete_task_deletes [OF s'(1)] on_fleet_def delete_task_row_def)
    have "td_task_id t \<notin> set (map td_task_id ts)" "set (map td_task_id ts) \<subseteq> set (dict_keys (tasks_table (sv_store (server_of s))))"
      using i by simp_all
    then have "set (map td_task_id ts) \<subseteq> set (dict_keys (tasks_table (sv_store (server_of s'))))"
      unfolding e dict_keys_del by blast
    then show "\<exists>s'. sc_delete_task client (td_task_id t) s = (Inr (), s') \<and> ?I ts s'" using s' i by auto
  qed (use assms in simp)
  then show ?thesis by blast
qed

lemma deletes_robots:
  fixes rs :: "robot_read list"
  assumes "ready s" "distinct (map rd_robot_id rs)" "set (map rd_robot_id rs) \<subseteq> set (dict_keys (robots_table (sv_store (server_of s))))"
  shows "\<exists>s'. act_each (\<lambda>r. sc_delete_robot client (rd_robot_id r)) rs s = (Inr (), s') \<and> ready s'"
proof -
  let ?I = "\<lambda>(rs :: robot_read list) s. ready s \<and> distinct (map rd_robot_id rs) \<and>
    set (map rd_robot_id rs) \<subseteq> set (dict_keys (robots_table (sv_store (server_of s))))"
  have "\<exists>s'. act_each (\<lambda>r. sc_delete_robot client (rd_robot_id r)) rs s = (Inr (), s') \<and> ?I [] s'"
  proof (rule act_each_returns [where I = ?I])
    fix r rs s assume i: "?I (r # rs) s"
    then obtain s' where s': "sc_delete_robot client (rd_robot_id r) s = (Inr (), s')" "ready s'"
      using delete_robot_returns [of s "rd_robot_id r"] by auto
    have e: "robots_table (sv_store (server_of s')) = dict_del (rd_robot_id r) (robots_table (sv_store (server_of s)))"
      by (simp add: delete_robot_deletes [OF s'(1)] on_fleet_def delete_robot_row_def)
    have "rd_robot_id r \<notin> set (map rd_robot_id rs)" "set (map rd_robot_id rs) \<subseteq> set (dict_keys (robots_table (sv_store (server_of s))))"
      using i by simp_all
    then have "set (map rd_robot_id rs) \<subseteq> set (dict_keys (robots_table (sv_store (server_of s'))))"
      unfolding e dict_keys_del by blast
    then show "\<exists>s'. sc_delete_robot client (rd_robot_id r) s = (Inr (), s') \<and> ?I rs s'" using s' i by auto
  qed (use assms in simp)
  then show ?thesis by blast
qed

lemma creates_robots:
  assumes "ready s" "robots_table (sv_store (server_of s)) = []" "tasks_table (sv_store (server_of s)) = []"
  shows "\<exists>s'. act_each (sc_create_robot client) robot_bodies s = (Inr (), s') \<and> ready s' \<and> tasks_table (sv_store (server_of s')) = []"
proof -
  let ?rows = "map (\<lambda>b. (rb_robot_id b, robot_row_of b))"
  let ?I = "\<lambda>todo s. ready s \<and> tasks_table (sv_store (server_of s)) = [] \<and>
    (\<exists>bs. robot_bodies = bs @ todo \<and> robots_table (sv_store (server_of s)) = ?rows bs)"
  have "\<exists>s'. act_each (sc_create_robot client) robot_bodies s = (Inr (), s') \<and> ?I [] s'"
  proof (rule act_each_returns [where I = ?I])
    fix b todo s assume "?I (b # todo) s"
    then obtain bs where i: "ready s" "tasks_table (sv_store (server_of s)) = []" "robot_bodies = bs @ b # todo"
      "robots_table (sv_store (server_of s)) = ?rows bs" by blast
    obtain s' where s': "sc_create_robot client b s = (Inr (), s')" "ready s'"
      using create_robot_returns [OF i(1)] scenario_robot_accepted [OF i(3,4)] by blast
    have "distinct (map rb_robot_id robot_bodies)" by code_simp
    then have "dict_get (?rows bs) (rb_robot_id b) = None" unfolding dict_get_None_iff i(3) by force
    then have "robots_table (sv_store (server_of s')) = ?rows (bs @ [b])" "tasks_table (sv_store (server_of s')) = []"
      by (simp_all add: create_robot_creates [OF s'(1)] on_fleet_def put_robot_row_def i(2,4) dict_set_new robot_row_of_def)
    then show "\<exists>s'. sc_create_robot client b s = (Inr (), s') \<and> ?I todo s'"
      using s' i(3) by (intro exI [of _ s']) (auto intro!: exI [of _ "bs @ [b]"])
  qed (use assms in simp)
  then show ?thesis by blast
qed

lemma creates_tasks:
  assumes "ready s" "tasks_table (sv_store (server_of s)) = []"
  shows "\<exists>s'. act_each (sc_create_task client) task_bodies s = (Inr (), s') \<and> ready s'"
proof -
  let ?rows = "map (\<lambda>b. (tb_task_id b, task_row_of b))"
  let ?I = "\<lambda>todo s. ready s \<and> (\<exists>bs. task_bodies = bs @ todo \<and> tasks_table (sv_store (server_of s)) = ?rows bs)"
  have "\<exists>s'. act_each (sc_create_task client) task_bodies s = (Inr (), s') \<and> ?I [] s'"
  proof (rule act_each_returns [where I = ?I])
    fix b todo s assume "?I (b # todo) s"
    then obtain bs where i: "ready s" "task_bodies = bs @ b # todo" "tasks_table (sv_store (server_of s)) = ?rows bs" by blast
    obtain s' where s': "sc_create_task client b s = (Inr (), s')" "ready s'"
      using create_task_returns [OF i(1)] scenario_task_accepted [OF i(2,3)] by blast
    have "distinct (map tb_task_id task_bodies)" by code_simp
    then have "dict_get (?rows bs) (tb_task_id b) = None" unfolding dict_get_None_iff i(2) by force
    then have "tasks_table (sv_store (server_of s')) = ?rows (bs @ [b])"
      by (simp add: create_task_creates [OF s'(1)] on_fleet_def put_task_row_def i(3) dict_set_new task_row_of_def)
    then show "\<exists>s'. sc_create_task client b s = (Inr (), s') \<and> ?I todo s'"
      using s' i(2) by (intro exI [of _ s']) (auto intro!: exI [of _ "bs @ [b]"])
  qed (use assms in simp)
  then show ?thesis by blast
qed

lemma sync_returns:
  assumes "ready s"
  shows "\<exists>y s'. sync_persisted_scenario client s = (Inr y, s') \<and> ready s'"
proof -
  obtain ts s1 where 1: "sc_list_tasks client s = (Inr ts, s1)" "ready s1" using list_tasks_returns [OF assms] by blast
  note r1 = list_tasks_reads [OF ready_ok [OF assms] 1(1)]
  have "distinct (map td_task_id ts)" "set (map td_task_id ts) \<subseteq> set (dict_keys (tasks_table (sv_store (server_of s1))))"
    using r1 ready_ok [OF assms] by (auto simp: store_ok_def tasks_table_ok_def dict_ok_def)
  from deletes_tasks [OF 1(2) this] obtain s2 where
    2: "act_each (\<lambda>t. sc_delete_task client (td_task_id t)) ts s1 = (Inr (), s2)" "ready s2" by blast
  have e2: "tasks_table (sv_store (server_of s2)) = []" using each_effect(1) [OF 2(1)] r1 by (simp add: delete_tasks)
  obtain rs s3 where 3: "sc_list_robots client s2 = (Inr rs, s3)" "ready s3" using list_robots_returns [OF 2(2)] by blast
  note r3 = list_robots_reads [OF ready_ok [OF 2(2)] 3(1)]
  have "distinct (map rd_robot_id rs)" "set (map rd_robot_id rs) \<subseteq> set (dict_keys (robots_table (sv_store (server_of s3))))"
    using r3 ready_ok [OF 2(2)] by (auto simp: store_ok_def robots_table_ok_def dict_ok_def)
  from deletes_robots [OF 3(2) this] obtain s4 where
    4: "act_each (\<lambda>r. sc_delete_robot client (rd_robot_id r)) rs s3 = (Inr (), s4)" "ready s4" by blast
  have e4: "robots_table (sv_store (server_of s4)) = []" "tasks_table (sv_store (server_of s4)) = []"
    using each_effect(2) [OF 4(1)] r3 e2 by (simp_all add: delete_robots)
  obtain s5 where 5: "act_each (sc_create_robot client) robot_bodies s4 = (Inr (), s5)" "ready s5" "tasks_table (sv_store (server_of s5)) = []"
    using creates_robots [OF 4(2) e4] by blast
  obtain s6 where 6: "act_each (sc_create_task client) task_bodies s5 = (Inr (), s6)" "ready s6" using creates_tasks [OF 5(2,3)] by blast
  obtain rs' s7 where 7: "sc_list_robots client s6 = (Inr rs', s7)" "ready s7" using list_robots_returns [OF 6(2)] by blast
  obtain ts' s8 where 8: "sc_list_tasks client s7 = (Inr ts', s8)" "ready s8" using list_tasks_returns [OF 7(2)] by blast
  show ?thesis using 8(2) by (simp add: sync_persisted_scenario_def Let_def act_bind_def act_return_def 1(1) 2(1) 3(1) 4(1) 5(1) 6(1) 7(1) 8(1))
qed

end

section \<open>The HTTP client\<close>

lemma client_request_Inr:
  assumes "client_request env net True q dk = (Inr payload, dk')"
  obtains resp where "serve env (mo_now (net (dk_calls dk))) (mo_salt (net (dk_calls dk))) (headers (dk_token dk)) q (dk_server dk) =
      (resp, dk_server dk')" "http_status resp < 400" "payload = (if http_status resp = 204 then None else Some (http_body resp))"
  using assms by (auto simp: client_request_def Let_def split: if_splits prod.splits)

lemma find_no_domain [simp]: "find_robot rid db \<noteq> Inl Domain_Failure" "find_task tid db \<noteq> Inl Domain_Failure"
  by (simp_all add: find_robot_def find_task_def split: option.split)

lemma schema_no_domain [simp]: "robot_read_of r \<noteq> Inl Domain_Failure" "task_read_of t \<noteq> Inl Domain_Failure"
  by (auto simp: robot_read_of_def task_read_of_def coord_at_def res_bind_Inl split: if_splits)

lemma create_no_domain [simp]:
  "fst (create_robot rid r c battery capacity payload status db) \<noteq> Inl Domain_Failure"
  "fst (create_task tid pr pc dr dc prio weight db) \<noteq> Inl Domain_Failure"
  by (auto simp: create_robot_def create_task_def as_domain_def require_placeable_def require_reachable_endpoint_def reject_value_def
      Let_def res_bind_Inl split: sum.splits option.splits if_splits)

text \<open>A request of these kinds that is not answered with an error has been handled.\<close>

definition fleet_request :: "api_request \<Rightarrow> bool" where
  "fleet_request q = (case q of Post_Robot _ \<Rightarrow> True | Get_Robots None \<Rightarrow> True | Delete_Robot _ \<Rightarrow> True
     | Post_Task _ \<Rightarrow> True | Get_Tasks None \<Rightarrow> True | Delete_Task _ \<Rightarrow> True | _ \<Rightarrow> False)"

lemma reply_with_Inl: "fst (reply_with status body_of (on_store f sv)) = Inl e \<longleftrightarrow>
    fst (f (sv_store sv)) = Inl e \<or> (\<exists>x. fst (f (sv_store sv)) = Inr x \<and> body_of x = Inl e)"
  by (cases "f (sv_store sv)") (auto simp: reply_with_def on_store_def res_bind_Inl res_bind_Inr)

lemma reply_with_eq: "reply_with status body_of (on_store f sv) = (Inr (n, b), sv') \<longleftrightarrow>
    (\<exists>x. fst (f (sv_store sv)) = Inr x \<and> body_of x = Inr b) \<and> n = status \<and> sv' = sv\<lparr>sv_store := snd (f (sv_store sv))\<rparr>"
  by (cases "f (sv_store sv)") (auto simp: reply_with_def on_store_def res_bind_Inr)

lemma map_sum_id_eq: "map_sum id g x = Inl e \<longleftrightarrow> x = Inl e" "map_sum id g x = Inr b \<longleftrightarrow> (\<exists>y. x = Inr y \<and> b = g y)"
  by (cases x; auto)+

lemma read_ids:
  "res_map robot_read_of rs = Inr bs \<Longrightarrow> map rd_robot_id bs = map rec_robot_id rs"
  "res_map task_read_of ts = Inr ds \<Longrightarrow> map td_task_id ds = map rec_task_id ts"
proof -
  show "res_map robot_read_of rs = Inr bs \<Longrightarrow> map rd_robot_id bs = map rec_robot_id rs"
    by (induction rs arbitrary: bs) (auto simp: res_bind_Inr robot_read_of_def)
  show "res_map task_read_of ts = Inr ds \<Longrightarrow> map td_task_id ds = map rec_task_id ts"
    by (induction ts arbitrary: ds) (auto simp: res_bind_Inr task_read_of_def)
qed

lemmas fleet_endpoint_defs = post_robot_def post_task_def get_robots_def get_tasks_def delete_robot_by_id_def delete_task_by_id_def

lemma fleet_no_domain:
  assumes "fleet_request q"
  shows "fst (handle env now salt user q sv) \<noteq> Inl Domain_Failure"
proof -
  have lists: "res_map robot_read_of rs \<noteq> Inl Domain_Failure" "res_map task_read_of ts \<noteq> Inl Domain_Failure" for rs ts
    using res_map_Inl [of robot_read_of rs Domain_Failure] res_map_Inl [of task_read_of ts Domain_Failure] by auto
  show ?thesis using assms lists
    by (cases q) (auto simp: fleet_request_def fleet_endpoint_defs reply_with_Inl map_sum_id_eq reading_def list_robots_def
      list_tasks_def delete_robot_def delete_task_def res_bind_Inl split: option.splits sum.splits)
qed

lemma fleet_answered:
  assumes "serve env now salt credentials q sv = (resp, sv')" "http_status resp < 400" "fleet_request q"
  obtains user where "handle env now salt user q sv = (Inr (http_status resp, http_body resp), sv')" "body_valid q"
  using assms(1)
proof (cases rule: serve_cases)
  case (refused e)
  then show ?thesis using assms(2) admit_Inl [OF refused(1)] by (auto simp: error_response_def)
next
  case (invalid user)
  then show ?thesis using assms(2) by (simp add: invalid_body_response_def)
next
  case (failed user e)
  then have "e = Domain_Failure" using assms(2) by (cases e) (auto simp: error_response_def split: if_splits)
  then show ?thesis using failed(3) fleet_no_domain [OF assms(3)] by simp
next
  case (answered user status b)
  then show ?thesis using that by simp
qed

lemma http_call:
  assumes "client_request env net True q dk = (Inr payload, dk')" "fleet_request q"
  obtains now salt user status b where "handle env now salt user q (dk_server dk) = (Inr (status, b), dk_server dk')"
    "payload = (if status = 204 then None else Some b)" "body_valid q"
proof -
  obtain resp where r: "serve env (mo_now (net (dk_calls dk))) (mo_salt (net (dk_calls dk))) (headers (dk_token dk)) q (dk_server dk) =
      (resp, dk_server dk')" "http_status resp < 400" "payload = (if http_status resp = 204 then None else Some (http_body resp))"
    by (rule client_request_Inr [OF assms(1)])
  show thesis by (rule fleet_answered [OF r(1,2) assms(2)]) (rule that [OF _ r(3)])
qed

text \<open>What each call of the scenario does when it returns.\<close>

lemma http_robot_rows:
  assumes "client_list_robots env net None dk = (Inr rs, dk')"
  shows "dk_server dk' = dk_server dk" "res_map robot_read_of (list_robot_rows None (sv_store (dk_server dk))) = Inr rs"
proof -
  obtain payload where p: "client_request env net True (Get_Robots None) dk = (Inr payload, dk')" "Option.bind payload robots_of = Some rs"
    using assms(1) by (auto simp: client_list_robots_def fetch_def act_bind_Inr split: option.splits)
  obtain now salt user status b where h: "handle env now salt user (Get_Robots None) (dk_server dk) = (Inr (status, b), dk_server dk')"
    "payload = (if status = 204 then None else Some b)"
    by (rule http_call [OF p(1)]) (simp add: fleet_request_def)
  show "dk_server dk' = dk_server dk" "res_map robot_read_of (list_robot_rows None (sv_store (dk_server dk))) = Inr rs"
    using h p(2) by (auto simp: get_robots_def reply_with_eq reading_def list_robots_def res_bind_Inr)
qed

lemma http_list_robots:
  assumes "client_list_robots env net None dk = (Inr rs, dk')" "store_ok (sv_store (dk_server dk))"
  shows "dk_server dk' = dk_server dk \<and> map rd_robot_id rs = sort (dict_keys (robots_table (sv_store (dk_server dk))))"
  using http_robot_rows [OF assms(1)] read_ids(1) listed_keys(1) assms(2) by (auto simp: store_ok_def)

lemma http_task_rows:
  assumes "client_list_tasks env net None dk = (Inr ts, dk')"
  shows "dk_server dk' = dk_server dk" "res_map task_read_of (list_task_rows None (sv_store (dk_server dk))) = Inr ts"
proof -
  obtain payload where p: "client_request env net True (Get_Tasks None) dk = (Inr payload, dk')" "Option.bind payload tasks_of = Some ts"
    using assms(1) by (auto simp: client_list_tasks_def fetch_def act_bind_Inr split: option.splits)
  obtain now salt user status b where h: "handle env now salt user (Get_Tasks None) (dk_server dk) = (Inr (status, b), dk_server dk')"
    "payload = (if status = 204 then None else Some b)"
    by (rule http_call [OF p(1)]) (simp add: fleet_request_def)
  show "dk_server dk' = dk_server dk" "res_map task_read_of (list_task_rows None (sv_store (dk_server dk))) = Inr ts"
    using h p(2) by (auto simp: get_tasks_def reply_with_eq reading_def list_tasks_def res_bind_Inr)
qed

lemma http_list_tasks:
  assumes "client_list_tasks env net None dk = (Inr ts, dk')" "store_ok (sv_store (dk_server dk))"
  shows "dk_server dk' = dk_server dk \<and> map td_task_id ts = sort (dict_keys (tasks_table (sv_store (dk_server dk))))"
  using http_task_rows [OF assms(1)] read_ids(2) listed_keys(2) assms(2) by (auto simp: store_ok_def)

lemma ignoring_Inr: "ignoring m dk = (Inr u, dk') \<longleftrightarrow> (\<exists>payload. m dk = (Inr payload, dk'))"
  by (auto simp: ignoring_def act_bind_Inr)

lemma create_robot_row_of:
  assumes "fst (create_robot rid r c battery capacity payload status db) = Inr rec"
  shows "snd (create_robot rid r c battery capacity payload status db) = put_robot_row rec db"
  using assms by (auto simp: create_robot_def Let_def split: sum.splits if_splits)

lemma created_task:
  assumes "fst (create_task tid pr pc dr dc prio weight db) = Inr rec" "priority_valid prio"
  shows "snd (create_task tid pr pc dr dc prio weight db) = put_task_row rec db"
    "rec = \<lparr>rec_task_id = tid, rec_pickup_row = pr, rec_pickup_col = pc, rec_dropoff_row = dr, rec_dropoff_col = dc,
       rec_priority = prio, rec_payload_weight = weight, rec_task_status = ''pending'', rec_assigned_robot_id = None,
       rec_failure_reason = None\<rparr>"
proof -
  obtain q where "prio = str_lower (priority_name q)"
    using assms(2) by (auto simp: priority_valid_def simp del: priority_name.simps)
  then have v: "str_lower (priority_name p) = prio" if "priority_named (str_upper prio) = Some p" for p using that by simp
  show "snd (create_task tid pr pc dr dc prio weight db) = put_task_row rec db"
    "rec = \<lparr>rec_task_id = tid, rec_pickup_row = pr, rec_pickup_col = pc, rec_dropoff_row = dr, rec_dropoff_col = dc,
       rec_priority = prio, rec_payload_weight = weight, rec_task_status = ''pending'', rec_assigned_robot_id = None,
       rec_failure_reason = None\<rparr>"
    using assms(1) v by (auto simp: create_task_def Let_def res_bind_Inr split: sum.splits if_splits option.splits)
qed

lemma http_changes:
  "client_delete_robot env net rid dk = (Inr u, dk') \<Longrightarrow> dk_server dk' = on_fleet (delete_robot_row rid) (dk_server dk)"
  "client_delete_task env net tid dk = (Inr u, dk') \<Longrightarrow> dk_server dk' = on_fleet (delete_task_row tid) (dk_server dk)"
  "ignoring (client_create_robot env net b) dk = (Inr u, dk') \<Longrightarrow> dk_server dk' = on_fleet (put_robot_row (robot_row_of b)) (dk_server dk)"
  "ignoring (client_create_task env net t) dk = (Inr u, dk') \<Longrightarrow> dk_server dk' = on_fleet (put_task_row (task_row_of t)) (dk_server dk)"
proof -
  let ?db = "sv_store (dk_server dk)"
  show "dk_server dk' = on_fleet (delete_robot_row rid) (dk_server dk)" if ret: "client_delete_robot env net rid dk = (Inr u, dk')"
  proof -
    obtain payload where "client_request env net True (Delete_Robot rid) dk = (Inr payload, dk')"
      using ret unfolding client_delete_robot_def ignoring_Inr by blast
    then obtain now salt user status b where call: "handle env now salt user (Delete_Robot rid) (dk_server dk) = (Inr (status, b), dk_server dk')"
      "body_valid (Delete_Robot rid)" by (rule http_call) (simp add: fleet_request_def)
    from call show ?thesis
      by (auto simp: fleet_request_def fleet_endpoint_defs reply_with_eq delete_robot_def on_fleet_def split: sum.splits)
  qed
  show "dk_server dk' = on_fleet (delete_task_row tid) (dk_server dk)" if ret: "client_delete_task env net tid dk = (Inr u, dk')"
  proof -
    obtain payload where "client_request env net True (Delete_Task tid) dk = (Inr payload, dk')"
      using ret unfolding client_delete_task_def ignoring_Inr by blast
    then obtain now salt user status b where call: "handle env now salt user (Delete_Task tid) (dk_server dk) = (Inr (status, b), dk_server dk')"
      "body_valid (Delete_Task tid)" by (rule http_call) (simp add: fleet_request_def)
    from call show ?thesis
      by (auto simp: fleet_request_def fleet_endpoint_defs reply_with_eq delete_task_def on_fleet_def split: sum.splits)
  qed
  show "dk_server dk' = on_fleet (put_robot_row (robot_row_of b)) (dk_server dk)"
    if ret: "ignoring (client_create_robot env net b) dk = (Inr u, dk')"
  proof -
    obtain payload where "client_request env net True (Post_Robot b) dk = (Inr payload, dk')"
      using ret unfolding client_create_robot_def ignoring_Inr by blast
    then obtain now salt user status x where call: "handle env now salt user (Post_Robot b) (dk_server dk) = (Inr (status, x), dk_server dk')"
      "body_valid (Post_Robot b)" by (rule http_call) (simp add: fleet_request_def)
    from call obtain r where "fst (create_robot (rb_robot_id b) (co_row (rb_position b)) (co_col (rb_position b))
        (given (rb_battery_level b) 100) (given (rb_payload_capacity b) 10) (given (rb_current_payload b) 0)
        (given (rb_status b) ''idle'') ?db) = Inr r"
      "dk_server dk' = (dk_server dk)\<lparr>sv_store := snd (create_robot (rb_robot_id b) (co_row (rb_position b)) (co_col (rb_position b))
        (given (rb_battery_level b) 100) (given (rb_payload_capacity b) 10) (given (rb_current_payload b) 0)
        (given (rb_status b) ''idle'') ?db)\<rparr>"
      by (auto simp: fleet_request_def post_robot_def reply_with_eq)
    then show ?thesis using create_robot_record create_robot_row_of by (simp add: on_fleet_def robot_row_of_def)
  qed
  show "dk_server dk' = on_fleet (put_task_row (task_row_of t)) (dk_server dk)"
    if ret: "ignoring (client_create_task env net t) dk = (Inr u, dk')"
  proof -
    obtain payload where "client_request env net True (Post_Task t) dk = (Inr payload, dk')"
      using ret unfolding client_create_task_def ignoring_Inr by blast
    then obtain now salt user status x where call: "handle env now salt user (Post_Task t) (dk_server dk) = (Inr (status, x), dk_server dk')"
      "body_valid (Post_Task t)" by (rule http_call) (simp add: fleet_request_def)
    from call obtain r where "fst (create_task (tb_task_id t) (co_row (tb_pickup t)) (co_col (tb_pickup t))
        (co_row (tb_dropoff t)) (co_col (tb_dropoff t)) (given (tb_priority t) ''normal'') (given (tb_payload_weight t) 1) ?db) = Inr r"
      "dk_server dk' = (dk_server dk)\<lparr>sv_store := snd (create_task (tb_task_id t) (co_row (tb_pickup t)) (co_col (tb_pickup t))
        (co_row (tb_dropoff t)) (co_col (tb_dropoff t)) (given (tb_priority t) ''normal'') (given (tb_payload_weight t) 1) ?db)\<rparr>"
      "task_create_valid t"
      by (auto simp: fleet_request_def post_task_def reply_with_eq)
    moreover have "priority_valid ''normal''" by code_simp
    then have "priority_valid (given (tb_priority t) ''normal'')"
      using calculation(3) optional_given by (auto simp: task_create_valid_def simp del: One_nat_def)
    ultimately show ?thesis using created_task by (simp add: on_fleet_def task_row_of_def)
  qed
qed

lemma admit_less: "admit env now credentials (At_Least Operator) users = Inr u \<Longrightarrow>
    \<exists>v. admit env now credentials (At_Least Viewer) users = Inr v"
  by (auto simp: admit_def require_role_def res_bind_Inr role_satisfies_def split: if_splits option.splits)

text \<open>The network delivers every call and the token of the session is good for an operator at all times.\<close>

definition online :: "environment \<Rightarrow> network \<Rightarrow> desk \<Rightarrow> bool" where
  "online env net dk \<longleftrightarrow> (\<forall>n. mo_delivery (net n) = Delivered \<and>
     \<not> isl (admit env (mo_now (net n)) (headers (dk_token dk)) (At_Least Operator) (sv_users (dk_server dk))))"

lemma online_same: "dk_token dk' = dk_token dk \<Longrightarrow> sv_users (dk_server dk') = sv_users (dk_server dk) \<Longrightarrow>
    online env net dk' = online env net dk"
  by (simp add: online_def)

lemma http_served:
  assumes "online env net dk" "guard_of q \<in> {At_Least Operator, At_Least Viewer}" "body_valid q"
    and "\<And>now salt user. handle env now salt user q (dk_server dk) = (Inr (status, b), sv)" "status < 400"
  shows "client_request env net True q dk =
    (Inr (if status = 204 then None else Some b), dk\<lparr>dk_calls := Suc (dk_calls dk), dk_server := sv\<rparr>)"
proof -
  let ?mo = "net (dk_calls dk)"
  obtain u where "admit env (mo_now ?mo) (headers (dk_token dk)) (At_Least Operator) (sv_users (dk_server dk)) = Inr u"
    using assms(1) by (auto simp: online_def isl_def) (metis sum.exhaust)
  then obtain v where "admit env (mo_now ?mo) (headers (dk_token dk)) (guard_of q) (sv_users (dk_server dk)) = Inr v"
    using assms(2) admit_less by fastforce
  then have "serve env (mo_now ?mo) (mo_salt ?mo) (headers (dk_token dk)) q (dk_server dk) =
      (\<lparr>http_status = status, http_body = b, http_challenge = False\<rparr>, sv)"
    using assms(3,4) by (simp add: serve_def in_transaction_def)
  then show ?thesis using assms(1,5) by (simp add: client_request_def Let_def online_def)
qed

definition desk_ready :: "environment \<Rightarrow> network \<Rightarrow> desk \<Rightarrow> bool" where
  "desk_ready env net dk \<longleftrightarrow> store_ok (sv_store (dk_server dk)) \<and> online env net dk"

lemma http_lists:
  assumes "desk_ready env net dk"
  shows "\<exists>rs dk'. client_list_robots env net None dk = (Inr rs, dk') \<and> desk_ready env net dk'"
    "\<exists>ts dk'. client_list_tasks env net None dk = (Inr ts, dk') \<and> desk_ready env net dk'"
proof -
  let ?db = "sv_store (dk_server dk)"
  have on: "online env net dk" and ok: "store_ok ?db" using assms by (simp_all add: desk_ready_def)
  obtain bs where bs: "res_map robot_read_of (list_robot_rows None ?db) = Inr bs" using read_rows(1) [OF ok] by blast
  have "handle env now salt user (Get_Robots None) (dk_server dk) =
      (Inr (200, Robot_List bs (length (list_robot_rows None ?db))), dk_server dk)" for now salt user
    by (simp add: get_robots_def reply_with_eq reading_def list_robots_def bs)
  from http_served [OF on _ _ this] show "\<exists>rs dk'. client_list_robots env net None dk = (Inr rs, dk') \<and> desk_ready env net dk'"
    using ok on by (simp add: client_list_robots_def fetch_def act_bind_def desk_ready_def online_def)
  obtain ds where ds: "res_map task_read_of (list_task_rows None ?db) = Inr ds" using read_rows(2) [OF ok] by blast
  have "handle env now salt user (Get_Tasks None) (dk_server dk) =
      (Inr (200, Task_List ds (length (list_task_rows None ?db))), dk_server dk)" for now salt user
    by (simp add: get_tasks_def reply_with_eq reading_def list_tasks_def ds)
  from http_served [OF on _ _ this] show "\<exists>ts dk'. client_list_tasks env net None dk = (Inr ts, dk') \<and> desk_ready env net dk'"
    using ok on by (simp add: client_list_tasks_def fetch_def act_bind_def desk_ready_def online_def)
qed

text \<open>A change of the fleet that the server can make.\<close>

lemma http_change_returns:
  assumes "desk_ready env net dk" "guard_of q = At_Least Operator" "body_valid q"
    and "\<And>now salt user. handle env now salt user q (dk_server dk) = (Inr (status, b), (dk_server dk)\<lparr>sv_store := db\<rparr>)"
    and "status < 400" "store_ok db"
  shows "\<exists>dk'. ignoring (client_request env net True q) dk = (Inr (), dk') \<and> desk_ready env net dk'"
proof -
  have on: "online env net dk" using assms(1) by (simp add: desk_ready_def)
  show ?thesis using http_served [OF on _ assms(3,4,5)] assms(2,6) on
    by (simp add: ignoring_def act_bind_def act_return_def desk_ready_def online_def)
qed

lemma coord_at_valid: "coord_valid c \<Longrightarrow> coord_at (co_row c) (co_col c) = Inr c"
  by (simp add: coord_valid_def coord_at_def)

lemma http_deletes:
  assumes "desk_ready env net dk"
  shows "rid \<in> set (dict_keys (robots_table (sv_store (dk_server dk)))) \<Longrightarrow>
      \<exists>dk'. client_delete_robot env net rid dk = (Inr (), dk') \<and> desk_ready env net dk'"
    "tid \<in> set (dict_keys (tasks_table (sv_store (dk_server dk)))) \<Longrightarrow>
      \<exists>dk'. client_delete_task env net tid dk = (Inr (), dk') \<and> desk_ready env net dk'"
proof -
  let ?db = "sv_store (dk_server dk)"
  have ok: "store_ok ?db" using assms by (simp add: desk_ready_def)
  show "\<exists>dk'. client_delete_robot env net rid dk = (Inr (), dk') \<and> desk_ready env net dk'"
    if key: "rid \<in> set (dict_keys (robots_table ?db))"
  proof -
    obtain r where "dict_get (robots_table ?db) rid = Some r" using key dict_get_None_iff [of "robots_table ?db" rid] by blast
    then have "delete_robot rid ?db = (Inr (), delete_robot_row rid ?db)" by (simp add: delete_robot_def find_robot_def)
    then show ?thesis unfolding client_delete_robot_def using delete_robot_ok [OF ok, of rid]
      by (intro http_change_returns [where status = 204 and b = No_Content, OF assms]) (simp_all add: delete_robot_by_id_def reply_with_eq)
  qed
  show "\<exists>dk'. client_delete_task env net tid dk = (Inr (), dk') \<and> desk_ready env net dk'"
    if key: "tid \<in> set (dict_keys (tasks_table ?db))"
  proof -
    obtain t where "dict_get (tasks_table ?db) tid = Some t" using key dict_get_None_iff [of "tasks_table ?db" tid] by blast
    then have "delete_task tid ?db = (Inr (), delete_task_row tid ?db)" by (simp add: delete_task_def find_task_def)
    then show ?thesis unfolding client_delete_task_def using delete_task_ok [OF ok, of tid]
      by (intro http_change_returns [where status = 204 and b = No_Content, OF assms]) (simp_all add: delete_task_by_id_def reply_with_eq)
  qed
qed

lemma http_creates:
  assumes "desk_ready env net dk"
  shows "robot_create_valid b \<Longrightarrow> fst (robot_from_body b (sv_store (dk_server dk))) = Inr r \<Longrightarrow>
      \<exists>dk'. ignoring (client_create_robot env net b) dk = (Inr (), dk') \<and> desk_ready env net dk'"
    "task_create_valid t \<Longrightarrow> fst (task_from_body t (sv_store (dk_server dk))) = Inr rec \<Longrightarrow>
      \<exists>dk'. ignoring (client_create_task env net t) dk = (Inr (), dk') \<and> desk_ready env net dk'"
proof -
  let ?db = "sv_store (dk_server dk)"
  have ok: "store_ok ?db" using assms by (simp add: desk_ready_def)
  show "\<exists>dk'. ignoring (client_create_robot env net b) dk = (Inr (), dk') \<and> desk_ready env net dk'"
    if b: "robot_create_valid b" "fst (robot_from_body b ?db) = Inr r"
  proof -
    have "coord_valid (rb_position b)" using b(1) by (simp add: robot_create_valid_def)
    then obtain rd where "robot_read_of r = Inr rd"
      using create_robot_record [OF b(2) [unfolded robot_from_body_def]] by (simp add: robot_read_of_def coord_at_valid)
    moreover have "store_ok (snd (robot_from_body b ?db))"
      unfolding robot_from_body_def by (rule create_robot_ok [OF ok create_floats [OF b(1)]])
    ultimately show ?thesis unfolding client_create_robot_def using b
      by (intro http_change_returns [OF assms]) (auto simp: post_robot_def robot_from_body_def [symmetric] reply_with_eq map_sum_id_eq)
  qed
  show "\<exists>dk'. ignoring (client_create_task env net t) dk = (Inr (), dk') \<and> desk_ready env net dk'"
    if t: "task_create_valid t" "fst (task_from_body t ?db) = Inr rec"
  proof -
    have "coord_valid (tb_pickup t)" "coord_valid (tb_dropoff t)" using t(1) by (simp_all add: task_create_valid_def)
    moreover have "rec_pickup_row rec = co_row (tb_pickup t) \<and> rec_pickup_col rec = co_col (tb_pickup t) \<and>
        rec_dropoff_row rec = co_row (tb_dropoff t) \<and> rec_dropoff_col rec = co_col (tb_dropoff t)"
      using t(2) by (auto simp: task_from_body_def create_task_def Let_def split: sum.splits if_splits)
    ultimately obtain rd where "task_read_of rec = Inr rd" by (simp add: task_read_of_def coord_at_valid)
    moreover have "store_ok (snd (task_from_body t ?db))"
      unfolding task_from_body_def by (rule create_task_ok [OF ok])
    ultimately show ?thesis unfolding client_create_task_def using t
      by (intro http_change_returns [OF assms]) (auto simp: post_task_def task_from_body_def [symmetric] reply_with_eq map_sum_id_eq)
  qed
qed

interpretation http: willing_client "http_client env net" dk_server "desk_ready env net" for env net
proof (unfold_locales, goal_cases)
  case 1
  then show ?case using http_list_robots by (simp add: http_client_def)
next
  case 2
  then show ?case using http_list_tasks by (simp add: http_client_def)
next
  case 3
  then show ?case using http_changes(1) by (simp add: http_client_def)
next
  case 4
  then show ?case using http_changes(2) by (simp add: http_client_def)
next
  case 5
  then show ?case using http_changes(3) by (simp add: http_client_def)
next
  case 6
  then show ?case using http_changes(4) by (simp add: http_client_def)
next
  case 7
  then show ?case by (simp add: desk_ready_def)
qed (simp_all add: http_client_def http_lists http_deletes http_creates)

section \<open>Initialising the scenario\<close>

text \<open>
  C38: When initialising the scenario returns, the persisted fleet is exactly the fixed one, robots
  idle and tasks pending, whatever valid fleet it was before; the accounts and the recorded runs are
  untouched, and the summary counts the rows and names the ones that belong to no scenario. It does
  return whenever the network delivers and the token of the session stays good for an operator: no
  request of it is refused.
\<close>

theorem sync_makes_scenario_exact:
  assumes "store_ok (sv_store (dk_server dk))"
  shows "(\<forall>y dk'. sync_persisted_scenario (http_client env net) dk = (Inr y, dk') \<longrightarrow>
      dk_server dk' = (dk_server dk)\<lparr>sv_store := (sv_store (dk_server dk))
        \<lparr>robots_table := map (\<lambda>b. (rb_robot_id b, robot_row_of b)) robot_bodies,
         tasks_table := map (\<lambda>b. (tb_task_id b, task_row_of b)) task_bodies\<rparr>\<rparr> \<and>
      y = \<lparr>sy_robots = 4, sy_tasks = 3, sy_removed = stale_ids (sv_store (dk_server dk))\<rparr>) \<and>
    ((\<forall>n. mo_delivery (net n) = Delivered) \<and>
     (\<forall>n. \<not> isl (admit env (mo_now (net n)) (headers (dk_token dk)) (At_Least Operator) (sv_users (dk_server dk)))) \<longrightarrow>
      (\<exists>y dk'. sync_persisted_scenario (http_client env net) dk = (Inr y, dk')))"
proof (intro conjI allI impI)
  fix y dk' assume "sync_persisted_scenario (http_client env net) dk = (Inr y, dk')"
  note exact = http.sync_exact [OF this assms]
  show "dk_server dk' = (dk_server dk)\<lparr>sv_store := (sv_store (dk_server dk))
        \<lparr>robots_table := map (\<lambda>b. (rb_robot_id b, robot_row_of b)) robot_bodies,
         tasks_table := map (\<lambda>b. (tb_task_id b, task_row_of b)) task_bodies\<rparr>\<rparr>"
    "y = \<lparr>sy_robots = 4, sy_tasks = 3, sy_removed = stale_ids (sv_store (dk_server dk))\<rparr>"
    using exact by (simp_all add: on_fleet_def scenario_store_def)
next
  assume "(\<forall>n. mo_delivery (net n) = Delivered) \<and>
    (\<forall>n. \<not> isl (admit env (mo_now (net n)) (headers (dk_token dk)) (At_Least Operator) (sv_users (dk_server dk))))"
  then have "desk_ready env net dk" using assms by (simp add: desk_ready_def online_def)
  then show "\<exists>y dk'. sync_persisted_scenario (http_client env net) dk = (Inr y, dk')" using http.sync_returns by blast
qed

text \<open>The administrator of the sample server at its desk; time stands still.\<close>

definition root_desk :: desk where
  "root_desk = \<lparr>dk_token = root_token, dk_server = eve_server, dk_calls = 0\<rparr>"

definition still :: network where
  "still n = \<lparr>mo_now = 0, mo_salt = [], mo_delivery = Delivered\<rparr>"

lemma root_desk_ready: "desk_ready plain_env still root_desk"
proof -
  have "\<not> isl (admit plain_env 0 (headers root_token) (At_Least Operator) (sv_users eve_server))" by code_simp
  moreover have "server_ok eve_server" using reachable_ok [OF _ eve_reachable] by (simp add: plain_env_def brute_force_ok)
  ultimately show ?thesis by (simp add: desk_ready_def online_def root_desk_def still_def server_ok_def)
qed

lemma sync_makes_scenario_exact_witness:
  "\<exists>y dk'. sync_persisted_scenario (http_client plain_env still) root_desk = (Inr y, dk') \<and> sy_robots y = 4 \<and> sy_removed y = [] \<and>
     dict_keys (robots_table (sv_store (dk_server dk'))) = [''R1'', ''R2'', ''R3'', ''R4'']"
proof -
  have "store_ok (sv_store (dk_server root_desk))" using root_desk_ready by (simp add: desk_ready_def)
  note exact = sync_makes_scenario_exact [OF this, of plain_env still]
  have "(\<forall>n. mo_delivery (still n) = Delivered) \<and>
    (\<forall>n. \<not> isl (admit plain_env (mo_now (still n)) (headers (dk_token root_desk)) (At_Least Operator) (sv_users (dk_server root_desk))))"
    using root_desk_ready by (simp add: desk_ready_def online_def)
  with exact obtain y dk' where run: "sync_persisted_scenario (http_client plain_env still) root_desk = (Inr y, dk')" by blast
  with exact have "dict_keys (robots_table (sv_store (dk_server dk'))) = [''R1'', ''R2'', ''R3'', ''R4'']" "sy_robots y = 4"
    "sy_removed y = stale_ids (sv_store eve_server)"
    by (simp_all add: robot_bodies_def fixed_robots_def root_desk_def)
  moreover have "stale_ids (sv_store eve_server) = []" by code_simp
  ultimately show ?thesis using run by auto
qed

end
