(* ===== verification/Dashboard_Properties.thy ===== *)
theory Dashboard_Properties
  imports Dashboard Scenario_Sync Coordination_Properties
begin

text \<open>
  What holds of the dashboard: the obstacle it picks, what a session keeps consistent however its
  controls are used, when it leaves the service alone, and what it shows once the scenario is there.
\<close>

section \<open>The obstacle of the demo\<close>

lemma longest_route_max:
  "longest_route b cs \<in> insert b (set cs) \<and> (\<forall>c \<in> insert b (set cs). length (snd c) \<le> length (snd (longest_route b cs)))"
proof (induction b cs rule: longest_route.induct)
  case (2 best c cs)
  let ?b = "if route_less best c then c else best"
  have "length (snd c) \<le> length (snd ?b)" "length (snd best) \<le> length (snd ?b)" by (auto simp: route_less_def)
  moreover have "length (snd ?b) \<le> length (snd (longest_route ?b cs))" using "2.IH" by blast
  ultimately have "length (snd c) \<le> length (snd (longest_route best (c # cs)))"
    "length (snd best) \<le> length (snd (longest_route best (c # cs)))" by simp_all
  then show ?case using "2.IH" by (auto split: if_splits)
qed simp

lemma coordinated_steps:
  assumes "dict_ok starts" "dict_ok goals" "coordinate manhattan_distance w starts goals order horizon = Inr cr"
    and "(r, tp) \<in> set (cr_timed_paths cr)" "tp_success tp"
  shows "i < length (tp_steps tp) \<Longrightarrow> step_timestep (tp_steps tp ! i) = int i"
proof (cases "validate_request starts goals order")
  case None
  then obtain failed rt where I: "coord_inv w starts goals (cr_horizon cr) (priority_list starts order) (cr_timed_paths cr, failed, rt)"
    using coordinate_inv [OF assms(1,2) None refl, of w horizon] assms(3) by auto
  from coord_inv_routes [OF this assms(4,5)] have "timed_path_ok tp" "tp_start_time tp = 0" unfolding route_of_def by blast+
  then show "i < length (tp_steps tp) \<Longrightarrow> step_timestep (tp_steps tp ! i) = int i" by (simp add: timed_path_ok_def)
next
  case (Some failure)
  then show "i < length (tp_steps tp) \<Longrightarrow> step_timestep (tp_steps tp ! i) = int i"
    using assms(3,4) by (auto simp: coordinate_def rejected_def)
qed

text \<open>
  The obstacle that the dashboard picks lies in the middle of a planned route, of a robot that
  has one and none of whose fellows has a longer one; it falls after the start and before the
  timestep at which the plan has the robot in that middle.
\<close>

theorem obstacle_on_planned_route:
  assumes "dict_ok starts" "dict_ok goals" "coordinate manhattan_distance w starts goals order horizon = Inr cr"
    and "pick_dynamic_obstacle (Some (coordination_response_of cr)) = Some p"
  shows "\<exists>tp k. (pk_robot_id p, tp) \<in> set (cr_timed_paths cr) \<and> tp_success tp \<and> k = length (tp_steps tp) div 2 \<and>
    cell_of (pk_cell p) = step_position (tp_steps tp ! k) \<and> step_timestep (tp_steps tp ! k) = int k \<and>
    1 \<le> pk_timestep p \<and> pk_timestep p < int k \<and>
    (\<forall>(r, q) \<in> set (cr_timed_paths cr). tp_success q \<longrightarrow> length (tp_steps q) \<le> length (tp_steps tp))"
proof -
  let ?cs = "obstacle_candidates (coordination_response_of cr)"
  have cands: "?cs = map (\<lambda>x. (fst x, ct_steps (coordinated_route_of (fst x) (snd x))))
      (filter (\<lambda>x. tp_success (snd x) \<and> 5 \<le> length (tp_steps (snd x))) (cr_timed_paths cr))"
    by (simp add: obstacle_candidates_def coordination_response_of_def filter_map comp_def split_def coordinated_route_of_def)
  have mem: "c \<in> set ?cs \<longleftrightarrow> (\<exists>x \<in> set (cr_timed_paths cr). c = (fst x, ct_steps (coordinated_route_of (fst x) (snd x))) \<and>
      tp_success (snd x) \<and> 5 \<le> length (tp_steps (snd x)))" for c
    unfolding cands by auto
  obtain c cs where cs: "?cs = c # cs" using assms(4) by (auto simp: pick_dynamic_obstacle_def split: list.splits)
  obtain rid steps where best: "longest_route c cs = (rid, steps)" by fastforce
  have max: "(rid, steps) \<in> set ?cs" "\<forall>x \<in> set ?cs. length (snd x) \<le> length steps"
    using longest_route_max [of c cs] by (simp_all add: cs best)
  obtain tp where tp: "(rid, tp) \<in> set (cr_timed_paths cr)" "tp_success tp" "5 \<le> length (tp_steps tp)"
    "steps = ct_steps (coordinated_route_of rid tp)" using max(1) unfolding mem by auto
  define k where "k = length (tp_steps tp) div 2"
  have k: "k < length (tp_steps tp)" "2 \<le> k" using tp(3) by (auto simp: k_def)
  have len: "length steps = length (tp_steps tp)" by (simp add: tp(4) coordinated_route_of_def)
  have time: "step_timestep (tp_steps tp ! k) = int k"
    by (rule coordinated_steps [OF assms(1-3) tp(1,2) k(1)])
  have mid: "steps ! k = \<lparr>ts_row = row (step_position (tp_steps tp ! k)), ts_col = col (step_position (tp_steps tp ! k)), ts_timestep = int k\<rparr>"
    using k(1) time by (simp add: tp(4) coordinated_route_of_def)
  have p: "pk_robot_id p = rid" "cell_of (pk_cell p) = step_position (tp_steps tp ! k)" "pk_timestep p = max 1 (min 2 (int k - 1))"
    using assms(4) mid by (auto simp: pick_dynamic_obstacle_def cs best len k_def [symmetric] Let_def cell_of_def)
  have "length (tp_steps q) \<le> length (tp_steps tp)" if "(r, q) \<in> set (cr_timed_paths cr)" "tp_success q" for r q
  proof (cases "5 \<le> length (tp_steps q)")
    case True
    then have "(r, ct_steps (coordinated_route_of r q)) \<in> set ?cs" using that unfolding mem by force
    then show ?thesis using max(2) len by (force simp: coordinated_route_of_def)
  qed (use tp(3) in simp)
  then show ?thesis using tp(1,2) p time k by (intro exI [of _ tp] exI [of _ k]) (auto simp: k_def)
qed

text \<open>A robot that drives a corridor of five cells.\<close>

definition corridor :: warehouse where
  "corridor = \<lparr>warehouse_name = ''corridor'', warehouse_grid = \<lparr>grid_width = 5, grid_height = 1, grid_blocked = {}\<rparr>,
     locations = [], static_registry = [], dynamic_registry = []\<rparr>"

lemma obstacle_on_planned_route_witness:
  "\<exists>cr p tp k. coordinate manhattan_distance corridor [(''A'', Position 0 0)] [(''A'', Position 0 4)] None None = Inr cr \<and>
     pick_dynamic_obstacle (Some (coordination_response_of cr)) = Some p \<and> pk_cell p = \<lparr>co_row = 0, co_col = 2\<rparr> \<and>
     (''A'', tp) \<in> set (cr_timed_paths cr) \<and> step_timestep (tp_steps tp ! k) = int k \<and> pk_timestep p < int k"
proof -
  have "map_sum id (\<lambda>cr. pick_dynamic_obstacle (Some (coordination_response_of cr)))
      (coordinate manhattan_distance corridor [(''A'', Position 0 0)] [(''A'', Position 0 4)] None None) =
    Inr (Some \<lparr>pk_cell = \<lparr>co_row = 0, co_col = 2\<rparr>, pk_timestep = 1, pk_robot_id = ''A''\<rparr>)" by code_simp
  then obtain cr where cr: "coordinate manhattan_distance corridor [(''A'', Position 0 0)] [(''A'', Position 0 4)] None None = Inr cr"
    "pick_dynamic_obstacle (Some (coordination_response_of cr)) = Some \<lparr>pk_cell = \<lparr>co_row = 0, co_col = 2\<rparr>, pk_timestep = 1, pk_robot_id = ''A''\<rparr>"
    unfolding map_sum_id_eq by auto
  have "dict_ok [(''A'', Position 0 0)]" "dict_ok [(''A'', Position 0 4)]" by (simp_all add: dict_ok_def)
  from obstacle_on_planned_route [OF this cr] cr show ?thesis by auto
qed

text \<open>
  A robot that waits on its start may stand in the middle of its own route: the obstacle then falls
  on the cell that it occupies, not "before the robot reaches that cell".
\<close>

lemma obstacle_under_waiting_robot:
  "pick_dynamic_obstacle (Some (coordination_response_of \<lparr>cr_success = True, cr_timed_paths =
     [(''A'', tp_found ''A'' [TimedStep (Position 0 0) 0, TimedStep (Position 0 0) 1, TimedStep (Position 0 0) 2,
        TimedStep (Position 0 1) 3, TimedStep (Position 0 2) 4])], cr_robot_order = [''A''], cr_planned_robot_count = 1,
     cr_failed_robot_ids = [], cr_total_move_steps = 2, cr_total_wait_steps = 2, cr_makespan = 4, cr_total_space_time_cost = 4,
     cr_conflict_checks = 0, cr_horizon = 9, cr_failure_reason = None\<rparr>)) =
   Some \<lparr>pk_cell = \<lparr>co_row = 0, co_col = 0\<rparr>, pk_timestep = 1, pk_robot_id = ''A''\<rparr>"
  by code_simp

section \<open>What calls do to the service and to the session\<close>

text \<open>Some requests, one after the other.\<close>

definition one_served :: "environment \<Rightarrow> server \<Rightarrow> server \<Rightarrow> bool" where
  "one_served env sv sv' \<longleftrightarrow> (\<exists>now salt credentials q. sv' = snd (serve env now salt credentials q sv))"

definition serving :: "environment \<Rightarrow> (desk, 'a) action \<Rightarrow> bool" where
  "serving env m \<longleftrightarrow> (\<forall>dk. (one_served env)\<^sup>*\<^sup>* (dk_server dk) (dk_server (snd (m dk))) \<and> dk_token (snd (m dk)) = dk_token dk)"

definition quiet :: "(desk, 'a) action \<Rightarrow> bool" where
  "quiet m \<longleftrightarrow> (\<forall>dk. dk_server (snd (m dk)) = dk_server dk)"

named_theorems action_rules

lemma serving_request [action_rules]: "serving env (client_request env net auth q)"
  unfolding serving_def
proof
  fix dk
  show "(one_served env)\<^sup>*\<^sup>* (dk_server dk) (dk_server (snd (client_request env net auth q dk))) \<and>
      dk_token (snd (client_request env net auth q dk)) = dk_token dk"
    by (auto simp: client_request_def Let_def one_served_def split: prod.split intro!: r_into_rtranclp)
      (metis snd_conv)+
qed

lemma serving_return [action_rules]: "serving env (act_return x)"
  by (simp add: serving_def act_return_def)

lemma serving_bind [action_rules]: "serving env m \<Longrightarrow> (\<And>x. serving env (f x)) \<Longrightarrow> serving env (act_bind m f)"
  unfolding serving_def act_bind_def by (auto split: prod.splits sum.splits) (metis rtranclp_trans snd_conv)+

lemma serving_each [action_rules]: "(\<And>x. serving env (f x)) \<Longrightarrow> serving env (act_each f xs)"
  by (induction xs) (auto intro: action_rules)

lemma serving_pure [action_rules]: "serving env (Pair x)"
  by (simp add: serving_def)

lemma quiet_request [action_rules]: "guard_of q \<notin> {At_Least Operator, At_Least Admin} \<Longrightarrow> quiet (client_request env net auth q)"
proof -
  assume g: "guard_of q \<notin> {At_Least Operator, At_Least Admin}"
  have "snd (serve env now salt credentials q sv) = sv" for now salt credentials sv
  proof -
    obtain resp sv' where run: "serve env now salt credentials q sv = (resp, sv')" by fastforce
    then have "sv' = sv"
    proof (cases rule: serve_cases)
      case (answered user status b)
      then show ?thesis using handle_reading [of q env now salt user sv] g by simp
    qed simp_all
    then show ?thesis by (simp add: run)
  qed
  then show ?thesis by (auto simp: quiet_def client_request_def Let_def split: prod.split) (metis snd_conv)+
qed

lemma quiet_bind [action_rules]: "quiet m \<Longrightarrow> (\<And>x. quiet (f x)) \<Longrightarrow> quiet (act_bind m f)"
  unfolding quiet_def act_bind_def by (auto split: prod.splits sum.splits) (metis snd_conv)+

lemma quiet_pure [action_rules]: "quiet (Pair x)" "quiet (\<lambda>dk. (x, dk\<lparr>dk_token := t\<rparr>))"
  by (simp_all add: quiet_def)

lemma http_client_serving [action_rules]:
  "serving env (client_list_robots env net status)" "serving env (client_list_tasks env net status)"
  "serving env (client_health env net)" "serving env (client_ready env net)"
  "serving env (sync_persisted_scenario (http_client env net))"
proof -
  show "serving env (client_ready env net)"
  proof -
    have "serving env (fetch env net False Get_Ready Some)" unfolding fetch_def by (intro action_rules)
    then show ?thesis unfolding serving_def client_ready_def by (auto split: prod.split sum.split client_error.split) (metis snd_conv)+
  qed
qed (auto simp: client_list_robots_def client_list_tasks_def client_health_def fetch_def sync_persisted_scenario_def http_client_def
    client_delete_robot_def client_delete_task_def client_create_robot_def client_create_task_def ignoring_def Let_def intro!: action_rules)

lemma payload_serving [action_rules]: "serving env (payload_of pick (client_request env net auth q))"
  unfolding payload_of_def by (intro action_rules)

lemma http_client_quiet [action_rules]:
  "quiet (client_list_robots env net status)" "quiet (client_list_tasks env net status)" "quiet (client_health env net)"
  "quiet (client_ready env net)" "quiet (client_login env net username password)"
proof -
  show "quiet (client_ready env net)"
  proof -
    have "quiet (fetch env net False Get_Ready Some)" unfolding fetch_def by (intro action_rules) simp_all
    then show ?thesis unfolding quiet_def client_ready_def by (auto split: prod.split sum.split client_error.split) (metis snd_conv)+
  qed
qed (auto simp: client_list_robots_def client_list_tasks_def client_health_def client_login_def fetch_def intro!: action_rules)

section \<open>What a session keeps\<close>

definition session_ok :: "dashboard \<Rightarrow> bool" where
  "session_ok da \<longleftrightarrow> (da_authed da \<longrightarrow> dk_token (da_desk da) \<notin> {None, Some []}) \<and>
     (da_coordination da \<noteq> None \<or> da_plan_demo da \<noteq> None \<or> da_recoveries da \<noteq> [] \<longrightarrow> da_allocation da \<noteq> None) \<and>
     (da_obstacle da \<noteq> None \<longleftrightarrow> Obstacle_Kind \<in> fst ` set (da_recoveries da)) \<and>
     (da_obstacle da \<noteq> None \<longrightarrow> da_coordination da \<noteq> None)"

abbreviation da_server :: "dashboard \<Rightarrow> server" where
  "da_server da \<equiv> dk_server (da_desk da)"

lemma call_frame [simp]:
  "da_desk (snd (call fn da)) = snd (fn (da_desk da))" "da_allocation (snd (call fn da)) = da_allocation da"
  "da_coordination (snd (call fn da)) = da_coordination da" "da_recoveries (snd (call fn da)) = da_recoveries da"
  "da_plan_demo (snd (call fn da)) = da_plan_demo da" "da_obstacle (snd (call fn da)) = da_obstacle da"
  "da_scenario_ready (snd (call fn da)) = da_scenario_ready da" "da_log (snd (call fn da)) = da_log da"
  by (auto simp: call_def split: prod.split sum.split client_error.split)

lemma call_authed: "da_authed (snd (call fn da)) \<Longrightarrow> da_authed da"
  by (auto simp: call_def split: prod.splits sum.splits client_error.splits if_splits)

text \<open>A stretch of a run of the script: requests are served, and a consistent session stays so.\<close>

definition stretch :: "connection \<Rightarrow> dashboard \<Rightarrow> dashboard \<Rightarrow> bool" where
  "stretch cn da da' \<longleftrightarrow> (one_served (cn_env cn))\<^sup>*\<^sup>* (da_server da) (da_server da') \<and> (session_ok da \<longrightarrow> session_ok da')"

lemma stretch_refl: "stretch cn da da"
  by (simp add: stretch_def)

lemma stretch_trans: "stretch cn da da1 \<Longrightarrow> stretch cn da1 da2 \<Longrightarrow> stretch cn da da2"
  by (auto simp: stretch_def)

lemma stretch_call: "serving (cn_env cn) fn \<Longrightarrow> stretch cn da (snd (call fn da))"
  using call_authed [of fn da] by (auto simp: stretch_def serving_def session_ok_def)

lemma login_token:
  "\<exists>r dk'. client_login env net username password dk = (r, dk') \<and> (one_served env)\<^sup>*\<^sup>* (dk_server dk) (dk_server dk') \<and>
     (case r of Inl e \<Rightarrow> dk_token dk' = dk_token dk | Inr token \<Rightarrow> dk_token dk' = Some token)"
proof -
  let ?m = "fetch env net False (Post_Token username password) token_of"
  have "serving env ?m" unfolding fetch_def by (intro action_rules)
  then show ?thesis by (cases "?m dk"; cases "fst (?m dk)") (auto simp: client_login_def act_bind_def serving_def dest!: spec [of _ dk])
qed

lemma stretch_ensure_auth: "stretch cn da (snd (ensure_auth cn da))"
proof (cases "da_authed da \<and> dk_token (da_desk da) \<notin> {None, Some []}")
  case True
  then show ?thesis by (simp add: ensure_auth_def stretch_refl)
next
  case out: False
  obtain r dk' where login: "client_login (cn_env cn) (cn_net cn) (cn_user cn) (cn_password cn) (da_desk da) = (r, dk')"
    "(one_served (cn_env cn))\<^sup>*\<^sup>* (da_server da) (dk_server dk')"
    "case r of Inl e \<Rightarrow> dk_token dk' = dk_token (da_desk da) | Inr token \<Rightarrow> dk_token dk' = Some token"
    using login_token by blast
  show ?thesis
  proof (cases r)
    case (Inl e)
    then show ?thesis using login out
      by (cases e) (auto simp: ensure_auth_def call_def stretch_def session_ok_def)
  next
    case (Inr token)
    then show ?thesis using login out by (auto simp: ensure_auth_def call_def stretch_def session_ok_def)
  qed
qed

lemma stretch_log_in: "stretch cn da (snd (log_in cn username password da))"
proof (cases "da_authed da")
  case out: False
  obtain r dk' where login: "client_login (cn_env cn) (cn_net cn) username password (da_desk da) = (r, dk')"
    "(one_served (cn_env cn))\<^sup>*\<^sup>* (da_server da) (dk_server dk')"
    "case r of Inl e \<Rightarrow> dk_token dk' = dk_token (da_desk da) | Inr token \<Rightarrow> dk_token dk' = Some token"
    using login_token by blast
  then show ?thesis using out
    by (cases r; cases "projl r") (auto simp: log_in_def call_def stretch_def session_ok_def)
qed (simp add: log_in_def stretch_refl)

lemma ensure_auth_view [simp]:
  "da_allocation (snd (ensure_auth cn da)) = da_allocation da" "da_coordination (snd (ensure_auth cn da)) = da_coordination da"
  "da_recoveries (snd (ensure_auth cn da)) = da_recoveries da" "da_plan_demo (snd (ensure_auth cn da)) = da_plan_demo da"
  "da_obstacle (snd (ensure_auth cn da)) = da_obstacle da" "da_scenario_ready (snd (ensure_auth cn da)) = da_scenario_ready da"
  "da_log (snd (ensure_auth cn da)) = da_log da"
proof -
  define logged where "logged = call (client_login (cn_env cn) (cn_net cn) (cn_user cn) (cn_password cn)) da"
  have "snd (ensure_auth cn da) \<in> {da, snd logged, (snd logged)\<lparr>da_authed := True\<rparr>}"
    by (auto simp: ensure_auth_def logged_def split: prod.split)
  then show "da_allocation (snd (ensure_auth cn da)) = da_allocation da" "da_coordination (snd (ensure_auth cn da)) = da_coordination da"
    "da_recoveries (snd (ensure_auth cn da)) = da_recoveries da" "da_plan_demo (snd (ensure_auth cn da)) = da_plan_demo da"
    "da_obstacle (snd (ensure_auth cn da)) = da_obstacle da" "da_scenario_ready (snd (ensure_auth cn da)) = da_scenario_ready da"
    "da_log (snd (ensure_auth cn da)) = da_log da"
    unfolding logged_def by auto
qed

lemma persisted_maps_stretch: "stretch cn da (snd (persisted_maps cn da))"
  and persisted_maps_view [simp]: "da_allocation (snd (persisted_maps cn da)) = da_allocation da"
    "da_coordination (snd (persisted_maps cn da)) = da_coordination da" "da_recoveries (snd (persisted_maps cn da)) = da_recoveries da"
    "da_plan_demo (snd (persisted_maps cn da)) = da_plan_demo da" "da_obstacle (snd (persisted_maps cn da)) = da_obstacle da"
proof -
  have eq: "snd (persisted_maps cn da) = snd (call (client_list_tasks (cn_env cn) (cn_net cn) None)
      (snd (call (client_list_robots (cn_env cn) (cn_net cn) None) da)))"
    by (simp add: persisted_maps_def split_def)
  show "stretch cn da (snd (persisted_maps cn da))" unfolding eq by (intro stretch_trans [OF stretch_call stretch_call] action_rules)
  show "da_allocation (snd (persisted_maps cn da)) = da_allocation da"
    "da_coordination (snd (persisted_maps cn da)) = da_coordination da" "da_recoveries (snd (persisted_maps cn da)) = da_recoveries da"
    "da_plan_demo (snd (persisted_maps cn da)) = da_plan_demo da" "da_obstacle (snd (persisted_maps cn da)) = da_obstacle da"
    unfolding eq by simp_all
qed

text \<open>The last call of a control, and what it writes into the session when it succeeds.\<close>

lemma stretch_after:
  assumes "serving (cn_env cn) fn"
    and "\<And>x da'. session_ok da' \<Longrightarrow> da_allocation da' = da_allocation da \<Longrightarrow> da_coordination da' = da_coordination da \<Longrightarrow>
      da_recoveries da' = da_recoveries da \<Longrightarrow> da_obstacle da' = da_obstacle da \<Longrightarrow> session_ok (upd x da')"
    and "\<And>x da'. da_desk (upd x da') = da_desk da'"
  shows "stretch cn da (case call fn da of (None, da') \<Rightarrow> da' | (Some x, da') \<Rightarrow> upd x da')"
proof -
  have s: "stretch cn da (snd (call fn da))" by (rule stretch_call [OF assms(1)])
  obtain r da' where c: "call fn da = (r, da')" by fastforce
  show ?thesis
  proof (cases r)
    case None
    then show ?thesis using s c by simp
  next
    case (Some x)
    have "session_ok da' \<Longrightarrow> session_ok (upd x da')"
      by (rule assms(2)) (use call_frame [of fn da] c in simp_all)
    then show ?thesis using s c Some assms(3) by (simp add: stretch_def)
  qed
qed

lemma noted_simps [simp]:
  "da_desk (noted ms da) = da_desk da" "da_allocation (noted ms da) = da_allocation da" "session_ok (noted ms da) = session_ok da"
  "da_coordination (noted ms da) = da_coordination da" "da_recoveries (noted ms da) = da_recoveries da" "da_obstacle (noted ms da) = da_obstacle da"
  "da_authed (noted ms da) = da_authed da" "da_plan_demo (noted ms da) = da_plan_demo da"
  "da_scenario_ready (noted ms da) = da_scenario_ready da"
  by (simp_all add: noted_def session_ok_def)

lemma assignments_allocation: "assignments_of da \<noteq> [] \<Longrightarrow> da_allocation da \<noteq> None"
  by (cases "da_allocation da") (simp_all add: assignments_of_def)

lemma stretch_initialise: "stretch cn da (initialise_scenario cn da)"
proof -
  obtain ok da1 where auth: "ensure_auth cn da = (ok, da1)" by fastforce
  have 1: "stretch cn da da1" using stretch_ensure_auth [of cn da] by (simp add: auth)
  have "stretch cn da1 (case call (sync_persisted_scenario (http_client (cn_env cn) (cn_net cn))) da1 of
      (None, da2) \<Rightarrow> da2
    | (Some synced, da2) \<Rightarrow> noted ((if sy_removed synced \<noteq> [] then [Cleared_Stale (sy_removed synced)] else []) @
             [Scenario_Initialised (sy_robots synced) (sy_tasks synced)]) (da2\<lparr>da_scenario_ready := True\<rparr>))"
    by (rule stretch_after [OF http_client_serving(5)]) (simp_all add: session_ok_def)
  from stretch_trans [OF 1 this] 1 show ?thesis by (simp add: initialise_scenario_def auth)
qed

lemma stretch_allocate: "stretch cn da (allocate_tasks cn da)"
proof -
  obtain ok da1 where auth: "ensure_auth cn da = (ok, da1)" by fastforce
  have 1: "stretch cn da da1" using stretch_ensure_auth [of cn da] by (simp add: auth)
  have "stretch cn da1 (case call (payload_of allocation_body (client_run_allocation (cn_env cn) (cn_net cn) cp_sat_request)) da1 of
      (None, da2) \<Rightarrow> da2
    | (Some resp, da2) \<Rightarrow> noted (allocation_events resp @
        (if ar_applied resp \<noteq> [] then [Assignments_Committed (ar_applied resp)] else [])) (da2\<lparr>da_allocation := Some resp\<rparr>))"
    unfolding client_run_allocation_def by (rule stretch_after [OF payload_serving]) (simp_all add: session_ok_def)
  from stretch_trans [OF 1 this] 1 show ?thesis by (simp add: allocate_tasks_def auth)
qed

lemma stretch_plan_routes: "stretch cn da (plan_routes cn algorithm da)"
proof -
  obtain ok da1 where auth: "ensure_auth cn da = (ok, da1)" by fastforce
  have 1: "stretch cn da da1" using stretch_ensure_auth [of cn da] by (simp add: auth)
  obtain rs ts da2 where maps: "persisted_maps cn da1 = ((rs, ts), da2)" by (metis prod.exhaust)
  have 2: "stretch cn da1 da2" using persisted_maps_stretch [of cn da1] by (simp add: maps)
  show ?thesis
  proof (cases "\<not> ok \<or> assignments_of da1 = []")
    case False
    then have alloc: "da_allocation da2 \<noteq> None"
      using assignments_allocation [of da1] persisted_maps_view(1) [of cn da1] by (auto simp: maps)
    let ?robots = "coordination_request_robots (assignments_of da1) rs ts"
    let ?call = "call (payload_of coordination_body (client_plan_coordination (cn_env cn) (cn_net cn)
           \<lparr>cq_robots = ?robots, cq_priority_order = None, cq_horizon = None, cq_warehouse = None\<rparr>)) da2"
    define da4 where "da4 = (case ?call of (None, da3) \<Rightarrow> da3
      | (Some r, da3) \<Rightarrow> noted (coordination_events r) (da3\<lparr>da_coordination := Some r\<rparr>))"
    have 4: "stretch cn da2 da4" unfolding da4_def client_plan_coordination_def
      by (rule stretch_after [OF payload_serving]) (use alloc in \<open>simp_all add: session_ok_def\<close>)
    obtain resp da3 where c: "?call = (resp, da3)" by fastforce
    have "da_allocation da3 = da_allocation da2" using arg_cong [OF c, of "\<lambda>x. da_allocation (snd x)"] by simp
    then have alloc4: "da_allocation da4 \<noteq> None" using alloc by (simp add: da4_def c split: option.split)
    have d: "da4 = (case resp of None \<Rightarrow> da3 | Some r \<Rightarrow> noted (coordination_events r) (da3\<lparr>da_coordination := Some r\<rparr>))"
      by (simp add: da4_def c)
    have run: "plan_routes cn algorithm da = (case ?robots of [] \<Rightarrow> da4 | first # _ \<Rightarrow>
        (case call (payload_of path_body (client_plan_path (cn_env cn) (cn_net cn)
            \<lparr>pb_start = cb_start first, pb_goal = cb_goal first, pb_algorithm = Some algorithm, pb_warehouse = None,
             pb_dynamic_obstacles = None\<rparr>)) da4 of
           (None, da5) \<Rightarrow> da5
         | (Some demo, da5) \<Rightarrow> noted [Route_Demo algorithm (cb_robot_id first) (pp_total_cost demo) (pp_nodes_expanded demo)]
             (da5\<lparr>da_plan_demo := Some demo\<rparr>)))"
      using False c by (cases ?robots) (simp_all add: plan_routes_def auth maps Let_def d)
    have "stretch cn da4 (plan_routes cn algorithm da)"
    proof (cases ?robots)
      case Nil
      then show ?thesis unfolding run by (simp add: stretch_refl)
    next
      case (Cons first rest)
      show ?thesis unfolding run Cons list.case client_plan_path_def
        by (rule stretch_after [OF payload_serving]) (use alloc4 in \<open>simp_all add: session_ok_def\<close>)
    qed
    then show ?thesis using 1 2 4 stretch_trans by metis
  qed (use 1 in \<open>auto simp: plan_routes_def auth\<close>)
qed

lemma stretch_inject: "stretch cn da (inject_obstacle cn da)"
proof -
  obtain ok da1 where auth: "ensure_auth cn da = (ok, da1)" by fastforce
  have 1: "stretch cn da da1" using stretch_ensure_auth [of cn da] by (simp add: auth)
  obtain rs ts da2 where maps: "persisted_maps cn da1 = ((rs, ts), da2)" by (metis prod.exhaust)
  have 2: "stretch cn da1 da2" using persisted_maps_stretch [of cn da1] by (simp add: maps)
  show ?thesis
  proof (cases "\<not> ok \<or> assignments_of da1 = [] \<or> (case da_coordination da1 of None \<Rightarrow> True | Some c \<Rightarrow> ck_routes c = []) \<or>
      pick_dynamic_obstacle (da_coordination da1) = None")
    case False
    then have session: "da_allocation da2 \<noteq> None" "da_coordination da2 \<noteq> None"
      using assignments_allocation [of da1] persisted_maps_view(1,2) [of cn da1] by (auto simp: maps split: option.splits)
    obtain picked where picked: "pick_dynamic_obstacle (da_coordination da1) = Some picked" using False by blast
    have run: "inject_obstacle cn da = (case call (payload_of recovery_body (client_recover_obstacle (cn_env cn) (cn_net cn)
          \<lparr>vq_robots = map as_recovery_robot (coordination_request_robots (assignments_of da1) rs ts),
           vq_timestep = pk_timestep picked, vq_priority_order = None, vq_horizon = None, vq_recovery_enabled = None,
           vq_warehouse = None, vq_obstacle = pk_cell picked\<rparr>)) da2 of
        (None, da3) \<Rightarrow> da3
      | (Some resp, da3) \<Rightarrow>
          noted (Obstacle_Dropped (pk_cell picked) (pk_robot_id picked) (pk_timestep picked) # recovery_events resp Obstacle_Kind)
            (da3\<lparr>da_obstacle := Some picked, da_recoveries := da_recoveries da3 @ [(Obstacle_Kind, resp)]\<rparr>))"
      using False by (auto simp: inject_obstacle_def auth maps picked)
    have "stretch cn da2 (inject_obstacle cn da)" unfolding run client_recover_obstacle_def
      by (rule stretch_after [OF payload_serving]) (use session in \<open>simp_all add: session_ok_def image_Un\<close>)
    then show ?thesis using 1 2 stretch_trans by metis
  qed (use 1 in \<open>auto simp: inject_obstacle_def auth\<close>)
qed

lemma stretch_fail_robot: "stretch cn da (fail_robot cn da)"
proof -
  obtain ok da1 where auth: "ensure_auth cn da = (ok, da1)" by fastforce
  have 1: "stretch cn da da1" using stretch_ensure_auth [of cn da] by (simp add: auth)
  obtain rs ts da2 where maps: "persisted_maps cn da1 = ((rs, ts), da2)" by (metis prod.exhaust)
  have 2: "stretch cn da1 da2" using persisted_maps_stretch [of cn da1] by (simp add: maps)
  show ?thesis
  proof (cases "\<not> ok \<or> assignments_of da1 = []")
    case False
    then have alloc: "da_allocation da2 \<noteq> None"
      using assignments_allocation [of da1] persisted_maps_view(1) [of cn da1] by (auto simp: maps)
    define da3 where "da3 = noted [Failing (hd (sort (map aa_robot_id (assignments_of da1))))
      (list_ex (\<lambda>r. vb_robot_id r = SPARE_ROBOT_ID) (recovery_request_robots (assignments_of da1) rs ts SPARE_ROBOT_ID))] da2"
    have 3: "stretch cn da2 da3" by (simp add: stretch_def da3_def)
    have run: "fail_robot cn da = (case call (payload_of recovery_body (client_recover_robot_failure (cn_env cn) (cn_net cn)
            \<lparr>vq_robots = recovery_request_robots (assignments_of da1) rs ts SPARE_ROBOT_ID, vq_timestep = FAILURE_TIMESTEP,
             vq_priority_order = None, vq_horizon = None, vq_recovery_enabled = None, vq_warehouse = None,
             vq_failed_robot_id = hd (sort (map aa_robot_id (assignments_of da1))), vq_commit = Some True\<rparr>)) da3 of
          (None, da4) \<Rightarrow> da4
        | (Some resp, da4) \<Rightarrow> noted (recovery_events resp Failure_Kind @
              (if rk_committed resp then [Reassignment_Persisted (rk_committed_state resp)] else []))
            (da4\<lparr>da_recoveries := da_recoveries da4 @ [(Failure_Kind, resp)]\<rparr>))"
      using False by (simp add: fail_robot_def auth maps Let_def da3_def)
    have "stretch cn da3 (fail_robot cn da)" unfolding run client_recover_robot_failure_def
      by (rule stretch_after [OF payload_serving]) (use alloc in \<open>simp_all add: session_ok_def image_Un da3_def\<close>)
    then show ?thesis using 1 2 3 stretch_trans by metis
  qed (use 1 in \<open>auto simp: fail_robot_def auth\<close>)
qed

lemma stretch_control: "stretch cn da (snd (control cn used da))"
proof (cases "(cn, used, da)" rule: control.cases)
  case (8 cn da)
  then show ?thesis by (simp add: stretch_def session_ok_def reset_scenario_def)
qed (simp_all add: stretch_refl stretch_log_in stretch_initialise stretch_allocate stretch_plan_routes stretch_inject stretch_fail_robot)

section \<open>One run of the script\<close>

lemma stretch_connect: "stretch cn da (snd (connect cn da))"
proof -
  obtain health da1 where h: "call (client_health (cn_env cn) (cn_net cn)) da = (health, da1)" by fastforce
  obtain rb da2 where r: "(if health = None then (None, da1) else call (client_ready (cn_env cn) (cn_net cn)) da1) = (rb, da2)" by fastforce
  have "stretch cn da da1" using stretch_call [OF http_client_serving(3)] h by (metis snd_conv)
  moreover have "stretch cn da1 (snd (call (client_ready (cn_env cn) (cn_net cn)) da1))" by (rule stretch_call [OF http_client_serving(4)])
  then have "stretch cn da1 da2" using r by (auto simp: stretch_refl split: if_splits)
  moreover have "snd (connect cn da) = snd (ensure_auth cn da2)" using r by (cases health) (simp_all add: connect_def h split_def)
  ultimately show ?thesis using stretch_ensure_auth stretch_trans by metis
qed

lemma read_rows_snd: "snd (read_rows_for_page fn da) = (if da_authed da then da\<lparr>da_desk := snd (fn (da_desk da))\<rparr> else da)"
  by (auto simp: read_rows_for_page_def split: prod.split sum.split)

lemma stretch_read: "serving (cn_env cn) fn \<Longrightarrow> stretch cn da (snd (read_rows_for_page fn da))"
  by (simp add: read_rows_snd stretch_def serving_def session_ok_def)

lemma stretch_main: "stretch cn da (snd (main_area cn banner da))"
proof -
  have "snd (main_area cn banner da) = snd (read_rows_for_page (client_list_tasks (cn_env cn) (cn_net cn) None)
      (snd (read_rows_for_page (client_list_robots (cn_env cn) (cn_net cn) None) da)))"
    by (simp add: main_area_def split_def)
  then show ?thesis using stretch_trans [OF stretch_read stretch_read] http_client_serving(1,2) by metis
qed

lemma stretch_run: "stretch cn da (snd (run_script cn used da))"
proof -
  obtain banner da1 where c: "connect cn da = (banner, da1)" by fastforce
  obtain again da2 where u: "control cn used da1 = (again, da2)" by fastforce
  obtain banner' da3 where c': "connect cn da2 = (banner', da3)" by fastforce
  have 1: "stretch cn da da1" using stretch_connect [of cn da] c by simp
  have 2: "stretch cn da1 da2" using stretch_control [where cn = cn and used = used and da = da1] u by simp
  have 3: "stretch cn da2 da3" using stretch_connect [of cn da2] c' by simp
  have "snd (run_script cn used da) = (if again then snd (main_area cn banner' da3) else snd (main_area cn banner da2))"
    by (simp add: run_script_def c u c')
  then show ?thesis using stretch_trans [OF stretch_trans [OF 1 2] stretch_main]
      stretch_trans [OF stretch_trans [OF stretch_trans [OF 1 2] 3] stretch_main] by simp
qed

text \<open>
  A session: runs of the script, between which other clients use the service.
\<close>

inductive session :: "connection \<Rightarrow> dashboard \<Rightarrow> bool" for cn where
  opened: "api_reachable (cn_env cn) sv \<Longrightarrow> session cn (init_state sv)"
| used: "session cn da \<Longrightarrow> session cn (snd (run_script cn used da))"
| meanwhile: "session cn da \<Longrightarrow> da' = da\<lparr>da_desk := (da_desk da)\<lparr>dk_server := snd (serve_with fault (cn_env cn) now salt credentials q (da_server da))\<rparr>\<rparr> \<Longrightarrow>
    session cn da'"

lemma served_reachable: "(one_served env)\<^sup>*\<^sup>* sv sv' \<Longrightarrow> api_reachable env sv \<Longrightarrow> api_reachable env sv'"
  by (induction rule: rtranclp_induct) (auto simp: one_served_def intro: served_request)

lemma session_invariant: "session cn da \<Longrightarrow> api_reachable (cn_env cn) (da_server da) \<and> session_ok da"
proof (induction rule: session.induct)
  case (opened sv)
  then show ?case by (simp add: init_state_def session_ok_def)
next
  case (used da u)
  then show ?case using stretch_run [of cn da u] served_reachable by (auto simp: stretch_def)
next
  case (meanwhile da da' fault now salt credentials q)
  then show ?case by (auto simp: session_ok_def intro: one_request)
qed

text \<open>
  C39: However the controls are used, whatever the network loses, and whatever other clients and
  failures of the database do in between, the persisted database stays valid and the session is consistent: it counts as signed in only with a token,
  shows routes and disruptions only beside an allocation, and an obstacle exactly if one has been
  injected into a plan.
\<close>

theorem dashboard_session_consistent:
  assumes "solver_ok (env_solver (cn_env cn))" "session cn da"
  shows "store_ok (sv_store (da_server da)) \<and> users_ok (sv_users (da_server da)) \<and>
    (da_authed da \<longrightarrow> dk_token (da_desk da) \<notin> {None, Some []}) \<and>
    (da_coordination da \<noteq> None \<or> da_plan_demo da \<noteq> None \<or> da_recoveries da \<noteq> [] \<longrightarrow> da_allocation da \<noteq> None) \<and>
    (da_obstacle da \<noteq> None \<longleftrightarrow> Obstacle_Kind \<in> fst ` set (da_recoveries da)) \<and>
    (da_obstacle da \<noteq> None \<longrightarrow> da_coordination da \<noteq> None)"
  using session_invariant [OF assms(2)] reachable_ok [OF assms(1)] by (auto simp: server_ok_def session_ok_def)

section \<open>When the dashboard leaves the service alone\<close>

lemma untouched_call: "quiet fn \<Longrightarrow> da_server (snd (call fn da)) = da_server da"
  by (simp add: quiet_def)

lemma ensure_auth_server [simp]: "da_server (snd (ensure_auth cn da)) = da_server da"
  using untouched_call [OF http_client_quiet(5), of "cn_env cn" "cn_net cn" "cn_user cn" "cn_password cn" da]
  by (simp add: ensure_auth_def split_def)

lemma log_in_server: "da_server (snd (log_in cn username password da)) = da_server da"
  using untouched_call [OF http_client_quiet(5), of "cn_env cn" "cn_net cn" username password da]
  by (simp add: log_in_def split_def)

lemma read_rows_server: "quiet fn \<Longrightarrow> da_server (snd (read_rows_for_page fn da)) = da_server da"
  by (simp add: read_rows_snd quiet_def)

text \<open>The banner and the main area only read, and leave what the session shows alone.\<close>

definition same_view :: "dashboard \<Rightarrow> dashboard \<Rightarrow> bool" where
  "same_view da da' \<longleftrightarrow> da_allocation da' = da_allocation da \<and> da_coordination da' = da_coordination da \<and>
     da_recoveries da' = da_recoveries da \<and> da_plan_demo da' = da_plan_demo da \<and> da_obstacle da' = da_obstacle da \<and>
     da_scenario_ready da' = da_scenario_ready da \<and> da_log da' = da_log da"

lemma connect_reads:
  "da_server (snd (connect cn da)) = da_server da" "same_view da (snd (connect cn da))"
  "cn_user cn = [] \<or> cn_password cn = [] \<Longrightarrow> da_authed (snd (connect cn da)) \<Longrightarrow> da_authed da"
proof -
  define da1 where "da1 = snd (call (client_health (cn_env cn) (cn_net cn)) da)"
  define da2 where "da2 = (if fst (call (client_health (cn_env cn) (cn_net cn)) da) = None then da1
    else snd (call (client_ready (cn_env cn) (cn_net cn)) da1))"
  have eq: "snd (connect cn da) = snd (ensure_auth cn da2)"
    by (simp add: connect_def da1_def da2_def split_def)
  have "da_server da1 = da_server da" unfolding da1_def by (rule untouched_call [OF http_client_quiet(3)])
  moreover have "da_server da2 = da_server da1" using untouched_call [OF http_client_quiet(4)] by (simp add: da2_def)
  ultimately show "da_server (snd (connect cn da)) = da_server da" by (simp add: eq)
  have "same_view da da2" by (simp add: same_view_def da1_def da2_def)
  then show "same_view da (snd (connect cn da))" by (simp add: eq same_view_def)
  have "da_authed da2 \<Longrightarrow> da_authed da1" "da_authed da1 \<Longrightarrow> da_authed da"
    using call_authed by (auto simp: da1_def da2_def split: if_splits)
  then show "da_authed da" if "cn_user cn = [] \<or> cn_password cn = []" "da_authed (snd (connect cn da))"
    using that by (auto simp: eq ensure_auth_def split: if_splits)
qed

lemma main_area_reads:
  "da_server (snd (main_area cn banner da)) = da_server da" "same_view da (snd (main_area cn banner da))"
proof -
  have eq: "snd (main_area cn banner da) = snd (read_rows_for_page (client_list_tasks (cn_env cn) (cn_net cn) None)
      (snd (read_rows_for_page (client_list_robots (cn_env cn) (cn_net cn) None) da)))"
    by (simp add: main_area_def split_def)
  show "da_server (snd (main_area cn banner da)) = da_server da"
    unfolding eq using read_rows_server http_client_quiet(1,2) by metis
  show "same_view da (snd (main_area cn banner da))" unfolding eq by (simp add: read_rows_snd same_view_def)
qed

text \<open>The uses of the dashboard that are not meant to change anything.\<close>

definition idle_use :: "interaction option \<Rightarrow> bool" where
  "idle_use used = (case used of None \<Rightarrow> True | Some (Log_In username password) \<Rightarrow> True | Some Reset \<Rightarrow> True | _ \<Rightarrow> False)"

lemma control_idle: "idle_use used \<Longrightarrow> da_server (snd (control cn used da)) = da_server da"
  by (cases "(cn, used, da)" rule: control.cases) (simp_all add: idle_use_def log_in_server reset_scenario_def)

lemma control_signed_out:
  assumes "\<not> da_authed da" "cn_user cn = [] \<or> cn_password cn = []"
  shows "da_server (snd (control cn used da)) = da_server da"
proof -
  have out: "ensure_auth cn da = (False, da)" using assms by (auto simp: ensure_auth_def)
  show ?thesis
    by (cases "(cn, used, da)" rule: control.cases)
      (use out in \<open>simp_all add: log_in_server reset_scenario_def initialise_scenario_def allocate_tasks_def plan_routes_def
        inject_obstacle_def fail_robot_def\<close>)
qed

text \<open>
  A run of the dashboard changes nothing behind the service, neither a row nor an account, when
  no control was used, or only the login form or "reset scenario", and for any control as long as
  the session is not signed in and no credentials are configured. "Reset scenario" clears the
  dashboard's own view completely.
\<close>

theorem dashboard_changes_nothing_unasked:
  assumes "idle_use used \<or> \<not> da_authed da \<and> (cn_user cn = [] \<or> cn_password cn = [])"
  shows "da_server (snd (run_script cn used da)) = da_server da \<and>
    (used = Some Reset \<longrightarrow> da_log (snd (run_script cn used da)) = [] \<and> da_allocation (snd (run_script cn used da)) = None \<and>
       da_coordination (snd (run_script cn used da)) = None \<and> da_recoveries (snd (run_script cn used da)) = [] \<and>
       da_plan_demo (snd (run_script cn used da)) = None \<and> da_obstacle (snd (run_script cn used da)) = None \<and>
       \<not> da_scenario_ready (snd (run_script cn used da)))"
proof -
  obtain banner da1 where c: "connect cn da = (banner, da1)" by fastforce
  obtain again da2 where u: "control cn used da1 = (again, da2)" by fastforce
  obtain banner' da3 where c': "connect cn da2 = (banner', da3)" by fastforce
  have run: "snd (run_script cn used da) = (if again then snd (main_area cn banner' da3) else snd (main_area cn banner da2))"
    by (simp add: run_script_def c u c')
  have 1: "da_server da1 = da_server da" using connect_reads(1) [of cn da] by (simp add: c)
  have 2: "da_server da2 = da_server da1"
    using assms control_idle [where used = used and cn = cn and da = da1] control_signed_out [where used = used and cn = cn and da = da1] connect_reads(3) [of cn da] by (auto simp: u c)
  have 3: "da_server da3 = da_server da2" using connect_reads(1) [of cn da2] by (simp add: c')
  have "da_server (snd (run_script cn used da)) = da_server da" unfolding run by (simp add: main_area_reads 1 2 3)
  moreover have "same_view (reset_scenario da1) (snd (run_script cn used da))" if "used = Some Reset"
  proof -
    have "again" "da2 = reset_scenario da1" using u that by simp_all
    moreover have "same_view da2 da3" using connect_reads(2) [where cn = cn and da = da2] by (simp add: c')
    moreover have "same_view da3 (snd (main_area cn banner' da3))" by (rule main_area_reads)
    ultimately show ?thesis by (simp add: run same_view_def)
  qed
  ultimately show ?thesis by (auto simp: same_view_def reset_scenario_def)
qed

text \<open>The dashboard of the sample server, with no credentials configured.\<close>

definition sample_connection :: connection where
  "sample_connection = \<lparr>cn_env = plain_env, cn_net = still, cn_user = [], cn_password = []\<rparr>"

definition signed_in :: dashboard where
  "signed_in = snd (run_script sample_connection (Some (Log_In ''root'' ''password'')) (init_state eve_server))"

lemma signed_in_authed: "da_authed signed_in" "dk_token (da_desk signed_in) = root_token" "da_server signed_in = eve_server"
  by code_simp+

lemma dashboard_session_consistent_witness:
  "da_authed signed_in \<and> dk_token (da_desk signed_in) \<notin> {None, Some []} \<and> store_ok (sv_store (da_server signed_in))"
proof -
  have "solver_ok (env_solver (cn_env sample_connection))" by (simp add: sample_connection_def plain_env_def brute_force_ok)
  moreover have "api_reachable (cn_env sample_connection) eve_server" by (simp add: sample_connection_def eve_reachable)
  then have "session sample_connection signed_in" unfolding signed_in_def by (intro used opened)
  ultimately show ?thesis using dashboard_session_consistent [of sample_connection signed_in] signed_in_authed(1) by blast
qed

lemma dashboard_changes_nothing_unasked_witness:
  "da_server (snd (run_script sample_connection (Some Initialise) (init_state eve_server))) = eve_server \<and>
   da_allocation (snd (run_script sample_connection (Some Reset) signed_in)) = None"
proof -
  have "\<not> da_authed (init_state eve_server) \<and> cn_user sample_connection = []" by (simp add: init_state_def sample_connection_def)
  then have "da_server (snd (run_script sample_connection (Some Initialise) (init_state eve_server))) = da_server (init_state eve_server)"
    using dashboard_changes_nothing_unasked [where used = "Some Initialise" and da = "init_state eve_server" and cn = sample_connection] by simp
  moreover have "idle_use (Some Reset)" by (simp add: idle_use_def)
  then have "da_allocation (snd (run_script sample_connection (Some Reset) signed_in)) = None"
    using dashboard_changes_nothing_unasked [where used = "Some Reset" and da = signed_in and cn = sample_connection] by simp
  ultimately show ?thesis by (simp add: init_state_def)
qed

section \<open>The page after initialising\<close>

lemma desk_ready_same: "dk_token dk' = dk_token dk \<Longrightarrow> dk_server dk' = dk_server dk \<Longrightarrow> desk_ready env net dk' = desk_ready env net dk"
  by (simp add: desk_ready_def online_def)

lemma online_health:
  assumes "online env net dk"
  shows "\<exists>b. client_health env net dk = (Inr b, dk\<lparr>dk_calls := Suc (dk_calls dk)\<rparr>)"
    "\<exists>b. client_ready env net dk = (Inr b, dk\<lparr>dk_calls := Suc (dk_calls dk)\<rparr>)"
  using assms by (auto simp: client_health_def client_ready_def fetch_def act_bind_def client_request_def Let_def online_def serve_def
      admit_def in_transaction_def get_health_def get_ready_def as_api_error_def)

lemma signed_in_connect:
  assumes "desk_ready (cn_env cn) (cn_net cn) (da_desk da)" "da_authed da" "dk_token (da_desk da) \<notin> {None, Some []}"
  shows "snd (connect cn da) = da\<lparr>da_desk := (da_desk da)\<lparr>dk_calls := dk_calls (da_desk da) + 2\<rparr>\<rparr>"
proof -
  have on: "online (cn_env cn) (cn_net cn) (da_desk da)" using assms(1) by (simp add: desk_ready_def)
  obtain b where b: "client_health (cn_env cn) (cn_net cn) (da_desk da) = (Inr b, (da_desk da)\<lparr>dk_calls := Suc (dk_calls (da_desk da))\<rparr>)"
    using online_health(1) [OF on] by blast
  have "online (cn_env cn) (cn_net cn) ((da_desk da)\<lparr>dk_calls := Suc (dk_calls (da_desk da))\<rparr>)" using on by (simp add: online_def)
  from online_health(2) [OF this] obtain c where
    c: "client_ready (cn_env cn) (cn_net cn) ((da_desk da)\<lparr>dk_calls := Suc (dk_calls (da_desk da))\<rparr>) =
      (Inr c, (da_desk da)\<lparr>dk_calls := dk_calls (da_desk da) + 2\<rparr>)" by auto
  show ?thesis using assms(2,3) by (simp add: connect_def call_def b c ensure_auth_def)
qed

lemma scenario_rows:
  "res_map robot_read_of (list_robot_rows None (scenario_store db)) = res_map robot_read_of (list_robot_rows None (scenario_store empty_store))"
  "res_map task_read_of (list_task_rows None (scenario_store db)) = res_map task_read_of (list_task_rows None (scenario_store empty_store))"
  by (simp_all add: list_robot_rows_def list_task_rows_def scenario_store_def)

lemma scenario_page:
  "map_sum id (\<lambda>rs. map (\<lambda>l. (ln_robot l, ln_state l, ln_position l, ln_assigned_task l)) (robot_rows rs))
     (res_map robot_read_of (list_robot_rows None (scenario_store empty_store))) =
   Inr [(''R1'', ''idle'', (0, 4), ''-''), (''R2'', ''idle'', (4, 0), ''-''), (''R3'', ''idle'', (7, 11), ''-''), (''R4'', ''idle'', (0, 10), ''-'')]"
  "map_sum id (\<lambda>ts. map (\<lambda>l. (ln_task l, ln_task_state l, ln_assigned_robot l)) (task_rows ts))
     (res_map task_read_of (list_task_rows None (scenario_store empty_store))) =
   Inr [(''T1'', ''pending'', ''-''), (''T2'', ''pending'', ''-''), (''T3'', ''pending'', ''-'')]"
  by code_simp+

text \<open>
  Pressing "initialise scenario" in a signed-in session with a working connection does what
  the button says: the page shows the four idle robots on their cells and the three pending tasks,
  with no assignment and no warning about stale rows, and reports the initialisation first in the log.
\<close>

theorem initialise_shows_scenario:
  assumes "desk_ready (cn_env cn) (cn_net cn) (da_desk da)" "da_authed da" "dk_token (da_desk da) \<notin> {None, Some []}"
  shows "map (\<lambda>l. (ln_robot l, ln_state l, ln_position l, ln_assigned_task l)) (pg_robots (fst (run_script cn (Some Initialise) da))) =
      [(''R1'', ''idle'', (0, 4), ''-''), (''R2'', ''idle'', (4, 0), ''-''), (''R3'', ''idle'', (7, 11), ''-''), (''R4'', ''idle'', (0, 10), ''-'')] \<and>
    map (\<lambda>l. (ln_task l, ln_task_state l, ln_assigned_robot l)) (pg_tasks (fst (run_script cn (Some Initialise) da))) =
      [(''T1'', ''pending'', ''-''), (''T2'', ''pending'', ''-''), (''T3'', ''pending'', ''-'')] \<and>
    pg_notice (fst (run_script cn (Some Initialise) da)) = None \<and>
    hd (pg_log (fst (run_script cn (Some Initialise) da))) = Scenario_Initialised 4 3"
proof -
  let ?env = "cn_env cn" let ?net = "cn_net cn"
  obtain banner da1 where c: "connect cn da = (banner, da1)" by fastforce
  have da1: "da1 = da\<lparr>da_desk := (da_desk da)\<lparr>dk_calls := dk_calls (da_desk da) + 2\<rparr>\<rparr>"
    using signed_in_connect [OF assms] by (simp add: c)
  have r1: "desk_ready ?env ?net (da_desk da1)" using assms(1) by (simp add: da1 desk_ready_def online_def)
  have a1: "da_authed da1" "dk_token (da_desk da1) \<notin> {None, Some []}" using assms(2,3) by (simp_all add: da1)
  obtain y dk2 where sync: "sync_persisted_scenario (http_client ?env ?net) (da_desk da1) = (Inr y, dk2)" and r2: "desk_ready ?env ?net dk2"
    using http.sync_returns [OF r1] by blast
  have ok1: "store_ok (sv_store (dk_server (da_desk da1)))" using r1 by (simp add: desk_ready_def)
  note exact = http.sync_exact [OF sync ok1]
  define da2 where "da2 = noted ((if sy_removed y \<noteq> [] then [Cleared_Stale (sy_removed y)] else []) @ [Scenario_Initialised 4 3])
    (da1\<lparr>da_desk := dk2, da_scenario_ready := True\<rparr>)"
  have u: "control cn (Some Initialise) da1 = (False, da2)"
    using a1 exact(2) by (auto simp: initialise_scenario_def ensure_auth_def call_def sync da2_def)
  have at2: "da_authed da2" "da_desk da2 = dk2" "da_scenario_ready da2"
    using a1 by (simp_all add: da2_def noted_def)
  obtain rs dk3 where robots: "client_list_robots ?env ?net None dk2 = (Inr rs, dk3)" and r3: "desk_ready ?env ?net dk3"
    using http_lists(1) [OF r2] by blast
  obtain ts dk4 where tasks: "client_list_tasks ?env ?net None dk3 = (Inr ts, dk4)" using http_lists(2) [OF r3] by blast
  have rows: "res_map robot_read_of (list_robot_rows None (scenario_store empty_store)) = Inr rs"
    "res_map task_read_of (list_task_rows None (scenario_store empty_store)) = Inr ts"
    using http_robot_rows [OF robots] http_task_rows [OF tasks] exact(1)
    by (simp_all add: on_fleet_def scenario_rows [of "sv_store (da_server da1)"])
  have page: "pg_robots (fst (run_script cn (Some Initialise) da)) = robot_rows rs"
    "pg_tasks (fst (run_script cn (Some Initialise) da)) = task_rows ts"
    "pg_notice (fst (run_script cn (Some Initialise) da)) = None"
    "pg_log (fst (run_script cn (Some Initialise) da)) = rev (log_tail 30 (da_log da2))"
    using robots tasks by (simp_all add: run_script_def c u main_area_def read_rows_for_page_def at2 persisted_scenario_notice_def
        del: control.simps)
  have "da_log da2 = butlast (da_log da2) @ [Scenario_Initialised 4 3]"
    by (simp add: da2_def noted_def log_extend_def butlast_append)
  then have "hd (rev (log_tail 30 (da_log da2))) = Scenario_Initialised 4 3"
    by (metis (no_types) hd_rev last_drop last_snoc length_append_singleton log_tail_def not_less zero_less_Suc diff_less zero_less_numeral)
  then show ?thesis using scenario_page unfolding page rows by simp
qed

lemma initialise_shows_scenario_witness:
  "pg_notice (fst (run_script sample_connection (Some Initialise) signed_in)) = None"
proof -
  have "dk_server (da_desk signed_in) = eve_server" using signed_in_authed(3) by simp
  then have "desk_ready plain_env still (da_desk signed_in) = desk_ready plain_env still root_desk"
    using signed_in_authed(2) by (intro desk_ready_same) (simp_all add: root_desk_def)
  then have "desk_ready (cn_env sample_connection) (cn_net sample_connection) (da_desk signed_in)"
    using root_desk_ready by (simp add: sample_connection_def)
  moreover have "root_token \<notin> {None, Some []}" by code_simp
  ultimately show ?thesis using initialise_shows_scenario [of sample_connection signed_in] signed_in_authed by simp
qed

end
