(* ===== verification/Spec2Isabelle.thy ===== *)
theory Spec2Isabelle
  imports Coordination_Properties Fleet_Properties Recovery_Properties Retry Service_Properties Api_Properties
    Dashboard_Properties
begin

text \<open>
  Verification of the multi-robot fulfilment program (the Python packages under \<open>src/robotics\<close> and
  \<open>src/frontend\<close>): a warehouse floor, robots and tasks, a simulator that moves the robots,
  shortest-path planners, a coordinator that plans a fleet in space and time, the executors that
  drive the plans, the allocators that give tasks to robots, the recovery from disruptions, the
  services that run all this on a persisted fleet, the HTTP interface to them, and the dashboard.

  \<^bold>\<open>How the parts interact.\<close> The simulator (\<open>simulation/simulator.py\<close>) owns a warehouse and the
  registries of robots and tasks, and every change of the world goes through it. The allocators
  (\<open>allocation\<close>) price pairs of robots and tasks with a planner (\<open>planning\<close>) and return a plan
  that \<open>allocation/commit.py\<close> applies through the simulator. The route executor (\<open>execution\<close>)
  drives one planned route through \<open>move_robot\<close>. The coordinator (\<open>coordination\<close>) plans the
  robots one after the other with space-time A* around a shared reservation table; the conflict
  validator checks its result on its own, and the coordinated executor drives it in
  synchronised steps. The recovery manager (\<open>recovery\<close>) drives a coordinated plan while obstacles
  appear and robots fail, replans one route at a time against the routes of the others, and hands
  the task of a failed robot to a spare one. The services (\<open>services\<close>) build these objects from the
  rows of the database (\<open>persistence\<close>) and from requests, run them, write the outcome back and
  record the run. The HTTP interface (\<open>api\<close>) admits a caller, checks the body against its schema,
  runs one service call in a transaction and turns its outcome, or the failure of the database,
  into a response. The dashboard (\<open>frontend\<close>) is a script that calls that interface and shows what
  it answers.

  \<^bold>\<open>Conventions.\<close> A class is a \<open>record\<close>, an enum a \<open>datatype\<close>; a mutable object is the entry of its
  registry, which is an association list in insertion order (\<open>Prelude\<close>), and a method takes the
  state and returns it. An operation that may raise returns \<open>py_error + value\<close>; one that may raise
  after it has changed something returns that sum beside the new state. The f-strings of
  messages are constructors that carry their parts (\<open>move_reason\<close>, \<open>plan_reason\<close>,
  \<open>coordination_problem\<close> ...), one per message. Python's integers are \<open>int\<close> or \<open>nat\<close>; its floats
  are rationals with every operation rounded to the nearest double, ties to even, written out in
  \<open>Py_Float\<close> (\<open>fl\<close>), without overflow, infinities and not-a-number: the numbers in request bodies are
  finite, although the schemas let infinite ones pass where they set no upper bound (the overflow of
  \<open>2 ** (attempt - 2)\<close> in the backoff of \<open>Retry\<close> is a branch of its own). Strings are lists of
  characters; upper and lower case and \<open>strip\<close> are those of ASCII. A table of the database is an
  association list under its primary key; the tables of runs are lists, without the generated run
  ids and time stamps. A request runs in a transaction (\<open>in_transaction\<close>): an error restores the
  store. Requests are served one after the other; that two of them wrote at once shows as the
  constraint that fires (\<open>fault\<close>). Wall-clock times, logging and rendering are left out.

  \<^bold>\<open>The theories\<close>, in the order of the code.

    \<^item> \<open>Prelude\<close>, \<open>Py_Float\<close>: results and loops over calls that may raise, dictionaries, lists;
      rounding to doubles and its monotonicity.
    \<^item> \<open>Position\<close>, \<open>Grid\<close>, \<open>Warehouse\<close> (\<open>warehouse/grid.py\<close>, \<open>obstacle.py\<close>, \<open>warehouse.py\<close>,
      \<open>exceptions.py\<close>): cells, adjacency, the blocked grid, typed locations, static and dynamic
      obstacles. Invariant \<open>warehouse_ok\<close>, kept by every operation.
    \<^item> \<open>Robot\<close>, \<open>Task\<close> (\<open>robots\<close>, \<open>tasks\<close>): the two state machines; \<open>robot_core_ok\<close> bounds the battery,
      \<open>task_step\<close> is the lifecycle relation.
    \<^item> \<open>Simulator\<close>: every operation of \<open>WarehouseSimulator\<close>, the invariants \<open>sim_ok\<close> (no shared cell,
      nobody on a blocked cell, entries under their ids) and \<open>links_ok\<close> (robots and tasks agree),
      the step relation \<open>sim_step\<close> of all calls and of starting and closing a task, and
      \<open>sim_reachable\<close>.
    \<^item> \<open>Frontier\<close>: the contract of \<open>heapq\<close> as the locale \<open>priority_queue\<close>, interpreted on the model of
      the heap that both planners use; the search state of A* and the locale \<open>state_graph\<close>, in
      which the search is proved to find shortest paths on any graph with a consistent heuristic.
    \<^item> \<open>Planning\<close>, \<open>Astar\<close>, \<open>Dijkstra\<close> (\<open>planning\<close>): the request check, the result type, the validator,
      the contract \<open>plan_spec\<close> of a planner, and the two planners, which refine it. \<open>grid_search\<close>
      is the locale of a heuristic on the grid, interpreted for both heuristics.
    \<^item> \<open>Timed_Path\<close>, \<open>Reservation\<close>, \<open>Space_Time\<close> (\<open>coordination/timed_path.py\<close>,
      \<open>reservation_table.py\<close>, \<open>space_time_planner.py\<close>): timed routes, the reservation table with
      its query counter, and space-time A*, an instance of \<open>state_graph\<close> through the locale
      \<open>st_space\<close>.
    \<^item> \<open>Conflicts\<close>, \<open>Coordinator\<close>, \<open>Coordinated_Executor\<close> (\<open>coordination/conflicts.py\<close>,
      \<open>coordinator.py\<close>, \<open>coordination_result.py\<close>, \<open>coordinated_executor.py\<close>): the validator and what
      it accepts (\<open>plan_valid\<close>), prioritised planning with the invariant that the table holds exactly
      the planned paths, and the two-phase execution of a joint plan.
    \<^item> \<open>Route_Executor\<close> (\<open>execution\<close>): resolution, pre-flight and the stepping loop.
    \<^item> \<open>Allocation\<close>, \<open>Allocators\<close>, \<open>Allocation_Check\<close>, \<open>Commit\<close> (\<open>allocation\<close>): the estimator with its
      cache, the candidate pairs, the greedy and the optimising allocator, the checker, and the
      commit. \<open>route_planner\<close> is the locale of what the estimator needs from a planner,
      interpreted on both planners. OR-Tools is a parameter of \<open>cp_sat_allocate\<close>; \<open>solver_ok\<close> says
      what its documentation promises (the reported values satisfy the constraints, and OPTIMAL
      means that no others have a larger objective), and a solver that tries every set of
      variables shows that this can hold.
    \<^item> \<open>Replanner\<close>, \<open>Recovery\<close> (\<open>recovery/disruption.py\<close>, \<open>dynamic_replanner.py\<close>,
      \<open>recovery_manager.py\<close>, \<open>recovery_result.py\<close>): the events, the repair of one route, the state of
      a resilient run, the two event handlers, the validation of a timestep and its commit, and the
      loop over the timesteps. \<open>Recovery_World\<close>, \<open>Recovery_Safety\<close>: the invariants \<open>world_ok\<close> (kept by
      every handler) and the conditions under which a validated timestep commits as a whole.
    \<^item> \<open>Retry\<close> (\<open>common/retry.py\<close>), \<open>Scenario\<close> (\<open>simulation/scenario.py\<close>): the retry loop over a
      stateful call with its capped exponential backoff, and the sample floor and fleet.
    \<^item> \<open>Settings\<close> (\<open>persistence/config.py\<close>, \<open>persistence/database.py\<close>): the configuration with its
      bounds and derived values, the options of the engine, the redaction of the logged URL, the
      readiness probe and the wait for the database at start-up.
    \<^item> \<open>Store\<close>, \<open>World\<close> (\<open>persistence/models.py\<close>, \<open>repositories.py\<close>, \<open>services/errors.py\<close>,
      \<open>services/world.py\<close>): rows, tables, service errors with their status codes, transactions, and
      the conversion of rows to domain objects.
    \<^item> \<open>Fleet_Service\<close>, \<open>Fleet_Store\<close> (\<open>services/robot_service.py\<close>, \<open>task_service.py\<close>): the requests on
      robots and tasks, and the invariant \<open>store_ok\<close> of the persisted fleet that all of them keep.
    \<^item> \<open>Run_Services\<close>, \<open>Request_Floor\<close>, \<open>Allocation_Service\<close>, \<open>Fleet_Requests\<close>
      (\<open>services/planning_service.py\<close>, \<open>allocation_service.py\<close>, \<open>coordination_service.py\<close>,
      \<open>recovery_service.py\<close>): the services that run
      an algorithm; the floor of a request in terms of its cells; what a committed allocation and a
      persisted reassignment leave in the rows; and \<open>served\<close>, the step relation of all requests.
    \<^item> \<open>Auth\<close> (\<open>api/security.py\<close>, \<open>api/dependencies.py\<close>, \<open>services/auth_service.py\<close>): passwords, tokens,
      users and role guards. bcrypt and PyJWT are parameters; \<open>hashing_ok\<close> and \<open>tokens_ok\<close> say what
      their documentation promises, and plain text shows that this can hold.
    \<^item> \<open>Api_Schema\<close>, \<open>Api\<close> (\<open>api/schemas\<close>, \<open>api/routers\<close>, \<open>api/errors.py\<close>, \<open>api/app.py\<close>): every request
      and response schema with its constraints, one definition per endpoint with the guard that it
      declares, \<open>serve\<close> for what becomes of a request, \<open>serve_with\<close> for a request that meets a
      failing database, and the start-up. \<open>Api_Guards\<close>, \<open>Api_Answers\<close>: what each request may read and
      change, and with which errors it may be answered.
    \<^item> \<open>Api_Client\<close>, \<open>Dashboard_Scenario\<close>, \<open>Scenario_Sync\<close>, \<open>View_Model\<close>, \<open>Dashboard\<close>
      (\<open>frontend/api_client.py\<close>, \<open>scenario.py\<close>, \<open>view_model.py\<close>, \<open>app.py\<close>): the client over a network
      that may lose a request or its answer, the step that makes the persisted fleet be the fixed
      scenario (written against the locale \<open>fleet_client\<close>, interpreted on the HTTP client), the
      transforms of the view model, and one run of the dashboard script with its controls.
    \<^item> \<open>Fixtures\<close>, \<open>Fleet_Properties\<close>, \<open>Coordination_Properties\<close>, \<open>Allocation_Properties\<close>,
      \<open>Recovery_Properties\<close>, \<open>Service_Properties\<close>, \<open>Api_Properties\<close>, \<open>Dashboard_Properties\<close>, and the
      last sections of \<open>Dijkstra\<close>, \<open>Reservation\<close>, \<open>Commit\<close>, \<open>Retry\<close>, \<open>Settings\<close>, \<open>Scenario\<close>, \<open>Auth\<close>
      and \<open>Scenario_Sync\<close>: the properties with their witnesses.

  \<^bold>\<open>Termination.\<close> No function has fuel. The loops of A*, Dijkstra and space-time A* are total: a
  turn either closes a node of a finite set or shrinks the heap, and the measures are the
  \<open>termination\<close> proofs behind the definitions. Walking back the parent links is a
  \<open>partial_function (option)\<close>, and that it returns is part of the planners' contract. The resilient
  loop and the retry loop are recursions over the list of timesteps and of attempts, as the code's
  \<open>for\<close> loops over a range.

  \<^bold>\<open>What the properties show.\<close> Planning: both planners meet the contract and agree, and the
  validator is exact. Coordination: planned paths are conflict-free, reach their goals, and are
  complete for one robot; planning for registered robots and executing the plan never raises, keeps
  the simulator's invariant and ends on the goals.
  Simulation: no reachable state has a collision, robots and tasks agree, a planned route is
  driven. Allocation: prices are shortest routes, the checker is exact, the greedy choice is
  stable, the optimum encoded in one objective is the lexicographic one, commits are
  all-or-nothing. Recovery: a resilient run without a safe stop leaves a consistent world in
  which no two robots share a cell, a failed robot ends offline where it stood and its task is
  failed, pending again or with another robot, a repaired route continues the old one. Services: a
  planning request is answered with a shortest path on the requested floor, a coordination request
  with routes to the requested goals,
  a committed allocation and a reassignment are in the rows, a login gives a token that is good
  for its role until it expires. HTTP interface: no sequence of requests, restarts and failures of
  the database breaks the persisted data, only those with the role for it change anything, every
  answer has a documented status, and what is posted is what is read. Dashboard: initialising makes
  the persisted fleet exactly the scenario, and a session stays consistent however it is used. Some
  theorems state where the code falls short of its
  documentation: the executor ignores robots outside the plan, a stopped robot is run over, two
  requests leave robots and tasks in disagreement, the obstacle of the demo may fall on a robot.

  \<^bold>\<open>Not modelled.\<close> The map renderer (\<open>simulation/renderer.py\<close>) and the drawing of the dashboard
  (\<open>frontend/plotting.py\<close>); the creation of the tables and the migrations of the database; logging
  and correlation ids; the headers of responses other than the challenge of a 401; and the
  \<open>to_dict\<close> and \<open>__str__\<close> methods: text and transport around the operations above. The demo scripts
  and the benchmarks call the modelled operations and print what they return.
\<close>

end
